(* ===== verification/WchPrelude.thy ===== *)
theory WchPrelude
  imports Main "HOL-Library.Word"
begin

text \<open>
  Shared vocabulary of the development: the machine types of the C++ sources
  (\<open>uint8_t\<close>, \<open>uint64_t\<close>, \<open>int\<close>), byte strings, the exceptions the sources throw, and the
  generic lemmas on lists, words and results that the component theories use.
\<close>

unbundle bit_operations_syntax

type_synonym byte = "8 word"
type_synonym bytes = "byte list"
type_synonym u64 = "64 word"
type_synonym u32 = "32 word"

text \<open>
  The C++ exceptions that can leave a modelled function. A function that may throw returns
  \<open>exn + 'a\<close>, with \<open>Inl\<close> for the exception.
\<close>

datatype exn =
    Runtime_error
  | Length_error
  | Invalid_argument
  | Out_of_range
  | Bad_optional_access
  | Bad_cast
  | Assertion_error
  | Undefined_read  \<comment> \<open>not thrown: an access outside a container, undefined in C++\<close>
  | Undefined_arith  \<comment> \<open>not thrown: overflow of a signed integer, undefined in C++\<close>

type_synonym 'a result = "exn + 'a"

named_theorems bytes_simps \<open>facts on byte strings and their lengths\<close>
named_theorems pb_simps \<open>round trips through the protobuf message records\<close>
named_theorems frame_simps \<open>fields that a handler leaves unchanged\<close>

definition bind_result :: "'a result \<Rightarrow> ('a \<Rightarrow> 'b result) \<Rightarrow> 'b result" where
  "bind_result r f = (case r of Inl e \<Rightarrow> Inl e | Inr x \<Rightarrow> f x)"

text \<open>A loop that converts every element and stops at the first exception.\<close>

fun map_result :: "('a \<Rightarrow> 'b result) \<Rightarrow> 'a list \<Rightarrow> 'b list result" where
  "map_result f [] = Inr []"
| "map_result f (x # xs) =
     bind_result (f x) (\<lambda>y. bind_result (map_result f xs) (\<lambda>ys. Inr (y # ys)))"

lemma bind_result_simps [simp]:
  "bind_result (Inl e) f = Inl e"
  "bind_result (Inr x) f = f x"
  by (simp_all add: bind_result_def)

lemma bind_result_Inr_iff:
  "bind_result r f = Inr y \<longleftrightarrow> (\<exists>x. r = Inr x \<and> f x = Inr y)"
  by (cases r) auto

lemma map_result_Inr:
  "(\<And>x. x \<in> set xs \<Longrightarrow> f (g x) = Inr x) \<Longrightarrow> map_result f (map g xs) = Inr xs"
  by (induction xs) auto

lemma map_result_length: "map_result f xs = Inr ys \<Longrightarrow> length ys = length xs"
  by (induction xs arbitrary: ys) (auto simp: bind_result_Inr_iff)

lemma dropWhile_replicate_pad:
  "replicate (length xs - length (dropWhile (\<lambda>x. x = c) xs)) c @ dropWhile (\<lambda>x. x = c) xs = xs"
proof (induction xs)
  case (Cons x xs)
  have "length (dropWhile (\<lambda>x. x = c) xs) \<le> length xs"
    by (rule length_dropWhile_le)
  with Cons show ?case
    by (auto simp: Suc_diff_le)
qed simp

lemma unat_byte_less [bytes_simps]: "unat (b :: byte) < 256"
  using unsigned_less [of b, where ?'a = nat] by simp

lemma unat_of_nat_byte: "n < 256 \<Longrightarrow> unat (of_nat n :: byte) = n"
  by (simp add: unat_of_nat)

section \<open>A codec for lists of texts\<close>

text \<open>A \<open>std::set\<close> is the list of its elements in order.\<close>

definition std_set_insert :: "'a :: linorder \<Rightarrow> 'a list \<Rightarrow> 'a list" where
  "std_set_insert x s = (if x \<in> set s then s else insort x s)"

lemma set_std_set_insert [simp]: "set (std_set_insert x s) = insert x (set s)"
  by (auto simp: std_set_insert_def set_insort_key)

lemma distinct_std_set_insert [simp]: "distinct s \<Longrightarrow> distinct (std_set_insert x s)"
  by (simp add: std_set_insert_def distinct_insort)

lemma sorted_std_set_insert [simp]: "sorted s \<Longrightarrow> sorted (std_set_insert x s)"
  by (simp add: std_set_insert_def sorted_insort)

lemma length_std_set_insert: "length (std_set_insert x s) = (if x \<in> set s then length s else Suc (length s))"
  by (simp add: std_set_insert_def)

text \<open>
  A concrete wire format, used wherever a statement that is parametric in a codec is applied to a
  sample: a character is sent after the digit 1, the end of a text is the digit 0.
\<close>

definition str_enc :: "string \<Rightarrow> string" where
  "str_enc s = concat (map (\<lambda>c. [CHR ''1'', c]) s) @ ''0''"

definition strs_enc :: "string list \<Rightarrow> string" where
  "strs_enc ss = concat (map str_enc ss)"

fun strs_dec :: "string \<Rightarrow> string \<Rightarrow> string list option" where
  "strs_dec acc [] = (if acc = [] then Some [] else None)"
| "strs_dec acc [c] = (if c = CHR ''0'' then Some [acc] else None)"
| "strs_dec acc (c # d # r) =
     (if c = CHR ''1'' then strs_dec (acc @ [d]) r
      else if c = CHR ''0'' then map_option (Cons acc) (strs_dec [] (d # r))
      else None)"

lemma strs_dec_str_enc: "strs_dec acc (str_enc s @ r) = map_option (Cons (acc @ s)) (strs_dec [] r)"
proof (induction s arbitrary: acc)
  case Nil
  then show ?case by (cases r) (simp_all add: str_enc_def)
qed (simp add: str_enc_def)

lemma strs_dec_enc [simp]: "strs_dec [] (strs_enc ss) = Some ss"
  by (induction ss) (simp_all add: strs_enc_def strs_dec_str_enc)

end
