(* ===== verification/HexBytes.thy ===== *)
theory HexBytes
  imports WchPrelude
begin

text \<open>
  Byte strings and their textual forms: \<open>evmc::hex\<close> and \<open>evmc::from_hex\<close>
  (\<^verbatim>\<open>pkgs/evmweak/evmc-10.1.0/include/evmc/hex.hpp\<close>), the conversions between
  \<open>bytes\<close>, \<open>std::string\<close>, \<open>evmc::address\<close> and \<open>bytes32\<close> of \<^verbatim>\<open>include/core0.hpp\<close>,
  and the big-endian store of a 64-bit number that the hashes and addresses are built from.
  The theory proves the round trips every storage key and wire format relies on.
\<close>

type_synonym address = bytes  \<comment> \<open>20 bytes, \<^verbatim>\<open>uint8_t bytes[20]\<close>\<close>
type_synonym hash256 = bytes  \<comment> \<open>32 bytes\<close>
type_synonym bytes32 = bytes  \<comment> \<open>32 bytes\<close>

definition wf_address :: "address \<Rightarrow> bool" where
  "wf_address a \<longleftrightarrow> length a = 20"

definition wf_hash :: "hash256 \<Rightarrow> bool" where
  "wf_hash h \<longleftrightarrow> length h = 32"

section \<open>Hexadecimal text\<close>

definition hex_digits :: string where
  "hex_digits = ''0123456789abcdef''"

definition hex_byte :: "byte \<Rightarrow> string" where
  "hex_byte b = [hex_digits ! unat (drop_bit 4 b), hex_digits ! unat (b AND 0xf)]"

definition hex :: "bytes \<Rightarrow> string" where
  "hex bs = concat (map hex_byte bs)"

definition from_hex_digit :: "char \<Rightarrow> int" where
  "from_hex_digit h =
     (let c = (of_char h :: int) in
      if c \<ge> of_char (CHR ''0'') \<and> c \<le> of_char (CHR ''9'') then c - of_char (CHR ''0'')
      else if c \<ge> of_char (CHR ''a'') \<and> c \<le> of_char (CHR ''f'') then c - of_char (CHR ''a'') + 10
      else if c \<ge> of_char (CHR ''A'') \<and> c \<le> of_char (CHR ''F'') then c - of_char (CHR ''A'') + 10
      else -1)"

text \<open>
  The decoding loop: position \<open>i\<close>, the pending high nibble (initially the invalid \<open>-1\<close>) and the
  bytes written so far. An \<open>x\<close> at position 1 after a \<open>0\<close> is skipped; the loop succeeds when the
  number of characters it has consumed is even.
\<close>

fun from_hex_loop :: "string \<Rightarrow> nat \<Rightarrow> int \<Rightarrow> bytes \<Rightarrow> bytes option" where
  "from_hex_loop [] i hi_nibble out = (if i mod 2 = 0 then Some out else None)"
| "from_hex_loop (h # hs) i hi_nibble out =
     (let v = from_hex_digit h in
      if v < 0 then
        (if i = 1 \<and> hi_nibble = 0 \<and> h = CHR ''x'' then from_hex_loop hs (i + 1) hi_nibble out
         else None)
      else if i mod 2 = 0 then from_hex_loop hs (i + 1) (push_bit 4 v) out
      else from_hex_loop hs (i + 1) hi_nibble (out @ [word_of_int (or hi_nibble v)]))"

definition from_hex :: "string \<Rightarrow> bytes option" where
  "from_hex s = from_hex_loop s 0 (-1) []"

definition validate_hex :: "string \<Rightarrow> bool" where
  "validate_hex s \<longleftrightarrow> from_hex_loop s 0 (-1) [] \<noteq> None"

text \<open>
  The template \<open>from_hex<T>\<close> for a type whose \<open>bytes\<close> array has \<open>n\<close> elements. The result starts
  as zeros and the decoded bytes are written from index \<open>n - num_in_bytes\<close> on.
\<close>

definition from_hex_T :: "nat \<Rightarrow> string \<Rightarrow> bytes option" where
  "from_hex_T n s0 =
     (let s = (if length s0 \<ge> 2 \<and> s0 ! 0 = CHR ''0'' \<and> s0 ! 1 = CHR ''x'' then drop 2 s0 else s0);
          num_in_bytes = length s div 2
      in if num_in_bytes > n then None
         else case from_hex_loop s 0 (-1) [] of
                None \<Rightarrow> None
              | Some out \<Rightarrow>
                  Some (replicate (n - num_in_bytes) 0 @ out @ replicate (num_in_bytes - length out) 0))"

section \<open>Byte strings\<close>

definition toString :: "bytes \<Rightarrow> string" where
  "toString bs = map (\<lambda>b. char_of (unat b)) bs"

definition bytesFromString :: "string \<Rightarrow> bytes" where
  "bytesFromString s = map (\<lambda>c. of_nat (of_char c)) s"

text \<open>\<open>toByteString<address>\<close> skips the leading zero bytes, the generic one does not.\<close>

definition toByteString_address :: "address \<Rightarrow> string" where
  "toByteString_address t = toString (dropWhile (\<lambda>b. b = 0) t)"

definition fromByteString :: "nat \<Rightarrow> string \<Rightarrow> bytes result" where
  "fromByteString n s = (if length s \<noteq> n then Inl Runtime_error else Inr (bytesFromString s))"

definition fromByteString_address :: "string \<Rightarrow> address result" where
  "fromByteString_address s =
     (if length s > 20 then Inl Runtime_error
      else Inr (replicate (20 - length s) 0 @ bytesFromString s))"

definition bytes32FromString :: "string \<Rightarrow> bytes32 result" where
  "bytes32FromString s =
     (if length s < 32 then Inl Runtime_error else Inr (bytesFromString (take 32 s)))"

definition hashToString :: "hash256 \<Rightarrow> string" where
  "hashToString h = hex h"

definition addressToString :: "address \<Rightarrow> string" where
  "addressToString a = hex a"

section \<open>Numbers as bytes\<close>

text \<open>\<open>intx::be::store\<close> of a \<open>uint64_t\<close>, and \<open>evmc::address(uint64_t)\<close> with its twelve zeros.\<close>

definition be_store :: "u64 \<Rightarrow> bytes" where
  "be_store v = map (\<lambda>i. ucast (drop_bit (56 - 8 * i) v)) [0..<8]"

definition address_of_u64 :: "u64 \<Rightarrow> address" where
  "address_of_u64 v = replicate 12 0 @ be_store v"

text \<open>
  \<open>makeAddress(int x)\<close>: the parameter has 32 bits, and \<open>static_cast<uint64_t>\<close> of an \<open>int\<close>
  extends its sign.
\<close>

definition makeAddress :: "u32 \<Rightarrow> address" where
  "makeAddress x = address_of_u64 (scast x)"

section \<open>Round trips\<close>

lemma length_toString [simp, bytes_simps]: "length (toString bs) = length bs"
  by (simp add: toString_def)

lemma length_bytesFromString [simp, bytes_simps]: "length (bytesFromString s) = length s"
  by (simp add: bytesFromString_def)

lemma bytesFromString_toString [simp]: "bytesFromString (toString bs) = bs"
  by (simp add: bytesFromString_def toString_def o_def unat_byte_less)

lemma toString_bytesFromString [simp]: "toString (bytesFromString s) = s"
  by (simp add: bytesFromString_def toString_def o_def unat_of_nat_byte)

lemma toString_inject [simp]: "toString a = toString b \<longleftrightarrow> a = b"
  by (metis bytesFromString_toString)

lemma from_hex_digit_hex_digits: "n < 16 \<Longrightarrow> from_hex_digit (hex_digits ! n) = int n"
proof -
  have "\<forall>n \<in> {..<16}. from_hex_digit (hex_digits ! n) = int n"
    by code_simp
  then show "n < 16 \<Longrightarrow> from_hex_digit (hex_digits ! n) = int n" by simp
qed

lemma hex_digits_not_x: "n < 16 \<Longrightarrow> hex_digits ! n \<noteq> CHR ''x''"
  by (drule from_hex_digit_hex_digits) (auto simp: from_hex_digit_def)

lemma unat_high_nibble: "unat (drop_bit 4 (b :: byte)) < 16"
  using unat_byte_less [of b] by (simp add: drop_bit_eq_div unat_div_distrib)

lemma unat_low_nibble: "unat ((b :: byte) AND 0xf) < 16"
proof -
  have "b AND 0xf = take_bit 4 b" by (simp add: take_bit_eq_mask mask_eq_exp_minus_1)
  then show ?thesis by (simp add: take_bit_eq_mod unat_mod_distrib)
qed

lemma nibbles_join:
  "word_of_int (or (push_bit 4 (uint (drop_bit 4 b))) (uint (b AND 0xf))) = (b :: byte)"
proof (rule bit_word_eqI)
  fix n
  assume "n < LENGTH(8)"
  then have n: "n < 8" by simp
  have m: "bit (15 :: byte) n \<longleftrightarrow> n < 4" "bit (15 :: int) n \<longleftrightarrow> n < 4"
    using n bit_mask_iff [of 4 n, where ?'a = byte] bit_mask_iff [of 4 n, where ?'a = int]
    by (auto simp: mask_eq_exp_minus_1)
  show "bit (word_of_int (or (push_bit 4 (uint (drop_bit 4 b))) (uint (b AND 0xf))) :: byte) n
        \<longleftrightarrow> bit b n"
    using n by (auto simp: bit_simps m)
qed

lemma from_hex_loop_hex:
  "even i \<Longrightarrow> from_hex_loop (hex bs) i hi out = Some (out @ bs)"
proof (induction bs arbitrary: i hi out)
  case Nil
  then show ?case by (simp add: hex_def even_iff_mod_2_eq_zero)
next
  case (Cons b bs)
  have i: "i mod 2 = 0" "Suc i mod 2 = 1"
    using Cons.prems by presburger+
  have IH: "from_hex_loop (hex bs) (Suc (Suc i)) hi' out' = Some (out' @ bs)" for hi' out'
    using Cons.IH Cons.prems by simp
  show ?case
    using IH i
    by (simp add: hex_def hex_byte_def Let_def from_hex_digit_hex_digits
        unat_high_nibble unat_low_nibble nibbles_join del: push_bit_of_nat)
qed

lemma length_hex [simp, bytes_simps]: "length (hex bs) = 2 * length bs"
  by (induction bs) (simp_all add: hex_def hex_byte_def)

lemma hex_no_prefix: "\<not> (length (hex bs) \<ge> 2 \<and> hex bs ! 0 = CHR ''0'' \<and> hex bs ! 1 = CHR ''x'')"
proof (cases bs)
  case (Cons b bs')
  have "hex bs ! 1 = hex_digits ! unat (b AND 0xf)"
    by (simp add: Cons hex_def hex_byte_def)
  then show ?thesis
    using hex_digits_not_x [OF unat_low_nibble [of b]] by simp
qed (simp add: hex_def)

lemma from_hex_hex [simp]: "from_hex (hex bs) = Some bs"
  by (simp add: from_hex_def from_hex_loop_hex)

lemma from_hex_T_hex: "length bs \<le> n \<Longrightarrow> from_hex_T n (hex bs) = Some (replicate (n - length bs) 0 @ bs)"
  by (simp only: from_hex_T_def if_not_P [OF hex_no_prefix]) (simp add: from_hex_loop_hex)

lemma hex_inject [simp]: "hex a = hex b \<longleftrightarrow> a = b"
  by (metis from_hex_hex option.inject)

lemma validate_hex_hex: "validate_hex (hex bs)"
  by (simp add: validate_hex_def from_hex_loop_hex)

lemma length_be_store [simp, bytes_simps]: "length (be_store v) = 8"
  by (simp add: be_store_def)

lemma be_store_inject [simp]: "be_store v = be_store w \<longleftrightarrow> v = w"
proof
  assume eq: "be_store v = be_store w"
  show "v = w"
  proof (rule bit_word_eqI)
    fix n
    assume "n < LENGTH(64)"
    then have n: "n < 64" by simp
    let ?i = "7 - n div 8"
    have i: "?i < 8" by simp
    have "be_store v ! ?i = be_store w ! ?i" by (simp add: eq)
    then have "(ucast (drop_bit (56 - 8 * ?i) v) :: byte) = ucast (drop_bit (56 - 8 * ?i) w)"
      using i by (simp add: be_store_def)
    then have "bit (ucast (drop_bit (56 - 8 * ?i) v) :: byte) (n mod 8)
             = bit (ucast (drop_bit (56 - 8 * ?i) w) :: byte) (n mod 8)"
      by simp
    moreover have "56 - 8 * ?i + n mod 8 = n"
    proof -
      have "n div 8 \<le> 7" using n by simp
      then have "56 - 8 * ?i = 8 * (n div 8)" by simp
      then show ?thesis by simp
    qed
    ultimately show "bit v n \<longleftrightarrow> bit w n"
      using n by (simp add: bit_simps)
  qed
qed simp

lemma length_makeAddress [simp, bytes_simps]: "length (makeAddress x) = 20"
  by (simp add: makeAddress_def address_of_u64_def)

lemma makeAddress_inject [simp]: "makeAddress x = makeAddress y \<longleftrightarrow> x = y"
proof
  assume "makeAddress x = makeAddress y"
  then have "(scast x :: u64) = scast y"
    by (simp add: makeAddress_def address_of_u64_def)
  then have eq: "bit (scast x :: u64) n = bit (scast y :: u64) n" for n
    by simp
  show "x = y"
  proof (rule bit_word_eqI)
    fix n
    assume "n < LENGTH(32)"
    then show "bit x n \<longleftrightarrow> bit y n"
      using eq [of n] by (cases "n = 31") (simp_all add: bit_simps min_def split: if_splits)
  qed
qed simp

lemma fromByteString_address_toByteString:
  "wf_address a \<Longrightarrow> fromByteString_address (toByteString_address a) = Inr a"
proof -
  assume a: "wf_address a"
  have "length (dropWhile (\<lambda>b. b = 0) a) \<le> 20"
    using a length_dropWhile_le [of "\<lambda>b. b = 0" a] by (simp add: wf_address_def)
  then show ?thesis
    using a dropWhile_replicate_pad [of a 0]
    by (simp add: fromByteString_address_def toByteString_address_def wf_address_def)
qed

lemma fromByteString_toString: "length h = n \<Longrightarrow> fromByteString n (toString h) = Inr h"
  by (simp add: fromByteString_def)

lemma bytes32FromString_toString: "length h = 32 \<Longrightarrow> bytes32FromString (toString h) = Inr h"
  by (simp add: bytes32FromString_def)

lemma fromByteString_address_wf: "fromByteString_address s = Inr a \<Longrightarrow> wf_address a"
  by (auto simp: fromByteString_address_def wf_address_def split: if_splits)

lemmas bytestring_roundtrips =
  fromByteString_address_toByteString fromByteString_toString bytes32FromString_toString

text \<open>
  Hexadecimal text is a faithful encoding: decoding the encoding of any byte string gives it
  back, and decoding it into a fixed-size type of \<open>n\<close> bytes pads it with zeros on the left.
\<close>

theorem hex_text_roundtrip:
  "from_hex (hex bs) = Some bs \<and>
   (length bs \<le> n \<longrightarrow> from_hex_T n (hex bs) = Some (replicate (n - length bs) 0 @ bs))"
  by (simp add: from_hex_T_hex)

theorem hex_text_roundtrip_witness:
  "from_hex (hex [0xde, 0xad]) = Some [0xde, 0xad] \<and> from_hex_T 3 (hex [0xde, 0xad]) = Some [0, 0xde, 0xad]"
  using hex_text_roundtrip [of "[0xde, 0xad]" 3] by simp

text \<open>
  The compact byte string of an address (leading zero bytes dropped) parses back to the same
  20-byte address, and \<open>fromByteString<address>\<close> throws exactly on more than 20 bytes, returning
  a 20-byte address otherwise.
\<close>

theorem address_bytestring_roundtrip:
  "(wf_address a \<longrightarrow> fromByteString_address (toByteString_address a) = Inr a) \<and>
   (fromByteString_address s = Inl Runtime_error \<longleftrightarrow> length s > 20) \<and>
   (\<forall>b. fromByteString_address s = Inr b \<longrightarrow> wf_address b)"
  by (auto simp: fromByteString_address_toByteString dest: fromByteString_address_wf)
    (auto simp: fromByteString_address_def split: if_splits)

theorem address_bytestring_roundtrip_witness:
  "fromByteString_address (toByteString_address (makeAddress 1)) = Inr (makeAddress 1)
   \<and> (fromByteString_address [] = Inl Runtime_error \<longleftrightarrow> length ([] :: string) > 20)"
  using address_bytestring_roundtrip [of "makeAddress 1" "[]"] by (simp add: wf_address_def)

end
