(* ===== verification/ChainCore.thy ===== *)
theory ChainCore
  imports HexBytes "HOL-Library.AList" "HOL-Library.List_Lexorder" "HOL-Library.Char_ord"
    "HOL-Library.Product_Lexorder"
begin

text \<open>
  The data model of the chain (\<^verbatim>\<open>include/core0.hpp\<close>, \<^verbatim>\<open>include/core0.cpp\<close>): transactions, accounts,
  blocks, their hashes, the order the pool sorts by, contract addresses, and the conversions to and
  from the protobuf messages of \<^verbatim>\<open>include/hi.proto\<close>, which is the form in which nodes exchange and
  store them. \<open>ethash::keccak256\<close> is the parameter \<open>keccak\<close>; the generated protobuf classes are
  records of their fields, and their wire codec is the parameter \<open>pb_codec\<close>.
\<close>

type_synonym keccak256 = "bytes \<Rightarrow> hash256"

section \<open>Transactions\<close>

datatype tx_type = Evm | Data | Python

record Tx =
  tx_pk_pem :: string
  tx_signature :: bytes
  tx_pk_crt :: bytes
  tx_type :: tx_type
  tx_from :: address
  tx_to :: address
  tx_data :: bytes
  tx_nonce :: u64
  tx_timestamp :: u64  \<comment> \<open>\<open>std::time_t\<close>, read as a signed number\<close>

text \<open>A default-constructed \<open>Tx\<close>.\<close>

definition Tx_default :: Tx where
  "Tx_default = \<lparr>tx_pk_pem = [], tx_signature = [], tx_pk_crt = [], tx_type = Evm, tx_from = replicate 20 0,
     tx_to = replicate 20 0, tx_data = [], tx_nonce = 0, tx_timestamp = 0\<rparr>"

text \<open>
  The five-argument constructor. Its member initialisers are \<open>from(f),to(t),data(d),nonce(n)\<close>, the
  parameter \<open>type\<close> is not among them, and \<open>now\<close> stands for \<open>std::time(nullptr)\<close>.
\<close>

definition Tx_ctor :: "u64 \<Rightarrow> address \<Rightarrow> address \<Rightarrow> bytes \<Rightarrow> u64 \<Rightarrow> tx_type \<Rightarrow> Tx" where
  "Tx_ctor now f t d n tp = Tx_default\<lparr>tx_from := f, tx_to := t, tx_data := d, tx_nonce := n, tx_timestamp := now\<rparr>"

fun typeToString :: "tx_type \<Rightarrow> string" where
  "typeToString Evm = ''evm''"
| "typeToString Data = ''data''"
| "typeToString Python = ''python''"

definition typeFromString :: "string \<Rightarrow> tx_type result" where
  "typeFromString s =
     (if s = [] \<or> s = ''evm'' then Inr Evm
      else if s = ''data'' then Inr Data
      else if s = ''python'' then Inr Python
      else Inl Runtime_error)"

text \<open>\<open>std::to_string\<close> of an unsigned number: its decimal digits.\<close>

fun decimal :: "nat \<Rightarrow> string" where
  "decimal n = (if n < 10 then [char_of (n + 48)] else decimal (n div 10) @ [char_of (n mod 10 + 48)])"

declare decimal.simps [simp del]

definition getToSignPayload0 :: "u64 \<Rightarrow> string \<Rightarrow> string" where
  "getToSignPayload0 n d = decimal (unat n) @ d"

definition getToSignPayload :: "Tx \<Rightarrow> string" where
  "getToSignPayload t = getToSignPayload0 (tx_nonce t) (toString (tx_data t))"

definition tx_hash :: "keccak256 \<Rightarrow> Tx \<Rightarrow> hash256" where
  "tx_hash keccak t = keccak (take 20 (tx_from t) @ be_store (tx_nonce t))"

definition getFromFromPkPem :: "keccak256 \<Rightarrow> Tx \<Rightarrow> address" where
  "getFromFromPkPem keccak t = take 20 (drop 12 (keccak (bytesFromString (tx_pk_pem t))))"

subsection \<open>Index and order\<close>

definition Index_less :: "address \<times> u64 \<Rightarrow> address \<times> u64 \<Rightarrow> bool" where
  "Index_less i s =
     (if fst i = fst s \<and> snd i < snd s then True
      else fst i < fst s)"  \<comment> \<open>\<open>bytes_view::compare\<close> is lexicographic\<close>

definition Tx_less :: "Tx \<Rightarrow> Tx \<Rightarrow> bool" where
  "Tx_less t r =
     (if tx_timestamp t = tx_timestamp r \<and> Index_less (tx_from t, tx_nonce t) (tx_from r, tx_nonce r) then True
      else sint (tx_timestamp t) < sint (tx_timestamp r))"

definition getContractDeployAddress :: "Tx \<Rightarrow> address" where
  "getContractDeployAddress t = makeAddress (ucast (tx_nonce t XOR NOT (tx_timestamp t)))"

section \<open>Blocks\<close>

record BlkHeader =
  number :: u64
  parentHash :: hash256

record Blk = BlkHeader +
  txs :: "Tx list"

definition Blk_ctor :: "u64 \<Rightarrow> hash256 \<Rightarrow> Tx list \<Rightarrow> Blk" where
  "Blk_ctor n p t = \<lparr>number = n, parentHash = p, txs = t\<rparr>"

text \<open>The serial hash: \<open>s[:32] = tx.hash; s[32:] = h; h = keccak256(s)\<close> for each hash in turn.\<close>

fun serial_hash :: "keccak256 \<Rightarrow> hash256 \<Rightarrow> hash256 list \<Rightarrow> hash256" where
  "serial_hash keccak h [] = h"
| "serial_hash keccak h (x # xs) = serial_hash keccak (keccak (x @ h)) xs"

definition Blk_hash :: "keccak256 \<Rightarrow> 'a Blk_scheme \<Rightarrow> hash256" where
  "Blk_hash keccak b = serial_hash keccak (parentHash b) (map (tx_hash keccak) (txs b))"

section \<open>Accounts\<close>

text \<open>
  The storage is an \<open>unordered_map\<close>: an association list with distinct keys, in iteration order.
\<close>

record Acn =
  acn_nonce :: u64
  code :: bytes
  storage :: "(bytes32 \<times> bytes32) list"
  disk_storage :: "string list"

definition Acn_default :: Acn where
  "Acn_default = \<lparr>acn_nonce = 0, code = [], storage = [], disk_storage = []\<rparr>"

definition Acn_ctor :: "u64 \<Rightarrow> bytes \<Rightarrow> Acn" where
  "Acn_ctor n c = Acn_default\<lparr>acn_nonce := n, code := c\<rparr>"

definition codehash :: "keccak256 \<Rightarrow> Acn \<Rightarrow> hash256" where
  "codehash keccak a = keccak (code a)"

section \<open>Protobuf messages\<close>

datatype PbTxType = PB_EVM | PB_DATA | PB_PYTHON | PB_OTHER int

record PbTx =
  pb_type :: PbTxType
  pb_from_addr :: string
  pb_to_addr :: string
  pb_data :: string
  pb_timestamp :: u64
  pb_nonce :: u64
  pb_pk_pem :: string
  pb_signature :: string
  pb_pk_crt :: string

record PbBlk =
  pb_number :: u64
  pb_parenthash :: string
  pb_txs :: "PbTx list"

record PbAcn =
  pb_acn_nonce :: u64
  pb_code :: string
  pb_storage_ks :: "string list"
  pb_storage_vs :: "string list"
  pb_disk_storage :: "string list"

text \<open>The wire codec of a message type.\<close>

record 'm pb_codec =
  SerializeAsString :: "'m \<Rightarrow> string"
  ParseFromString :: "string \<Rightarrow> 'm option"

definition typeToPb :: "tx_type \<Rightarrow> PbTxType" where
  "typeToPb t = (if t = Data then PB_DATA else if t = Python then PB_PYTHON else PB_EVM)"

definition typeFromPb :: "PbTxType \<Rightarrow> tx_type" where
  "typeFromPb t = (if t = PB_DATA then Data else if t = PB_PYTHON then Python else Evm)"

definition Tx_toPb :: "Tx \<Rightarrow> PbTx" where
  "Tx_toPb t =
     \<lparr>pb_type = typeToPb (tx_type t),
      pb_from_addr = toByteString_address (tx_from t),
      pb_to_addr = toByteString_address (tx_to t),
      pb_data = toString (tx_data t),
      pb_timestamp = tx_timestamp t,
      pb_nonce = tx_nonce t,
      pb_pk_pem = (if tx_pk_pem t \<noteq> [] then tx_pk_pem t else []),
      pb_signature = (if length (tx_signature t) > 0 then toString (tx_signature t) else []),
      pb_pk_crt = (if length (tx_pk_crt t) > 0 then toString (tx_pk_crt t) else [])\<rparr>"

definition Tx_fromPb :: "keccak256 \<Rightarrow> Tx \<Rightarrow> PbTx \<Rightarrow> Tx result" where
  "Tx_fromPb keccak this pb =
     bind_result
       (if pb_pk_pem pb \<noteq> [] then
          (let t = this\<lparr>tx_pk_pem := pb_pk_pem pb\<rparr> in Inr (t\<lparr>tx_from := getFromFromPkPem keccak t\<rparr>))
        else bind_result (fromByteString_address (pb_from_addr pb)) (\<lambda>a. Inr (this\<lparr>tx_from := a\<rparr>)))
       (\<lambda>t1.
         let t2 = (if pb_signature pb \<noteq> [] then t1\<lparr>tx_signature := bytesFromString (pb_signature pb)\<rparr> else t1);
             t3 = (if pb_pk_crt pb \<noteq> [] then t2\<lparr>tx_pk_crt := bytesFromString (pb_pk_crt pb)\<rparr> else t2);
             t4 = t3\<lparr>tx_nonce := pb_nonce pb, tx_timestamp := pb_timestamp pb,
                     tx_data := bytesFromString (pb_data pb), tx_type := typeFromPb (pb_type pb)\<rparr>
         in bind_result (fromByteString_address (pb_to_addr pb)) (\<lambda>a. Inr (t4\<lparr>tx_to := a\<rparr>)))"

definition Blk_toPb :: "'a Blk_scheme \<Rightarrow> PbBlk" where
  "Blk_toPb b = \<lparr>pb_number = number b, pb_parenthash = toString (parentHash b),
                 pb_txs = map Tx_toPb (txs b)\<rparr>"

text \<open>\<open>Blk::fromPb\<close> appends the parsed transactions to those already in the block.\<close>

definition Blk_fromPb :: "keccak256 \<Rightarrow> 'a Blk_scheme \<Rightarrow> PbBlk \<Rightarrow> 'a Blk_scheme result" where
  "Blk_fromPb keccak this pb =
     bind_result (fromByteString 32 (pb_parenthash pb))
       (\<lambda>p. bind_result (map_result (Tx_fromPb keccak Tx_default) (pb_txs pb))
          (\<lambda>ts. Inr (this\<lparr>number := pb_number pb, parentHash := p, txs := txs this @ ts\<rparr>)))"

definition Acn_toPb :: "Acn \<Rightarrow> PbAcn" where
  "Acn_toPb a = \<lparr>pb_acn_nonce = acn_nonce a, pb_code = toString (code a),
     pb_storage_ks = map (\<lambda>(k, v). toString k) (storage a),
     pb_storage_vs = map (\<lambda>(k, v). toString v) (storage a),
     pb_disk_storage = disk_storage a\<rparr>"

text \<open>
  \<open>for (i = 0; i < storage_ks_size; i++)\<close> reads \<open>storage_vs(i)\<close> too, outside that field when it is
  shorter.
\<close>

fun load_storage :: "(bytes32 \<times> bytes32) list \<Rightarrow> string list \<Rightarrow> string list
    \<Rightarrow> (bytes32 \<times> bytes32) list result" where
  "load_storage st [] vs = Inr st"
| "load_storage st (k # ks) [] = bind_result (bytes32FromString k) (\<lambda>_. Inl Undefined_read)"
| "load_storage st (k # ks) (v # vs) =
     bind_result (bytes32FromString k) (\<lambda>k'.
       bind_result (bytes32FromString v) (\<lambda>v'. load_storage (AList.update k' v' st) ks vs))"

definition Acn_fromPb :: "Acn \<Rightarrow> PbAcn \<Rightarrow> Acn result" where
  "Acn_fromPb this pb =
     bind_result (load_storage (storage this) (pb_storage_ks pb) (pb_storage_vs pb))
       (\<lambda>st. Inr (this\<lparr>acn_nonce := pb_acn_nonce pb, code := bytesFromString (pb_code pb),
          storage := st, disk_storage := disk_storage this @ pb_disk_storage pb\<rparr>))"

text \<open>
  \<open>ISerializableInPb::fromPbString\<close>: \<open>false\<close> (here \<open>None\<close>) when the wire does not parse or the
  conversion throws.
\<close>

definition fromPbString :: "'m pb_codec \<Rightarrow> ('m \<Rightarrow> 'a result) \<Rightarrow> string \<Rightarrow> 'a option" where
  "fromPbString c fromPb s =
     (case ParseFromString c s of
        None \<Rightarrow> None
      | Some pb \<Rightarrow> (case fromPb pb of Inl e \<Rightarrow> None | Inr x \<Rightarrow> Some x))"

definition toPbString :: "'m pb_codec \<Rightarrow> ('a \<Rightarrow> 'm) \<Rightarrow> 'a \<Rightarrow> string" where
  "toPbString c toPb x = SerializeAsString c (toPb x)"

section \<open>Well-formedness\<close>

definition wf_tx :: "Tx \<Rightarrow> bool" where
  "wf_tx t \<longleftrightarrow> wf_address (tx_from t) \<and> wf_address (tx_to t)"

text \<open>The sender of a transaction that carries a public key is derived from that key.\<close>

definition from_matches_key :: "keccak256 \<Rightarrow> Tx \<Rightarrow> bool" where
  "from_matches_key keccak t \<longleftrightarrow> (tx_pk_pem t \<noteq> [] \<longrightarrow> tx_from t = getFromFromPkPem keccak t)"

definition wf_acn :: "Acn \<Rightarrow> bool" where
  "wf_acn a \<longleftrightarrow> distinct (map fst (storage a)) \<and> (\<forall>(k, v) \<in> set (storage a). length k = 32 \<and> length v = 32)"

section \<open>The order of transactions\<close>

definition tx_key :: "Tx \<Rightarrow> int \<times> address \<times> u64" where
  "tx_key t = (sint (tx_timestamp t), tx_from t, tx_nonce t)"

lemma Index_less_lex: "Index_less i s \<longleftrightarrow> i < s"
  by (cases i; cases s) (auto simp: Index_less_def less_prod_def)

lemma Tx_less_key: "Tx_less t r \<longleftrightarrow> tx_key t < tx_key r"
proof -
  have "tx_timestamp t = tx_timestamp r \<longleftrightarrow> sint (tx_timestamp t) = sint (tx_timestamp r)"
    by (metis signed_word_eqI)
  then show ?thesis
    by (auto simp: Tx_less_def tx_key_def Index_less_lex less_prod_def)
qed

lemma tx_key_eq_hash: "tx_key t = tx_key r \<Longrightarrow> tx_hash keccak t = tx_hash keccak r"
  by (simp add: tx_key_def tx_hash_def)

section \<open>Decimal numbers and the signed payload\<close>

definition is_digit :: "char \<Rightarrow> bool" where
  "is_digit c \<longleftrightarrow> (\<exists>n < 10. c = char_of (n + 48 :: nat))"

lemma decimal_nonempty: "decimal n \<noteq> []"
  by (subst decimal.simps) simp

lemma decimal_digits: "c \<in> set (decimal n) \<Longrightarrow> is_digit c"
proof (induction n rule: decimal.induct)
  case (1 n)
  show ?case
  proof (cases "n < 10")
    case True
    then have "c = char_of (n + 48)" using "1.prems" by (simp add: decimal.simps [of n])
    with True show ?thesis by (auto simp: is_digit_def)
  next
    case False
    then have "c \<in> set (decimal (n div 10)) \<or> c = char_of (n mod 10 + 48)"
      using "1.prems" by (auto simp: decimal.simps [of n])
    then show ?thesis
    proof
      assume "c = char_of (n mod 10 + 48)"
      moreover have "n mod 10 < 10" by simp
      ultimately show ?thesis unfolding is_digit_def by blast
    qed (use False "1.IH" in simp)
  qed
qed

lemma digit_char_inject: "a < 10 \<Longrightarrow> b < 10 \<Longrightarrow> char_of (a + 48 :: nat) = char_of (b + 48) \<Longrightarrow> a = b"
  by (drule arg_cong [where f = "of_char :: char \<Rightarrow> nat"]) simp

lemma decimal_inject: "decimal m = decimal n \<Longrightarrow> m = n"
proof (induction m arbitrary: n rule: decimal.induct)
  case (1 m)
  have eq: "decimal m = decimal n" by (rule "1.prems")
  show ?case
  proof (cases "m < 10")
    case True
    then have "length (decimal m) = 1" by (simp add: decimal.simps [of m])
    then have "length (decimal n) = 1" by (simp add: eq)
    then have "n < 10"
      using decimal_nonempty [of "n div 10"] by (simp add: decimal.simps [of n] split: if_splits)
    then show ?thesis
      using eq True digit_char_inject by (simp add: decimal.simps [of n] decimal.simps [of m])
  next
    case False
    then have "length (decimal m) \<noteq> 1"
      using decimal_nonempty [of "m div 10"] by (simp add: decimal.simps [of m])
    then have "length (decimal n) \<noteq> 1" by (simp add: eq)
    then have n: "\<not> n < 10" by (auto simp: decimal.simps [of n])
    have "decimal (m div 10) = decimal (n div 10)" and "char_of (m mod 10 + 48) = char_of (n mod 10 + 48)"
      using eq False n by (simp_all add: decimal.simps [of n] decimal.simps [of m])
    then have "m div 10 = n div 10" and "m mod 10 = n mod 10"
      using "1.IH" [OF False] digit_char_inject [of "m mod 10" "n mod 10"] by simp_all
    then show ?thesis by (metis div_mult_mod_eq)
  qed
qed

lemma decimal_snoc: "n > 0 \<Longrightarrow> k < 10 \<Longrightarrow> decimal (10 * n + k) = decimal n @ [char_of (k + 48)]"
  by (subst decimal.simps) simp

text \<open>Two texts that are digits followed by something that is not a digit agree part by part.\<close>

lemma digits_prefix_unique:
  assumes "a @ x = b @ y" "\<forall>c \<in> set a. P c" "\<forall>c \<in> set b. P c"
    and "x = [] \<or> \<not> P (hd x)" "y = [] \<or> \<not> P (hd y)"
  shows "a = b \<and> x = y"
proof -
  have "takeWhile P x = []" "takeWhile P y = []"
    using assms(4) by (cases x; simp) (use assms(5) in \<open>cases y; simp\<close>)
  then have "takeWhile P (a @ x) = a" "takeWhile P (b @ y) = b"
    using assms(2,3) by (simp_all add: takeWhile_append2)
  then have "a = b" using assms(1) by metis
  then show ?thesis using assms(1) by simp
qed

section \<open>Protobuf round trips\<close>

lemma typeFromPb_typeToPb [simp, pb_simps]: "typeFromPb (typeToPb t) = t"
  by (cases t) (simp_all add: typeToPb_def typeFromPb_def)

lemma toString_eq_Nil [simp]: "toString b = [] \<longleftrightarrow> b = []"
  by (simp add: toString_def)

lemma Tx_pb_roundtrip [pb_simps]:
  assumes "wf_tx t" "from_matches_key keccak t"
  shows "Tx_fromPb keccak Tx_default (Tx_toPb t) = Inr t"
proof -
  have "wf_address (tx_from t)" "wf_address (tx_to t)"
    using assms(1) by (simp_all add: wf_tx_def)
  then show ?thesis
    using assms(2)
    by (cases t) (auto simp: Tx_fromPb_def Tx_toPb_def fromByteString_address_toByteString Let_def
        from_matches_key_def getFromFromPkPem_def Tx_default_def)
qed

lemma Tx_fromPb_from_matches_key:
  assumes "Tx_fromPb keccak Tx_default pb = Inr t"
  shows "from_matches_key keccak t" and "wf_address (tx_to t)"
    and "(\<And>x. length (keccak x) = 32) \<Longrightarrow> wf_tx t"
  using assms
  by (auto simp: Tx_fromPb_def bind_result_Inr_iff from_matches_key_def getFromFromPkPem_def Let_def
      wf_tx_def wf_address_def Tx_default_def dest: fromByteString_address_wf [unfolded wf_address_def]
      split: if_splits)

lemma Blk_pb_roundtrip [pb_simps]:
  assumes "\<And>t. t \<in> set (txs b) \<Longrightarrow> wf_tx t \<and> from_matches_key keccak t" "wf_hash (parentHash b)"
    and "txs this = []"
  shows "Blk_fromPb keccak this (Blk_toPb b) =
         Inr (this\<lparr>number := number b, parentHash := parentHash b, txs := txs b\<rparr>)"
proof -
  have "map_result (Tx_fromPb keccak Tx_default) (map Tx_toPb (txs b)) = Inr (txs b)"
    using assms(1) by (intro map_result_Inr Tx_pb_roundtrip) simp_all
  then show ?thesis
    using assms(2,3)
    by (simp add: Blk_fromPb_def Blk_toPb_def fromByteString_toString wf_hash_def)
qed

lemma load_storage_append:
  "\<lbrakk>distinct (map fst (st @ kvs)); \<forall>(k, v) \<in> set kvs. length k = 32 \<and> length v = 32\<rbrakk> \<Longrightarrow>
   load_storage st (map (\<lambda>(k, v). toString k) kvs) (map (\<lambda>(k, v). toString v) kvs) = Inr (st @ kvs)"
proof (induction kvs arbitrary: st)
  case (Cons kv kvs)
  obtain k v where kv: "kv = (k, v)" by (cases kv)
  have "k \<notin> fst ` set st" using Cons.prems by (auto simp: kv)
  then have "AList.update k v st = st @ [(k, v)]"
    by (induction st) auto
  then show ?case
    using Cons.IH [of "st @ [(k, v)]"] Cons.prems by (simp add: kv bytes32FromString_toString)
qed simp

lemma Acn_pb_roundtrip [pb_simps]: "wf_acn a \<Longrightarrow> Acn_fromPb Acn_default (Acn_toPb a) = Inr a"
  using load_storage_append [of "[]" "storage a"]
  by (simp add: Acn_fromPb_def Acn_toPb_def wf_acn_def Acn_default_def)

lemma fromPbString_toPbString:
  "ParseFromString c (SerializeAsString c (toPb x)) = Some (toPb x) \<Longrightarrow> fromPb (toPb x) = Inr y \<Longrightarrow>
   fromPbString c fromPb (toPbString c toPb x) = Some y"
  by (simp add: fromPbString_def toPbString_def)

lemma load_storage_wf:
  "load_storage st ks vs = Inr st' \<Longrightarrow> distinct (map fst st) \<Longrightarrow>
   \<forall>(k, v) \<in> set st. length k = 32 \<and> length v = 32 \<Longrightarrow>
   distinct (map fst st') \<and> (\<forall>(k, v) \<in> set st'. length k = 32 \<and> length v = 32)"
proof (induction st ks vs rule: load_storage.induct)
  case (3 st k ks v vs)
  then obtain k' v' where kv: "bytes32FromString k = Inr k'" "bytes32FromString v = Inr v'"
    "load_storage (AList.update k' v' st) ks vs = Inr st'"
    by (auto simp: bind_result_Inr_iff)
  then have len: "length k' = 32" "length v' = 32"
    by (auto simp: bytes32FromString_def split: if_splits)
  have "set (AList.update k' v' st) \<subseteq> insert (k', v') (set st)"
    by (induction st) auto
  then have "\<forall>(a, b) \<in> set (AList.update k' v' st). length a = 32 \<and> length b = 32"
    using 3(4) len by fastforce
  then show ?case
    using 3(1) [OF kv(3)] 3(3) distinct_update [of st k' v'] by simp
qed (auto simp: bind_result_Inr_iff)

lemma Acn_fromPb_wf: "Acn_fromPb Acn_default pb = Inr a \<Longrightarrow> wf_acn a"
  using load_storage_wf
  by (fastforce simp: Acn_fromPb_def bind_result_Inr_iff wf_acn_def Acn_default_def)

section \<open>Properties\<close>

text \<open>Two sample transactions for the witnesses, and a stand-in hash that pads to 32 bytes.\<close>

definition demo_keccak :: keccak256 where
  "demo_keccak bs = take 32 (bs @ replicate 32 0)"

definition demo_tx :: "u64 \<Rightarrow> Tx" where
  "demo_tx n = Tx_ctor 7 (makeAddress 1) (makeAddress 2) [0xff] n Evm"

lemma demo_tx_wf [simp]: "wf_tx (demo_tx n)" "from_matches_key keccak (demo_tx n)"
  by (simp_all add: demo_tx_def Tx_ctor_def Tx_default_def wf_tx_def wf_address_def from_matches_key_def)

text \<open>
  The hand-written \<open>Tx::operator<\<close> and \<open>Index::operator<\<close> are the lexicographic order on
  (signed timestamp, sender bytes, nonce), so the pool's ordered index has a strict total order,
  and two transactions that are equivalent under it have the same hash.
\<close>

theorem tx_order_is_lexicographic:
  "(Tx_less t r \<longleftrightarrow>
      (sint (tx_timestamp t), tx_from t, tx_nonce t) < (sint (tx_timestamp r), tx_from r, tx_nonce r)) \<and>
   \<not> Tx_less t t \<and> \<not> (Tx_less t r \<and> Tx_less r t) \<and> \<not> (Tx_less t r \<and> Tx_less r u \<and> \<not> Tx_less t u) \<and>
   (Tx_less t r \<or> Tx_less r t \<or> (tx_timestamp t = tx_timestamp r \<and> tx_hash keccak t = tx_hash keccak r))"
proof -
  have "Tx_less t r \<or> Tx_less r t \<or> (tx_timestamp t = tx_timestamp r \<and> tx_hash keccak t = tx_hash keccak r)"
  proof (cases "tx_key t = tx_key r")
    case True
    then have "tx_timestamp t = tx_timestamp r"
      by (metis fst_conv signed_word_eqI tx_key_def)
    then show ?thesis using tx_key_eq_hash [OF True] by simp
  qed (auto simp: Tx_less_key dest: neqE)
  moreover have "Tx_less t r \<longleftrightarrow>
      (sint (tx_timestamp t), tx_from t, tx_nonce t) < (sint (tx_timestamp r), tx_from r, tx_nonce r)"
    by (simp add: Tx_less_key tx_key_def)
  moreover have "\<not> Tx_less t t \<and> \<not> (Tx_less t r \<and> Tx_less r t) \<and> \<not> (Tx_less t r \<and> Tx_less r u \<and> \<not> Tx_less t u)"
    by (auto simp: Tx_less_key)
  ultimately show ?thesis by blast
qed

text \<open>
  A transaction survives the protobuf form that nodes store and exchange: converting it to the
  message and parsing the message gives back every field, when its addresses have 20 bytes and its
  sender matches the public key it carries.
\<close>

theorem tx_pb_roundtrip:
  assumes "wf_tx t" "from_matches_key keccak t"
    and "ParseFromString c (SerializeAsString c (Tx_toPb t)) = Some (Tx_toPb t)"
  shows "fromPbString c (Tx_fromPb keccak Tx_default) (toPbString c Tx_toPb t) = Some t"
  using assms by (intro fromPbString_toPbString Tx_pb_roundtrip)

text \<open>A codec for one message, enough for the hypotheses on the wire.\<close>

definition demo_codec :: "'m \<Rightarrow> 'm pb_codec" where
  "demo_codec m = \<lparr>SerializeAsString = (\<lambda>_. ''w''), ParseFromString = (\<lambda>s. if s = ''w'' then Some m else None)\<rparr>"

lemma demo_codec_ok [simp]: "ParseFromString (demo_codec m) (SerializeAsString (demo_codec m) m) = Some m"
  by (simp add: demo_codec_def)

theorem tx_pb_roundtrip_witness:
  "fromPbString (demo_codec (Tx_toPb (demo_tx 3))) (Tx_fromPb demo_keccak Tx_default)
     (toPbString (demo_codec (Tx_toPb (demo_tx 3))) Tx_toPb (demo_tx 3)) = Some (demo_tx 3)"
  by (rule tx_pb_roundtrip) simp_all

text \<open>
  Nobody can send a transaction in the name of another key holder over protobuf: whatever the
  message says in \<open>from_addr\<close>, a parsed transaction that carries a public key has the sender
  address derived from that key; and every parsed transaction has 20-byte addresses.
\<close>

theorem tx_from_pb_sender_derived:
  assumes "Tx_fromPb keccak Tx_default pb = Inr t" "\<And>x. length (keccak x) = 32"
  shows "(pb_pk_pem pb \<noteq> [] \<longrightarrow> tx_pk_pem t = pb_pk_pem pb \<and> tx_from t = getFromFromPkPem keccak t) \<and>
         length (tx_from t) = 20 \<and> length (tx_to t) = 20"
proof -
  have "wf_tx t" by (rule Tx_fromPb_from_matches_key(3) [OF assms])
  moreover have "pb_pk_pem pb \<noteq> [] \<longrightarrow> tx_pk_pem t = pb_pk_pem pb"
    using assms(1) by (auto simp: Tx_fromPb_def bind_result_Inr_iff Let_def split: if_splits)
  ultimately show ?thesis
    using Tx_fromPb_from_matches_key(1) [OF assms(1)] by (auto simp: from_matches_key_def wf_tx_def wf_address_def)
qed

theorem tx_from_pb_sender_derived_witness:
  "(let pb = (Tx_toPb (demo_tx 3))\<lparr>pb_pk_pem := ''key''\<rparr>;
        t = (demo_tx 3)\<lparr>tx_pk_pem := ''key'', tx_from := take 20 (drop 12 (demo_keccak (bytesFromString ''key'')))\<rparr>
    in (pb_pk_pem pb \<noteq> [] \<longrightarrow> tx_pk_pem t = pb_pk_pem pb \<and> tx_from t = getFromFromPkPem demo_keccak t) \<and>
       length (tx_from t) = 20 \<and> length (tx_to t) = 20)"
  unfolding Let_def
proof (rule tx_from_pb_sender_derived)
  show "Tx_fromPb demo_keccak Tx_default ((Tx_toPb (demo_tx 3))\<lparr>pb_pk_pem := ''key''\<rparr>) =
    Inr ((demo_tx 3)\<lparr>tx_pk_pem := ''key'', tx_from := take 20 (drop 12 (demo_keccak (bytesFromString ''key'')))\<rparr>)"
    by (simp add: Tx_fromPb_def Tx_toPb_def demo_tx_def Tx_ctor_def Tx_default_def getFromFromPkPem_def
        fromByteString_address_toByteString wf_address_def)
qed (simp add: demo_keccak_def)

text \<open>
  A block survives the protobuf form, transactions and parent hash included, and so does its
  hash.
\<close>

theorem blk_pb_roundtrip:
  assumes "\<And>t. t \<in> set (txs b) \<Longrightarrow> wf_tx t \<and> from_matches_key keccak t" "wf_hash (parentHash b)"
    and "ParseFromString c (SerializeAsString c (Blk_toPb b)) = Some (Blk_toPb b)" and "txs this = []"
  shows "\<exists>b'. fromPbString c (Blk_fromPb keccak (this :: Blk)) (toPbString c Blk_toPb b) = Some b' \<and> b' = b \<and>
           Blk_hash keccak b' = Blk_hash keccak b"
proof -
  have "Blk_fromPb keccak this (Blk_toPb b) = Inr b"
    using Blk_pb_roundtrip [OF assms(1,2,4)] by (cases this; cases b) simp
  then show ?thesis using assms(3) by (simp add: fromPbString_toPbString)
qed

theorem blk_pb_roundtrip_witness:
  "\<exists>b'. fromPbString (demo_codec (Blk_toPb (Blk_ctor 4 (replicate 32 9) [demo_tx 1, demo_tx 2])))
          (Blk_fromPb demo_keccak (Blk_ctor 0 [] []))
          (toPbString (demo_codec (Blk_toPb (Blk_ctor 4 (replicate 32 9) [demo_tx 1, demo_tx 2]))) Blk_toPb
             (Blk_ctor 4 (replicate 32 9) [demo_tx 1, demo_tx 2])) = Some b' \<and>
        b' = Blk_ctor 4 (replicate 32 9) [demo_tx 1, demo_tx 2] \<and>
        Blk_hash demo_keccak b' = Blk_hash demo_keccak (Blk_ctor 4 (replicate 32 9) [demo_tx 1, demo_tx 2])"
proof (rule blk_pb_roundtrip)
  fix t
  assume "t \<in> set (txs (Blk_ctor 4 (replicate 32 9) [demo_tx 1, demo_tx 2]))"
  then show "wf_tx t \<and> from_matches_key demo_keccak t" by (auto simp: Blk_ctor_def)
qed (simp_all add: Blk_ctor_def wf_hash_def)

text \<open>
  An account survives the protobuf form in which the state database stores it, and whatever
  message parses gives an account whose storage has distinct 32-byte keys and 32-byte values.
\<close>

theorem acn_pb_roundtrip:
  "(wf_acn a \<longrightarrow> Acn_fromPb Acn_default (Acn_toPb a) = Inr a) \<and>
   (Acn_fromPb Acn_default pb = Inr a' \<longrightarrow> wf_acn a')"
  by (auto simp: Acn_pb_roundtrip intro: Acn_fromPb_wf)

theorem acn_pb_roundtrip_witness:
  "Acn_fromPb Acn_default (Acn_toPb (Acn_ctor 1 [2]\<lparr>storage := [(replicate 32 1, replicate 32 2)]\<rparr>)) =
     Inr (Acn_ctor 1 [2]\<lparr>storage := [(replicate 32 1, replicate 32 2)]\<rparr>) \<and> wf_acn (Acn_ctor 1 [2])"
  using acn_pb_roundtrip [of "Acn_ctor 1 [2]\<lparr>storage := [(replicate 32 1, replicate 32 2)]\<rparr>"
      "Acn_toPb (Acn_ctor 1 [2])" "Acn_ctor 1 [2]"]
  by (simp add: wf_acn_def Acn_ctor_def Acn_default_def Acn_fromPb_def Acn_toPb_def)

text \<open>
  The payload a sender signs is the decimal nonce followed directly by the data. It
  determines nonce and data as long as the data does not start with a digit, but data that starts
  with the digit \<open>k\<close> under nonce \<open>n\<close> is the same payload as the rest of the data under nonce
  \<open>10 n + k\<close>: one signature covers two transactions.
\<close>

theorem sign_payload_ambiguity:
  "(getToSignPayload0 n d = getToSignPayload0 m e \<and> (d = [] \<or> \<not> is_digit (hd d)) \<and> (e = [] \<or> \<not> is_digit (hd e))
      \<longrightarrow> n = m \<and> d = e) \<and>
   (n \<noteq> 0 \<and> k < 10 \<and> 10 * unat n + k < 2 ^ 64 \<longrightarrow>
      getToSignPayload0 n (char_of (k + 48) # d) = getToSignPayload0 (of_nat (10 * unat n + k)) d)"
proof -
  have "n = m \<and> d = e" if "getToSignPayload0 n d = getToSignPayload0 m e"
    "d = [] \<or> \<not> is_digit (hd d)" "e = [] \<or> \<not> is_digit (hd e)"
  proof -
    have "decimal (unat n) = decimal (unat m) \<and> d = e"
      using that decimal_digits by (intro digits_prefix_unique [where P = is_digit])
        (auto simp: getToSignPayload0_def)
    then show ?thesis using decimal_inject unsigned_word_eqI by blast
  qed
  moreover have "getToSignPayload0 n (char_of (k + 48) # d) = getToSignPayload0 (of_nat (10 * unat n + k)) d"
    if "n \<noteq> 0" "k < 10" "10 * unat n + k < 2 ^ 64"
  proof -
    have "unat (of_nat (10 * unat n + k) :: u64) = 10 * unat n + k"
      using that(3) by (simp add: unat_of_nat del: of_nat_add of_nat_mult)
    moreover have "unat n > 0" using that(1) by (simp add: unat_gt_0)
    ultimately show ?thesis using that(2) by (simp add: getToSignPayload0_def decimal_snoc del: of_nat_add of_nat_mult)
  qed
  ultimately show ?thesis by blast
qed

theorem sign_payload_ambiguity_witness:
  "getToSignPayload0 1 ''23'' = getToSignPayload0 12 ''3''"
proof -
  have "char_of (50 :: nat) = CHR ''2''" by code_simp
  then show ?thesis using sign_payload_ambiguity [where n = 1 and k = 2 and d = "''3''" and m = 1 and e = "[]"] by simp
qed

text \<open>
  The address a CREATE transaction deploys to depends only on the low 32 bits of
  \<open>nonce XOR NOT timestamp\<close>; in particular every transaction whose nonce equals its timestamp
  deploys to one and the same address, so flipping the timestamp does not separate the pairs
  (0010,0010) and (0011,0011).
\<close>

theorem deploy_address_collisions:
  "(getContractDeployAddress t = getContractDeployAddress r \<longleftrightarrow>
      (ucast (tx_nonce t XOR tx_timestamp t) :: u32) = ucast (tx_nonce r XOR tx_timestamp r)) \<and>
   (tx_nonce t = tx_timestamp t \<longrightarrow> getContractDeployAddress t = makeAddress (-1))"
proof -
  have "(ucast (a XOR NOT b) :: u32) = NOT (ucast (a XOR b))" for a b :: u64
    by (rule bit_word_eqI) (auto simp: bit_simps)
  then have *: "getContractDeployAddress x = makeAddress (NOT (ucast (tx_nonce x XOR tx_timestamp x)))" for x
    by (simp add: getContractDeployAddress_def)
  have "getContractDeployAddress t = makeAddress (-1)" if "tx_nonce t = tx_timestamp t"
    unfolding * that by simp
  moreover have "NOT a = NOT b \<longleftrightarrow> a = b" for a b :: u32 by simp
  ultimately show ?thesis unfolding * makeAddress_inject by blast
qed

theorem deploy_address_collisions_witness:
  "getContractDeployAddress (Tx_ctor 2 [] [] [] 2 Evm) = makeAddress (-1)"
  using deploy_address_collisions [of "Tx_ctor 2 [] [] [] 2 Evm"] by (simp add: Tx_ctor_def)

text \<open>
  A block hash commits to the parent hash and the transaction hashes in order, and to nothing
  else: the block number is not hashed, and a block without transactions has the hash of its parent.
\<close>

theorem blk_hash_commitment:
  "Blk_hash keccak (b\<lparr>number := n\<rparr>) = Blk_hash keccak b \<and>
   Blk_hash keccak (Blk_ctor n p []) = p \<and>
   Blk_hash keccak (Blk_ctor n p (ts @ [t])) = keccak (tx_hash keccak t @ Blk_hash keccak (Blk_ctor n p ts))"
proof -
  have "serial_hash keccak p (hs @ [h]) = keccak (h @ serial_hash keccak p hs)" for p hs h
    by (induction hs arbitrary: p) simp_all
  then show ?thesis by (simp add: Blk_hash_def Blk_ctor_def)
qed

text \<open>
  The constructor of \<open>Tx\<close> drops its type argument: whatever type it is given, the transaction
  is an EVM transaction.
\<close>

theorem tx_ctor_ignores_type: "tx_type (Tx_ctor now f t d n tp) = Evm"
  by (simp add: Tx_ctor_def Tx_default_def)

end
