(* ===== verification/TxPool.thy ===== *)
theory TxPool
  imports ChainCore
begin

text \<open>
  The transaction pool (\<^verbatim>\<open>include/cnsss/mempool.hpp\<close>): a Boost multi-index container ordered by
  \<open>Tx::operator<\<close> and by transaction hash, and the set of all hashes the node has ever accepted.
  The locks make each operation one atomic step. The abstract classes of \<^verbatim>\<open>include/core.hpp\<close> through
  which the consensus executor, the sealer and the light executor use a pool are the record
  \<open>pool_ops\<close>, and their contract is the locale \<open>tx_pool\<close>.
\<close>

section \<open>The container\<close>

text \<open>
  \<open>multi_index_container::insert\<close>: refused when an element is equivalent in the ordered index or
  has the same hash, otherwise placed in order.
\<close>

fun ordered_insert :: "Tx \<Rightarrow> Tx list \<Rightarrow> Tx list" where
  "ordered_insert t [] = [t]"
| "ordered_insert t (u # us) = (if Tx_less t u then t # u # us else u # ordered_insert t us)"

definition Tx_set_insert :: "keccak256 \<Rightarrow> Tx \<Rightarrow> Tx list \<Rightarrow> bool \<times> Tx list" where
  "Tx_set_insert keccak t ts =
     (if \<exists>u \<in> set ts. (\<not> Tx_less t u \<and> \<not> Tx_less u t) \<or> tx_hash keccak u = tx_hash keccak t then (False, ts)
      else (True, ordered_insert t ts))"

record Mempool =
  pool_txs :: "Tx list"  \<comment> \<open>in the order of the first index\<close>
  pool_hs :: "hash256 set"
  max_txs_per_batch :: int

section \<open>Operations\<close>

definition Mempool_ctor :: "hash256 set \<Rightarrow> int \<Rightarrow> Mempool" where
  "Mempool_ctor hhs m = \<lparr>pool_txs = [], pool_hs = hhs, max_txs_per_batch = m\<rparr>"

definition getTxByHash :: "keccak256 \<Rightarrow> Mempool \<Rightarrow> hash256 \<Rightarrow> Tx option \<times> Mempool" where
  "getTxByHash keccak p h =
     (case find (\<lambda>t. tx_hash keccak t = h) (pool_txs p) of
        None \<Rightarrow> (None, p)
      | Some t \<Rightarrow> (Some t, p\<lparr>pool_txs := remove1 t (pool_txs p)\<rparr>))"

text \<open>\<open>erase_if\<close> calls its predicate once per element, in order; the predicate inserts the hash.\<close>

fun wash :: "keccak256 \<Rightarrow> hash256 set \<Rightarrow> Tx list \<Rightarrow> Tx list \<times> hash256 set" where
  "wash keccak hs [] = ([], hs)"
| "wash keccak hs (t # ts) =
     (if tx_hash keccak t \<in> hs then wash keccak hs ts
      else (let (ts', hs') = wash keccak (insert (tx_hash keccak t) hs) ts in (t # ts', hs')))"

definition washTxs :: "keccak256 \<Rightarrow> Mempool \<Rightarrow> Tx list \<Rightarrow> Tx list \<times> Mempool" where
  "washTxs keccak p ts = (let (ts', hs') = wash keccak (pool_hs p) ts in (ts', p\<lparr>pool_hs := hs'\<rparr>))"

definition getTxHashesForSeal :: "keccak256 \<Rightarrow> Mempool \<Rightarrow> hash256 list" where
  "getTxHashesForSeal keccak p = map (tx_hash keccak) (take (nat (max_txs_per_batch p)) (pool_txs p))"

definition verifyTx :: "keccak256 \<Rightarrow> Mempool \<Rightarrow> Tx \<Rightarrow> bool" where
  "verifyTx keccak p t \<longleftrightarrow> tx_hash keccak t \<notin> pool_hs p"

definition addTx :: "keccak256 \<Rightarrow> Mempool \<Rightarrow> Tx \<Rightarrow> bool \<times> Mempool" where
  "addTx keccak p t =
     (if tx_hash keccak t \<in> pool_hs p then (False, p)
      else (let (ok, ts) = Tx_set_insert keccak t (pool_txs p)
            in (ok, p\<lparr>pool_hs := insert (tx_hash keccak t) (pool_hs p), pool_txs := ts\<rparr>)))"

section \<open>Invariant\<close>

definition pool_ok :: "keccak256 \<Rightarrow> Mempool \<Rightarrow> bool" where
  "pool_ok keccak p \<longleftrightarrow>
     sorted_wrt Tx_less (pool_txs p) \<and> distinct (map (tx_hash keccak) (pool_txs p)) \<and>
     (\<forall>t \<in> set (pool_txs p). tx_hash keccak t \<in> pool_hs p)"

lemma Tx_less_trans: "Tx_less a b \<Longrightarrow> Tx_less b c \<Longrightarrow> Tx_less a c"
  by (simp add: Tx_less_key)

lemma Tx_not_less: "\<not> Tx_less t u \<Longrightarrow> \<not> Tx_less u t \<Longrightarrow> tx_hash keccak u = tx_hash keccak t"
  by (rule tx_key_eq_hash) (simp add: Tx_less_key)

lemma set_ordered_insert [simp]: "set (ordered_insert t ts) = insert t (set ts)"
  by (induction ts) auto

lemma distinct_ordered_insert:
  "distinct (map f (ordered_insert t ts)) \<longleftrightarrow> f t \<notin> f ` set ts \<and> distinct (map f ts)"
  by (induction ts) auto

lemma sorted_ordered_insert:
  "sorted_wrt Tx_less ts \<Longrightarrow> \<forall>u \<in> set ts. Tx_less t u \<or> Tx_less u t \<Longrightarrow> sorted_wrt Tx_less (ordered_insert t ts)"
  by (induction ts) (auto intro: Tx_less_trans)

lemma Mempool_ctor_ok: "pool_ok keccak (Mempool_ctor hhs m)"
  by (simp add: pool_ok_def Mempool_ctor_def)

lemma addTx_cases:
  assumes "pool_ok keccak p"
  shows "addTx keccak p t =
     (if tx_hash keccak t \<in> pool_hs p then (False, p)
      else (True, p\<lparr>pool_hs := insert (tx_hash keccak t) (pool_hs p), pool_txs := ordered_insert t (pool_txs p)\<rparr>))"
proof -
  have "Tx_set_insert keccak t (pool_txs p) = (True, ordered_insert t (pool_txs p))"
    if "tx_hash keccak t \<notin> pool_hs p"
    using that assms Tx_not_less by (fastforce simp: Tx_set_insert_def pool_ok_def)
  then show ?thesis by (auto simp: addTx_def)
qed

lemma addTx_ok:
  assumes "pool_ok keccak p" "addTx keccak p t = (ok, p')"
  shows "pool_ok keccak p'"
proof (cases "tx_hash keccak t \<in> pool_hs p")
  case False
  then have "\<forall>u \<in> set (pool_txs p). Tx_less t u \<or> Tx_less u t"
    using assms(1) Tx_not_less by (fastforce simp: pool_ok_def)
  then show ?thesis
    using assms False
    by (auto simp: addTx_cases [OF assms(1)] pool_ok_def distinct_ordered_insert intro: sorted_ordered_insert)
qed (use assms in \<open>simp add: addTx_cases\<close>)

lemma find_hash_Some:
  "find (\<lambda>t. tx_hash keccak t = h) ts = Some t \<Longrightarrow> t \<in> set ts \<and> tx_hash keccak t = h"
  by (metis (mono_tags, lifting) find_Some_iff nth_mem)

lemma find_hash_None: "find (\<lambda>t. tx_hash keccak t = h) ts = None \<longleftrightarrow> h \<notin> tx_hash keccak ` set ts"
  by (auto simp: find_None_iff)

lemma getTxByHash_ok:
  assumes "pool_ok keccak p" "getTxByHash keccak p h = (r, p')"
  shows "pool_ok keccak p'"
proof (cases "find (\<lambda>t. tx_hash keccak t = h) (pool_txs p)")
  case (Some t)
  have "sorted_wrt Tx_less (remove1 t ts)" if "sorted_wrt Tx_less ts" for ts
    using that by (induction ts) (auto dest: set_remove1_subset [THEN subsetD])
  moreover have "distinct (map (tx_hash keccak) (remove1 t ts))" if "distinct (map (tx_hash keccak) ts)" for ts
    using that by (induction ts) (auto dest: notin_set_remove1 set_remove1_subset [THEN subsetD])
  moreover have "set (remove1 t (pool_txs p)) \<subseteq> set (pool_txs p)" by (rule set_remove1_subset)
  ultimately show ?thesis
    using assms Some by (auto simp: getTxByHash_def pool_ok_def)
qed (use assms in \<open>simp add: getTxByHash_def\<close>)

lemma wash_props:
  "wash keccak hs ts = (ts', hs') \<Longrightarrow>
   hs' = hs \<union> tx_hash keccak ` set ts \<and> distinct (map (tx_hash keccak) ts') \<and>
   tx_hash keccak ` set ts' = tx_hash keccak ` set ts - hs"
proof (induction ts arbitrary: hs ts' hs')
  case (Cons t ts)
  show ?case
  proof (cases "tx_hash keccak t \<in> hs")
    case True
    then show ?thesis using Cons.IH [of hs ts' hs'] Cons.prems by auto
  next
    case False
    then obtain us where us: "wash keccak (insert (tx_hash keccak t) hs) ts = (us, hs')" "ts' = t # us"
      using Cons.prems by (auto split: prod.splits)
    then show ?thesis using Cons.IH [OF us(1)] False by auto
  qed
qed simp

lemma wash_fresh:
  "distinct (map (tx_hash keccak) ts) \<Longrightarrow> tx_hash keccak ` set ts \<inter> hs = {} \<Longrightarrow>
   wash keccak hs ts = (ts, hs \<union> tx_hash keccak ` set ts)"
  by (induction ts arbitrary: hs) auto

lemma washTxs_ok: "pool_ok keccak p \<Longrightarrow> washTxs keccak p ts = (ts', p') \<Longrightarrow> pool_ok keccak p'"
  using wash_props [of keccak "pool_hs p" ts] by (auto simp: washTxs_def pool_ok_def split: prod.splits)

section \<open>The interface and its contract\<close>

text \<open>\<open>IPoolSettable\<close>, \<open>IForLightExeTxWashable\<close> and \<open>IForSealerTxHashesGettable\<close>.\<close>

record 'p pool_ops =
  op_getTxByHash :: "'p \<Rightarrow> hash256 \<Rightarrow> Tx option \<times> 'p"
  op_verifyTx :: "'p \<Rightarrow> Tx \<Rightarrow> bool"
  op_addTx :: "'p \<Rightarrow> Tx \<Rightarrow> bool \<times> 'p"
  op_washTxs :: "'p \<Rightarrow> Tx list \<Rightarrow> Tx list \<times> 'p"
  op_getTxHashesForSeal :: "'p \<Rightarrow> hash256 list"

definition Mempool_ops :: "keccak256 \<Rightarrow> Mempool pool_ops" where
  "Mempool_ops keccak =
     \<lparr>op_getTxByHash = getTxByHash keccak, op_verifyTx = verifyTx keccak, op_addTx = addTx keccak,
      op_washTxs = washTxs keccak, op_getTxHashesForSeal = getTxHashesForSeal keccak\<rparr>"

text \<open>
  The calls other components make on a pool, and what a sequence of them accepts (by \<open>addTx\<close> and
  \<open>washTxs\<close>) and hands out for execution (by \<open>getTxByHash\<close>).
\<close>

datatype pool_call = CallAdd Tx | CallGet hash256 | CallWash "Tx list"

fun pool_step :: "'p pool_ops \<Rightarrow> 'p \<Rightarrow> pool_call \<Rightarrow> Tx list \<times> Tx list \<times> 'p" where
  "pool_step ops p (CallAdd t) = (let (ok, p') = op_addTx ops p t in (if ok then [t] else [], [], p'))"
| "pool_step ops p (CallGet h) =
     (let (r, p') = op_getTxByHash ops p h in ([], (case r of None \<Rightarrow> [] | Some t \<Rightarrow> [t]), p'))"
| "pool_step ops p (CallWash ts) = (let (ts', p') = op_washTxs ops p ts in (ts', [], p'))"

fun pool_run :: "'p pool_ops \<Rightarrow> 'p \<Rightarrow> pool_call list \<Rightarrow> Tx list \<times> Tx list \<times> 'p" where
  "pool_run ops p [] = ([], [], p)"
| "pool_run ops p (c # cs) =
     (let (acc, out, p1) = pool_step ops p c; (acc', out', p2) = pool_run ops p1 cs
      in (acc @ acc', out @ out', p2))"

locale tx_pool =
  fixes ops :: "'p pool_ops"
    and hash :: "Tx \<Rightarrow> hash256"
    and invar :: "'p \<Rightarrow> bool"
    and seen :: "'p \<Rightarrow> hash256 set"
    and pending :: "'p \<Rightarrow> Tx set"
  assumes pending_seen: "invar p \<Longrightarrow> hash ` pending p \<subseteq> seen p"
    and pending_inj: "invar p \<Longrightarrow> inj_on hash (pending p)"
    and verify_iff: "op_verifyTx ops p t \<longleftrightarrow> hash t \<notin> seen p"
    and add_law: "invar p \<Longrightarrow> op_addTx ops p t = (ok, p') \<Longrightarrow>
      invar p' \<and> (ok \<longleftrightarrow> hash t \<notin> seen p) \<and> (\<not> ok \<longrightarrow> p' = p) \<and>
      (ok \<longrightarrow> seen p' = insert (hash t) (seen p) \<and> pending p' = insert t (pending p))"
    and get_law: "invar p \<Longrightarrow> op_getTxByHash ops p h = (r, p') \<Longrightarrow>
      invar p' \<and> seen p' = seen p \<and>
      (case r of None \<Rightarrow> h \<notin> hash ` pending p \<and> p' = p
       | Some t \<Rightarrow> t \<in> pending p \<and> hash t = h \<and> pending p' = pending p - {t})"
    and wash_law: "invar p \<Longrightarrow> op_washTxs ops p ts = (ts', p') \<Longrightarrow>
      invar p' \<and> seen p' = seen p \<union> hash ` set ts \<and> pending p' = pending p \<and>
      distinct (map hash ts') \<and> hash ` set ts' = hash ` set ts - seen p"
    and seal_law: "invar p \<Longrightarrow> distinct (op_getTxHashesForSeal ops p) \<and>
      set (op_getTxHashesForSeal ops p) \<subseteq> hash ` pending p"
begin

text \<open>
  What one call keeps: nothing is accepted that was seen, everything accepted is seen afterwards,
  what is handed out was pending, and what is pending afterwards was pending or accepted and is
  not handed out.
\<close>

lemma step_law:
  assumes "invar p" "pool_step ops p c = (acc, out, p')"
  shows "invar p'" "distinct (map hash acc)" "hash ` set acc \<inter> seen p = {}"
    "seen p \<union> hash ` set acc \<subseteq> seen p'" "distinct (map hash out)" "set out \<subseteq> pending p"
    "pending p' \<subseteq> (pending p - set out) \<union> set acc"
proof -
  have "invar p' \<and> distinct (map hash acc) \<and> hash ` set acc \<inter> seen p = {} \<and> seen p \<union> hash ` set acc \<subseteq> seen p' \<and>
    distinct (map hash out) \<and> set out \<subseteq> pending p \<and> pending p' \<subseteq> (pending p - set out) \<union> set acc"
  proof (cases c)
    case (CallAdd t)
    then show ?thesis
      using assms add_law [OF assms(1), of t] by (cases "op_addTx ops p t") (auto split: if_splits)
  next
    case (CallGet h)
    then show ?thesis
      using assms get_law [OF assms(1), of h] by (cases "op_getTxByHash ops p h") (auto split: option.splits)
  next
    case (CallWash ts)
    then obtain p1 where "op_washTxs ops p ts = (acc, p1)" "out = []" "p' = p1"
      using assms(2) by (auto split: prod.splits)
    then show ?thesis using wash_law [OF assms(1)] by auto
  qed
  then show "invar p'" "distinct (map hash acc)" "hash ` set acc \<inter> seen p = {}"
    "seen p \<union> hash ` set acc \<subseteq> seen p'" "distinct (map hash out)" "set out \<subseteq> pending p"
    "pending p' \<subseteq> (pending p - set out) \<union> set acc" by blast+
qed

lemma run_law:
  assumes "invar p" "pool_run ops p cs = (acc, out, p')"
  shows "invar p' \<and> distinct (map hash acc) \<and> hash ` set acc \<inter> seen p = {} \<and> seen p \<union> hash ` set acc \<subseteq> seen p' \<and>
    distinct (map hash out) \<and> set out \<subseteq> pending p \<union> set acc"
  using assms
proof (induction cs arbitrary: p acc out)
  case (Cons c cs)
  obtain acc1 out1 p1 where st: "pool_step ops p c = (acc1, out1, p1)" by (metis prod_cases3)
  obtain acc2 out2 where rn: "pool_run ops p1 cs = (acc2, out2, p')" "acc = acc1 @ acc2" "out = out1 @ out2"
    using Cons.prems st by (auto split: prod.splits)
  note L = step_law [OF Cons.prems(1) st]
  have IH: "invar p'" "distinct (map hash acc2)" "hash ` set acc2 \<inter> seen p1 = {}"
    "seen p1 \<union> hash ` set acc2 \<subseteq> seen p'" "distinct (map hash out2)" "set out2 \<subseteq> pending p1 \<union> set acc2"
    using Cons.IH [OF L(1) rn(1)] by blast+
  have "hash ` set out1 \<inter> hash ` set out2 = {}"
  proof -
    have "hash x \<noteq> hash y" if x: "x \<in> set out1" and y: "y \<in> set out2" for x y
    proof -
      have xp: "x \<in> pending p" "hash x \<in> seen p" using x L(6) pending_seen [OF Cons.prems(1)] by auto
      from y IH(6) L(7) consider "y \<in> pending p" "y \<notin> set out1" | "y \<in> set acc1" | "y \<in> set acc2" by auto
      then show ?thesis
      proof cases
        case 1
        then show ?thesis using x xp pending_inj [OF Cons.prems(1)] by (metis inj_on_def)
      qed (use xp L(3,4) IH(3) in auto)
    qed
    then show ?thesis by auto
  qed
  moreover have "set out \<subseteq> pending p \<union> set acc" using L(6,7) IH(6) rn(2,3) by auto
  moreover have "hash ` set acc1 \<inter> hash ` set acc2 = {}" using L(4) IH(3) by blast
  ultimately show ?case using L IH rn(2,3) by auto
qed auto

end

lemma getTxByHash_cases:
  "getTxByHash keccak p h = (r, p') \<Longrightarrow> pool_ok keccak p \<Longrightarrow>
   pool_hs p' = pool_hs p \<and>
   (case r of None \<Rightarrow> h \<notin> tx_hash keccak ` set (pool_txs p) \<and> p' = p
    | Some t \<Rightarrow> t \<in> set (pool_txs p) \<and> tx_hash keccak t = h \<and> set (pool_txs p') = set (pool_txs p) - {t})"
  using find_hash_Some [of keccak h "pool_txs p"] find_hash_None [of keccak h "pool_txs p"]
  by (cases "find (\<lambda>t. tx_hash keccak t = h) (pool_txs p)")
    (auto simp: getTxByHash_def pool_ok_def distinct_map set_remove1_eq)

lemma seal_hashes:
  "pool_ok keccak p \<Longrightarrow> distinct (getTxHashesForSeal keccak p) \<and>
   set (getTxHashesForSeal keccak p) \<subseteq> tx_hash keccak ` set (pool_txs p)"
  by (auto simp: getTxHashesForSeal_def pool_ok_def take_map [symmetric] distinct_take
      dest: in_set_takeD)

interpretation mempool: tx_pool "Mempool_ops keccak" "tx_hash keccak" "pool_ok keccak" pool_hs "\<lambda>p. set (pool_txs p)"
  for keccak
proof unfold_locales
  fix p p' t ok
  assume "pool_ok keccak p" "op_addTx (Mempool_ops keccak) p t = (ok, p')"
  then show "pool_ok keccak p' \<and> (ok \<longleftrightarrow> tx_hash keccak t \<notin> pool_hs p) \<and> (\<not> ok \<longrightarrow> p' = p) \<and>
      (ok \<longrightarrow> pool_hs p' = insert (tx_hash keccak t) (pool_hs p) \<and> set (pool_txs p') = insert t (set (pool_txs p)))"
    using addTx_ok [of keccak p t ok p'] by (auto simp: Mempool_ops_def addTx_cases split: if_splits)
next
  fix p p' ts ts'
  assume "pool_ok keccak p" "op_washTxs (Mempool_ops keccak) p ts = (ts', p')"
  then show "pool_ok keccak p' \<and> pool_hs p' = pool_hs p \<union> tx_hash keccak ` set ts \<and> set (pool_txs p') = set (pool_txs p) \<and>
      distinct (map (tx_hash keccak) ts') \<and> tx_hash keccak ` set ts' = tx_hash keccak ` set ts - pool_hs p"
    using washTxs_ok [of keccak p ts ts' p'] wash_props [of keccak "pool_hs p" ts]
    by (auto simp: Mempool_ops_def washTxs_def split: prod.splits)
next
  fix p p' h r
  assume "pool_ok keccak p" "op_getTxByHash (Mempool_ops keccak) p h = (r, p')"
  then show "pool_ok keccak p' \<and> pool_hs p' = pool_hs p \<and>
      (case r of None \<Rightarrow> h \<notin> tx_hash keccak ` set (pool_txs p) \<and> p' = p
       | Some t \<Rightarrow> t \<in> set (pool_txs p) \<and> tx_hash keccak t = h \<and> set (pool_txs p') = set (pool_txs p) - {t})"
    using getTxByHash_ok [of keccak p h r p'] getTxByHash_cases [of keccak p h r p'] by (simp add: Mempool_ops_def)
qed (auto simp: Mempool_ops_def verifyTx_def pool_ok_def distinct_map seal_hashes [unfolded pool_ok_def])

section \<open>Properties\<close>

text \<open>
  C24. No transaction is accepted or handed out twice. Over any sequence of calls on a mempool, the
  transactions that \<open>addTx\<close> or \<open>washTxs\<close> accepts have pairwise different (sender, nonce) hashes and
  none of them was known before; the transactions that \<open>getTxByHash\<close> hands out for a block also
  have pairwise different hashes and all come from the pool or from those accepted; and the
  container invariant (ordered by \<open>Tx::operator<\<close>, unique hashes, every hash remembered) is kept.
\<close>

theorem mempool_no_double_spend:
  assumes "pool_ok keccak p" "pool_run (Mempool_ops keccak) p calls = (accepted, handed_out, p')"
  shows "distinct (map (tx_hash keccak) accepted) \<and> tx_hash keccak ` set accepted \<inter> pool_hs p = {} \<and>
         distinct (map (tx_hash keccak) handed_out) \<and> set handed_out \<subseteq> set (pool_txs p) \<union> set accepted \<and>
         pool_ok keccak p' \<and> pool_hs p \<union> tx_hash keccak ` set accepted \<subseteq> pool_hs p'"
  using mempool.run_law [OF assms] by blast

theorem mempool_no_double_spend_witness:
  "(let p = Mempool_ctor {} 2; calls = [CallAdd (demo_tx 1), CallAdd (demo_tx 1), CallGet (tx_hash demo_keccak (demo_tx 1)),
        CallAdd (demo_tx 1), CallWash [demo_tx 1]];
        accepted = [demo_tx 1]; handed_out = [demo_tx 1]
    in pool_ok demo_keccak p \<and> fst (pool_run (Mempool_ops demo_keccak) p calls) = accepted \<and>
       distinct (map (tx_hash demo_keccak) accepted) \<and> tx_hash demo_keccak ` set accepted \<inter> pool_hs p = {} \<and>
       distinct (map (tx_hash demo_keccak) handed_out) \<and> set handed_out \<subseteq> set (pool_txs p) \<union> set accepted)"
proof -
  let ?p = "Mempool_ctor {} 2" and ?t = "demo_tx 1"
  let ?calls = "[CallAdd ?t, CallAdd ?t, CallGet (tx_hash demo_keccak ?t), CallAdd ?t, CallWash [?t]]"
  have run: "pool_run (Mempool_ops demo_keccak) ?p ?calls =
      ([?t], [?t], ?p\<lparr>pool_hs := {tx_hash demo_keccak ?t}\<rparr>)"
    by (simp add: Mempool_ops_def Mempool_ctor_def addTx_def getTxByHash_def washTxs_def Tx_set_insert_def)
  show ?thesis
    using mempool_no_double_spend [OF Mempool_ctor_ok run] by (simp add: run Mempool_ctor_ok Let_def del: pool_run.simps)
qed

text \<open>
  \<open>addTx\<close> on a consistent pool accepts exactly the transactions whose (sender, nonce) hash the
  node has never accepted, which is what \<open>verifyTx\<close> answers; an accepted transaction can be fetched
  by its hash until it is handed out, and a refused one leaves the pool as it was. In particular a
  transaction already executed, or already pending under another timestamp, is refused.
\<close>

theorem mempool_add_then_get:
  assumes "pool_ok keccak p"
  shows "(fst (addTx keccak p t) \<longleftrightarrow> verifyTx keccak p t) \<and>
         (verifyTx keccak p t \<longrightarrow>
            fst (getTxByHash keccak (snd (addTx keccak p t)) (tx_hash keccak t)) = Some t \<and>
            \<not> verifyTx keccak (snd (addTx keccak p t)) t) \<and>
         (\<not> verifyTx keccak p t \<longrightarrow> snd (addTx keccak p t) = p)"
proof -
  have "fst (getTxByHash keccak (snd (addTx keccak p t)) (tx_hash keccak t)) = Some t" if v: "verifyTx keccak p t"
  proof -
    obtain p1 where add: "addTx keccak p t = (True, p1)"
      using v assms by (auto simp: addTx_cases verifyTx_def)
    have ok: "pool_ok keccak p1" "t \<in> set (pool_txs p1)"
      using addTx_ok [OF assms add] add assms by (auto simp: addTx_cases split: if_splits)
    obtain r p2 where get: "getTxByHash keccak p1 (tx_hash keccak t) = (r, p2)" by (cases "getTxByHash keccak p1 (tx_hash keccak t)")
    have "r = Some t"
      using getTxByHash_cases [OF get ok(1)] ok by (auto simp: pool_ok_def distinct_map inj_on_def split: option.splits)
    then show ?thesis by (simp add: add get)
  qed
  then show ?thesis using assms by (auto simp: addTx_cases verifyTx_def)
qed

theorem mempool_add_then_get_witness:
  "fst (addTx demo_keccak (Mempool_ctor {} 2) (demo_tx 1)) \<and>
   fst (getTxByHash demo_keccak (snd (addTx demo_keccak (Mempool_ctor {} 2) (demo_tx 1))) (tx_hash demo_keccak (demo_tx 1))) =
     Some (demo_tx 1)"
  using mempool_add_then_get [OF Mempool_ctor_ok, of demo_keccak "{}" 2 "demo_tx 1"]
  by (simp add: verifyTx_def Mempool_ctor_def)

end
