(* ===== verification/PostExec.thy ===== *)
theory PostExec
  imports ChainCore
begin

text \<open>
  What execution leaves behind (\<^verbatim>\<open>include/forPostExec.hpp\<close>, \<open>StateChange\<close> of \<^verbatim>\<open>include/core.hpp\<close>): the
  state changes and the receipt of a transaction, the place of a transaction on the chain, the
  executed block, and their protobuf forms.
\<close>

record StateChange =
  del :: bool
  sc_k :: string
  sc_v :: string

section \<open>Receipts\<close>

record TxReceipt =
  rcpt_ok :: bool
  rcpt_result :: bytes
  rcpt_type :: tx_type

definition TxReceipt_default :: TxReceipt where
  "TxReceipt_default = \<lparr>rcpt_ok = True, rcpt_result = [], rcpt_type = Evm\<rparr>"

text \<open>\<open>explicit TxReceipt(bool, Type)\<close> is for failed transactions and refuses \<open>true\<close>.\<close>

definition TxReceipt_failed :: "bool \<Rightarrow> tx_type \<Rightarrow> TxReceipt result" where
  "TxReceipt_failed ok tp =
     (if ok then Inl Invalid_argument else Inr (TxReceipt_default\<lparr>rcpt_ok := ok, rcpt_type := tp\<rparr>))"

definition TxReceipt_ctor :: "bytes \<Rightarrow> tx_type \<Rightarrow> TxReceipt" where
  "TxReceipt_ctor r tp = TxReceipt_default\<lparr>rcpt_result := r, rcpt_type := tp\<rparr>"

record PbTxReceipt =
  pb_ok :: bool
  pb_result :: string
  pb_rcpt_type :: PbTxType

definition TxReceipt_toPb :: "TxReceipt \<Rightarrow> PbTxReceipt" where
  "TxReceipt_toPb r = \<lparr>pb_ok = rcpt_ok r, pb_result = toString (rcpt_result r), pb_rcpt_type = typeToPb (rcpt_type r)\<rparr>"

definition TxReceipt_fromPb :: "TxReceipt \<Rightarrow> PbTxReceipt \<Rightarrow> TxReceipt result" where
  "TxReceipt_fromPb this pb =
     Inr (this\<lparr>rcpt_ok := pb_ok pb, rcpt_result := bytesFromString (pb_result pb),
               rcpt_type := typeFromPb (pb_rcpt_type pb)\<rparr>)"

section \<open>Where a transaction is on the chain\<close>

record TxOnBlkInfo =
  blkNumber :: u64
  onBlkId :: u64

definition TxOnBlkInfo_ctor :: "u64 \<Rightarrow> u64 \<Rightarrow> TxOnBlkInfo" where
  "TxOnBlkInfo_ctor n i = \<lparr>blkNumber = n, onBlkId = i\<rparr>"

record PbTxOnBlkInfo =
  pb_blknumber :: u64
  pb_onblkid :: u64

definition TxOnBlkInfo_toPb :: "TxOnBlkInfo \<Rightarrow> PbTxOnBlkInfo" where
  "TxOnBlkInfo_toPb i = \<lparr>pb_blknumber = blkNumber i, pb_onblkid = onBlkId i\<rparr>"

definition TxOnBlkInfo_fromPb :: "TxOnBlkInfo \<Rightarrow> PbTxOnBlkInfo \<Rightarrow> TxOnBlkInfo result" where
  "TxOnBlkInfo_fromPb this pb = Inr (this\<lparr>blkNumber := pb_blknumber pb, onBlkId := pb_onblkid pb\<rparr>)"

section \<open>Executed blocks\<close>

record ExecBlk = Blk +
  stateChanges :: "StateChange list list"
  txReceipts :: "TxReceipt list"

definition ExecBlk_default :: "u64 \<Rightarrow> hash256 \<Rightarrow> ExecBlk" where
  "ExecBlk_default n p = \<lparr>number = n, parentHash = p, txs = [], stateChanges = [], txReceipts = []\<rparr>"

definition ExecBlk_ctor :: "Blk \<Rightarrow> StateChange list list \<Rightarrow> TxReceipt list \<Rightarrow> ExecBlk result" where
  "ExecBlk_ctor b j r =
     (if length (txs b) \<noteq> length j then Inl Length_error
      else if length j \<noteq> length r then Inl Length_error
      else Inr \<lparr>number = number b, parentHash = parentHash b, txs = txs b, stateChanges = j, txReceipts = r\<rparr>)"

record PbStateChange =
  pb_del :: bool
  pb_k :: string
  pb_v :: string

record PbExecBlk =
  pb_blk :: PbBlk
  pb_txreceipts :: "PbTxReceipt list"
  pb_statechanges :: "PbStateChange list list"

definition StateChange_toPb :: "StateChange \<Rightarrow> PbStateChange" where
  "StateChange_toPb sc = \<lparr>pb_del = del sc, pb_k = sc_k sc, pb_v = sc_v sc\<rparr>"

definition StateChange_fromPb :: "PbStateChange \<Rightarrow> StateChange" where
  "StateChange_fromPb pb = \<lparr>del = pb_del pb, sc_k = pb_k pb, sc_v = pb_v pb\<rparr>"

definition ExecBlk_toPb0 :: "ExecBlk \<Rightarrow> PbExecBlk" where
  "ExecBlk_toPb0 b =
     \<lparr>pb_blk = Blk_toPb b, pb_txreceipts = map TxReceipt_toPb (txReceipts b),
      pb_statechanges = map (map StateChange_toPb) (stateChanges b)\<rparr>"

definition ExecBlk_fromPb0 :: "keccak256 \<Rightarrow> ExecBlk \<Rightarrow> PbExecBlk \<Rightarrow> ExecBlk result" where
  "ExecBlk_fromPb0 keccak this pb =
     bind_result (Blk_fromPb keccak this (pb_blk pb)) (\<lambda>b.
       bind_result (map_result (TxReceipt_fromPb TxReceipt_default) (pb_txreceipts pb)) (\<lambda>rs.
         Inr (b\<lparr>stateChanges := stateChanges b @ map (map StateChange_fromPb) (pb_statechanges pb),
                txReceipts := txReceipts b @ rs\<rparr>)))"

section \<open>Lemmas\<close>

lemma TxReceipt_pb_roundtrip [pb_simps]: "TxReceipt_fromPb this (TxReceipt_toPb r) = Inr r"
  by (cases this, cases r) (simp add: TxReceipt_fromPb_def TxReceipt_toPb_def)

lemma TxOnBlkInfo_pb_roundtrip [pb_simps]: "TxOnBlkInfo_fromPb this (TxOnBlkInfo_toPb i) = Inr i"
  by (cases this, cases i) (simp add: TxOnBlkInfo_fromPb_def TxOnBlkInfo_toPb_def)

lemma StateChange_pb_roundtrip [simp, pb_simps]: "StateChange_fromPb (StateChange_toPb sc) = sc"
  by (cases sc) (simp add: StateChange_fromPb_def StateChange_toPb_def)

lemma ExecBlk_ctor_Inr_iff:
  "(\<exists>eb. ExecBlk_ctor b j r = Inr eb) \<longleftrightarrow> length j = length (txs b) \<and> length r = length (txs b)"
  by (auto simp: ExecBlk_ctor_def)

lemma ExecBlk_pb_roundtrip [pb_simps]:
  assumes "\<And>t. t \<in> set (txs b) \<Longrightarrow> wf_tx t \<and> from_matches_key keccak t" "wf_hash (parentHash b)"
  shows "ExecBlk_fromPb0 keccak (ExecBlk_default n p) (ExecBlk_toPb0 b) = Inr b"
proof -
  have "Blk_fromPb keccak (ExecBlk_default n p) (Blk_toPb b) =
        Inr (ExecBlk_default n p\<lparr>number := number b, parentHash := parentHash b, txs := txs b\<rparr>)"
    by (rule Blk_pb_roundtrip [OF assms]) (simp_all add: ExecBlk_default_def)
  moreover have "map_result (TxReceipt_fromPb TxReceipt_default) (map TxReceipt_toPb (txReceipts b)) = Inr (txReceipts b)"
    by (rule map_result_Inr) (rule TxReceipt_pb_roundtrip)
  moreover have "map (map StateChange_fromPb \<circ> map StateChange_toPb) js = js" for js
    by (simp add: map_idI)
  ultimately show ?thesis
    by (cases b) (simp add: ExecBlk_fromPb0_def ExecBlk_toPb0_def ExecBlk_default_def)
qed

section \<open>Properties\<close>

text \<open>
  An executed block survives the form in which it is stored under \<^verbatim>\<open>/blk/<n>\<close> and served to
  clients: block, receipts and state changes come back, whatever block the parsing object was
  default-constructed as. A receipt and the position of a transaction survive too.
\<close>

theorem exec_blk_pb_roundtrip:
  assumes "\<And>t. t \<in> set (txs b) \<Longrightarrow> wf_tx t \<and> from_matches_key keccak t" "wf_hash (parentHash b)"
    and "ParseFromString c (SerializeAsString c (ExecBlk_toPb0 b)) = Some (ExecBlk_toPb0 b)"
  shows "fromPbString c (ExecBlk_fromPb0 keccak (ExecBlk_default n p)) (toPbString c ExecBlk_toPb0 b) = Some b \<and>
         TxReceipt_fromPb TxReceipt_default (TxReceipt_toPb r) = Inr r \<and>
         TxOnBlkInfo_fromPb i0 (TxOnBlkInfo_toPb i) = Inr i"
proof -
  have "ExecBlk_fromPb0 keccak (ExecBlk_default n p) (ExecBlk_toPb0 b) = Inr b"
    using assms(1,2) by (rule ExecBlk_pb_roundtrip)
  with assms(3) show ?thesis
    by (simp add: fromPbString_toPbString TxReceipt_pb_roundtrip TxOnBlkInfo_pb_roundtrip)
qed

definition demo_exec_blk :: ExecBlk where
  "demo_exec_blk = \<lparr>number = 1, parentHash = replicate 32 0, txs = [demo_tx 1],
     stateChanges = [[\<lparr>del = True, sc_k = ''a'', sc_v = []\<rparr>]], txReceipts = [TxReceipt_ctor [7] Evm]\<rparr>"

theorem exec_blk_pb_roundtrip_witness:
  "fromPbString (demo_codec (ExecBlk_toPb0 demo_exec_blk)) (ExecBlk_fromPb0 demo_keccak (ExecBlk_default 0 []))
     (toPbString (demo_codec (ExecBlk_toPb0 demo_exec_blk)) ExecBlk_toPb0 demo_exec_blk) = Some demo_exec_blk \<and>
   TxReceipt_fromPb TxReceipt_default (TxReceipt_toPb (TxReceipt_ctor [7] Evm)) = Inr (TxReceipt_ctor [7] Evm) \<and>
   TxOnBlkInfo_fromPb (TxOnBlkInfo_ctor 0 0) (TxOnBlkInfo_toPb (TxOnBlkInfo_ctor 1 2)) = Inr (TxOnBlkInfo_ctor 1 2)"
proof (rule exec_blk_pb_roundtrip)
  show "wf_tx t \<and> from_matches_key demo_keccak t" if "t \<in> set (txs demo_exec_blk)" for t
    using that by (simp add: demo_exec_blk_def)
qed (simp_all add: demo_exec_blk_def wf_hash_def)

end
