(* ===== verification/StdMap.thy ===== *)
theory StdMap
  imports Main "HOL-Library.List_Lexorder" "HOL-Library.Char_ord" "HOL-Library.Sublist"
begin

text \<open>
  \<open>std::map\<close> as the list of its entries in iteration order: the keys are strictly increasing.
  \<open>contains\<close>, \<open>at\<close> and \<open>find\<close> are \<open>map_of\<close>; \<open>operator[]=\<close> and \<open>insert_or_assign\<close> are \<open>smap_put\<close>;
  \<open>erase\<close> is \<open>smap_erase\<close>. The last part relates a prefix scan from a seek position to the filter
  of all keys.
\<close>

fun smap_put :: "'k :: linorder \<Rightarrow> 'v \<Rightarrow> ('k \<times> 'v) list \<Rightarrow> ('k \<times> 'v) list" where
  "smap_put k v [] = [(k, v)]"
| "smap_put k v ((k', v') # m) =
     (if k < k' then (k, v) # (k', v') # m
      else if k = k' then (k, v) # m
      else (k', v') # smap_put k v m)"

fun smap_erase :: "'k :: linorder \<Rightarrow> ('k \<times> 'v) list \<Rightarrow> ('k \<times> 'v) list" where
  "smap_erase k [] = []"
| "smap_erase k ((k', v') # m) = (if k = k' then m else (k', v') # smap_erase k m)"

definition smap_ok :: "('k :: linorder \<times> 'v) list \<Rightarrow> bool" where
  "smap_ok m \<longleftrightarrow> sorted_wrt (<) (map fst m)"

lemma smap_ok_Nil [simp]: "smap_ok []"
  by (simp add: smap_ok_def)

lemma set_smap_put: "fst ` set (smap_put k v m) = insert k (fst ` set m)"
  by (induction k v m rule: smap_put.induct) (simp_all add: insert_commute)

lemma map_of_smap_put [simp]: "map_of (smap_put k v m) = (map_of m)(k \<mapsto> v)"
  by (induction m) auto

lemma smap_ok_put [simp, intro]: "smap_ok m \<Longrightarrow> smap_ok (smap_put k v m)"
proof (induction m)
  case (Cons e m)
  obtain k' v' where e: "e = (k', v')" by (cases e)
  have "smap_ok m" using Cons.prems by (simp add: smap_ok_def)
  then have IH: "sorted_wrt (<) (map fst (smap_put k v m))" using Cons.IH by (simp add: smap_ok_def)
  have "k' < x" if "\<not> k < k'" "k \<noteq> k'" "x \<in> fst ` set (smap_put k v m)" for x
    using that Cons.prems by (auto simp: set_smap_put smap_ok_def e)
  with IH Cons.prems show ?case by (force simp: smap_ok_def e)
qed (simp add: smap_ok_def)

lemma set_smap_erase: "set (smap_erase k m) \<subseteq> set m"
  by (induction m) (auto split: if_splits)

lemma smap_ok_erase [simp, intro]: "smap_ok m \<Longrightarrow> smap_ok (smap_erase k m)"
proof (induction m)
  case (Cons e m)
  then show ?case using set_smap_erase [of k m] by (cases e) (fastforce simp: smap_ok_def)
qed simp

lemma map_of_smap_erase [simp]: "smap_ok m \<Longrightarrow> map_of (smap_erase k m) = (map_of m)(k := None)"
proof (induction m)
  case (Cons e m)
  obtain k' v' where e: "e = (k', v')" by (cases e)
  have "k' \<notin> dom (map_of m)" using Cons.prems by (auto simp: smap_ok_def e dom_map_of_conv_image_fst)
  then have "map_of m k' = None" by (simp add: domIff)
  moreover have "map_of (smap_erase k m) = (map_of m)(k := None)"
    using Cons.IH Cons.prems by (auto simp: smap_ok_def)
  ultimately show ?case by (auto simp: e)
qed simp

section \<open>Prefix scans\<close>

lemma prefix_imp_le: "prefix p k \<Longrightarrow> (p :: 'a :: linorder list) \<le> k"
  by (induction p arbitrary: k) (auto simp: prefix_def)

lemma prefix_between: "\<lbrakk>p \<le> k; k \<le> k'; prefix p k'\<rbrakk> \<Longrightarrow> prefix (p :: 'a :: linorder list) k"
proof (induction p arbitrary: k k')
  case (Cons a p)
  then show ?case by (cases k; cases k') auto
qed simp

text \<open>Seeking to the first key not below the prefix and scanning while it matches finds every match.\<close>

lemma seek_scan_eq_filter:
  "sorted (ks :: 'a :: linorder list list) \<Longrightarrow>
   takeWhile (prefix p) (dropWhile (\<lambda>k. k < p) ks) = filter (prefix p) ks"
proof (induction ks)
  case (Cons k ks)
  show ?case
  proof (cases "k < p")
    case True
    then have "\<not> prefix p k" using prefix_imp_le by force
    then show ?thesis using True Cons by simp
  next
    case False
    have above: "dropWhile (\<lambda>k. k < p) ks = ks"
      using False Cons.prems by (cases ks) auto
    show ?thesis
    proof (cases "prefix p k")
      case True
      then show ?thesis using False Cons above by simp
    next
      case npre: False
      have "\<not> prefix p k'" if "k' \<in> set ks" for k'
        using that npre False Cons.prems prefix_between [of p k k'] by (auto simp: not_less)
      then show ?thesis using False npre by simp
    qed
  qed
qed simp

end
