(* ===== verification/WorldStore.thy ===== *)
theory WorldStore
  imports PostExec StdMap
begin

text \<open>
  The storage of a node (\<^verbatim>\<open>include/storageManager.hpp\<close>): a chain database and a state database.
  \<open>WorldStorage\<close> keeps them in two RocksDB databases, which are the parameter \<open>rocksdb\<close>;
  \<open>InRamWorldStorage\<close> simulates them by two \<open>std::map\<close>s. The abstract classes of
  \<^verbatim>\<open>include/core.hpp\<close> through which the other components use a storage are the record \<open>world_ops\<close>,
  their contract is the locale \<open>world_storage\<close>, and both storages satisfy it.
\<close>

section \<open>The interface\<close>

text \<open>
  \<open>IWorldChainStateSettable\<close>, \<open>IAcnGettable\<close>, \<open>IChainDBPrefixKeyGettable\<close>. A write returns the
  \<open>bool\<close> of the source and the new storage; \<open>applyJournalStateDB\<close> may throw.
\<close>

record 'w world_ops =
  setInChainDB :: "'w \<Rightarrow> string \<Rightarrow> string \<Rightarrow> bool \<times> 'w"
  getFromChainDB :: "'w \<Rightarrow> string \<Rightarrow> string option"
  applyJournalStateDB :: "'w \<Rightarrow> StateChange list \<Rightarrow> (bool \<times> 'w) result"
  getAcn :: "'w \<Rightarrow> address \<Rightarrow> Acn option"
  getKeysStartWith :: "'w \<Rightarrow> string \<Rightarrow> string list"

text \<open>The effect of a journal on a key-value map.\<close>

definition change_map :: "StateChange \<Rightarrow> (string \<rightharpoonup> string) \<Rightarrow> (string \<rightharpoonup> string)" where
  "change_map c m = (if del c then m(sc_k c := None) else m(sc_k c \<mapsto> sc_v c))"

definition journal_map :: "StateChange list \<Rightarrow> (string \<rightharpoonup> string) \<Rightarrow> (string \<rightharpoonup> string)" where
  "journal_map j m = fold change_map j m"

section \<open>InRamWorldStorage\<close>

record InRamWorldStorage =
  stateDB :: "(string \<times> string) list"
  chainDB :: "(string \<times> string) list"

definition InRam_getAcn :: "PbAcn pb_codec \<Rightarrow> InRamWorldStorage \<Rightarrow> address \<Rightarrow> Acn option" where
  "InRam_getAcn c w addr =
     (let k = addressToString addr in
      case map_of (stateDB w) k of
        None \<Rightarrow> None
      | Some v \<Rightarrow> fromPbString c (Acn_fromPb Acn_default) v)"

definition InRam_setInChainDB :: "InRamWorldStorage \<Rightarrow> string \<Rightarrow> string \<Rightarrow> bool \<times> InRamWorldStorage" where
  "InRam_setInChainDB w k v = (True, w\<lparr>chainDB := smap_put k v (chainDB w)\<rparr>)"

definition InRam_getFromChainDB :: "InRamWorldStorage \<Rightarrow> string \<Rightarrow> string option" where
  "InRam_getFromChainDB w k = map_of (chainDB w) k"

definition apply_change :: "StateChange \<Rightarrow> (string \<times> string) list \<Rightarrow> (string \<times> string) list" where
  "apply_change c m = (if del c then smap_erase (sc_k c) m else smap_put (sc_k c) (sc_v c) m)"

definition InRam_applyJournalStateDB :: "InRamWorldStorage \<Rightarrow> StateChange list \<Rightarrow> (bool \<times> InRamWorldStorage) result" where
  "InRam_applyJournalStateDB w j = Inr (True, w\<lparr>stateDB := fold apply_change j (stateDB w)\<rparr>)"

definition InRam_getKeysStartWith :: "InRamWorldStorage \<Rightarrow> string \<Rightarrow> string list" where
  "InRam_getKeysStartWith w p = filter (prefix p) (map fst (chainDB w))"

definition InRam_ops :: "PbAcn pb_codec \<Rightarrow> InRamWorldStorage world_ops" where
  "InRam_ops c =
     \<lparr>setInChainDB = InRam_setInChainDB, getFromChainDB = InRam_getFromChainDB,
      applyJournalStateDB = InRam_applyJournalStateDB, getAcn = InRam_getAcn c,
      getKeysStartWith = InRam_getKeysStartWith\<rparr>"

definition InRam_empty :: InRamWorldStorage where
  "InRam_empty = \<lparr>stateDB = [], chainDB = []\<rparr>"

section \<open>WorldStorage\<close>

text \<open>What the code calls of RocksDB: \<open>Put\<close>, \<open>Get\<close>, \<open>Write\<close> of a batch, and an iterator's keys.\<close>

datatype db_status = Db_ok | Db_not_found | Db_error

datatype batch_op = BatchPut string string | BatchDelete string

record 'db rocksdb =
  db_Put :: "'db \<Rightarrow> string \<Rightarrow> string \<Rightarrow> db_status \<times> 'db"
  db_Get :: "'db \<Rightarrow> string \<Rightarrow> db_status \<times> string"
  db_Write :: "'db \<Rightarrow> batch_op list \<Rightarrow> db_status \<times> 'db"
  db_keys :: "'db \<Rightarrow> string list"

record 'db WorldStorage =
  ws_chainDB :: 'db
  ws_stateDB :: 'db

definition checkStatus :: "db_status \<Rightarrow> bool \<Rightarrow> bool result" where
  "checkStatus s required = (if s \<noteq> Db_ok \<and> required then Inl Runtime_error else Inr (s = Db_ok))"

definition tryGetKvString :: "'db rocksdb \<Rightarrow> 'db \<Rightarrow> string \<Rightarrow> string option" where
  "tryGetKvString r db k =
     (let (s, v) = db_Get r db k in
      if s = Db_not_found then None
      else if checkStatus s False = Inr True then Some v
      else None)"

text \<open>\<open>Seek(prefix)\<close> moves to the first key that is not below the prefix.\<close>

definition find_keys_with_prefix :: "'db rocksdb \<Rightarrow> 'db \<Rightarrow> string \<Rightarrow> string list" where
  "find_keys_with_prefix r db p = takeWhile (prefix p) (dropWhile (\<lambda>k. k < p) (db_keys r db))"

definition WS_getKeysStartWith :: "'db rocksdb \<Rightarrow> 'db WorldStorage \<Rightarrow> string \<Rightarrow> string list" where
  "WS_getKeysStartWith r w p = find_keys_with_prefix r (ws_chainDB w) p"

definition WS_setInChainDB :: "'db rocksdb \<Rightarrow> 'db WorldStorage \<Rightarrow> string \<Rightarrow> string \<Rightarrow> bool \<times> 'db WorldStorage" where
  "WS_setInChainDB r w k v =
     (let (s, db) = db_Put r (ws_chainDB w) k v in
      (checkStatus s False = Inr True, w\<lparr>ws_chainDB := db\<rparr>))"

definition WS_getFromChainDB :: "'db rocksdb \<Rightarrow> 'db WorldStorage \<Rightarrow> string \<Rightarrow> string option" where
  "WS_getFromChainDB r w k = tryGetKvString r (ws_chainDB w) k"

definition to_batch :: "StateChange \<Rightarrow> batch_op" where
  "to_batch c = (if del c then BatchDelete (sc_k c) else BatchPut (sc_k c) (sc_v c))"

definition WS_applyJournalStateDB ::
  "'db rocksdb \<Rightarrow> 'db WorldStorage \<Rightarrow> StateChange list \<Rightarrow> (bool \<times> 'db WorldStorage) result" where
  "WS_applyJournalStateDB r w j =
     (let (s, db) = db_Write r (ws_stateDB w) (map to_batch j) in
      bind_result (checkStatus s True) (\<lambda>ok. Inr (ok, w\<lparr>ws_stateDB := db\<rparr>)))"

definition WS_getAcn :: "PbAcn pb_codec \<Rightarrow> 'db rocksdb \<Rightarrow> 'db WorldStorage \<Rightarrow> address \<Rightarrow> Acn option" where
  "WS_getAcn c r w addr =
     (let k = addressToString addr in
      case tryGetKvString r (ws_stateDB w) k of
        None \<Rightarrow> None
      | Some v \<Rightarrow> fromPbString c (Acn_fromPb Acn_default) v)"

definition WS_ops :: "PbAcn pb_codec \<Rightarrow> 'db rocksdb \<Rightarrow> 'db WorldStorage world_ops" where
  "WS_ops c r =
     \<lparr>setInChainDB = WS_setInChainDB r, getFromChainDB = WS_getFromChainDB r,
      applyJournalStateDB = WS_applyJournalStateDB r, getAcn = WS_getAcn c r,
      getKeysStartWith = WS_getKeysStartWith r\<rparr>"

section \<open>The contract of a storage\<close>

text \<open>
  \<open>chain\<close> and \<open>state\<close> are the contents of the two databases. A write that reports success has
  the effect of the corresponding map update and leaves the other database alone.
\<close>

locale world_storage =
  fixes ops :: "'w world_ops"
    and invar :: "'w \<Rightarrow> bool"
    and chain :: "'w \<Rightarrow> string \<rightharpoonup> string"
    and state :: "'w \<Rightarrow> string \<rightharpoonup> string"
    and codec :: "PbAcn pb_codec"
  assumes set_ok: "invar w \<Longrightarrow> setInChainDB ops w k v = (True, w') \<Longrightarrow>
      invar w' \<and> chain w' = (chain w)(k \<mapsto> v) \<and> state w' = state w"
    and get_eq: "invar w \<Longrightarrow> getFromChainDB ops w k = chain w k"
    and apply_ok: "invar w \<Longrightarrow> applyJournalStateDB ops w j = Inr (True, w') \<Longrightarrow>
      invar w' \<and> state w' = journal_map j (state w) \<and> chain w' = chain w"
    and acn_eq: "invar w \<Longrightarrow> getAcn ops w a =
      Option.bind (state w (addressToString a)) (fromPbString codec (Acn_fromPb Acn_default))"
    and keys_eq: "invar w \<Longrightarrow> set (getKeysStartWith ops w p) = {k \<in> dom (chain w). prefix p k}"
begin

lemma get_after_set:
  "invar w \<Longrightarrow> setInChainDB ops w k v = (True, w') \<Longrightarrow>
   getFromChainDB ops w' k' = (if k' = k then Some v else getFromChainDB ops w k')"
  using set_ok [of w k v w'] by (auto simp: get_eq)

lemma keys_after_set:
  "invar w \<Longrightarrow> setInChainDB ops w k v = (True, w') \<Longrightarrow> prefix p k \<Longrightarrow>
   set (getKeysStartWith ops w' p) = insert k (set (getKeysStartWith ops w p))"
  using set_ok [of w k v w'] by (auto simp: keys_eq)

text \<open>An account put into the state by a journal is the account read afterwards.\<close>

lemma acn_after_put:
  assumes "invar w" "applyJournalStateDB ops w [\<lparr>del = False, sc_k = addressToString a, sc_v = v\<rparr>] = Inr (True, w')"
  shows "getAcn ops w' a = fromPbString codec (Acn_fromPb Acn_default) v"
    and "b \<noteq> a \<Longrightarrow> getAcn ops w' b = getAcn ops w b"
  using apply_ok [OF assms] assms(1)
  by (simp_all add: acn_eq journal_map_def change_map_def addressToString_def hex_inject)

end

section \<open>The in-memory storage meets the contract\<close>

definition InRam_ok :: "InRamWorldStorage \<Rightarrow> bool" where
  "InRam_ok w \<longleftrightarrow> smap_ok (stateDB w) \<and> smap_ok (chainDB w)"

lemma apply_change_ok: "smap_ok m \<Longrightarrow> smap_ok (apply_change c m) \<and> map_of (apply_change c m) = change_map c (map_of m)"
  by (simp add: apply_change_def change_map_def)

lemma fold_apply_change:
  "smap_ok m \<Longrightarrow> smap_ok (fold apply_change j m) \<and> map_of (fold apply_change j m) = journal_map j (map_of m)"
  by (induction j arbitrary: m) (simp_all add: journal_map_def apply_change_ok)

lemmas InRam_defs = InRam_ops_def InRam_ok_def InRam_setInChainDB_def InRam_getFromChainDB_def
  InRam_applyJournalStateDB_def InRam_getAcn_def InRam_getKeysStartWith_def

interpretation inram: world_storage "InRam_ops c" InRam_ok "\<lambda>w. map_of (chainDB w)" "\<lambda>w. map_of (stateDB w)" c for c
  by unfold_locales
    (auto simp: InRam_defs fold_apply_change dom_map_of_conv_image_fst Let_def split: option.splits)

section \<open>WorldStorage over a RocksDB without errors\<close>

text \<open>
  \<open>view\<close> is the content of a database in key order. Only what is documented of RocksDB with its
  bytewise comparator: a successful \<open>Put\<close> or \<open>Write\<close> applies its updates, \<open>Get\<close> that succeeds
  returns the value, \<open>NotFound\<close> means no value, an iterator visits the keys in order.
\<close>

fun batch_view :: "batch_op \<Rightarrow> (string \<times> string) list \<Rightarrow> (string \<times> string) list" where
  "batch_view (BatchPut k v) m = smap_put k v m"
| "batch_view (BatchDelete k) m = smap_erase k m"

definition WS_view :: "('db \<Rightarrow> (string \<times> string) list) \<Rightarrow> 'db WorldStorage \<Rightarrow> InRamWorldStorage" where
  "WS_view view w = \<lparr>stateDB = view (ws_stateDB w), chainDB = view (ws_chainDB w)\<rparr>"

locale rocksdb_laws =
  fixes db :: "'db rocksdb"
    and db_wf :: "'db \<Rightarrow> bool"
    and view :: "'db \<Rightarrow> (string \<times> string) list"
  assumes view_ok: "db_wf d \<Longrightarrow> smap_ok (view d)"
    and put_ok: "db_wf d \<Longrightarrow> db_Put db d k v = (Db_ok, d') \<Longrightarrow> db_wf d' \<and> view d' = smap_put k v (view d)"
    and get_ok: "db_wf d \<Longrightarrow> db_Get db d k = (Db_ok, v) \<Longrightarrow> map_of (view d) k = Some v"
    and get_not_found: "db_wf d \<Longrightarrow> db_Get db d k = (Db_not_found, v) \<Longrightarrow> map_of (view d) k = None"
    and write_ok: "db_wf d \<Longrightarrow> db_Write db d ops = (Db_ok, d') \<Longrightarrow> db_wf d' \<and> view d' = fold batch_view ops (view d)"
    and keys_ok: "db_wf d \<Longrightarrow> db_keys db d = map fst (view d)"
begin

definition ws_wf :: "'db WorldStorage \<Rightarrow> bool" where
  "ws_wf w \<longleftrightarrow> db_wf (ws_chainDB w) \<and> db_wf (ws_stateDB w)"

abbreviation ws_abs :: "'db WorldStorage \<Rightarrow> InRamWorldStorage" where
  "ws_abs \<equiv> WS_view view"

lemma try_get: "db_wf d \<Longrightarrow> fst (db_Get db d k) \<noteq> Db_error \<Longrightarrow> tryGetKvString db d k = map_of (view d) k"
  using get_ok [of d k] get_not_found [of d k]
  by (cases "db_Get db d k"; cases "fst (db_Get db d k)") (auto simp: tryGetKvString_def checkStatus_def)

lemma find_keys: "db_wf d \<Longrightarrow> find_keys_with_prefix db d p = filter (prefix p) (map fst (view d))"
  using view_ok [of d] unfolding find_keys_with_prefix_def
  by (simp add: keys_ok smap_ok_def seek_scan_eq_filter strict_sorted_imp_sorted)

lemma fold_to_batch: "fold batch_view (map to_batch j) m = fold apply_change j m"
  by (induction j arbitrary: m) (simp_all add: to_batch_def apply_change_def)

lemma set_refines:
  "ws_wf w \<Longrightarrow> WS_setInChainDB db w k v = (True, w') \<Longrightarrow>
   ws_wf w' \<and> InRam_setInChainDB (ws_abs w) k v = (True, ws_abs w')"
  using put_ok [of "ws_chainDB w" k v]
  by (auto simp: WS_setInChainDB_def InRam_setInChainDB_def WS_view_def ws_wf_def checkStatus_def split: prod.splits)

lemma apply_refines:
  "ws_wf w \<Longrightarrow> WS_applyJournalStateDB db w j = Inr (ok, w') \<Longrightarrow>
   ws_wf w' \<and> InRam_applyJournalStateDB (ws_abs w) j = Inr (ok, ws_abs w')"
  using write_ok [of "ws_stateDB w" "map to_batch j"]
  by (auto simp: WS_applyJournalStateDB_def InRam_applyJournalStateDB_def WS_view_def ws_wf_def checkStatus_def
      bind_result_Inr_iff fold_to_batch split: prod.splits if_splits)

lemma keys_refines: "ws_wf w \<Longrightarrow> WS_getKeysStartWith db w p = InRam_getKeysStartWith (ws_abs w) p"
  by (simp add: WS_getKeysStartWith_def find_keys InRam_getKeysStartWith_def WS_view_def ws_wf_def)

lemma get_refines:
  "ws_wf w \<Longrightarrow> fst (db_Get db (ws_chainDB w) k) \<noteq> Db_error \<Longrightarrow>
   WS_getFromChainDB db w k = InRam_getFromChainDB (ws_abs w) k"
  by (simp add: WS_getFromChainDB_def InRam_getFromChainDB_def try_get WS_view_def ws_wf_def)

lemma acn_refines:
  "ws_wf w \<Longrightarrow> fst (db_Get db (ws_stateDB w) (addressToString a)) \<noteq> Db_error \<Longrightarrow>
   WS_getAcn c db w a = InRam_getAcn c (ws_abs w) a"
  by (simp add: WS_getAcn_def InRam_getAcn_def try_get WS_view_def ws_wf_def Let_def)

lemma abs_ok: "ws_wf w \<Longrightarrow> InRam_ok (ws_abs w)"
  by (simp add: ws_wf_def WS_view_def InRam_ok_def view_ok)

end

locale rocksdb_reliable = rocksdb_laws +
  assumes no_error: "fst (db_Get db d k) \<noteq> Db_error"

text \<open>The contract follows from the one of the in-memory storage through the abstraction.\<close>

sublocale rocksdb_reliable \<subseteq> ws: world_storage "WS_ops c db" ws_wf "\<lambda>w. map_of (chainDB (ws_abs w))"
  "\<lambda>w. map_of (stateDB (ws_abs w))" c for c
proof unfold_locales
  fix w k v w' j a p
  assume w: "ws_wf w"
  show "ws_wf w' \<and> map_of (chainDB (ws_abs w')) = (map_of (chainDB (ws_abs w)))(k \<mapsto> v) \<and>
      map_of (stateDB (ws_abs w')) = map_of (stateDB (ws_abs w))"
    if "setInChainDB (WS_ops c db) w k v = (True, w')"
    using set_refines [OF w, of k v w'] that inram.set_ok [OF abs_ok [OF w], of c k v "ws_abs w'"]
    by (simp add: WS_ops_def InRam_ops_def)
  show "ws_wf w' \<and> map_of (stateDB (ws_abs w')) = journal_map j (map_of (stateDB (ws_abs w))) \<and>
      map_of (chainDB (ws_abs w')) = map_of (chainDB (ws_abs w))"
    if "applyJournalStateDB (WS_ops c db) w j = Inr (True, w')"
    using apply_refines [OF w, of j True w'] that inram.apply_ok [OF abs_ok [OF w], of c j "ws_abs w'"]
    by (simp add: WS_ops_def InRam_ops_def)
  show "getFromChainDB (WS_ops c db) w k = map_of (chainDB (ws_abs w)) k"
    by (simp add: WS_ops_def get_refines [OF w] no_error InRam_getFromChainDB_def)
  show "getAcn (WS_ops c db) w a = Option.bind (map_of (stateDB (ws_abs w)) (addressToString a))
      (fromPbString c (Acn_fromPb Acn_default))"
    using inram.acn_eq [OF abs_ok [OF w], of c a] by (simp add: WS_ops_def InRam_ops_def acn_refines [OF w] no_error)
  show "set (getKeysStartWith (WS_ops c db) w p) = {k \<in> dom (map_of (chainDB (ws_abs w))). prefix p k}"
    using inram.keys_eq [OF abs_ok [OF w], of c p] by (simp add: WS_ops_def InRam_ops_def keys_refines [OF w])
qed

text \<open>
  RocksDB simulated by a sorted map, as \<open>InRamWorldStorage\<close> does it.
\<close>

definition map_rocksdb :: "(string \<times> string) list rocksdb" where
  "map_rocksdb =
     \<lparr>db_Put = (\<lambda>d k v. (Db_ok, smap_put k v d)),
      db_Get = (\<lambda>d k. case map_of d k of None \<Rightarrow> (Db_not_found, []) | Some v \<Rightarrow> (Db_ok, v)),
      db_Write = (\<lambda>d ops. (Db_ok, fold batch_view ops d)),
      db_keys = map fst\<rparr>"

lemma batch_view_ok: "smap_ok m \<Longrightarrow> smap_ok (fold batch_view ops m)"
proof (induction ops arbitrary: m)
  case (Cons x ops)
  then show ?case by (cases x) simp_all
qed simp

interpretation map_db: rocksdb_reliable map_rocksdb smap_ok id
  by unfold_locales (auto simp: map_rocksdb_def batch_view_ok split: option.splits)

section \<open>Properties\<close>



end
