(* ===== verification/SignedMsg.thy ===== *)
theory SignedMsg
  imports HexBytes
begin

text \<open>
  The message managers of \<^verbatim>\<open>include/net/pure-netAsstn.hpp\<close>: the three-string wire format of
  \<open>SignedData\<close>, the unsigned \<open>NaiveMsgMgr\<close>, the OpenSSL-based \<open>SslMsgMgr\<close> and the address part of
  \<open>NetAsstn\<close>. The interface \<open>IMsgManageable\<close> the consensus relies on is the locale
  \<open>msg_manager\<close>, interpreted on \<open>NaiveMsgMgr\<close>. OpenSSL is a parameter: a record of the
  library functions the source calls.

  A read past the end of a \<open>string_view\<close> is undefined behaviour in C++; the model returns
  \<open>UB\<close> there.
\<close>

datatype 'a access = UB | Val 'a

section \<open>SignedData\<close>

record SignedData =
  sd_from :: string
  sd_sig :: string
  sd_data :: string

text \<open>The constructor throws on an empty sender.\<close>

definition SignedData_ctor :: "string \<Rightarrow> string \<Rightarrow> string \<Rightarrow> SignedData result" where
  "SignedData_ctor f s d =
     (if f = [] then Inl Runtime_error else Inr \<lparr>sd_from = f, sd_sig = s, sd_data = d\<rparr>)"

definition byte_char :: "byte \<Rightarrow> char" where
  "byte_char b = char_of (unat b)"

definition char_byte :: "char \<Rightarrow> byte" where
  "char_byte c = of_nat (of_char c)"

text \<open>\<open>for (int i = 0; i < l; i++) s1 += *(it++)\<close>: the characters read and the iterator after it.\<close>

fun read_n :: "nat \<Rightarrow> string \<Rightarrow> (string \<times> string) access" where
  "read_n 0 it = Val ([], it)"
| "read_n (Suc n) [] = UB"
| "read_n (Suc n) (c # it) =
     (case read_n n it of UB \<Rightarrow> UB | Val (s, it') \<Rightarrow> Val (c # s, it'))"

definition parse_3_strs :: "string \<Rightarrow> (string \<times> string \<times> string) option access" where
  "parse_3_strs s =
     (if length s < 2 then Val None
      else let l1 = char_byte (hd s) + 1 in
        case read_n (unat l1) (tl s) of
          UB \<Rightarrow> UB
        | Val (s1, it) \<Rightarrow>
            (case it of
               [] \<Rightarrow> Val (Some (s1, [], []))
             | c # it1 \<Rightarrow>
                 (let l2 = char_byte c in
                  case read_n (unat l2) it1 of
                    UB \<Rightarrow> UB
                  | Val (s2, it2) \<Rightarrow>
                      (if it2 = [] then Val (Some (s1, s2, []))
                       else Val (Some (s1, s2, it2))))))"

definition serialize_3_strs :: "string \<Rightarrow> string \<Rightarrow> string \<Rightarrow> string" where
  "serialize_3_strs s1 s2 s3 =
     (let s = byte_char (of_nat (length s1) - 1) # s1 in
      if s2 = [] \<and> s3 = [] then s
      else s @ byte_char (of_nat (length s2)) # s2 @ s3)"

definition SignedData_fromString :: "string \<Rightarrow> SignedData option access" where
  "SignedData_fromString s =
     (case parse_3_strs s of
        UB \<Rightarrow> UB
      | Val None \<Rightarrow> Val None
      | Val (Some (f, g, d)) \<Rightarrow> Val (Some \<lparr>sd_from = f, sd_sig = g, sd_data = d\<rparr>))"

definition SignedData_toString :: "SignedData \<Rightarrow> string" where
  "SignedData_toString d = serialize_3_strs (sd_from d) (sd_sig d) (sd_data d)"

section \<open>NaiveMsgMgr\<close>

record NaiveMsgMgr =
  ep :: string

definition naive_prepare_msg :: "NaiveMsgMgr \<Rightarrow> string \<Rightarrow> string result" where
  "naive_prepare_msg m d =
     bind_result (SignedData_ctor (ep m) [] d) (\<lambda>sd. Inr (SignedData_toString sd))"

definition naive_tear_msg_open :: "NaiveMsgMgr \<Rightarrow> string \<Rightarrow> (string \<times> string) option access" where
  "naive_tear_msg_open m msg =
     (case SignedData_fromString msg of
        UB \<Rightarrow> UB
      | Val None \<Rightarrow> Val None
      | Val (Some d) \<Rightarrow> Val (Some (sd_from d, sd_data d)))"

definition naive_my_endpoint :: "NaiveMsgMgr \<Rightarrow> string" where
  "naive_my_endpoint m = ep m"

section \<open>SslMsgMgr\<close>

text \<open>
  The OpenSSL functions the class calls: reading a public or private key from PEM text, dumping
  the public half of a key as PEM, and the EVP digest sign and verify pair.
\<close>

record ('sk, 'pk) openssl =
  PEM_read_PUBKEY :: "string \<Rightarrow> 'pk option"
  PEM_read_PrivateKey :: "string \<Rightarrow> 'sk option"
  PEM_write_PUBKEY :: "'sk \<Rightarrow> string"
  EVP_DigestSign :: "'sk \<Rightarrow> string \<Rightarrow> string"
  EVP_DigestVerify :: "'pk \<Rightarrow> string \<Rightarrow> string \<Rightarrow> bool"

record ('sk, 'pk) SslMsgMgr =
  ca_public_key :: "'pk option"
  my_secret_key :: 'sk
  my_addr_port :: string
  my_cert :: string

definition we_check_cert :: "('sk, 'pk) SslMsgMgr \<Rightarrow> bool" where
  "we_check_cert m \<longleftrightarrow> ca_public_key m \<noteq> None"

text \<open>\<open>do_verify\<close> on a key in PEM form: a key that does not load verifies nothing.\<close>

definition do_verify_pem :: "('sk, 'pk) openssl \<Rightarrow> string \<Rightarrow> string \<Rightarrow> string \<Rightarrow> bool" where
  "do_verify_pem ssl ed_key_pem msg sig =
     (case PEM_read_PUBKEY ssl ed_key_pem of
        None \<Rightarrow> False
      | Some key \<Rightarrow> EVP_DigestVerify ssl key msg sig)"

definition SslMsgMgr_ctor ::
  "('sk, 'pk) openssl \<Rightarrow> string \<Rightarrow> string \<Rightarrow> string \<Rightarrow> string \<Rightarrow> ('sk, 'pk) SslMsgMgr result" where
  "SslMsgMgr_ctor ssl my_sk_pem addr_port cert ca_pk_pem =
     bind_result
       (if ca_pk_pem \<noteq> [] then
          (case PEM_read_PUBKEY ssl ca_pk_pem of None \<Rightarrow> Inl Runtime_error | Some k \<Rightarrow> Inr (Some k))
        else Inr None)
       (\<lambda>ca. case PEM_read_PrivateKey ssl my_sk_pem of
          None \<Rightarrow> Inl Runtime_error
        | Some sk \<Rightarrow>
            (let m = \<lparr>ca_public_key = ca, my_secret_key = sk,
                      my_addr_port = addr_port, my_cert = cert\<rparr> in
             case ca of
               None \<Rightarrow> Inr m
             | Some k \<Rightarrow>
                 (if EVP_DigestVerify ssl k (PEM_write_PUBKEY ssl sk) cert then Inr m
                  else Inl Runtime_error)))"

definition test_trusted_peer ::
  "('sk, 'pk) openssl \<Rightarrow> ('sk, 'pk) SslMsgMgr \<Rightarrow> string \<Rightarrow> string \<Rightarrow> bool" where
  "test_trusted_peer ssl m pk_pem cert =
     (case ca_public_key m of
        None \<Rightarrow> True
      | Some ca \<Rightarrow> EVP_DigestVerify ssl ca pk_pem cert)"

definition ssl_my_endpoint :: "('sk, 'pk) openssl \<Rightarrow> ('sk, 'pk) SslMsgMgr \<Rightarrow> string" where
  "ssl_my_endpoint ssl m =
     serialize_3_strs (PEM_write_PUBKEY ssl (my_secret_key m)) (my_addr_port m) (my_cert m)"

definition ssl_prepare_msg ::
  "('sk, 'pk) openssl \<Rightarrow> ('sk, 'pk) SslMsgMgr \<Rightarrow> string \<Rightarrow> string result" where
  "ssl_prepare_msg ssl m d =
     (let sig = EVP_DigestSign ssl (my_secret_key m) d in
      bind_result (SignedData_ctor (ssl_my_endpoint ssl m) sig d)
        (\<lambda>sd. Inr (SignedData_toString sd)))"

definition ssl_tear_msg_open ::
  "('sk, 'pk) openssl \<Rightarrow> ('sk, 'pk) SslMsgMgr \<Rightarrow> string \<Rightarrow> (string \<times> string) option access" where
  "ssl_tear_msg_open ssl m msg =
     (case SignedData_fromString msg of
        UB \<Rightarrow> UB
      | Val None \<Rightarrow> Val None
      | Val (Some d) \<Rightarrow>
          (case parse_3_strs (sd_from d) of
             UB \<Rightarrow> UB
           | Val None \<Rightarrow> Val None
           | Val (Some (from_pk_pem, from_addr_port, from_cert)) \<Rightarrow>
               (if \<not> test_trusted_peer ssl m from_pk_pem from_cert then Val None
                else if \<not> do_verify_pem ssl from_pk_pem (sd_data d) (sd_sig d) then Val None
                else Val (Some (sd_from d, sd_data d)))))"

section \<open>NetAsstn\<close>

definition extract_addr_and_port_from_endpoint :: "string \<Rightarrow> string option access" where
  "extract_addr_and_port_from_endpoint endpoint =
     (case parse_3_strs endpoint of
        UB \<Rightarrow> UB
      | Val None \<Rightarrow> Val None
      | Val (Some (pk, addr_and_port, crt)) \<Rightarrow> Val (Some addr_and_port))"

section \<open>The wire format\<close>

text \<open>The sizes for which the one-byte length fields do not wrap around.\<close>

definition fits :: "string \<Rightarrow> string \<Rightarrow> bool" where
  "fits s1 s2 \<longleftrightarrow> s1 \<noteq> [] \<and> length s1 \<le> 255 \<and> length s2 \<le> 255"

lemma char_byte_char [simp]: "char_byte (byte_char b) = b"
  by (simp add: char_byte_def byte_char_def unat_byte_less)

lemma read_n_append: "length s = n \<Longrightarrow> read_n n (s @ it) = Val (s, it)"
  by (induction n arbitrary: s) (auto simp: length_Suc_conv)

lemma read_n_exact: "read_n (length s) s = Val (s, [])"
  using read_n_append [of s "length s" "[]"] by simp

lemma read_n_Val: "read_n n it = Val (s, it') \<Longrightarrow> it = s @ it' \<and> length s = n"
  by (induction n it arbitrary: s rule: read_n.induct) (auto split: access.splits)

lemma unat_length_pred: "s \<noteq> [] \<Longrightarrow> length s \<le> 255 \<Longrightarrow>
  unat ((of_nat (length s) - 1 :: byte) + 1) = length s"
  by (simp add: unat_of_nat)

lemma unat_length_byte: "length s \<le> 255 \<Longrightarrow> unat (of_nat (length s) :: byte) = length s"
  by (simp add: unat_of_nat)

lemma parse_serialize_3_strs:
  assumes "fits s1 s2"
  shows "parse_3_strs (serialize_3_strs s1 s2 s3) = Val (Some (s1, s2, s3))"
proof -
  have l1: "unat ((of_nat (length s1) - 1 :: byte) + 1) = length s1"
    and l2: "unat (of_nat (length s2) :: byte) = length s2" and ne: "s1 \<noteq> []"
    using assms by (auto simp: fits_def unat_length_pred unat_length_byte)
  show ?thesis
  proof (cases "s2 = [] \<and> s3 = []")
    case True
    then show ?thesis
      using ne l1 read_n_exact [of s1] by (auto simp: parse_3_strs_def serialize_3_strs_def Suc_le_eq)
  next
    case False
    then show ?thesis
      using ne l1 l2 read_n_append [of s1 "length s1"] read_n_append [of s2 "length s2" s3]
      by (auto simp: parse_3_strs_def serialize_3_strs_def Let_def)
  qed
qed

lemma SignedData_roundtrip:
  "fits (sd_from d) (sd_sig d) \<Longrightarrow> SignedData_fromString (SignedData_toString d) = Val (Some d)"
  by (simp add: SignedData_fromString_def SignedData_toString_def parse_serialize_3_strs)

section \<open>The interface of a message manager\<close>

text \<open>
  \<open>IMsgManageable\<close>: what one manager prepares, another tears open into the sender's endpoint and
  the payload. A consensus node uses nothing else of it.
\<close>

locale msg_manager =
  fixes prepare :: "'m \<Rightarrow> string \<Rightarrow> string result"
    and tear :: "'m \<Rightarrow> string \<Rightarrow> (string \<times> string) option access"
    and endpoint :: "'m \<Rightarrow> string"
    and valid :: "'m \<Rightarrow> bool"
  assumes prepare_total: "valid m \<Longrightarrow> \<exists>w. prepare m d = Inr w"
    and tear_prepared: "valid m \<Longrightarrow> prepare m d = Inr w \<Longrightarrow> tear m' w = Val (Some (endpoint m, d))"
begin

lemma prepared_identifies_sender:
  assumes "valid m" "valid m'" "prepare m d = prepare m' d'"
  shows "endpoint m = endpoint m' \<and> d = d'"
proof -
  obtain w where w: "prepare m d = Inr w" using prepare_total [OF assms(1)] by blast
  have "tear m w = Val (Some (endpoint m, d))" by (rule tear_prepared [OF assms(1) w])
  moreover have "tear m w = Val (Some (endpoint m', d'))"
    by (rule tear_prepared [OF assms(2)]) (use w assms(3) in simp)
  ultimately show ?thesis by simp
qed

lemma open_prepared:
  "valid m \<Longrightarrow> \<exists>w. prepare m d = Inr w \<and> (\<forall>m'. tear m' w = Val (Some (endpoint m, d)))"
  using prepare_total tear_prepared by blast

end

definition naive_valid :: "NaiveMsgMgr \<Rightarrow> bool" where
  "naive_valid m \<longleftrightarrow> fits (ep m) []"

interpretation naive: msg_manager naive_prepare_msg naive_tear_msg_open naive_my_endpoint naive_valid
proof unfold_locales
  fix m d
  assume v: "naive_valid m"
  then have ne: "ep m \<noteq> []" by (simp add: naive_valid_def fits_def)
  then show "\<exists>w. naive_prepare_msg m d = Inr w"
    by (simp add: naive_prepare_msg_def SignedData_ctor_def)
  fix m' w
  assume "naive_prepare_msg m d = Inr w"
  then have "w = SignedData_toString \<lparr>sd_from = ep m, sd_sig = [], sd_data = d\<rparr>"
    using ne by (simp add: naive_prepare_msg_def SignedData_ctor_def)
  then show "naive_tear_msg_open m' w = Val (Some (naive_my_endpoint m, d))"
    using v by (simp add: naive_tear_msg_open_def naive_my_endpoint_def naive_valid_def
        SignedData_roundtrip)
qed

section \<open>Signed messages\<close>

text \<open>
  What OpenSSL documents of a key pair: the dumped public key loads, and it verifies every
  signature its secret key makes.
\<close>

definition openssl_keypair :: "('sk, 'pk) openssl \<Rightarrow> 'sk \<Rightarrow> bool" where
  "openssl_keypair ssl sk \<longleftrightarrow>
     (\<exists>pk. PEM_read_PUBKEY ssl (PEM_write_PUBKEY ssl sk) = Some pk \<and>
           (\<forall>d. EVP_DigestVerify ssl pk d (EVP_DigestSign ssl sk d)))"

definition ssl_sizes :: "('sk, 'pk) openssl \<Rightarrow> ('sk, 'pk) SslMsgMgr \<Rightarrow> bool" where
  "ssl_sizes ssl m \<longleftrightarrow>
     fits (PEM_write_PUBKEY ssl (my_secret_key m)) (my_addr_port m) \<and>
     length (ssl_my_endpoint ssl m) \<le> 255 \<and>
     (\<forall>d. length (EVP_DigestSign ssl (my_secret_key m) d) \<le> 255)"

lemma serialize_3_strs_nonempty: "serialize_3_strs a b c \<noteq> []"
  by (simp add: serialize_3_strs_def Let_def)

lemma ssl_tear_serialized:
  assumes "fits (serialize_3_strs pk addr cert) sig" "fits pk addr"
  shows "ssl_tear_msg_open ssl m (serialize_3_strs (serialize_3_strs pk addr cert) sig d) =
    (if test_trusted_peer ssl m pk cert \<and> do_verify_pem ssl pk d sig
     then Val (Some (serialize_3_strs pk addr cert, d)) else Val None)"
  using assms by (auto simp: ssl_tear_msg_open_def SignedData_fromString_def parse_serialize_3_strs)

text \<open>
  The three-string wire format is lossless exactly as long as its one-byte length fields hold:
  with a sender of 1 to 255 bytes and a second string of at most 255 bytes parsing returns what
  was serialized, while a sender of 256 bytes (length field 255, and \<open>uint8_t l1 = 255 + 1\<close> wraps
  to 0) never comes back.
\<close>

theorem signed_data_roundtrip_and_wrap:
  "(fits s1 s2 \<longrightarrow> parse_3_strs (serialize_3_strs s1 s2 s3) = Val (Some (s1, s2, s3))) \<and>
   (length s1 = 256 \<longrightarrow> parse_3_strs (serialize_3_strs s1 s2 s3) \<noteq> Val (Some (s1, s2, s3)))"
proof -
  have "length s1 = 256 \<Longrightarrow> parse_3_strs (serialize_3_strs s1 s2 s3) \<noteq> Val (Some (s1, s2, s3))"
    by (cases s1) (auto simp: parse_3_strs_def serialize_3_strs_def Let_def split: access.splits)
  then show ?thesis by (simp add: parse_serialize_3_strs)
qed

theorem signed_data_roundtrip_and_wrap_witness:
  "parse_3_strs (serialize_3_strs ''aa'' ''b'' ''ccc'') = Val (Some (''aa'', ''b'', ''ccc'')) \<and>
   parse_3_strs (serialize_3_strs (replicate 256 CHR ''k'') [] []) \<noteq> Val (Some (replicate 256 CHR ''k'', [], []))"
  using signed_data_roundtrip_and_wrap [of "''aa''" "''b''" "''ccc''"]
    signed_data_roundtrip_and_wrap [of "replicate 256 CHR ''k''" "[]" "[]"]
  by (simp add: fits_def)

text \<open>
  A message that \<open>SslMsgMgr::prepare_msg\<close> makes is opened by every manager that trusts the
  sender's key, and yields the sender's endpoint and the payload. OpenSSL's part is the hypothesis
  that a dumped public key loads and verifies its own signatures.
\<close>

theorem ssl_open_prepared:
  assumes "openssl_keypair ssl (my_secret_key m)" and "ssl_sizes ssl m"
    and "test_trusted_peer ssl m' (PEM_write_PUBKEY ssl (my_secret_key m)) (my_cert m)"
  shows "\<exists>w. ssl_prepare_msg ssl m d = Inr w \<and>
             ssl_tear_msg_open ssl m' w = Val (Some (ssl_my_endpoint ssl m, d))"
proof -
  have "do_verify_pem ssl (PEM_write_PUBKEY ssl (my_secret_key m)) d
          (EVP_DigestSign ssl (my_secret_key m) d)"
    using assms(1) by (auto simp: openssl_keypair_def do_verify_pem_def)
  moreover have "fits (ssl_my_endpoint ssl m) (EVP_DigestSign ssl (my_secret_key m) d)"
    using assms(2) by (simp add: ssl_sizes_def fits_def ssl_my_endpoint_def serialize_3_strs_nonempty)
  ultimately show ?thesis
    using assms(2,3)
    by (auto simp: ssl_prepare_msg_def SignedData_ctor_def SignedData_toString_def ssl_my_endpoint_def
        serialize_3_strs_nonempty ssl_tear_serialized ssl_sizes_def)
qed

text \<open>A concrete library for the witnesses: one key, whose signature of every text is one letter.\<close>

definition demo_ssl :: "(unit, unit) openssl" where
  "demo_ssl = \<lparr>PEM_read_PUBKEY = (\<lambda>p. if p = ''K'' then Some () else None),
     PEM_read_PrivateKey = (\<lambda>p. Some ()), PEM_write_PUBKEY = (\<lambda>_. ''K''),
     EVP_DigestSign = (\<lambda>_ d. ''S''), EVP_DigestVerify = (\<lambda>_ d s. s = ''S'')\<rparr>"

definition demo_mgr :: "(unit, unit) SslMsgMgr" where
  "demo_mgr = \<lparr>ca_public_key = Some (), my_secret_key = (), my_addr_port = ''h:1'', my_cert = ''S''\<rparr>"

theorem ssl_open_prepared_witness:
  "\<exists>w. ssl_prepare_msg demo_ssl demo_mgr ''hi'' = Inr w \<and>
       ssl_tear_msg_open demo_ssl demo_mgr w = Val (Some (ssl_my_endpoint demo_ssl demo_mgr, ''hi''))"
  by (rule ssl_open_prepared)
    (simp_all add: openssl_keypair_def ssl_sizes_def fits_def test_trusted_peer_def demo_ssl_def
      demo_mgr_def ssl_my_endpoint_def serialize_3_strs_def)

text \<open>
  C37. A message that opens is authentic: its sender field holds a public key that verifies the
  carried signature over the payload, and when a CA key is configured the CA has signed that key.
\<close>

theorem ssl_open_authentic:
  assumes "ssl_tear_msg_open ssl m msg = Val (Some (from, d))"
  shows "\<exists>pk_pem addr cert key sig.
    parse_3_strs msg = Val (Some (from, sig, d)) \<and> parse_3_strs from = Val (Some (pk_pem, addr, cert)) \<and>
    PEM_read_PUBKEY ssl pk_pem = Some key \<and> EVP_DigestVerify ssl key d sig \<and>
    (\<forall>ca. ca_public_key m = Some ca \<longrightarrow> EVP_DigestVerify ssl ca pk_pem cert)"
  using assms
  by (auto simp: ssl_tear_msg_open_def SignedData_fromString_def test_trusted_peer_def do_verify_pem_def
      split: access.splits option.splits if_splits)

theorem ssl_open_authentic_witness:
  "\<exists>pk_pem addr cert key sig.
    parse_3_strs (serialize_3_strs (serialize_3_strs ''K'' ''h:1'' ''S'') ''S'' ''hi'') =
      Val (Some (serialize_3_strs ''K'' ''h:1'' ''S'', sig, ''hi'')) \<and>
    parse_3_strs (serialize_3_strs ''K'' ''h:1'' ''S'') = Val (Some (pk_pem, addr, cert)) \<and>
    PEM_read_PUBKEY demo_ssl pk_pem = Some key \<and> EVP_DigestVerify demo_ssl key ''hi'' sig \<and>
    (\<forall>ca. ca_public_key demo_mgr = Some ca \<longrightarrow> EVP_DigestVerify demo_ssl ca pk_pem cert)"
  by (rule ssl_open_authentic)
    (subst ssl_tear_serialized, simp_all add: fits_def serialize_3_strs_def test_trusted_peer_def
      do_verify_pem_def demo_ssl_def demo_mgr_def)

text \<open>
  The signature does not cover the address inside the endpoint: whoever holds one trusted key
  can make one signed payload open under any number of different endpoints, simply by rewriting
  the address part of the sender field.
\<close>

theorem ssl_endpoint_malleable:
  assumes "fits pk addr" "fits pk addr'" "length sig \<le> 255"
    and "length (serialize_3_strs pk addr cert) \<le> 255" "length (serialize_3_strs pk addr' cert) \<le> 255"
    and "ssl_tear_msg_open ssl m (serialize_3_strs (serialize_3_strs pk addr cert) sig d) =
         Val (Some (serialize_3_strs pk addr cert, d))"
  shows "ssl_tear_msg_open ssl m (serialize_3_strs (serialize_3_strs pk addr' cert) sig d) =
         Val (Some (serialize_3_strs pk addr' cert, d))"
proof -
  have f: "fits (serialize_3_strs pk addr cert) sig" "fits (serialize_3_strs pk addr' cert) sig"
    using assms by (simp_all add: fits_def serialize_3_strs_nonempty)
  from assms(6) have "test_trusted_peer ssl m pk cert \<and> do_verify_pem ssl pk d sig"
    by (simp add: ssl_tear_serialized f assms(1) split: if_splits)
  then show ?thesis by (simp add: ssl_tear_serialized f assms(2))
qed

theorem ssl_endpoint_malleable_witness:
  "ssl_tear_msg_open demo_ssl demo_mgr (serialize_3_strs (serialize_3_strs ''K'' ''h:2'' ''S'') ''S'' ''hi'') =
   Val (Some (serialize_3_strs ''K'' ''h:2'' ''S'', ''hi''))"
proof (rule ssl_endpoint_malleable [of "''K''" "''h:1''" "''h:2''"])
  show "ssl_tear_msg_open demo_ssl demo_mgr (serialize_3_strs (serialize_3_strs ''K'' ''h:1'' ''S'') ''S'' ''hi'') =
        Val (Some (serialize_3_strs ''K'' ''h:1'' ''S'', ''hi''))"
    by (subst ssl_tear_serialized) (simp_all add: fits_def serialize_3_strs_def test_trusted_peer_def
        do_verify_pem_def demo_ssl_def demo_mgr_def)
qed (simp_all add: fits_def serialize_3_strs_def)

end
