(* ===== verification/BlkExec.thy ===== *)
theory BlkExec
  imports WorldStore SignedMsg
begin

text \<open>
  Verification of transactions (\<^verbatim>\<open>include/txVerifier.hpp\<close>, \<open>ITxVerifiable\<close> of \<^verbatim>\<open>include/core0.hpp\<close>) and
  execution and commit of blocks (\<^verbatim>\<open>include/execManager.hpp\<close>). The transaction executor behind
  \<open>ITxExecutable\<close> is a parameter that reads accounts and returns a journal and a result; the
  storage is used through \<open>world_ops\<close>, and what is proved of \<open>commitBlk\<close> is proved once for every
  storage that meets the contract.
\<close>

section \<open>TxVerifier\<close>

record 'pk TxVerifier =
  v_ca_public_key :: "'pk option"
  is_public_tx_mode :: bool

definition TxVerifier_ctor :: "('sk, 'pk) openssl \<Rightarrow> string \<Rightarrow> 'pk TxVerifier result" where
  "TxVerifier_ctor ssl ca_crt_pem =
     (if ca_crt_pem \<noteq> [] then
        (case PEM_read_PUBKEY ssl ca_crt_pem of
           None \<Rightarrow> Inl Runtime_error
         | Some k \<Rightarrow> Inr \<lparr>v_ca_public_key = Some k, is_public_tx_mode = False\<rparr>)
      else Inr \<lparr>v_ca_public_key = None, is_public_tx_mode = True\<rparr>)"

text \<open>\<open>EVP_DigestVerifyInit\<close> fails on a null key, and then nothing verifies.\<close>

definition TxVerifier_verify :: "('sk, 'pk) openssl \<Rightarrow> keccak256 \<Rightarrow> 'pk TxVerifier \<Rightarrow> Tx \<Rightarrow> bool" where
  "TxVerifier_verify ssl keccak v t =
     (if \<not> is_public_tx_mode v \<and>
         \<not> (case v_ca_public_key v of None \<Rightarrow> False | Some ca \<Rightarrow> EVP_DigestVerify ssl ca (tx_pk_pem t) (toString (tx_pk_crt t)))
      then False
      else if tx_from t \<noteq> getFromFromPkPem keccak t then False
      else if \<not> do_verify_pem ssl (tx_pk_pem t) (getToSignPayload t) (toString (tx_signature t)) then False
      else True)"

definition filterTxs :: "(Tx \<Rightarrow> bool) \<Rightarrow> Tx list \<Rightarrow> Tx list" where
  "filterTxs verify ts = filter verify ts"  \<comment> \<open>\<open>erase_if(not verify)\<close>\<close>

section \<open>BlkExecutor\<close>

text \<open>\<open>ITxExecutable::executeTx\<close>: a read-only world and a transaction to a journal and a result.\<close>

type_synonym tx_executor = "(address \<Rightarrow> Acn option) \<Rightarrow> Tx \<Rightarrow> (StateChange list \<times> bytes) option"

text \<open>The wire codecs of the two messages that \<open>commitBlk\<close> stores.\<close>

record chain_codecs =
  info_codec :: "PbTxOnBlkInfo pb_codec"
  exec_codec :: "PbExecBlk pb_codec"

fun exec_txs :: "tx_executor \<Rightarrow> (address \<Rightarrow> Acn option) \<Rightarrow> Tx list \<Rightarrow> StateChange list list \<Rightarrow> TxReceipt list
    \<Rightarrow> (StateChange list list \<times> TxReceipt list) result" where
  "exec_txs e rw [] J R = Inr (J, R)"
| "exec_txs e rw (t # ts) J R =
     (case e rw t of
        None \<Rightarrow> bind_result (TxReceipt_failed False (tx_type t)) (\<lambda>r. exec_txs e rw ts (J @ [[]]) (R @ [r]))
      | Some (j, b) \<Rightarrow> exec_txs e rw ts (J @ [j]) (R @ [TxReceipt_ctor b (tx_type t)]))"

definition executeBlk :: "tx_executor \<Rightarrow> (address \<Rightarrow> Acn option) \<Rightarrow> (Tx \<Rightarrow> bool) option \<Rightarrow> Blk \<Rightarrow> ExecBlk result" where
  "executeBlk e rw verifier b =
     (let b' = (case verifier of None \<Rightarrow> b | Some v \<Rightarrow> b\<lparr>txs := filterTxs v (txs b)\<rparr>) in
      bind_result (exec_txs e rw (txs b') [] []) (\<lambda>(J, R). ExecBlk_ctor b' J R))"

definition tx_key_of :: "keccak256 \<Rightarrow> Tx \<Rightarrow> string" where
  "tx_key_of keccak t = ''/tx/'' @ hashToString (tx_hash keccak t)"

definition blk_key_of :: "u64 \<Rightarrow> string" where
  "blk_key_of n = ''/blk/'' @ decimal (unat n)"

text \<open>
  The loop over the transactions. The result of the first \<open>setInChainDB\<close> is overwritten by the one
  of \<open>applyJournalStateDB\<close>; \<open>b.stateChanges[i]\<close> is read without a bounds check.
\<close>

fun commit_txs :: "'w world_ops \<Rightarrow> chain_codecs \<Rightarrow> keccak256 \<Rightarrow> u64 \<Rightarrow> nat \<Rightarrow> Tx list \<Rightarrow> StateChange list list
    \<Rightarrow> 'w \<Rightarrow> (bool \<times> 'w) result" where
  "commit_txs ops cs keccak n i [] js w = Inr (True, w)"
| "commit_txs ops cs keccak n i (t # ts) js w =
     (let (ok, w1) = setInChainDB ops w (tx_key_of keccak t)
            (toPbString (info_codec cs) TxOnBlkInfo_toPb (TxOnBlkInfo_ctor n (of_nat i)))
      in case js of
           [] \<Rightarrow> Inl Undefined_read
         | j # js' \<Rightarrow>
             bind_result (applyJournalStateDB ops w1 j)
               (\<lambda>(ok, w2). if \<not> ok then Inr (False, w2) else commit_txs ops cs keccak n (Suc i) ts js' w2))"

definition commitBlk :: "'w world_ops \<Rightarrow> chain_codecs \<Rightarrow> keccak256 \<Rightarrow> 'w \<Rightarrow> ExecBlk \<Rightarrow> (bool \<times> 'w) result" where
  "commitBlk ops cs keccak w b =
     bind_result (commit_txs ops cs keccak (number b) 0 (txs b) (stateChanges b) w)
       (\<lambda>(ok, w1).
          if \<not> ok then Inr (False, w1)
          else
            (let bn = decimal (unat (number b));
                 (ok2, w2) = setInChainDB ops w1 (blk_key_of (number b)) (toPbString (exec_codec cs) ExecBlk_toPb0 b)
             in if \<not> ok2 then Inr (False, w2)
                else (let (ok3, w3) = setInChainDB ops w2 ''/other/blk_number'' bn in Inr (ok3, w3))))"

section \<open>What executeBlk returns\<close>

definition journal_of :: "tx_executor \<Rightarrow> (address \<Rightarrow> Acn option) \<Rightarrow> Tx \<Rightarrow> StateChange list" where
  "journal_of e rw t = (case e rw t of None \<Rightarrow> [] | Some (j, b) \<Rightarrow> j)"

definition receipt_of :: "tx_executor \<Rightarrow> (address \<Rightarrow> Acn option) \<Rightarrow> Tx \<Rightarrow> TxReceipt" where
  "receipt_of e rw t =
     (case e rw t of
        None \<Rightarrow> \<lparr>rcpt_ok = False, rcpt_result = [], rcpt_type = tx_type t\<rparr>
      | Some (j, b) \<Rightarrow> \<lparr>rcpt_ok = True, rcpt_result = b, rcpt_type = tx_type t\<rparr>)"

definition kept_txs :: "(Tx \<Rightarrow> bool) option \<Rightarrow> Tx list \<Rightarrow> Tx list" where
  "kept_txs verifier ts = (case verifier of None \<Rightarrow> ts | Some v \<Rightarrow> filter v ts)"

lemma exec_txs_map: "exec_txs e rw ts J R = Inr (J @ map (journal_of e rw) ts, R @ map (receipt_of e rw) ts)"
  by (induction ts arbitrary: J R)
    (auto simp: journal_of_def receipt_of_def TxReceipt_failed_def TxReceipt_ctor_def TxReceipt_default_def
      split: option.splits)

lemma executeBlk_eq:
  "executeBlk e rw verifier b =
   Inr \<lparr>number = number b, parentHash = parentHash b, txs = kept_txs verifier (txs b),
        stateChanges = map (journal_of e rw) (kept_txs verifier (txs b)),
        txReceipts = map (receipt_of e rw) (kept_txs verifier (txs b))\<rparr>"
  by (cases verifier) (simp_all add: executeBlk_def exec_txs_map ExecBlk_ctor_def kept_txs_def filterTxs_def Let_def)

section \<open>What commitBlk writes, for any storage\<close>

locale reliable_world = world_storage +
  assumes set_total: "invar w \<Longrightarrow> fst (setInChainDB ops w k v)"
    and apply_total: "invar w \<Longrightarrow> \<exists>w'. applyJournalStateDB ops w j = Inr (True, w')"
begin

lemma set_step:
  assumes "invar w"
  obtains w' where "setInChainDB ops w k v = (True, w')" "invar w'" "chain w' = (chain w)(k \<mapsto> v)" "state w' = state w"
proof (cases "setInChainDB ops w k v")
  case (Pair ok w')
  then show ?thesis using that [of w'] assms set_ok [of w k v w'] set_total [of w k v] by simp
qed

lemma apply_step:
  assumes "invar w"
  obtains w' where "applyJournalStateDB ops w j = Inr (True, w')" "invar w'" "chain w' = chain w"
    "state w' = journal_map j (state w)"
proof -
  obtain w' where "applyJournalStateDB ops w j = Inr (True, w')" using apply_total [OF assms] by blast
  then show ?thesis using that [of w'] apply_ok [OF assms] by simp
qed

lemma commit_txs_effect:
  assumes "invar w" "length js = length ts"
  shows "\<exists>w'. commit_txs ops cs keccak n i ts js w = Inr (True, w') \<and> invar w' \<and>
    state w' = journal_map (concat js) (state w) \<and>
    chain w' = (chain w)(map (tx_key_of keccak) ts [\<mapsto>]
      map (\<lambda>i. toPbString (info_codec cs) TxOnBlkInfo_toPb (TxOnBlkInfo_ctor n (of_nat i))) [i..<i + length ts])"
  using assms
proof (induction ts arbitrary: js w i)
  case (Cons t ts)
  then obtain j js' where js: "js = j # js'" "length js' = length ts" by (cases js) auto
  obtain w1 where w1: "setInChainDB ops w (tx_key_of keccak t)
      (toPbString (info_codec cs) TxOnBlkInfo_toPb (TxOnBlkInfo_ctor n (of_nat i))) = (True, w1)" "invar w1"
    "chain w1 = (chain w)(tx_key_of keccak t \<mapsto> toPbString (info_codec cs) TxOnBlkInfo_toPb (TxOnBlkInfo_ctor n (of_nat i)))"
    "state w1 = state w"
    using set_step [OF Cons.prems(1)] by metis
  obtain w2 where w2: "applyJournalStateDB ops w1 j = Inr (True, w2)" "invar w2" "chain w2 = chain w1"
    "state w2 = journal_map j (state w1)"
    using apply_step [OF w1(2)] by metis
  obtain w' where w': "commit_txs ops cs keccak n (Suc i) ts js' w2 = Inr (True, w')" "invar w'"
    "state w' = journal_map (concat js') (state w2)"
    "chain w' = (chain w2)(map (tx_key_of keccak) ts [\<mapsto>]
      map (\<lambda>i. toPbString (info_codec cs) TxOnBlkInfo_toPb (TxOnBlkInfo_ctor n (of_nat i))) [Suc i..<Suc i + length ts])"
    using Cons.IH [OF w2(2) js(2)] by metis
  show ?case
    using w1 w2 w' js by (simp add: journal_map_def upt_conv_Cons del: upt_Suc)
qed (simp add: journal_map_def)

lemma commit_effect:
  assumes "invar w" "length (stateChanges b) = length (txs b)"
  shows "\<exists>w'. commitBlk ops cs keccak w b = Inr (True, w') \<and> invar w' \<and>
    state w' = journal_map (concat (stateChanges b)) (state w) \<and>
    chain w' = (chain w)(map (tx_key_of keccak) (txs b) [\<mapsto>]
      map (\<lambda>i. toPbString (info_codec cs) TxOnBlkInfo_toPb (TxOnBlkInfo_ctor (number b) (of_nat i))) [0..<length (txs b)],
      blk_key_of (number b) \<mapsto> toPbString (exec_codec cs) ExecBlk_toPb0 b,
      ''/other/blk_number'' \<mapsto> decimal (unat (number b)))"
proof -
  obtain w1 where w1: "commit_txs ops cs keccak (number b) 0 (txs b) (stateChanges b) w = Inr (True, w1)" "invar w1"
    "state w1 = journal_map (concat (stateChanges b)) (state w)"
    "chain w1 = (chain w)(map (tx_key_of keccak) (txs b) [\<mapsto>]
      map (\<lambda>i. toPbString (info_codec cs) TxOnBlkInfo_toPb (TxOnBlkInfo_ctor (number b) (of_nat i))) [0..<length (txs b)])"
    using commit_txs_effect [OF assms, of cs keccak "number b" 0] by auto
  obtain w2 where w2: "setInChainDB ops w1 (blk_key_of (number b)) (toPbString (exec_codec cs) ExecBlk_toPb0 b) = (True, w2)"
    "invar w2" "chain w2 = (chain w1)(blk_key_of (number b) \<mapsto> toPbString (exec_codec cs) ExecBlk_toPb0 b)" "state w2 = state w1"
    using set_step [OF w1(2)] by metis
  obtain w3 where w3: "setInChainDB ops w2 ''/other/blk_number'' (decimal (unat (number b))) = (True, w3)"
    "invar w3" "chain w3 = (chain w2)(''/other/blk_number'' \<mapsto> decimal (unat (number b)))" "state w3 = state w2"
    using set_step [OF w2(2)] by metis
  show ?thesis using w1 w2 w3 by (auto simp: commitBlk_def Let_def)
qed

end

interpretation inram_total: reliable_world "InRam_ops c" InRam_ok "\<lambda>w. map_of (chainDB w)" "\<lambda>w. map_of (stateDB w)" c for c
  by unfold_locales (simp_all add: InRam_defs)

section \<open>Finding what was committed\<close>

lemma map_upds_nth: "distinct ks \<Longrightarrow> length vs = length ks \<Longrightarrow> i < length ks \<Longrightarrow> (m(ks [\<mapsto>] vs)) (ks ! i) = Some (vs ! i)"
proof -
  assume a: "distinct ks" "length vs = length ks" "i < length ks"
  then have "(ks ! i, vs ! i) \<in> set (rev (zip ks vs))" by (auto simp: set_zip)
  then have "map_of (rev (zip ks vs)) (ks ! i) = Some (vs ! i)"
    using a by (intro map_of_is_SomeI) (simp_all add: rev_map [symmetric])
  then show ?thesis by (simp add: map_upds_def map_add_Some_iff)
qed

lemma tx_key_of_inject [simp]: "tx_key_of keccak t = tx_key_of keccak u \<longleftrightarrow> tx_hash keccak t = tx_hash keccak u"
  by (simp add: tx_key_of_def hashToString_def hex_inject)

lemma key_prefixes [simp]:
  "tx_key_of keccak t \<noteq> blk_key_of n" "tx_key_of keccak t \<noteq> ''/other/blk_number''" "blk_key_of n \<noteq> ''/other/blk_number''"
  by (simp_all add: tx_key_of_def blk_key_of_def)

lemma blk_key_of_inject: "blk_key_of m = blk_key_of n \<longleftrightarrow> m = n"
  by (auto simp: blk_key_of_def dest!: decimal_inject unsigned_word_eqI)

section \<open>Properties\<close>

text \<open>
  C3. Executing and committing a block has exactly this effect, on every storage that meets the
  contract and whose writes succeed: execution always returns (no length error), every kept
  transaction gets one receipt and one journal, the state becomes the old state with the journals
  applied in order, and the chain database gains the position of every transaction, the block and
  the block number, and nothing else. All journals are computed on the world before the block, so
  a transaction does not see what an earlier one of its block wrote.
\<close>

theorem block_commit_effect:
  assumes "reliable_world ops invar chain state c" "invar w"
  shows "\<exists>eb w'. executeBlk e (getAcn ops w) verifier b = Inr eb \<and> commitBlk ops cs keccak w eb = Inr (True, w') \<and> invar w' \<and>
     txs eb = kept_txs verifier (txs b) \<and> txReceipts eb = map (receipt_of e (getAcn ops w)) (txs eb) \<and>
     state w' = journal_map (concat (map (journal_of e (getAcn ops w)) (txs eb))) (state w) \<and>
     chain w' = (chain w)(map (tx_key_of keccak) (txs eb) [\<mapsto>]
       map (\<lambda>i. toPbString (info_codec cs) TxOnBlkInfo_toPb (TxOnBlkInfo_ctor (number b) (of_nat i))) [0..<length (txs eb)],
       blk_key_of (number b) \<mapsto> toPbString (exec_codec cs) ExecBlk_toPb0 eb,
       ''/other/blk_number'' \<mapsto> decimal (unat (number b)))"
proof -
  obtain eb where eb: "executeBlk e (getAcn ops w) verifier b = Inr eb" "txs eb = kept_txs verifier (txs b)"
    "number eb = number b" "stateChanges eb = map (journal_of e (getAcn ops w)) (txs eb)"
    "txReceipts eb = map (receipt_of e (getAcn ops w)) (txs eb)"
    by (simp add: executeBlk_eq)
  then show ?thesis
    using reliable_world.commit_effect [OF assms, of eb cs keccak] by (metis length_map)
qed

definition demo_codecs :: chain_codecs where
  "demo_codecs = \<lparr>info_codec = demo_codec (TxOnBlkInfo_toPb (TxOnBlkInfo_ctor 1 0)),
                  exec_codec = demo_codec (ExecBlk_toPb0 demo_exec_blk)\<rparr>"

text \<open>An executor that stores the transaction data under the recipient.\<close>

definition demo_executor :: tx_executor where
  "demo_executor rw t = Some ([\<lparr>del = False, sc_k = addressToString (tx_to t), sc_v = toString (tx_data t)\<rparr>], [])"

theorem block_commit_effect_witness:
  "\<exists>eb w'. executeBlk demo_executor (getAcn (InRam_ops (demo_codec (Acn_toPb Acn_default))) InRam_empty) None
        (Blk_ctor 4 (replicate 32 0) [demo_tx 1]) = Inr eb \<and>
     commitBlk (InRam_ops (demo_codec (Acn_toPb Acn_default))) demo_codecs demo_keccak InRam_empty eb = Inr (True, w') \<and>
     map_of (stateDB w') (addressToString (makeAddress 2)) = Some (toString [0xff])"
proof -
  let ?ops = "InRam_ops (demo_codec (Acn_toPb Acn_default))"
  have ok: "InRam_ok InRam_empty" by (simp add: InRam_ok_def InRam_empty_def)
  obtain eb w' where "executeBlk demo_executor (getAcn ?ops InRam_empty) None (Blk_ctor 4 (replicate 32 0) [demo_tx 1]) = Inr eb"
    "commitBlk ?ops demo_codecs demo_keccak InRam_empty eb = Inr (True, w')"
    "txs eb = kept_txs None (txs (Blk_ctor 4 (replicate 32 0) [demo_tx 1]))"
    "map_of (stateDB w') = journal_map (concat (map (journal_of demo_executor (getAcn ?ops InRam_empty)) (txs eb)))
       (map_of (stateDB InRam_empty))"
    using block_commit_effect [OF inram_total.reliable_world_axioms ok] by metis
  then show ?thesis
    by (auto simp: Blk_ctor_def kept_txs_def journal_of_def demo_executor_def journal_map_def change_map_def
        demo_tx_def Tx_ctor_def)
qed

text \<open>
  After a block whose transactions have different (sender, nonce) hashes is committed, a client
  finds each of them: the entry under \<^verbatim>\<open>/tx/<hash>\<close> parses to the number of the block and the
  position of the transaction, the entry under \<^verbatim>\<open>/blk/<number>\<close> parses to the executed block, whose
  transaction at that position is the one asked for; and every other \<^verbatim>\<open>/tx/\<close> and \<^verbatim>\<open>/blk/\<close> entry is
  what it was.
\<close>

lemma committed_tx_found:
  assumes "reliable_world ops invar chain state c" "invar w" "length (stateChanges b) = length (txs b)"
    and "distinct (map (tx_hash keccak) (txs b))" "i < length (txs b)"
    and "\<And>info. info = TxOnBlkInfo_toPb (TxOnBlkInfo_ctor (number b) (of_nat i)) \<Longrightarrow>
      ParseFromString (info_codec cs) (SerializeAsString (info_codec cs) info) = Some info"
    and "ParseFromString (exec_codec cs) (SerializeAsString (exec_codec cs) (ExecBlk_toPb0 b)) = Some (ExecBlk_toPb0 b)"
    and "\<And>t. t \<in> set (txs b) \<Longrightarrow> wf_tx t \<and> from_matches_key keccak t" "wf_hash (parentHash b)"
  shows "\<exists>w'. commitBlk ops cs keccak w b = Inr (True, w') \<and>
     Option.bind (getFromChainDB ops w' (tx_key_of keccak (txs b ! i))) (fromPbString (info_codec cs) (TxOnBlkInfo_fromPb i0)) =
       Some (TxOnBlkInfo_ctor (number b) (of_nat i)) \<and>
     Option.bind (getFromChainDB ops w' (blk_key_of (number b)))
       (fromPbString (exec_codec cs) (ExecBlk_fromPb0 keccak (ExecBlk_default n p))) = Some b \<and>
     (\<forall>t. tx_hash keccak t \<notin> tx_hash keccak ` set (txs b) \<longrightarrow>
        getFromChainDB ops w' (tx_key_of keccak t) = getFromChainDB ops w (tx_key_of keccak t)) \<and>
     (\<forall>m. m \<noteq> number b \<longrightarrow> getFromChainDB ops w' (blk_key_of m) = getFromChainDB ops w (blk_key_of m))"
proof -
  let ?vs = "map (\<lambda>i. toPbString (info_codec cs) TxOnBlkInfo_toPb (TxOnBlkInfo_ctor (number b) (of_nat i))) [0..<length (txs b)]"
  obtain w' where w': "commitBlk ops cs keccak w b = Inr (True, w')" "invar w'"
    and ch: "chain w' = (chain w)(map (tx_key_of keccak) (txs b) [\<mapsto>] ?vs,
      blk_key_of (number b) \<mapsto> toPbString (exec_codec cs) ExecBlk_toPb0 b, ''/other/blk_number'' \<mapsto> decimal (unat (number b)))"
    using reliable_world.commit_effect [OF assms(1-3)] by blast
  have get: "getFromChainDB ops v k = chain v k" if "invar v" for v k
    using assms(1) that unfolding reliable_world_def by (blast intro: world_storage.get_eq)
  have d: "distinct (map (tx_key_of keccak) (txs b))"
    using assms(4) by (auto simp: distinct_conv_nth)
  have old: "chain w' (tx_key_of keccak t) = chain w (tx_key_of keccak t)" if "tx_hash keccak t \<notin> tx_hash keccak ` set (txs b)" for t
  proof -
    have "tx_key_of keccak t \<notin> set (map (tx_key_of keccak) (txs b))" using that by auto
    then show ?thesis by (simp add: ch map_upds_apply_nontin)
  qed
  have blk: "chain w' (blk_key_of m) = chain w (blk_key_of m)" if "m \<noteq> number b" for m
  proof -
    have "blk_key_of m \<notin> set (map (tx_key_of keccak) (txs b))" using key_prefixes(1) by (metis imageE set_map)
    then show ?thesis using that by (simp add: ch map_upds_apply_nontin blk_key_of_inject)
  qed
  have tx: "chain w' (tx_key_of keccak (txs b ! i)) = Some (?vs ! i)"
    using map_upds_nth [OF d, of ?vs i] assms(5) by (simp add: ch)
  have "fromPbString (info_codec cs) (TxOnBlkInfo_fromPb i0) (?vs ! i) = Some (TxOnBlkInfo_ctor (number b) (of_nat i))"
    using assms(5,6) by (simp add: fromPbString_toPbString TxOnBlkInfo_pb_roundtrip)
  moreover have "fromPbString (exec_codec cs) (ExecBlk_fromPb0 keccak (ExecBlk_default n p))
      (toPbString (exec_codec cs) ExecBlk_toPb0 b) = Some b"
    using assms(7) ExecBlk_pb_roundtrip [OF assms(8,9)] by (simp add: fromPbString_toPbString)
  ultimately show ?thesis
    using w' tx old blk assms(2) by (auto simp: get ch)
qed

text \<open>
  C35. When a verifier is configured, only authorised transactions are executed: every transaction of
  an executed block carries a public key that loads and verifies its signature over nonce and
  data, its sender is the address of that key, and in CA mode the CA has certified the key. Every
  transaction of the block that fails one of these tests is dropped, and the others keep their
  order.
\<close>

theorem executed_txs_authorised:
  assumes "executeBlk e rw (Some (TxVerifier_verify ssl keccak v)) b = Inr eb"
    and "TxVerifier_ctor ssl ca_pem = Inr v"
  shows "txs eb = filter (TxVerifier_verify ssl keccak v) (txs b) \<and>
     (\<forall>t \<in> set (txs eb). tx_from t = getFromFromPkPem keccak t \<and>
        (\<exists>key. PEM_read_PUBKEY ssl (tx_pk_pem t) = Some key \<and>
               EVP_DigestVerify ssl key (getToSignPayload t) (toString (tx_signature t))) \<and>
        (ca_pem \<noteq> [] \<longrightarrow> (\<exists>ca. PEM_read_PUBKEY ssl ca_pem = Some ca \<and>
               EVP_DigestVerify ssl ca (tx_pk_pem t) (toString (tx_pk_crt t)))))"
proof -
  have eb: "txs eb = filter (TxVerifier_verify ssl keccak v) (txs b)"
    using assms(1) by (auto simp: executeBlk_eq kept_txs_def)
  have "tx_from t = getFromFromPkPem keccak t \<and>
        (\<exists>key. PEM_read_PUBKEY ssl (tx_pk_pem t) = Some key \<and>
               EVP_DigestVerify ssl key (getToSignPayload t) (toString (tx_signature t))) \<and>
        (ca_pem \<noteq> [] \<longrightarrow> (\<exists>ca. PEM_read_PUBKEY ssl ca_pem = Some ca \<and>
               EVP_DigestVerify ssl ca (tx_pk_pem t) (toString (tx_pk_crt t))))"
    if "TxVerifier_verify ssl keccak v t" for t
    using that assms(2)
    by (auto simp: TxVerifier_verify_def TxVerifier_ctor_def do_verify_pem_def split: if_splits option.splits)
  with eb show ?thesis by simp
qed

definition demo_signed_tx :: Tx where
  "demo_signed_tx = (let t = (demo_tx 1)\<lparr>tx_pk_pem := ''K'', tx_signature := bytesFromString ''S''\<rparr>
     in t\<lparr>tx_from := getFromFromPkPem demo_keccak t\<rparr>)"

theorem executed_txs_authorised_witness:
  "(let v = \<lparr>v_ca_public_key = None, is_public_tx_mode = True\<rparr>;
        b = Blk_ctor 1 [] [demo_tx 2, demo_signed_tx];
        eb = \<lparr>number = 1, parentHash = [], txs = [demo_signed_tx],
              stateChanges = [journal_of demo_executor (\<lambda>_. None) demo_signed_tx],
              txReceipts = [receipt_of demo_executor (\<lambda>_. None) demo_signed_tx]\<rparr>
    in executeBlk demo_executor (\<lambda>_. None) (Some (TxVerifier_verify demo_ssl demo_keccak v)) b = Inr eb \<and>
       txs eb = filter (TxVerifier_verify demo_ssl demo_keccak v) (txs b))"
proof -
  let ?v = "\<lparr>v_ca_public_key = None, is_public_tx_mode = True\<rparr> :: unit TxVerifier"
  have "TxVerifier_verify demo_ssl demo_keccak ?v demo_signed_tx"
    by (simp add: TxVerifier_verify_def demo_signed_tx_def Let_def getFromFromPkPem_def do_verify_pem_def demo_ssl_def)
  moreover have "\<not> TxVerifier_verify demo_ssl demo_keccak ?v (demo_tx 2)"
    by (simp add: TxVerifier_verify_def demo_tx_def Tx_ctor_def Tx_default_def do_verify_pem_def demo_ssl_def)
  ultimately have run: "executeBlk demo_executor (\<lambda>_. None) (Some (TxVerifier_verify demo_ssl demo_keccak ?v))
     (Blk_ctor 1 [] [demo_tx 2, demo_signed_tx]) = Inr \<lparr>number = 1, parentHash = [], txs = [demo_signed_tx],
              stateChanges = [journal_of demo_executor (\<lambda>_. None) demo_signed_tx],
              txReceipts = [receipt_of demo_executor (\<lambda>_. None) demo_signed_tx]\<rparr>"
    by (simp add: executeBlk_eq kept_txs_def Blk_ctor_def)
  show ?thesis
    using run executed_txs_authorised [OF run, of "[]"] by (simp add: TxVerifier_ctor_def Let_def)
qed

end
