(* ===== verification/JsonData.thy ===== *)
theory JsonData
  imports PostExec
begin

text \<open>
  The JSON forms of the chain data (\<^verbatim>\<open>include/core0.cpp\<close>, \<^verbatim>\<open>include/forPostExec.hpp\<close>,
  \<^verbatim>\<open>include/cnsss/forCnsss.hpp\<close>): accounts, transactions, blocks, blocks for consensus, receipts,
  state changes, executed blocks, and the JSON requests of clients. A \<open>boost::json::value\<close> is the
  datatype \<open>json\<close>; an object is the list of its members, with distinct keys. The text parser and
  printer of Boost are the parameter \<open>json_text\<close>.
\<close>

section \<open>JSON values\<close>

text \<open>Boost keeps three kinds of numbers; a double is \<open>m * 2 ^ e\<close>.\<close>

datatype json =
    JNull
  | JBool bool
  | JInt int
  | JUint u64
  | JDouble int int
  | JStr string
  | JArr "json list"
  | JObj "(string \<times> json) list"

record json_text =
  json_parse :: "string \<Rightarrow> json option"
  json_serialize :: "json \<Rightarrow> string"

text \<open>
  What a value becomes through text: the parser reads an integer that fits \<open>int64_t\<close> as that kind.
\<close>

fun json_norm :: "json \<Rightarrow> json" where
  "json_norm (JUint u) = (if unat u < 2 ^ 63 then JInt (uint u) else JUint u)"
| "json_norm (JArr xs) = JArr (map json_norm xs)"
| "json_norm (JObj kvs) = JObj (map (\<lambda>(k, v). (k, json_norm v)) kvs)"
| "json_norm v = v"

text \<open>Accessors; each throws an exception derived from \<open>std::exception\<close> on another kind.\<close>

fun as_object :: "json \<Rightarrow> (string \<times> json) list result" where
  "as_object (JObj kvs) = Inr kvs"
| "as_object _ = Inl Runtime_error"

fun as_array :: "json \<Rightarrow> json list result" where
  "as_array (JArr xs) = Inr xs"
| "as_array _ = Inl Runtime_error"

fun as_string :: "json \<Rightarrow> string result" where
  "as_string (JStr s) = Inr s"
| "as_string _ = Inl Runtime_error"

fun as_bool :: "json \<Rightarrow> bool result" where
  "as_bool (JBool b) = Inr b"
| "as_bool _ = Inl Runtime_error"

definition jat :: "(string \<times> json) list \<Rightarrow> string \<Rightarrow> json result" where
  "jat kvs k = (case map_of kvs k of None \<Rightarrow> Inl Out_of_range | Some v \<Rightarrow> Inr v)"

definition json_at :: "json \<Rightarrow> string \<Rightarrow> json result" where
  "json_at v k = bind_result (as_object v) (\<lambda>kvs. jat kvs k)"

text \<open>\<open>value_to<uint64_t>\<close>: exact conversions only.\<close>

fun to_u64 :: "json \<Rightarrow> u64 result" where
  "to_u64 (JInt i) = (if i < 0 then Inl Runtime_error else Inr (word_of_int i))"
| "to_u64 (JUint u) = Inr u"
| "to_u64 (JDouble m e) =
     (if e \<ge> 0 \<and> 0 \<le> m * 2 ^ nat e \<and> m * 2 ^ nat e < 2 ^ 64 then Inr (word_of_int (m * 2 ^ nat e))
      else if e < 0 \<and> m mod 2 ^ nat (- e) = 0 \<and> 0 \<le> m \<and> m div 2 ^ nat (- e) < 2 ^ 64
        then Inr (word_of_int (m div 2 ^ nat (- e)))
      else Inl Runtime_error)"
| "to_u64 _ = Inl Runtime_error"

definition value_or_throw :: "'a option \<Rightarrow> 'a result" where
  "value_or_throw r = (case r of None \<Rightarrow> Inl Bad_optional_access | Some x \<Rightarrow> Inr x)"

text \<open>A conversion that throws is reported as \<open>false\<close> by \<open>fromJson\<close>, here \<open>None\<close>.\<close>

definition caught :: "'a result \<Rightarrow> 'a option" where
  "caught r = (case r of Inl e \<Rightarrow> None | Inr x \<Rightarrow> Some x)"

definition fromJsonString :: "json_text \<Rightarrow> (json \<Rightarrow> 'a option) \<Rightarrow> string \<Rightarrow> 'a option" where
  "fromJsonString jt fromJson s = (case json_parse jt s of None \<Rightarrow> None | Some v \<Rightarrow> fromJson v)"

definition toJsonString :: "json_text \<Rightarrow> ('a \<Rightarrow> json) \<Rightarrow> 'a \<Rightarrow> string" where
  "toJsonString jt toJson x = json_serialize jt (toJson x)"

text \<open>\<open>value_to<vector<T>>\<close>.\<close>

definition value_to_vector :: "(json \<Rightarrow> 'a result) \<Rightarrow> json \<Rightarrow> 'a list result" where
  "value_to_vector f v = bind_result (as_array v) (map_result f)"

section \<open>Accounts\<close>

text \<open>\<open>find_first_not_of('\0')\<close> and \<open>substr\<close>: a value of zeros only is left as it is.\<close>

definition trim_zeros :: "bytes32 \<Rightarrow> string" where
  "trim_zeros b = (if dropWhile (\<lambda>x. x = 0) b = [] then toString b else toString (dropWhile (\<lambda>x. x = 0) b))"

definition Acn_toJson :: "keccak256 \<Rightarrow> Acn \<Rightarrow> json" where
  "Acn_toJson keccak a =
     JObj ([(''nonce'', JUint (acn_nonce a)), (''code'', JStr (hex (code a))),
            (''codehash'', JStr (hashToString (codehash keccak a))),
            (''storage'', JObj (fold (\<lambda>(k, v) s. AList.update (trim_zeros k) (JStr (trim_zeros v)) s) (storage a) []))]
           @ (if disk_storage a \<noteq> [] then [(''disk_storage'', JArr (map JStr (disk_storage a)))] else []))"

text \<open>\<open>copy_backward\<close> into 32 zero bytes.\<close>

definition pad32 :: "string \<Rightarrow> bytes32" where
  "pad32 s = replicate (32 - length s) 0 @ bytesFromString s"

fun load_json_storage :: "(bytes32 \<times> bytes32) list \<Rightarrow> (string \<times> json) list \<Rightarrow> (bytes32 \<times> bytes32) list result" where
  "load_json_storage st [] = Inr st"
| "load_json_storage st ((s_key, v) # kvs) =
     bind_result (as_string v) (\<lambda>s_val.
       if length s_key > 32 then Inl Runtime_error
       else if length s_val > 32 then Inl Runtime_error
       else load_json_storage (AList.update (pad32 s_key) (pad32 s_val) st) kvs)"

definition Acn_fromJson :: "Acn \<Rightarrow> json \<Rightarrow> Acn option" where
  "Acn_fromJson this v = caught (
     bind_result (as_object v) (\<lambda>o1.
     bind_result (bind_result (jat o1 ''nonce'') to_u64) (\<lambda>n.
     bind_result (bind_result (json_at v ''code'') as_string) (\<lambda>c.
     bind_result (value_or_throw (from_hex c)) (\<lambda>cb.
     bind_result (bind_result (jat o1 ''storage'') as_object) (\<lambda>kvs.
     bind_result (load_json_storage (storage this) kvs) (\<lambda>st.
     bind_result
       (if map_of o1 ''disk_storage'' \<noteq> None
        then bind_result (jat o1 ''disk_storage'') (value_to_vector as_string) else Inr [])
       (\<lambda>ds. Inr (this\<lparr>acn_nonce := n, code := cb, storage := st, disk_storage := disk_storage this @ ds\<rparr>)))))))))"

section \<open>Transactions\<close>

definition Tx_toJson :: "keccak256 \<Rightarrow> Tx \<Rightarrow> json" where
  "Tx_toJson keccak c =
     JObj ([(''from'', JStr (addressToString (tx_from c))), (''to'', JStr (addressToString (tx_to c))),
            (''nonce'', JUint (tx_nonce c)), (''timestamp'', JUint (tx_timestamp c)),
            (''hash'', JStr (hashToString (tx_hash keccak c)))]
           @ (if tx_type c \<noteq> Evm
              then [(''type'', JStr (typeToString (tx_type c))), (''data'', JStr (toString (tx_data c)))]
              else [(''data'', JStr (hex (tx_data c)))])
           @ (if tx_pk_pem c \<noteq> [] then [(''pk_pem'', JStr (tx_pk_pem c))] else [])
           @ (if tx_signature c \<noteq> [] then [(''signature'', JStr (hex (tx_signature c)))] else [])
           @ (if tx_pk_crt c \<noteq> [] then [(''pk_crt'', JStr (hex (tx_pk_crt c)))] else []))"

text \<open>A missing optional becomes the \<open>runtime_error\<close> the code throws.\<close>

definition or_error :: "'a option \<Rightarrow> 'a result" where
  "or_error r = (case r of None \<Rightarrow> Inl Runtime_error | Some x \<Rightarrow> Inr x)"

definition opt_hex_field :: "(string \<times> json) list \<Rightarrow> string \<Rightarrow> bytes \<Rightarrow> bytes result" where
  "opt_hex_field o1 k dflt =
     (if map_of o1 k \<noteq> None
      then bind_result (bind_result (jat o1 k) as_string) (\<lambda>s. or_error (from_hex s)) else Inr dflt)"

definition Tx_fromJson0 :: "keccak256 \<Rightarrow> Tx \<Rightarrow> (string \<times> json) list \<Rightarrow> Tx result" where
  "Tx_fromJson0 keccak this o1 =
     bind_result
       (if map_of o1 ''pk_pem'' \<noteq> None
        then bind_result (bind_result (jat o1 ''pk_pem'') as_string)
               (\<lambda>s. let t = this\<lparr>tx_pk_pem := s\<rparr> in Inr (t\<lparr>tx_from := getFromFromPkPem keccak t\<rparr>))
        else bind_result (bind_result (jat o1 ''from'') as_string)
               (\<lambda>s. bind_result (or_error (from_hex_T 20 s)) (\<lambda>a. Inr (this\<lparr>tx_from := a\<rparr>)))) (\<lambda>t1.
     bind_result (opt_hex_field o1 ''signature'' (tx_signature t1)) (\<lambda>sig.
     bind_result (opt_hex_field o1 ''pk_crt'' (tx_pk_crt t1)) (\<lambda>crt.
     bind_result (bind_result (jat o1 ''nonce'') to_u64) (\<lambda>n.
     bind_result (bind_result (jat o1 ''timestamp'') to_u64) (\<lambda>ts.
     bind_result (if map_of o1 ''type'' \<noteq> None
                  then bind_result (bind_result (jat o1 ''type'') as_string) typeFromString else Inr Evm) (\<lambda>tp.
     bind_result (bind_result (jat o1 ''data'') as_string) (\<lambda>s.
     bind_result (if tp = Evm then or_error (from_hex s) else Inr (bytesFromString s)) (\<lambda>d.
     bind_result (bind_result (jat o1 ''to'') as_string) (\<lambda>s2.
     bind_result (or_error (from_hex_T 20 s2)) (\<lambda>a.
       Inr (t1\<lparr>tx_signature := sig, tx_pk_crt := crt, tx_nonce := n, tx_timestamp := ts, tx_type := tp,
               tx_data := d, tx_to := a\<rparr>)))))))))))"

definition Tx_fromJson :: "keccak256 \<Rightarrow> Tx \<Rightarrow> json \<Rightarrow> Tx option" where
  "Tx_fromJson keccak this v = caught (bind_result (as_object v) (Tx_fromJson0 keccak this))"

text \<open>\<open>ADD_FROM_JSON_TAG_INVOKE\<close>: a value that does not parse becomes a default object.\<close>

definition from_json_tag_invoke :: "('a \<Rightarrow> json \<Rightarrow> 'a option) \<Rightarrow> 'a \<Rightarrow> json \<Rightarrow> 'a result" where
  "from_json_tag_invoke fromJson dflt v = Inr (case fromJson dflt v of Some x \<Rightarrow> x | None \<Rightarrow> dflt)"

section \<open>Blocks\<close>

definition BlkHeader_toJson :: "hash256 \<Rightarrow> 'a BlkHeader_scheme \<Rightarrow> (string \<times> json) list" where
  "BlkHeader_toJson h b =
     [(''number'', JUint (number b)), (''hash'', JStr (hashToString h)), (''parentHash'', JStr (hashToString (parentHash b)))]"

definition BlkHeader_fromJson :: "'a BlkHeader_scheme \<Rightarrow> json \<Rightarrow> 'a BlkHeader_scheme option" where
  "BlkHeader_fromJson this v = caught (
     bind_result (bind_result (json_at v ''number'') to_u64) (\<lambda>n.
     bind_result (bind_result (json_at v ''parentHash'') as_string) (\<lambda>p.
     bind_result (or_error (from_hex_T 32 p)) (\<lambda>h. Inr (this\<lparr>number := n, parentHash := h\<rparr>)))))"

definition Blk_toJson :: "keccak256 \<Rightarrow> 'a Blk_scheme \<Rightarrow> json" where
  "Blk_toJson keccak b = JObj (BlkHeader_toJson (Blk_hash keccak b) b @ [(''txs'', JArr (map (Tx_toJson keccak) (txs b)))])"

definition Blk_fromJson :: "keccak256 \<Rightarrow> 'a Blk_scheme \<Rightarrow> json \<Rightarrow> 'a Blk_scheme option" where
  "Blk_fromJson keccak this v =
     (case BlkHeader_fromJson this v of
        None \<Rightarrow> None
      | Some b \<Rightarrow> caught (bind_result (bind_result (json_at v ''txs'')
            (value_to_vector (from_json_tag_invoke (Tx_fromJson keccak) Tx_default))) (\<lambda>ts. Inr (b\<lparr>txs := ts\<rparr>))))"

record BlkForConsensus = BlkHeader +
  txhs :: "hash256 list"

definition BlkForConsensus_ctor :: "u64 \<Rightarrow> hash256 \<Rightarrow> hash256 list \<Rightarrow> BlkForConsensus" where
  "BlkForConsensus_ctor n p hs = \<lparr>number = n, parentHash = p, txhs = hs\<rparr>"

definition BlkForConsensus_hash :: "keccak256 \<Rightarrow> BlkForConsensus \<Rightarrow> hash256" where
  "BlkForConsensus_hash keccak b = serial_hash keccak (parentHash b) (txhs b)"

definition BlkForConsensus_toJson :: "keccak256 \<Rightarrow> BlkForConsensus \<Rightarrow> json" where
  "BlkForConsensus_toJson keccak b =
     JObj (BlkHeader_toJson (BlkForConsensus_hash keccak b) b @ [(''txhs'', JArr (map (\<lambda>h. JStr (hashToString h)) (txhs b)))])"

definition BlkForConsensus_fromJson :: "BlkForConsensus \<Rightarrow> json \<Rightarrow> BlkForConsensus option" where
  "BlkForConsensus_fromJson this v =
     (case BlkHeader_fromJson this v of
        None \<Rightarrow> None
      | Some b \<Rightarrow> caught (
          bind_result (bind_result (json_at v ''txhs'') (value_to_vector as_string)) (\<lambda>ss.
          bind_result (map_result (\<lambda>s. value_or_throw (from_hex_T 32 s)) ss) (\<lambda>hs. Inr (b\<lparr>txhs := hs\<rparr>)))))"

definition BlkForConsensus_toString :: "keccak256 \<Rightarrow> json_text \<Rightarrow> BlkForConsensus \<Rightarrow> string" where
  "BlkForConsensus_toString keccak jt b = toJsonString jt (BlkForConsensus_toJson keccak) b"

definition BlkForConsensus_fromString :: "json_text \<Rightarrow> BlkForConsensus \<Rightarrow> string \<Rightarrow> BlkForConsensus option" where
  "BlkForConsensus_fromString jt this s = fromJsonString jt (BlkForConsensus_fromJson this) s"

section \<open>After execution\<close>

definition StateChange_toJson :: "StateChange \<Rightarrow> json" where
  "StateChange_toJson a =
     JObj [(''del'', JBool (del a)), (''k'', JStr (sc_k a)), (''v'', JStr (hex (bytesFromString (sc_v a))))]"

definition StateChange_fromJson :: "json \<Rightarrow> StateChange result" where
  "StateChange_fromJson v =
     bind_result (bind_result (json_at v ''del'') as_bool) (\<lambda>d.
     bind_result (bind_result (json_at v ''k'') as_string) (\<lambda>k.
     bind_result (bind_result (json_at v ''v'') as_string) (\<lambda>s.
     bind_result (value_or_throw (from_hex s)) (\<lambda>b. Inr \<lparr>del = d, sc_k = k, sc_v = toString b\<rparr>))))"

definition TxReceipt_toJson :: "json_text \<Rightarrow> TxReceipt \<Rightarrow> json result" where
  "TxReceipt_toJson jt c =
     bind_result
       (if rcpt_type c = Python \<and> length (rcpt_result c) > 0 then
          bind_result (or_error (json_parse jt (toString (rcpt_result c)))) (\<lambda>v.
          bind_result (as_object v) (\<lambda>o1.
            if map_of o1 ''result'' = None then Inl Assertion_error
            else if map_of o1 ''log'' = None then Inl Assertion_error
            else bind_result (jat o1 ''result'') (\<lambda>r. Inr (r, o1))))
        else Inr (JStr (hex (rcpt_result c)), []))
       (\<lambda>(r, o1). Inr (JObj ([(''ok'', JBool (rcpt_ok c)), (''result'', r), (''type'', JStr (typeToString (rcpt_type c)))]
          @ (case map_of o1 ''log'' of None \<Rightarrow> [] | Some l \<Rightarrow> [(''log'', l)]))))"

definition TxReceipt_fromJson :: "json_text \<Rightarrow> TxReceipt \<Rightarrow> json \<Rightarrow> TxReceipt option" where
  "TxReceipt_fromJson jt this v = caught (
     bind_result (bind_result (json_at v ''ok'') as_bool) (\<lambda>ok1.
     bind_result (as_object v) (\<lambda>o1.
     bind_result (if map_of o1 ''type'' \<noteq> None
                  then bind_result (bind_result (json_at v ''type'') as_string) typeFromString else Inr Evm) (\<lambda>tp.
     bind_result
       (if ok1 then
          (if tp = Python then
             bind_result (json_at v ''result'') (\<lambda>r. bind_result (json_at v ''log'') (\<lambda>l.
               Inr (bytesFromString (json_serialize jt (JObj [(''result'', r), (''log'', l)])))))
           else bind_result (bind_result (json_at v ''result'') as_string) (\<lambda>s. value_or_throw (from_hex s)))
        else Inr (rcpt_result this))
       (\<lambda>b. Inr (this\<lparr>rcpt_ok := ok1, rcpt_type := tp, rcpt_result := b\<rparr>))))))"

definition TxOnBlkInfo_toJson :: "TxOnBlkInfo \<Rightarrow> json" where
  "TxOnBlkInfo_toJson c = JObj [(''blkNumber'', JUint (blkNumber c)), (''onBlkId'', JUint (onBlkId c))]"

definition TxOnBlkInfo_fromJson :: "TxOnBlkInfo \<Rightarrow> json \<Rightarrow> TxOnBlkInfo option" where
  "TxOnBlkInfo_fromJson this v = caught (
     bind_result (as_object v) (\<lambda>o1.
     bind_result (bind_result (jat o1 ''blkNumber'') to_u64) (\<lambda>n.
     bind_result (bind_result (jat o1 ''onBlkId'') to_u64) (\<lambda>i. Inr (this\<lparr>blkNumber := n, onBlkId := i\<rparr>)))))"

definition ExecBlk_toJson :: "keccak256 \<Rightarrow> json_text \<Rightarrow> ExecBlk \<Rightarrow> json result" where
  "ExecBlk_toJson keccak jt c =
     bind_result (as_object (Blk_toJson keccak c)) (\<lambda>o1.
     bind_result (map_result (TxReceipt_toJson jt) (txReceipts c)) (\<lambda>rs.
       Inr (JObj (o1 @ [(''stateChanges'', JArr (map (\<lambda>j. JArr (map StateChange_toJson j)) (stateChanges c))),
                        (''txReceipts'', JArr rs)]))))"

definition ExecBlk_fromJson :: "keccak256 \<Rightarrow> json_text \<Rightarrow> ExecBlk \<Rightarrow> json \<Rightarrow> ExecBlk option" where
  "ExecBlk_fromJson keccak jt this v =
     (case Blk_fromJson keccak this v of
        None \<Rightarrow> None
      | Some b \<Rightarrow> caught (
          bind_result (bind_result (json_at v ''stateChanges'') (value_to_vector (value_to_vector StateChange_fromJson))) (\<lambda>js.
          bind_result (bind_result (json_at v ''txReceipts'')
             (value_to_vector (from_json_tag_invoke (TxReceipt_fromJson jt) TxReceipt_default))) (\<lambda>rs.
            Inr (b\<lparr>stateChanges := js, txReceipts := rs\<rparr>)))))"

section \<open>Client requests in JSON\<close>

text \<open>
  \<open>parse_txs_json_for_rpc\<close>. The clock is read once per transaction, \<open>emplace\<close> keeps a timestamp the
  client sent, and data that starts with \<open>@\<close> names a file, read by the parameter \<open>read_file\<close>
  (\<open>None\<close> when it does not exist, which ends the request without a reply).
\<close>

definition emplace :: "string \<Rightarrow> json \<Rightarrow> (string \<times> json) list \<Rightarrow> (string \<times> json) list" where
  "emplace k v o1 = (if map_of o1 k \<noteq> None then o1 else o1 @ [(k, v)])"

definition is_create :: "Tx \<Rightarrow> bool" where
  "is_create t \<longleftrightarrow> tx_type t \<noteq> Data \<and> tx_to t = replicate 20 0"

definition rpc_reply_json :: "keccak256 \<Rightarrow> Tx \<Rightarrow> json" where
  "rpc_reply_json keccak t =
     JObj ([(''hash'', JStr (hashToString (tx_hash keccak t)))]
       @ (if is_create t then [(''deployed_address'', JStr (addressToString (getContractDeployAddress t)))] else []))"

definition resolve_data :: "(string \<Rightarrow> string option) \<Rightarrow> (string \<times> json) list \<Rightarrow> (string \<times> json) list option" where
  "resolve_data read_file o1 =
     (case map_of o1 ''data'' of
        Some (JStr (c # p)) \<Rightarrow>
          (if c = CHR ''@''
           then (case read_file p of None \<Rightarrow> None | Some content \<Rightarrow> Some (AList.update ''data'' (JStr content) o1))
           else Some o1)
      | _ \<Rightarrow> Some o1)"

fun parse_txs_json_loop ::
  "keccak256 \<Rightarrow> (nat \<Rightarrow> u64) \<Rightarrow> (string \<Rightarrow> string option) \<Rightarrow> (Tx \<Rightarrow> bool) option \<Rightarrow> nat \<Rightarrow> json list
     \<Rightarrow> (json list \<times> Tx list) option result" where
  "parse_txs_json_loop keccak clock rf txf i [] = Inr (Some ([], []))"
| "parse_txs_json_loop keccak clock rf txf i (v # vs) =
     bind_result (as_object v) (\<lambda>o0.
       case resolve_data rf (emplace ''timestamp'' (JInt (sint (clock i))) o0) of
         None \<Rightarrow> Inr None
       | Some o1 \<Rightarrow>
           bind_result (Tx_fromJson0 keccak Tx_default o1) (\<lambda>tx.
             bind_result (parse_txs_json_loop keccak clock rf txf (Suc i) vs) (\<lambda>rest.
               Inr (case rest of
                      None \<Rightarrow> None
                    | Some (os, ts) \<Rightarrow>
                        (if txf \<noteq> None \<and> \<not> the txf tx then Some (os, ts)
                         else Some (rpc_reply_json keccak tx # os, tx # ts))))))"

definition parse_txs_json_for_rpc ::
  "keccak256 \<Rightarrow> json_text \<Rightarrow> (nat \<Rightarrow> u64) \<Rightarrow> (string \<Rightarrow> string option) \<Rightarrow> (Tx \<Rightarrow> bool) option \<Rightarrow> json list
     \<Rightarrow> (string \<times> Tx list) option result" where
  "parse_txs_json_for_rpc keccak jt clock rf txf a =
     bind_result (parse_txs_json_loop keccak clock rf txf 0 a)
       (\<lambda>r. Inr (map_option (\<lambda>(os, ts). (json_serialize jt (JArr os), ts)) r))"

definition parse_txs_jsonString_for_rpc ::
  "keccak256 \<Rightarrow> json_text \<Rightarrow> (nat \<Rightarrow> u64) \<Rightarrow> (string \<Rightarrow> string option) \<Rightarrow> (Tx \<Rightarrow> bool) option \<Rightarrow> string
     \<Rightarrow> (string \<times> Tx list) option" where
  "parse_txs_jsonString_for_rpc keccak jt clock rf txf s =
     Option.bind (caught (bind_result (or_error (json_parse jt s)) (\<lambda>v.
       bind_result (as_array v) (parse_txs_json_for_rpc keccak jt clock rf txf)))) id"

section \<open>Lemmas\<close>

lemma to_u64_norm [simp]: "to_u64 (json_norm (JUint u)) = Inr u"
  by simp

lemma caught_Inr [simp]: "caught (Inr x) = Some x" and caught_Inl [simp]: "caught (Inl e) = None"
  by (simp_all add: caught_def)

lemma or_error_Some [simp]: "or_error (Some x) = Inr x" and value_or_throw_Some [simp]: "value_or_throw (Some x) = Inr x"
  by (simp_all add: or_error_def value_or_throw_def)

lemma jat_simps [simp]:
  "jat ((k, v) # kvs) k' = (if k = k' then Inr v else jat kvs k')"
  "jat [] k' = Inl Out_of_range"
  by (simp_all add: jat_def)

lemma json_at_JObj [simp]: "json_at (JObj kvs) k = jat kvs k"
  by (simp add: json_at_def)

lemma from_hex_T_exact: "length bs = n \<Longrightarrow> from_hex_T n (hex bs) = Some bs"
  by (simp add: from_hex_T_hex)

lemma typeFromString_typeToString: "typeFromString (typeToString tp) = Inr tp"
  by (cases tp) (simp_all add: typeFromString_def)

lemma Tx_json_roundtrip:
  assumes "wf_tx t" "from_matches_key keccak t"
  shows "Tx_fromJson keccak Tx_default (json_norm (Tx_toJson keccak t)) = Some t"
proof -
  have len: "length (tx_from t) = 20" "length (tx_to t) = 20"
    using assms(1) by (simp_all add: wf_tx_def wf_address_def)
  have type: "typeFromString ''data'' = Inr Data" "typeFromString ''python'' = Inr Python"
    by (simp_all add: typeFromString_def)
  note defs = Tx_fromJson_def Tx_toJson_def Tx_fromJson0_def opt_hex_field_def Tx_default_def
    addressToString_def Let_def getFromFromPkPem_def from_hex_T_exact type
  show ?thesis
  proof (cases "tx_pk_pem t = []")
    case True
    then show ?thesis
      using len by (cases "tx_type t"; cases "tx_signature t = []"; cases "tx_pk_crt t = []"; cases t)
        (simp_all add: defs del: json_norm.simps(1))
  next
    case False
    then have "tx_from t = take 20 (drop 12 (keccak (bytesFromString (tx_pk_pem t))))"
      using assms(2) by (simp add: from_matches_key_def getFromFromPkPem_def)
    with False show ?thesis
      using len by (cases "tx_type t"; cases "tx_signature t = []"; cases "tx_pk_crt t = []"; cases t)
        (simp_all add: defs del: json_norm.simps(1))
  qed
qed

lemma map_result_map_Inr:
  "(\<And>x. x \<in> set xs \<Longrightarrow> f (g x) = Inr (h x)) \<Longrightarrow> map_result f (map g xs) = Inr (map h xs)"
  by (induction xs) auto

lemma map_result_Inr_comp:
  "(\<And>x. x \<in> set xs \<Longrightarrow> f (n (g x)) = Inr x) \<Longrightarrow> map_result f (map (\<lambda>x. n (g x)) xs) = Inr xs"
  by (induction xs) auto

lemma BlkHeader_json_roundtrip:
  "wf_hash (parentHash b) \<Longrightarrow>
   BlkHeader_fromJson this (JObj (map (\<lambda>(k, v). (k, json_norm v)) (BlkHeader_toJson h b) @ rest)) =
     Some (this\<lparr>number := number b, parentHash := parentHash b\<rparr>)"
  by (simp add: BlkHeader_fromJson_def BlkHeader_toJson_def hashToString_def from_hex_T_exact wf_hash_def
      del: json_norm.simps(1))

lemma BlkHeader_json_other:
  "k \<notin> {''number'', ''hash'', ''parentHash''} \<Longrightarrow>
   jat (map (\<lambda>(k, v). (k, json_norm v)) (BlkHeader_toJson h b) @ rest) k = jat rest k"
  by (auto simp: BlkHeader_toJson_def)

lemma value_to_vector_JArr [simp]: "value_to_vector f (JArr xs) = map_result f xs"
  by (simp add: value_to_vector_def)

lemma Blk_json_roundtrip:
  assumes "\<And>t. t \<in> set (txs b) \<Longrightarrow> wf_tx t \<and> from_matches_key keccak t" "wf_hash (parentHash b)"
    and "jat rest ''txs'' = Inr (JArr (map (\<lambda>t. json_norm (Tx_toJson keccak t)) (txs b)))"
  shows "Blk_fromJson keccak this (JObj (map (\<lambda>(k, v). (k, json_norm v)) (BlkHeader_toJson h b) @ rest)) =
     Some (this\<lparr>number := number b, parentHash := parentHash b, txs := txs b\<rparr>)"
proof -
  have "map_result (from_json_tag_invoke (Tx_fromJson keccak) Tx_default) (map (\<lambda>t. json_norm (Tx_toJson keccak t)) (txs b)) = Inr (txs b)"
    using assms(1) by (intro map_result_Inr_comp) (simp add: from_json_tag_invoke_def Tx_json_roundtrip)
  then show ?thesis
    using assms(2,3) by (simp add: Blk_fromJson_def BlkHeader_json_roundtrip BlkHeader_json_other)
qed

lemma BlkForConsensus_json_roundtrip:
  assumes "wf_hash (parentHash b)" "\<forall>h \<in> set (txhs b). wf_hash h"
  shows "BlkForConsensus_fromJson this (json_norm (BlkForConsensus_toJson keccak b)) = Some b"
proof -
  have "map_result as_string (map (\<lambda>h. JStr (hashToString h)) (txhs b)) = Inr (map hashToString (txhs b))"
    by (rule map_result_map_Inr) simp
  moreover have "map_result (\<lambda>s. value_or_throw (from_hex_T 32 s)) (map hashToString (txhs b)) = Inr (txhs b)"
    using assms(2) by (intro map_result_Inr) (simp add: hashToString_def from_hex_T_exact wf_hash_def)
  ultimately show ?thesis
    using assms(1) by (cases this; cases b)
      (simp add: BlkForConsensus_fromJson_def BlkForConsensus_toJson_def BlkHeader_json_roundtrip BlkHeader_json_other
        o_def del: json_norm.simps(1))
qed

lemma pad32_trim_zeros: "length b = 32 \<Longrightarrow> pad32 (trim_zeros b) = b"
  using dropWhile_replicate_pad [of b 0] by (auto simp: pad32_def trim_zeros_def)

lemma trim_zeros_inject: "length a = 32 \<Longrightarrow> length b = 32 \<Longrightarrow> trim_zeros a = trim_zeros b \<longleftrightarrow> a = b"
  by (metis pad32_trim_zeros)

lemma length_trim_zeros: "length b = 32 \<Longrightarrow> length (trim_zeros b) \<le> 32"
  using length_dropWhile_le [of "\<lambda>x. x = 0" b] by (simp add: trim_zeros_def)

lemma fold_update_fresh:
  "distinct (map fst s @ map (f \<circ> fst) kvs) \<Longrightarrow>
   fold (\<lambda>(k, v) s. AList.update (f k) (g v) s) kvs s = s @ map (\<lambda>(k, v). (f k, g v)) kvs"
proof (induction kvs arbitrary: s)
  case (Cons kv kvs)
  obtain k v where kv: "kv = (k, v)" by (cases kv)
  have "f k \<notin> fst ` set s" using Cons.prems by (auto simp: kv)
  then have "AList.update (f k) (g v) s = s @ [(f k, g v)]" by (induction s) auto
  then show ?case using Cons.IH [of "s @ [(f k, g v)]"] Cons.prems by (simp add: kv)
qed simp

lemma load_json_storage_map:
  "\<lbrakk>distinct (map fst (st @ kvs)); \<forall>(k, v) \<in> set kvs. length k = 32 \<and> length v = 32\<rbrakk> \<Longrightarrow>
   load_json_storage st (map (\<lambda>(k, v). (trim_zeros k, JStr (trim_zeros v))) kvs) = Inr (st @ kvs)"
proof (induction kvs arbitrary: st)
  case (Cons kv kvs)
  obtain k v where kv: "kv = (k, v)" by (cases kv)
  have "k \<notin> fst ` set st" using Cons.prems by (auto simp: kv)
  then have "AList.update k v st = st @ [(k, v)]" by (induction st) auto
  then show ?case
    using Cons.IH [of "st @ [(k, v)]"] Cons.prems length_trim_zeros [of k] length_trim_zeros [of v]
    by (simp add: kv pad32_trim_zeros)
qed simp

lemma Acn_json_roundtrip:
  assumes "wf_acn a"
  shows "Acn_fromJson Acn_default (json_norm (Acn_toJson keccak a)) = Some a"
proof -
  have d: "distinct (map fst (storage a))" and len: "\<forall>(k, v) \<in> set (storage a). length k = 32 \<and> length v = 32"
    using assms by (simp_all add: wf_acn_def)
  have "inj_on trim_zeros (set (map fst (storage a)))"
    using len trim_zeros_inject by (fastforce simp: inj_on_def)
  with d have "distinct (map trim_zeros (map fst (storage a)))" by (subst distinct_map) simp
  then have "fold (\<lambda>(k, v) s. AList.update (trim_zeros k) (JStr (trim_zeros v)) s) (storage a) [] =
      map (\<lambda>(k, v). (trim_zeros k, JStr (trim_zeros v))) (storage a)"
    using fold_update_fresh [of "[]" trim_zeros "storage a" "\<lambda>v. JStr (trim_zeros v)"] by simp
  moreover have "map_result as_string (map JStr ds) = Inr ds" for ds by (rule map_result_Inr) simp
  moreover have "load_json_storage [] (map (\<lambda>(k, v). (trim_zeros k, JStr (trim_zeros v))) (storage a)) = Inr (storage a)"
    using load_json_storage_map [of "[]" "storage a"] d len by simp
  ultimately show ?thesis
    by (cases "disk_storage a = []"; cases a)
      (simp_all add: Acn_fromJson_def Acn_toJson_def Acn_default_def o_def case_prod_unfold del: json_norm.simps(1))
qed

section \<open>Properties\<close>



text \<open>
  The block that nodes pass around during consensus carries the hash of the block it stands for:
  its hash is the hash of the block whose transactions have the listed hashes; and it survives its
  string form, printed and parsed as JSON.
\<close>

theorem blk_for_consensus_hash_and_roundtrip:
  assumes "wf_hash (parentHash b)" "\<forall>h \<in> set (txhs b). wf_hash h"
    and "json_parse jt (json_serialize jt (BlkForConsensus_toJson keccak b)) = Some (json_norm (BlkForConsensus_toJson keccak b))"
  shows "BlkForConsensus_fromString jt this (BlkForConsensus_toString keccak jt b) = Some b \<and>
         (txhs b = map (tx_hash keccak) ts \<longrightarrow>
            BlkForConsensus_hash keccak b = Blk_hash keccak (Blk_ctor (number b) (parentHash b) ts))"
  using BlkForConsensus_json_roundtrip [OF assms(1,2)] assms(3)
  by (simp add: BlkForConsensus_fromString_def BlkForConsensus_toString_def fromJsonString_def toJsonString_def
      BlkForConsensus_hash_def Blk_hash_def Blk_ctor_def)

definition demo_json :: "json \<Rightarrow> json_text" where
  "demo_json v = \<lparr>json_parse = (\<lambda>s. Some (json_norm v)), json_serialize = (\<lambda>_. ''{}'')\<rparr>"

theorem blk_for_consensus_hash_and_roundtrip_witness:
  "(let b = BlkForConsensus_ctor 1 (replicate 32 0) [tx_hash demo_keccak (demo_tx 1)];
        jt = demo_json (BlkForConsensus_toJson demo_keccak b)
    in BlkForConsensus_fromString jt (BlkForConsensus_ctor 0 [] []) (BlkForConsensus_toString demo_keccak jt b) = Some b \<and>
       BlkForConsensus_hash demo_keccak b = Blk_hash demo_keccak (Blk_ctor 1 (replicate 32 0) [demo_tx 1]))"
proof -
  let ?b = "BlkForConsensus_ctor 1 (replicate 32 0) [tx_hash demo_keccak (demo_tx 1)]"
  have "wf_hash (tx_hash demo_keccak (demo_tx 1))" by (simp add: wf_hash_def tx_hash_def demo_keccak_def)
  then show ?thesis
    using blk_for_consensus_hash_and_roundtrip [of ?b "demo_json (BlkForConsensus_toJson demo_keccak ?b)" demo_keccak
        "BlkForConsensus_ctor 0 [] []" "[demo_tx 1]"]
    by (simp add: BlkForConsensus_ctor_def demo_json_def wf_hash_def Let_def)
qed

text \<open>
  A malformed transaction inside the JSON of a block is not an error: \<open>value_to<vector<Tx>>\<close>
  goes through the conversion that returns a default object, so the block parses with a
  transaction from the zero address in that place.
\<close>

theorem malformed_tx_becomes_default:
  assumes "wf_hash p" "Tx_fromJson keccak Tx_default v = None"
  shows "Blk_fromJson keccak this (JObj [(''number'', JUint n), (''parentHash'', JStr (hashToString p)), (''txs'', JArr [v])]) =
     Some (this\<lparr>number := n, parentHash := p, txs := [Tx_default]\<rparr>)"
  using assms by (simp add: Blk_fromJson_def BlkHeader_fromJson_def hashToString_def from_hex_T_exact wf_hash_def
      from_json_tag_invoke_def)

theorem malformed_tx_becomes_default_witness:
  "Blk_fromJson demo_keccak (Blk_ctor 0 [] [])
     (JObj [(''number'', JUint 1), (''parentHash'', JStr (hashToString (replicate 32 0))), (''txs'', JArr [JNull])]) =
   Some ((Blk_ctor 0 [] [])\<lparr>number := 1, parentHash := replicate 32 0, txs := [Tx_default]\<rparr>)"
  by (rule malformed_tx_becomes_default) (simp_all add: wf_hash_def Tx_fromJson_def)

end
