(* ===== verification/TxsWire.thy ===== *)
theory TxsWire
  imports ChainCore
begin

text \<open>
  Batches of transactions on the wire (\<open>Tx::parse_to_array\<close>, \<open>Tx::serialize_from_array\<close>) and the
  protobuf requests of clients (\<open>Tx::parse_txs_pb_for_rpc\<close>), all of \<^verbatim>\<open>include/core0.hpp\<close>.
\<close>

text \<open>
  The codec of \<open>hiPb::Txs\<close>. \<open>ParseFromString\<close> returns a flag and leaves a message behind, also when
  it fails; \<open>parse_to_array\<close> does not look at the flag.
\<close>

record txs_codec =
  SerializeTxs :: "PbTx list \<Rightarrow> string"
  ParseTxs :: "string \<Rightarrow> bool \<times> PbTx list"

definition parse_to_array :: "keccak256 \<Rightarrow> txs_codec \<Rightarrow> string \<Rightarrow> Tx list result" where
  "parse_to_array keccak c arg = map_result (Tx_fromPb keccak Tx_default) (snd (ParseTxs c arg))"

definition serialize_from_array :: "txs_codec \<Rightarrow> Tx list \<Rightarrow> string" where
  "serialize_from_array c ts = SerializeTxs c (map Tx_toPb ts)"

section \<open>Requests\<close>

record PbAddTxReply =
  reply_hash :: string
  reply_deployed_addr :: string

definition pb_is_create :: "Tx \<Rightarrow> bool" where
  "pb_is_create t \<longleftrightarrow> tx_type t \<noteq> Data \<and> tx_to t = replicate 20 0"  \<comment> \<open>\<open>not bool(t.to)\<close>\<close>

definition add_tx_reply :: "keccak256 \<Rightarrow> Tx \<Rightarrow> PbAddTxReply" where
  "add_tx_reply keccak t =
     \<lparr>reply_hash = toString (tx_hash keccak t),
      reply_deployed_addr = (if pb_is_create t then toByteString_address (getContractDeployAddress t) else [])\<rparr>"

text \<open>The clock is read once per transaction; \<open>txf\<close> is the optional verifier.\<close>

fun parse_txs_pb_loop ::
  "keccak256 \<Rightarrow> (nat \<Rightarrow> u64) \<Rightarrow> (Tx \<Rightarrow> bool) option \<Rightarrow> nat \<Rightarrow> PbTx list \<Rightarrow> (PbAddTxReply list \<times> Tx list) result" where
  "parse_txs_pb_loop keccak clock txf i [] = Inr ([], [])"
| "parse_txs_pb_loop keccak clock txf i (pb # pbs) =
     bind_result (Tx_fromPb keccak Tx_default pb) (\<lambda>t0.
       let t = t0\<lparr>tx_timestamp := clock i\<rparr> in
       bind_result (parse_txs_pb_loop keccak clock txf (Suc i) pbs) (\<lambda>(rs, ts).
         if txf \<noteq> None \<and> \<not> the txf t then Inr (rs, ts)
         else Inr (add_tx_reply keccak t # rs, t # ts)))"

definition parse_txs_pb_for_rpc ::
  "keccak256 \<Rightarrow> (PbAddTxReply list \<Rightarrow> string) \<Rightarrow> (nat \<Rightarrow> u64) \<Rightarrow> (Tx \<Rightarrow> bool) option \<Rightarrow> PbTx list
     \<Rightarrow> (string \<times> Tx list) option" where
  "parse_txs_pb_for_rpc keccak ser clock txf pbs =
     (case parse_txs_pb_loop keccak clock txf 0 pbs of
        Inl e \<Rightarrow> None
      | Inr (rs, ts) \<Rightarrow> Some (ser rs, ts))"

definition parse_txs_pbString_for_rpc ::
  "keccak256 \<Rightarrow> txs_codec \<Rightarrow> (PbAddTxReply list \<Rightarrow> string) \<Rightarrow> (nat \<Rightarrow> u64) \<Rightarrow> (Tx \<Rightarrow> bool) option \<Rightarrow> string
     \<Rightarrow> (string \<times> Tx list) option" where
  "parse_txs_pbString_for_rpc keccak c ser clock txf s =
     (let (ok, pbs) = ParseTxs c s in
      if \<not> ok then None else parse_txs_pb_for_rpc keccak ser clock txf pbs)"

section \<open>Lemmas\<close>

lemma parse_serialize_array:
  assumes "ParseTxs c (SerializeTxs c (map Tx_toPb ts)) = (ok, map Tx_toPb ts)"
    and "\<And>t. t \<in> set ts \<Longrightarrow> wf_tx t \<and> from_matches_key keccak t"
  shows "parse_to_array keccak c (serialize_from_array c ts) = Inr ts"
  using assms by (auto simp: parse_to_array_def serialize_from_array_def intro!: map_result_Inr Tx_pb_roundtrip)

lemma map_result_set: "map_result f xs = Inr ys \<Longrightarrow> y \<in> set ys \<Longrightarrow> \<exists>x \<in> set xs. f x = Inr y"
  by (induction xs arbitrary: ys) (auto simp: bind_result_Inr_iff)

text \<open>Whatever bytes arrive, the transactions read from them are well formed and own their sender.\<close>

lemma parse_to_array_wf:
  assumes "parse_to_array keccak c s = Inr ts" "t \<in> set ts" "\<And>x. length (keccak x) = 32"
  shows "wf_tx t \<and> from_matches_key keccak t"
proof -
  obtain pb where "Tx_fromPb keccak Tx_default pb = Inr t"
    using map_result_set assms(1,2) by (fastforce simp: parse_to_array_def)
  then show ?thesis using Tx_fromPb_from_matches_key assms(3) by blast
qed

lemma parse_txs_pb_loop_props:
  "parse_txs_pb_loop keccak clock txf i pbs = Inr (rs, ts) \<Longrightarrow>
   rs = map (add_tx_reply keccak) ts \<and> (\<forall>t \<in> set ts. from_matches_key keccak t \<and> (txf \<noteq> None \<longrightarrow> the txf t))"
proof (induction pbs arbitrary: i rs ts)
  case (Cons pb pbs)
  then obtain t0 rs1 ts1 where t0: "Tx_fromPb keccak Tx_default pb = Inr t0"
    "parse_txs_pb_loop keccak clock txf (Suc i) pbs = Inr (rs1, ts1)"
    by (auto simp: bind_result_Inr_iff Let_def)
  have "from_matches_key keccak (t0\<lparr>tx_timestamp := clock i\<rparr>)"
    using Tx_fromPb_from_matches_key(1) [OF t0(1)] by (simp add: from_matches_key_def getFromFromPkPem_def)
  then show ?case using Cons.prems Cons.IH [OF t0(2)] t0 by (auto simp: Let_def split: if_splits)
qed simp

section \<open>Properties\<close>

text \<open>
  A protobuf request of a client is answered consistently: the reply lists, in order, the hash of
  every transaction that goes on to the consensus (and the address a contract creation will deploy
  to), each of these transactions has the sender of its public key and passed the verifier when
  there is one; a request that does not parse is refused as a whole.
\<close>

theorem rpc_request_reply_consistent:
  assumes "parse_txs_pbString_for_rpc keccak c ser clock txf s = Some (reply, ts)"
  shows "reply = ser (map (add_tx_reply keccak) ts) \<and> fst (ParseTxs c s) \<and>
         (\<forall>t \<in> set ts. from_matches_key keccak t \<and> (txf \<noteq> None \<longrightarrow> the txf t))"
proof -
  obtain pbs rs where "ParseTxs c s = (True, pbs)" "parse_txs_pb_loop keccak clock txf 0 pbs = Inr (rs, ts)" "reply = ser rs"
    using assms by (auto simp: parse_txs_pbString_for_rpc_def parse_txs_pb_for_rpc_def split: prod.splits sum.splits if_splits)
  then show ?thesis using parse_txs_pb_loop_props by fastforce
qed

definition demo_txs_codec :: "PbTx list \<Rightarrow> txs_codec" where
  "demo_txs_codec pbs = \<lparr>SerializeTxs = (\<lambda>_. ''w''), ParseTxs = (\<lambda>s. (s = ''w'', if s = ''w'' then pbs else []))\<rparr>"

theorem rpc_request_reply_consistent_witness:
  "(let c = demo_txs_codec [Tx_toPb (demo_tx 1)]; ts = [demo_tx 1] in
    parse_txs_pbString_for_rpc demo_keccak c (\<lambda>rs. concat (map reply_hash rs)) (\<lambda>_. 7) None ''w'' =
      Some (concat (map reply_hash (map (add_tx_reply demo_keccak) ts)), ts) \<and> fst (ParseTxs c ''w''))"
proof -
  let ?c = "demo_txs_codec [Tx_toPb (demo_tx 1)]"
  have "Tx_fromPb demo_keccak Tx_default (Tx_toPb (demo_tx 1)) = Inr (demo_tx 1)" by (rule Tx_pb_roundtrip) simp_all
  moreover have "(demo_tx 1)\<lparr>tx_timestamp := 7\<rparr> = demo_tx 1" by (simp add: demo_tx_def Tx_ctor_def Tx_default_def)
  ultimately have run: "parse_txs_pbString_for_rpc demo_keccak ?c (\<lambda>rs. concat (map reply_hash rs)) (\<lambda>_. 7) None ''w'' =
      Some (reply_hash (add_tx_reply demo_keccak (demo_tx 1)), [demo_tx 1])"
    by (simp add: parse_txs_pbString_for_rpc_def parse_txs_pb_for_rpc_def demo_txs_codec_def Let_def)
  have "reply_hash (add_tx_reply demo_keccak (demo_tx 1)) = concat (map reply_hash (map (add_tx_reply demo_keccak) [demo_tx 1]))"
    "fst (ParseTxs ?c ''w'')"
    using rpc_request_reply_consistent [OF run] by blast+
  then show ?thesis by (simp only: Let_def run simp_thms)
qed

end
