(* ===== verification/CnsssExe.thy ===== *)
theory CnsssExe
  imports TxPool BlkExec JsonData TxsWire
begin

text \<open>
  The bridge between consensus and chain: \<open>BlkForConsensus::toBlk\<close> (\<^verbatim>\<open>include/cnsss/forCnsss.hpp\<close>), the
  sealer (\<^verbatim>\<open>include/cnsss/sealer.hpp\<close>), and the command executors that the consensus drives
  (\<^verbatim>\<open>include/cnsss/exeForCnsss.hpp\<close>). An executor may rewrite the command it is given; the header of
  \<open>IForConsensusExecutable\<close> makes it responsible that the rewritten command has the same effect on
  the other nodes, and that is what is proved here.
\<close>

section \<open>From hashes to transactions\<close>

fun fetch_txs :: "'p pool_ops \<Rightarrow> 'p \<Rightarrow> hash256 list \<Rightarrow> Tx list option \<times> 'p" where
  "fetch_txs ops p [] = (Some [], p)"
| "fetch_txs ops p (h # hs) =
     (let (r, p1) = op_getTxByHash ops p h in
      case r of
        None \<Rightarrow> (None, p1)
      | Some t \<Rightarrow> (let (rest, p2) = fetch_txs ops p1 hs in (map_option (Cons t) rest, p2)))"

definition toBlk :: "'p pool_ops \<Rightarrow> 'p \<Rightarrow> BlkForConsensus \<Rightarrow> Blk option \<times> 'p" where
  "toBlk ops p b =
     (let (ts, p') = fetch_txs ops p (txhs b)
      in (map_option (Blk_ctor (number b) (parentHash b)) ts, p'))"

section \<open>Sealer\<close>

record Sealer =
  running :: bool
  sl_previous_hash :: hash256
  sl_next_blk_number :: u64
  wait_s :: int

text \<open>The initialiser of \<open>wait_s\<close> is the constant 2; the parameter \<open>s\<close> is not used.\<close>

definition Sealer_ctor :: "u64 \<Rightarrow> hash256 \<Rightarrow> int \<Rightarrow> Sealer" where
  "Sealer_ctor n h s = \<lparr>running = True, sl_previous_hash = h, sl_next_blk_number = n, wait_s = 2\<rparr>"

text \<open>The block handed to \<open>postBlk\<close>, if any, and the sealer afterwards. The result of \<open>postBlk\<close> is not used.\<close>

definition check_and_seal_maybe :: "keccak256 \<Rightarrow> hash256 list \<Rightarrow> Sealer \<Rightarrow> BlkForConsensus option \<times> Sealer" where
  "check_and_seal_maybe keccak hs s =
     (if hs = [] then (None, s)
      else (let b = BlkForConsensus_ctor (sl_next_blk_number s) (sl_previous_hash s) hs
            in (Some b, s\<lparr>sl_next_blk_number := sl_next_blk_number s + 1,
                          sl_previous_hash := BlkForConsensus_hash keccak b\<rparr>)))"

text \<open>
  The loop of the sealing thread, over what it observes in each round: whether the node is primary
  and which hashes the pool offers.
\<close>

fun Sealer_run :: "keccak256 \<Rightarrow> (bool \<times> hash256 list) list \<Rightarrow> Sealer \<Rightarrow> BlkForConsensus list \<times> Sealer" where
  "Sealer_run keccak [] s = ([], s)"
| "Sealer_run keccak ((isPrimary, hs) # rounds) s =
     (if \<not> running s then ([], s)
      else (let (r, s1) = (if isPrimary then check_and_seal_maybe keccak hs s else (None, s));
                (bs, s2) = Sealer_run keccak rounds s1
            in ((case r of None \<Rightarrow> bs | Some b \<Rightarrow> b # bs), s2)))"

definition Sealer_dtor :: "Sealer \<Rightarrow> Sealer" where
  "Sealer_dtor s = s\<lparr>running := False\<rparr>"

section \<open>ExecutorForCnsss\<close>

text \<open>What an executor is constructed from, and the two stores it changes.\<close>

record ('w, 'p) exe_env =
  env_keccak :: keccak256
  env_world :: "'w world_ops"
  env_pool :: "'p pool_ops"
  env_codecs :: chain_codecs
  env_blk_codec :: "PbBlk pb_codec"
  env_txs_codec :: txs_codec
  env_json :: json_text
  env_executeTx :: tx_executor
  env_verifier :: "(Tx \<Rightarrow> bool) option"
  env_what :: "exn \<Rightarrow> string"  \<comment> \<open>\<open>std::exception::what()\<close>\<close>

record ('w, 'p) exe_state =
  exe_world :: 'w
  exe_pool :: 'p

definition EXECUTE_BLK :: char where "EXECUTE_BLK = CHR ''b''"

definition ADD_TXS :: char where "ADD_TXS = CHR ''t''"

text \<open>A handler returns its answer, the command it leaves behind, and the new state.\<close>

definition clear_cmd_and_complain :: "string \<Rightarrow> string \<times> string" where
  "clear_cmd_and_complain reason = (reason, [])"

definition execute_Blk ::
  "('w, 'p) exe_env \<Rightarrow> ('w, 'p, 'z) exe_state_scheme \<Rightarrow> Blk \<Rightarrow> (bool \<times> ('w, 'p, 'z) exe_state_scheme) result" where
  "execute_Blk env st b =
     bind_result (executeBlk (env_executeTx env) (getAcn (env_world env) (exe_world st)) (env_verifier env) b) (\<lambda>eb.
     bind_result (commitBlk (env_world env) (env_codecs env) (env_keccak env) (exe_world st) eb) (\<lambda>(ok, w).
       Inr (ok, st\<lparr>exe_world := w\<rparr>)))"

definition handle_EXECUTE_BLK ::
  "('w, 'p) exe_env \<Rightarrow> ('w, 'p) exe_state \<Rightarrow> string \<Rightarrow> ((string \<times> string) \<times> ('w, 'p) exe_state) result" where
  "handle_EXECUTE_BLK env st cmd =
     (let arg = drop 1 cmd in
      case BlkForConsensus_fromString (env_json env) (BlkForConsensus_ctor 0 (replicate 32 0) []) arg of
        None \<Rightarrow> Inr (clear_cmd_and_complain ''Error parsing BlkForConsensus'', st)
      | Some b \<Rightarrow>
          (let (r, p) = toBlk (env_pool env) (exe_pool st) b; st1 = st\<lparr>exe_pool := p\<rparr> in
           case r of
             None \<Rightarrow> Inr (clear_cmd_and_complain ''Failed to turn BlkForConsensus into Blk'', st1)
           | Some blk \<Rightarrow>
               bind_result (execute_Blk env st1 blk) (\<lambda>(ok, st2).
                 if \<not> ok then Inr (clear_cmd_and_complain ''Error committing Blk'', st2)
                 else Inr ((''OK'', cmd), st2))))"

text \<open>The loop that adds the transactions one by one and erases those the pool refuses.\<close>

fun add_txs :: "'p pool_ops \<Rightarrow> 'p \<Rightarrow> Tx list \<Rightarrow> Tx list \<times> 'p" where
  "add_txs ops p [] = ([], p)"
| "add_txs ops p (t # ts) =
     (let (ok, p1) = op_addTx ops p t; (kept, p2) = add_txs ops p1 ts
      in (if ok then t # kept else kept, p2))"

definition handle_ADD_TXS ::
  "('w, 'p) exe_env \<Rightarrow> ('w, 'p) exe_state \<Rightarrow> string \<Rightarrow> ((string \<times> string) \<times> ('w, 'p) exe_state) result" where
  "handle_ADD_TXS env st cmd =
     (let arg = drop 1 cmd in
      case parse_to_array (env_keccak env) (env_txs_codec env) arg of
        Inl e \<Rightarrow> Inr (clear_cmd_and_complain ''Error parsing Txs'', st)
      | Inr ts \<Rightarrow>
          (let (kept, p) = add_txs (env_pool env) (exe_pool st) ts; st1 = st\<lparr>exe_pool := p\<rparr> in
           if kept = [] then Inr (clear_cmd_and_complain ''All txs rejected'', st1)
           else if length kept < length ts then
             Inr ((''OK'', ADD_TXS # serialize_from_array (env_txs_codec env) kept), st1)
           else Inr ((''OK'', cmd), st1)))"

definition execute_cmd ::
  "('w, 'p) exe_env \<Rightarrow> ('w, 'p) exe_state \<Rightarrow> string \<Rightarrow> ((string \<times> string) \<times> ('w, 'p) exe_state) result" where
  "execute_cmd env st cmd =
     (case cmd of
        [] \<Rightarrow> Inr (([], []), st)
      | c # _ \<Rightarrow>
          (if c = EXECUTE_BLK then handle_EXECUTE_BLK env st cmd
           else if c = ADD_TXS then handle_ADD_TXS env st cmd
           else Inr (clear_cmd_and_complain
             (''Unknown Command Prefix ['' @ [c] @ ''], valid values are: ['' @ [EXECUTE_BLK] @ ''], ['' @ [ADD_TXS] @ '']''), st)))"

section \<open>LightExecutorForCnsss\<close>

record ('w, 'p) light_state = "('w, 'p) exe_state" +
  next_blk_number :: u64
  previous_hash :: hash256
  optimization_level :: int

definition LightExecutorForCnsss_ctor :: "'w \<Rightarrow> 'p \<Rightarrow> int \<Rightarrow> u64 \<Rightarrow> hash256 \<Rightarrow> ('w, 'p) light_state" where
  "LightExecutorForCnsss_ctor w p opt n h =
     \<lparr>exe_world = w, exe_pool = p, next_blk_number = n, previous_hash = h, optimization_level = opt\<rparr>"

definition light_wash :: "('w, 'p) exe_env \<Rightarrow> ('w, 'p) light_state \<Rightarrow> Tx list \<Rightarrow> Tx list \<times> ('w, 'p) light_state" where
  "light_wash env st ts =
     (if optimization_level st < 2
      then (let (ts', p) = op_washTxs (env_pool env) (exe_pool st) ts in (ts', st\<lparr>exe_pool := p\<rparr>))
      else (ts, st))"

definition light_handle_EXECUTE_BLK ::
  "('w, 'p) exe_env \<Rightarrow> ('w, 'p) light_state \<Rightarrow> string \<Rightarrow> ((string \<times> string) \<times> ('w, 'p) light_state) result" where
  "light_handle_EXECUTE_BLK env st cmd =
     (let arg = drop 1 cmd in
      case fromPbString (env_blk_codec env) (Blk_fromPb (env_keccak env) (Blk_ctor 0 (replicate 32 0) [])) arg of
        None \<Rightarrow> Inr (clear_cmd_and_complain ''Error parsing Blk'', st)
      | Some b \<Rightarrow>
          (let (ts, st1) = light_wash env st (txs b) in
           bind_result (execute_Blk env st1 (b\<lparr>txs := ts\<rparr>)) (\<lambda>(ok, st2).
             if \<not> ok then Inr (clear_cmd_and_complain ''Error committing Blk'', st2)
             else Inr ((''OK'', cmd), st2))))"

definition seal_Blk_and_update_cmd ::
  "('w, 'p) exe_env \<Rightarrow> ('w, 'p) light_state \<Rightarrow> Tx list \<Rightarrow> string \<Rightarrow> ((string \<times> string) \<times> ('w, 'p) light_state) result" where
  "seal_Blk_and_update_cmd env st ts0 cmd =
     (let (ts, st1) = light_wash env st ts0;
          b = Blk_ctor (next_blk_number st1) (previous_hash st1) ts;
          h1 = Blk_hash (env_keccak env) b;
          cmd1 = EXECUTE_BLK # toPbString (env_blk_codec env) Blk_toPb b
      in bind_result (execute_Blk env st1 b) (\<lambda>(ok, st2).
           if \<not> ok then Inr (clear_cmd_and_complain ''Error committing Blk'', st2)
           else Inr ((''OK'', cmd1), st2\<lparr>next_blk_number := next_blk_number st2 + 1, previous_hash := h1\<rparr>)))"

definition light_handle_ADD_TXS ::
  "('w, 'p) exe_env \<Rightarrow> ('w, 'p) light_state \<Rightarrow> string \<Rightarrow> ((string \<times> string) \<times> ('w, 'p) light_state) result" where
  "light_handle_ADD_TXS env st cmd =
     (let arg = drop 1 cmd in
      case parse_to_array (env_keccak env) (env_txs_codec env) arg of
        Inl e \<Rightarrow> Inr (clear_cmd_and_complain (''Error parsing Txs'' @ env_what env e), st)
      | Inr ts \<Rightarrow>
          (if ts = [] then Inr (clear_cmd_and_complain (''Error parsing Txs'' @ env_what env Runtime_error), st)
           else seal_Blk_and_update_cmd env st ts cmd))"

definition light_execute_cmd ::
  "('w, 'p) exe_env \<Rightarrow> ('w, 'p) light_state \<Rightarrow> string \<Rightarrow> ((string \<times> string) \<times> ('w, 'p) light_state) result" where
  "light_execute_cmd env st cmd =
     (case cmd of
        [] \<Rightarrow> Inr (([], []), st)
      | c # _ \<Rightarrow>
          (if c = EXECUTE_BLK then light_handle_EXECUTE_BLK env st cmd
           else if c = ADD_TXS then light_handle_ADD_TXS env st cmd
           else Inr (clear_cmd_and_complain
             (''Unknown Command Prefix ['' @ [c] @ ''], valid values are: ['' @ [EXECUTE_BLK] @ ''], ['' @ [ADD_TXS] @ '']''), st)))"

section \<open>CnsssBlkChainAsstn\<close>

text \<open>
  The commands that clients and the sealer give to the consensus. \<open>handle_execute\<close> of the
  consensus is the function argument; an answer counts as accepted when there is one.
\<close>

definition addTxs :: "txs_codec \<Rightarrow> (string \<Rightarrow> string \<Rightarrow> string option) \<Rightarrow> Tx list \<Rightarrow> bool" where
  "addTxs c handle_execute ts \<longleftrightarrow> handle_execute ''CLIENT'' (ADD_TXS # serialize_from_array c ts) \<noteq> None"

definition postBlk :: "keccak256 \<Rightarrow> json_text \<Rightarrow> (string \<Rightarrow> string \<Rightarrow> string option) \<Rightarrow> BlkForConsensus \<Rightarrow> bool" where
  "postBlk keccak jt handle_execute b \<longleftrightarrow>
     handle_execute ''SEALER'' (EXECUTE_BLK # BlkForConsensus_toString keccak jt b) \<noteq> None"

section \<open>Lemmas for any pool\<close>

context tx_pool
begin

lemma add_txs_law:
  assumes "invar p" "add_txs ops p ts = (kept, p')"
  shows "invar p'" "add_txs ops p kept = (kept, p')" "set kept \<subseteq> set ts" "length kept \<le> length ts"
    "distinct (map hash kept)" "seen p' = seen p \<union> hash ` set ts"
proof -
  have "invar p' \<and> add_txs ops p kept = (kept, p') \<and> set kept \<subseteq> set ts \<and> length kept \<le> length ts \<and>
    distinct (map hash kept) \<and> hash ` set kept \<inter> seen p = {} \<and> seen p' = seen p \<union> hash ` set ts"
    using assms
  proof (induction ts arbitrary: p kept)
    case (Cons t ts)
    obtain ok p1 where add: "op_addTx ops p t = (ok, p1)" by (cases "op_addTx ops p t")
    obtain kept1 where rest: "add_txs ops p1 ts = (kept1, p')" "kept = (if ok then t # kept1 else kept1)"
      using Cons.prems add by (auto split: prod.splits)
    note law = add_law [OF Cons.prems(1) add]
    have IH: "invar p'" "add_txs ops p1 kept1 = (kept1, p')" "set kept1 \<subseteq> set ts" "length kept1 \<le> length ts"
      "distinct (map hash kept1)" "hash ` set kept1 \<inter> seen p1 = {}" "seen p' = seen p1 \<union> hash ` set ts"
      using Cons.IH [OF _ rest(1)] law by blast+
    show ?case
    proof (cases ok)
      case True
      then have "seen p1 = insert (hash t) (seen p)" using law by blast
      moreover have "hash t \<notin> seen p" using law True by blast
      ultimately show ?thesis using IH rest(2) True add by auto
    next
      case False
      then have "p1 = p" "hash t \<in> seen p" using law by blast+
      then show ?thesis using IH rest(2) False by auto
    qed
  qed simp
  then show "invar p'" "add_txs ops p kept = (kept, p')" "set kept \<subseteq> set ts" "length kept \<le> length ts"
    "distinct (map hash kept)" "seen p' = seen p \<union> hash ` set ts" by blast+
qed

text \<open>A washed batch is left as it is by another wash from the same state.\<close>

lemma fetch_fails:
  assumes "invar p" "fetch_txs ops p (map hash ts @ h # hs) = (r, p')" "set ts \<subseteq> pending p" "distinct (map hash ts)"
    and "h \<notin> hash ` pending p"
  shows "r = None \<and> invar p' \<and> pending p' = pending p - set ts \<and> seen p' = seen p"
  using assms
proof (induction ts arbitrary: p r)
  case Nil
  then show ?case using get_law [OF Nil(1), of h] by (cases "op_getTxByHash ops p h") (auto split: option.splits)
next
  case (Cons t ts)
  obtain r1 p1 where get: "op_getTxByHash ops p (hash t) = (r1, p1)" by (cases "op_getTxByHash ops p (hash t)")
  have t: "t \<in> pending p" using Cons.prems by simp
  then obtain u where u: "r1 = Some u" "u \<in> pending p" "hash u = hash t" "pending p1 = pending p - {u}" "invar p1" "seen p1 = seen p"
    using get_law [OF Cons.prems(1) get] by (auto split: option.splits)
  have ut: "u = t" using pending_inj [OF Cons.prems(1)] t u(2,3) by (auto dest: inj_onD)
  obtain r2 where r2: "fetch_txs ops p1 (map hash ts @ h # hs) = (r2, p')" "r = map_option (Cons t) r2"
    using Cons.prems(2) get u(1) ut by (auto split: prod.splits)
  have "set ts \<subseteq> pending p1" using Cons.prems(3,4) u(4) ut by auto
  then show ?case using Cons.IH [OF u(5) r2(1)] Cons.prems u ut r2(2) by auto
qed

end

section \<open>Lemmas for the mempool\<close>

lemma fetch_prefix:
  "fetch_txs (Mempool_ops keccak) (p\<lparr>pool_txs := ts @ rest\<rparr>) (map (tx_hash keccak) ts) = (Some ts, p\<lparr>pool_txs := rest\<rparr>)"
  by (induction ts) (simp_all add: Mempool_ops_def getTxByHash_def)

lemma washed_again:
  assumes "washTxs keccak p ts = (ts', p')"
  shows "washTxs keccak p ts' = (ts', p')"
proof -
  obtain hs' where w: "wash keccak (pool_hs p) ts = (ts', hs')" "p' = p\<lparr>pool_hs := hs'\<rparr>"
    using assms by (auto simp: washTxs_def split: prod.splits)
  have hs': "hs' = pool_hs p \<union> tx_hash keccak ` set ts" "distinct (map (tx_hash keccak) ts')"
    "tx_hash keccak ` set ts' = tx_hash keccak ` set ts - pool_hs p"
    using wash_props [OF w(1)] by blast+
  have "wash keccak (pool_hs p) ts' = (ts', pool_hs p \<union> tx_hash keccak ` set ts')"
    using hs'(2,3) by (intro wash_fresh) auto
  moreover have "pool_hs p \<union> tx_hash keccak ` set ts' = hs'" using hs'(1,3) by blast
  ultimately show ?thesis using w by (simp add: washTxs_def)
qed

lemma washTxs_subset: "washTxs keccak p ts = (ts', p') \<Longrightarrow> set ts' \<subseteq> set ts"
proof -
  have "wash keccak hs ts = (us, hs') \<Longrightarrow> set us \<subseteq> set ts" for hs us hs'
    by (induction ts arbitrary: hs us hs') (fastforce split: if_splits prod.splits)+
  then show "washTxs keccak p ts = (ts', p') \<Longrightarrow> set ts' \<subseteq> set ts"
    by (auto simp: washTxs_def split: prod.splits)
qed

lemma light_wash_again:
  assumes "env_pool env = Mempool_ops (env_keccak env)" "light_wash env st ts0 = (ts, st1)"
    and "exe_pool f = exe_pool st" "optimization_level f = optimization_level st"
  shows "set ts \<subseteq> set ts0 \<and> light_wash env f ts = (ts, f\<lparr>exe_pool := exe_pool st1\<rparr>)"
proof (cases "optimization_level st < 2")
  case True
  obtain p where w: "washTxs (env_keccak env) (exe_pool st) ts0 = (ts, p)" "st1 = st\<lparr>exe_pool := p\<rparr>"
    using assms(1,2) True by (auto simp: light_wash_def Mempool_ops_def split: prod.splits)
  show ?thesis
    using washTxs_subset [OF w(1)] washed_again [OF w(1)] True assms w(2) by (simp add: light_wash_def Mempool_ops_def)
next
  case False
  then show ?thesis using assms by (auto simp: light_wash_def)
qed

section \<open>Properties\<close>

text \<open>
  C28. The sealer makes a chain: over any sequence of rounds, the blocks it posts are numbered
  consecutively from its next number (modulo \<open>2^64\<close>), each names the hash of the one before it as
  parent and the first names the hash it was started with, and no posted block is empty.
\<close>

theorem sealer_makes_a_chain:
  assumes "Sealer_run keccak rounds s = (bs, s')"
  shows "(\<forall>i < length bs. number (bs ! i) = sl_next_blk_number s + of_nat i \<and> txhs (bs ! i) \<noteq> [] \<and>
            parentHash (bs ! i) = (if i = 0 then sl_previous_hash s else BlkForConsensus_hash keccak (bs ! (i - 1)))) \<and>
         sl_next_blk_number s' = sl_next_blk_number s + of_nat (length bs) \<and>
         sl_previous_hash s' = (if bs = [] then sl_previous_hash s else BlkForConsensus_hash keccak (last bs))"
  using assms
proof (induction rounds arbitrary: s bs)
  case (Cons r rounds)
  obtain isPrimary hs where r: "r = (isPrimary, hs)" by (cases r)
  show ?case
  proof (cases "running s \<and> isPrimary \<and> hs \<noteq> []")
    case True
    define b where "b = BlkForConsensus_ctor (sl_next_blk_number s) (sl_previous_hash s) hs"
    define s1 where "s1 = s\<lparr>sl_next_blk_number := sl_next_blk_number s + 1, sl_previous_hash := BlkForConsensus_hash keccak b\<rparr>"
    have seal: "check_and_seal_maybe keccak hs s = (Some b, s1)"
      using True by (simp add: check_and_seal_maybe_def Let_def b_def s1_def)
    obtain bs1 where bs1: "Sealer_run keccak rounds s1 = (bs1, s')" "bs = b # bs1"
      using Cons.prems True by (auto simp: seal r split: prod.splits)
    note IH = Cons.IH [OF bs1(1)]
    have "number (bs ! i) = sl_next_blk_number s + of_nat i \<and> txhs (bs ! i) \<noteq> [] \<and>
        parentHash (bs ! i) = (if i = 0 then sl_previous_hash s else BlkForConsensus_hash keccak (bs ! (i - 1)))"
      if "i < length bs" for i
    proof (cases i)
      case 0
      then show ?thesis using bs1(2) True by (simp add: b_def BlkForConsensus_ctor_def)
    next
      case (Suc j)
      then show ?thesis using that IH bs1(2) by (cases j) (auto simp: s1_def)
    qed
    then show ?thesis using IH bs1(2) by (simp add: s1_def)
  next
    case False
    have "Sealer_run keccak rounds s = (bs, s') \<or> (bs = [] \<and> s' = s)"
      using False Cons.prems by (auto simp: r check_and_seal_maybe_def split: prod.splits if_splits)
    then show ?thesis using Cons.IH by auto
  qed
qed simp

theorem sealer_makes_a_chain_witness:
  "(let s = Sealer_ctor 5 (replicate 32 0) 1; h = replicate 32 1;
        b1 = BlkForConsensus_ctor 5 (replicate 32 0) [h];
        b2 = BlkForConsensus_ctor 6 (BlkForConsensus_hash demo_keccak b1) [h, h];
        r = Sealer_run demo_keccak [(True, [h]), (False, [h]), (True, []), (True, [h, h])] s
    in fst r = [b1, b2] \<and> sl_next_blk_number (snd r) = 7 \<and> sl_previous_hash (snd r) = BlkForConsensus_hash demo_keccak b2)"
proof -
  define h :: hash256 where "h = replicate 32 1"
  define s where "s = Sealer_ctor 5 (replicate 32 0) 1"
  define b1 where "b1 = BlkForConsensus_ctor 5 (replicate 32 0) [h]"
  define b2 where "b2 = BlkForConsensus_ctor 6 (BlkForConsensus_hash demo_keccak b1) [h, h]"
  obtain s' where run: "Sealer_run demo_keccak [(True, [h]), (False, [h]), (True, []), (True, [h, h])] s = ([b1, b2], s')"
    by (simp add: check_and_seal_maybe_def s_def b1_def b2_def Sealer_ctor_def Let_def)
  have s: "sl_next_blk_number s = 5" by (simp add: s_def Sealer_ctor_def)
  show ?thesis
    using sealer_makes_a_chain [OF run] unfolding Let_def h_def [symmetric] s_def [symmetric] b1_def [symmetric] b2_def [symmetric]
    by (simp add: run s del: Sealer_run.simps)
qed

text \<open>
  A block sealed from a pool can be executed from it: turning the sealed hashes back into
  transactions succeeds, gives exactly the first \<open>max_txs_per_batch\<close> pending transactions in the
  pool's order, removes exactly those, and the hash the sealer goes on with is the hash of that
  block.
\<close>

theorem sealed_block_executable:
  assumes "check_and_seal_maybe keccak (getTxHashesForSeal keccak p) s = (Some b, s')"
  shows "let ts = take (nat (max_txs_per_batch p)) (pool_txs p);
             blk = Blk_ctor (sl_next_blk_number s) (sl_previous_hash s) ts
         in toBlk (Mempool_ops keccak) p b =
              (Some blk, p\<lparr>pool_txs := drop (nat (max_txs_per_batch p)) (pool_txs p)\<rparr>) \<and>
            sl_previous_hash s' = Blk_hash keccak blk \<and> ts \<noteq> []"
proof -
  define ts where "ts = take (nat (max_txs_per_batch p)) (pool_txs p)"
  have b: "b = BlkForConsensus_ctor (sl_next_blk_number s) (sl_previous_hash s) (map (tx_hash keccak) ts)" "ts \<noteq> []"
    "sl_previous_hash s' = BlkForConsensus_hash keccak b"
    using assms by (auto simp: check_and_seal_maybe_def getTxHashesForSeal_def Let_def ts_def split: if_splits)
  have "fetch_txs (Mempool_ops keccak) p (map (tx_hash keccak) ts) =
      (Some ts, p\<lparr>pool_txs := drop (nat (max_txs_per_batch p)) (pool_txs p)\<rparr>)"
    using fetch_prefix [where p = p and keccak = keccak and ts = ts and rest = "drop (nat (max_txs_per_batch p)) (pool_txs p)"] by (simp add: ts_def)
  then show ?thesis
    using b by (simp add: toBlk_def BlkForConsensus_ctor_def BlkForConsensus_hash_def Blk_hash_def Blk_ctor_def ts_def)
qed

theorem sealed_block_executable_witness:
  "let p = snd (addTx demo_keccak (Mempool_ctor {} 2) (demo_tx 1)); s = Sealer_ctor 5 (replicate 32 0) 1;
       b = BlkForConsensus_ctor 5 (replicate 32 0) [tx_hash demo_keccak (demo_tx 1)]
   in check_and_seal_maybe demo_keccak (getTxHashesForSeal demo_keccak p) s =
        (Some b, s\<lparr>sl_next_blk_number := 6, sl_previous_hash := BlkForConsensus_hash demo_keccak b\<rparr>) \<and>
      fst (toBlk (Mempool_ops demo_keccak) p b) = Some (Blk_ctor 5 (replicate 32 0) [demo_tx 1])"
proof -
  let ?p = "snd (addTx demo_keccak (Mempool_ctor {} 2) (demo_tx 1))" and ?s = "Sealer_ctor 5 (replicate 32 0) 1"
  let ?b = "BlkForConsensus_ctor 5 (replicate 32 0) [tx_hash demo_keccak (demo_tx 1)]"
  have p: "pool_txs ?p = [demo_tx 1]" "max_txs_per_batch ?p = 2"
    by (simp_all add: addTx_def Mempool_ctor_def Tx_set_insert_def)
  have "check_and_seal_maybe demo_keccak (getTxHashesForSeal demo_keccak ?p) ?s =
      (Some ?b, ?s\<lparr>sl_next_blk_number := 6, sl_previous_hash := BlkForConsensus_hash demo_keccak ?b\<rparr>)"
    by (simp add: check_and_seal_maybe_def getTxHashesForSeal_def p Sealer_ctor_def Let_def)
  moreover note sealed_block_executable [OF this]
  moreover have "sl_next_blk_number ?s = 5" "sl_previous_hash ?s = replicate 32 0" by (simp_all add: Sealer_ctor_def)
  ultimately show ?thesis by (simp add: Let_def p)
qed

text \<open>
  C34. The command that the primary's executor passes on has the same effect on the other nodes: when
  \<open>ADD_TXS\<close> answers OK on the primary, leaving a pool and a possibly rewritten command, then
  executing that command on a node whose pool is in the state the primary started from also answers
  OK, leaves the same pool, touches no world, and rewrites nothing further.
\<close>

theorem add_txs_rewrite_same_effect:
  assumes "env_pool env = Mempool_ops (env_keccak env)" "pool_ok (env_keccak env) (exe_pool st)"
    and "\<And>x. length (env_keccak env x) = 32"
    and "parse_to_array (env_keccak env) (env_txs_codec env) arg = Inr parsed"
    and "\<And>ts. set ts \<subseteq> set parsed \<Longrightarrow>
      ParseTxs (env_txs_codec env) (SerializeTxs (env_txs_codec env) (map Tx_toPb ts)) = (True, map Tx_toPb ts)"
    and "execute_cmd env st (ADD_TXS # arg) = Inr ((''OK'', cmd'), st')"
    and "exe_pool replica = exe_pool st"
  shows "execute_cmd env replica cmd' = Inr ((''OK'', cmd'), replica\<lparr>exe_pool := exe_pool st'\<rparr>) \<and>
         exe_world st' = exe_world st \<and> hd cmd' = ADD_TXS"
proof -
  let ?k = "env_keccak env"
  have neq: "ADD_TXS \<noteq> EXECUTE_BLK" by (simp add: ADD_TXS_def EXECUTE_BLK_def)
  have run: "handle_ADD_TXS env st (ADD_TXS # arg) = Inr ((''OK'', cmd'), st')"
    using assms(6) neq by (simp add: execute_cmd_def)
  then obtain ts kept p where ts: "parse_to_array ?k (env_txs_codec env) arg = Inr ts"
    "add_txs (env_pool env) (exe_pool st) ts = (kept, p)" "kept \<noteq> []" "st' = st\<lparr>exe_pool := p\<rparr>"
    "cmd' = (if length kept < length ts then ADD_TXS # serialize_from_array (env_txs_codec env) kept else ADD_TXS # arg)"
    by (auto simp: handle_ADD_TXS_def clear_cmd_and_complain_def Let_def split: sum.splits prod.splits if_splits)
  have law: "add_txs (env_pool env) (exe_pool st) kept = (kept, p)" "set kept \<subseteq> set ts"
    using mempool.add_txs_law [OF assms(2), of ts kept p] ts(2) unfolding assms(1) by blast+
  have "wf_tx t \<and> from_matches_key ?k t" if "t \<in> set kept" for t
    using parse_to_array_wf [OF ts(1) _ assms(3)] that law(2) by blast
  then have parse: "parse_to_array ?k (env_txs_codec env) (serialize_from_array (env_txs_codec env) kept) = Inr kept"
    using law(2) ts(1) assms(4) by (intro parse_serialize_array [OF assms(5)]) auto
  have "handle_ADD_TXS env replica cmd' = Inr ((''OK'', cmd'), replica\<lparr>exe_pool := p\<rparr>)"
  proof (cases "length kept < length ts")
    case True
    then show ?thesis using ts(3,5) law(1) parse assms(7) by (simp add: handle_ADD_TXS_def)
  next
    case False
    then show ?thesis using ts assms(7) by (simp add: handle_ADD_TXS_def)
  qed
  moreover have "hd cmd' = ADD_TXS \<and> cmd' \<noteq> []" using ts(5) by simp
  ultimately show ?thesis using ts(4) neq by (cases cmd') (simp_all add: execute_cmd_def)
qed

text \<open>Codecs for batches and blocks of the sample transactions: one character, the nonce, for each.\<close>

definition demo_batch_codec :: txs_codec where
  "demo_batch_codec =
     \<lparr>SerializeTxs = map (\<lambda>pb. char_of (unat (pb_nonce pb))),
      ParseTxs = (\<lambda>s. (True, map (\<lambda>c. Tx_toPb (demo_tx (of_nat (of_char c)))) s))\<rparr>"

definition demo_blk_codec :: "PbBlk pb_codec" where
  "demo_blk_codec =
     \<lparr>SerializeAsString = (\<lambda>pb. map (\<lambda>t. char_of (unat (pb_nonce t))) (pb_txs pb)),
      ParseFromString = (\<lambda>s. Some (Blk_toPb (Blk_ctor 1 (replicate 32 0) (map (\<lambda>c. demo_tx (of_nat (of_char c))) s))))\<rparr>"

definition demo_env :: "(InRamWorldStorage, Mempool) exe_env" where
  "demo_env = \<lparr>env_keccak = demo_keccak, env_world = InRam_ops (demo_codec (Acn_toPb Acn_default)),
     env_pool = Mempool_ops demo_keccak, env_codecs = demo_codecs, env_blk_codec = demo_blk_codec,
     env_txs_codec = demo_batch_codec, env_json = demo_json JNull, env_executeTx = demo_executor,
     env_verifier = None, env_what = (\<lambda>_. [])\<rparr>"

lemma char_of_1 [simp]: "char_of (Suc 0) = CHR 0x01"
  by code_simp

lemma demo_tx_nonce [simp]: "tx_nonce (demo_tx n) = n"
  by (simp add: demo_tx_def Tx_ctor_def)

lemma pb_nonce_Tx_toPb [simp]: "pb_nonce (Tx_toPb t) = tx_nonce t"
  by (simp add: Tx_toPb_def)

lemma only_demo_tx: "set ts \<subseteq> {demo_tx 1} \<Longrightarrow> ts = replicate (length ts) (demo_tx 1)"
  by (intro replicate_eqI) auto

lemma demo_batch_codec_ok:
  assumes "set ts \<subseteq> {demo_tx 1}"
  shows "ParseTxs demo_batch_codec (SerializeTxs demo_batch_codec (map Tx_toPb ts)) = (True, map Tx_toPb ts)"
  by (subst (1 2) only_demo_tx [OF assms]) (simp add: demo_batch_codec_def)

lemma demo_blk_codec_replicate:
  "ParseFromString demo_blk_codec (SerializeAsString demo_blk_codec (Blk_toPb (Blk_ctor 1 (replicate 32 0) (replicate n (demo_tx 1))))) =
   Some (Blk_toPb (Blk_ctor 1 (replicate 32 0) (replicate n (demo_tx 1))))"
  by (simp add: demo_blk_codec_def Blk_toPb_def Blk_ctor_def)

lemma demo_blk_codec_ok:
  assumes "set (txs b) \<subseteq> {demo_tx 1}" "number b = 1" "parentHash b = replicate 32 0"
  shows "ParseFromString demo_blk_codec (SerializeAsString demo_blk_codec (Blk_toPb b)) = Some (Blk_toPb (b :: Blk))"
proof -
  have "b = Blk_ctor 1 (replicate 32 0) (replicate (length (txs b)) (demo_tx 1))"
    using only_demo_tx [OF assms(1)] assms(2,3) by (cases b) (simp add: Blk_ctor_def)
  then show ?thesis by (metis (no_types, lifting) demo_blk_codec_replicate)
qed

lemma demo_env_parse: "parse_to_array demo_keccak demo_batch_codec [CHR 0x01, CHR 0x01] = Inr [demo_tx 1, demo_tx 1]"
  by (simp add: parse_to_array_def demo_batch_codec_def Tx_pb_roundtrip)

theorem add_txs_rewrite_same_effect_witness:
  "(let st = \<lparr>exe_world = InRam_empty, exe_pool = Mempool_ctor {} 2\<rparr>;
        cmd' = [ADD_TXS, CHR 0x01];
        st' = st\<lparr>exe_pool := snd (addTx demo_keccak (exe_pool st) (demo_tx 1))\<rparr>
    in execute_cmd demo_env st [ADD_TXS, CHR 0x01, CHR 0x01] = Inr ((''OK'', cmd'), st') \<and>
       execute_cmd demo_env st cmd' = Inr ((''OK'', cmd'), st'))"
proof -
  let ?p = "Mempool_ctor {} 2"
  let ?st = "\<lparr>exe_world = InRam_empty, exe_pool = ?p\<rparr>"
  let ?p1 = "snd (addTx demo_keccak ?p (demo_tx 1))"
  have env: "env_keccak demo_env = demo_keccak" "env_pool demo_env = Mempool_ops demo_keccak" "env_txs_codec demo_env = demo_batch_codec"
    by (simp_all add: demo_env_def)
  have neq: "ADD_TXS \<noteq> EXECUTE_BLK" by (simp add: ADD_TXS_def EXECUTE_BLK_def)
  have add: "add_txs (Mempool_ops demo_keccak) ?p [demo_tx 1, demo_tx 1] = ([demo_tx 1], ?p1)"
    by (simp add: Mempool_ops_def addTx_def Mempool_ctor_def Tx_set_insert_def)
  have ser: "serialize_from_array demo_batch_codec [demo_tx 1] = [CHR 0x01]"
    by (simp add: serialize_from_array_def demo_batch_codec_def Tx_toPb_def)
  have run: "execute_cmd demo_env ?st (ADD_TXS # [CHR 0x01, CHR 0x01]) = Inr ((''OK'', [ADD_TXS, CHR 0x01]), ?st\<lparr>exe_pool := ?p1\<rparr>)"
    by (simp add: execute_cmd_def neq handle_ADD_TXS_def env demo_env_parse add ser del: add_txs.simps)
  have codec: "ParseTxs demo_batch_codec (SerializeTxs demo_batch_codec (map Tx_toPb ts)) = (True, map Tx_toPb ts)"
    if "set ts \<subseteq> set [demo_tx 1, demo_tx 1]" for ts
    using that by (intro demo_batch_codec_ok) simp
  show ?thesis
    using add_txs_rewrite_same_effect [where env = demo_env and st = ?st and replica = ?st, unfolded env, OF refl _ _ demo_env_parse codec run]
    by (simp add: run Let_def Mempool_ctor_ok demo_keccak_def)
qed

lemma demo_execute_Blk:
  assumes "InRam_ok (exe_world st)"
  shows "\<exists>w. execute_Blk demo_env st b = Inr (True, st\<lparr>exe_world := w\<rparr>)"
proof -
  obtain eb where eb: "executeBlk demo_executor (getAcn (env_world demo_env) (exe_world st)) None b = Inr eb"
    "length (stateChanges eb) = length (txs eb)"
    by (simp add: executeBlk_eq)
  then show ?thesis
    using inram_total.commit_effect [OF assms, of eb "demo_codec (Acn_toPb Acn_default)" demo_codecs demo_keccak]
    by (auto simp: execute_Blk_def demo_env_def)
qed


definition demo_light :: "(InRamWorldStorage, Mempool) light_state" where
  "demo_light = LightExecutorForCnsss_ctor InRam_empty (Mempool_ctor {} 2) 1 1 (replicate 32 0)"

lemma demo_light_fields:
  "InRam_ok (exe_world demo_light)" "exe_pool demo_light = Mempool_ctor {} 2" "optimization_level demo_light = 1"
  "next_blk_number demo_light = 1" "previous_hash demo_light = replicate 32 0"
  by (simp_all add: demo_light_def LightExecutorForCnsss_ctor_def InRam_ok_def InRam_empty_def)


text \<open>
  A follower of the light executor never learns the block number: executing \<open>EXECUTE_BLK\<close> leaves
  its next number and previous hash as they were, whatever the command and the outcome. When it
  becomes primary, the first block it seals carries the number and parent hash it was started with,
  and is stored over the block of that number.
\<close>

theorem light_follower_number_stale:
  assumes "light_execute_cmd env st cmd = Inr (r, st')" "cmd \<noteq> []" "hd cmd = EXECUTE_BLK"
  shows "next_blk_number st' = next_blk_number st \<and> previous_hash st' = previous_hash st"
proof -
  have "light_handle_EXECUTE_BLK env st cmd = Inr (r, st')"
    using assms by (cases cmd) (simp_all add: light_execute_cmd_def)
  then show ?thesis
    by (auto simp: light_handle_EXECUTE_BLK_def light_wash_def execute_Blk_def bind_result_Inr_iff clear_cmd_and_complain_def
        split: option.splits prod.splits if_splits)
qed

theorem light_follower_number_stale_witness:
  "\<exists>r st'. light_execute_cmd demo_env demo_light [EXECUTE_BLK, CHR 0x01] = Inr (r, st') \<and>
     next_blk_number st' = 1 \<and> previous_hash st' = replicate 32 0"
proof -
  let ?b = "Blk_ctor 1 (replicate 32 0) [demo_tx 1]"
  have parse: "fromPbString (env_blk_codec demo_env) (Blk_fromPb (env_keccak demo_env) (Blk_ctor 0 (replicate 32 0) [])) [CHR 0x01] = Some ?b"
    using Blk_pb_roundtrip [of ?b demo_keccak "Blk_ctor 0 (replicate 32 0) []"]
    by (simp add: demo_env_def fromPbString_def demo_blk_codec_def Blk_ctor_def wf_hash_def)
  obtain ts st1 where wash: "light_wash demo_env demo_light (txs ?b) = (ts, st1)" by (cases "light_wash demo_env demo_light (txs ?b)")
  then have "InRam_ok (exe_world st1)"
    using demo_light_fields(1) by (auto simp: light_wash_def split: prod.splits if_splits)
  then obtain r st' where run: "light_execute_cmd demo_env demo_light [EXECUTE_BLK, CHR 0x01] = Inr (r, st')"
    using demo_execute_Blk [of st1 "?b\<lparr>txs := ts\<rparr>"] parse wash
    by (auto simp: light_execute_cmd_def light_handle_EXECUTE_BLK_def Let_def)
  show ?thesis using light_follower_number_stale [OF run] run by (simp add: demo_light_fields)
qed

text \<open>
  A block for consensus that names one unknown transaction costs the known ones: \<open>toBlk\<close> has
  already popped the transactions listed before the unknown hash, they are not executed and not put
  back, and since their hashes stay remembered the pool refuses them for ever.
\<close>

theorem failed_block_loses_txs:
  assumes "pool_ok keccak p" "set ts \<subseteq> set (pool_txs p)" "distinct (map (tx_hash keccak) ts)"
    and "h \<notin> tx_hash keccak ` set (pool_txs p)"
    and "toBlk (Mempool_ops keccak) p (BlkForConsensus_ctor n ph (map (tx_hash keccak) ts @ h # hs)) = (r, p')"
  shows "r = None \<and> set (pool_txs p') = set (pool_txs p) - set ts \<and> (\<forall>t \<in> set ts. addTx keccak p' t = (False, p'))"
proof -
  obtain r1 where f: "fetch_txs (Mempool_ops keccak) p (map (tx_hash keccak) ts @ h # hs) = (r1, p')"
    "r = map_option (Blk_ctor n ph) r1"
    using assms(5) by (auto simp: toBlk_def BlkForConsensus_ctor_def split: prod.splits)
  have L: "r1 = None" "pool_ok keccak p'" "set (pool_txs p') = set (pool_txs p) - set ts" "pool_hs p' = pool_hs p"
    using mempool.fetch_fails [OF assms(1) f(1) assms(2-4)] by blast+
  have "tx_hash keccak t \<in> pool_hs p'" if "t \<in> set ts" for t
    using that assms(1,2) L(4) by (auto simp: pool_ok_def)
  then show ?thesis using L f(2) by (simp add: addTx_cases)
qed

theorem failed_block_loses_txs_witness:
  "(let p = snd (addTx demo_keccak (Mempool_ctor {} 2) (demo_tx 1));
        p' = snd (toBlk (Mempool_ops demo_keccak) p (BlkForConsensus_ctor 1 [] [tx_hash demo_keccak (demo_tx 1), []]))
    in pool_txs p = [demo_tx 1] \<and> set (pool_txs p') = {} \<and> addTx demo_keccak p' (demo_tx 1) = (False, p'))"
proof -
  let ?p = "snd (addTx demo_keccak (Mempool_ctor {} 2) (demo_tx 1))"
  have p: "pool_txs ?p = [demo_tx 1]" by (simp add: addTx_def Mempool_ctor_def Tx_set_insert_def)
  have ok: "pool_ok demo_keccak ?p" using addTx_ok [OF Mempool_ctor_ok] by (metis prod.collapse)
  have "tx_hash demo_keccak (demo_tx 1) \<noteq> []" by (simp add: tx_hash_def demo_keccak_def demo_tx_def Tx_ctor_def)
  then show ?thesis
    using failed_block_loses_txs [OF ok, of "[demo_tx 1]" "[]" 1 "[]" "[]"] p
    by (simp add: Let_def) (metis prod.collapse)
qed

end
