(* ===== verification/ListenToOne.thy ===== *)
theory ListenToOne
  imports CnsssExe
begin

text \<open>
  The consensus with a fixed primary (\<^verbatim>\<open>include/cnsss/pure-listenToOne.hpp\<close>): clients and subs send
  commands to the primary, which executes them, records them, and passes them on to the subs it
  knows; a newcomer replays the recorded commands. Calls between nodes are synchronous, so one
  handler of the primary includes the handlers of the subs it calls.

  \<open>IForConsensusExecutable::execute\<close> takes the command by reference and may rewrite it: an executor
  maps a state and a command to the rewritten command and the new state.
\<close>

type_synonym 's cnsss_executor = "'s \<Rightarrow> string \<Rightarrow> string \<times> 's"

section \<open>Tickets\<close>

record YouAreInTicket =
  tk_msg :: string
  tk_command_history :: "string list"

record PbYouAreInTicket =
  pb_msg :: string
  pb_command_history :: "string list"

definition YouAreInTicket_toPb :: "YouAreInTicket \<Rightarrow> PbYouAreInTicket" where
  "YouAreInTicket_toPb t = \<lparr>pb_msg = tk_msg t, pb_command_history = tk_command_history t\<rparr>"

definition YouAreInTicket_fromPb :: "YouAreInTicket \<Rightarrow> PbYouAreInTicket \<Rightarrow> YouAreInTicket result" where
  "YouAreInTicket_fromPb this pb = Inr (this\<lparr>tk_msg := pb_msg pb, tk_command_history := pb_command_history pb\<rparr>)"

definition YouAreInTicket_toJson :: "YouAreInTicket \<Rightarrow> json" where
  "YouAreInTicket_toJson c = JObj [(''msg'', JStr (tk_msg c)), (''command_history'', JArr (map JStr (tk_command_history c)))]"

definition YouAreInTicket_fromJson :: "YouAreInTicket \<Rightarrow> json \<Rightarrow> YouAreInTicket option" where
  "YouAreInTicket_fromJson this v = caught (
     bind_result (bind_result (json_at v ''msg'') as_string) (\<lambda>m.
     bind_result (bind_result (json_at v ''command_history'') (value_to_vector as_string)) (\<lambda>cs.
       Inr (this\<lparr>tk_msg := m, tk_command_history := cs\<rparr>))))"

section \<open>Nodes\<close>

record 's l2o_node =
  l2o_endpoint :: string
  l2o_exe :: 's
  primary_is_me :: bool
  l2o_primary :: string
  l2o_remember :: bool
  known_subs :: "string list"
  command_history :: "string list"

definition l2o_is_primary :: "'s l2o_node \<Rightarrow> bool" where
  "l2o_is_primary n = primary_is_me n"

definition l2o_execute :: "'s cnsss_executor \<Rightarrow> 's l2o_node \<Rightarrow> string \<Rightarrow> string \<times> 's l2o_node" where
  "l2o_execute exec n data = (let (data', s) = exec (l2o_exe n) data in (data', n\<lparr>l2o_exe := s\<rparr>))"

definition handle_add_new_node :: "'s l2o_node \<Rightarrow> string \<Rightarrow> YouAreInTicket \<times> 's l2o_node" where
  "handle_add_new_node n endpoint =
     (let n1 = n\<lparr>known_subs := known_subs n @ [endpoint]\<rparr>;
          msg = ''Dear '' @ endpoint @ '', you're in. '' @ l2o_endpoint n
      in (\<lparr>tk_msg = msg, tk_command_history = command_history n\<rparr>, n1))"

text \<open>A sub executes what comes from its primary and forwards anything else.\<close>

datatype sub_answer = Accomplished string | Forward string string

definition handle_execute_for_sub :: "'s cnsss_executor \<Rightarrow> 's l2o_node \<Rightarrow> string \<Rightarrow> string \<Rightarrow> sub_answer \<times> 's l2o_node" where
  "handle_execute_for_sub exec n endpoint data =
     (if endpoint = l2o_primary n then
        (let (data', n1) = l2o_execute exec n data in (Accomplished data', n1))
      else (Forward (l2o_primary n) data, n))"

text \<open>
  The nodes that listen, by endpoint. \<open>net->send\<close> to an endpoint nobody listens on returns nothing.
\<close>

type_synonym 's l2o_net = "string \<rightharpoonup> 's l2o_node"

definition send_execute :: "'s cnsss_executor \<Rightarrow> 's l2o_net \<Rightarrow> string \<Rightarrow> string \<Rightarrow> string \<Rightarrow> bool \<times> 's l2o_net" where
  "send_execute exec net from to data =
     (case net to of
        None \<Rightarrow> (False, net)
      | Some n \<Rightarrow> (True, net(to \<mapsto> snd (handle_execute_for_sub exec n from data))))"

text \<open>The loop over \<open>known_subs\<close>: a sub that does not answer is erased.\<close>

fun send_to_subs :: "'s cnsss_executor \<Rightarrow> 's l2o_net \<Rightarrow> string \<Rightarrow> string list \<Rightarrow> string \<Rightarrow> string list \<times> 's l2o_net" where
  "send_to_subs exec net me [] data = ([], net)"
| "send_to_subs exec net me (e # es) data =
     (let (ok, net1) = send_execute exec net me e data; (kept, net2) = send_to_subs exec net1 me es data
      in (if ok then e # kept else kept, net2))"

definition handle_execute_for_primary ::
  "'s cnsss_executor \<Rightarrow> 's l2o_net \<Rightarrow> 's l2o_node \<Rightarrow> string \<Rightarrow> 's l2o_node \<times> 's l2o_net" where
  "handle_execute_for_primary exec net n data =
     (let (data1, n1) = l2o_execute exec n data;
          n2 = (if l2o_remember n1 then n1\<lparr>command_history := command_history n1 @ [data1]\<rparr> else n1);
          (kept, net1) = send_to_subs exec net (l2o_endpoint n2) (known_subs n2) data1
      in (n2\<lparr>known_subs := kept\<rparr>, net1))"

text \<open>Replaying a ticket: \<open>for (string & cmd : cmds) exe->execute(cmd)\<close>.\<close>

definition replay :: "'s cnsss_executor \<Rightarrow> 's \<Rightarrow> string list \<Rightarrow> 's" where
  "replay exec s cmds = fold (\<lambda>c s. snd (exec s c)) cmds s"

definition l2o_init :: "string \<Rightarrow> 's \<Rightarrow> string \<Rightarrow> bool \<Rightarrow> 's l2o_node" where
  "l2o_init me s nodeToConnect remember_cmds =
     \<lparr>l2o_endpoint = me, l2o_exe = s, primary_is_me = (nodeToConnect = []), l2o_primary = nodeToConnect,
      l2o_remember = remember_cmds, known_subs = [], command_history = []\<rparr>"

text \<open>
  \<open>ask_primary_for_entry\<close>, given the bytes the primary answered (\<open>None\<close> when it did not).
\<close>

definition ask_primary_for_entry ::
  "'s cnsss_executor \<Rightarrow> PbYouAreInTicket pb_codec \<Rightarrow> 's l2o_node \<Rightarrow> string option \<Rightarrow> 's l2o_node result" where
  "ask_primary_for_entry exec c n answer =
     (case answer of
        None \<Rightarrow> Inl Runtime_error
      | Some r \<Rightarrow>
          (case fromPbString c (YouAreInTicket_fromPb \<lparr>tk_msg = [], tk_command_history = []\<rparr>) r of
             None \<Rightarrow> Inl Runtime_error
           | Some t \<Rightarrow> Inr (n\<lparr>l2o_exe := replay exec (l2o_exe n) (tk_command_history t)\<rparr>)))"

section \<open>The group\<close>

text \<open>
  The primary, the subs that listen, and the newcomers that have replayed their ticket and do not
  listen yet: the constructor asks for entry first and registers its handler afterwards, and the
  primary may execute commands in between.
\<close>

record 's l2o_sys =
  sys_primary :: "'s l2o_node"
  sys_subs :: "'s l2o_net"
  sys_joining :: "'s l2o_net"

inductive l2o_step :: "'s cnsss_executor \<Rightarrow> PbYouAreInTicket pb_codec \<Rightarrow> 's \<Rightarrow> 's l2o_sys \<Rightarrow> 's l2o_sys \<Rightarrow> bool"
  for exec c s0 where
  join: "\<lbrakk>sys_subs S e = None; sys_joining S e = None; e \<notin> set (known_subs (sys_primary S)); e \<noteq> [];
      handle_add_new_node (sys_primary S) e = (t, p);
      ask_primary_for_entry exec c (l2o_init e s0 (l2o_endpoint (sys_primary S)) True)
        (Some (toPbString c YouAreInTicket_toPb t)) = Inr n\<rbrakk>
    \<Longrightarrow> l2o_step exec c s0 S (S\<lparr>sys_primary := p, sys_joining := (sys_joining S)(e \<mapsto> n)\<rparr>)"
| listen: "sys_joining S e = Some n \<Longrightarrow>
    l2o_step exec c s0 S (S\<lparr>sys_joining := (sys_joining S)(e := None), sys_subs := (sys_subs S)(e \<mapsto> n)\<rparr>)"
| execute: "handle_execute_for_primary exec (sys_subs S) (sys_primary S) data = (p, subs) \<Longrightarrow>
    l2o_step exec c s0 S (S\<lparr>sys_primary := p, sys_subs := subs\<rparr>)"
| stop: "l2o_step exec c s0 S (S\<lparr>sys_subs := (sys_subs S)(e := None)\<rparr>)"

definition l2o_start :: "string \<Rightarrow> 's \<Rightarrow> 's l2o_sys" where
  "l2o_start me s0 = \<lparr>sys_primary = l2o_init me s0 [] True, sys_subs = Map.empty, sys_joining = Map.empty\<rparr>"

definition l2o_reachable :: "'s cnsss_executor \<Rightarrow> PbYouAreInTicket pb_codec \<Rightarrow> string \<Rightarrow> 's \<Rightarrow> 's l2o_sys \<Rightarrow> bool" where
  "l2o_reachable exec c me s0 S \<longleftrightarrow> (l2o_step exec c s0)\<^sup>*\<^sup>* (l2o_start me s0) S"

section \<open>The contract of an executor, and what the group keeps\<close>

text \<open>
  The contract stated at \<open>IForConsensusExecutable\<close>: the rewritten command results in the same state
  change, and is not rewritten again.
\<close>

locale replayable_executor =
  fixes exec :: "'s cnsss_executor"
    and invar :: "'s \<Rightarrow> bool"
  assumes rewritten_same: "invar s \<Longrightarrow> exec s c = (c', s') \<Longrightarrow> exec s c' = (c', s') \<and> invar s'"
begin

definition group_ok :: "'s \<Rightarrow> 's l2o_sys \<Rightarrow> bool" where
  "group_ok s0 S \<longleftrightarrow>
     invar (l2o_exe (sys_primary S)) \<and> l2o_remember (sys_primary S) \<and> replay exec s0 (command_history (sys_primary S)) = l2o_exe (sys_primary S) \<and>
     distinct (known_subs (sys_primary S)) \<and> dom (sys_subs S) \<inter> dom (sys_joining S) = {} \<and>
     (\<forall>e n. sys_subs S e = Some n \<longrightarrow> l2o_primary n = l2o_endpoint (sys_primary S)) \<and>
     (\<forall>e n. sys_joining S e = Some n \<longrightarrow> l2o_primary n = l2o_endpoint (sys_primary S)) \<and>
     (\<forall>e \<in> set (known_subs (sys_primary S)). \<forall>n. sys_subs S e = Some n \<or> sys_joining S e = Some n \<longrightarrow>
        l2o_exe n = l2o_exe (sys_primary S))"

lemma send_to_subs_effect:
  assumes "distinct es" "\<forall>e \<in> set es. \<forall>n. net e = Some n \<longrightarrow> l2o_primary n = me"
  shows "fst (send_to_subs exec net me es data) = filter (\<lambda>e. net e \<noteq> None) es \<and>
    snd (send_to_subs exec net me es data) =
      (\<lambda>e. if e \<in> set es then map_option (\<lambda>n. n\<lparr>l2o_exe := snd (exec (l2o_exe n) data)\<rparr>) (net e) else net e)"
  using assms
proof (induction es arbitrary: net)
  case (Cons e es)
  define net1 where "net1 = snd (send_execute exec net me e data)"
  have ok: "fst (send_execute exec net me e data) = (net e \<noteq> None)"
    by (simp add: send_execute_def split: option.splits)
  have net1: "net1 = (\<lambda>x. if x = e then map_option (\<lambda>n. n\<lparr>l2o_exe := snd (exec (l2o_exe n) data)\<rparr>) (net e) else net x)"
    using Cons.prems(2)
    by (auto simp: net1_def send_execute_def handle_execute_for_sub_def l2o_execute_def fun_eq_iff split: option.splits prod.splits)
  have IH: "fst (send_to_subs exec net1 me es data) = filter (\<lambda>e. net1 e \<noteq> None) es"
    "snd (send_to_subs exec net1 me es data) =
      (\<lambda>x. if x \<in> set es then map_option (\<lambda>n. n\<lparr>l2o_exe := snd (exec (l2o_exe n) data)\<rparr>) (net1 x) else net1 x)"
    using Cons.IH [of net1] Cons.prems by (auto simp: net1)
  have "filter (\<lambda>x. net1 x \<noteq> None) es = filter (\<lambda>x. net x \<noteq> None) es"
    using Cons.prems(1) by (intro filter_cong) (auto simp: net1)
  moreover have "send_to_subs exec net me (e # es) data =
      (if net e \<noteq> None then e # fst (send_to_subs exec net1 me es data) else fst (send_to_subs exec net1 me es data),
       snd (send_to_subs exec net1 me es data))"
    by (simp add: net1_def case_prod_beta Let_def ok)
  ultimately show ?case
    using Cons.prems(1) unfolding IH by (auto simp: net1 fun_eq_iff)
qed auto

lemma step_group_ok:
  assumes "group_ok s0 S" "l2o_step exec c s0 S S'" "\<And>t. ParseFromString c (SerializeAsString c t) = Some t"
  shows "group_ok s0 S'"
  using assms(2)
proof cases
  case (join e t p n)
  have "tk_command_history t = command_history (sys_primary S)" "p = (sys_primary S)\<lparr>known_subs := known_subs (sys_primary S) @ [e]\<rparr>"
    using join(6) by (auto simp: handle_add_new_node_def Let_def)
  moreover have "fromPbString c (YouAreInTicket_fromPb \<lparr>tk_msg = [], tk_command_history = []\<rparr>) (toPbString c YouAreInTicket_toPb t) = Some t"
    using assms(3) by (cases t) (simp add: fromPbString_def toPbString_def YouAreInTicket_fromPb_def YouAreInTicket_toPb_def)
  ultimately show ?thesis
    using assms(1) join by (auto simp: group_ok_def ask_primary_for_entry_def l2o_init_def)
next
  case (listen e n)
  then show ?thesis using assms(1) by (auto simp: group_ok_def split: if_splits)
next
  case (execute data p subs)
  let ?p = "sys_primary S"
  obtain data1 s1 where ex: "exec (l2o_exe ?p) data = (data1, s1)" by (cases "exec (l2o_exe ?p) data")
  have same: "exec (l2o_exe ?p) data1 = (data1, s1)" "invar s1"
    using rewritten_same [OF _ ex] assms(1) by (auto simp: group_ok_def)
  note effect = send_to_subs_effect [of "known_subs ?p" "sys_subs S" "l2o_endpoint ?p" data1]
  have G: "distinct (known_subs ?p)" "\<forall>e \<in> set (known_subs ?p). \<forall>n. sys_subs S e = Some n \<longrightarrow> l2o_primary n = l2o_endpoint ?p"
    "l2o_remember ?p"
    using assms(1) by (auto simp: group_ok_def)
  have p: "p = ?p\<lparr>l2o_exe := s1, command_history := command_history ?p @ [data1], known_subs := filter (\<lambda>e. sys_subs S e \<noteq> None) (known_subs ?p)\<rparr>"
    and subs: "subs = (\<lambda>e. if e \<in> set (known_subs ?p)
      then map_option (\<lambda>n. n\<lparr>l2o_exe := snd (exec (l2o_exe n) data1)\<rparr>) (sys_subs S e) else sys_subs S e)"
    using execute(2) effect [OF G(1,2)] G(3)
    by (auto simp: handle_execute_for_primary_def l2o_execute_def ex case_prod_beta Let_def)
  have "replay exec s0 (command_history p) = s1"
    using assms(1) same by (simp add: p group_ok_def replay_def)
  moreover have "dom subs = dom (sys_subs S)" by (auto simp: subs split: if_splits)
  ultimately show ?thesis
    using assms(1) same execute(1) by (auto simp: group_ok_def p subs split: if_splits)
next
  case (stop e)
  then show ?thesis using assms(1) by (auto simp: group_ok_def split: if_splits)
qed

lemma reachable_group_ok:
  assumes "l2o_reachable exec c me s0 S" "\<And>t. ParseFromString c (SerializeAsString c t) = Some t"
    and "invar s0"
  shows "group_ok s0 S"
  using assms(1) unfolding l2o_reachable_def
proof (induction rule: rtranclp_induct)
  case base
  show ?case using assms(3) by (simp add: group_ok_def l2o_start_def l2o_init_def replay_def)
qed (use step_group_ok assms(2) in blast)

end

section \<open>Executors that meet the contract\<close>

text \<open>\<open>mock::Executable\<close>: records what it is told and rewrites nothing.\<close>

definition mock_execute :: "string list cnsss_executor" where
  "mock_execute log cmd = (cmd, log @ [cmd])"

interpretation mock: replayable_executor mock_execute "\<lambda>_. True"
  by unfold_locales (auto simp: mock_execute_def)

text \<open>The chain executor on \<open>ADD_TXS\<close> commands, with the transaction pool as its state.\<close>

definition add_txs_executor :: "('w, 'p) exe_env \<Rightarrow> ('w, 'p) exe_state cnsss_executor" where
  "add_txs_executor env st cmd =
     (if cmd \<noteq> [] \<and> hd cmd = ADD_TXS
      then (case handle_ADD_TXS env st cmd of Inl e \<Rightarrow> (cmd, st) | Inr ((r, cmd'), st') \<Rightarrow> (cmd', st'))
      else (cmd, st))"

lemma add_txs_executor_replayable:
  assumes "env_pool env = Mempool_ops (env_keccak env)" "\<And>x. length (env_keccak env x) = 32"
    and "\<And>arg parsed ts. parse_to_array (env_keccak env) (env_txs_codec env) arg = Inr parsed \<Longrightarrow> set ts \<subseteq> set parsed \<Longrightarrow>
      ParseTxs (env_txs_codec env) (SerializeTxs (env_txs_codec env) (map Tx_toPb ts)) = (True, map Tx_toPb ts)"
  shows "replayable_executor (add_txs_executor env) (\<lambda>st. pool_ok (env_keccak env) (exe_pool st))"
proof
  fix st c c' st'
  assume ok: "pool_ok (env_keccak env) (exe_pool st)" and run: "add_txs_executor env st c = (c', st')"
  show "add_txs_executor env st c' = (c', st') \<and> pool_ok (env_keccak env) (exe_pool st')"
  proof (cases "c \<noteq> [] \<and> hd c = ADD_TXS")
    case False
    then show ?thesis using run ok by (auto simp: add_txs_executor_def)
  next
    case True
    show ?thesis
    proof (cases "parse_to_array (env_keccak env) (env_txs_codec env) (drop 1 c)")
      case (Inl e)
      then show ?thesis
        using True run ok by (auto simp: add_txs_executor_def handle_ADD_TXS_def clear_cmd_and_complain_def)
    next
      case (Inr ts)
      obtain kept p where add: "add_txs (env_pool env) (exe_pool st) ts = (kept, p)"
        by (cases "add_txs (env_pool env) (exe_pool st) ts")
      have law: "pool_ok (env_keccak env) p" "add_txs (env_pool env) (exe_pool st) kept = (kept, p)" "set kept \<subseteq> set ts"
        using mempool.add_txs_law [OF ok, of ts kept p] add unfolding assms(1) by blast+
      have parse: "parse_to_array (env_keccak env) (env_txs_codec env) (serialize_from_array (env_txs_codec env) kept) = Inr kept"
        using law(3) parse_to_array_wf [OF Inr _ assms(2)] by (intro parse_serialize_array [OF assms(3) [OF Inr]]) auto
      have st': "st' = st\<lparr>exe_pool := p\<rparr>" and c': "c' = (if kept = [] then [] else if length kept < length ts
          then ADD_TXS # serialize_from_array (env_txs_codec env) kept else c)"
        using run True Inr add by (auto simp: add_txs_executor_def handle_ADD_TXS_def clear_cmd_and_complain_def Let_def split: if_splits)
      consider (none) "kept = []" | (some) "kept \<noteq> []" "length kept < length ts" | (all) "kept \<noteq> []" "\<not> length kept < length ts" by blast
      then show ?thesis
      proof cases
        case none
        then have "p = exe_pool st" using law(2) by simp
        then show ?thesis using none st' c' law(1) by (simp add: add_txs_executor_def)
      next
        case some
        then show ?thesis using st' c' law parse by (simp add: add_txs_executor_def handle_ADD_TXS_def)
      next
        case all
        then show ?thesis using st' c' law(1) run by simp
      qed
    qed
  qed
qed

lemma demo_batch_parsed:
  "parse_to_array demo_keccak demo_batch_codec arg = Inr parsed \<Longrightarrow> t \<in> set parsed \<Longrightarrow> \<exists>c. t = demo_tx (of_nat (of_char (c :: char)))"
  using map_result_set by (fastforce simp: parse_to_array_def demo_batch_codec_def Tx_pb_roundtrip)

lemma demo_batch_codec_law:
  assumes "parse_to_array demo_keccak demo_batch_codec arg = Inr parsed" "set ts \<subseteq> set parsed"
  shows "ParseTxs demo_batch_codec (SerializeTxs demo_batch_codec (map Tx_toPb ts)) = (True, map Tx_toPb ts)"
proof -
  have "demo_tx (of_nat (of_char (char_of (unat (tx_nonce t)) :: char))) = t" if "t \<in> set ts" for t
  proof -
    have "t \<in> set parsed" using assms(2) that by blast
    then obtain c :: char where t: "t = demo_tx (of_nat (of_char c))" using demo_batch_parsed [OF assms(1)] by blast
    have "(of_char c :: nat) mod 18446744073709551616 = of_char c"
      by (rule mod_less, rule less_trans [OF nat_of_char_less_256]) simp
    then have "unat (of_nat (of_char c) :: u64) = of_char c" by (simp add: unat_of_nat)
    then show ?thesis by (simp add: t)
  qed
  then show ?thesis by (simp add: demo_batch_codec_def map_idI)
qed

interpretation pool_exec: replayable_executor "add_txs_executor demo_env" "\<lambda>st. pool_ok demo_keccak (exe_pool st)"
proof -
  have "env_keccak demo_env = demo_keccak" "env_txs_codec demo_env = demo_batch_codec" "env_pool demo_env = Mempool_ops demo_keccak"
    by (simp_all add: demo_env_def)
  then show "replayable_executor (add_txs_executor demo_env) (\<lambda>st. pool_ok demo_keccak (exe_pool st))"
    using add_txs_executor_replayable [of demo_env] demo_batch_codec_law by (simp add: demo_keccak_def)
qed

section \<open>Properties\<close>


definition ticket_codec :: "PbYouAreInTicket pb_codec" where
  "ticket_codec =
     \<lparr>SerializeAsString = (\<lambda>t. strs_enc (pb_msg t # pb_command_history t)),
      ParseFromString = (\<lambda>s. case strs_dec [] s of Some (m # cs) \<Rightarrow> Some \<lparr>pb_msg = m, pb_command_history = cs\<rparr> | _ \<Rightarrow> None)\<rparr>"

lemma ticket_codec_ok: "ParseFromString ticket_codec (SerializeAsString ticket_codec t) = Some t"
  by (simp add: ticket_codec_def)


text \<open>
  A sub that asks for entry again while the primary still lists it is listed twice: the next
  command is executed twice on it, so it leaves the primary's state behind with any executor for
  which executing twice is not executing once.
\<close>

theorem l2o_rejoin_executes_twice:
  assumes "known_subs p = []" "net e = Some n" "l2o_primary n = l2o_endpoint p" "exec (l2o_exe p) data = (data1, s1)"
  shows "let p2 = snd (handle_add_new_node (snd (handle_add_new_node p e)) e);
             (p3, net3) = handle_execute_for_primary exec net p2 data
         in known_subs p3 = [e, e] \<and> l2o_exe p3 = s1 \<and>
            map_option l2o_exe (net3 e) = Some (snd (exec (snd (exec (l2o_exe n) data1)) data1))"
  using assms
  by (simp add: handle_add_new_node_def handle_execute_for_primary_def l2o_execute_def send_execute_def
      handle_execute_for_sub_def case_prod_beta Let_def)

theorem l2o_rejoin_executes_twice_witness:
  "let p = l2o_init ''p'' [] [] True; n = l2o_init ''a'' [] ''p'' True;
       p2 = snd (handle_add_new_node (snd (handle_add_new_node p ''a'')) ''a'');
       (p3, net3) = handle_execute_for_primary mock_execute [''a'' \<mapsto> n] p2 ''x''
   in known_subs p3 = [''a'', ''a''] \<and> l2o_exe p3 = [''x''] \<and> map_option l2o_exe (net3 ''a'') = Some [''x'', ''x'']"
  using l2o_rejoin_executes_twice [of "l2o_init ''p'' [] [] True" "[''a'' \<mapsto> l2o_init ''a'' [] ''p'' True]" "''a''"
      "l2o_init ''a'' [] ''p'' True" mock_execute "''x''" "''x''" "[''x'']"]
  by (simp add: l2o_init_def mock_execute_def case_prod_beta Let_def)

end
