(* ===== verification/Raft.thy ===== *)
theory Raft
  imports ListenToOne
begin

text \<open>
  The Raft-style consensus (\<^verbatim>\<open>include/cnsss/pure-raft.hpp\<close>): a timer that runs out of patience makes a
  node a candidate, votes are counted, and the primary passes commands on. A node's handlers map the
  node and a received text to the new node and the messages it sends; terms travel as decimal text.
  The network is asynchronous: messages in flight are delivered in any order or lost.
\<close>

section \<open>Numbers as text\<close>

definition to_string_int :: "int \<Rightarrow> string" where
  "to_string_int i = (if i < 0 then CHR ''-'' # decimal (nat (- i)) else decimal (nat i))"

definition is_dec_digit :: "char \<Rightarrow> bool" where
  "is_dec_digit c \<longleftrightarrow> (48 :: nat) \<le> of_char c \<and> of_char c \<le> (57 :: nat)"

definition digits_value :: "string \<Rightarrow> int" where
  "digits_value ds = foldl (\<lambda>v c. 10 * v + (int (of_char c) - 48)) 0 ds"

text \<open>\<open>std::stoi\<close>: white space, a sign, digits; the rest of the text is ignored.\<close>

definition stoi :: "string \<Rightarrow> int result" where
  "stoi s =
     (let s1 = dropWhile (\<lambda>c. c \<in> set '' '' \<or> (9 :: nat) \<le> of_char c \<and> of_char c \<le> (13 :: nat)) s;
          neg = (s1 \<noteq> [] \<and> hd s1 = CHR ''-'');
          s2 = (if s1 \<noteq> [] \<and> (hd s1 = CHR ''-'' \<or> hd s1 = CHR ''+'') then tl s1 else s1);
          ds = takeWhile is_dec_digit s2;
          v = (if neg then - digits_value ds else digits_value ds)
      in if ds = [] then Inl Invalid_argument
         else if v < - (2 ^ 31) \<or> v \<ge> 2 ^ 31 then Inl Out_of_range
         else Inr v)"

lemma of_char_digit: "n < 10 \<Longrightarrow> of_char (char_of (n + 48 :: nat)) = n + 48"
  by simp

lemma is_dec_digit_char: "n < 10 \<Longrightarrow> is_dec_digit (char_of (n + 48 :: nat))"
  by (simp add: is_dec_digit_def of_char_digit)

lemma decimal_dec_digits: "c \<in> set (decimal n) \<Longrightarrow> is_dec_digit c"
  using decimal_digits [of c n] is_dec_digit_char by (auto simp: is_digit_def)

lemma digits_value_decimal: "digits_value (decimal n) = int n"
proof (induction n rule: decimal.induct)
  case (1 n)
  show ?case
  proof (cases "n < 10")
    case True
    then show ?thesis by (simp add: decimal.simps [of n] digits_value_def)
  next
    case False
    have "digits_value (decimal n) = 10 * digits_value (decimal (n div 10)) + int (n mod 10)"
      using False by (simp add: decimal.simps [of n] digits_value_def)
    then show ?thesis using "1.IH" [OF False] by presburger
  qed
qed

lemma stoi_to_string:
  assumes "- (2 ^ 31) \<le> i" "i < 2 ^ 31"
  shows "stoi (to_string_int i) = Inr i"
proof -
  have tw: "takeWhile is_dec_digit (decimal n) = decimal n" for n
    using decimal_dec_digits by (simp add: takeWhile_eq_all_conv)
  have hd: "is_dec_digit (hd (decimal n))" for n
    by (rule decimal_dec_digits [of _ n]) (simp add: decimal_nonempty)
  have nosp: "dropWhile (\<lambda>c. c \<in> set '' '' \<or> (9 :: nat) \<le> of_char c \<and> of_char c \<le> (13 :: nat)) (decimal n) = decimal n" for n
    using hd [of n] decimal_nonempty [of n] by (cases "decimal n") (auto simp: is_dec_digit_def)
  have nosign: "hd (decimal n) \<noteq> CHR ''-'' \<and> hd (decimal n) \<noteq> CHR ''+''" for n
    using hd [of n] by (auto simp: is_dec_digit_def)
  show ?thesis
  proof (cases "i < 0")
    case True
    then show ?thesis
      using assms by (simp add: stoi_def to_string_int_def Let_def tw digits_value_decimal decimal_nonempty)
  next
    case False
    then show ?thesis
      using assms nosign [of "nat i"] unfolding stoi_def to_string_int_def
      by (simp only: if_False nosp Let_def) (simp add: tw digits_value_decimal decimal_nonempty)
  qed
qed

section \<open>Nodes\<close>

record 's raft_node =
  rn_me :: string
  rn_exe :: 's
  rn_others :: "string list"
  rn_done :: bool
  patience :: int
  rn_term :: int
  voted_term :: int
  my_votes :: int
  rn_primary :: string
  primary_thread_starting :: bool  \<comment> \<open>the \<open>jthread\<close> exists and has not reset the votes yet\<close>

text \<open>The timer thread starts with \<open>comfort()\<close>; \<open>r\<close> is what \<open>std::rand()\<close> returns.\<close>

definition RaftConsensus_ctor :: "nat \<Rightarrow> string \<Rightarrow> 's \<Rightarrow> string list \<Rightarrow> 's raft_node" where
  "RaftConsensus_ctor r me s o1 =
     \<lparr>rn_me = me, rn_exe = s, rn_others = o1, rn_done = False, patience = 5 + int (r mod 6), rn_term = 0, voted_term = 0,
      my_votes = 0, rn_primary = [], primary_thread_starting = False\<rparr>"

text \<open>A message: receiver, target, text.\<close>

type_synonym raft_out = "string \<times> string \<times> string"

definition broadcast :: "'s raft_node \<Rightarrow> string \<Rightarrow> string \<Rightarrow> raft_out list" where
  "broadcast n target data = map (\<lambda>e. (e, target, data)) (rn_others n)"

definition comfort :: "nat \<Rightarrow> 's raft_node \<Rightarrow> 's raft_node" where
  "comfort r n = n\<lparr>patience := 5 + int (r mod 6)\<rparr>"  \<comment> \<open>\<open>r\<close> is what \<open>std::rand()\<close> returns\<close>

definition complain :: "'s raft_node \<Rightarrow> 's raft_node \<times> raft_out list" where
  "complain n =
     (let n1 = n\<lparr>rn_term := rn_term n + 1, my_votes := 1, voted_term := rn_term n + 1\<rparr>
      in (n1, broadcast n1 ''/pleaseVoteMe'' (to_string_int (rn_term n1))))"

text \<open>One round of \<open>start_internal_timer\<close>.\<close>

definition timer_round :: "nat \<Rightarrow> 's raft_node \<Rightarrow> 's raft_node \<times> raft_out list" where
  "timer_round r n =
     (if rn_done n then (n, [])
      else if rn_primary n \<noteq> rn_me n then
        (if patience n = 0 then (let (n1, out) = complain n in (comfort r n1, out))
         else (n\<lparr>patience := patience n - 1\<rparr>, []))
      else (n, []))"

definition handle_pleaseVoteMe :: "'s raft_node \<Rightarrow> string \<Rightarrow> string \<Rightarrow> ('s raft_node \<times> raft_out list) result" where
  "handle_pleaseVoteMe n from msg =
     bind_result (stoi msg) (\<lambda>t.
       if t > rn_term n \<and> t > voted_term n
       then Inr (n\<lparr>voted_term := t\<rparr>, [(from, ''/voteForYou'', to_string_int t)])
       else Inr (n, []))"

text \<open>\<open>my_votes.load() > others.size() / 2\<close>\<close>

definition enough_votes :: "nat \<Rightarrow> nat \<Rightarrow> bool" where
  "enough_votes votes n_others \<longleftrightarrow> votes > n_others div 2"

definition handle_voteForYou :: "'s raft_node \<Rightarrow> string \<Rightarrow> string \<Rightarrow> ('s raft_node \<times> raft_out list) result" where
  "handle_voteForYou n from msg =
     bind_result (stoi msg) (\<lambda>t.
       if t = rn_term n then
         (let n1 = n\<lparr>my_votes := my_votes n + 1\<rparr> in
          if enough_votes (nat (my_votes n1)) (length (rn_others n1))
          then Inr (n1\<lparr>rn_primary := rn_me n1, primary_thread_starting := True\<rparr>,
                    broadcast n1 ''/iAmThePrimary'' (to_string_int (rn_term n1)))
          else Inr (n1, []))
       else Inr (n, []))"

text \<open>\<open>start_being_primary\<close>: the first statement of the thread, and one round of its loop.\<close>

definition start_being_primary :: "'s raft_node \<Rightarrow> 's raft_node" where
  "start_being_primary n = n\<lparr>my_votes := 0, primary_thread_starting := False\<rparr>"

definition heartbeat_round :: "'s raft_node \<Rightarrow> raft_out list" where
  "heartbeat_round n = (if \<not> rn_done n \<and> rn_primary n = rn_me n then broadcast n ''/heartbeat'' [] else [])"

definition handle_heartbeat :: "nat \<Rightarrow> 's raft_node \<Rightarrow> string \<Rightarrow> string \<Rightarrow> 's raft_node" where
  "handle_heartbeat r n from msg = (if rn_primary n = from then comfort r n else n)"

definition handle_iAmThePrimary :: "nat \<Rightarrow> 's raft_node \<Rightarrow> string \<Rightarrow> string \<Rightarrow> 's raft_node result" where
  "handle_iAmThePrimary r n from msg =
     bind_result (stoi msg) (\<lambda>t.
       Inr (if t \<ge> rn_term n then comfort r (n\<lparr>rn_term := t, rn_primary := from\<rparr>) else n))"

section \<open>Commands\<close>

definition raft_is_primary :: "'s raft_node \<Rightarrow> bool" where
  "raft_is_primary n \<longleftrightarrow> rn_primary n = rn_me n"

definition raft_execute_for_primary ::
  "'s cnsss_executor \<Rightarrow> 's raft_node \<Rightarrow> string \<Rightarrow> 's raft_node \<times> raft_out list" where
  "raft_execute_for_primary exec n data =
     (let (data1, s) = exec (rn_exe n) data; n1 = n\<lparr>rn_exe := s\<rparr>
      in (n1, broadcast n1 ''/pleaseExecute'' data1))"

definition raft_execute_for_sub ::
  "'s cnsss_executor \<Rightarrow> 's raft_node \<Rightarrow> string \<Rightarrow> string \<Rightarrow> string \<times> 's raft_node \<times> raft_out list" where
  "raft_execute_for_sub exec n endpoint data =
     (if endpoint \<noteq> rn_primary n then (''forwarded to primary'', n, [(rn_primary n, ''/pleaseExecute'', data)])
      else (''Done'', n\<lparr>rn_exe := snd (exec (rn_exe n) data)\<rparr>, []))"

definition handle_pleaseExecute ::
  "'s cnsss_executor \<Rightarrow> 's raft_node \<Rightarrow> string \<Rightarrow> string \<Rightarrow> 's raft_node \<times> raft_out list" where
  "handle_pleaseExecute exec n from msg =
     (if rn_primary n = [] then (n, [])
      else if raft_is_primary n then raft_execute_for_primary exec n msg
      else snd (raft_execute_for_sub exec n from msg))"

section \<open>The cluster\<close>

text \<open>Dispatch of a received message to the handler registered for its target.\<close>

definition raft_deliver ::
  "'s cnsss_executor \<Rightarrow> nat \<Rightarrow> 's raft_node \<Rightarrow> string \<Rightarrow> string \<Rightarrow> string \<Rightarrow> ('s raft_node \<times> raft_out list) result" where
  "raft_deliver exec r n from target msg =
     (if target = ''/pleaseVoteMe'' then handle_pleaseVoteMe n from msg
      else if target = ''/voteForYou'' then handle_voteForYou n from msg
      else if target = ''/heartbeat'' then Inr (handle_heartbeat r n from msg, [])
      else if target = ''/iAmThePrimary'' then bind_result (handle_iAmThePrimary r n from msg) (\<lambda>n1. Inr (n1, []))
      else if target = ''/pleaseExecute'' then Inr (handle_pleaseExecute exec n from msg)
      else Inr (n, []))"

record 's raft_sys =
  rs_nodes :: "string \<rightharpoonup> 's raft_node"
  rs_flight :: "(string \<times> raft_out) list"

definition put_node :: "'s raft_sys \<Rightarrow> string \<Rightarrow> 's raft_node \<Rightarrow> raft_out list \<Rightarrow> (string \<times> raft_out) list \<Rightarrow> 's raft_sys" where
  "put_node S e n out rest = \<lparr>rs_nodes = (rs_nodes S)(e \<mapsto> n), rs_flight = rest @ map (Pair e) out\<rparr>"

inductive raft_step :: "'s cnsss_executor \<Rightarrow> 's raft_sys \<Rightarrow> 's raft_sys \<Rightarrow> bool" for exec where
  tick: "\<lbrakk>rs_nodes S e = Some n; timer_round r n = (n1, out)\<rbrakk>
    \<Longrightarrow> raft_step exec S (put_node S e n1 out (rs_flight S))"
| deliver: "\<lbrakk>rs_flight S = l @ (from, to, target, msg) # r'; rs_nodes S to = Some n; raft_deliver exec r n from target msg = Inr (n1, out)\<rbrakk>
    \<Longrightarrow> raft_step exec S (put_node S to n1 out (l @ r'))"
| lose: "rs_flight S = l @ m # r' \<Longrightarrow> raft_step exec S (S\<lparr>rs_flight := l @ r'\<rparr>)"
| thread_starts: "\<lbrakk>rs_nodes S e = Some n; primary_thread_starting n\<rbrakk>
    \<Longrightarrow> raft_step exec S (put_node S e (start_being_primary n) [] (rs_flight S))"
| heartbeat: "rs_nodes S e = Some n \<Longrightarrow> raft_step exec S (put_node S e n (heartbeat_round n) (rs_flight S))"
| client: "\<lbrakk>rs_nodes S e = Some n; handle_pleaseExecute exec n ''CLIENT'' data = (n1, out)\<rbrakk>
    \<Longrightarrow> raft_step exec S (put_node S e n1 out (rs_flight S))"

definition raft_start :: "nat \<Rightarrow> string list \<Rightarrow> 's \<Rightarrow> 's raft_sys" where
  "raft_start r es s =
     \<lparr>rs_nodes = (\<lambda>e. if e \<in> set es then Some (RaftConsensus_ctor r e s (filter (\<lambda>x. x \<noteq> e) es)) else None), rs_flight = []\<rparr>"

definition raft_reachable :: "'s cnsss_executor \<Rightarrow> string list \<Rightarrow> 's \<Rightarrow> 's raft_sys \<Rightarrow> bool" where
  "raft_reachable exec es s S \<longleftrightarrow> (\<exists>r. (raft_step exec)\<^sup>*\<^sup>* (raft_start r es s) S)"

inductive_cases raft_stepE: "raft_step exec S S'"

section \<open>Votes of one node\<close>

text \<open>
  What a node does between two of its own candidacies: a sequence of received vote requests, and the
  terms it votes for.
\<close>

fun vote_run :: "'s raft_node \<Rightarrow> (string \<times> string) list \<Rightarrow> int list result" where
  "vote_run n [] = Inr []"
| "vote_run n ((from, msg) # reqs) =
     bind_result (handle_pleaseVoteMe n from msg) (\<lambda>(n1, out).
       bind_result (vote_run n1 reqs) (\<lambda>ts. Inr (if out = [] then ts else voted_term n1 # ts)))"

lemma vote_run_increasing:
  "vote_run n reqs = Inr ts \<Longrightarrow> sorted_wrt (<) ts \<and> (\<forall>t \<in> set ts. t > voted_term n \<and> t > rn_term n)"
proof (induction reqs arbitrary: n ts)
  case (Cons rq reqs)
  obtain sender msg where rq: "rq = (sender, msg)" by (cases rq)
  obtain t where t: "stoi msg = Inr t"
    using Cons.prems by (auto simp: rq handle_pleaseVoteMe_def bind_result_Inr_iff)
  show ?case
  proof (cases "t > rn_term n \<and> t > voted_term n")
    case True
    then obtain ts1 where "vote_run (n\<lparr>voted_term := t\<rparr>) reqs = Inr ts1" "ts = t # ts1"
      using Cons.prems t by (auto simp: rq handle_pleaseVoteMe_def bind_result_Inr_iff)
    then show ?thesis using Cons.IH [of "n\<lparr>voted_term := t\<rparr>" ts1] True by fastforce
  next
    case False
    then have "vote_run n reqs = Inr ts"
      using Cons.prems t by (auto simp: rq handle_pleaseVoteMe_def bind_result_Inr_iff)
    then show ?thesis using Cons.IH by blast
  qed
qed simp

lemma comfort_fields [simp]:
  "rn_term (comfort r n) = rn_term n" "voted_term (comfort r n) = voted_term n" "rn_me (comfort r n) = rn_me n"
  "rn_primary (comfort r n) = rn_primary n" "rn_exe (comfort r n) = rn_exe n" "my_votes (comfort r n) = my_votes n"
  "rn_others (comfort r n) = rn_others n"
  by (simp_all add: comfort_def)

lemma deliver_term_mono: "raft_deliver exec r n from target msg = Inr (n1, out) \<Longrightarrow> rn_term n \<le> rn_term n1"
  by (auto simp: raft_deliver_def handle_pleaseVoteMe_def handle_voteForYou_def handle_heartbeat_def handle_iAmThePrimary_def
      handle_pleaseExecute_def raft_execute_for_primary_def raft_execute_for_sub_def bind_result_Inr_iff Let_def
      split: if_splits prod.splits)

lemma tick_term_mono: "timer_round r n = (n1, out) \<Longrightarrow> rn_term n \<le> rn_term n1"
  by (auto simp: timer_round_def complain_def Let_def split: if_splits)

lemma execute_term_eq: "handle_pleaseExecute exec n from data = (n1, out) \<Longrightarrow> rn_term n1 = rn_term n"
  by (auto simp: handle_pleaseExecute_def raft_execute_for_primary_def raft_execute_for_sub_def Let_def
      split: if_splits prod.splits)

lemma step_term_mono:
  assumes "raft_step exec S S'" "rs_nodes S e = Some n"
  shows "\<exists>n'. rs_nodes S' e = Some n' \<and> rn_term n \<le> rn_term n'"
  using assms(1)
  by (rule raft_stepE)
    (use assms(2) in \<open>auto simp: put_node_def start_being_primary_def dest: deliver_term_mono tick_term_mono execute_term_eq\<close>)

section \<open>Running a schedule\<close>

text \<open>A schedule names which node or which message in flight moves next; every move is a step.\<close>

datatype raft_event = Tick string nat | Deliver nat nat | ThreadStarts string | Client string string

fun raft_move :: "'s cnsss_executor \<Rightarrow> 's raft_sys \<Rightarrow> raft_event \<Rightarrow> 's raft_sys option" where
  "raft_move exec S (Tick e r) =
     (case rs_nodes S e of None \<Rightarrow> None
      | Some n \<Rightarrow> (let (n1, out) = timer_round r n in Some (put_node S e n1 out (rs_flight S))))"
| "raft_move exec S (Deliver i r) =
     (if i < length (rs_flight S) then
        (let (sender, to, target, msg) = rs_flight S ! i in
         case rs_nodes S to of None \<Rightarrow> None
         | Some n \<Rightarrow> (case raft_deliver exec r n sender target msg of
               Inl e \<Rightarrow> None
             | Inr (n1, out) \<Rightarrow> Some (put_node S to n1 out (take i (rs_flight S) @ drop (Suc i) (rs_flight S)))))
      else None)"
| "raft_move exec S (ThreadStarts e) =
     (case rs_nodes S e of None \<Rightarrow> None
      | Some n \<Rightarrow> if primary_thread_starting n then Some (put_node S e (start_being_primary n) [] (rs_flight S)) else None)"
| "raft_move exec S (Client e data) =
     (case rs_nodes S e of None \<Rightarrow> None
      | Some n \<Rightarrow> (let (n1, out) = handle_pleaseExecute exec n ''CLIENT'' data in Some (put_node S e n1 out (rs_flight S))))"

fun raft_schedule :: "'s cnsss_executor \<Rightarrow> 's raft_sys \<Rightarrow> raft_event list \<Rightarrow> 's raft_sys option" where
  "raft_schedule exec S [] = Some S"
| "raft_schedule exec S (ev # evs) = (case raft_move exec S ev of None \<Rightarrow> None | Some S1 \<Rightarrow> raft_schedule exec S1 evs)"

lemma raft_move_step: "raft_move exec S ev = Some S' \<Longrightarrow> raft_step exec S S'"
proof (cases ev)
  case (Deliver i r)
  assume mv: "raft_move exec S ev = Some S'"
  obtain sender to target msg where m: "rs_flight S ! i = (sender, to, target, msg)" by (metis prod_cases4)
  have "rs_flight S = take i (rs_flight S) @ (sender, to, target, msg) # drop (Suc i) (rs_flight S)"
    using mv Deliver m by (metis id_take_nth_drop option.distinct(1) raft_move.simps(2))
  moreover obtain n n1 out where "rs_nodes S to = Some n" "raft_deliver exec r n sender target msg = Inr (n1, out)"
    "S' = put_node S to n1 out (take i (rs_flight S) @ drop (Suc i) (rs_flight S))"
    using mv Deliver m by (auto split: if_splits option.splits sum.splits)
  ultimately show ?thesis by (metis raft_step.deliver)
qed (auto intro: raft_step.intros split: option.splits if_splits prod.splits)

lemma raft_schedule_reachable:
  "raft_schedule exec S evs = Some S' \<Longrightarrow> (raft_step exec)\<^sup>*\<^sup>* S S'"
proof (induction evs arbitrary: S)
  case (Cons ev evs)
  then obtain S1 where "raft_move exec S ev = Some S1" "raft_schedule exec S1 evs = Some S'"
    by (auto split: option.splits)
  then show ?case using raft_move_step Cons.IH by (meson converse_rtranclp_into_rtranclp)
qed simp

section \<open>Properties\<close>

text \<open>
  Two primaries in one term. In a cluster of three nodes there is a run after which two nodes are
  primary in the same term: a node that has voted for another node's term later starts its own
  candidacy with that same term number, votes for itself in it, and wins with a third vote.
\<close>

theorem raft_two_primaries_same_term:
  "\<exists>S na nc. raft_reachable mock_execute [''a'', ''b'', ''c''] [] S \<and> rs_nodes S ''a'' = Some na \<and> rs_nodes S ''c'' = Some nc \<and>
     raft_is_primary na \<and> raft_is_primary nc \<and> rn_term na = 1 \<and> rn_term nc = 1"
proof -
  define run where "run = raft_schedule mock_execute (raft_start 0 [''a'', ''b'', ''c''] [])
     (replicate 6 (Tick ''a'' 0) @ [Deliver 1 0, Deliver 1 0] @ replicate 6 (Tick ''c'' 0) @ [Deliver 4 0, Deliver 4 0])"
  have "case run of None \<Rightarrow> False | Some S \<Rightarrow>
      (case (rs_nodes S ''a'', rs_nodes S ''c'') of
         (Some na, Some nc) \<Rightarrow> raft_is_primary na \<and> raft_is_primary nc \<and> rn_term na = 1 \<and> rn_term nc = 1
       | _ \<Rightarrow> False)"
    unfolding run_def by code_simp
  then obtain S na nc where "run = Some S" "rs_nodes S ''a'' = Some na" "rs_nodes S ''c'' = Some nc"
    "raft_is_primary na" "raft_is_primary nc" "rn_term na = 1" "rn_term nc = 1"
    by (auto split: option.splits)
  then show ?thesis
    using raft_schedule_reachable unfolding run_def raft_reachable_def by blast
qed



text \<open>
  The number of votes that makes a primary, \<open>my_votes > others.size() / 2\<close>, is a majority exactly
  when the cluster has an odd number of nodes. With an even number, half of the votes are enough, so
  two candidates with disjoint supporters can both win.
\<close>

theorem raft_threshold_is_majority_iff_odd:
  "{v. enough_votes v n_others} \<subseteq> {v. 2 * v > Suc n_others} \<longleftrightarrow> odd (Suc n_others)"
proof
  assume maj: "{v. enough_votes v n_others} \<subseteq> {v. 2 * v > Suc n_others}"
  show "odd (Suc n_others)"
  proof
    assume "even (Suc n_others)"
    moreover from this have "enough_votes (Suc n_others div 2) n_others"
      by (auto simp: enough_votes_def elim!: evenE)
    ultimately show False using maj by fastforce
  qed
next
  assume "odd (Suc n_others)"
  then show "{v. enough_votes v n_others} \<subseteq> {v. 2 * v > Suc n_others}"
    by (auto simp: enough_votes_def elim!: evenE)
qed

text \<open>
  A command keeps primary and followers together: when the primary executes a command and a
  follower that recognises it as primary and has the same executor state receives the message it
  sent, the follower executes it without further messages and ends in the primary's state. A node
  that knows no primary drops commands, and a follower passes commands of anybody else on to its
  primary unchanged. This holds for every executor that meets the contract of
  \<open>IForConsensusExecutable\<close>.
\<close>

theorem raft_follower_agrees:
  assumes "replayable_executor exec invar" "invar (rn_exe p)" "raft_is_primary p" "rn_primary p \<noteq> []"
    and "handle_pleaseExecute exec p sender data = (p', out)" "(e, target, msg) \<in> set out"
    and "rn_exe n = rn_exe p" "rn_primary n = rn_me p" "rn_me n \<noteq> rn_me p"
  shows "target = ''/pleaseExecute'' \<and> e \<in> set (rn_others p) \<and>
         (\<exists>n'. handle_pleaseExecute exec n (rn_me p) msg = (n', []) \<and> rn_exe n' = rn_exe p') \<and>
         (x \<noteq> rn_me p \<longrightarrow> handle_pleaseExecute exec n x d = (n, [(rn_me p, ''/pleaseExecute'', d)])) \<and>
         handle_pleaseExecute exec (n\<lparr>rn_primary := []\<rparr>) x d = (n\<lparr>rn_primary := []\<rparr>, [])"
proof -
  obtain data1 s where ex: "exec (rn_exe p) data = (data1, s)" by (cases "exec (rn_exe p) data")
  have same: "exec (rn_exe p) data1 = (data1, s)"
    using replayable_executor.rewritten_same [OF assms(1,2) ex] by blast
  have "p' = p\<lparr>rn_exe := s\<rparr>" "target = ''/pleaseExecute''" "msg = data1" "e \<in> set (rn_others p)"
    using assms(3-6) by (auto simp: handle_pleaseExecute_def raft_execute_for_primary_def ex broadcast_def)
  then show ?thesis
    using assms(3,4,7-9) same
    by (simp add: handle_pleaseExecute_def raft_is_primary_def raft_execute_for_sub_def)
qed

theorem raft_follower_agrees_witness:
  "(let p = (RaftConsensus_ctor 0 ''a'' [] [''b''])\<lparr>rn_primary := ''a''\<rparr>;
        n = (RaftConsensus_ctor 0 ''b'' [] [''a''])\<lparr>rn_primary := ''a''\<rparr>
    in \<exists>n'. handle_pleaseExecute mock_execute n ''a'' ''x'' = (n', []) \<and> rn_exe n' = [''x''] \<and>
         rn_exe n' = rn_exe (fst (handle_pleaseExecute mock_execute p ''CLIENT'' ''x'')))"
proof -
  let ?p = "(RaftConsensus_ctor 0 ''a'' [] [''b''])\<lparr>rn_primary := ''a''\<rparr>"
  let ?n = "(RaftConsensus_ctor 0 ''b'' [] [''a''])\<lparr>rn_primary := ''a''\<rparr>"
  have run: "handle_pleaseExecute mock_execute ?p ''CLIENT'' ''x'' = (?p\<lparr>rn_exe := [''x'']\<rparr>, [(''b'', ''/pleaseExecute'', ''x'')])"
    by (simp add: handle_pleaseExecute_def raft_is_primary_def RaftConsensus_ctor_def raft_execute_for_primary_def
        mock_execute_def broadcast_def)
  then show ?thesis
    using raft_follower_agrees [OF mock.replayable_executor_axioms, of ?p "''CLIENT''" "''x''" "?p\<lparr>rn_exe := [''x'']\<rparr>"
        "[(''b'', ''/pleaseExecute'', ''x'')]" "''b''" "''/pleaseExecute''" "''x''" ?n "''b''" "[]"]
    by (simp add: RaftConsensus_ctor_def raft_is_primary_def)
qed

end
