(* ===== verification/Rbft.thy ===== *)
theory Rbft
  imports ListenToOne
begin

text \<open>
  The byzantine consensus (\<^verbatim>\<open>include/cnsss/pure-rbft.hpp\<close>): the primary of an epoch passes commands to
  the subs, which confirm and commit them in two rounds of votes; a timer replaces the primary with
  signed \<open>LaidDownMsg\<close>s that the next primary collects into a \<open>NewViewCertificate\<close>, and newcomers enter
  with the new view. A handler maps the node and a received text to the node it leaves and the messages
  it sends, together with the exception that leaves it, if one does.
\<close>

section \<open>Machine integers\<close>

text \<open>
  A C++ \<open>int\<close> is an \<open>int\<close> between \<open>-2^31\<close> and \<open>2^31 - 1\<close>; a \<open>size_t\<close> is a \<open>nat\<close> below \<open>2^64\<close>.
\<close>

definition int32_wrap :: "int \<Rightarrow> int" where
  "int32_wrap i = (i + 2 ^ 31) mod 2 ^ 32 - 2 ^ 31"

definition to_size_t :: "int \<Rightarrow> nat" where
  "to_size_t i = nat (i mod 2 ^ 64)"

definition size_sub :: "nat \<Rightarrow> nat \<Rightarrow> nat" where
  "size_sub a b = (if b \<le> a then a - b else a + 2 ^ 64 - b)"

lemma int32_wrap_id: "- (2 ^ 31) \<le> i \<Longrightarrow> i < 2 ^ 31 \<Longrightarrow> int32_wrap i = i"
  by (simp add: int32_wrap_def mod_pos_pos_trivial)

lemma to_size_t_id: "0 \<le> i \<Longrightarrow> i < 2 ^ 64 \<Longrightarrow> to_size_t i = nat i"
  by (simp add: to_size_t_def)

lemma size_sub_le: "b \<le> a \<Longrightarrow> size_sub a b = a - b"
  by (simp add: size_sub_def)

section \<open>Messages\<close>

record LaidDownMsg =
  ld_msg :: string
  ld_epoch :: int
  ld_state :: string

record PbLaidDownMsg =
  pb_ld_msg :: string
  pb_ld_epoch :: int
  pb_ld_state :: string

definition LaidDownMsg_toPb :: "LaidDownMsg \<Rightarrow> PbLaidDownMsg" where
  "LaidDownMsg_toPb m = \<lparr>pb_ld_msg = ld_msg m, pb_ld_epoch = ld_epoch m, pb_ld_state = ld_state m\<rparr>"

definition LaidDownMsg_fromPb :: "PbLaidDownMsg \<Rightarrow> LaidDownMsg result" where
  "LaidDownMsg_fromPb pb = Inr \<lparr>ld_msg = pb_ld_msg pb, ld_epoch = pb_ld_epoch pb, ld_state = pb_ld_state pb\<rparr>"

text \<open>\<open>value_to<int>\<close>: exact conversions only.\<close>

definition fits_int :: "int \<Rightarrow> int result" where
  "fits_int i = (if - (2 ^ 31) \<le> i \<and> i < 2 ^ 31 then Inr i else Inl Runtime_error)"

fun to_int32 :: "json \<Rightarrow> int result" where
  "to_int32 (JInt i) = fits_int i"
| "to_int32 (JUint u) = fits_int (uint u)"
| "to_int32 (JDouble m e) =
     (if e \<ge> 0 then fits_int (m * 2 ^ nat e)
      else if m mod 2 ^ nat (- e) = 0 then fits_int (m div 2 ^ nat (- e))
      else Inl Runtime_error)"
| "to_int32 _ = Inl Runtime_error"

definition LaidDownMsg_toJson :: "LaidDownMsg \<Rightarrow> json" where
  "LaidDownMsg_toJson c = JObj [(''msg'', JStr (ld_msg c)), (''epoch'', JInt (ld_epoch c)), (''state'', JStr (ld_state c))]"

definition LaidDownMsg_fromJson :: "json \<Rightarrow> LaidDownMsg option" where
  "LaidDownMsg_fromJson v = caught (
     bind_result (bind_result (json_at v ''msg'') as_string) (\<lambda>m.
     bind_result (bind_result (json_at v ''epoch'') to_int32) (\<lambda>e.
     bind_result (bind_result (json_at v ''state'') as_string) (\<lambda>s.
       Inr \<lparr>ld_msg = m, ld_epoch = e, ld_state = s\<rparr>))))"

record NewViewCertificate =
  nv_msg :: string
  nv_epoch :: int
  new_view_certificate :: "string list"
  nv_sigs :: "string list"
  nv_cmds :: "string list"

record PbNewViewCertificate =
  pb_nv_msg :: string
  pb_nv_epoch :: int
  pb_new_view_certificate :: "string list"
  pb_nv_sigs :: "string list"
  pb_nv_cmds :: "string list"

definition NewViewCertificate_ctor ::
  "string \<Rightarrow> int \<Rightarrow> string list \<Rightarrow> string list \<Rightarrow> string list \<Rightarrow> NewViewCertificate" where
  "NewViewCertificate_ctor m e certs sigs cmds =
     \<lparr>nv_msg = m, nv_epoch = e, new_view_certificate = certs, nv_sigs = sigs, nv_cmds = cmds\<rparr>"

definition NewViewCertificate_toPb :: "NewViewCertificate \<Rightarrow> PbNewViewCertificate" where
  "NewViewCertificate_toPb m =
     \<lparr>pb_nv_msg = nv_msg m, pb_nv_epoch = nv_epoch m, pb_new_view_certificate = new_view_certificate m,
      pb_nv_sigs = nv_sigs m, pb_nv_cmds = nv_cmds m\<rparr>"

definition NewViewCertificate_fromPb :: "PbNewViewCertificate \<Rightarrow> NewViewCertificate result" where
  "NewViewCertificate_fromPb pb =
     Inr \<lparr>nv_msg = pb_nv_msg pb, nv_epoch = pb_nv_epoch pb, new_view_certificate = pb_new_view_certificate pb,
          nv_sigs = pb_nv_sigs pb, nv_cmds = pb_nv_cmds pb\<rparr>"

definition NewViewCertificate_toJson :: "NewViewCertificate \<Rightarrow> json" where
  "NewViewCertificate_toJson c =
     JObj [(''msg'', JStr (nv_msg c)), (''epoch'', JInt (nv_epoch c)),
           (''new_view_certificate'', JArr (map JStr (new_view_certificate c))),
           (''sig_of_nodes_to_be_added'', JArr (map JStr (nv_sigs c))), (''cmds'', JArr (map JStr (nv_cmds c)))]"

definition NewViewCertificate_fromJson :: "json \<Rightarrow> NewViewCertificate option" where
  "NewViewCertificate_fromJson v = caught (
     bind_result (bind_result (json_at v ''msg'') as_string) (\<lambda>m.
     bind_result (bind_result (json_at v ''epoch'') to_int32) (\<lambda>e.
     bind_result (bind_result (json_at v ''new_view_certificate'') (value_to_vector as_string)) (\<lambda>cs.
     bind_result (bind_result (json_at v ''sig_of_nodes_to_be_added'') (value_to_vector as_string)) (\<lambda>ss.
     bind_result (bind_result (json_at v ''cmds'') (value_to_vector as_string)) (\<lambda>cmds.
       Inr \<lparr>nv_msg = m, nv_epoch = e, new_view_certificate = cs, nv_sigs = ss, nv_cmds = cmds\<rparr>))))))"

section \<open>Nodes\<close>

datatype rbft_role = Newcomer | Sub | Primary

record 's rbft_node =
  rb_exe :: 's
  rb_closed :: bool
  view_change_state :: bool
  epoch :: int
  rb_patience :: int
  rb_role :: rbft_role
  laid_down_history :: "int \<rightharpoonup> (string \<rightharpoonup> string list)"
  sig_of_nodes_to_be_added :: "string list"  \<comment> \<open>a \<open>std::set\<close>, in its order\<close>
  to_be_confirmed_commands :: "string \<rightharpoonup> string list"  \<comment> \<open>command to the \<open>std::set\<close> of its senders\<close>
  to_be_committed_commands :: "string \<rightharpoonup> string list"
  received_commands :: "string set"
  rb_history :: "string list"
  all_endpoints :: "string list"
  timer_running :: bool

text \<open>
  What a node is constructed with: its own address in the network, its executor, its message manager and the
  wire codecs.
\<close>

record 's rbft_env =
  listened_endpoint :: string
  rb_execute :: "'s cnsss_executor"
  prepare_msg :: "string \<Rightarrow> string result"
  tear_msg_open :: "string \<Rightarrow> (string \<times> string) option access"
  laid_codec :: "PbLaidDownMsg pb_codec"
  cert_codec :: "PbNewViewCertificate pb_codec"

type_synonym rbft_out = "string \<times> string \<times> string"

text \<open>
  How a handler ends: with the exception that leaves it, if any, the node as it is then, and the messages
  sent so far.
\<close>

type_synonym 's handled = "exn option \<times> 's rbft_node \<times> rbft_out list"

definition rbft_N :: "'s rbft_node \<Rightarrow> nat" where
  "rbft_N n = length (all_endpoints n)"

definition rbft_f :: "'s rbft_node \<Rightarrow> nat" where
  "rbft_f n = size_sub (length (all_endpoints n)) 1 div 3"

text \<open>
  \<open>all_endpoints[e % size()]\<close>: the epoch is converted to \<open>size_t\<close>; a division by zero is undefined.
\<close>

definition endpoint_at :: "string list \<Rightarrow> int \<Rightarrow> string result" where
  "endpoint_at es e = (if es = [] then Inl Undefined_read else Inr (es ! (to_size_t e mod length es)))"

definition rbft_primary :: "'s rbft_node \<Rightarrow> string result" where
  "rbft_primary n = endpoint_at (all_endpoints n) (epoch n)"

definition rbft_is_primary :: "'s rbft_env \<Rightarrow> 's rbft_node \<Rightarrow> bool" where
  "rbft_is_primary env n \<longleftrightarrow> \<not> view_change_state n \<and> rbft_primary n = Inr (listened_endpoint env)"

definition cmds_to_state :: "string list \<Rightarrow> string" where
  "cmds_to_state cmds = ''<mocked-state>''"

definition get_state :: "'s rbft_node \<Rightarrow> string" where
  "get_state n = cmds_to_state (rb_history n)"

text \<open>\<open>e + (e / N()) * num_newcomers\<close>, computed in \<open>size_t\<close> and converted to \<open>int\<close>.\<close>

definition epoch_considering_newcomers :: "'s rbft_node \<Rightarrow> int \<Rightarrow> nat \<Rightarrow> int" where
  "epoch_considering_newcomers n e num_newcomers =
     int32_wrap (int ((to_size_t e + (to_size_t e div rbft_N n) * num_newcomers) mod 2 ^ 64))"

definition rbft_comfort :: "'s rbft_node \<Rightarrow> 's rbft_node" where
  "rbft_comfort n = n\<lparr>rb_patience := 8\<rparr>"

definition clear_memory :: "'s rbft_node \<Rightarrow> 's rbft_node" where
  "clear_memory n = n\<lparr>view_change_state := False, received_commands := {}\<rparr>"

text \<open>
  The handlers a node listens with are those of its role, see \<open>rbft_deliver\<close>; \<open>start_listening_as_sub\<close> keeps
  them when the node is a sub already.
\<close>

definition start_listening_as_primary :: "'s rbft_node \<Rightarrow> 's rbft_node" where
  "start_listening_as_primary n = (clear_memory n)\<lparr>rb_role := Primary\<rparr>"

definition start_listening_as_sub :: "'s rbft_node \<Rightarrow> 's rbft_node" where
  "start_listening_as_sub n = (if rb_role n = Sub then clear_memory n else (clear_memory n)\<lparr>rb_role := Sub\<rparr>)"

definition boardcast_to_others :: "'s rbft_env \<Rightarrow> 's rbft_node \<Rightarrow> string \<Rightarrow> string \<Rightarrow> rbft_out list" where
  "boardcast_to_others env n target data =
     map (\<lambda>e. (e, target, data)) (filter (\<lambda>e. e \<noteq> listened_endpoint env) (all_endpoints n))"

definition boardcast_to_other_subs :: "'s rbft_env \<Rightarrow> 's rbft_node \<Rightarrow> string \<Rightarrow> string \<Rightarrow> rbft_out list" where
  "boardcast_to_other_subs env n target data =
     map (\<lambda>e. (e, target, data))
       (filter (\<lambda>e. e \<noteq> listened_endpoint env \<and> Inr e \<noteq> rbft_primary n) (all_endpoints n))"

section \<open>View change\<close>

text \<open>\<open>tear_msg_open\<close> of the manager; what it reads outside a container is undefined.\<close>

definition open_msg :: "'s rbft_env \<Rightarrow> string \<Rightarrow> (string \<times> string) option result" where
  "open_msg env s = (case tear_msg_open env s of UB \<Rightarrow> Inl Undefined_read | Val r \<Rightarrow> Inr r)"

definition parse_laid :: "'s rbft_env \<Rightarrow> string \<Rightarrow> LaidDownMsg option" where
  "parse_laid env = fromPbString (laid_codec env) LaidDownMsg_fromPb"

definition parse_cert :: "'s rbft_env \<Rightarrow> string \<Rightarrow> NewViewCertificate option" where
  "parse_cert env = fromPbString (cert_codec env) NewViewCertificate_fromPb"

text \<open>The sender and the message of a signed \<open>LaidDownMsg\<close>; both failures are assertions.\<close>

definition open_laid :: "'s rbft_env \<Rightarrow> string \<Rightarrow> (string \<times> LaidDownMsg) result" where
  "open_laid env s =
     bind_result (open_msg env s) (\<lambda>r.
       case r of
         None \<Rightarrow> Inl Assertion_error
       | Some (host, d) \<Rightarrow>
           (case parse_laid env d of None \<Rightarrow> Inl Assertion_error | Some msg \<Rightarrow> Inr (host, msg)))"

definition boost_assert :: "bool \<Rightarrow> unit result" where
  "boost_assert b = (if b then Inr () else Inl Assertion_error)"

text \<open>The loop of \<open>check_cert\<close> over all elements but the first, with the set of hosts.\<close>

fun check_rest :: "'s rbft_env \<Rightarrow> string \<Rightarrow> int \<Rightarrow> string list \<Rightarrow> string list \<Rightarrow> string list result" where
  "check_rest env st e hosts [] = Inr hosts"
| "check_rest env st e hosts (s # l) =
     bind_result (open_laid env s) (\<lambda>(host, msg).
     bind_result (boost_assert (ld_state msg = st)) (\<lambda>_.
     bind_result (boost_assert (ld_epoch msg = e)) (\<lambda>_.
       check_rest env st e (std_set_insert host hosts) l)))"

text \<open>\<open>check_cert\<close>: \<open>false\<close> when an assertion fails; the hosts of the certificate when it does not.\<close>

definition cert_hosts :: "'s rbft_env \<Rightarrow> 's rbft_node \<Rightarrow> string list \<Rightarrow> int \<Rightarrow> bool \<Rightarrow> string list result" where
  "cert_hosts env n l e for_newcomer =
     (case l of
        [] \<Rightarrow> Inl Assertion_error
      | s # rest \<Rightarrow>
          bind_result (open_laid env s) (\<lambda>(host0, msg0).
          bind_result (boost_assert (for_newcomer \<or> ld_state msg0 = get_state n)) (\<lambda>_.
          bind_result (check_rest env (if for_newcomer then ld_state msg0 else get_state n) e
                         (std_set_insert host0 []) rest) (\<lambda>hosts.
          bind_result (boost_assert (length hosts \<ge> size_sub (rbft_N n) (rbft_f n))) (\<lambda>_.
            Inr hosts)))))"

definition check_cert :: "'s rbft_env \<Rightarrow> 's rbft_node \<Rightarrow> string list \<Rightarrow> int \<Rightarrow> bool \<Rightarrow> bool result" where
  "check_cert env n l e for_newcomer =
     (case cert_hosts env n l e for_newcomer of
        Inr hosts \<Rightarrow> Inr True
      | Inl Assertion_error \<Rightarrow> Inr False
      | Inl x \<Rightarrow> Inl x)"

text \<open>The verified senders of the newcomers' messages, in the order of a \<open>std::set\<close>.\<close>

fun newcomers_from :: "'s rbft_env \<Rightarrow> string list \<Rightarrow> string list \<Rightarrow> string list result" where
  "newcomers_from env acc [] = Inr acc"
| "newcomers_from env acc (s # sigs) =
     bind_result (open_msg env s) (\<lambda>r.
       case r of None \<Rightarrow> newcomers_from env acc sigs
       | Some (host, d) \<Rightarrow> newcomers_from env (std_set_insert host acc) sigs)"

definition get_newcommers :: "'s rbft_env \<Rightarrow> string list \<Rightarrow> string list result" where
  "get_newcommers env sigs = newcomers_from env [] sigs"

text \<open>What a sub does with a valid certificate.\<close>

definition enter_new_view :: "'s rbft_node \<Rightarrow> int \<Rightarrow> string list \<Rightarrow> 's rbft_node" where
  "enter_new_view n e newcomers =
     start_listening_as_sub
       ((rbft_comfort (n\<lparr>epoch := epoch_considering_newcomers n e (length newcomers)\<rparr>))
          \<lparr>laid_down_history := Map.empty, sig_of_nodes_to_be_added := [],
           all_endpoints := all_endpoints n @ newcomers\<rparr>)"

definition handle_new_primary :: "'s rbft_env \<Rightarrow> 's rbft_node \<Rightarrow> string \<Rightarrow> string \<Rightarrow> 's handled" where
  "handle_new_primary env n endpoint data =
     (case parse_cert env data of
        None \<Rightarrow> (None, n, [])
      | Some cert \<Rightarrow>
          (case get_newcommers env (nv_sigs cert) of
             Inl x \<Rightarrow> (Some x, n, [])
           | Inr newcomers \<Rightarrow>
               if \<exists>c \<in> set newcomers. c \<in> set (all_endpoints n) then (None, n, [])
               else if epoch n > nv_epoch cert then (None, n, [])
               else
                 (case check_cert env n (new_view_certificate cert) (nv_epoch cert) False of
                    Inl x \<Rightarrow> (Some x, n, [])
                  | Inr ok \<Rightarrow>
                      if ok then (None, enter_new_view n (nv_epoch cert) newcomers, []) else (None, n, []))))"

text \<open>
  \<open>try_to_be_primary\<close>: its assertions come first and change nothing. The certificate with the command
  history is sent to the newcomers only.
\<close>

definition try_to_be_primary :: "'s rbft_env \<Rightarrow> 's rbft_node \<Rightarrow> int \<Rightarrow> string \<Rightarrow> string list \<Rightarrow> 's handled" where
  "try_to_be_primary env n e state my_list =
     (case endpoint_at (all_endpoints n) e of
        Inl x \<Rightarrow> (Some x, n, [])
      | Inr p \<Rightarrow>
          if p \<noteq> listened_endpoint env then (Some Assertion_error, n, [])
          else if get_state n \<noteq> state then (Some Assertion_error, n, [])
          else
            (let sigs = sig_of_nodes_to_be_added n; n1 = n\<lparr>sig_of_nodes_to_be_added := []\<rparr> in
             case get_newcommers env sigs of
               Inl x \<Rightarrow> (Some x, n1, [])
             | Inr newcomers \<Rightarrow>
                 if newcomers = [] then
                   (let m = NewViewCertificate_ctor ''Hi, I am the primary now'' e my_list [] [];
                        n2 = n1\<lparr>epoch := e\<rparr>
                    in (None, start_listening_as_primary n2,
                        boardcast_to_others env n2 ''/IamThePrimary'' (toPbString (cert_codec env) NewViewCertificate_toPb m)))
                 else
                   (let n2 = n1\<lparr>epoch := epoch_considering_newcomers n1 e (length newcomers)\<rparr>;
                        m = NewViewCertificate_ctor ''Hi, I am the primary now'' e my_list sigs [];
                        out1 = boardcast_to_others env n2 ''/IamThePrimary'' (toPbString (cert_codec env) NewViewCertificate_toPb m);
                        n3 = n2\<lparr>all_endpoints := all_endpoints n2 @ newcomers\<rparr>;
                        m1 = m\<lparr>nv_cmds := rb_history n3\<rparr>;
                        out2 = map (\<lambda>c. (c, ''/IamThePrimaryForNewcomer'', toPbString (cert_codec env) NewViewCertificate_toPb m1)) newcomers
                    in (None, start_listening_as_primary n3, out1 @ out2))))"

text \<open>
  \<open>data\<close> is the signed form of \<open>msg\<close>. The threshold passes through an \<open>int\<close>.
\<close>

definition laid_down_list :: "'s rbft_node \<Rightarrow> int \<Rightarrow> string \<Rightarrow> string list" where
  "laid_down_list n e st =
     (case laid_down_history n e of None \<Rightarrow> [] | Some m \<Rightarrow> (case m st of None \<Rightarrow> [] | Some l \<Rightarrow> l))"

definition put_laid_down_list :: "'s rbft_node \<Rightarrow> int \<Rightarrow> string \<Rightarrow> string list \<Rightarrow> 's rbft_node" where
  "put_laid_down_list n e st l =
     n\<lparr>laid_down_history :=
         (laid_down_history n)(e \<mapsto> ((case laid_down_history n e of None \<Rightarrow> Map.empty | Some m \<Rightarrow> m)(st \<mapsto> l)))\<rparr>"

definition remember_this_laiddown_and_be_primary_maybe ::
  "'s rbft_env \<Rightarrow> 's rbft_node \<Rightarrow> LaidDownMsg \<Rightarrow> string \<Rightarrow> 's handled" where
  "remember_this_laiddown_and_be_primary_maybe env n msg data =
     (let l = laid_down_list n (ld_epoch msg) (ld_state msg);
          x = to_size_t (int32_wrap (int (size_sub (rbft_N n) (rbft_f n))))
      in if data \<in> set l then (None, put_laid_down_list n (ld_epoch msg) (ld_state msg) l, [])
         else
           (let n1 = put_laid_down_list n (ld_epoch msg) (ld_state msg) (l @ [data])
            in if length (l @ [data]) \<ge> x then try_to_be_primary env n1 (ld_epoch msg) (ld_state msg) (l @ [data])
               else (None, n1, [])))"

text \<open>The assertions of \<open>handle_laid_down\<close>, and of what it calls, are caught; the node keeps what was done.\<close>

definition catch_assertion :: "'s handled \<Rightarrow> 's handled" where
  "catch_assertion h = (case h of (x, n, out) \<Rightarrow> (if x = Some Assertion_error then None else x, n, out))"

definition handle_laid_down :: "'s rbft_env \<Rightarrow> 's rbft_node \<Rightarrow> string \<Rightarrow> string \<Rightarrow> 's handled" where
  "handle_laid_down env n endpoint data =
     catch_assertion
       (case open_laid env data of
          Inl x \<Rightarrow> (Some x, n, [])
        | Inr (host, msg) \<Rightarrow>
            if ld_epoch msg < epoch n then (None, n, [])
            else
              (case endpoint_at (all_endpoints n) (ld_epoch msg) of
                 Inl x \<Rightarrow> (Some x, n, [])
               | Inr next_primary \<Rightarrow>
                   if next_primary \<noteq> listened_endpoint env then (None, n, [])
                   else remember_this_laiddown_and_be_primary_maybe env n msg data))"

definition trigger_view_change :: "'s rbft_env \<Rightarrow> 's rbft_node \<Rightarrow> 's handled" where
  "trigger_view_change env n =
     (let n1 = n\<lparr>epoch := int32_wrap (epoch n + 1), view_change_state := True\<rparr> in
      case rbft_primary n1 of
        Inl x \<Rightarrow> (Some x, n1, [])
      | Inr next_primary \<Rightarrow>
          (let msg = \<lparr>ld_msg = ''Dear '' @ next_primary @ '', I laid down for U.'', ld_epoch = epoch n1, ld_state = get_state n1\<rparr> in
           case prepare_msg env (toPbString (laid_codec env) LaidDownMsg_toPb msg) of
             Inl x \<Rightarrow> (Some x, n1, [])
           | Inr data \<Rightarrow>
               if next_primary = listened_endpoint env then remember_this_laiddown_and_be_primary_maybe env n1 msg data
               else (None, n1, [(next_primary, ''/ILaidDown'', data)])))"

text \<open>
  One round of the timer thread: a sleep with its check of \<open>closed\<close>, or the view change when the patience
  has run out, after which the outer loop ends or resets it. An exception ends the thread.
\<close>

definition faulty_timer_round :: "'s rbft_env \<Rightarrow> 's rbft_node \<Rightarrow> 's handled" where
  "faulty_timer_round env n =
     (if \<not> timer_running n then (None, n, [])
      else if rb_patience n > 0 then
        (if rb_closed n then (None, n\<lparr>timer_running := False\<rparr>, [])
         else (None, n\<lparr>rb_patience := rb_patience n - 1\<rparr>, []))
      else (case trigger_view_change env n of
              (Some x, n1, out) \<Rightarrow> (Some x, n1\<lparr>timer_running := False\<rparr>, out)
            | (None, n1, out) \<Rightarrow>
                (None, if rb_closed n1 then n1\<lparr>timer_running := False\<rparr> else rbft_comfort n1, out)))"

section \<open>Commands\<close>

text \<open>\<open>execute\<close> may rewrite the local copy of the command; the copy is what the history records.\<close>

definition finally_execute_it :: "'s rbft_env \<Rightarrow> 's rbft_node \<Rightarrow> string \<Rightarrow> 's rbft_node" where
  "finally_execute_it env n data =
     (let (data1, s) = rb_execute env (rb_exe n) data in n\<lparr>rb_exe := s, rb_history := rb_history n @ [data1]\<rparr>)"

definition vote_set :: "(string \<rightharpoonup> string list) \<Rightarrow> string \<Rightarrow> string list" where
  "vote_set m data = (case m data of None \<Rightarrow> [] | Some s \<Rightarrow> s)"

text \<open>\<open>N() - 1 - f()\<close>\<close>

definition votes_needed :: "'s rbft_node \<Rightarrow> nat" where
  "votes_needed n = size_sub (size_sub (rbft_N n) 1) (rbft_f n)"

definition add_to_to_be_committed_commands :: "'s rbft_env \<Rightarrow> 's rbft_node \<Rightarrow> string \<Rightarrow> string \<Rightarrow> 's rbft_node" where
  "add_to_to_be_committed_commands env n endpoint data =
     (let s = std_set_insert endpoint (vote_set (to_be_committed_commands n) data);
          n1 = n\<lparr>to_be_committed_commands := (to_be_committed_commands n)(data \<mapsto> s)\<rparr>
      in if length s \<ge> votes_needed n1
         then (let n2 = finally_execute_it env n1 data
               in n2\<lparr>to_be_committed_commands := (to_be_committed_commands n2)(data := None)\<rparr>)
         else n1)"

definition add_to_to_be_confirmed_commands ::
  "'s rbft_env \<Rightarrow> 's rbft_node \<Rightarrow> string \<Rightarrow> string \<Rightarrow> 's rbft_node \<times> rbft_out list" where
  "add_to_to_be_confirmed_commands env n endpoint data =
     (let s = std_set_insert endpoint (vote_set (to_be_confirmed_commands n) data);
          n1 = n\<lparr>to_be_confirmed_commands := (to_be_confirmed_commands n)(data \<mapsto> s)\<rparr>
      in if length s \<ge> votes_needed n1
         then (let out = boardcast_to_other_subs env n1 ''/pleaseCommitThis'' data;
                   n2 = add_to_to_be_committed_commands env n1 (listened_endpoint env) data
               in (n2\<lparr>to_be_confirmed_commands := (to_be_confirmed_commands n2)(data := None)\<rparr>, out))
         else (n1, []))"

definition handle_execute_for_sub1 :: "'s rbft_env \<Rightarrow> 's rbft_node \<Rightarrow> string \<Rightarrow> string \<Rightarrow> 's handled" where
  "handle_execute_for_sub1 env n endpoint data =
     (if view_change_state n then (None, n, [])
      else
        (case rbft_primary n of
           Inl x \<Rightarrow> (Some x, n, [])
         | Inr p \<Rightarrow>
             if endpoint = p then
               (let out = boardcast_to_other_subs env n ''/pleaseConfirmThis'' data;
                    (n1, out1) = add_to_to_be_confirmed_commands env n (listened_endpoint env) data
                in (None, n1, out @ out1))
             else (None, n, [(p, ''/pleaseExecuteThis'', data)])))"

definition handle_commit_for_sub :: "'s rbft_env \<Rightarrow> 's rbft_node \<Rightarrow> string \<Rightarrow> string \<Rightarrow> 's handled" where
  "handle_commit_for_sub env n endpoint data =
     (if view_change_state n then (None, n, []) else (None, add_to_to_be_committed_commands env n endpoint data, []))"

definition handle_confirm_for_sub :: "'s rbft_env \<Rightarrow> 's rbft_node \<Rightarrow> string \<Rightarrow> string \<Rightarrow> 's handled" where
  "handle_confirm_for_sub env n endpoint data =
     (if view_change_state n then (None, n, [])
      else (let (n1, out) = add_to_to_be_confirmed_commands env n endpoint data in (None, n1, out)))"

definition handle_execute_for_primary1 :: "'s rbft_env \<Rightarrow> 's rbft_node \<Rightarrow> string \<Rightarrow> string \<Rightarrow> 's handled" where
  "handle_execute_for_primary1 env n endpoint data =
     (if view_change_state n then (None, n, [])
      else if data \<in> received_commands n then (None, n, [])
      else (let n1 = finally_execute_it env n data in (None, n1, boardcast_to_others env n1 ''/pleaseExecuteThis'' data)))"

text \<open>\<open>ICnsssPrimaryBased::handle_execute\<close>, called by the RPC server and the sealer.\<close>

definition rbft_handle_execute :: "'s rbft_env \<Rightarrow> 's rbft_node \<Rightarrow> string \<Rightarrow> string \<Rightarrow> 's handled" where
  "rbft_handle_execute env n endpoint data =
     (if rbft_is_primary env n then handle_execute_for_primary1 env n endpoint data
      else handle_execute_for_sub1 env n endpoint data)"

section \<open>Newcomers\<close>

definition handle_add_new_node_no_boardcast :: "'s rbft_node \<Rightarrow> string \<Rightarrow> string \<Rightarrow> 's handled" where
  "handle_add_new_node_no_boardcast n endpoint data =
     (None, n\<lparr>sig_of_nodes_to_be_added := std_set_insert data (sig_of_nodes_to_be_added n)\<rparr>, [])"

text \<open>\<open>for (string & cmd : d.cmds) exe->execute(cmd)\<close>: the commands are rewritten in place.\<close>

fun execute_cmds :: "'s cnsss_executor \<Rightarrow> 's \<Rightarrow> string list \<Rightarrow> string list \<times> 's" where
  "execute_cmds exec s [] = ([], s)"
| "execute_cmds exec s (c # cs) =
     (let (c1, s1) = exec s c; (cs1, s2) = execute_cmds exec s1 cs in (c1 # cs1, s2))"

definition handle_new_primary_for_newcomer :: "'s rbft_env \<Rightarrow> 's rbft_node \<Rightarrow> string \<Rightarrow> string \<Rightarrow> 's handled" where
  "handle_new_primary_for_newcomer env n endpoint data =
     (case parse_cert env data of
        None \<Rightarrow> (None, n, [])
      | Some d \<Rightarrow>
          (case check_cert env n (new_view_certificate d) (nv_epoch d) True of
             Inl x \<Rightarrow> (Some x, n, [])
           | Inr ok \<Rightarrow>
               if \<not> ok then (None, n, [])
               else
                 (case get_newcommers env (nv_sigs d) of
                    Inl x \<Rightarrow> (Some x, n, [])
                  | Inr newcomers \<Rightarrow>
                      (let n1 = n\<lparr>epoch := epoch_considering_newcomers n (nv_epoch d) (length newcomers)\<rparr>;
                           n2 = n1\<lparr>all_endpoints := all_endpoints n1 @ newcomers\<rparr>
                       in if listened_endpoint env \<notin> set (all_endpoints n2) then (Some Assertion_error, n2, [])
                          else
                            (let (cmds, s) = execute_cmds (rb_execute env) (rb_exe n2) (nv_cmds d)
                             in (None, start_listening_as_sub
                                         (rbft_comfort (n2\<lparr>rb_exe := s, rb_history := cmds, timer_running := True\<rparr>)), []))))))"

definition start_listening_as_newcomer :: "'s rbft_env \<Rightarrow> 's rbft_node \<Rightarrow> 's handled" where
  "start_listening_as_newcomer env n =
     (case prepare_msg env ''Hi, please let me in.'' of
        Inl x \<Rightarrow> (Some x, n, [])
      | Inr sg \<Rightarrow> (None, n, boardcast_to_others env n ''/pleaseAddMeNoBoardcast'' sg))"

definition rbft_blank :: "'s \<Rightarrow> string list \<Rightarrow> 's rbft_node" where
  "rbft_blank s es =
     \<lparr>rb_exe = s, rb_closed = False, view_change_state = False, epoch = 0, rb_patience = 0, rb_role = Newcomer,
      laid_down_history = Map.empty, sig_of_nodes_to_be_added = [], to_be_confirmed_commands = Map.empty,
      to_be_committed_commands = Map.empty, received_commands = {}, rb_history = [], all_endpoints = es,
      timer_running = False\<rparr>"

definition RbftConsensus_ctor :: "'s rbft_env \<Rightarrow> 's \<Rightarrow> string list \<Rightarrow> 's handled" where
  "RbftConsensus_ctor env s es =
     (let n = rbft_blank s es in
      if listened_endpoint env \<notin> set es then start_listening_as_newcomer env n
      else
        (let n1 = (if rbft_primary n = Inr (listened_endpoint env) then start_listening_as_primary n else start_listening_as_sub n)
         in (None, rbft_comfort (n1\<lparr>timer_running := True\<rparr>), [])))"

definition RbftConsensus_dtor :: "'s rbft_node \<Rightarrow> 's rbft_node" where
  "RbftConsensus_dtor n = n\<lparr>rb_closed := True\<rparr>"

section \<open>Delivery\<close>

text \<open>The handlers that \<open>clear_and_listen_common_things\<close> and the \<open>start_listening_as_*\<close> functions register.\<close>

definition rbft_deliver :: "'s rbft_env \<Rightarrow> 's rbft_node \<Rightarrow> string \<Rightarrow> string \<Rightarrow> string \<Rightarrow> 's handled" where
  "rbft_deliver env n from target data =
     (if rb_closed n then (None, n, [])
      else if rb_role n = Newcomer then
        (if target = ''/IamThePrimaryForNewcomer'' then handle_new_primary_for_newcomer env n from data else (None, n, []))
      else if target = ''/ILaidDown'' then handle_laid_down env n from data
      else if target = ''/IamThePrimary'' then handle_new_primary env n from data
      else if target = ''/pleaseAddMeNoBoardcast'' then handle_add_new_node_no_boardcast n from data
      else if rb_role n = Primary then
        (if target = ''/pleaseExecuteThis'' then handle_execute_for_primary1 env n from data else (None, n, []))
      else if target = ''/pleaseExecuteThis'' then handle_execute_for_sub1 env n from data
      else if target = ''/pleaseConfirmThis'' then handle_confirm_for_sub env n from data
      else if target = ''/pleaseCommitThis'' then handle_commit_for_sub env n from data
      else (None, n, []))"

end
