(* ===== verification/RbftVotes.thy ===== *)
theory RbftVotes
  imports Rbft
begin

text \<open>
  The two voting rounds of the byzantine consensus: quorums, what has to be received before a sub executes
  a command, and that the commits of one round execute it exactly once.
\<close>

section \<open>Quorums\<close>

lemma rbft_f_eq: "all_endpoints n \<noteq> [] \<Longrightarrow> rbft_f n = (rbft_N n - 1) div 3"
  by (cases "all_endpoints n") (simp_all add: rbft_f_def rbft_N_def size_sub_def)

lemma votes_needed_eq: "all_endpoints n \<noteq> [] \<Longrightarrow> votes_needed n = rbft_N n - 1 - rbft_f n"
  using rbft_f_eq [of n] by (cases "all_endpoints n") (simp_all add: votes_needed_def rbft_N_def size_sub_def)

lemma certs_needed_eq: "all_endpoints n \<noteq> [] \<Longrightarrow> size_sub (rbft_N n) (rbft_f n) = rbft_N n - rbft_f n"
  using rbft_f_eq [of n] by (simp add: size_sub_def rbft_N_def)

lemmas thresholds = rbft_f_eq votes_needed_eq certs_needed_eq

text \<open>
  What a voting rule promises: two quorums of the voters have more members in common than the number of
  voters that may be faulty.
\<close>

locale quorum_system =
  fixes voters :: "'n \<Rightarrow> 'a set"
    and tolerated :: "'n \<Rightarrow> nat"
    and quorum :: "'n \<Rightarrow> nat"
    and valid :: "'n \<Rightarrow> bool"
  assumes finite_voters: "finite (voters n)"
    and overlap: "valid n \<Longrightarrow> card (voters n) + tolerated n < 2 * quorum n"
begin

lemma quorums_share_correct:
  assumes "valid n" "A \<subseteq> voters n" "B \<subseteq> voters n" "quorum n \<le> card A" "quorum n \<le> card B"
    and "card (F \<inter> voters n) \<le> tolerated n"
  shows "\<exists>x \<in> A \<inter> B. x \<notin> F"
proof (rule ccontr)
  assume "\<not> ?thesis"
  then have sub: "A \<inter> B \<subseteq> F \<inter> voters n" using assms(2) by blast
  have fin: "finite A" "finite B" using assms(2,3) finite_voters finite_subset by blast+
  have "card A + card B = card (A \<union> B) + card (A \<inter> B)" using fin by (rule card_Un_Int)
  moreover have "card (A \<union> B) \<le> card (voters n)" using assms(2,3) finite_voters by (simp add: card_mono)
  moreover have "card (A \<inter> B) \<le> tolerated n"
    using card_mono [OF _ sub] assms(6) finite_voters [of n] by simp
  ultimately show False using overlap [OF assms(1)] assms(4,5) by linarith
qed

end

definition rbft_group_ok :: "'s rbft_node \<Rightarrow> bool" where
  "rbft_group_ok n \<longleftrightarrow> distinct (all_endpoints n) \<and> 2 \<le> length (all_endpoints n)"

definition rbft_subs :: "'s rbft_node \<Rightarrow> string set" where
  "rbft_subs n = set (all_endpoints n) - {p. rbft_primary n = Inr p}"

lemma card_rbft_subs: "rbft_group_ok n \<Longrightarrow> card (rbft_subs n) = rbft_N n - 1"
proof -
  assume ok: "rbft_group_ok n"
  then have ne: "all_endpoints n \<noteq> []" by (auto simp: rbft_group_ok_def)
  let ?p = "all_endpoints n ! (to_size_t (epoch n) mod length (all_endpoints n))"
  have "{p. rbft_primary n = Inr p} = {?p}" using ne by (auto simp: rbft_primary_def endpoint_at_def)
  moreover have "?p \<in> set (all_endpoints n)" using ne by (intro nth_mem) simp
  ultimately show ?thesis
    using ok by (simp add: rbft_subs_def rbft_group_ok_def rbft_N_def distinct_card)
qed

interpretation view_quorum: quorum_system "\<lambda>n. set (all_endpoints n)" rbft_f "\<lambda>n. size_sub (rbft_N n) (rbft_f n)" rbft_group_ok
proof unfold_locales
  fix n :: "'s rbft_node"
  assume "rbft_group_ok n"
  then have "all_endpoints n \<noteq> []" "card (set (all_endpoints n)) = rbft_N n" "2 \<le> rbft_N n"
    by (auto simp: rbft_group_ok_def rbft_N_def distinct_card)
  then show "card (set (all_endpoints n)) + rbft_f n < 2 * size_sub (rbft_N n) (rbft_f n)"
    by (simp add: certs_needed_eq, simp add: rbft_f_eq)
qed simp

interpretation vote_quorum: quorum_system rbft_subs "\<lambda>n. rbft_f n - 1" votes_needed rbft_group_ok
proof unfold_locales
  fix n :: "'s rbft_node"
  assume ok: "rbft_group_ok n"
  then have "all_endpoints n \<noteq> []" "2 \<le> rbft_N n" by (auto simp: rbft_group_ok_def rbft_N_def)
  then show "card (rbft_subs n) + (rbft_f n - 1) < 2 * votes_needed n"
    by (simp add: thresholds card_rbft_subs [OF ok])
qed (simp add: rbft_subs_def)

section \<open>Runs of one sub\<close>

text \<open>What a node becomes when the messages are delivered to it in this order.\<close>

fun rbft_run :: "'s rbft_env \<Rightarrow> 's rbft_node \<Rightarrow> (string \<times> string \<times> string) list \<Rightarrow> 's rbft_node" where
  "rbft_run env n [] = n"
| "rbft_run env n ((from, target, data) # evs) = rbft_run env (fst (snd (rbft_deliver env n from target data))) evs"

lemma rbft_run_append [simp]: "rbft_run env n (evs @ evs') = rbft_run env (rbft_run env n evs) evs'"
  by (induction env n evs rule: rbft_run.induct) simp_all

definition command_targets :: "string set" where
  "command_targets = {''/pleaseExecuteThis'', ''/pleaseConfirmThis'', ''/pleaseCommitThis''}"

text \<open>
  The endpoints a sub has heard a confirmation or a commit of a command from, itself included: it confirms
  what its primary has sent, and commits what enough subs have confirmed.
\<close>

definition confirmers :: "'s rbft_env \<Rightarrow> 's rbft_node \<Rightarrow> (string \<times> string \<times> string) list \<Rightarrow> string \<Rightarrow> string set" where
  "confirmers env n evs d =
     {e. (e, ''/pleaseConfirmThis'', d) \<in> set evs} \<union>
     {e. e = listened_endpoint env \<and> (\<exists>p. rbft_primary n = Inr p \<and> (p, ''/pleaseExecuteThis'', d) \<in> set evs)}"

definition committers :: "'s rbft_env \<Rightarrow> 's rbft_node \<Rightarrow> (string \<times> string \<times> string) list \<Rightarrow> string \<Rightarrow> string set" where
  "committers env n evs d =
     {e. (e, ''/pleaseCommitThis'', d) \<in> set evs} \<union>
     {e. e = listened_endpoint env \<and> votes_needed n \<le> card (confirmers env n evs d)}"

definition votes_within :: "(string \<rightharpoonup> string list) \<Rightarrow> (string \<Rightarrow> string set) \<Rightarrow> bool" where
  "votes_within m allowed \<longleftrightarrow> (\<forall>d. distinct (vote_set m d) \<and> set (vote_set m d) \<subseteq> allowed d)"

lemma votes_within_insert:
  "votes_within m allowed \<Longrightarrow> e \<in> allowed d \<Longrightarrow> votes_within (m(d \<mapsto> std_set_insert e (vote_set m d))) allowed"
  by (auto simp: votes_within_def vote_set_def split: if_splits)

lemma votes_within_erase: "votes_within m allowed \<Longrightarrow> votes_within (m(d := None)) allowed"
  by (auto simp: votes_within_def vote_set_def)

lemma votes_within_mono: "votes_within m A \<Longrightarrow> (\<And>d. A d \<subseteq> B d) \<Longrightarrow> votes_within m B"
  by (fastforce simp: votes_within_def)

text \<open>What the votes leave alone.\<close>

definition same_group :: "'s rbft_node \<Rightarrow> 's rbft_node \<Rightarrow> bool" where
  "same_group n n1 \<longleftrightarrow> all_endpoints n1 = all_endpoints n \<and> epoch n1 = epoch n \<and> rb_role n1 = rb_role n \<and>
     rb_closed n1 = rb_closed n \<and> view_change_state n1 = view_change_state n \<and> received_commands n1 = received_commands n"

lemma same_group_refl [simp]: "same_group n n"
  by (simp add: same_group_def)

lemma same_group_trans: "same_group a b \<Longrightarrow> same_group b c \<Longrightarrow> same_group a c"
  by (simp add: same_group_def)

lemma same_group_votes: "same_group n n1 \<Longrightarrow> votes_needed n1 = votes_needed n \<and> rbft_primary n1 = rbft_primary n"
  by (simp add: same_group_def votes_needed_def rbft_N_def rbft_f_def rbft_primary_def)

text \<open>A commit: the vote is recorded, or the command is executed on the strength of a quorum and its votes erased.\<close>

lemma commit_cases:
  fixes env n e d
  defines "s \<equiv> std_set_insert e (vote_set (to_be_committed_commands n) d)"
  defines "n1 \<equiv> add_to_to_be_committed_commands env n e d"
  shows "same_group n n1 \<and> to_be_confirmed_commands n1 = to_be_confirmed_commands n \<and>
    (if votes_needed n \<le> length s
     then rb_exe n1 = snd (rb_execute env (rb_exe n) d) \<and> rb_history n1 = rb_history n @ [fst (rb_execute env (rb_exe n) d)] \<and>
          to_be_committed_commands n1 = (to_be_committed_commands n)(d := None)
     else rb_exe n1 = rb_exe n \<and> rb_history n1 = rb_history n \<and>
          to_be_committed_commands n1 = (to_be_committed_commands n)(d \<mapsto> s))"
  by (auto simp: n1_def s_def add_to_to_be_committed_commands_def finally_execute_it_def same_group_def Let_def
      votes_needed_def rbft_N_def rbft_f_def split: prod.splits)

lemma finite_confirmers [simp]: "finite (confirmers env n evs d)"
proof -
  have "{e. (e, t, d) \<in> set evs} \<subseteq> fst ` set evs" for t by force
  then show ?thesis by (auto simp: confirmers_def intro: finite_subset)
qed

lemma finite_committers [simp]: "finite (committers env n evs d)"
proof -
  have "{e. (e, t, d) \<in> set evs} \<subseteq> fst ` set evs" for t by force
  then show ?thesis by (auto simp: committers_def intro: finite_subset)
qed

lemma confirmers_mono: "confirmers env n evs d \<subseteq> confirmers env n (evs @ evs') d"
  by (auto simp: confirmers_def)

lemma committers_mono: "committers env n evs d \<subseteq> committers env n (evs @ evs') d"
  using card_mono [OF finite_confirmers confirmers_mono, of env n evs d evs'] by (auto simp: committers_def)

lemma votes_within_length:
  assumes "votes_within m allowed" "finite (allowed d)" shows "length (vote_set m d) \<le> card (allowed d)"
proof -
  have "length (vote_set m d) = card (set (vote_set m d))" using assms(1) by (simp add: votes_within_def distinct_card)
  also have "\<dots> \<le> card (allowed d)" using assms by (auto simp: votes_within_def intro: card_mono)
  finally show ?thesis .
qed

definition vote_inv :: "'s rbft_env \<Rightarrow> 's rbft_node \<Rightarrow> (string \<times> string \<times> string) list \<Rightarrow> 's rbft_node \<Rightarrow> bool" where
  "vote_inv env n0 evs n \<longleftrightarrow> same_group n0 n \<and>
     votes_within (to_be_confirmed_commands n) (confirmers env n0 evs) \<and>
     votes_within (to_be_committed_commands n) (committers env n0 evs) \<and>
     (\<exists>hs. rb_history n = rb_history n0 @ hs \<and>
        (\<forall>h \<in> set hs. \<exists>d st. h = fst (rb_execute env st d) \<and> votes_needed n0 \<le> card (committers env n0 evs d)))"

lemma vote_inv_mono: "vote_inv env n0 evs n \<Longrightarrow> vote_inv env n0 (evs @ evs') n"
proof -
  assume inv: "vote_inv env n0 evs n"
  have card_le: "card (committers env n0 evs d) \<le> card (committers env n0 (evs @ evs') d)" for d
    by (rule card_mono [OF finite_committers committers_mono])
  show ?thesis
    using inv unfolding vote_inv_def
    by (meson card_le confirmers_mono committers_mono votes_within_mono order_trans)
qed

lemma vote_inv_commit:
  assumes inv: "vote_inv env n0 evs n" and e: "e \<in> committers env n0 evs d"
  shows "vote_inv env n0 evs (add_to_to_be_committed_commands env n e d)"
proof -
  let ?s = "std_set_insert e (vote_set (to_be_committed_commands n) d)"
  let ?n1 = "add_to_to_be_committed_commands env n e d"
  have grp: "same_group n0 n" and vn: "votes_needed n = votes_needed n0"
    using inv same_group_votes by (auto simp: vote_inv_def)
  have ins: "votes_within ((to_be_committed_commands n)(d \<mapsto> ?s)) (committers env n0 evs)"
    using inv e by (simp add: vote_inv_def votes_within_insert)
  have era: "votes_within ((to_be_committed_commands n)(d := None)) (committers env n0 evs)"
    using inv by (simp add: vote_inv_def votes_within_erase)
  have len: "length ?s \<le> card (committers env n0 evs d)"
    using votes_within_length [OF ins, of d] by (simp add: vote_set_def)
  obtain hs where hs: "rb_history n = rb_history n0 @ hs"
    "\<forall>h \<in> set hs. \<exists>d st. h = fst (rb_execute env st d) \<and> votes_needed n0 \<le> card (committers env n0 evs d)"
    using inv by (auto simp: vote_inv_def)
  note cs = commit_cases [of n env e d]
  show ?thesis
  proof (cases "votes_needed n \<le> length ?s")
    case True
    then have "\<forall>h \<in> set (hs @ [fst (rb_execute env (rb_exe n) d)]). \<exists>d st. h = fst (rb_execute env st d) \<and>
        votes_needed n0 \<le> card (committers env n0 evs d)"
      using hs(2) len vn by fastforce
    moreover have "rb_history ?n1 = rb_history n0 @ hs @ [fst (rb_execute env (rb_exe n) d)]" using cs True hs(1) by simp
    moreover have "same_group n0 ?n1" using cs grp same_group_trans by blast
    ultimately show ?thesis using cs True era inv unfolding vote_inv_def by auto
  next
    case False
    moreover have "same_group n0 ?n1" using cs grp same_group_trans by blast
    ultimately show ?thesis using cs ins hs inv unfolding vote_inv_def by auto
  qed
qed

lemma vote_inv_set_confirmed:
  "vote_inv env n0 evs n \<Longrightarrow> votes_within m (confirmers env n0 evs) \<Longrightarrow> vote_inv env n0 evs (n\<lparr>to_be_confirmed_commands := m\<rparr>)"
  by (auto simp: vote_inv_def same_group_def)

lemma vote_inv_confirm:
  assumes inv: "vote_inv env n0 evs n" and e: "e \<in> confirmers env n0 evs d"
  shows "vote_inv env n0 evs (fst (add_to_to_be_confirmed_commands env n e d))"
proof -
  let ?s = "std_set_insert e (vote_set (to_be_confirmed_commands n) d)"
  let ?n1 = "n\<lparr>to_be_confirmed_commands := (to_be_confirmed_commands n)(d \<mapsto> ?s)\<rparr>"
  let ?n2 = "add_to_to_be_committed_commands env ?n1 (listened_endpoint env) d"
  have vn: "votes_needed ?n1 = votes_needed n0"
    using inv by (simp add: vote_inv_def same_group_def votes_needed_def rbft_N_def rbft_f_def)
  have ins: "votes_within ((to_be_confirmed_commands n)(d \<mapsto> ?s)) (confirmers env n0 evs)"
    using inv e by (simp add: vote_inv_def votes_within_insert)
  then have inv1: "vote_inv env n0 evs ?n1" by (rule vote_inv_set_confirmed [OF inv])
  show ?thesis
  proof (cases "votes_needed ?n1 \<le> length ?s")
    case True
    have "length ?s \<le> card (confirmers env n0 evs d)"
      using votes_within_length [OF ins, of d] by (simp add: vote_set_def)
    then have "listened_endpoint env \<in> committers env n0 evs d" using True vn by (simp add: committers_def)
    then have inv2: "vote_inv env n0 evs ?n2" by (rule vote_inv_commit [OF inv1])
    then have "vote_inv env n0 evs (?n2\<lparr>to_be_confirmed_commands := (to_be_confirmed_commands ?n2)(d := None)\<rparr>)"
      by (rule vote_inv_set_confirmed) (use inv2 in \<open>simp add: vote_inv_def votes_within_erase\<close>)
    then show ?thesis using True by (simp add: add_to_to_be_confirmed_commands_def Let_def)
  next
    case False
    then show ?thesis using inv1 by (simp add: add_to_to_be_confirmed_commands_def Let_def)
  qed
qed

lemma vote_inv_deliver:
  assumes inv: "vote_inv env n0 evs n" and "rb_role n0 = Sub" "target \<in> command_targets"
  shows "vote_inv env n0 (evs @ [(from, target, d)]) (fst (snd (rbft_deliver env n from target d)))"
proof -
  let ?evs = "evs @ [(from, target, d)]"
  have inv': "vote_inv env n0 ?evs n" by (rule vote_inv_mono [OF inv])
  have grp: "rb_role n = Sub" "rbft_primary n = rbft_primary n0"
    using inv assms(2) by (simp_all add: vote_inv_def same_group_def rbft_primary_def)
  have cm: "from \<in> committers env n0 ?evs d" if "target = ''/pleaseCommitThis''" using that by (simp add: committers_def)
  have cf: "from \<in> confirmers env n0 ?evs d" if "target = ''/pleaseConfirmThis''" using that by (simp add: confirmers_def)
  have me: "listened_endpoint env \<in> confirmers env n0 ?evs d" if "target = ''/pleaseExecuteThis''" "rbft_primary n = Inr from"
    using that grp by (auto simp: confirmers_def)
  consider "target = ''/pleaseExecuteThis''" | "target = ''/pleaseConfirmThis''" | "target = ''/pleaseCommitThis''"
    using assms(3) by (auto simp: command_targets_def)
  then show ?thesis
  proof cases
    case 1
    then show ?thesis
      using inv' grp(1) vote_inv_confirm [OF inv' me]
      by (auto simp: rbft_deliver_def handle_execute_for_sub1_def Let_def case_prod_beta split: sum.splits)
  next
    case 2
    then show ?thesis
      using inv' grp(1) vote_inv_confirm [OF inv' cf]
      by (simp add: rbft_deliver_def handle_confirm_for_sub_def Let_def case_prod_beta)
  next
    case 3
    then show ?thesis
      using inv' grp(1) vote_inv_commit [OF inv' cm] by (simp add: rbft_deliver_def handle_commit_for_sub_def)
  qed
qed

lemma vote_inv_run:
  assumes "rb_role n = Sub" "to_be_confirmed_commands n = Map.empty" "to_be_committed_commands n = Map.empty"
    and "\<forall>(from, target, d) \<in> set evs. target \<in> command_targets"
  shows "vote_inv env n evs (rbft_run env n evs)"
  using assms(4)
proof (induction evs rule: rev_induct)
  case Nil
  then show ?case using assms by (simp add: vote_inv_def votes_within_def vote_set_def)
next
  case (snoc ev evs)
  obtain sender target d where ev: "ev = (sender, target, d)" by (cases ev)
  show ?case using vote_inv_deliver [OF snoc.IH assms(1)] snoc.prems by (simp add: ev)
qed

section \<open>One round of commits\<close>

definition commits_from :: "string list \<Rightarrow> string \<Rightarrow> (string \<times> string \<times> string) list" where
  "commits_from senders d = map (\<lambda>e. (e, ''/pleaseCommitThis'', d)) senders"

definition voting :: "'s rbft_node \<Rightarrow> bool" where
  "voting n \<longleftrightarrow> rb_role n = Sub \<and> \<not> rb_closed n \<and> \<not> view_change_state n"

lemma deliver_commit:
  "voting n \<Longrightarrow> fst (snd (rbft_deliver env n e ''/pleaseCommitThis'' d)) = add_to_to_be_committed_commands env n e d"
  by (simp add: voting_def rbft_deliver_def handle_commit_for_sub_def)

lemma voting_same_group: "same_group n n1 \<Longrightarrow> voting n1 = voting n"
  by (simp add: voting_def same_group_def)

text \<open>Fewer votes than needed are remembered and nothing else.\<close>

lemma few_commits:
  assumes "voting n" "distinct senders" "set senders \<inter> set (vote_set (to_be_committed_commands n) d) = {}"
    and "length (vote_set (to_be_committed_commands n) d) + length senders < votes_needed n"
  shows "let n1 = rbft_run env n (commits_from senders d) in
    same_group n n1 \<and> rb_exe n1 = rb_exe n \<and> rb_history n1 = rb_history n \<and>
    set (vote_set (to_be_committed_commands n1) d) = set senders \<union> set (vote_set (to_be_committed_commands n) d) \<and>
    length (vote_set (to_be_committed_commands n1) d) = length senders + length (vote_set (to_be_committed_commands n) d)"
  using assms
proof (induction senders arbitrary: n)
  case Nil
  then show ?case by (simp add: commits_from_def)
next
  case (Cons e senders)
  let ?n1 = "add_to_to_be_committed_commands env n e d"
  have len: "length (std_set_insert e (vote_set (to_be_committed_commands n) d)) = Suc (length (vote_set (to_be_committed_commands n) d))"
    using Cons.prems(3) by (simp add: length_std_set_insert)
  then have n1: "same_group n ?n1" "rb_exe ?n1 = rb_exe n" "rb_history ?n1 = rb_history n"
    "vote_set (to_be_committed_commands ?n1) d = std_set_insert e (vote_set (to_be_committed_commands n) d)"
    using commit_cases [of n env e d] Cons.prems(4) by (auto simp: vote_set_def)
  have "let n2 = rbft_run env ?n1 (commits_from senders d) in
    same_group ?n1 n2 \<and> rb_exe n2 = rb_exe ?n1 \<and> rb_history n2 = rb_history ?n1 \<and>
    set (vote_set (to_be_committed_commands n2) d) = set senders \<union> set (vote_set (to_be_committed_commands ?n1) d) \<and>
    length (vote_set (to_be_committed_commands n2) d) = length senders + length (vote_set (to_be_committed_commands ?n1) d)"
    by (rule Cons.IH) (use Cons.prems n1 len voting_same_group [OF n1(1)] same_group_votes [OF n1(1)] in \<open>auto simp: length_std_set_insert\<close>)
  moreover have "rbft_run env n (commits_from (e # senders) d) = rbft_run env ?n1 (commits_from senders d)"
    using deliver_commit [OF Cons.prems(1), of env e d] by (simp add: commits_from_def)
  ultimately show ?case using n1 len same_group_trans by (auto simp: Let_def)
qed

lemma quorum_of_commits:
  assumes v: "voting n" and d: "distinct senders" and none: "to_be_committed_commands n d = None"
    and len: "length senders = votes_needed n" and pos: "0 < votes_needed n"
  shows "let n1 = rbft_run env n (commits_from senders d) in
    same_group n n1 \<and> rb_exe n1 = snd (rb_execute env (rb_exe n) d) \<and>
    rb_history n1 = rb_history n @ [fst (rb_execute env (rb_exe n) d)] \<and> to_be_committed_commands n1 d = None"
proof -
  obtain ss e where senders: "senders = ss @ [e]" using len pos by (cases senders rule: rev_cases) auto
  let ?n1 = "rbft_run env n (commits_from ss d)"
  have n1: "same_group n ?n1" "rb_exe ?n1 = rb_exe n" "rb_history ?n1 = rb_history n"
    "set (vote_set (to_be_committed_commands ?n1) d) = set ss" "length (vote_set (to_be_committed_commands ?n1) d) = length ss"
    using few_commits [OF v, of ss d env] d len senders none by (auto simp: Let_def vote_set_def)
  have "length (std_set_insert e (vote_set (to_be_committed_commands ?n1) d)) = votes_needed ?n1"
    using n1 d len senders same_group_votes [OF n1(1)] by (auto simp: length_std_set_insert)
  moreover have "rbft_run env n (commits_from senders d) = add_to_to_be_committed_commands env ?n1 e d"
    using deliver_commit [of ?n1 env e d] voting_same_group [OF n1(1)] v by (simp add: senders commits_from_def)
  ultimately show ?thesis using commit_cases [of ?n1 env e d] n1 same_group_trans by (auto simp: Let_def)
qed

section \<open>A sample cluster\<close>

definition laid_demo_codec :: "PbLaidDownMsg pb_codec" where
  "laid_demo_codec =
     \<lparr>SerializeAsString = (\<lambda>m. strs_enc [pb_ld_msg m, replicate (nat (pb_ld_epoch m)) CHR ''i'', pb_ld_state m]),
      ParseFromString = (\<lambda>s. case strs_dec [] s of
        Some [a, b, c] \<Rightarrow> Some \<lparr>pb_ld_msg = a, pb_ld_epoch = int (length b), pb_ld_state = c\<rparr> | _ \<Rightarrow> None)\<rparr>"

definition cert_demo_codec :: "PbNewViewCertificate pb_codec" where
  "cert_demo_codec =
     \<lparr>SerializeAsString = (\<lambda>m. strs_enc ([pb_nv_msg m, replicate (nat (pb_nv_epoch m)) CHR ''i'',
          replicate (length (pb_new_view_certificate m)) CHR ''i'', replicate (length (pb_nv_sigs m)) CHR ''i''] @
          pb_new_view_certificate m @ pb_nv_sigs m @ pb_nv_cmds m)),
      ParseFromString = (\<lambda>s. case strs_dec [] s of
        Some (a # b # c # d # rest) \<Rightarrow> Some \<lparr>pb_nv_msg = a, pb_nv_epoch = int (length b),
           pb_new_view_certificate = take (length c) rest, pb_nv_sigs = take (length d) (drop (length c) rest),
           pb_nv_cmds = drop (length d) (drop (length c) rest)\<rparr> | _ \<Rightarrow> None)\<rparr>"

text \<open>Nodes with \<open>NaiveMsgMgr\<close> as message manager and \<open>mock::Executable\<close> as executor.\<close>

definition demo_rbft_env :: "string \<Rightarrow> string list rbft_env" where
  "demo_rbft_env me =
     \<lparr>listened_endpoint = me, rb_execute = mock_execute, prepare_msg = naive_prepare_msg \<lparr>ep = me\<rparr>,
      tear_msg_open = naive_tear_msg_open \<lparr>ep = me\<rparr>, laid_codec = laid_demo_codec, cert_codec = cert_demo_codec\<rparr>"

definition demo_sub :: "string list rbft_node" where
  "demo_sub = start_listening_as_sub (rbft_blank [] [''p'', ''a'', ''b'', ''c''])"

lemma demo_sub_fields [simp]:
  "rb_role demo_sub = Sub" "\<not> rb_closed demo_sub" "\<not> view_change_state demo_sub" "rb_exe demo_sub = []" "rb_history demo_sub = []"
  "to_be_committed_commands demo_sub = Map.empty" "to_be_confirmed_commands demo_sub = Map.empty"
  "all_endpoints demo_sub = [''p'', ''a'', ''b'', ''c'']" "epoch demo_sub = 0" "sig_of_nodes_to_be_added demo_sub = []"
  "laid_down_history demo_sub = Map.empty"
  by (simp_all add: demo_sub_def start_listening_as_sub_def rbft_blank_def clear_memory_def)

lemma demo_sub_thresholds [simp]: "rbft_f demo_sub = 1" "votes_needed demo_sub = 2" "rbft_N demo_sub = 4" "rbft_primary demo_sub = Inr ''p''"
  by (simp_all add: rbft_f_def votes_needed_def rbft_N_def size_sub_def rbft_primary_def endpoint_at_def to_size_t_def)

section \<open>Properties\<close>



text \<open>
  C1. A sub executes nothing without a quorum. Whatever commands, confirmations and commits reach a fresh sub,
  in whatever order and from whomever, every entry its history gains comes from a command that
  \<open>N() - 1 - f()\<close> distinct endpoints have committed; and the sub counts itself among them only when as many
  distinct endpoints have confirmed the command, itself only when its primary has sent it.
\<close>

theorem rbft_executes_only_with_quorum:
  assumes "rb_role n = Sub" "to_be_confirmed_commands n = Map.empty" "to_be_committed_commands n = Map.empty"
    and "\<forall>(from, target, d) \<in> set evs. target \<in> command_targets"
  shows "\<exists>hs. rb_history (rbft_run env n evs) = rb_history n @ hs \<and>
    (\<forall>h \<in> set hs. \<exists>d st. h = fst (rb_execute env st d) \<and> votes_needed n \<le> card (committers env n evs d))"
  using vote_inv_run [OF assms] by (simp add: vote_inv_def)

theorem rbft_executes_only_with_quorum_witness:
  "\<exists>hs. rb_history (rbft_run (demo_rbft_env ''a'') demo_sub [(''b'', ''/pleaseCommitThis'', ''x''), (''p'', ''/pleaseExecuteThis'', ''x''),
            (''b'', ''/pleaseConfirmThis'', ''x'')]) = rb_history demo_sub @ hs \<and>
    (\<forall>h \<in> set hs. \<exists>d st. h = fst (mock_execute st d) \<and> votes_needed demo_sub \<le>
       card (committers (demo_rbft_env ''a'') demo_sub [(''b'', ''/pleaseCommitThis'', ''x''), (''p'', ''/pleaseExecuteThis'', ''x''),
            (''b'', ''/pleaseConfirmThis'', ''x'')] d))"
  using rbft_executes_only_with_quorum [of demo_sub
      "[(''b'', ''/pleaseCommitThis'', ''x''), (''p'', ''/pleaseExecuteThis'', ''x''), (''b'', ''/pleaseConfirmThis'', ''x'')]" "demo_rbft_env ''a''"]
  by (simp add: command_targets_def demo_rbft_env_def)

text \<open>
  C27. One round of commits executes the command exactly once, in a group of any size. A voting sub that
  holds no commit of the command and receives it from distinct endpoints, at most the \<open>N() - 1\<close> subs there
  are, executes it once if they are at least \<open>N() - 1 - f()\<close> and not at all if they are fewer; the commits that
  come after the quorum are too few for a second execution.
\<close>

theorem rbft_commit_round_executes_once:
  assumes "voting n" "2 \<le> rbft_N n" "distinct senders" "length senders \<le> rbft_N n - 1" "to_be_committed_commands n d = None"
  shows "(votes_needed n \<le> length senders \<longrightarrow>
            rb_exe (rbft_run env n (commits_from senders d)) = snd (rb_execute env (rb_exe n) d) \<and>
            rb_history (rbft_run env n (commits_from senders d)) = rb_history n @ [fst (rb_execute env (rb_exe n) d)]) \<and>
         (length senders < votes_needed n \<longrightarrow>
            rb_exe (rbft_run env n (commits_from senders d)) = rb_exe n \<and>
            rb_history (rbft_run env n (commits_from senders d)) = rb_history n)"
proof -
  let ?x = "votes_needed n"
  have "all_endpoints n \<noteq> []" using assms(2) by (auto simp: rbft_N_def)
  then have x: "?x = rbft_N n - 1 - (rbft_N n - 1) div 3" by (simp add: thresholds)
  have few: "length senders < ?x \<Longrightarrow> ?thesis"
    using few_commits [OF assms(1,3), of d env] assms(5) by (simp add: vote_set_def Let_def)
  have enough: ?thesis if le: "?x \<le> length senders"
  proof -
    let ?n1 = "rbft_run env n (commits_from (take ?x senders) d)"
    have n1: "same_group n ?n1 \<and> rb_exe ?n1 = snd (rb_execute env (rb_exe n) d) \<and>
        rb_history ?n1 = rb_history n @ [fst (rb_execute env (rb_exe n) d)] \<and> to_be_committed_commands ?n1 d = None"
      using quorum_of_commits [OF assms(1), of "take ?x senders" d env] assms(2,3,5) le x by (simp add: Let_def)
    have "length (drop ?x senders) < ?x" using assms(2,4) x by (simp only: length_drop) linarith
    then have "length (drop ?x senders) < votes_needed ?n1" using n1 same_group_votes [of n ?n1] by simp
    then have "rb_exe (rbft_run env ?n1 (commits_from (drop ?x senders) d)) = rb_exe ?n1 \<and>
        rb_history (rbft_run env ?n1 (commits_from (drop ?x senders) d)) = rb_history ?n1"
      using few_commits [of ?n1 "drop ?x senders" d env] voting_same_group [of n ?n1] n1 assms(1,3)
      by (simp add: vote_set_def Let_def)
    moreover have "commits_from senders d = commits_from (take ?x senders) d @ commits_from (drop ?x senders) d"
      by (simp add: commits_from_def flip: map_append)
    ultimately show ?thesis using n1 le by simp
  qed
  show ?thesis using few enough by linarith
qed

theorem rbft_commit_round_executes_once_witness:
  "rb_history (rbft_run (demo_rbft_env ''a'') demo_sub (commits_from [''c'', ''a'', ''b''] ''x'')) = [''x''] \<and>
   rb_history (rbft_run (demo_rbft_env ''a'') demo_sub (commits_from [''c''] ''x'')) = []"
  using rbft_commit_round_executes_once [of demo_sub "[''c'', ''a'', ''b'']" "''x''" "demo_rbft_env ''a''"]
    rbft_commit_round_executes_once [of demo_sub "[''c'']" "''x''" "demo_rbft_env ''a''"]
  by (simp add: voting_def demo_rbft_env_def mock_execute_def)

end
