(* ===== verification/RbftView.thy ===== *)
theory RbftView
  imports RbftVotes
begin

text \<open>
  View changes and newcomers of the byzantine consensus: what a certificate proves, how the epoch keeps
  the primary when the group grows, that primary, subs and newcomers enter the same view, and the
  cluster as a step relation with invariants of every node.
\<close>

section \<open>The cluster\<close>

text \<open>
  Nodes by endpoint and the messages in flight, each with its sender. Any message may be lost, and any text
  may arrive from anybody: faulty nodes are those that send it. A node whose handler is left by an exception
  keeps the state it had then.
\<close>

record 's rbft_sys =
  rbs_nodes :: "string \<rightharpoonup> 's rbft_node"
  rbs_flight :: "(string \<times> rbft_out) list"

definition rbft_put :: "'s rbft_sys \<Rightarrow> string \<Rightarrow> 's rbft_node \<Rightarrow> rbft_out list \<Rightarrow> (string \<times> rbft_out) list \<Rightarrow> 's rbft_sys" where
  "rbft_put S e n out rest = \<lparr>rbs_nodes = (rbs_nodes S)(e \<mapsto> n), rbs_flight = rest @ map (Pair e) out\<rparr>"

text \<open>The RPC server and the sealer call \<open>handle_execute\<close> under names that no endpoint has.\<close>

inductive rbft_step :: "(string \<Rightarrow> 's rbft_env) \<Rightarrow> 's \<Rightarrow> 's rbft_sys \<Rightarrow> 's rbft_sys \<Rightarrow> bool" for envs s0 where
  start: "\<lbrakk>rbs_nodes S e = None; RbftConsensus_ctor (envs e) s0 es = (x, n, out)\<rbrakk>
    \<Longrightarrow> rbft_step envs s0 S (rbft_put S e n out (rbs_flight S))"
| tick: "\<lbrakk>rbs_nodes S e = Some n; faulty_timer_round (envs e) n = (x, n1, out)\<rbrakk>
    \<Longrightarrow> rbft_step envs s0 S (rbft_put S e n1 out (rbs_flight S))"
| deliver: "\<lbrakk>rbs_flight S = l @ (from, e, target, data) # r; rbs_nodes S e = Some n;
     rbft_deliver (envs e) n from target data = (x, n1, out)\<rbrakk>
    \<Longrightarrow> rbft_step envs s0 S (rbft_put S e n1 out (l @ r))"
| lose: "rbs_flight S = l @ m # r \<Longrightarrow> rbft_step envs s0 S (S\<lparr>rbs_flight := l @ r\<rparr>)"
| forge: "rbft_step envs s0 S (S\<lparr>rbs_flight := m # rbs_flight S\<rparr>)"
| client: "\<lbrakk>rbs_nodes S e = Some n; c \<in> {''CLIENT'', ''SEALER''}; rbft_primary n \<noteq> Inr c;
     rbft_handle_execute (envs e) n c data = (x, n1, out)\<rbrakk>
    \<Longrightarrow> rbft_step envs s0 S (rbft_put S e n1 out (rbs_flight S))"
| close: "rbs_nodes S e = Some n \<Longrightarrow> rbft_step envs s0 S (rbft_put S e (RbftConsensus_dtor n) [] (rbs_flight S))"

inductive_cases rbft_stepE: "rbft_step envs s0 S S'"

definition rbft_reachable :: "(string \<Rightarrow> 's rbft_env) \<Rightarrow> 's \<Rightarrow> 's rbft_sys \<Rightarrow> bool" where
  "rbft_reachable envs s0 S \<longleftrightarrow> (rbft_step envs s0)\<^sup>*\<^sup>* \<lparr>rbs_nodes = Map.empty, rbs_flight = []\<rparr> S"

section \<open>What view changes leave alone\<close>

definition quiet :: "'s rbft_node \<Rightarrow> 's rbft_node \<Rightarrow> bool" where
  "quiet n n1 \<longleftrightarrow> rb_exe n1 = rb_exe n \<and> rb_history n1 = rb_history n \<and> received_commands n1 \<subseteq> received_commands n \<and>
     (rb_role n1 = Newcomer \<longrightarrow> rb_role n = Newcomer \<and> all_endpoints n1 = all_endpoints n)"

lemma quiet_refl [simp]: "quiet n n"
  by (simp add: quiet_def)

lemma quiet_trans: "quiet a b \<Longrightarrow> quiet b c \<Longrightarrow> quiet a c"
  by (auto simp: quiet_def)

lemma start_listening_as_sub_eq: "start_listening_as_sub n = n\<lparr>view_change_state := False, received_commands := {}, rb_role := Sub\<rparr>"
  by (cases n) (simp add: start_listening_as_sub_def clear_memory_def)

lemma start_listening_as_primary_eq: "start_listening_as_primary n = n\<lparr>view_change_state := False, received_commands := {}, rb_role := Primary\<rparr>"
  by (simp add: start_listening_as_primary_def clear_memory_def)

lemmas listening_eqs = start_listening_as_sub_eq start_listening_as_primary_eq

lemma handle_new_primary_quiet: "quiet n (fst (snd (handle_new_primary env n from data)))"
  by (auto simp: handle_new_primary_def enter_new_view_def listening_eqs rbft_comfort_def quiet_def
      split: option.splits sum.splits if_splits)

lemma try_to_be_primary_quiet: "quiet n (fst (snd (try_to_be_primary env n e st l)))"
  by (auto simp: try_to_be_primary_def listening_eqs quiet_def Let_def split: sum.splits if_splits)

lemma put_laid_down_list_quiet: "quiet n (put_laid_down_list n e st l)"
  by (simp add: put_laid_down_list_def quiet_def)

lemma remember_quiet: "quiet n (fst (snd (remember_this_laiddown_and_be_primary_maybe env n msg data)))"
  by (simp add: remember_this_laiddown_and_be_primary_maybe_def Let_def put_laid_down_list_quiet
      quiet_trans [OF put_laid_down_list_quiet try_to_be_primary_quiet])

lemma catch_assertion_node [simp]: "fst (snd (catch_assertion h)) = fst (snd h)"
  by (simp add: catch_assertion_def split: prod.splits)

lemma handle_laid_down_quiet: "quiet n (fst (snd (handle_laid_down env n from data)))"
  by (auto simp: handle_laid_down_def remember_quiet split: sum.splits)

lemma trigger_view_change_quiet: "quiet n (fst (snd (trigger_view_change env n)))"
proof -
  let ?n1 = "n\<lparr>epoch := int32_wrap (epoch n + 1), view_change_state := True\<rparr>"
  have "quiet n ?n1" by (simp add: quiet_def)
  then show ?thesis
    using quiet_trans [OF _ remember_quiet] by (auto simp: trigger_view_change_def Let_def split: sum.splits)
qed

lemma faulty_timer_round_quiet: "quiet n (fst (snd (faulty_timer_round env n)))"
proof -
  obtain x n1 out where t: "trigger_view_change env n = (x, n1, out)" by (cases "trigger_view_change env n")
  then have "quiet n n1" using trigger_view_change_quiet [of n env] by simp
  then show ?thesis by (cases x) (auto simp: faulty_timer_round_def t rbft_comfort_def quiet_def)
qed

section \<open>The state of a node is the replay of its history\<close>

definition replica_ok :: "'s rbft_env \<Rightarrow> ('s \<Rightarrow> bool) \<Rightarrow> 's \<Rightarrow> 's rbft_node \<Rightarrow> bool" where
  "replica_ok env invar s0 n \<longleftrightarrow> invar (rb_exe n) \<and> received_commands n = {} \<and>
     execute_cmds (rb_execute env) s0 (rb_history n) = (rb_history n, rb_exe n) \<and>
     (rb_role n = Newcomer \<longrightarrow> listened_endpoint env \<notin> set (all_endpoints n) \<and> rb_exe n = s0 \<and> rb_history n = [])"

lemma replica_ok_quiet: "replica_ok env invar s0 n \<Longrightarrow> quiet n n1 \<Longrightarrow> replica_ok env invar s0 n1"
  by (auto simp: replica_ok_def quiet_def)

lemma execute_cmds_append:
  "execute_cmds exec s (as @ bs) =
     (let (as1, s1) = execute_cmds exec s as; (bs1, s2) = execute_cmds exec s1 bs in (as1 @ bs1, s2))"
  by (induction as arbitrary: s) (simp_all add: Let_def case_prod_beta)

context replayable_executor
begin

lemma execute_cmds_stable:
  "invar s \<Longrightarrow> execute_cmds exec s cs = (cs1, s1) \<Longrightarrow> execute_cmds exec s cs1 = (cs1, s1) \<and> invar s1"
proof (induction cs arbitrary: s cs1)
  case (Cons c cs)
  obtain c1 s2 where c: "exec s c = (c1, s2)" by (cases "exec s c")
  obtain cs2 s3 where cs: "execute_cmds exec s2 cs = (cs2, s3)" by (cases "execute_cmds exec s2 cs")
  show ?case
    using rewritten_same [OF Cons.prems(1) c] Cons.IH [of s2 cs2] Cons.prems(2) by (auto simp: c cs)
qed simp

lemma replica_ok_execute:
  assumes "replica_ok env invar s0 n" "rb_execute env = exec" "rb_role n \<noteq> Newcomer"
  shows "replica_ok env invar s0 (finally_execute_it env n d)"
proof -
  obtain d1 s1 where d: "exec (rb_exe n) d = (d1, s1)" by (cases "exec (rb_exe n) d")
  then show ?thesis
    using assms rewritten_same [OF _ d] by (simp add: replica_ok_def finally_execute_it_def execute_cmds_append Let_def)
qed

lemma replica_ok_committed:
  assumes "replica_ok env invar s0 n" "rb_execute env = exec" "rb_role n \<noteq> Newcomer"
  shows "replica_ok env invar s0 (add_to_to_be_committed_commands env n e d)"
proof -
  have upd: "replica_ok env invar s0 (m\<lparr>to_be_committed_commands := v\<rparr>) = replica_ok env invar s0 m" for m v
    by (simp add: replica_ok_def)
  show ?thesis
    using assms replica_ok_execute [of env s0 "n\<lparr>to_be_committed_commands := v\<rparr>" for v]
    by (simp add: add_to_to_be_committed_commands_def Let_def upd)
qed

lemma replica_ok_confirmed:
  assumes "replica_ok env invar s0 n" "rb_execute env = exec" "rb_role n \<noteq> Newcomer"
  shows "replica_ok env invar s0 (fst (add_to_to_be_confirmed_commands env n e d))"
proof -
  have upd: "replica_ok env invar s0 (m\<lparr>to_be_confirmed_commands := v\<rparr>) = replica_ok env invar s0 m" for m v
    by (simp add: replica_ok_def)
  show ?thesis
    using assms replica_ok_committed [of env s0 "n\<lparr>to_be_confirmed_commands := v\<rparr>" for v]
    by (simp add: add_to_to_be_confirmed_commands_def Let_def upd)
qed

lemma replica_ok_joined:
  assumes ok: "replica_ok env invar s0 n" and exec: "rb_execute env = exec" and nc: "rb_role n = Newcomer" and s0: "invar s0"
  shows "replica_ok env invar s0 (fst (snd (handle_new_primary_for_newcomer env n from data)))"
proof -
  have st: "execute_cmds exec s0 (fst (execute_cmds exec s0 cs)) = execute_cmds exec s0 cs \<and> invar (snd (execute_cmds exec s0 cs))" for cs
    using execute_cmds_stable [OF s0, of cs] by (cases "execute_cmds exec s0 cs") simp
  show ?thesis
    using ok nc st exec
    by (auto simp: handle_new_primary_for_newcomer_def replica_ok_def listening_eqs rbft_comfort_def Let_def case_prod_beta
        split: option.splits sum.splits if_splits)
qed

end

lemma handle_add_new_node_quiet: "quiet n (fst (snd (handle_add_new_node_no_boardcast n from data)))"
  by (simp add: handle_add_new_node_no_boardcast_def quiet_def)

context replayable_executor
begin

lemma replica_ok_sub_command:
  assumes "replica_ok env invar s0 n" "rb_execute env = exec" "rb_role n \<noteq> Newcomer \<or> Inr from \<noteq> rbft_primary n"
  shows "replica_ok env invar s0 (fst (snd (handle_execute_for_sub1 env n from data)))"
  using assms replica_ok_confirmed [OF assms(1,2)]
  by (auto simp: handle_execute_for_sub1_def Let_def case_prod_beta split: sum.splits)

lemma replica_ok_primary_command:
  assumes "replica_ok env invar s0 n" "rb_execute env = exec" "rb_role n \<noteq> Newcomer"
  shows "replica_ok env invar s0 (fst (snd (handle_execute_for_primary1 env n from data)))"
  using assms replica_ok_execute [OF assms] by (simp add: handle_execute_for_primary1_def Let_def)

lemma replica_ok_deliver:
  assumes ok: "replica_ok env invar s0 n" and exec: "rb_execute env = exec" and s0: "invar s0"
  shows "replica_ok env invar s0 (fst (snd (rbft_deliver env n from target data)))"
proof (cases "rb_role n = Newcomer")
  case True
  then show ?thesis using replica_ok_joined [OF ok exec True s0] ok by (simp add: rbft_deliver_def)
next
  case False
  have conf: "replica_ok env invar s0 (fst (snd (handle_confirm_for_sub env n from data)))"
    using ok replica_ok_confirmed [OF ok exec False] by (simp add: handle_confirm_for_sub_def case_prod_beta)
  have comm: "replica_ok env invar s0 (fst (snd (handle_commit_for_sub env n from data)))"
    using ok replica_ok_committed [OF ok exec False] by (simp add: handle_commit_for_sub_def)
  show ?thesis
    unfolding rbft_deliver_def
    by (simp only: False if_False split: if_split)
      (intro conjI impI replica_ok_primary_command replica_ok_sub_command conf comm ok exec False disjI1
        replica_ok_quiet [OF ok handle_laid_down_quiet] replica_ok_quiet [OF ok handle_new_primary_quiet]
        replica_ok_quiet [OF ok handle_add_new_node_quiet]; simp add: ok)
qed

lemma replica_ok_client:
  assumes ok: "replica_ok env invar s0 n" and exec: "rb_execute env = exec" and "rbft_primary n \<noteq> Inr c"
  shows "replica_ok env invar s0 (fst (snd (rbft_handle_execute env n c data)))"
proof (cases "rbft_is_primary env n")
  case True
  then have "listened_endpoint env \<in> set (all_endpoints n)"
    by (auto simp: rbft_is_primary_def rbft_primary_def endpoint_at_def split: if_splits)
      (metis length_greater_0_conv mod_less_divisor nth_mem)
  then have "rb_role n \<noteq> Newcomer" using ok by (auto simp: replica_ok_def)
  then show ?thesis using replica_ok_primary_command [OF ok exec] True by (simp add: rbft_handle_execute_def)
next
  case False
  then show ?thesis using replica_ok_sub_command [OF ok exec, of c] assms(3) by (simp add: rbft_handle_execute_def)
qed

lemma replica_ok_ctor:
  "invar s0 \<Longrightarrow> replica_ok env invar s0 (fst (snd (RbftConsensus_ctor env s0 es)))"
  by (auto simp: RbftConsensus_ctor_def start_listening_as_newcomer_def replica_ok_def rbft_blank_def listening_eqs rbft_comfort_def
      Let_def split: sum.splits)

definition cluster_ok :: "(string \<Rightarrow> 's rbft_env) \<Rightarrow> 's \<Rightarrow> 's rbft_sys \<Rightarrow> bool" where
  "cluster_ok envs s0 S \<longleftrightarrow> (\<forall>e n. rbs_nodes S e = Some n \<longrightarrow> replica_ok (envs e) invar s0 n)"

lemma cluster_ok_put:
  "cluster_ok envs s0 S \<Longrightarrow> replica_ok (envs e) invar s0 n \<Longrightarrow> cluster_ok envs s0 (rbft_put S e n out rest)"
  by (simp add: cluster_ok_def rbft_put_def)

lemma step_cluster_ok:
  assumes "rbft_step envs s0 S S'" "cluster_ok envs s0 S" "\<And>e. rb_execute (envs e) = exec" "invar s0"
  shows "cluster_ok envs s0 S'"
  using assms(1)
proof cases
  case (start e es x n out)
  then show ?thesis using cluster_ok_put [OF assms(2)] replica_ok_ctor [OF assms(4), of "envs e" es] by simp
next
  case (tick e n x n1 out)
  then have ok: "replica_ok (envs e) invar s0 n" using assms(2) by (simp add: cluster_ok_def)
  show ?thesis
    using tick cluster_ok_put [OF assms(2)] replica_ok_quiet [OF ok faulty_timer_round_quiet [of n "envs e"]] by simp
next
  case (deliver l sender e target data r n x n1 out)
  then have ok: "replica_ok (envs e) invar s0 n" using assms(2) by (simp add: cluster_ok_def)
  show ?thesis
    using deliver cluster_ok_put [OF assms(2)] replica_ok_deliver [OF ok assms(3,4), of sender target data] by simp
next
  case (client e n c data x n1 out)
  then have ok: "replica_ok (envs e) invar s0 n" using assms(2) by (simp add: cluster_ok_def)
  show ?thesis
    using client cluster_ok_put [OF assms(2)] replica_ok_client [OF ok assms(3), of c data] by simp
next
  case (close e n)
  then have "replica_ok (envs e) invar s0 (RbftConsensus_dtor n)"
    using assms(2) by (auto simp: cluster_ok_def RbftConsensus_dtor_def replica_ok_def)
  then show ?thesis using close cluster_ok_put [OF assms(2)] by simp
qed (use assms(2) in \<open>simp_all add: cluster_ok_def\<close>)

lemma reachable_cluster_ok:
  assumes "rbft_reachable envs s0 S" "\<And>e. rb_execute (envs e) = exec" "invar s0"
  shows "cluster_ok envs s0 S"
  using assms(1) unfolding rbft_reachable_def
proof (induction rule: rtranclp_induct)
  case base
  then show ?case by (simp add: cluster_ok_def)
next
  case (step S1 S2)
  then show ?case using step_cluster_ok assms(2,3) by blast
qed

end

section \<open>Certificates\<close>

lemma boost_assert_Inr [simp]: "boost_assert b = Inr u \<longleftrightarrow> b"
  by (simp add: boost_assert_def)

lemma set_fold_insert: "set (fold std_set_insert xs hosts) = set xs \<union> set hosts"
  by (induction xs arbitrary: hosts) auto

lemma distinct_fold_insert: "distinct hosts \<Longrightarrow> distinct (fold std_set_insert xs hosts)"
  by (induction xs arbitrary: hosts) auto

text \<open>What a certificate says: the messages it opens to.\<close>

definition laid_msgs :: "'s rbft_env \<Rightarrow> string list \<Rightarrow> (string \<times> LaidDownMsg) list result" where
  "laid_msgs env l = map_result (open_laid env) l"

lemma check_rest_iff:
  "check_rest env st e hosts l = Inr hs \<longleftrightarrow>
     (\<exists>msgs. laid_msgs env l = Inr msgs \<and> (\<forall>m \<in> set msgs. ld_state (snd m) = st \<and> ld_epoch (snd m) = e) \<and>
             hs = fold std_set_insert (map fst msgs) hosts)"
proof (induction l arbitrary: hosts)
  case Nil
  then show ?case by (auto simp: laid_msgs_def)
next
  case (Cons s l)
  show ?case
  proof (cases "open_laid env s")
    case (Inl x)
    then show ?thesis by (simp add: laid_msgs_def)
  next
    case (Inr hm)
    obtain host msg where hm: "hm = (host, msg)" by (cases hm)
    have split: "laid_msgs env (s # l) = Inr msgs \<longleftrightarrow> (\<exists>ms. laid_msgs env l = Inr ms \<and> msgs = (host, msg) # ms)" for msgs
      by (auto simp: laid_msgs_def Inr hm bind_result_Inr_iff)
    show ?thesis using Cons.IH by (auto simp: Inr hm bind_result_Inr_iff split)
  qed
qed

lemma cert_hosts_iff:
  "cert_hosts env n l e fn = Inr hs \<longleftrightarrow>
     (\<exists>m0 ms. laid_msgs env l = Inr (m0 # ms) \<and> (fn \<or> ld_state (snd m0) = get_state n) \<and>
        (\<forall>m \<in> set ms. ld_state (snd m) = ld_state (snd m0) \<and> ld_epoch (snd m) = e) \<and>
        size_sub (rbft_N n) (rbft_f n) \<le> card (fst ` set (m0 # ms)) \<and> hs = fold std_set_insert (map fst (m0 # ms)) [])"
proof (cases l)
  case Nil
  then show ?thesis by (simp add: cert_hosts_def laid_msgs_def)
next
  case (Cons s rest)
  have len: "length (fold std_set_insert (map fst msgs) []) = card (fst ` set msgs)" for msgs :: "(string \<times> LaidDownMsg) list"
    using distinct_card [OF distinct_fold_insert [of "[]" "map fst msgs"]] by (simp add: set_fold_insert)
  show ?thesis
  proof (cases "open_laid env s")
    case (Inl x)
    then show ?thesis by (simp add: Cons cert_hosts_def laid_msgs_def)
  next
    case (Inr m0)
    have split: "laid_msgs env l = Inr msgs \<longleftrightarrow> (\<exists>ms. laid_msgs env rest = Inr ms \<and> msgs = m0 # ms)" for msgs
      by (auto simp: laid_msgs_def Inr Cons bind_result_Inr_iff)
    obtain host msg where hm: "m0 = (host, msg)" by (cases m0)
    show ?thesis
    proof (cases "fn \<or> ld_state msg = get_state n")
      case True
      then have st: "(if fn then ld_state msg else get_state n) = ld_state msg" by auto
      have "cert_hosts env n l e fn = Inr hs \<longleftrightarrow>
        (\<exists>ms. laid_msgs env rest = Inr ms \<and> (\<forall>m \<in> set ms. ld_state (snd m) = ld_state msg \<and> ld_epoch (snd m) = e) \<and>
          hs = fold std_set_insert (map fst (m0 # ms)) []) \<and> size_sub (rbft_N n) (rbft_f n) \<le> length hs"
        using True by (simp add: cert_hosts_def Cons Inr hm st bind_result_Inr_iff check_rest_iff boost_assert_def)
      also have "\<dots> \<longleftrightarrow> (\<exists>ms. laid_msgs env rest = Inr ms \<and>
          (\<forall>m \<in> set ms. ld_state (snd m) = ld_state msg \<and> ld_epoch (snd m) = e) \<and>
          size_sub (rbft_N n) (rbft_f n) \<le> length (fold std_set_insert (map fst (m0 # ms)) []) \<and>
          hs = fold std_set_insert (map fst (m0 # ms)) [])"
        by blast
      also have "\<dots> \<longleftrightarrow> (\<exists>ms. laid_msgs env l = Inr (m0 # ms) \<and>
          (\<forall>m \<in> set ms. ld_state (snd m) = ld_state msg \<and> ld_epoch (snd m) = e) \<and>
          size_sub (rbft_N n) (rbft_f n) \<le> card (fst ` set (m0 # ms)) \<and>
          hs = fold std_set_insert (map fst (m0 # ms)) [])"
        unfolding len split by blast
      finally show ?thesis unfolding split using True hm by (metis list.inject snd_conv)
    next
      case False
      then show ?thesis by (simp add: cert_hosts_def Cons Inr hm boost_assert_def) (simp add: split [unfolded Cons] hm)
    qed
  qed
qed

lemma check_cert_True: "check_cert env n l e fn = Inr True \<longleftrightarrow> (\<exists>hs. cert_hosts env n l e fn = Inr hs)"
  by (auto simp: check_cert_def split: sum.splits exn.splits)

text \<open>Checking depends on the opening of messages, the state of the command history and the size of the group.\<close>

lemma newcomers_from_sorted: "newcomers_from env acc sigs = Inr ns \<Longrightarrow> distinct acc \<and> sorted acc \<Longrightarrow> distinct ns \<and> sorted ns"
  by (induction env acc sigs rule: newcomers_from.induct) (auto simp: bind_result_Inr_iff split: option.splits prod.splits)

lemma newcomers_from_cong: "tear_msg_open env = tear_msg_open env' \<Longrightarrow> newcomers_from env acc sigs = newcomers_from env' acc sigs"
proof (induction sigs arbitrary: acc)
  case (Cons s sigs)
  then have o: "open_msg env = open_msg env'" by (simp add: open_msg_def fun_eq_iff)
  show ?case using Cons by (auto simp: o bind_result_def split: sum.splits option.splits)
qed simp

section \<open>Epochs\<close>

definition epoch_fits :: "'s rbft_node \<Rightarrow> int \<Rightarrow> nat \<Rightarrow> bool" where
  "epoch_fits n e k \<longleftrightarrow> all_endpoints n \<noteq> [] \<and> 0 \<le> e \<and> e + (e div int (rbft_N n)) * int k < 2 ^ 31"

lemma epoch_considering_newcomers_eq:
  assumes "epoch_fits n e k"
  shows "epoch_considering_newcomers n e k = e + (e div int (rbft_N n)) * int k"
proof -
  have q: "0 \<le> (e div int (rbft_N n)) * int k" using assms by (simp add: epoch_fits_def pos_imp_zdiv_nonneg_iff rbft_N_def)
  then have e: "e < 2 ^ 31" using assms by (simp add: epoch_fits_def)
  have "to_size_t e = nat e" using e assms by (simp add: epoch_fits_def to_size_t_id)
  moreover have "int (nat e + nat e div rbft_N n * k) = e + (e div int (rbft_N n)) * int k"
    using assms by (simp add: epoch_fits_def zdiv_int)
  moreover have "int ((nat e + nat e div rbft_N n * k) mod 2 ^ 64) = int (nat e + nat e div rbft_N n * k) mod 2 ^ 64"
    by (simp add: zmod_int)
  ultimately have "epoch_considering_newcomers n e k = int32_wrap ((e + (e div int (rbft_N n)) * int k) mod 2 ^ 64)"
    by (simp add: epoch_considering_newcomers_def)
  then show ?thesis using assms q by (simp add: epoch_fits_def int32_wrap_id)
qed

lemma endpoint_at_newcomers:
  assumes "epoch_fits n e (length ns)"
  shows "endpoint_at (all_endpoints n @ ns) (epoch_considering_newcomers n e (length ns)) = endpoint_at (all_endpoints n) e"
proof -
  let ?N = "rbft_N n" and ?k = "length ns"
  have pos: "0 < ?N" and e0: "0 \<le> e" and lim: "e + (e div int ?N) * int ?k < 2 ^ 31"
    using assms by (auto simp: epoch_fits_def rbft_N_def)
  have q: "0 \<le> e div int ?N" using pos e0 by (simp add: pos_imp_zdiv_nonneg_iff)
  have e_lim: "e < 2 ^ 31" using lim q by (smt (verit) mult_nonneg_nonneg of_nat_0_le_iff)
  have "e + (e div int ?N) * int ?k = (e div int ?N) * (int ?N + int ?k) + e mod int ?N"
    by (simp add: distrib_left mult.commute)
  then have "(e + (e div int ?N) * int ?k) mod (int ?N + int ?k) = e mod int ?N mod (int ?N + int ?k)"
    by simp
  also have "\<dots> = e mod int ?N" using pos by (intro mod_pos_pos_trivial) (auto intro: less_le_trans [OF pos_mod_bound])
  finally have m: "(e + (e div int ?N) * int ?k) mod (int ?N + int ?k) = e mod int ?N" .
  have t1: "to_size_t (e + (e div int ?N) * int ?k) mod (?N + ?k) = nat (e mod int ?N)"
  proof -
    have "0 \<le> e + (e div int ?N) * int ?k" using q e0 by simp
    then show ?thesis using m lim by (simp add: to_size_t_id nat_mod_distrib nat_add_distrib flip: m)
  qed
  have t2: "to_size_t e mod ?N = nat (e mod int ?N)" using e0 e_lim by (simp add: to_size_t_id nat_mod_distrib)
  have lt: "nat (e mod int ?N) < ?N" using pos by (simp add: nat_less_iff)
  show ?thesis
    using pos t1 t2 lt by (simp add: endpoint_at_def epoch_considering_newcomers_eq [OF assms] rbft_N_def nth_append)
qed

section \<open>Becoming the primary\<close>

definition cert_codec_ok :: "PbNewViewCertificate pb_codec \<Rightarrow> bool" where
  "cert_codec_ok c \<longleftrightarrow> (\<forall>m. 0 \<le> nv_epoch m \<longrightarrow>
     ParseFromString c (SerializeAsString c (NewViewCertificate_toPb m)) = Some (NewViewCertificate_toPb m))"

lemma NewViewCertificate_pb_roundtrip [pb_simps]: "NewViewCertificate_fromPb (NewViewCertificate_toPb m) = Inr m"
  by (cases m) (simp add: NewViewCertificate_fromPb_def NewViewCertificate_toPb_def)

lemma parse_cert_sent:
  "cert_codec_ok (cert_codec env) \<Longrightarrow> 0 \<le> nv_epoch m \<Longrightarrow>
   parse_cert env (toPbString (cert_codec env) NewViewCertificate_toPb m) = Some m"
  by (simp add: parse_cert_def cert_codec_ok_def fromPbString_toPbString pb_simps)

text \<open>The certificate that a new primary sends: to the group, and with its command history to the newcomers.\<close>

definition new_view_msg :: "'s rbft_node \<Rightarrow> int \<Rightarrow> string list \<Rightarrow> string list \<Rightarrow> string list \<Rightarrow> NewViewCertificate" where
  "new_view_msg n e l ns cmds =
     NewViewCertificate_ctor ''Hi, I am the primary now'' e l (if ns = [] then [] else sig_of_nodes_to_be_added n) cmds"

definition new_view_primary :: "'s rbft_node \<Rightarrow> int \<Rightarrow> string list \<Rightarrow> 's rbft_node" where
  "new_view_primary n e ns =
     start_listening_as_primary (n\<lparr>sig_of_nodes_to_be_added := [],
       epoch := epoch_considering_newcomers n e (length ns), all_endpoints := all_endpoints n @ ns\<rparr>)"

lemma epoch_fits_0: "epoch_fits n e k \<Longrightarrow> epoch_fits n e 0"
  by (simp add: epoch_fits_def) (smt (verit) mult_nonneg_nonneg of_nat_0_le_iff pos_imp_zdiv_nonneg_iff rbft_N_def length_greater_0_conv of_nat_0_less_iff)

lemma try_to_be_primary_outcome:
  assumes "endpoint_at (all_endpoints n) e = Inr (listened_endpoint env)" "get_state n = st"
    and "get_newcommers env (sig_of_nodes_to_be_added n) = Inr ns" "epoch_fits n e (length ns)"
  shows "try_to_be_primary env n e st l = (None, new_view_primary n e ns,
     map (\<lambda>a. (a, ''/IamThePrimary'', toPbString (cert_codec env) NewViewCertificate_toPb (new_view_msg n e l ns [])))
       (filter (\<lambda>a. a \<noteq> listened_endpoint env) (all_endpoints n)) @
     map (\<lambda>c. (c, ''/IamThePrimaryForNewcomer'', toPbString (cert_codec env) NewViewCertificate_toPb (new_view_msg n e l ns (rb_history n)))) ns)"
proof (cases "ns = []")
  case True
  have "epoch_considering_newcomers n e 0 = e"
    using epoch_considering_newcomers_eq [OF epoch_fits_0 [OF assms(4)]] by simp
  then show ?thesis
    using assms True
    by (simp add: try_to_be_primary_def new_view_primary_def new_view_msg_def boardcast_to_others_def listening_eqs)
next
  case False
  have "epoch_considering_newcomers (n\<lparr>sig_of_nodes_to_be_added := []\<rparr>) e k = epoch_considering_newcomers n e k" for k
    by (simp add: epoch_considering_newcomers_def rbft_N_def)
  then show ?thesis
    using assms False
    by (simp add: try_to_be_primary_def new_view_primary_def new_view_msg_def boardcast_to_others_def listening_eqs
        NewViewCertificate_ctor_def Let_def)
qed

lemma new_view_msg_fields [simp]:
  "nv_epoch (new_view_msg n e l ns cmds) = e" "new_view_certificate (new_view_msg n e l ns cmds) = l"
  "nv_cmds (new_view_msg n e l ns cmds) = cmds"
  "nv_sigs (new_view_msg n e l ns cmds) = (if ns = [] then [] else sig_of_nodes_to_be_added n)"
  by (simp_all add: new_view_msg_def NewViewCertificate_ctor_def)

lemma newcomers_of_msg:
  assumes "get_newcommers env (sig_of_nodes_to_be_added n) = Inr ns" "tear_msg_open env' = tear_msg_open env"
  shows "get_newcommers env' (nv_sigs (new_view_msg n e l ns cmds)) = Inr ns"
  using assms newcomers_from_cong [of env' env] by (auto simp: get_newcommers_def)

lemma new_view_primary_fields [simp]:
  "epoch (new_view_primary n e ns) = epoch_considering_newcomers n e (length ns)"
  "all_endpoints (new_view_primary n e ns) = all_endpoints n @ ns"
  "rb_role (new_view_primary n e ns) = Primary" "\<not> view_change_state (new_view_primary n e ns)"
  "rb_history (new_view_primary n e ns) = rb_history n" "rb_exe (new_view_primary n e ns) = rb_exe n"
  by (simp_all add: new_view_primary_def listening_eqs)

lemma enter_new_view_fields [simp]:
  "epoch (enter_new_view n e ns) = epoch_considering_newcomers n e (length ns)"
  "all_endpoints (enter_new_view n e ns) = all_endpoints n @ ns"
  "rb_role (enter_new_view n e ns) = Sub" "\<not> view_change_state (enter_new_view n e ns)"
  by (simp_all add: enter_new_view_def listening_eqs rbft_comfort_def)

lemma epoch_considering_cong: "all_endpoints m = all_endpoints n \<Longrightarrow> epoch_considering_newcomers m e k = epoch_considering_newcomers n e k"
  by (simp add: epoch_considering_newcomers_def rbft_N_def)

lemma sub_follows:
  assumes "cert_codec_ok (cert_codec env)" "cert_codec env' = cert_codec env" "tear_msg_open env' = tear_msg_open env"
    and "get_newcommers env (sig_of_nodes_to_be_added n) = Inr ns" "0 \<le> e" "set ns \<inter> set (all_endpoints s) = {}"
    and "epoch s \<le> e" "check_cert env' s l e False = Inr True"
  shows "handle_new_primary env' s from (toPbString (cert_codec env) NewViewCertificate_toPb (new_view_msg n e l ns [])) =
    (None, enter_new_view s e ns, [])"
proof -
  have p: "parse_cert env' (toPbString (cert_codec env) NewViewCertificate_toPb (new_view_msg n e l ns [])) = Some (new_view_msg n e l ns [])"
    using parse_cert_sent [of env' "new_view_msg n e l ns []"] assms(1,2,5) by simp
  have "\<not> (\<exists>c \<in> set ns. c \<in> set (all_endpoints s))" using assms(6) by blast
  then show ?thesis
    using newcomers_of_msg [OF assms(4,3), of e l "[]"] assms(7,8) unfolding handle_new_primary_def p by simp
qed

lemma new_view_shared:
  assumes "cert_codec_ok (cert_codec env)" "cert_codec env' = cert_codec env" "tear_msg_open env' = tear_msg_open env"
    and "endpoint_at (all_endpoints n) e = Inr (listened_endpoint env)" "get_state n = st" "epoch_fits n e (length ns)"
    and "get_newcommers env (sig_of_nodes_to_be_added n) = Inr ns" "set ns \<inter> set (all_endpoints n) = {}"
    and "all_endpoints s = all_endpoints n" "epoch s \<le> e" "check_cert env' s l e False = Inr True"
    and "a \<in> set (all_endpoints n)" "a \<noteq> listened_endpoint env"
  shows "\<exists>n' out data s'. try_to_be_primary env n e st l = (None, n', out) \<and> rbft_is_primary env n' \<and> rb_role n' = Primary \<and>
    (a, ''/IamThePrimary'', data) \<in> set out \<and> handle_new_primary env' s (listened_endpoint env) data = (None, s', []) \<and>
    epoch s' = epoch n' \<and> all_endpoints s' = all_endpoints n' \<and> rbft_primary s' = Inr (listened_endpoint env) \<and>
    rb_role s' = Sub \<and> \<not> view_change_state s'"
proof -
  let ?data = "toPbString (cert_codec env) NewViewCertificate_toPb (new_view_msg n e l ns [])"
  have e0: "0 \<le> e" using assms(6) by (simp add: epoch_fits_def)
  have out: "(a, ''/IamThePrimary'', ?data) \<in> set (snd (snd (try_to_be_primary env n e st l)))"
    unfolding try_to_be_primary_outcome [OF assms(4,5,7,6)] using assms(12,13) by simp
  have sub: "handle_new_primary env' s (listened_endpoint env) ?data = (None, enter_new_view s e ns, [])"
    by (rule sub_follows [OF assms(1-3,7) e0]) (use assms(8-11) in simp_all)
  have prim: "endpoint_at (all_endpoints n @ ns) (epoch_considering_newcomers n e (length ns)) = Inr (listened_endpoint env)"
    using endpoint_at_newcomers [OF assms(6)] assms(4) by simp
  show ?thesis
    using out sub prim assms(9) epoch_considering_cong [OF assms(9)] try_to_be_primary_outcome [OF assms(4,5,7,6), of l]
    by (intro exI [of _ "new_view_primary n e ns"] exI [of _ "snd (snd (try_to_be_primary env n e st l))"] exI [of _ ?data]
        exI [of _ "enter_new_view s e ns"]) (simp add: rbft_is_primary_def rbft_primary_def)
qed

section \<open>Collecting laid-down messages\<close>

definition laid_events :: "string list \<Rightarrow> (string \<times> string \<times> string) list" where
  "laid_events ws = map (\<lambda>w. ([], ''/ILaidDown'', w)) ws"

text \<open>A node that the epoch selects and that may still collect for it.\<close>

definition collecting :: "'s rbft_env \<Rightarrow> 's rbft_node \<Rightarrow> int \<Rightarrow> bool" where
  "collecting env n e \<longleftrightarrow> rb_role n \<noteq> Newcomer \<and> \<not> rb_closed n \<and> epoch n \<le> e \<and>
     endpoint_at (all_endpoints n) e = Inr (listened_endpoint env) \<and> rbft_N n < 2 ^ 31"

lemma laid_down_list_put [simp]: "laid_down_list (put_laid_down_list n e st l) e st = l"
  by (simp add: laid_down_list_def put_laid_down_list_def)

lemma endpoint_at_nonempty: "endpoint_at es e = Inr p \<Longrightarrow> es \<noteq> []"
  by (auto simp: endpoint_at_def)

lemma laid_threshold:
  assumes "all_endpoints n \<noteq> []" "rbft_N n < 2 ^ 31"
  shows "to_size_t (int32_wrap (int (size_sub (rbft_N n) (rbft_f n)))) = rbft_N n - rbft_f n"
proof -
  have "rbft_N n - rbft_f n < 2 ^ 31" using assms(2) by (rule less_imp_diff_less)
  then have "int (rbft_N n - rbft_f n) < 2 ^ 31" by (metis of_nat_less_iff of_nat_numeral of_nat_power)
  then show ?thesis using assms by (simp add: certs_needed_eq int32_wrap_id to_size_t_id)
qed

lemma deliver_laid_down:
  assumes "collecting env n e" "open_laid env w = Inr (h, msg)" "ld_epoch msg = e" "ld_state msg = st" "w \<notin> set (laid_down_list n e st)"
  shows "rbft_deliver env n from ''/ILaidDown'' w =
    catch_assertion
      (let l = laid_down_list n e st @ [w]; n1 = put_laid_down_list n e st l in
       if rbft_N n - rbft_f n \<le> length l then try_to_be_primary env n1 e st l else (None, n1, []))"
proof -
  have "all_endpoints n \<noteq> []" using assms(1) endpoint_at_nonempty by (auto simp: collecting_def)
  then have "to_size_t (int32_wrap (int (size_sub (rbft_N n) (rbft_f n)))) = rbft_N n - rbft_f n"
    using assms(1) by (simp add: laid_threshold collecting_def)
  then show ?thesis
    using assms by (simp add: rbft_deliver_def handle_laid_down_def remember_this_laiddown_and_be_primary_maybe_def collecting_def Let_def)
qed

text \<open>Too few messages are remembered, in their order, and nothing else changes.\<close>

lemma few_laid_down:
  assumes "collecting env n e" "map_result (open_laid env) ws = Inr hms" "\<forall>hm \<in> set hms. ld_epoch (snd hm) = e \<and> ld_state (snd hm) = st"
    and "distinct (laid_down_list n e st @ ws)" "length (laid_down_list n e st @ ws) < rbft_N n - rbft_f n"
  shows "\<exists>H. rbft_run env n (laid_events ws) = n\<lparr>laid_down_history := H\<rparr> \<and>
    laid_down_list (n\<lparr>laid_down_history := H\<rparr>) e st = laid_down_list n e st @ ws"
  using assms
proof (induction ws arbitrary: n hms)
  case Nil
  then show ?case by (intro exI [of _ "laid_down_history n"]) (simp add: laid_events_def)
next
  case (Cons w ws)
  obtain h msg hms' where o: "open_laid env w = Inr (h, msg)" "map_result (open_laid env) ws = Inr hms'" "hms = (h, msg) # hms'"
    using Cons.prems(2) by (auto simp: bind_result_Inr_iff)
  let ?l = "laid_down_list n e st @ [w]"
  let ?n1 = "put_laid_down_list n e st ?l"
  have d: "rbft_deliver env n [] ''/ILaidDown'' w = (None, ?n1, [])"
    using deliver_laid_down [OF Cons.prems(1) o(1), of st "[]"] Cons.prems(3-5) o(3) by (simp add: Let_def catch_assertion_def)
  have n1: "?n1 = n\<lparr>laid_down_history := laid_down_history ?n1\<rparr>" by (simp add: put_laid_down_list_def)
  have c1: "collecting env ?n1 e" using Cons.prems(1) by (simp add: collecting_def put_laid_down_list_def rbft_N_def)
  have "rbft_N ?n1 - rbft_f ?n1 = rbft_N n - rbft_f n" by (simp add: put_laid_down_list_def rbft_N_def rbft_f_def)
  then obtain H where "rbft_run env ?n1 (laid_events ws) = ?n1\<lparr>laid_down_history := H\<rparr>"
    "laid_down_list (?n1\<lparr>laid_down_history := H\<rparr>) e st = laid_down_list ?n1 e st @ ws"
    using Cons.IH [OF c1 o(2)] Cons.prems(3-5) o(3) by auto
  moreover have "?n1\<lparr>laid_down_history := H\<rparr> = n\<lparr>laid_down_history := H\<rparr>" for H by (simp add: put_laid_down_list_def)
  ultimately show ?case using d by (intro exI [of _ H]) (simp add: laid_events_def)
qed

lemma map_result_mem: "map_result f xs = Inr ys \<Longrightarrow> x \<in> set xs \<Longrightarrow> \<exists>y \<in> set ys. f x = Inr y"
  by (induction xs arbitrary: ys) (auto simp: bind_result_Inr_iff)

lemma map_result_distinct: "map_result f xs = Inr ys \<Longrightarrow> distinct (map g ys) \<Longrightarrow> distinct xs"
proof (induction xs arbitrary: ys)
  case (Cons x xs)
  then obtain y ys' where y: "f x = Inr y" "map_result f xs = Inr ys'" "ys = y # ys'" by (auto simp: bind_result_Inr_iff)
  have "x \<notin> set xs" using map_result_mem [OF y(2)] y Cons.prems(2) by fastforce
  then show ?case using Cons.IH [OF y(2)] Cons.prems(2) y(3) by simp
qed simp

lemma map_result_append:
  "map_result f (xs @ ys) = bind_result (map_result f xs) (\<lambda>as. bind_result (map_result f ys) (\<lambda>bs. Inr (as @ bs)))"
proof (induction xs)
  case Nil
  then show ?case by (cases "map_result f ys") simp_all
next
  case (Cons x xs)
  show ?case
    unfolding append_Cons map_result.simps Cons.IH
    by (cases "f x"; cases "map_result f xs"; cases "map_result f ys") simp_all
qed

lemma open_laid_cong:
  assumes "tear_msg_open env' = tear_msg_open env" "laid_codec env' = laid_codec env"
  shows "open_laid env' = open_laid env"
  unfolding open_laid_def open_msg_def parse_laid_def assms fun_eq_iff by simp

lemma quorum_cert_checked:
  assumes "map_result (open_laid env) ws = Inr hms" "\<forall>hm \<in> set hms. ld_epoch (snd hm) = e \<and> ld_state (snd hm) = get_state s"
    and "distinct (map fst hms)" "length ws = size_sub (rbft_N s) (rbft_f s)" "ws \<noteq> []"
  shows "check_cert env s ws e False = Inr True"
proof -
  obtain m0 ms where hms: "hms = m0 # ms" using map_result_length [OF assms(1)] assms(5) by (cases hms) auto
  have "card (fst ` set hms) = length hms" using distinct_card [OF assms(3)] by simp
  then have "size_sub (rbft_N s) (rbft_f s) \<le> card (fst ` set hms)" using map_result_length [OF assms(1)] assms(4) by simp
  then show ?thesis using assms(1,2) hms unfolding check_cert_True cert_hosts_iff laid_msgs_def by auto
qed

text \<open>The last of enough messages makes the node try to be the primary with all of them.\<close>

lemma enough_laid_down:
  assumes "collecting env n e" "laid_down_list n e st = []" "map_result (open_laid env) ws = Inr hms" "distinct (map fst hms)"
    and "length ws = rbft_N n - rbft_f n" "\<forall>hm \<in> set hms. ld_epoch (snd hm) = e \<and> ld_state (snd hm) = st"
  shows "ws \<noteq> [] \<and> (\<exists>H. rbft_deliver env (rbft_run env n (laid_events (butlast ws))) [] ''/ILaidDown'' (last ws) =
    catch_assertion (try_to_be_primary env (n\<lparr>laid_down_history := H\<rparr>) e st ws))"
proof -
  have "all_endpoints n \<noteq> []" using assms(1) endpoint_at_nonempty by (auto simp: collecting_def)
  then have "0 < rbft_N n - rbft_f n" using rbft_f_eq [of n] by (cases "all_endpoints n") (simp_all add: rbft_N_def)
  then obtain us w where ws: "ws = us @ [w]" using assms(5) by (cases ws rule: rev_cases) auto
  obtain hs h msg where o: "map_result (open_laid env) us = Inr hs" "open_laid env w = Inr (h, msg)" "hms = hs @ [(h, msg)]"
    using assms(3) by (auto simp: ws map_result_append bind_result_Inr_iff)
  have dist: "distinct ws" by (rule map_result_distinct [OF assms(3,4)])
  obtain H where H: "rbft_run env n (laid_events us) = n\<lparr>laid_down_history := H\<rparr>" "laid_down_list (n\<lparr>laid_down_history := H\<rparr>) e st = us"
    using few_laid_down [OF assms(1) o(1), of st] assms(2,5,6) o(3) dist by (auto simp: ws)
  let ?n1 = "put_laid_down_list (n\<lparr>laid_down_history := H\<rparr>) e st ws"
  have same: "rbft_N (n\<lparr>laid_down_history := H\<rparr>) = rbft_N n" "rbft_f (n\<lparr>laid_down_history := H\<rparr>) = rbft_f n"
    by (simp_all add: rbft_N_def rbft_f_def)
  have "collecting env (n\<lparr>laid_down_history := H\<rparr>) e" using assms(1) by (simp add: collecting_def rbft_N_def)
  then have "rbft_deliver env (n\<lparr>laid_down_history := H\<rparr>) [] ''/ILaidDown'' w = catch_assertion (try_to_be_primary env ?n1 e st ws)"
    using deliver_laid_down [of env "n\<lparr>laid_down_history := H\<rparr>" e w h msg st "[]"] o assms(5,6) dist H(2) same
    by (simp add: ws Let_def)
  moreover have "?n1 = n\<lparr>laid_down_history := laid_down_history ?n1\<rparr>" by (simp add: put_laid_down_list_def)
  ultimately show ?thesis using H(1) by (metis ws butlast_snoc last_snoc snoc_eq_iff_butlast)
qed

section \<open>Sample certificates\<close>

definition demo_signed :: "string \<Rightarrow> string \<Rightarrow> string" where
  "demo_signed host d = projr (naive_prepare_msg \<lparr>ep = host\<rparr> d)"

definition demo_laid :: "string \<times> int \<Rightarrow> string" where
  "demo_laid he = demo_signed (fst he)
     (toPbString laid_demo_codec LaidDownMsg_toPb \<lparr>ld_msg = [], ld_epoch = snd he, ld_state = ''<mocked-state>''\<rparr>)"

lemma open_demo_signed: "fits host [] \<Longrightarrow> open_msg (demo_rbft_env me) (demo_signed host d) = Inr (Some (host, d))"
  using naive.open_prepared [of "\<lparr>ep = host\<rparr>" d]
  by (auto simp: open_msg_def demo_rbft_env_def demo_signed_def naive_valid_def naive_my_endpoint_def)

lemma open_demo_laid:
  "fits host [] \<Longrightarrow> 0 \<le> e \<Longrightarrow>
   open_laid (demo_rbft_env me) (demo_laid (host, e)) = Inr (host, \<lparr>ld_msg = [], ld_epoch = e, ld_state = ''<mocked-state>''\<rparr>)"
  using open_demo_signed [of host me]
  by (simp add: open_laid_def demo_laid_def parse_laid_def demo_rbft_env_def fromPbString_def toPbString_def laid_demo_codec_def
      LaidDownMsg_toPb_def LaidDownMsg_fromPb_def)

lemma demo_cert_codec_ok: "cert_codec_ok cert_demo_codec"
  by (simp add: cert_codec_ok_def cert_demo_codec_def NewViewCertificate_toPb_def)

lemma demo_check_cert:
  assumes "l = map demo_laid hes" "hes \<noteq> []" "\<forall>(h, i) \<in> set hes. fits h [] \<and> 0 \<le> i" "\<forall>(h, i) \<in> set (tl hes). i = e"
    and "size_sub (rbft_N n) (rbft_f n) \<le> card (fst ` set hes)"
  shows "check_cert (demo_rbft_env me) n l e fn = Inr True"
proof -
  let ?m = "\<lambda>(h, i). (h, \<lparr>ld_msg = [], ld_epoch = i, ld_state = ''<mocked-state>''\<rparr>)"
  have "laid_msgs (demo_rbft_env me) l = Inr (map ?m hes)"
    using assms(3) unfolding laid_msgs_def assms(1)
    by (induction hes) (auto simp: open_demo_laid)
  moreover obtain he hs where hes: "hes = he # hs" using assms(2) by (cases hes) auto
  moreover have "fst ` set (map ?m hes) = fst ` set hes" by (force simp: case_prod_beta)
  ultimately show ?thesis
    using assms(4,5) unfolding check_cert_True cert_hosts_iff
    by (intro exI [of _ "fold std_set_insert (map fst (map ?m hes)) []"] exI [of _ "?m he"] exI [of _ "map ?m hs"])
      (auto simp: get_state_def cmds_to_state_def case_prod_beta)
qed

text \<open>Node \<open>a\<close> of the group, about to be the primary of epoch 1, with one newcomer \<open>d\<close> waiting.\<close>

definition demo_next :: "string list rbft_node" where
  "demo_next = demo_sub\<lparr>sig_of_nodes_to_be_added := [demo_signed ''d'' ''Hi, please let me in.''], rb_exe := [''x''], rb_history := [''x'']\<rparr>"

definition demo_cert :: "string list" where
  "demo_cert = map demo_laid [(''a'', 1), (''b'', 1), (''c'', 1)]"

lemma demo_next_newcomers: "get_newcommers (demo_rbft_env me) (sig_of_nodes_to_be_added demo_next) = Inr [''d'']"
  by (simp add: demo_next_def get_newcommers_def open_demo_signed fits_def std_set_insert_def)

lemma demo_next_fields [simp]:
  "all_endpoints demo_next = [''p'', ''a'', ''b'', ''c'']" "rbft_N demo_next = 4" "rb_history demo_next = [''x'']" "rb_exe demo_next = [''x'']"
  by (simp_all add: demo_next_def rbft_N_def)

lemma demo_cert_checked: "all_endpoints n = [''p'', ''a'', ''b'', ''c''] \<Longrightarrow> check_cert (demo_rbft_env me) n demo_cert 1 fn = Inr True"
  by (rule demo_check_cert [of _ "[(''a'', 1), (''b'', 1), (''c'', 1)]"])
    (simp_all add: demo_cert_def fits_def rbft_N_def rbft_f_def size_sub_def)

lemma demo_env_fields [simp]:
  "listened_endpoint (demo_rbft_env me) = me" "rb_execute (demo_rbft_env me) = mock_execute" "cert_codec (demo_rbft_env me) = cert_demo_codec" "laid_codec (demo_rbft_env me) = laid_demo_codec"
  by (simp_all add: demo_rbft_env_def)

lemma demo_env_tear: "tear_msg_open (demo_rbft_env me) = tear_msg_open (demo_rbft_env me')"
  by (simp add: demo_rbft_env_def naive_tear_msg_open_def fun_eq_iff)

section \<open>Properties\<close>



text \<open>
  Outsiders can change the view. In a group of four, a certificate signed by three endpoints none of which
  belongs to the group, the first of them for another epoch, is accepted by a sub, which then follows.
\<close>

theorem rbft_outsiders_change_view:
  "\<exists>senders. set senders \<inter> set (all_endpoints demo_sub) = {} \<and>
     check_cert (demo_rbft_env ''b'') demo_sub (map demo_laid (zip senders [9, 1, 1])) 1 False = Inr True \<and>
     handle_new_primary (demo_rbft_env ''b'') demo_sub ''z''
       (toPbString cert_demo_codec NewViewCertificate_toPb
          (NewViewCertificate_ctor ''m'' 1 (map demo_laid (zip senders [9, 1, 1])) [] [])) =
     (None, enter_new_view demo_sub 1 [], [])"
proof -
  let ?hes = "zip [''x'', ''y'', ''z''] [9, 1, 1 :: int]"
  let ?l = "map demo_laid ?hes" and ?m = "NewViewCertificate_ctor ''m'' 1 (map demo_laid ?hes) [] []"
  have c: "check_cert (demo_rbft_env ''b'') demo_sub ?l 1 False = Inr True"
    by (rule demo_check_cert [of _ ?hes]) (simp_all add: fits_def size_sub_def)
  have "parse_cert (demo_rbft_env ''b'') (toPbString cert_demo_codec NewViewCertificate_toPb ?m) = Some ?m"
    using parse_cert_sent [of "demo_rbft_env ''b''" ?m] demo_cert_codec_ok by (simp add: NewViewCertificate_ctor_def)
  then show ?thesis
    using c by (intro exI [of _ "[''x'', ''y'', ''z'']"]) (simp add: handle_new_primary_def NewViewCertificate_ctor_def get_newcommers_def)
qed

text \<open>
  Adding nodes keeps the primary. When \<open>k\<close> newcomers are appended to the group, the recomputed epoch
  \<open>e + (e / N) * k\<close> selects in the larger group the node that epoch \<open>e\<close> selects in the smaller one, and never goes
  back; this holds as long as the result fits an \<open>int\<close>.
\<close>

theorem rbft_epoch_keeps_primary:
  assumes "all_endpoints n \<noteq> []" "0 \<le> e" "e + (e div int (rbft_N n)) * int (length ns) < 2 ^ 31"
  shows "endpoint_at (all_endpoints n @ ns) (epoch_considering_newcomers n e (length ns)) = endpoint_at (all_endpoints n) e \<and>
         e \<le> epoch_considering_newcomers n e (length ns)"
proof -
  have fits: "epoch_fits n e (length ns)" using assms by (simp add: epoch_fits_def)
  have "0 \<le> (e div int (rbft_N n)) * int (length ns)" using assms by (simp add: pos_imp_zdiv_nonneg_iff rbft_N_def)
  then show ?thesis using endpoint_at_newcomers [OF fits] epoch_considering_newcomers_eq [OF fits] by simp
qed

theorem rbft_epoch_keeps_primary_witness:
  "endpoint_at ([''p'', ''a'', ''b'', ''c''] @ [''d'', ''e'']) (epoch_considering_newcomers demo_sub 9 (length [''d'', ''e''])) =
     endpoint_at [''p'', ''a'', ''b'', ''c''] 9 \<and> 9 \<le> epoch_considering_newcomers demo_sub 9 (length [''d'', ''e''])"
  using rbft_epoch_keeps_primary [of demo_sub 9 "[''d'', ''e'']"] by simp

text \<open>
  C10. A view change brings primary and subs into the same view. The node that epoch \<open>e\<close> selects, with verified
  newcomers that are not in the group yet, becomes primary and sends its certificate to every other member; a
  member with the same group whose epoch is not past \<open>e\<close> and that accepts the certificate ends with the
  primary's epoch and group, as a sub of that primary, with the view change over.
\<close>

theorem rbft_view_change_agreement:
  assumes "cert_codec_ok (cert_codec env)" "cert_codec env' = cert_codec env" "tear_msg_open env' = tear_msg_open env"
    and "endpoint_at (all_endpoints n) e = Inr (listened_endpoint env)" "get_state n = st" "epoch_fits n e (length ns)"
    and "get_newcommers env (sig_of_nodes_to_be_added n) = Inr ns" "set ns \<inter> set (all_endpoints n) = {}"
    and "all_endpoints s = all_endpoints n" "epoch s \<le> e" "check_cert env' s l e False = Inr True"
    and "a \<in> set (all_endpoints n)" "a \<noteq> listened_endpoint env"
  shows "\<exists>n' out data s'. try_to_be_primary env n e st l = (None, n', out) \<and> rbft_is_primary env n' \<and> rb_role n' = Primary \<and>
    (a, ''/IamThePrimary'', data) \<in> set out \<and> handle_new_primary env' s (listened_endpoint env) data = (None, s', []) \<and>
    epoch s' = epoch n' \<and> all_endpoints s' = all_endpoints n' \<and> rbft_primary s' = Inr (listened_endpoint env) \<and>
    rb_role s' = Sub \<and> \<not> view_change_state s'"
  by (rule new_view_shared [OF assms])

theorem rbft_view_change_agreement_witness:
  "\<exists>n' out data s'. try_to_be_primary (demo_rbft_env ''a'') demo_next 1 ''<mocked-state>'' demo_cert = (None, n', out) \<and>
    rbft_is_primary (demo_rbft_env ''a'') n' \<and> rb_role n' = Primary \<and> (''b'', ''/IamThePrimary'', data) \<in> set out \<and>
    handle_new_primary (demo_rbft_env ''b'') demo_sub (listened_endpoint (demo_rbft_env ''a'')) data = (None, s', []) \<and>
    epoch s' = epoch n' \<and> all_endpoints s' = all_endpoints n' \<and> rbft_primary s' = Inr (listened_endpoint (demo_rbft_env ''a'')) \<and>
    rb_role s' = Sub \<and> \<not> view_change_state s'"
  by (rule rbft_view_change_agreement [where ns = "[''d'']"])
    (simp_all add: demo_cert_codec_ok demo_env_tear [of "''b''" "''a''"] demo_next_newcomers demo_cert_checked epoch_fits_def
      endpoint_at_def to_size_t_def get_state_def cmds_to_state_def)

text \<open>
  C2. A view change completes. When the node that epoch \<open>e\<close> selects receives correctly signed laid-down messages for
  that epoch from \<open>N() - f()\<close> distinct nodes, it becomes the primary on the last of them, and the certificate it
  then sends is accepted by every member with the same group whose epoch is not past \<open>e\<close>: that member follows
  into the same epoch and group. No acceptance is assumed; the certificate check is derived from the
  messages collected.
\<close>

theorem rbft_view_change_completes:
  assumes "cert_codec_ok (cert_codec env)" "cert_codec env' = cert_codec env" "tear_msg_open env' = tear_msg_open env"
    "laid_codec env' = laid_codec env"
    and "collecting env n e" "laid_down_list n e (get_state n) = []"
    and "get_newcommers env (sig_of_nodes_to_be_added n) = Inr ns" "set ns \<inter> set (all_endpoints n) = {}" "epoch_fits n e (length ns)"
    and "map_result (open_laid env) ws = Inr hms" "distinct (map fst hms)" "length ws = rbft_N n - rbft_f n"
    and "\<forall>hm \<in> set hms. ld_epoch (snd hm) = e \<and> ld_state (snd hm) = get_state n"
    and "all_endpoints s = all_endpoints n" "epoch s \<le> e" "a \<in> set (all_endpoints n)" "a \<noteq> listened_endpoint env"
  shows "\<exists>n' out data s'. rbft_deliver env (rbft_run env n (laid_events (butlast ws))) [] ''/ILaidDown'' (last ws) = (None, n', out) \<and>
    rbft_is_primary env n' \<and> (a, ''/IamThePrimary'', data) \<in> set out \<and>
    handle_new_primary env' s (listened_endpoint env) data = (None, s', []) \<and> epoch s' = epoch n' \<and>
    all_endpoints s' = all_endpoints n' \<and> rbft_primary s' = Inr (listened_endpoint env) \<and> rb_role s' = Sub \<and> \<not> view_change_state s'"
proof -
  let ?st = "get_state n"
  have sel: "endpoint_at (all_endpoints n) e = Inr (listened_endpoint env)" using assms(5) by (simp add: collecting_def)
  obtain H where ne: "ws \<noteq> []" and d: "rbft_deliver env (rbft_run env n (laid_events (butlast ws))) [] ''/ILaidDown'' (last ws) =
      catch_assertion (try_to_be_primary env (n\<lparr>laid_down_history := H\<rparr>) e ?st ws)"
    using enough_laid_down [OF assms(5,6,10-13)] by blast
  let ?n1 = "n\<lparr>laid_down_history := H\<rparr>"
  have n1: "get_state ?n1 = ?st" "epoch_fits ?n1 e k = epoch_fits n e k" for k
    by (simp_all add: get_state_def rbft_N_def epoch_fits_def)
  have cert: "check_cert env' s ws e False = Inr True"
  proof (rule quorum_cert_checked)
    show "map_result (open_laid env') ws = Inr hms" using assms(10) open_laid_cong [OF assms(3,4)] by simp
    show "length ws = size_sub (rbft_N s) (rbft_f s)"
      using assms(12,14) certs_needed_eq [of s] endpoint_at_nonempty [OF sel] by (simp add: rbft_N_def rbft_f_def)
  qed (use assms(11,13) ne in \<open>simp_all add: get_state_def cmds_to_state_def\<close>)
  obtain n' out data s' where v: "try_to_be_primary env ?n1 e ?st ws = (None, n', out) \<and> rbft_is_primary env n' \<and> rb_role n' = Primary \<and>
    (a, ''/IamThePrimary'', data) \<in> set out \<and> handle_new_primary env' s (listened_endpoint env) data = (None, s', []) \<and>
    epoch s' = epoch n' \<and> all_endpoints s' = all_endpoints n' \<and> rbft_primary s' = Inr (listened_endpoint env) \<and>
    rb_role s' = Sub \<and> \<not> view_change_state s'"
    using new_view_shared [OF assms(1-3) _ n1(1) _ _ _ _ assms(15) cert, where ns = ns and a = a] assms(7-9,14,16,17) sel n1 by auto
  then have "rbft_deliver env (rbft_run env n (laid_events (butlast ws))) [] ''/ILaidDown'' (last ws) = (None, n', out)"
    using d by (simp add: catch_assertion_def)
  then show ?thesis using v by blast
qed

theorem rbft_view_change_completes_witness:
  "\<exists>n' out data s'. rbft_deliver (demo_rbft_env ''a'') (rbft_run (demo_rbft_env ''a'') demo_next (laid_events (butlast demo_cert))) []
       ''/ILaidDown'' (last demo_cert) = (None, n', out) \<and>
    rbft_is_primary (demo_rbft_env ''a'') n' \<and> (''b'', ''/IamThePrimary'', data) \<in> set out \<and>
    handle_new_primary (demo_rbft_env ''b'') demo_sub (listened_endpoint (demo_rbft_env ''a'')) data = (None, s', []) \<and> epoch s' = epoch n' \<and>
    all_endpoints s' = all_endpoints n' \<and> rbft_primary s' = Inr (listened_endpoint (demo_rbft_env ''a'')) \<and> rb_role s' = Sub \<and> \<not> view_change_state s'"
proof (rule rbft_view_change_completes [where ns = "[''d'']" and e = 1 and
      hms = "map (\<lambda>h. (h, \<lparr>ld_msg = [], ld_epoch = 1, ld_state = ''<mocked-state>''\<rparr>)) [''a'', ''b'', ''c'']"])
  show "map_result (open_laid (demo_rbft_env ''a'')) demo_cert =
      Inr (map (\<lambda>h. (h, \<lparr>ld_msg = [], ld_epoch = 1, ld_state = ''<mocked-state>''\<rparr>)) [''a'', ''b'', ''c''])"
    by (simp add: demo_cert_def open_demo_laid fits_def)
  show "collecting (demo_rbft_env ''a'') demo_next 1"
    by (simp add: collecting_def demo_next_def endpoint_at_def to_size_t_def rbft_N_def)
  show "laid_down_list demo_next 1 (get_state demo_next) = []" by (simp add: laid_down_list_def demo_next_def)
qed (simp_all add: demo_cert_codec_ok demo_env_tear [of "''b''" "''a''"] demo_next_newcomers epoch_fits_def demo_cert_def
    get_state_def cmds_to_state_def rbft_f_def size_sub_def)



text \<open>
  A request to join that is remembered for too long splits the group. The next primary does not compare the
  newcomers it has collected with the group: when one of them is a member already, it adds it a second time and
  moves to the new view, and every member with the same group ignores its certificate and stays where it was.
\<close>

theorem rbft_stale_join_splits_group:
  assumes "cert_codec_ok (cert_codec env)" "cert_codec env' = cert_codec env" "tear_msg_open env' = tear_msg_open env"
    and "endpoint_at (all_endpoints n) e = Inr (listened_endpoint env)" "get_state n = st" "epoch_fits n e (length ns)"
    and "get_newcommers env (sig_of_nodes_to_be_added n) = Inr ns" "c \<in> set ns" "c \<in> set (all_endpoints n)"
    and "all_endpoints s = all_endpoints n" "a \<in> set (all_endpoints n)" "a \<noteq> listened_endpoint env"
  shows "\<exists>n' out data. try_to_be_primary env n e st l = (None, n', out) \<and> (a, ''/IamThePrimary'', data) \<in> set out \<and>
    \<not> distinct (all_endpoints n') \<and> handle_new_primary env' s (listened_endpoint env) data = (None, s, []) \<and>
    length (all_endpoints n') > length (all_endpoints s)"
proof -
  let ?m = "new_view_msg n e l ns []"
  let ?data = "toPbString (cert_codec env) NewViewCertificate_toPb ?m"
  have p: "parse_cert env' ?data = Some ?m"
    using parse_cert_sent [of env' ?m] assms(1,2,6) by (simp add: epoch_fits_def)
  have "\<exists>c \<in> set ns. c \<in> set (all_endpoints s)" using assms(8-10) by auto
  then have ign: "handle_new_primary env' s (listened_endpoint env) ?data = (None, s, [])"
    using newcomers_of_msg [OF assms(7,3), of e l "[]"] unfolding handle_new_primary_def p by simp
  have "(a, ''/IamThePrimary'', ?data) \<in> set (snd (snd (try_to_be_primary env n e st l)))"
    unfolding try_to_be_primary_outcome [OF assms(4,5,7,6)] using assms(11,12) by simp
  then show ?thesis
    using ign assms(8-10) try_to_be_primary_outcome [OF assms(4,5,7,6), of l]
    by (intro exI [of _ "new_view_primary n e ns"] exI [of _ "snd (snd (try_to_be_primary env n e st l))"] exI [of _ ?data])
      (auto simp: length_greater_0_conv)
qed

theorem rbft_stale_join_splits_group_witness:
  "\<exists>n' out data. try_to_be_primary (demo_rbft_env ''a'') (demo_sub\<lparr>sig_of_nodes_to_be_added := [demo_signed ''c'' ''Hi, please let me in.'']\<rparr>)
       1 ''<mocked-state>'' demo_cert = (None, n', out) \<and> (''b'', ''/IamThePrimary'', data) \<in> set out \<and>
    \<not> distinct (all_endpoints n') \<and> handle_new_primary (demo_rbft_env ''b'') demo_sub (listened_endpoint (demo_rbft_env ''a'')) data = (None, demo_sub, []) \<and>
    length (all_endpoints n') > length (all_endpoints demo_sub)"
  by (rule rbft_stale_join_splits_group [where ns = "[''c'']" and c = "''c''"])
    (simp_all add: demo_cert_codec_ok demo_env_tear [of "''b''" "''a''"] epoch_fits_def rbft_N_def
      endpoint_at_def to_size_t_def get_state_def cmds_to_state_def get_newcommers_def open_demo_signed fits_def std_set_insert_def)


definition demo_single :: "string list rbft_node" where
  "demo_single = rbft_comfort ((start_listening_as_primary (rbft_blank [] [''a'']))\<lparr>timer_running := True\<rparr>)"

definition demo_single_sys :: "string list rbft_sys" where
  "demo_single_sys = \<lparr>rbs_nodes = [''a'' \<mapsto> demo_single\<lparr>rb_exe := [''x''], rb_history := [''x'']\<rparr>], rbs_flight = []\<rparr>"

lemma demo_single_fields:
  "rbft_primary demo_single = Inr ''a''" "\<not> view_change_state demo_single" "received_commands demo_single = {}"
  "rb_exe demo_single = []" "rb_history demo_single = []" "all_endpoints demo_single = [''a'']"
  by (simp_all add: demo_single_def rbft_primary_def endpoint_at_def to_size_t_def listening_eqs rbft_comfort_def rbft_blank_def)

lemma demo_single_reachable: "rbft_reachable demo_rbft_env [] demo_single_sys"
proof -
  let ?S0 = "\<lparr>rbs_nodes = Map.empty, rbs_flight = []\<rparr> :: string list rbft_sys"
  let ?S1 = "rbft_put ?S0 ''a'' demo_single [] []"
  have "RbftConsensus_ctor (demo_rbft_env ''a'') [] [''a''] = (None, demo_single, [])"
    by (simp add: RbftConsensus_ctor_def demo_single_def rbft_primary_def endpoint_at_def to_size_t_def rbft_blank_def)
  then have s1: "rbft_step demo_rbft_env [] ?S0 ?S1"
    using rbft_step.start [of ?S0 "''a''" demo_rbft_env "[]" "[''a'']"] by simp
  have "rbft_handle_execute (demo_rbft_env ''a'') demo_single ''CLIENT'' ''x'' =
      (None, demo_single\<lparr>rb_exe := [''x''], rb_history := [''x'']\<rparr>, [])"
    by (simp add: rbft_handle_execute_def rbft_is_primary_def handle_execute_for_primary1_def finally_execute_it_def mock_execute_def
        boardcast_to_others_def demo_single_fields)
  then have "rbft_step demo_rbft_env [] ?S1 (rbft_put ?S1 ''a'' (demo_single\<lparr>rb_exe := [''x''], rb_history := [''x'']\<rparr>) [] (rbs_flight ?S1))"
    by (intro rbft_step.client [where c = "''CLIENT''" and data = "''x''"]) (auto simp: rbft_put_def demo_single_fields)
  moreover have "rbft_put ?S1 ''a'' (demo_single\<lparr>rb_exe := [''x''], rb_history := [''x'']\<rparr>) [] (rbs_flight ?S1) = demo_single_sys"
    by (simp add: rbft_put_def demo_single_sys_def)
  ultimately show ?thesis
    using s1 unfolding rbft_reachable_def by (metis converse_rtranclp_into_rtranclp rtranclp.rtrancl_refl)
qed


text \<open>
  The primary does not drop repeated commands. \<open>received_commands\<close> is consulted and cleared but never filled:
  it is empty at every node of every reachable cluster state, so a primary outside a view change executes
  and passes on whatever it is sent, and the same command again when it comes again.
\<close>

theorem rbft_primary_executes_duplicates:
  assumes "replayable_executor exec invar" "invar s0" "\<And>e. rb_execute (envs e) = exec" "rbft_reachable envs s0 S" "rbs_nodes S e = Some n"
    and "\<not> view_change_state n"
  shows "received_commands n = {} \<and>
    (let n1 = fst (snd (handle_execute_for_primary1 (envs e) n a d)); n2 = fst (snd (handle_execute_for_primary1 (envs e) n1 b d)) in
     rb_history n2 = rb_history n @ [fst (exec (rb_exe n) d), fst (exec (snd (exec (rb_exe n) d)) d)])"
proof -
  have "replayable_executor.cluster_ok invar envs s0 S"
    by (rule replayable_executor.reachable_cluster_ok [OF assms(1,4,3,2)])
  then have "received_commands n = {}"
    using assms(5) by (auto simp: replayable_executor.cluster_ok_def [OF assms(1)] replica_ok_def)
  then show ?thesis
    using assms(6) by (simp add: handle_execute_for_primary1_def finally_execute_it_def assms(3) Let_def case_prod_beta)
qed

theorem rbft_primary_executes_duplicates_witness:
  "received_commands (demo_single\<lparr>rb_exe := [''x''], rb_history := [''x'']\<rparr>) = {} \<and>
    (let n1 = fst (snd (handle_execute_for_primary1 (demo_rbft_env ''a'') (demo_single\<lparr>rb_exe := [''x''], rb_history := [''x'']\<rparr>) ''CLIENT'' ''x''));
         n2 = fst (snd (handle_execute_for_primary1 (demo_rbft_env ''a'') n1 ''CLIENT'' ''x'')) in
     rb_history n2 = [''x'', ''x'', ''x''])"
  using rbft_primary_executes_duplicates [OF mock.replayable_executor_axioms TrueI demo_env_fields(2) demo_single_reachable, of "''a''"
      "demo_single\<lparr>rb_exe := [''x''], rb_history := [''x'']\<rparr>" "''CLIENT''" "''x''" "''CLIENT''"]
  by (simp add: demo_single_sys_def demo_single_fields mock_execute_def)

lemma LaidDownMsg_pb_roundtrip [pb_simps]: "LaidDownMsg_fromPb (LaidDownMsg_toPb m) = Inr m"
  by (cases m) (simp add: LaidDownMsg_fromPb_def LaidDownMsg_toPb_def)

lemma as_strings_json: "map_result as_string (map JStr ss) = Inr ss"
  by (simp add: map_result_Inr)

text \<open>
  The messages of a view change survive both of their forms: a \<open>LaidDownMsg\<close> and a \<open>NewViewCertificate\<close> come
  back unchanged from protobuf and, when the epoch is an \<open>int\<close>, from JSON.
\<close>

theorem rbft_messages_roundtrip:
  "LaidDownMsg_fromPb (LaidDownMsg_toPb m) = Inr m \<and> NewViewCertificate_fromPb (NewViewCertificate_toPb c) = Inr c \<and>
   (- (2 ^ 31) \<le> ld_epoch m \<and> ld_epoch m < 2 ^ 31 \<longrightarrow> LaidDownMsg_fromJson (LaidDownMsg_toJson m) = Some m) \<and>
   (- (2 ^ 31) \<le> nv_epoch c \<and> nv_epoch c < 2 ^ 31 \<longrightarrow> NewViewCertificate_fromJson (NewViewCertificate_toJson c) = Some c)"
  by (cases m, cases c) (simp add: pb_simps LaidDownMsg_fromJson_def LaidDownMsg_toJson_def NewViewCertificate_fromJson_def
      NewViewCertificate_toJson_def json_at_def jat_def fits_int_def caught_def value_to_vector_def as_strings_json)

theorem rbft_messages_roundtrip_witness:
  "LaidDownMsg_fromJson (LaidDownMsg_toJson \<lparr>ld_msg = ''m'', ld_epoch = 3, ld_state = ''s''\<rparr>) = Some \<lparr>ld_msg = ''m'', ld_epoch = 3, ld_state = ''s''\<rparr> \<and>
   NewViewCertificate_fromJson (NewViewCertificate_toJson (NewViewCertificate_ctor ''m'' 2 [''a''] [''b''] [''c''])) =
     Some (NewViewCertificate_ctor ''m'' 2 [''a''] [''b''] [''c''])"
  using rbft_messages_roundtrip [of "\<lparr>ld_msg = ''m'', ld_epoch = 3, ld_state = ''s''\<rparr>" "NewViewCertificate_ctor ''m'' 2 [''a''] [''b''] [''c'']"]
  by (simp add: NewViewCertificate_ctor_def)

end
