(* ===== verification/NetServe.thy ===== *)
theory NetServe
  imports SignedMsg ChainCore
begin

text \<open>
  The network layer of a node: dispatch of HTTP requests and of UDP datagrams to the handlers that listen to
  a target (\<^verbatim>\<open>net/pure-httpCommon.hpp\<close>, \<^verbatim>\<open>net/pure-weakUdpServer.hpp\<close>), the sessions of the two HTTP servers
  (\<^verbatim>\<open>net/pure-weakHttpServer.hpp\<close>, \<^verbatim>\<open>net/pure-weakAsyncHttpServer.hpp\<close>), the HTTP client that reuses connections
  (\<^verbatim>\<open>net/pure-greenHttpClient.hpp\<close>), and the two assistants through which a consensus sends and listens
  (\<^verbatim>\<open>net/pure-httpNetAsstn.hpp\<close>, \<^verbatim>\<open>net/pure-udpNetAsstn.hpp\<close>). Handlers change a state \<open>'s\<close> of the node. Sockets are
  the parameter record \<open>sockets\<close>; the message manager enters as its two operations.
\<close>

text \<open>A function declared \<open>noexcept\<close> that throws, or a thread whose function throws, ends the process.\<close>

datatype 'a run = Terminated | Done 'a

section \<open>Text tools of Boost\<close>

text \<open>\<open>split(v, s, is_any_of(seps))\<close>: one token more than there are separators.\<close>

fun split_any :: "string \<Rightarrow> string \<Rightarrow> string list" where
  "split_any seps [] = [[]]"
| "split_any seps (c # cs) =
     (if c \<in> set seps then [] # split_any seps cs
      else (case split_any seps cs of [] \<Rightarrow> [[c]] | t # ts \<Rightarrow> (c # t) # ts))"

text \<open>\<open>lexical_cast\<close> to integers: an optional sign, then digits; an unsigned target takes a minus sign and wraps.\<close>

definition digit_of :: "char \<Rightarrow> nat option" where
  "digit_of c = (let n = of_char c :: nat in if 48 \<le> n \<and> n \<le> 57 then Some (n - 48) else None)"

fun parse_digits :: "nat \<Rightarrow> string \<Rightarrow> nat option" where
  "parse_digits acc [] = Some acc"
| "parse_digits acc (c # cs) = (case digit_of c of None \<Rightarrow> None | Some d \<Rightarrow> parse_digits (10 * acc + d) cs)"

definition unsigned_text :: "string \<Rightarrow> nat option" where
  "unsigned_text s = (if s = [] then None else parse_digits 0 s)"

definition lexical_cast_int :: "string \<Rightarrow> int option" where
  "lexical_cast_int s =
     (case s of
        [] \<Rightarrow> None
      | c # cs \<Rightarrow>
          if c = CHR ''-'' then
            (case unsigned_text cs of None \<Rightarrow> None | Some n \<Rightarrow> if n \<le> 2 ^ 31 then Some (- int n) else None)
          else
            (case unsigned_text (if c = CHR ''+'' then cs else s) of
               None \<Rightarrow> None | Some n \<Rightarrow> if n < 2 ^ 31 then Some (int n) else None))"

definition lexical_cast_uint16 :: "string \<Rightarrow> 16 word option" where
  "lexical_cast_uint16 s =
     (case s of
        [] \<Rightarrow> None
      | c # cs \<Rightarrow>
          (case unsigned_text (if c = CHR ''-'' \<or> c = CHR ''+'' then cs else s) of
             None \<Rightarrow> None
           | Some n \<Rightarrow> if n < 2 ^ 16 then Some (if c = CHR ''-'' then - of_nat n else of_nat n) else None))"

definition split_addr_port :: "string \<Rightarrow> (string \<times> 16 word) result" where
  "split_addr_port s =
     (let r = split_any '':'' s in
      if length r \<noteq> 2 then Inl Runtime_error
      else (case lexical_cast_uint16 (r ! 1) of None \<Rightarrow> Inl Bad_cast | Some p \<Rightarrow> Inr (r ! 0, p)))"

definition combine_addr_port :: "string \<Rightarrow> 16 word \<Rightarrow> string" where
  "combine_addr_port addr port = addr @ '':'' @ decimal (unat port)"

section \<open>Dispatch of HTTP requests\<close>

type_synonym query = "(string \<times> string) list"  \<comment> \<open>\<open>unordered_map<string,string>\<close>: distinct keys\<close>
type_synonym 's post_handler = "string \<Rightarrow> 16 word \<Rightarrow> string \<Rightarrow> 's \<Rightarrow> ((bool \<times> string) \<times> 's) access"
type_synonym 's get_handler = "string \<Rightarrow> 16 word \<Rightarrow> query option \<Rightarrow> 's \<Rightarrow> ((bool \<times> string) \<times> 's) access"

record 's WeakHttpServerBase =
  postLisnMap :: "string \<rightharpoonup> 's post_handler"
  getLisnMap :: "string \<rightharpoonup> 's get_handler"

definition WeakHttpServerBase_empty :: "'s WeakHttpServerBase" where
  "WeakHttpServerBase_empty = \<lparr>postLisnMap = (\<lambda>_. None), getLisnMap = (\<lambda>_. None)\<rparr>"

definition listenToGet :: "string \<Rightarrow> 's get_handler \<Rightarrow> 's WeakHttpServerBase \<Rightarrow> 's WeakHttpServerBase" where
  "listenToGet k f srv = srv\<lparr>getLisnMap := (getLisnMap srv)(k \<mapsto> f)\<rparr>"

definition listenToPost :: "string \<Rightarrow> 's post_handler \<Rightarrow> 's WeakHttpServerBase \<Rightarrow> 's WeakHttpServerBase" where
  "listenToPost k f srv = srv\<lparr>postLisnMap := (postLisnMap srv)(k \<mapsto> f)\<rparr>"

text \<open>\<open>erase\<close> returns how many entries it removed.\<close>

definition removeFromPost :: "string \<Rightarrow> 's WeakHttpServerBase \<Rightarrow> nat \<times> 's WeakHttpServerBase" where
  "removeFromPost k srv =
     (if postLisnMap srv k = None then 0 else 1, srv\<lparr>postLisnMap := (postLisnMap srv)(k := None)\<rparr>)"

text \<open>\<open>MultiStackHttpServer\<close> forwards to each of its servers.\<close>

definition multi_listenToGet :: "string \<Rightarrow> 's get_handler \<Rightarrow> 's WeakHttpServerBase list \<Rightarrow> 's WeakHttpServerBase list" where
  "multi_listenToGet k f srvs = map (listenToGet k f) srvs"

definition multi_listenToPost :: "string \<Rightarrow> 's post_handler \<Rightarrow> 's WeakHttpServerBase list \<Rightarrow> 's WeakHttpServerBase list" where
  "multi_listenToPost k f srvs = map (listenToPost k f) srvs"

definition multi_removeFromPost :: "string \<Rightarrow> 's WeakHttpServerBase list \<Rightarrow> nat \<times> 's WeakHttpServerBase list" where
  "multi_removeFromPost k srvs =
     (sum_list (map (fst \<circ> removeFromPost k) srvs), map (snd \<circ> removeFromPost k) srvs)"

text \<open>The insertion loop over the split query; it stops at a key that is there already.\<close>

fun insert_params :: "query \<Rightarrow> string list \<Rightarrow> query option" where
  "insert_params m (k # v # r) = (if map_of m k \<noteq> None then None else insert_params (m @ [(k, v)]) r)"
| "insert_params m _ = Some m"

text \<open>The parsed parameters and the target without them.\<close>

definition parse_query_param :: "string \<Rightarrow> query option \<times> string" where
  "parse_query_param s =
     (let t = takeWhile (\<lambda>c. c \<noteq> CHR ''?'') s; r = dropWhile (\<lambda>c. c \<noteq> CHR ''?'') s in
      if r = [] then (None, s)
      else if tl r = [] then (None, t)
      else let v = split_any ''=&'' (tl r) in
        if length v mod 2 \<noteq> 0 then (None, t) else (insert_params [] v, t))"

definition getGetResponseBody ::
  "'s WeakHttpServerBase \<Rightarrow> string \<Rightarrow> string \<Rightarrow> 16 word \<Rightarrow> 's \<Rightarrow> ((bool \<times> string) \<times> 's) access" where
  "getGetResponseBody srv target a p s =
     (let (r, target') = parse_query_param target in
      case getLisnMap srv target' of
        Some f \<Rightarrow> f a p r s
      | None \<Rightarrow> Val ((False, ''NOT FOUND''), s))"

definition getPostResponseBody ::
  "'s WeakHttpServerBase \<Rightarrow> string \<Rightarrow> string \<Rightarrow> 16 word \<Rightarrow> string \<Rightarrow> 's \<Rightarrow> ((bool \<times> string) \<times> 's) access" where
  "getPostResponseBody srv target a p body s =
     (case postLisnMap srv target of
        Some f \<Rightarrow> f a p body s
      | None \<Rightarrow> Val ((False, ''NOT FOUND''), s))"

datatype verb = VGet | VPost | VOther string

record http_request =
  req_method :: verb
  req_target :: string
  req_body :: string
  req_version :: nat
  req_keep_alive :: bool

record http_response =
  resp_status :: nat
  resp_body :: string
  resp_type :: string
  resp_version :: nat
  resp_keep_alive :: bool

definition bad_request :: "http_request \<Rightarrow> string \<Rightarrow> http_response" where
  "bad_request req why = \<lparr>resp_status = 400, resp_body = why, resp_type = ''text/html'',
     resp_version = req_version req, resp_keep_alive = req_keep_alive req\<rparr>"

definition server_error :: "http_request \<Rightarrow> string \<Rightarrow> nat \<Rightarrow> http_response" where
  "server_error req what status = \<lparr>resp_status = status, resp_body = ''An error occurred: '' @ [CHR 0x27] @ what @ [CHR 0x27], resp_type = ''text/html'',
     resp_version = req_version req, resp_keep_alive = req_keep_alive req\<rparr>"

definition finish_request :: "http_request \<Rightarrow> bool \<times> string \<Rightarrow> http_response" where
  "finish_request req r =
     (let (ok, body) = r in
      if \<not> ok then
        (if body = ''NOT FOUND'' then server_error req (''target >>'' @ req_target req @ ''<< is not found'') 404
         else server_error req body 500)
      else \<lparr>resp_status = 200, resp_body = body, resp_type = ''application/json'', resp_version = 11,
             resp_keep_alive = req_keep_alive req\<rparr>)"

definition handle_request ::
  "'s WeakHttpServerBase \<Rightarrow> http_request \<Rightarrow> string \<Rightarrow> 16 word \<Rightarrow> 's \<Rightarrow> (http_response \<times> 's) access" where
  "handle_request srv req a p s =
     (case req_method req of
        VGet \<Rightarrow> (case getGetResponseBody srv (req_target req) a p s of
                   UB \<Rightarrow> UB | Val (r, s') \<Rightarrow> Val (finish_request req r, s'))
      | VPost \<Rightarrow> (case getPostResponseBody srv (req_target req) a p (req_body req) s of
                    UB \<Rightarrow> UB | Val (r, s') \<Rightarrow> Val (finish_request req r, s'))
      | VOther m \<Rightarrow> Val (bad_request req ''Unknown method'', s))"

section \<open>Sessions\<close>

datatype http_read = Got http_request | End_of_stream | Read_error

text \<open>
  One round of the loop of \<open>WeakHttpServer::do_session\<close>: the flag \<open>closed\<close> before reading and after writing, what
  \<open>http::read\<close> gave, and whether the response could be written.
\<close>

record session_turn =
  closed_before :: bool
  turn_read :: http_read
  write_ok :: bool
  closed_after :: bool

text \<open>The responses that were sent.\<close>

fun do_session :: "'s WeakHttpServerBase \<Rightarrow> string \<Rightarrow> 16 word \<Rightarrow> session_turn list \<Rightarrow> 's \<Rightarrow> (http_response list \<times> 's) access" where
  "do_session srv a p [] s = Val ([], s)"
| "do_session srv a p (t # ts) s =
     (if closed_before t then Val ([], s)
      else (case turn_read t of
          End_of_stream \<Rightarrow> Val ([], s)
        | Read_error \<Rightarrow> Val ([], s)
        | Got req \<Rightarrow>
            (case handle_request srv req a p s of
               UB \<Rightarrow> UB
             | Val (res, s') \<Rightarrow>
                 if \<not> write_ok t then Val ([], s')
                 else if \<not> resp_keep_alive res \<or> closed_after t then Val ([res], s')
                 else (case do_session srv a p ts s' of UB \<Rightarrow> UB | Val (rs, s'') \<Rightarrow> Val (res # rs, s'')))))"

text \<open>
  The asynchronous session: what it waits for next. An error in \<open>on_read\<close> is thrown and caught there; \<open>on_write\<close>
  has no handler, and what it throws leaves \<open>ioc->run()\<close> and the thread.
\<close>

datatype session_phase = Await_read | Await_write http_response | Closed | Dropped

definition on_read :: "'s WeakHttpServerBase \<Rightarrow> http_read \<Rightarrow> 's \<Rightarrow> (session_phase \<times> 's) access" where
  "on_read srv r s =
     (case r of
        End_of_stream \<Rightarrow> Val (Closed, s)
      | Read_error \<Rightarrow> Val (Dropped, s)
      | Got req \<Rightarrow>
          (case handle_request srv req ''<mock-client>'' 1234 s of
             UB \<Rightarrow> UB | Val (res, s') \<Rightarrow> Val (Await_write res, s')))"

definition on_write :: "bool \<Rightarrow> bool \<Rightarrow> session_phase run" where
  "on_write keep_alive ok =
     (if \<not> ok then Terminated else if \<not> keep_alive then Done Closed else Done Await_read)"

section \<open>The HTTP client\<close>

record ('s, 'c) sockets =
  sk_connect :: "string \<Rightarrow> 16 word \<Rightarrow> 's \<Rightarrow> 'c option \<times> 's"
  sk_is_open :: "'c \<Rightarrow> 's \<Rightarrow> bool"
  sk_exchange :: "'c \<Rightarrow> http_request \<Rightarrow> 's \<Rightarrow> http_response option \<times> 's"  \<comment> \<open>\<open>None\<close>: an exception\<close>
  sk_shutdown :: "'c \<Rightarrow> 's \<Rightarrow> 's"

type_synonym 'c conns = "string \<rightharpoonup> 'c"

definition prepare_request :: "bool \<Rightarrow> string \<Rightarrow> string \<Rightarrow> http_request" where
  "prepare_request is_post target body =
     \<lparr>req_method = (if is_post then VPost else VGet), req_target = target,
      req_body = (if is_post then body else []), req_version = 11, req_keep_alive = True\<rparr>"

text \<open>An open connection is reused, otherwise one is made and remembered.\<close>

definition find_conn :: "('s, 'c) sockets \<Rightarrow> string \<Rightarrow> 16 word \<Rightarrow> 'c conns \<Rightarrow> 's \<Rightarrow> 'c option \<times> 'c conns \<times> 's" where
  "find_conn net host port conns s =
     (let k = combine_addr_port host port in
      case (case conns k of Some c \<Rightarrow> if sk_is_open net c s then Some c else None | None \<Rightarrow> None) of
        Some c \<Rightarrow> (Some c, conns, s)
      | None \<Rightarrow>
          (case sk_connect net host port s of
             (None, s') \<Rightarrow> (None, conns, s')
           | (Some c, s') \<Rightarrow> (Some c, conns(k \<mapsto> c), s')))"

function client_request :: "('s, 'c) sockets \<Rightarrow> bool \<Rightarrow> string \<Rightarrow> string \<Rightarrow> 16 word \<Rightarrow> string \<Rightarrow> bool \<Rightarrow> 'c conns \<Rightarrow> 's
    \<Rightarrow> http_response option \<times> 'c conns \<times> 's" where
  "client_request net is_post host target port body retry conns s =
     (case find_conn net host port conns s of
        (None, conns1, s1) \<Rightarrow> (None, conns1, s1)
      | (Some c, conns1, s1) \<Rightarrow>
          (case sk_exchange net c (prepare_request is_post target body) s1 of
             (Some r, s2) \<Rightarrow> (Some r, conns1, s2)
           | (None, s2) \<Rightarrow>
               if \<not> retry then
                 client_request net is_post host target port body True
                   (conns1(combine_addr_port host port := None)) (sk_shutdown net c s2)
               else (None, conns1, s2)))"
  by pat_completeness auto
termination
  by (relation "measure (\<lambda>(net, is_post, host, target, port, body, retry, conns, s). if retry then 0 else 1)") auto

declare client_request.simps [simp del]

text \<open>\<open>result_int() > 400\<close> counts as an error.\<close>

definition get_post_impl :: "('s, 'c) sockets \<Rightarrow> bool \<Rightarrow> string \<Rightarrow> string \<Rightarrow> 16 word \<Rightarrow> string \<Rightarrow> 'c conns \<Rightarrow> 's
    \<Rightarrow> string option \<times> 'c conns \<times> 's" where
  "get_post_impl net is_post host target port body conns s =
     (case client_request net is_post host target port body False conns s of
        (None, conns', s') \<Rightarrow> (None, conns', s')
      | (Some r, conns', s') \<Rightarrow> (if resp_status r > 400 then None else Some (resp_body r), conns', s'))"

definition client_get :: "('s, 'c) sockets \<Rightarrow> string \<Rightarrow> string \<Rightarrow> 16 word \<Rightarrow> 'c conns \<Rightarrow> 's \<Rightarrow> string option \<times> 'c conns \<times> 's" where
  "client_get net h t p = get_post_impl net False h t p []"

definition client_post :: "('s, 'c) sockets \<Rightarrow> string \<Rightarrow> string \<Rightarrow> 16 word \<Rightarrow> string \<Rightarrow> 'c conns \<Rightarrow> 's \<Rightarrow> string option \<times> 'c conns \<times> 's" where
  "client_post net h t p b = get_post_impl net True h t p b"

section \<open>The network assistant over HTTP\<close>

type_synonym 's cnsss_handler = "string \<Rightarrow> string \<Rightarrow> 's \<Rightarrow> string option \<times> 's"

definition unpack_error :: string where
  "unpack_error = map char_of [226, 157, 140, 239, 184, 143 :: nat] @
     '' Error unpacking msg. Maybe the msg is ill-formed oror the signature verification is failed.''"

definition make_post_handler :: "(string \<Rightarrow> (string \<times> string) option access) \<Rightarrow> 's cnsss_handler \<Rightarrow> 's post_handler" where
  "make_post_handler tear h = (\<lambda>addr port msg s.
     case tear msg of
       UB \<Rightarrow> UB
     | Val None \<Rightarrow> Val ((False, unpack_error), s)
     | Val (Some (from, d)) \<Rightarrow>
         (case h from d s of
            (Some r, s') \<Rightarrow> Val ((True, r), s')
          | (None, s') \<Rightarrow> Val ((False, ''Error executing handler.''), s')))"

text \<open>The targets listened to are kept in a ring buffer of 32 entries; \<open>listen\<close> is \<open>noexcept\<close>.\<close>

definition http_listen :: "(string \<Rightarrow> (string \<times> string) option access) \<Rightarrow> string \<Rightarrow> 's cnsss_handler
    \<Rightarrow> string list \<times> 's WeakHttpServerBase list \<Rightarrow> (string list \<times> 's WeakHttpServerBase list) run" where
  "http_listen tear target h a =
     (let (q, srvs) = a in
      if 32 \<le> length q then Terminated
      else Done (q @ [target], multi_listenToPost (''/p2p'' @ target) (make_post_handler tear h) srvs))"

fun http_clear :: "string list \<times> 's WeakHttpServerBase list \<Rightarrow> string list \<times> 's WeakHttpServerBase list" where
  "http_clear ([], srvs) = ([], srvs)"
| "http_clear (t # q, srvs) = http_clear (q, snd (multi_removeFromPost (''/p2p'' @ t) srvs))"

text \<open>\<open>send\<close> is \<open>noexcept\<close> and catches \<open>std::runtime_error\<close> only.\<close>

definition http_send :: "('s, 'c) sockets \<Rightarrow> (string \<Rightarrow> string result) \<Rightarrow> string \<Rightarrow> string \<Rightarrow> string \<Rightarrow> 'c conns \<Rightarrow> 's
    \<Rightarrow> (string option \<times> 'c conns \<times> 's) run access" where
  "http_send net prepare endpoint target d conns s =
     (case extract_addr_and_port_from_endpoint endpoint of
        UB \<Rightarrow> UB
      | Val None \<Rightarrow> Val (Done (None, conns, s))
      | Val (Some addr_and_port) \<Rightarrow>
          Val (case bind_result (split_addr_port addr_and_port) (\<lambda>(addr, port).
                      bind_result (prepare d) (\<lambda>msg.
                      Inr (client_post net addr (''/p2p'' @ target) port msg conns s))) of
                 Inr r \<Rightarrow> Done r
               | Inl e \<Rightarrow> if e = Runtime_error then Done (None, conns, s) else Terminated))"

section \<open>UDP\<close>

type_synonym 's udp_handler = "string \<Rightarrow> 's \<Rightarrow> 's access"
type_synonym 's WeakUdpServer = "string \<rightharpoonup> 's udp_handler"  \<comment> \<open>the field \<open>lisn_map\<close>\<close>

definition udp_listen :: "string \<Rightarrow> 's udp_handler \<Rightarrow> 's WeakUdpServer \<Rightarrow> 's WeakUdpServer" where
  "udp_listen k f srv = srv(k \<mapsto> f)"

definition udp_remove :: "string \<Rightarrow> 's WeakUdpServer \<Rightarrow> nat \<times> 's WeakUdpServer" where
  "udp_remove k srv = (if srv k = None then 0 else 1, srv(k := None))"

definition udp_clear :: "'s WeakUdpServer \<Rightarrow> 's WeakUdpServer" where
  "udp_clear srv = (\<lambda>_. None)"

definition split_first :: "string \<Rightarrow> char \<Rightarrow> (string \<times> string) option" where
  "split_first s c =
     (if c \<in> set s then Some (takeWhile (\<lambda>x. x \<noteq> c) s, tl (dropWhile (\<lambda>x. x \<noteq> c) s)) else None)"

definition handle_req :: "'s WeakUdpServer \<Rightarrow> string \<Rightarrow> 's \<Rightarrow> 's access" where
  "handle_req srv datagram s =
     (case split_first datagram CHR '':'' of
        None \<Rightarrow> Val s
      | Some (t, d) \<Rightarrow> (case srv t of None \<Rightarrow> Val s | Some f \<Rightarrow> f d s))"

definition make_handler :: "(string \<Rightarrow> (string \<times> string) option access) \<Rightarrow> (string \<Rightarrow> string \<Rightarrow> 's \<Rightarrow> 's) \<Rightarrow> 's udp_handler" where
  "make_handler tear f = (\<lambda>msg s.
     case tear msg of UB \<Rightarrow> UB | Val None \<Rightarrow> Val s | Val (Some (from, d)) \<Rightarrow> Val (f from d s))"

definition udp_asstn_listen ::
  "(string \<Rightarrow> (string \<times> string) option access) \<Rightarrow> string \<Rightarrow> (string \<Rightarrow> string \<Rightarrow> 's \<Rightarrow> 's) \<Rightarrow> 's WeakUdpServer \<Rightarrow> 's WeakUdpServer" where
  "udp_asstn_listen tear target f srv = udp_listen target (make_handler tear f) srv"

text \<open>\<open>send\<close> catches every \<open>std::exception\<close>; \<open>transmit\<close> is \<open>WeakUdpClient::send\<close> to host and port.\<close>

definition udp_send :: "(string \<Rightarrow> string \<Rightarrow> string \<Rightarrow> 'n \<Rightarrow> 'n) \<Rightarrow> (string \<Rightarrow> string result) \<Rightarrow> string \<Rightarrow> string \<Rightarrow> string \<Rightarrow> 'n
    \<Rightarrow> 'n access" where
  "udp_send transmit prepare endpoint target d net =
     (case extract_addr_and_port_from_endpoint endpoint of
        UB \<Rightarrow> UB
      | Val None \<Rightarrow> Val net
      | Val (Some addr_and_port) \<Rightarrow>
          Val (case bind_result (split_addr_port addr_and_port) (\<lambda>(addr, port).
                      bind_result (prepare d) (\<lambda>msg. Inr (transmit addr (decimal (unat port)) (target @ '':'' @ msg) net))) of
                 Inr net' \<Rightarrow> net'
               | Inl e \<Rightarrow> net))"

section \<open>Numbers and addresses as text\<close>

lemma digit_of_decimal: "n < 10 \<Longrightarrow> digit_of (char_of (n + 48)) = Some n"
  by (simp add: digit_of_def)

lemma parse_digits_append: "parse_digits a (s @ t) = (case parse_digits a s of None \<Rightarrow> None | Some n \<Rightarrow> parse_digits n t)"
  by (induction s arbitrary: a) (auto split: option.splits)

lemma parse_digits_decimal: "parse_digits 0 (decimal n) = Some n"
proof (induction n rule: decimal.induct)
  case (1 n)
  then show ?case
    by (subst decimal.simps) (simp add: digit_of_decimal parse_digits_append)
qed

lemma unsigned_text_decimal [simp]: "unsigned_text (decimal n) = Some n"
  by (simp add: unsigned_text_def decimal_nonempty parse_digits_decimal)

lemma decimal_Cons: "\<exists>c cs. decimal n = c # cs \<and> is_digit c"
  using decimal_nonempty [of n] decimal_digits [of "hd (decimal n)" n] by (cases "decimal n") auto

lemma digit_no_sign: "is_digit c \<Longrightarrow> c \<noteq> CHR ''-'' \<and> c \<noteq> CHR ''+'' \<and> c \<noteq> CHR '':''"
proof -
  assume "is_digit c"
  then have "48 \<le> (of_char c :: nat) \<and> (of_char c :: nat) \<le> 57" by (auto simp: is_digit_def)
  then show ?thesis by (auto simp: of_char_def)
qed

lemma lexical_cast_int_decimal: "lexical_cast_int (decimal n) = (if n < 2 ^ 31 then Some (int n) else None)"
proof -
  obtain c cs where c: "decimal n = c # cs" "is_digit c" using decimal_Cons by blast
  then show ?thesis using digit_no_sign [OF c(2)] unsigned_text_decimal [of n] by (simp add: lexical_cast_int_def)
qed

lemma lexical_cast_uint16_decimal [simp]: "lexical_cast_uint16 (decimal (unat p)) = Some p"
proof -
  obtain c cs where c: "decimal (unat p) = c # cs" "is_digit c" using decimal_Cons by blast
  then show ?thesis using digit_no_sign [OF c(2)] unsigned_text_decimal [of "unat p"] unsigned_less [of p, where ?'a = nat]
    by (simp add: lexical_cast_uint16_def)
qed

lemma split_any_no_sep: "set s \<inter> set seps = {} \<Longrightarrow> split_any seps s = [s]"
  by (induction s) auto

lemma split_any_sep: "set s \<inter> set seps = {} \<Longrightarrow> c \<in> set seps \<Longrightarrow> split_any seps (s @ c # r) = s # split_any seps r"
  by (induction s) auto

lemma decimal_no_colon: "set (decimal n) \<inter> set '':'' = {}"
  using decimal_digits [of "CHR '':''" n] digit_no_sign [of "CHR '':''"] by auto

lemma split_combine_addr_port: "CHR '':'' \<notin> set addr \<Longrightarrow> split_addr_port (combine_addr_port addr port) = Inr (addr, port)"
  using split_any_sep [of addr "'':''" "CHR '':''" "decimal (unat port)"] split_any_no_sep [OF decimal_no_colon, of "unat port"]
  by (simp add: split_addr_port_def combine_addr_port_def)

section \<open>Query parameters\<close>

definition query_text :: "query \<Rightarrow> string" where
  "query_text q = concat (map (\<lambda>(k, v). k @ ''='' @ v @ ''&'') (butlast q)) @ (let (k, v) = last q in k @ ''='' @ v)"

definition plain_text :: "string \<Rightarrow> bool" where
  "plain_text s \<longleftrightarrow> set s \<inter> {CHR ''?'', CHR ''='', CHR ''&''} = {}"

lemma split_query:
  assumes "\<forall>(k, v) \<in> set q. plain_text k \<and> plain_text v" "q \<noteq> []"
  shows "split_any ''=&'' (query_text q) = concat (map (\<lambda>(k, v). [k, v]) q)"
  using assms
proof (induction q rule: induct_list012)
  case (2 p)
  then show ?case
    using split_any_sep [of "fst p" "''=&''" "CHR ''=''" "snd p"] split_any_no_sep [of "snd p" "''=&''"]
    by (auto simp: query_text_def plain_text_def split_beta)
next
  case (3 p p' q)
  have "query_text (p # p' # q) = fst p @ CHR ''='' # snd p @ CHR ''&'' # query_text (p' # q)"
    by (simp add: query_text_def split_beta)
  with 3 show ?case
    using split_any_sep [of "fst p" "''=&''" "CHR ''=''"] split_any_sep [of "snd p" "''=&''" "CHR ''&''"]
    by (auto simp: plain_text_def split_beta)
qed simp

lemma insert_params_query:
  "distinct (map fst (m @ q)) \<Longrightarrow> insert_params m (concat (map (\<lambda>(k, v). [k, v]) q)) = Some (m @ q)"
  by (induction q arbitrary: m) (force simp: map_of_eq_None_iff)+

text \<open>
  The query of a target comes back as the client wrote it, and the target is cut before the question mark.
\<close>

lemma parse_query_text:
  assumes "q \<noteq> []" "distinct (map fst q)" "\<forall>(k, v) \<in> set q. plain_text k \<and> plain_text v" "CHR ''?'' \<notin> set t"
  shows "parse_query_param (t @ ''?'' @ query_text q) = (Some q, t)"
proof -
  have t: "takeWhile (\<lambda>c. c \<noteq> CHR ''?'') (t @ CHR ''?'' # r) = t" "dropWhile (\<lambda>c. c \<noteq> CHR ''?'') (t @ CHR ''?'' # r) = CHR ''?'' # r" for r
    using assms(4) by (auto simp: takeWhile_append dropWhile_append)
  have "query_text q \<noteq> []" using assms(1) by (cases q rule: rev_cases) (auto simp: query_text_def split_beta)
  moreover have "length (concat (map (\<lambda>(k, v). [k, v]) q)) mod 2 = 0" by (induction q) auto
  ultimately show ?thesis
    using split_query [OF assms(3,1)] insert_params_query [of "[]" q] assms(2) by (simp add: parse_query_param_def t Let_def)
qed

section \<open>From the sender to the handler\<close>

text \<open>
  What the sockets have to do for a message to arrive: connections to the address can be made, and what is
  written to one is answered by \<open>handle_request\<close> of the server behind it.
\<close>

definition conveys :: "('s, 'c) sockets \<Rightarrow> string \<Rightarrow> 16 word \<Rightarrow> 's WeakHttpServerBase \<Rightarrow> string \<Rightarrow> 16 word \<Rightarrow> bool" where
  "conveys net host port srv a p \<longleftrightarrow>
     (\<forall>s. \<exists>c. sk_connect net host port s = (Some c, s)) \<and>
     (\<forall>c req s r s'. handle_request srv req a p s = Val (r, s') \<longrightarrow> sk_exchange net c req s = (Some r, s'))"

lemma client_post_conveyed:
  assumes "conveys net host port srv a p" "handle_request srv (prepare_request True target body) a p s = Val (r, s')"
  shows "\<exists>conns'. client_post net host target port body conns s =
    (if resp_status r > 400 then None else Some (resp_body r), conns', s')"
proof -
  obtain c0 where "sk_connect net host port s = (Some c0, s)" using assms(1) unfolding conveys_def by blast
  then have "\<exists>c conns'. find_conn net host port conns s = (Some c, conns', s)"
    by (simp add: find_conn_def Let_def split: option.split)
  then obtain c conns' where "find_conn net host port conns s = (Some c, conns', s)" by blast
  moreover have "sk_exchange net c (prepare_request True target body) s = (Some r, s')"
    using assms by (auto simp: conveys_def)
  ultimately show ?thesis by (simp add: client_post_def get_post_impl_def client_request.simps)
qed

lemma listened_post:
  assumes "http_listen tear target h (q, srvs) = Done (q', srvs')" "srv \<in> set srvs'"
  shows "postLisnMap srv (''/p2p'' @ target) = Some (make_post_handler tear h)"
  using assms by (auto simp: http_listen_def multi_listenToPost_def listenToPost_def split: if_splits)

context msg_manager
begin

lemma http_reaches_handler:
  assumes "valid m" "extract_addr_and_port_from_endpoint to = Val (Some (combine_addr_port host port))" "CHR '':'' \<notin> set host"
    and "http_listen (tear m') target h (q, srvs) = Done (q', srvs')" "srv \<in> set srvs'" "conveys net host port srv a p"
  shows "\<exists>conns'. http_send net (prepare m) to target d conns s =
    Val (Done (fst (h (endpoint m) d s), conns', snd (h (endpoint m) d s)))"
proof -
  obtain w where w: "prepare m d = Inr w" "tear m' w = Val (Some (endpoint m, d))"
    using prepare_total [OF assms(1)] tear_prepared [OF assms(1)] by blast
  obtain r s' where h: "h (endpoint m) d s = (r, s')" by fastforce
  let ?req = "prepare_request True (''/p2p'' @ target) w"
  have "handle_request srv ?req a p s = Val (finish_request ?req (case r of Some x \<Rightarrow> (True, x) | None \<Rightarrow> (False, ''Error executing handler.'')), s')"
    using w(2) h listened_post [OF assms(4,5)]
    by (simp add: handle_request_def prepare_request_def getPostResponseBody_def make_post_handler_def split: option.splits)
  from client_post_conveyed [OF assms(6) this, of conns] obtain conns' where
    "client_post net host (''/p2p'' @ target) port w conns s = (r, conns', s')"
    by (cases r) (auto simp: finish_request_def server_error_def)
  then show ?thesis
    using assms(2,3) w(1) h by (simp add: http_send_def split_combine_addr_port)
qed

lemma udp_reaches_handler:
  assumes "valid m" "extract_addr_and_port_from_endpoint to = Val (Some (combine_addr_port host port))" "CHR '':'' \<notin> set host"
    and "CHR '':'' \<notin> set target"
  shows "\<exists>w. udp_send transmit (prepare m) to target d net = Val (transmit host (decimal (unat port)) w net) \<and>
    handle_req (udp_asstn_listen (tear m') target f srv) w s = Val (f (endpoint m) d s)"
proof -
  obtain w where w: "prepare m d = Inr w" "tear m' w = Val (Some (endpoint m, d))"
    using prepare_total [OF assms(1)] tear_prepared [OF assms(1)] by blast
  have "udp_send transmit (prepare m) to target d net = Val (transmit host (decimal (unat port)) (target @ '':'' @ w) net)"
    using assms(2,3) w(1) by (simp add: udp_send_def split_combine_addr_port)
  moreover have "split_first (target @ '':'' @ w) CHR '':'' = Some (target, w)"
    using assms(4) by (auto simp: split_first_def takeWhile_append dropWhile_append)
  then have "handle_req (udp_asstn_listen (tear m') target f srv) (target @ '':'' @ w) s = Val (f (endpoint m) d s)"
    using w(2) by (simp add: handle_req_def udp_asstn_listen_def udp_listen_def make_handler_def)
  ultimately show ?thesis by blast
qed

end

text \<open>
  C23. A consensus message arrives as it was sent. A node that sends data to a target of another node's endpoint
  gets back, over HTTP, exactly what the handler listening there returns for the sender's endpoint and the data, and
  the state the handler leaves; over UDP, the datagram it transmits makes that handler run on
  the sender's endpoint and the data. The wire formats, the prefix of the targets and the status codes in between cancel out.
\<close>

theorem p2p_message_reaches_handler:
  assumes "naive_valid m" "extract_addr_and_port_from_endpoint to = Val (Some (combine_addr_port host port))"
    and "CHR '':'' \<notin> set host" "CHR '':'' \<notin> set target"
    and "http_listen (naive_tear_msg_open m') target h (q, srvs) = Done (q', srvs')" "srv \<in> set srvs'" "conveys net host port srv a p"
  shows "(\<exists>conns'. http_send net (naive_prepare_msg m) to target d conns s =
      Val (Done (fst (h (naive_my_endpoint m) d s), conns', snd (h (naive_my_endpoint m) d s)))) \<and>
    (\<exists>w. udp_send transmit (naive_prepare_msg m) to target d n = Val (transmit host (decimal (unat port)) w n) \<and>
      handle_req (udp_asstn_listen (naive_tear_msg_open m') target f usrv) w s = Val (f (naive_my_endpoint m) d s))"
  by (intro conjI naive.http_reaches_handler [OF assms(1-3,5-7)] naive.udp_reaches_handler [OF assms(1-4)])

text \<open>A server behind every address, and a log of calls as the state.\<close>

definition log_handler :: "(string \<times> string) list cnsss_handler" where
  "log_handler from d s = (Some (''ok'' @ d), s @ [(from, d)])"

definition demo_server :: "(string \<times> string) list WeakHttpServerBase" where
  "demo_server = listenToPost ''/p2p/cmd'' (make_post_handler (naive_tear_msg_open \<lparr>ep = ''b''\<rparr>) log_handler) WeakHttpServerBase_empty"

definition loopback :: "((string \<times> string) list, unit) sockets" where
  "loopback = \<lparr>sk_connect = (\<lambda>h p s. (Some (), s)), sk_is_open = (\<lambda>c s. True),
     sk_exchange = (\<lambda>c req s. case handle_request demo_server req ''a'' 1 s of UB \<Rightarrow> (None, s) | Val (r, s') \<Rightarrow> (Some r, s')),
     sk_shutdown = (\<lambda>c s. s)\<rparr>"

lemma conveys_loopback: "conveys loopback host port demo_server ''a'' 1"
  by (simp add: conveys_def loopback_def)

theorem p2p_message_reaches_handler_witness:
  "\<exists>conns'. http_send loopback (naive_prepare_msg \<lparr>ep = ''a''\<rparr>) (serialize_3_strs ''k'' ''h:80'' []) ''/cmd'' ''x'' (\<lambda>_. None) [] =
     Val (Done (Some ''okx'', conns', [(''a'', ''x'')]))"
proof -
  have "combine_addr_port ''h'' 80 = ''h:80''"
    by code_simp
  then have "extract_addr_and_port_from_endpoint (serialize_3_strs ''k'' ''h:80'' []) = Val (Some (combine_addr_port ''h'' 80))"
    by (simp add: extract_addr_and_port_from_endpoint_def parse_serialize_3_strs fits_def)
  note to = this
  have "http_listen (naive_tear_msg_open \<lparr>ep = ''b''\<rparr>) ''/cmd'' log_handler ([], [WeakHttpServerBase_empty]) = Done ([''/cmd''], [demo_server])"
    by (simp add: http_listen_def multi_listenToPost_def demo_server_def)
  from p2p_message_reaches_handler [OF _ to _ _ this _ conveys_loopback, THEN conjunct1, of "\<lparr>ep = ''a''\<rparr>" "''x''" "\<lambda>_. None" "[]"]
  have "naive_valid \<lparr>ep = ''a''\<rparr> \<Longrightarrow> CHR '':'' \<notin> set ''h'' \<Longrightarrow> CHR '':'' \<notin> set ''/cmd'' \<Longrightarrow> ?thesis"
    by (simp add: log_handler_def naive_my_endpoint_def)
  moreover have "naive_valid \<lparr>ep = ''a''\<rparr>" by (simp add: naive_valid_def fits_def)
  moreover have "CHR '':'' \<notin> set ''h'' \<and> CHR '':'' \<notin> set ''/cmd''" by code_simp
  ultimately show ?thesis by blast
qed

text \<open>
  A port that is not a number ends the process. When the address in a peer's endpoint is \<open>host:port\<close> with a text
  after the colon that no \<open>uint16_t\<close> can be read from, sending to it over HTTP throws \<open>bad_lexical_cast\<close> out of a
  \<open>noexcept\<close> function, which catches only \<open>runtime_error\<close>; over UDP the message is dropped and the node goes on.
\<close>

theorem bad_port_terminates_http:
  assumes "extract_addr_and_port_from_endpoint to = Val (Some (host @ '':'' @ p))" "CHR '':'' \<notin> set host" "CHR '':'' \<notin> set p"
    and "lexical_cast_uint16 p = None"
  shows "http_send net prepare to target d conns s = Val Terminated \<and> udp_send transmit prepare to target d n = Val n"
proof -
  have "split_any '':'' (host @ '':'' @ p) = [host, p]"
    using split_any_sep [of host "'':''" "CHR '':''" p] split_any_no_sep [of p "'':''"] assms(2,3) by simp
  then have "split_addr_port (host @ '':'' @ p) = Inl Bad_cast" using assms(4) by (simp add: split_addr_port_def)
  then show ?thesis using assms(1) by (simp add: http_send_def udp_send_def)
qed

theorem bad_port_terminates_http_witness:
  "http_send loopback (naive_prepare_msg \<lparr>ep = ''a''\<rparr>) (serialize_3_strs ''k'' ''h:x'' []) ''/cmd'' ''d'' (\<lambda>_. None) [] = Val Terminated"
proof -
  have "extract_addr_and_port_from_endpoint (serialize_3_strs ''k'' ''h:x'' []) = Val (Some (''h'' @ '':'' @ ''x''))"
    by (simp add: extract_addr_and_port_from_endpoint_def parse_serialize_3_strs fits_def)
  note to = this
  have "lexical_cast_uint16 ''x'' = None" "CHR '':'' \<notin> set ''h''" "CHR '':'' \<notin> set ''x''" by code_simp+
  then show ?thesis by (intro bad_port_terminates_http [OF to, THEN conjunct1])
qed

end
