(* ===== verification/Keccak.thy ===== *)
theory Keccak
  imports ChainCore
begin

text \<open>
  The hash function of the chain (\<^verbatim>\<open>pkgs/ethash-1.0.1/lib/keccak/keccak.c\<close>), which the other theories take as
  the parameter \<open>keccak\<close>: the unrolled permutation on 25 words, the sponge around it, and the entry points for
  digests of 256 and 512 bits. It is compared with the definition of the standard: the five step mappings
  of a round, round constants from the feedback register, rotations from the walk over the
  lanes, and multi-rate padding with the domain byte \<open>01\<close> of Keccak. The machine is little-endian, so
  \<open>to_le64\<close> is the identity.
\<close>

section \<open>The permutation\<close>

text \<open>\<open>memcpy\<close> of eight bytes into a word of a little-endian machine, and back.\<close>

definition load_le :: "bytes \<Rightarrow> u64" where
  "load_le bs = foldr (\<lambda>b w. push_bit 8 w OR ucast b) (take 8 bs) 0"

definition store_le :: "u64 \<Rightarrow> bytes" where
  "store_le w = map (\<lambda>i. ucast (drop_bit (8 * i) w)) [0..<8]"

definition rol :: "u64 \<Rightarrow> nat \<Rightarrow> u64" where
  "rol x s = push_bit s x OR drop_bit (64 - s) x"

definition round_constants :: "u64 list" where
  "round_constants =
    [0x0000000000000001, 0x0000000000008082, 0x800000000000808a, 0x8000000080008000,
     0x000000000000808b, 0x0000000080000001, 0x8000000080008081, 0x8000000000008009,
     0x000000000000008a, 0x0000000000000088, 0x0000000080008009, 0x000000008000000a,
     0x000000008000808b, 0x800000000000008b, 0x8000000000008089, 0x8000000000008003,
     0x8000000000008002, 0x8000000000000080, 0x000000000000800a, 0x800000008000000a,
     0x8000000080008081, 0x8000000000008080, 0x0000000080000001, 0x8000000080008008]"

text \<open>
  The loop body holds two rounds, from the variables \<open>Axx\<close> to \<open>Exx\<close> and back; each is a function of the 25 lanes,
  which the locals are named after.
\<close>

definition round_AE :: "u64 \<Rightarrow> u64 list \<Rightarrow> u64 list" where
  "round_AE rc A =
     (let Aba = A ! 0; Abe = A ! 1; Abi = A ! 2; Abo = A ! 3; Abu = A ! 4;
          Aga = A ! 5; Age = A ! 6; Agi = A ! 7; Ago = A ! 8; Agu = A ! 9;
          Aka = A ! 10; Ake = A ! 11; Aki = A ! 12; Ako = A ! 13; Aku = A ! 14;
          Ama = A ! 15; Ame = A ! 16; Ami = A ! 17; Amo = A ! 18; Amu = A ! 19;
          Asa = A ! 20; Ase = A ! 21; Asi = A ! 22; Aso = A ! 23; Asu = A ! 24;
          Ba = Aba XOR Aga XOR Aka XOR Ama XOR Asa; Be = Abe XOR Age XOR Ake XOR Ame XOR Ase; Bi = Abi XOR Agi XOR Aki XOR Ami XOR Asi;
            Bo = Abo XOR Ago XOR Ako XOR Amo XOR Aso; Bu = Abu XOR Agu XOR Aku XOR Amu XOR Asu;
          Da = Bu XOR rol Be 1; De = Ba XOR rol Bi 1; Di = Be XOR rol Bo 1;
            Do = Bi XOR rol Bu 1; Du = Bo XOR rol Ba 1;
          Ba = Aba XOR Da; Be = rol (Age XOR De) 44; Bi = rol (Aki XOR Di) 43;
            Bo = rol (Amo XOR Do) 21; Bu = rol (Asu XOR Du) 14;
          Eba = Ba XOR (NOT Be AND Bi) XOR rc; Ebe = Be XOR (NOT Bi AND Bo); Ebi = Bi XOR (NOT Bo AND Bu);
            Ebo = Bo XOR (NOT Bu AND Ba); Ebu = Bu XOR (NOT Ba AND Be);
          Ba = rol (Abo XOR Do) 28; Be = rol (Agu XOR Du) 20; Bi = rol (Aka XOR Da) 3;
            Bo = rol (Ame XOR De) 45; Bu = rol (Asi XOR Di) 61;
          Ega = Ba XOR (NOT Be AND Bi); Ege = Be XOR (NOT Bi AND Bo); Egi = Bi XOR (NOT Bo AND Bu);
            Ego = Bo XOR (NOT Bu AND Ba); Egu = Bu XOR (NOT Ba AND Be);
          Ba = rol (Abe XOR De) 1; Be = rol (Agi XOR Di) 6; Bi = rol (Ako XOR Do) 25;
            Bo = rol (Amu XOR Du) 8; Bu = rol (Asa XOR Da) 18;
          Eka = Ba XOR (NOT Be AND Bi); Eke = Be XOR (NOT Bi AND Bo); Eki = Bi XOR (NOT Bo AND Bu);
            Eko = Bo XOR (NOT Bu AND Ba); Eku = Bu XOR (NOT Ba AND Be);
          Ba = rol (Abu XOR Du) 27; Be = rol (Aga XOR Da) 36; Bi = rol (Ake XOR De) 10;
            Bo = rol (Ami XOR Di) 15; Bu = rol (Aso XOR Do) 56;
          Ema = Ba XOR (NOT Be AND Bi); Eme = Be XOR (NOT Bi AND Bo); Emi = Bi XOR (NOT Bo AND Bu);
            Emo = Bo XOR (NOT Bu AND Ba); Emu = Bu XOR (NOT Ba AND Be);
          Ba = rol (Abi XOR Di) 62; Be = rol (Ago XOR Do) 55; Bi = rol (Aku XOR Du) 39;
            Bo = rol (Ama XOR Da) 41; Bu = rol (Ase XOR De) 2;
          Esa = Ba XOR (NOT Be AND Bi); Ese = Be XOR (NOT Bi AND Bo); Esi = Bi XOR (NOT Bo AND Bu);
            Eso = Bo XOR (NOT Bu AND Ba); Esu = Bu XOR (NOT Ba AND Be)
      in [Eba, Ebe, Ebi, Ebo, Ebu,
          Ega, Ege, Egi, Ego, Egu,
          Eka, Eke, Eki, Eko, Eku,
          Ema, Eme, Emi, Emo, Emu,
          Esa, Ese, Esi, Eso, Esu])"

definition round_EA :: "u64 \<Rightarrow> u64 list \<Rightarrow> u64 list" where
  "round_EA rc E =
     (let Eba = E ! 0; Ebe = E ! 1; Ebi = E ! 2; Ebo = E ! 3; Ebu = E ! 4;
          Ega = E ! 5; Ege = E ! 6; Egi = E ! 7; Ego = E ! 8; Egu = E ! 9;
          Eka = E ! 10; Eke = E ! 11; Eki = E ! 12; Eko = E ! 13; Eku = E ! 14;
          Ema = E ! 15; Eme = E ! 16; Emi = E ! 17; Emo = E ! 18; Emu = E ! 19;
          Esa = E ! 20; Ese = E ! 21; Esi = E ! 22; Eso = E ! 23; Esu = E ! 24;
          Ba = Eba XOR Ega XOR Eka XOR Ema XOR Esa; Be = Ebe XOR Ege XOR Eke XOR Eme XOR Ese; Bi = Ebi XOR Egi XOR Eki XOR Emi XOR Esi;
            Bo = Ebo XOR Ego XOR Eko XOR Emo XOR Eso; Bu = Ebu XOR Egu XOR Eku XOR Emu XOR Esu;
          Da = Bu XOR rol Be 1; De = Ba XOR rol Bi 1; Di = Be XOR rol Bo 1;
            Do = Bi XOR rol Bu 1; Du = Bo XOR rol Ba 1;
          Ba = Eba XOR Da; Be = rol (Ege XOR De) 44; Bi = rol (Eki XOR Di) 43;
            Bo = rol (Emo XOR Do) 21; Bu = rol (Esu XOR Du) 14;
          Aba = Ba XOR (NOT Be AND Bi) XOR rc; Abe = Be XOR (NOT Bi AND Bo); Abi = Bi XOR (NOT Bo AND Bu);
            Abo = Bo XOR (NOT Bu AND Ba); Abu = Bu XOR (NOT Ba AND Be);
          Ba = rol (Ebo XOR Do) 28; Be = rol (Egu XOR Du) 20; Bi = rol (Eka XOR Da) 3;
            Bo = rol (Eme XOR De) 45; Bu = rol (Esi XOR Di) 61;
          Aga = Ba XOR (NOT Be AND Bi); Age = Be XOR (NOT Bi AND Bo); Agi = Bi XOR (NOT Bo AND Bu);
            Ago = Bo XOR (NOT Bu AND Ba); Agu = Bu XOR (NOT Ba AND Be);
          Ba = rol (Ebe XOR De) 1; Be = rol (Egi XOR Di) 6; Bi = rol (Eko XOR Do) 25;
            Bo = rol (Emu XOR Du) 8; Bu = rol (Esa XOR Da) 18;
          Aka = Ba XOR (NOT Be AND Bi); Ake = Be XOR (NOT Bi AND Bo); Aki = Bi XOR (NOT Bo AND Bu);
            Ako = Bo XOR (NOT Bu AND Ba); Aku = Bu XOR (NOT Ba AND Be);
          Ba = rol (Ebu XOR Du) 27; Be = rol (Ega XOR Da) 36; Bi = rol (Eke XOR De) 10;
            Bo = rol (Emi XOR Di) 15; Bu = rol (Eso XOR Do) 56;
          Ama = Ba XOR (NOT Be AND Bi); Ame = Be XOR (NOT Bi AND Bo); Ami = Bi XOR (NOT Bo AND Bu);
            Amo = Bo XOR (NOT Bu AND Ba); Amu = Bu XOR (NOT Ba AND Be);
          Ba = rol (Ebi XOR Di) 62; Be = rol (Ego XOR Do) 55; Bi = rol (Eku XOR Du) 39;
            Bo = rol (Ema XOR Da) 41; Bu = rol (Ese XOR De) 2;
          Asa = Ba XOR (NOT Be AND Bi); Ase = Be XOR (NOT Bi AND Bo); Asi = Bi XOR (NOT Bo AND Bu);
            Aso = Bo XOR (NOT Bu AND Ba); Asu = Bu XOR (NOT Ba AND Be)
      in [Aba, Abe, Abi, Abo, Abu,
          Aga, Age, Agi, Ago, Agu,
          Aka, Ake, Aki, Ako, Aku,
          Ama, Ame, Ami, Amo, Amu,
          Asa, Ase, Asi, Aso, Asu])"

text \<open>\<open>for (n = 0; n < 24; n += 2)\<close>.\<close>

definition keccakf1600_implementation :: "u64 list \<Rightarrow> u64 list" where
  "keccakf1600_implementation state =
     fold (\<lambda>n A. round_EA (round_constants ! (n + 1)) (round_AE (round_constants ! n) A))
       (filter even [0..<24]) (map (\<lambda>i. state ! i) [0..<25])"

section \<open>The sponge\<close>

definition absorb_words :: "nat \<Rightarrow> bytes \<Rightarrow> u64 list \<Rightarrow> u64 list" where
  "absorb_words block_size data state =
     fold (\<lambda>i st. st[i := st ! i XOR load_le (drop (8 * i) data)]) [0..<block_size div 8] state"

fun keccak_blocks :: "nat \<Rightarrow> bytes \<Rightarrow> u64 list \<Rightarrow> bytes \<times> u64 list" where
  "keccak_blocks block_size data state =
     (if 0 < block_size \<and> block_size \<le> length data then
        keccak_blocks block_size (drop block_size data) (keccakf1600_implementation (absorb_words block_size data state))
      else (data, state))"

declare keccak_blocks.simps [simp del]

text \<open>The words of the last block: \<open>state_iter\<close> is the index \<open>i\<close>.\<close>

fun keccak_rest :: "nat \<Rightarrow> bytes \<Rightarrow> u64 list \<Rightarrow> nat \<times> bytes \<times> u64 list" where
  "keccak_rest i data state =
     (if 8 \<le> length data then keccak_rest (Suc i) (drop 8 data) (state[i := state ! i XOR load_le data])
      else (i, data, state))"

declare keccak_rest.simps [simp del]

text \<open>The remaining bytes, at most seven, then \<open>0x01\<close>, in the bytes of a zero word.\<close>

definition last_word :: "bytes \<Rightarrow> u64" where
  "last_word data = load_le (data @ [1] @ replicate (7 - length data) 0)"

definition keccak_c :: "nat \<Rightarrow> bytes \<Rightarrow> u64 list" where
  "keccak_c bits data =
     (let hash_size = bits div 8;
          block_size = (1600 - bits * 2) div 8;
          (data1, st1) = keccak_blocks block_size data (replicate 25 0);
          (i, data2, st2) = keccak_rest 0 data1 st1;
          st3 = st2[i := st2 ! i XOR last_word data2];
          j = block_size div 8 - 1;
          st4 = st3[j := st3 ! j XOR 0x8000000000000000];
          st5 = keccakf1600_implementation st4
      in map (\<lambda>i. st5 ! i) [0..<hash_size div 8])"

text \<open>The words of the result are read as the bytes of the union \<open>ethash_hash256\<close>.\<close>

definition ethash_keccak256 :: "bytes \<Rightarrow> hash256" where
  "ethash_keccak256 data = concat (map store_le (keccak_c 256 data))"

definition ethash_keccak256_32 :: "bytes \<Rightarrow> hash256" where
  "ethash_keccak256_32 data = concat (map store_le (keccak_c 256 (take 32 data)))"

definition ethash_keccak512 :: "bytes \<Rightarrow> bytes" where
  "ethash_keccak512 data = concat (map store_le (keccak_c 512 data))"

definition ethash_keccak512_64 :: "bytes \<Rightarrow> bytes" where
  "ethash_keccak512_64 data = concat (map store_le (keccak_c 512 (take 64 data)))"

section \<open>The standard\<close>

text \<open>A state is a function of the coordinates \<open>x\<close>, \<open>y\<close> below five; in memory lane \<open>(x, y)\<close> is word \<open>x + 5 * y\<close>.\<close>

type_synonym lanes = "nat \<Rightarrow> nat \<Rightarrow> u64"

definition lanes_of :: "u64 list \<Rightarrow> lanes" where
  "lanes_of s = (\<lambda>x y. s ! (x + 5 * y))"

definition words_of :: "lanes \<Rightarrow> u64 list" where
  "words_of A = map (\<lambda>i. A (i mod 5) (i div 5)) [0..<25]"

definition theta :: "lanes \<Rightarrow> lanes" where
  "theta A =
     (let C = (\<lambda>x. A x 0 XOR A x 1 XOR A x 2 XOR A x 3 XOR A x 4);
          D = (\<lambda>x. C ((x + 4) mod 5) XOR word_rotl 1 (C ((x + 1) mod 5)))
      in (\<lambda>x y. A x y XOR D x))"

primrec rho_walk :: "nat \<Rightarrow> nat \<times> nat" where
  "rho_walk 0 = (1, 0)"
| "rho_walk (Suc t) = (let (x, y) = rho_walk t in (y, (2 * x + 3 * y) mod 5))"

definition rho_offset :: "nat \<Rightarrow> nat \<Rightarrow> nat" where
  "rho_offset x y =
     (case find (\<lambda>t. rho_walk t = (x, y)) [0..<24] of
        None \<Rightarrow> 0 | Some t \<Rightarrow> (t + 1) * (t + 2) div 2 mod 64)"

definition rho :: "lanes \<Rightarrow> lanes" where
  "rho A = (\<lambda>x y. word_rotl (rho_offset x y) (A x y))"

definition pi_step :: "lanes \<Rightarrow> lanes" where
  "pi_step A = (\<lambda>x y. A ((x + 3 * y) mod 5) x)"

definition chi :: "lanes \<Rightarrow> lanes" where
  "chi A = (\<lambda>x y. A x y XOR (NOT (A ((x + 1) mod 5) y) AND A ((x + 2) mod 5) y))"

definition iota :: "u64 \<Rightarrow> lanes \<Rightarrow> lanes" where
  "iota RC A = (\<lambda>x y. if x = 0 \<and> y = 0 then A x y XOR RC else A x y)"

text \<open>The linear feedback shift register: eight bits, fed back at positions 0, 4, 5 and 6.\<close>

primrec rc_bits :: "nat \<Rightarrow> bool list \<Rightarrow> bool list" where
  "rc_bits 0 r = []"
| "rc_bits (Suc k) r =
     r ! 0 # rc_bits k (let b = r ! 7 in [b, r ! 0, r ! 1, r ! 2, r ! 3 \<noteq> b, r ! 4 \<noteq> b, r ! 5 \<noteq> b, r ! 6])"

definition round_constant :: "nat \<Rightarrow> u64" where
  "round_constant n =
     fold (\<lambda>j w. if rc_bits 168 [True, False, False, False, False, False, False, False] ! (j + 7 * n)
                  then set_bit (2 ^ j - 1) w else w) [0..<7] 0"

definition keccak_round :: "nat \<Rightarrow> lanes \<Rightarrow> lanes" where
  "keccak_round n A = iota (round_constant n) (chi (pi_step (rho (theta A))))"

definition keccak_f :: "u64 list \<Rightarrow> u64 list" where
  "keccak_f s = words_of (fold keccak_round [0..<24] (lanes_of s))"

definition pad_multirate :: "nat \<Rightarrow> bytes \<Rightarrow> bytes" where
  "pad_multirate r m =
     (let q = r - length m mod r
      in if q = 1 then m @ [0x81] else m @ [0x01] @ replicate (q - 2) 0 @ [0x80])"

definition block_words :: "bytes \<Rightarrow> u64 list" where
  "block_words b = map (\<lambda>i. load_le (drop (8 * i) (b @ replicate (200 - length b) 0))) [0..<25]"

fun sponge_absorb :: "nat \<Rightarrow> bytes \<Rightarrow> u64 list \<Rightarrow> u64 list" where
  "sponge_absorb r p s =
     (if 0 < r \<and> r \<le> length p then
        sponge_absorb r (drop r p) (keccak_f (map2 (XOR) s (block_words (take r p))))
      else s)"

declare sponge_absorb.simps [simp del]

definition keccak_standard :: "nat \<Rightarrow> bytes \<Rightarrow> bytes" where
  "keccak_standard bits m =
     (let r = (1600 - 2 * bits) div 8
      in take (bits div 8) (concat (map store_le (sponge_absorb r (pad_multirate r m) (replicate 25 0)))))"

section \<open>The rounds agree\<close>

lemma rol_rotl: "0 < s \<Longrightarrow> s < 64 \<Longrightarrow> rol x s = word_rotl s x"
proof (rule bit_word_eqI)
  fix n assume s: "0 < s" "s < 64" and n: "n < LENGTH(64)"
  have r: "bit (word_rotl s x) n = bit x ((n + (64 - s)) mod 64)"
    unfolding bit_word_rotl_iff using s n by simp
  have l: "bit (rol x s) n \<longleftrightarrow> s \<le> n \<and> bit x (n - s) \<or> bit x (n + (64 - s))"
    using n unfolding rol_def bit_or_iff bit_push_bit_iff bit_drop_bit_eq o_def by (auto simp: add.commute dest: bit_imp_le_length)
  show "bit (rol x s) n = bit (word_rotl s x) n"
  proof (cases "s \<le> n")
    case True
    then have "(n + (64 - s)) mod 64 = n - s" "64 \<le> n + (64 - s)" using s n by (auto simp: mod_if)
    then show ?thesis unfolding l r using True bit_imp_le_length [of x "n + (64 - s)"] by auto
  next
    case False
    then have "(n + (64 - s)) mod 64 = n + (64 - s)" using s n by simp
    then show ?thesis unfolding l r using False by simp
  qed
qed

lemma rho_offsets:
  "rho_offset 0 0 = 0" "rho_offset 1 0 = 1" "rho_offset 2 0 = 62" "rho_offset 3 0 = 28" "rho_offset 4 0 = 27"
  "rho_offset 0 1 = 36" "rho_offset 1 1 = 44" "rho_offset 2 1 = 6" "rho_offset 3 1 = 55" "rho_offset 4 1 = 20"
  "rho_offset 0 2 = 3" "rho_offset 1 2 = 10" "rho_offset 2 2 = 43" "rho_offset 3 2 = 25" "rho_offset 4 2 = 39"
  "rho_offset 0 3 = 41" "rho_offset 1 3 = 45" "rho_offset 2 3 = 15" "rho_offset 3 3 = 21" "rho_offset 4 3 = 8"
  "rho_offset 0 4 = 18" "rho_offset 1 4 = 2" "rho_offset 2 4 = 61" "rho_offset 3 4 = 56" "rho_offset 4 4 = 14"
  by code_simp+

lemma rc_bits_168:
  "rc_bits 168 [True, False, False, False, False, False, False, False] =
    [True, False, False, False, False, False, False, False, True, False, True, True, False, False,
     False, True, True, True, True, False, True, False, False, False, False, True, True, True,
     True, True, True, True, True, False, False, True, False, False, False, False, True, False,
     True, False, False, True, True, True, True, True, False, True, False, True, False, True,
     False, True, True, True, False, False, False, False, False, True, True, False, False, False,
     True, False, True, False, True, True, False, False, True, True, False, False, True, False,
     True, True, True, True, True, True, False, True, True, True, True, False, False, True,
     True, False, True, True, True, False, True, True, True, False, False, True, False, True,
     False, True, False, False, True, False, True, False, False, False, True, False, False, True,
     False, True, True, False, True, False, False, False, True, True, False, False, True, True,
     True, False, False, True, True, True, True, False, False, False, True, True, False, True,
     True, False, False, False, False, True, False, False, False, True, False, True, True, True]"
  by code_simp

lemma round_constants_standard: "map round_constant [0..<24] = round_constants"
  unfolding round_constant_def rc_bits_168 by code_simp

lemma round_constants_nth: "n < 24 \<Longrightarrow> round_constants ! n = round_constant n"
  by (simp flip: round_constants_standard)

lemma upt_25: "[0..<25] = [0, 1, 2, 3, 4, 5, 6, 7, 8, 9, 10, 11, 12, 13, 14, 15, 16, 17, 18, 19, 20, 21, 22, 23, 24 :: nat]"
  by (simp add: upt_rec)

lemma words_of_25:
  "words_of A = [A 0 0, A 1 0, A 2 0, A 3 0, A 4 0, A 0 1, A 1 1, A 2 1, A 3 1, A 4 1, A 0 2, A 1 2, A 2 2, A 3 2, A 4 2,
     A 0 3, A 1 3, A 2 3, A 3 3, A 4 3, A 0 4, A 1 4, A 2 4, A 3 4, A 4 4]"
  by (simp add: words_of_def upt_25)

lemma words_of_nth:
  "words_of A ! 0 = A 0 0" "words_of A ! 1 = A 1 0" "words_of A ! 2 = A 2 0" "words_of A ! 3 = A 3 0" "words_of A ! 4 = A 4 0"
  "words_of A ! 5 = A 0 1" "words_of A ! 6 = A 1 1" "words_of A ! 7 = A 2 1" "words_of A ! 8 = A 3 1" "words_of A ! 9 = A 4 1"
  "words_of A ! 10 = A 0 2" "words_of A ! 11 = A 1 2" "words_of A ! 12 = A 2 2" "words_of A ! 13 = A 3 2" "words_of A ! 14 = A 4 2"
  "words_of A ! 15 = A 0 3" "words_of A ! 16 = A 1 3" "words_of A ! 17 = A 2 3" "words_of A ! 18 = A 3 3" "words_of A ! 19 = A 4 3"
  "words_of A ! 20 = A 0 4" "words_of A ! 21 = A 1 4" "words_of A ! 22 = A 2 4" "words_of A ! 23 = A 3 4" "words_of A ! 24 = A 4 4"
  by (simp_all add: words_of_25)

definition theta_d :: "lanes \<Rightarrow> nat \<Rightarrow> u64" where
  "theta_d A x = (A ((x + 4) mod 5) 0 XOR A ((x + 4) mod 5) 1 XOR A ((x + 4) mod 5) 2 XOR A ((x + 4) mod 5) 3 XOR A ((x + 4) mod 5) 4) XOR
     word_rotl 1 (A ((x + 1) mod 5) 0 XOR A ((x + 1) mod 5) 1 XOR A ((x + 1) mod 5) 2 XOR A ((x + 1) mod 5) 3 XOR A ((x + 1) mod 5) 4)"

lemma theta_column: "theta A x y = A x y XOR theta_d A x"
  by (simp add: theta_def theta_d_def Let_def)

lemma theta_ds:
  "(A 4 0 XOR A 4 1 XOR A 4 2 XOR A 4 3 XOR A 4 4) XOR rol (A 1 0 XOR A 1 1 XOR A 1 2 XOR A 1 3 XOR A 1 4) 1 = theta_d A 0"
  "(A 0 0 XOR A 0 1 XOR A 0 2 XOR A 0 3 XOR A 0 4) XOR rol (A 2 0 XOR A 2 1 XOR A 2 2 XOR A 2 3 XOR A 2 4) 1 = theta_d A 1"
  "(A 1 0 XOR A 1 1 XOR A 1 2 XOR A 1 3 XOR A 1 4) XOR rol (A 3 0 XOR A 3 1 XOR A 3 2 XOR A 3 3 XOR A 3 4) 1 = theta_d A 2"
  "(A 2 0 XOR A 2 1 XOR A 2 2 XOR A 2 3 XOR A 2 4) XOR rol (A 4 0 XOR A 4 1 XOR A 4 2 XOR A 4 3 XOR A 4 4) 1 = theta_d A 3"
  "(A 3 0 XOR A 3 1 XOR A 3 2 XOR A 3 3 XOR A 3 4) XOR rol (A 0 0 XOR A 0 1 XOR A 0 2 XOR A 0 3 XOR A 0 4) 1 = theta_d A 4"
  by (simp_all add: theta_d_def rol_rotl flip: One_nat_def)

lemma word_rotl_0: "word_rotl 0 w = w" for w :: u64
  by (rule bit_word_eqI) (simp add: bit_word_rotl_iff)

lemmas step_mappings = keccak_round_def iota_def chi_def pi_step_def rho_def theta_column rho_offsets rol_rotl word_rotl_0 xor.assoc

lemma round_AE_standard: "round_AE (round_constant n) (words_of A) = words_of (keccak_round n A)"
  unfolding words_of_25 [of "keccak_round n A"] round_AE_def words_of_nth Let_def theta_ds
  by (simp add: step_mappings flip: One_nat_def)

lemma round_EA_standard: "round_EA (round_constant n) (words_of A) = words_of (keccak_round n A)"
  unfolding words_of_25 [of "keccak_round n A"] round_EA_def words_of_nth Let_def theta_ds
  by (simp add: step_mappings flip: One_nat_def)

lemma fold_pairs: "fold f [0..<2 * k] x = fold (\<lambda>n. f (n + 1) \<circ> f n) (filter even [0..<2 * k]) x"
  by (induction k) simp_all

lemma words_of_lanes_of: "map (\<lambda>i. s ! i) [0..<25] = words_of (lanes_of s)"
  by (simp add: words_of_def lanes_of_def)

lemma fold_words_of:
  assumes "\<And>n A. n \<in> set ns \<Longrightarrow> f n (words_of A) = words_of (g n A)"
  shows "fold f ns (words_of A) = words_of (fold g ns A)"
  using assms by (induction ns arbitrary: A) simp_all

lemma keccakf1600_standard: "keccakf1600_implementation s = keccak_f s"
proof -
  have "fold (\<lambda>n A. round_EA (round_constants ! (n + 1)) (round_AE (round_constants ! n) A)) (filter even [0..<24]) (words_of B)
      = words_of (fold (\<lambda>n. keccak_round (n + 1) \<circ> keccak_round n) (filter even [0..<24]) B)" for B
  proof (rule fold_words_of)
    fix n A assume "n \<in> set (filter even [0..<24::nat])"
    then have "n < 24" "n \<noteq> 23" by auto
    then have "n < 24" "n + 1 < 24" by linarith+
    then show "round_EA (round_constants ! (n + 1)) (round_AE (round_constants ! n) (words_of A)) =
        words_of ((keccak_round (n + 1) \<circ> keccak_round n) A)"
      by (simp only: round_constants_nth round_AE_standard round_EA_standard o_def)
  qed
  with fold_pairs [of keccak_round 12] show ?thesis
    by (simp add: keccakf1600_implementation_def words_of_lanes_of keccak_f_def)
qed

section \<open>The sponges agree\<close>

lemma length_keccak_f [simp]: "length (keccak_f s) = 25"
  by (simp add: keccak_f_def words_of_def)

lemma load_le_take [simp]: "load_le (take 8 bs) = load_le bs"
  by (simp add: load_le_def)

lemma load_le_nth:
  assumes "n < 64"
  shows "bit (load_le bs) n = (n div 8 < length bs \<and> bit (bs ! (n div 8)) (n mod 8))"
proof -
  have "bit (foldr (\<lambda>b w. push_bit 8 w OR ucast b) bs (0 :: u64)) n = (n div 8 < length bs \<and> bit (bs ! (n div 8)) (n mod 8))"
    if "n < 64" for bs :: bytes and n
    using that
  proof (induction bs arbitrary: n)
    case (Cons b bs)
    show ?case
    proof (cases "n < 8")
      case False
      then have "n div 8 = Suc ((n - 8) div 8)" "n mod 8 = (n - 8) mod 8"
        by (simp_all add: le_div_geq le_mod_geq not_less)
      then show ?thesis using False Cons.prems Cons.IH [of "n - 8"] bit_imp_le_length [of b n] by (auto simp: bit_simps)
    qed (use Cons.prems in \<open>auto simp: bit_simps\<close>)
  qed simp
  from this [OF assms, of "take 8 bs"] show ?thesis using assms unfolding load_le_def by auto
qed

lemma load_le_drop_bit:
  "n < 64 \<Longrightarrow> bit (load_le (drop k bs)) n = (k + n div 8 < length bs \<and> bit (bs ! (k + n div 8)) (n mod 8))"
  by (auto simp: load_le_nth)

lemma block_words_bit:
  assumes "j < 25" "n < 64" "length b \<le> 200"
  shows "bit (block_words b ! j) n = (8 * j + n div 8 < length b \<and> bit (b ! (8 * j + n div 8)) (n mod 8))"
proof -
  have "block_words b ! j = load_le (drop (8 * j) (b @ replicate (200 - length b) 0))"
    using assms(1) by (simp add: block_words_def del: drop_append)
  then show ?thesis unfolding load_le_drop_bit [OF assms(2)] by (auto simp: load_le_drop_bit [OF assms(2)] nth_append simp del: drop_append)
qed

lemma length_block_words [simp]: "length (block_words b) = 25"
  by (simp add: block_words_def)

lemma block_words_xor:
  assumes "length a = length b" "length b \<le> 200"
  shows "block_words (map2 (XOR) a b) = map2 (XOR) (block_words a) (block_words b)"
proof (rule nth_equalityI)
  fix j assume "j < length (block_words (map2 (XOR) a b))"
  then have j: "j < 25" by simp
  show "block_words (map2 (XOR) a b) ! j = map2 (XOR) (block_words a) (block_words b) ! j"
    by (rule bit_word_eqI) (use j assms in \<open>auto simp: block_words_bit bit_xor_iff\<close>)
qed simp

lemma fold_xor_nth:
  fixes g :: "nat \<Rightarrow> u64"
  assumes "k \<le> length st"
  shows "length (fold (\<lambda>i st. st[i := st ! i XOR g i]) [0..<k] st) = length st"
    and "j < length st \<Longrightarrow> fold (\<lambda>i st. st[i := st ! i XOR g i]) [0..<k] st ! j = (if j < k then st ! j XOR g j else st ! j)"
  using assms by (induction k) (auto simp: nth_list_update)

lemma absorb_words_block:
  assumes "length st = 25" "8 dvd r" "r \<le> 200" "r \<le> length data"
  shows "absorb_words r data st = map2 (XOR) st (block_words (take r data))"
proof (rule nth_equalityI)
  fix j assume "j < length (absorb_words r data st)"
  then have j: "j < 25" using assms by (simp add: absorb_words_def fold_xor_nth)
  have "block_words (take r data) ! j = (if j < r div 8 then load_le (drop (8 * j) data) else 0)"
    by (rule bit_word_eqI) (use j assms in \<open>auto simp: block_words_bit load_le_drop_bit elim!: dvdE\<close>)
  then show "absorb_words r data st ! j = map2 (XOR) st (block_words (take r data)) ! j"
    using j assms by (simp add: absorb_words_def fold_xor_nth)
qed (use assms in \<open>simp add: absorb_words_def fold_xor_nth\<close>)

lemma keccak_rest_words:
  assumes "i + length data div 8 \<le> length st"
  shows "\<exists>st'. keccak_rest i data st = (i + length data div 8, drop (8 * (length data div 8)) data, st') \<and> length st' = length st \<and>
    (\<forall>j < length st. st' ! j = (if i \<le> j \<and> j < i + length data div 8 then st ! j XOR load_le (drop (8 * (j - i)) data) else st ! j))"
  using assms
proof (induction i data st rule: keccak_rest.induct)
  case (1 i data st)
  show ?case
  proof (cases "8 \<le> length data")
    case True
    then have d: "length data div 8 = Suc (length (drop 8 data) div 8)" by (simp add: le_div_geq)
    let ?st = "st[i := st ! i XOR load_le data]"
    have "Suc i + length (drop 8 data) div 8 \<le> length ?st" using 1(2) d by simp
    from 1(1) [OF True this] d obtain st' where st': "keccak_rest (Suc i) (drop 8 data) ?st =
          (i + length data div 8, drop (8 * (length data div 8)) data, st')" "length st' = length st"
        "\<And>j. j < length st \<Longrightarrow> st' ! j = (if Suc i \<le> j \<and> j < i + length data div 8
           then ?st ! j XOR load_le (drop (8 * (j - Suc i)) (drop 8 data)) else ?st ! j)"
      by (auto simp: add.commute)
    have "st' ! j = (if i \<le> j \<and> j < i + length data div 8 then st ! j XOR load_le (drop (8 * (j - i)) data) else st ! j)"
      if "j < length st" for j
    proof (cases "Suc i \<le> j")
      case True
      then have "8 * (j - Suc i) + 8 = 8 * (j - i)" by simp
      then show ?thesis using True that by (simp add: st'(3))
    next
      case False
      then show ?thesis using that d by (cases "j = i") (simp_all add: st'(3))
    qed
    then show ?thesis using True st'(1,2) by (auto simp: keccak_rest.simps [of i data st])
  qed (auto simp: keccak_rest.simps)
qed

lemma pad_multirate_split:
  assumes "length m < r"
  shows "pad_multirate r m = map2 (XOR) (m @ [1] @ replicate (r - 1 - length m) 0) (replicate (r - 1) 0 @ [0x80])"
proof (rule nth_equalityI)
  show len: "length (pad_multirate r m) = length (map2 (XOR) (m @ [1] @ replicate (r - 1 - length m) 0) (replicate (r - 1) 0 @ [0x80]))"
    using assms by (auto simp: pad_multirate_def Let_def)
  fix i assume "i < length (pad_multirate r m)"
  then have "i < r" using assms len by simp
  then consider "i < length m" | "i = length m" "i = r - 1" | "i = length m" "i < r - 1" | "length m < i" "i < r - 1" | "length m < i" "i = r - 1"
    by linarith
  then show "pad_multirate r m ! i = map2 (XOR) (m @ [1] @ replicate (r - 1 - length m) 0) (replicate (r - 1) 0 @ [0x80]) ! i"
    using assms by cases (auto simp: pad_multirate_def Let_def nth_append nth_Cons')
qed

lemma bit_high: "bit (0x80 :: byte) n = (n = 7)" "bit (0x8000000000000000 :: u64) n = (n = 63)"
proof -
  have "(0x80 :: byte) = push_bit 7 1" "(0x8000000000000000 :: u64) = push_bit 63 1" by simp_all
  moreover have "bit (push_bit 7 1 :: byte) n = (n = 7)" "bit (push_bit 63 1 :: u64) n = (n = 63)"
    unfolding bit_push_bit_iff by (auto simp: bit_1_iff)
  ultimately show "bit (0x80 :: byte) n = (n = 7)" "bit (0x8000000000000000 :: u64) n = (n = 63)" by metis+
qed

lemma block_words_end:
  assumes "r = 8 * q" "0 < q" "r \<le> 200" "j < 25"
  shows "block_words (replicate (r - 1) 0 @ [0x80]) ! j = (if j = q - 1 then 0x8000000000000000 else 0)"
proof (rule bit_word_eqI)
  fix n assume n: "n < LENGTH(64)"
  have d: "n div 8 < 8" using n by auto
  have e: "n div 8 = 7 \<and> n mod 8 = 7 \<longleftrightarrow> n = 63"
  proof
    assume "n div 8 = 7 \<and> n mod 8 = 7"
    then show "n = 63" using div_mult_mod_eq [of n 8] by simp
  qed simp
  have "8 * j + e = 8 * q - 1 \<longleftrightarrow> j = q - 1 \<and> e = 7" if "e < 8" for e
  proof (cases q)
    case (Suc p)
    have "j = p" if "8 * j + e = 8 * p + 7" using that \<open>e < 8\<close> by linarith
    then have "8 * j + e = 8 * p + 7 \<longleftrightarrow> j = p \<and> e = 7" by auto
    then show ?thesis using Suc by (simp add: add.commute)
  qed (use assms(2) in simp)
  from this [OF d] have "(8 * j + n div 8 = r - 1 \<and> n mod 8 = 7) \<longleftrightarrow> j = q - 1 \<and> n = 63"
    unfolding assms(1) using e by blast
  then show "bit (block_words (replicate (r - 1) 0 @ [0x80]) ! j) n = bit (if j = q - 1 then 0x8000000000000000 else 0 :: u64) n"
    using n assms bit_high(1) [of "n mod 8"] bit_high(2) [of n] by (auto simp: block_words_bit nth_append)
qed

lemma padded_bit:
  "i < length (m @ [1] @ replicate k 0) \<and> bit ((m @ [1] @ replicate k (0 :: byte)) ! i) b \<longleftrightarrow>
     i < length m \<and> bit (m ! i) b \<or> i = length m \<and> b = 0"
  by (auto simp: nth_append nth_Cons' bit_1_iff)

lemma block_words_start:
  assumes "length m < r" "r \<le> 200" "j < 25"
  shows "block_words (m @ [1] @ replicate (r - 1 - length m) 0) ! j =
    (if j < length m div 8 then load_le (drop (8 * j) m)
     else if j = length m div 8 then last_word (drop (8 * (length m div 8)) m) else 0)"
proof (rule bit_word_eqI)
  fix n assume n: "n < LENGTH(64)"
  let ?l = "length m" and ?i = "8 * j + n div 8"
  have m: "8 * (?l div 8) + ?l mod 8 = ?l" "?l mod 8 < 8" "n div 8 < 8" using n by auto
  have l: "bit (block_words (m @ [1] @ replicate (r - 1 - ?l) 0) ! j) n \<longleftrightarrow>
      ?i < ?l \<and> bit (m ! ?i) (n mod 8) \<or> ?i = ?l \<and> n mod 8 = 0"
    using assms n by (subst block_words_bit, simp_all only: padded_bit) auto
  consider "j < ?l div 8" | "j = ?l div 8" | "?l div 8 < j" by linarith
  then show "bit (block_words (m @ [1] @ replicate (r - 1 - ?l) 0) ! j) n =
    bit (if j < ?l div 8 then load_le (drop (8 * j) m) else if j = ?l div 8 then last_word (drop (8 * (?l div 8)) m) else 0) n"
  proof cases
    case 1
    then have "?i < ?l" using m by linarith
    then show ?thesis unfolding l using 1 n by (simp add: load_le_drop_bit)
  next
    case 2
    have "bit (last_word (drop (8 * j) m)) n \<longleftrightarrow> n div 8 < ?l - 8 * j \<and> bit (m ! ?i) (n mod 8) \<or> n div 8 = ?l - 8 * j \<and> n mod 8 = 0"
      unfolding last_word_def using n 2 by (subst load_le_nth, simp, subst padded_bit) auto
    then show ?thesis unfolding l using 2 m by auto
  next
    case 3
    then have "?l < ?i" using m by linarith
    then show ?thesis unfolding l using 3 by simp
  qed
qed

lemma last_block:
  assumes "length st = 25" "r = 8 * q" "r \<le> 200" "length m < r" "keccak_rest 0 m st = (i, rest, st2)"
    and "st3 = st2[i := st2 ! i XOR last_word rest]"
  shows "st3[q - 1 := st3 ! (q - 1) XOR 0x8000000000000000] = map2 (XOR) st (block_words (pad_multirate r m))"
proof (rule nth_equalityI)
  let ?l = "length m"
  have i: "?l div 8 < 25" "0 < q" "q \<le> 25" using assms by auto
  define p e where "p = m @ [1] @ replicate (r - 1 - ?l) 0" and "e = replicate (r - 1) 0 @ [0x80 :: byte]"
  note start = block_words_start [OF assms(4,3), folded p_def] and stop = block_words_end [OF assms(2) i(2) assms(3), folded e_def]
  from keccak_rest_words [of 0 m st] assms(1,5) i have
    st2: "i = ?l div 8" "rest = drop (8 * (?l div 8)) m" "length st2 = 25"
      "\<And>j. j < 25 \<Longrightarrow> st2 ! j = (if j < ?l div 8 then st ! j XOR load_le (drop (8 * j) m) else st ! j)"
    by auto
  then have st3: "length st3 = 25"
      "\<And>j. j < 25 \<Longrightarrow> st3 ! j = st ! j XOR block_words p ! j"
    using assms(6) i by (auto simp: start nth_list_update)
  show "length (st3[q - 1 := st3 ! (q - 1) XOR 0x8000000000000000]) = length (map2 (XOR) st (block_words (pad_multirate r m)))"
    using st3(1) assms(1) by simp
  fix j assume "j < length (st3[q - 1 := st3 ! (q - 1) XOR 0x8000000000000000])"
  then have j: "j < 25" using st3(1) by simp
  have "block_words (pad_multirate r m) = map2 (XOR) (block_words p) (block_words e)"
    unfolding pad_multirate_split [OF assms(4)] p_def e_def using assms(3,4) by (intro block_words_xor) auto
  then show "st3[q - 1 := st3 ! (q - 1) XOR 0x8000000000000000] ! j = map2 (XOR) st (block_words (pad_multirate r m)) ! j"
    using j i st3 assms(1-3) by (auto simp: nth_list_update stop xor.assoc)
qed

lemma pad_multirate_block: "0 < r \<Longrightarrow> r \<le> length m \<Longrightarrow> pad_multirate r m = take r m @ pad_multirate r (drop r m)"
  by (simp add: pad_multirate_def Let_def le_mod_geq)

lemma length_pad_last: "length m < r \<Longrightarrow> length (pad_multirate r m) = r"
  by (auto simp: pad_multirate_def Let_def)

text \<open>The message after its full blocks, and the state with them absorbed.\<close>

lemma keccak_blocks_sponge:
  assumes "0 < r" "8 dvd r" "r \<le> 200" "length st = 25" "keccak_blocks r data st = (m, st1)"
  shows "length m < r \<and> length st1 = 25 \<and>
    sponge_absorb r (pad_multirate r data) st = keccak_f (map2 (XOR) st1 (block_words (pad_multirate r m)))"
  using assms
proof (induction r data st rule: keccak_blocks.induct)
  case (1 r data st)
  show ?case
  proof (cases "r \<le> length data")
    case True
    have "keccak_blocks r (drop r data) (keccak_f (map2 (XOR) st (block_words (take r data)))) = (m, st1)"
      using 1 True by (simp add: keccak_blocks.simps [of r data] keccakf1600_standard absorb_words_block)
    with 1(1) 1(2-5) True show ?thesis
      by (simp add: sponge_absorb.simps [of r "take r data @ bs" for bs] pad_multirate_block keccakf1600_standard absorb_words_block)
  next
    case False
    then have "m = data" "st1 = st" using 1(6) by (simp_all add: keccak_blocks.simps)
    moreover have "sponge_absorb r (pad_multirate r data) st = keccak_f (map2 (XOR) st (block_words (pad_multirate r data)))"
      using False 1(2) by (simp add: sponge_absorb.simps [of r "pad_multirate r data"] sponge_absorb.simps [of r "[]"] length_pad_last)
    ultimately show ?thesis using False 1(5) by simp
  qed
qed

lemma take_concat_store: "take (8 * k) (concat (map store_le ws)) = concat (map store_le (take k ws))"
proof (induction ws arbitrary: k)
  case (Cons w ws)
  then show ?case by (cases k) (simp_all add: store_le_def)
qed simp

lemma keccak_digest:
  assumes "bits = 64 * k" "2 * bits < 1600"
  shows "concat (map store_le (keccak_c bits data)) = keccak_standard bits data"
proof -
  let ?r = "(1600 - 2 * bits) div 8"
  have r: "?r = 8 * (25 - 2 * k)" "0 < 25 - 2 * k" "?r \<le> 200" using assms by auto
  obtain m st1 where b: "keccak_blocks ?r data (replicate 25 0) = (m, st1)" by fastforce
  obtain i rest st2 where w: "keccak_rest 0 m st1 = (i, rest, st2)" by (cases "keccak_rest 0 m st1") auto
  have s: "length m < ?r" "length st1 = 25"
    "sponge_absorb ?r (pad_multirate ?r data) (replicate 25 0) = keccak_f (map2 (XOR) st1 (block_words (pad_multirate ?r m)))"
    using keccak_blocks_sponge [OF _ _ r(3) _ b] r by auto
  have q: "?r div 8 = 25 - 2 * k" "bits div 8 div 8 = k" "k \<le> 25" using r assms by auto
  have "map (\<lambda>i. keccak_f s ! i) [0..<k] = take k (keccak_f s)" for s
    using q(3) by (intro nth_equalityI) auto
  then have "keccak_c bits data = take k (keccak_f (map2 (XOR) st1 (block_words (pad_multirate ?r m))))"
    unfolding keccak_c_def Let_def mult.commute [of bits 2] b w prod.case q keccakf1600_standard
    using last_block [OF s(2) r(1,3) s(1) w refl] by simp
  then show ?thesis unfolding keccak_standard_def Let_def s(3) using assms by (simp add: take_concat_store)
qed

lemma length_ethash_keccak256 [simp]: "length (ethash_keccak256 data) = 32"
  by (simp add: ethash_keccak256_def keccak_c_def Let_def split_beta length_concat store_le_def o_def sum_list_triv)

text \<open>
  C9. The hash of the chain is Keccak as the standard defines it: for every message of every length, full blocks,
  a last block with one free byte and the empty message included, the unrolled permutation, the
  block loop and the padding through \<open>last_word\<close> give the digest of the sponge over the five step mappings,
  for 256 and for 512 bits.
\<close>

theorem keccak_is_standard:
  "ethash_keccak256 data = keccak_standard 256 data \<and> ethash_keccak256_32 data = keccak_standard 256 (take 32 data) \<and>
   ethash_keccak512 data = keccak_standard 512 data \<and> ethash_keccak512_64 data = keccak_standard 512 (take 64 data)"
  using keccak_digest [of 256 4] keccak_digest [of 512 8]
  by (simp add: ethash_keccak256_def ethash_keccak256_32_def ethash_keccak512_def ethash_keccak512_64_def)

end
