(* ===== verification/Rpc.thy ===== *)
theory Rpc
  imports NetServe BlkExec JsonData TxsWire Keccak
begin

text \<open>
  The RPC server (\<^verbatim>\<open>include/rpc.hpp\<close>): what a client can ask of a node. Each handler is a function of the
  chain database, which it reads through \<open>get\<close>, or of the state of the node; \<open>Rpc_ctor\<close> registers them with an
  HTTP server. A handler whose conversion to JSON throws inside a \<open>noexcept\<close> function gives \<open>Inl\<close>: there is no
  answer then, the process ends.
\<close>

record rpc_env =
  rpc_keccak :: keccak256
  rpc_json :: json_text
  rpc_codecs :: chain_codecs
  rpc_txs_codec :: txs_codec
  rpc_replies :: "PbAddTxReply list \<Rightarrow> string"
  rpc_clock :: "nat \<Rightarrow> u64"
  rpc_read_file :: "string \<Rightarrow> string option"

text \<open>The collaborators of the server: consensus, pool, chain database and verifier.\<close>

record 's Rpc =
  rpc_addTxs :: "Tx list \<Rightarrow> 's \<Rightarrow> bool \<times> 's"
  rpc_pool_info :: "'s \<Rightarrow> string"
  rpc_wrld :: "'s \<Rightarrow> string \<Rightarrow> string option"
  rpc_verifier :: "(Tx \<Rightarrow> bool) option"

section \<open>Reading the chain\<close>

text \<open>\<open>lexical_cast<string>\<close> and \<open>format("%d")\<close> of an \<open>int\<close>.\<close>

definition int_text :: "int \<Rightarrow> string" where
  "int_text i = (if i < 0 then ''-'' @ decimal (nat (- i)) else decimal (nat i))"

definition parse_positive_int :: "string \<Rightarrow> int option \<times> string" where
  "parse_positive_int n =
     (case lexical_cast_int n of
        None \<Rightarrow> (None, ''Failed to parse '' @ n @ '' as integer'')
      | Some M \<Rightarrow> if M < 0 then (None, ''Failed to parse '' @ n @ '' as positive integer'') else (Some M, []))"

definition get_Blk_from_chain :: "rpc_env \<Rightarrow> (string \<Rightarrow> string option) \<Rightarrow> int \<Rightarrow> ExecBlk option \<times> string" where
  "get_Blk_from_chain env get bn =
     (case get (''/blk/'' @ int_text bn) of
        None \<Rightarrow> (None, ''Data corruption Error: failed to get  /blk/'' @ int_text bn @ '' on chainDB'')
      | Some r \<Rightarrow>
          (case fromPbString (exec_codec (rpc_codecs env))
                  (ExecBlk_fromPb0 (rpc_keccak env) (ExecBlk_default 0 (replicate 32 0))) r of
             None \<Rightarrow> (None, ''Data corruption Error: /blk/'' @ int_text bn @ '' on chainDB doesn'' @ [CHR 0x27] @ ''t deserialize to Blk'')
           | Some b \<Rightarrow> (Some b, ''OK'')))"

text \<open>The loop of \<open>get_latest_Blk\<close> over \<open>M\<close>, \<open>M - 1\<close>, and so on.\<close>

fun latest_blks :: "rpc_env \<Rightarrow> (string \<Rightarrow> string option) \<Rightarrow> int list \<Rightarrow> (string + json list) result" where
  "latest_blks env get [] = Inr (Inr [])"
| "latest_blks env get (bn # bns) =
     (case get_Blk_from_chain env get bn of
        (None, err) \<Rightarrow> Inr (Inl err)
      | (Some b, _) \<Rightarrow>
          bind_result (ExecBlk_toJson (rpc_keccak env) (rpc_json env) b) (\<lambda>j.
          bind_result (latest_blks env get bns) (\<lambda>r.
            Inr (case r of Inl err \<Rightarrow> Inl err | Inr js \<Rightarrow> Inr (j # js)))))"

definition get_latest_Blk :: "rpc_env \<Rightarrow> (string \<Rightarrow> string option) \<Rightarrow> int \<Rightarrow> (bool \<times> string) result" where
  "get_latest_Blk env get N =
     (if N = 0 then Inr (True, json_serialize (rpc_json env) (JArr []))
      else if N < 0 then Inr (False, ''You cannot get latest <negative number='' @ int_text N @ ''> Blks'')
      else (case get ''/other/blk_number'' of
          None \<Rightarrow> Inr (True, json_serialize (rpc_json env) (JArr []))
        | Some r \<Rightarrow>
            (case parse_positive_int r of
               (None, err_msg) \<Rightarrow> Inr (False, err_msg)
             | (Some M, _) \<Rightarrow>
                 if M + 1 \<ge> 2 ^ 31 then Inl Undefined_arith
                 else
                   (let N' = (if N > M + 1 then M + 1 else N) in
                    bind_result (latest_blks env get (map (\<lambda>i. M - int i) [0..<nat N'])) (\<lambda>r.
                      Inr (case r of
                             Inl err \<Rightarrow> (False, err)
                           | Inr a \<Rightarrow> (True, json_serialize (rpc_json env) (JArr a))))))))"

definition handle_get_Blk :: "rpc_env \<Rightarrow> (string \<Rightarrow> string option) \<Rightarrow> query option \<Rightarrow> (bool \<times> string) result" where
  "handle_get_Blk env get q =
     (case Option.bind q (\<lambda>m. map_of m ''n'') of
        None \<Rightarrow> get_latest_Blk env get 1
      | Some ns \<Rightarrow>
          (case parse_positive_int ns of
             (None, err_msg) \<Rightarrow> Inr (False, err_msg)
           | (Some n, _) \<Rightarrow>
               (case get_Blk_from_chain env get n of
                  (None, err_msg1) \<Rightarrow> Inr (False, err_msg1)
                | (Some b, _) \<Rightarrow>
                    bind_result (ExecBlk_toJson (rpc_keccak env) (rpc_json env) b)
                      (\<lambda>j. Inr (True, json_serialize (rpc_json env) j)))))"

definition handle_get_latest_Blk :: "rpc_env \<Rightarrow> (string \<Rightarrow> string option) \<Rightarrow> query option \<Rightarrow> (bool \<times> string) result" where
  "handle_get_latest_Blk env get q =
     (case Option.bind q (\<lambda>m. map_of m ''n'') of
        None \<Rightarrow> get_latest_Blk env get 1
      | Some ns \<Rightarrow>
          (case parse_positive_int ns of
             (None, err_msg) \<Rightarrow> Inr (False, err_msg)
           | (Some n, _) \<Rightarrow> get_latest_Blk env get n))"

section \<open>Transactions and receipts\<close>

definition get_txOnBlkInfo :: "rpc_env \<Rightarrow> (string \<Rightarrow> string option) \<Rightarrow> string \<Rightarrow> TxOnBlkInfo option \<times> string" where
  "get_txOnBlkInfo env get h =
     (if from_hex_T 32 h = None then (None, ''Error: `hash` '' @ h @ '' is ill-formed'')
      else (case get (''/tx/'' @ h) of
          None \<Rightarrow> (None, ''Error: `hash` '' @ h @ '' does not (yet) exist on the chain.'' @ [CHR 0x0A] @
                   '' Maybe you should try again later, or check your hash.'')
        | Some s \<Rightarrow>
            (case fromPbString (info_codec (rpc_codecs env)) (TxOnBlkInfo_fromPb (TxOnBlkInfo_ctor 0 0)) s of
               None \<Rightarrow> (None, ''Data corruption Error:: `TxOnBlkInfo` data corrupted on storage.'')
             | Some info \<Rightarrow> (Some info, ''OK''))))"

text \<open>The number of the block, a \<open>uint64_t\<close>, is passed as an \<open>int\<close>.\<close>

definition to_int32 :: "u64 \<Rightarrow> int" where
  "to_int32 n = sint (ucast n :: 32 word)"

definition find_on_Blk :: "rpc_env \<Rightarrow> (string \<Rightarrow> string option) \<Rightarrow> string \<Rightarrow> string + (ExecBlk \<times> TxOnBlkInfo)" where
  "find_on_Blk env get h =
     (case get_txOnBlkInfo env get h of
        (None, err_msg) \<Rightarrow> Inl err_msg
      | (Some info, _) \<Rightarrow>
          (case get_Blk_from_chain env get (to_int32 (blkNumber info)) of
             (None, err_msg1) \<Rightarrow> Inl err_msg1
           | (Some b, _) \<Rightarrow> Inr (b, info)))"

text \<open>\<open>operator[]\<close> of a vector, without a check.\<close>

definition vector_at :: "'a list \<Rightarrow> u64 \<Rightarrow> 'a result" where
  "vector_at v i = (if unat i < length v then Inr (v ! unat i) else Inl Undefined_read)"

definition get_receipt :: "rpc_env \<Rightarrow> (string \<Rightarrow> string option) \<Rightarrow> string \<Rightarrow> (bool \<times> string) result" where
  "get_receipt env get h =
     (case find_on_Blk env get h of
        Inl err_msg \<Rightarrow> Inr (False, err_msg)
      | Inr (b, info) \<Rightarrow>
          bind_result (vector_at (txReceipts b) (onBlkId info)) (\<lambda>tr.
          bind_result (TxReceipt_toJson (rpc_json env) tr) (\<lambda>j. Inr (True, json_serialize (rpc_json env) j))))"

definition get_tx :: "rpc_env \<Rightarrow> (string \<Rightarrow> string option) \<Rightarrow> string \<Rightarrow> (bool \<times> string) result" where
  "get_tx env get h =
     (case find_on_Blk env get h of
        Inl err_msg \<Rightarrow> Inr (False, err_msg)
      | Inr (b, info) \<Rightarrow>
          bind_result (vector_at (txs b) (onBlkId info)) (\<lambda>tx.
            Inr (True, json_serialize (rpc_json env) (Tx_toJson (rpc_keccak env) tx))))"

definition usage_text :: "string \<Rightarrow> string" where
  "usage_text t = ''Error: `'' @ t @ ''` should be used with query parameter `hash=<Tx hash>`'' @ [CHR 0x0A] @
     ''For example: http://localhost:7777'' @ t @ ''?hash=3d9a5bdd62ff8f12aab28cdb1c091918c5ede28c91c09e8f16a68a7c33add70e''"

definition handle_get_receipt :: "rpc_env \<Rightarrow> (string \<Rightarrow> string option) \<Rightarrow> query option \<Rightarrow> (bool \<times> string) result" where
  "handle_get_receipt env get q =
     (case Option.bind q (\<lambda>m. map_of m ''hash'') of
        None \<Rightarrow> Inr (False, usage_text ''/get_receipt'')
      | Some h \<Rightarrow> get_receipt env get h)"

definition handle_get_tx :: "rpc_env \<Rightarrow> (string \<Rightarrow> string option) \<Rightarrow> query option \<Rightarrow> (bool \<times> string) result" where
  "handle_get_tx env get q =
     (case Option.bind q (\<lambda>m. map_of m ''hash'') of
        None \<Rightarrow> Inr (False, usage_text ''/get_tx'')
      | Some h \<Rightarrow> get_tx env get h)"

section \<open>Status\<close>

definition handle_get_node_status :: "rpc_env \<Rightarrow> (bool \<times> string) result" where
  "handle_get_node_status env = Inr (True, json_serialize (rpc_json env) (JObj [(''status'', JStr ''OK'')]))"

text \<open>\<open>Mempool::info\<close>; \<open>history\<close> are the remembered hashes in the order of the \<open>unordered_set\<close>.\<close>

definition Mempool_info :: "rpc_env \<Rightarrow> int \<Rightarrow> hash256 list \<Rightarrow> Tx list \<Rightarrow> string" where
  "Mempool_info env batch history ts = json_serialize (rpc_json env) (JObj
     [(''max_txs_per_batch'', JInt batch), (''hash_history'', JArr (map (JStr \<circ> hashToString) history)),
      (''txs_in_pool'', JArr (map (Tx_toJson (rpc_keccak env)) ts)), (''txs_in_pool_count'', JUint (of_nat (length ts)))])"

section \<open>Adding transactions\<close>

definition add_txs_and_return_this :: "'s Rpc \<Rightarrow> string \<Rightarrow> Tx list \<Rightarrow> 's \<Rightarrow> (bool \<times> string) \<times> 's" where
  "add_txs_and_return_this r reply ts s =
     (if ts = [] then ((True, reply), s)
      else (let (ok, s') = rpc_addTxs r ts s in
        if \<not> ok then ((False, ''Sorry, we have encountered some error in our side.So your requests to add Txs is failed. Please try again latter.''), s')
        else ((True, reply), s')))"

definition handle_add_txs :: "rpc_env \<Rightarrow> 's Rpc \<Rightarrow> string \<Rightarrow> 's \<Rightarrow> (bool \<times> string) \<times> 's" where
  "handle_add_txs env r d s =
     (case parse_txs_jsonString_for_rpc (rpc_keccak env) (rpc_json env) (rpc_clock env) (rpc_read_file env) (rpc_verifier r) d of
        None \<Rightarrow> ((False, ''Invalid input JSON format.''), s)
      | Some (reply, ts) \<Rightarrow> add_txs_and_return_this r reply ts s)"

definition handle_add_txs_pb :: "rpc_env \<Rightarrow> 's Rpc \<Rightarrow> string \<Rightarrow> 's \<Rightarrow> (bool \<times> string) \<times> 's" where
  "handle_add_txs_pb env r d s =
     (case parse_txs_pbString_for_rpc (rpc_keccak env) (rpc_txs_codec env) (rpc_replies env) (rpc_clock env) (rpc_verifier r) d of
        None \<Rightarrow> ((False, ''Invalid input Pb format.''), s)
      | Some (reply, ts) \<Rightarrow> add_txs_and_return_this r reply ts s)"

section \<open>The constructor\<close>

text \<open>\<open>HttpRpcAsstn\<close> drops the address and the port of the client.\<close>

definition rpc_get_handler :: "('s \<Rightarrow> query option \<Rightarrow> (bool \<times> string) result) \<Rightarrow> 's get_handler" where
  "rpc_get_handler h = (\<lambda>addr port q s. case h s q of Inl e \<Rightarrow> UB | Inr r \<Rightarrow> Val (r, s))"

definition rpc_post_handler :: "(string \<Rightarrow> 's \<Rightarrow> (bool \<times> string) \<times> 's) \<Rightarrow> 's post_handler" where
  "rpc_post_handler h = (\<lambda>addr port d s. Val (h d s))"

definition Rpc_ctor :: "rpc_env \<Rightarrow> 's Rpc \<Rightarrow> 's WeakHttpServerBase \<Rightarrow> 's WeakHttpServerBase" where
  "Rpc_ctor env r srv =
     (let s1 = listenToPost ''/add_txs'' (rpc_post_handler (handle_add_txs env r)) srv;
          s2 = listenToPost ''/add_txs_pb'' (rpc_post_handler (handle_add_txs_pb env r)) s1;
          s3 = listenToGet ''/get_latest_Blk'' (rpc_get_handler (\<lambda>s. handle_get_latest_Blk env (rpc_wrld r s))) s2;
          s4 = listenToGet ''/get_pool_status'' (rpc_get_handler (\<lambda>s q. Inr (True, rpc_pool_info r s))) s3;
          s5 = listenToGet ''/get_receipt'' (rpc_get_handler (\<lambda>s. handle_get_receipt env (rpc_wrld r s))) s4;
          s6 = listenToGet ''/get_node_status'' (rpc_get_handler (\<lambda>s q. handle_get_node_status env)) s5;
          s7 = listenToGet ''/get_tx'' (rpc_get_handler (\<lambda>s. handle_get_tx env (rpc_wrld r s))) s6
      in listenToGet ''/get_blk'' (rpc_get_handler (\<lambda>s. handle_get_Blk env (rpc_wrld r s))) s7)"

section \<open>A committed transaction is found\<close>

lemma hex_plain: "plain_text (hex bs)"
proof -
  have "set (hex_byte b) \<subseteq> set hex_digits" for b
  proof -
    have "length hex_digits = 16" by (simp add: hex_digits_def)
    then show ?thesis using unat_high_nibble [of b] unat_low_nibble [of b] by (simp add: hex_byte_def)
  qed
  moreover have "plain_text hex_digits" by code_simp
  ultimately show ?thesis by (fastforce simp: plain_text_def hex_def)
qed

lemma Rpc_routes:
  "getLisnMap (Rpc_ctor env r srv) ''/get_receipt'' = Some (rpc_get_handler (\<lambda>s. handle_get_receipt env (rpc_wrld r s)))"
  "getLisnMap (Rpc_ctor env r srv) ''/get_tx'' = Some (rpc_get_handler (\<lambda>s. handle_get_tx env (rpc_wrld r s)))"
  "getLisnMap (Rpc_ctor env r srv) ''/get_latest_Blk'' = Some (rpc_get_handler (\<lambda>s. handle_get_latest_Blk env (rpc_wrld r s)))"
  "getLisnMap (Rpc_ctor env r srv) ''/get_blk'' = Some (rpc_get_handler (\<lambda>s. handle_get_Blk env (rpc_wrld r s)))"
  "postLisnMap (Rpc_ctor env r srv) ''/add_txs'' = Some (rpc_post_handler (handle_add_txs env r))"
  "postLisnMap (Rpc_ctor env r srv) ''/add_txs_pb'' = Some (rpc_post_handler (handle_add_txs_pb env r))"
  by (simp_all add: Rpc_ctor_def Let_def listenToGet_def listenToPost_def)

text \<open>A GET request with one query parameter, and the answer to it.\<close>

definition get_request :: "string \<Rightarrow> string \<Rightarrow> string \<Rightarrow> http_request" where
  "get_request t k v = \<lparr>req_method = VGet, req_target = t @ ''?'' @ k @ ''='' @ v, req_body = [], req_version = 11, req_keep_alive = True\<rparr>"

definition ok_response :: "string \<Rightarrow> http_response" where
  "ok_response body = \<lparr>resp_status = 200, resp_body = body, resp_type = ''application/json'', resp_version = 11, resp_keep_alive = True\<rparr>"

lemma handle_get_request:
  assumes "getLisnMap srv t = Some (rpc_get_handler h)" "CHR ''?'' \<notin> set t" "plain_text k" "plain_text v"
    and "h s (Some [(k, v)]) = Inr (True, body)"
  shows "handle_request srv (get_request t k v) a p s = Val (ok_response body, s)"
proof -
  have "parse_query_param (t @ ''?'' @ k @ ''='' @ v) = (Some [(k, v)], t)"
    using parse_query_text [of "[(k, v)]" t] assms(2-4) by (simp add: query_text_def)
  then show ?thesis
    using assms(1,5) by (simp add: handle_request_def get_request_def getGetResponseBody_def rpc_get_handler_def finish_request_def ok_response_def)
qed

lemma to_int32_small: "unat n < 2 ^ 31 \<Longrightarrow> to_int32 n = int (unat n)"
proof -
  assume n: "unat n < 2 ^ 31"
  have "int (unat n) < int (2 ^ 31)" using n by (simp only: of_nat_less_iff)
  then have u: "0 \<le> uint n" "uint n < 2 ^ 31" by simp_all
  have "uint (ucast n :: 32 word) = take_bit 32 (uint n)" by (simp add: unsigned_ucast_eq)
  also have "... = uint n" using u by (intro take_bit_int_eq_self) (simp_all add: order.strict_trans2)
  finally have w: "uint (ucast n :: 32 word) = uint n" .
  have "signed_take_bit 31 (uint n) = uint n"
    using u by (intro signed_take_bit_int_eq_self) linarith+
  then have "sint (ucast n :: 32 word) = uint n" unfolding sint_uint w by simp
  then show ?thesis unfolding to_int32_def by simp
qed

lemma blk_key_int: "''/blk/'' @ int_text (int (unat n)) = blk_key_of n"
  by (simp add: int_text_def blk_key_of_def)

lemma find_committed:
  assumes "get (''/tx/'' @ hex h) = Some e" "fromPbString (info_codec (rpc_codecs env)) (TxOnBlkInfo_fromPb (TxOnBlkInfo_ctor 0 0)) e =
      Some (TxOnBlkInfo_ctor (number b) i)" "length h \<le> 32" "unat (number b) < 2 ^ 31"
    and "get (blk_key_of (number b)) = Some f" "fromPbString (exec_codec (rpc_codecs env))
      (ExecBlk_fromPb0 (rpc_keccak env) (ExecBlk_default 0 (replicate 32 0))) f = Some b"
  shows "find_on_Blk env get (hex h) = Inr (b, TxOnBlkInfo_ctor (number b) i)"
proof -
  have "get_txOnBlkInfo env get (hex h) = (Some (TxOnBlkInfo_ctor (number b) i), ''OK'')"
    using assms(1-3) by (simp add: get_txOnBlkInfo_def from_hex_T_hex)
  moreover have "get_Blk_from_chain env get (to_int32 (number b)) = (Some b, ''OK'')"
    unfolding get_Blk_from_chain_def to_int32_small [OF assms(4)] blk_key_int using assms(5,6) by simp
  ultimately show ?thesis by (simp add: find_on_Blk_def TxOnBlkInfo_ctor_def)
qed

text \<open>
  C7. A client gets the receipt of its transaction. After a block is committed to a storage that does not
  fail, the request \<^verbatim>\<open>GET /get_receipt?hash=<hash>\<close> for the Keccak hash of any of its transactions is answered with
  status 200 and the JSON form of that transaction's receipt, and \<^verbatim>\<open>GET /get_tx?hash=<hash>\<close> with the transaction
  itself, as long as the number of the block fits an \<open>int\<close>.
\<close>

theorem client_gets_receipt:
  assumes "reliable_world ops invar chain state c" "invar w" "rpc_keccak env = ethash_keccak256" "rpc_codecs env = cs"
    and "length (stateChanges b) = length (txs b)" "length (txReceipts b) = length (txs b)" "length (txs b) \<le> 2 ^ 64" "i < length (txs b)"
    and "distinct (map (tx_hash ethash_keccak256) (txs b))" "unat (number b) < 2 ^ 31"
    and "\<And>info. info = TxOnBlkInfo_toPb (TxOnBlkInfo_ctor (number b) (of_nat i)) \<Longrightarrow>
      ParseFromString (info_codec cs) (SerializeAsString (info_codec cs) info) = Some info"
    and "ParseFromString (exec_codec cs) (SerializeAsString (exec_codec cs) (ExecBlk_toPb0 b)) = Some (ExecBlk_toPb0 b)"
    and "\<And>t. t \<in> set (txs b) \<Longrightarrow> wf_tx t \<and> from_matches_key ethash_keccak256 t" "wf_hash (parentHash b)"
    and "TxReceipt_toJson (rpc_json env) (txReceipts b ! i) = Inr j" "h = hex (tx_hash ethash_keccak256 (txs b ! i))"
  shows "\<exists>w'. commitBlk ops cs ethash_keccak256 w b = Inr (True, w') \<and>
    (\<forall>(r :: 's Rpc) srv s. rpc_wrld r s = getFromChainDB ops w' \<longrightarrow>
      handle_request (Rpc_ctor env r srv) (get_request ''/get_receipt'' ''hash'' h) a p s = Val (ok_response (json_serialize (rpc_json env) j), s) \<and>
      handle_request (Rpc_ctor env r srv) (get_request ''/get_tx'' ''hash'' h) a p s =
        Val (ok_response (json_serialize (rpc_json env) (Tx_toJson ethash_keccak256 (txs b ! i))), s))"
proof -
  let ?k = ethash_keccak256
  obtain w' where w': "commitBlk ops cs ?k w b = Inr (True, w')"
    and tx: "Option.bind (getFromChainDB ops w' (tx_key_of ?k (txs b ! i))) (fromPbString (info_codec cs) (TxOnBlkInfo_fromPb (TxOnBlkInfo_ctor 0 0))) =
       Some (TxOnBlkInfo_ctor (number b) (of_nat i))"
    and blk: "Option.bind (getFromChainDB ops w' (blk_key_of (number b)))
       (fromPbString (exec_codec cs) (ExecBlk_fromPb0 ?k (ExecBlk_default 0 (replicate 32 0)))) = Some b"
    using committed_tx_found [OF assms(1,2,5,9,8,11-14)] by blast
  have i: "unat (of_nat i :: u64) = i" using assms(7,8) by (simp add: unat_of_nat)
  have "length (tx_hash ?k (txs b ! i)) \<le> 32" by (simp add: tx_hash_def)
  note l = this
  obtain e where e: "getFromChainDB ops w' (''/tx/'' @ hex (tx_hash ?k (txs b ! i))) = Some e"
      "fromPbString (info_codec (rpc_codecs env)) (TxOnBlkInfo_fromPb (TxOnBlkInfo_ctor 0 0)) e = Some (TxOnBlkInfo_ctor (number b) (of_nat i))"
    using tx unfolding assms(4) tx_key_of_def hashToString_def bind_eq_Some_conv by blast
  obtain e' where e': "getFromChainDB ops w' (blk_key_of (number b)) = Some e'"
      "fromPbString (exec_codec (rpc_codecs env)) (ExecBlk_fromPb0 (rpc_keccak env) (ExecBlk_default 0 (replicate 32 0))) e' = Some b"
    using blk unfolding assms(3,4) bind_eq_Some_conv by blast
  have f: "find_on_Blk env (getFromChainDB ops w') h = Inr (b, TxOnBlkInfo_ctor (number b) (of_nat i))"
    unfolding assms(16) by (rule find_committed [OF e l assms(10) e'])
  have r: "get_receipt env (getFromChainDB ops w') h = Inr (True, json_serialize (rpc_json env) j)"
    "get_tx env (getFromChainDB ops w') h = Inr (True, json_serialize (rpc_json env) (Tx_toJson ?k (txs b ! i)))"
    using assms(3,6,8,15) f by (simp_all add: get_receipt_def get_tx_def TxOnBlkInfo_ctor_def vector_at_def i)
  have pl: "plain_text ''hash''" "plain_text h" "CHR ''?'' \<notin> set ''/get_receipt''" "CHR ''?'' \<notin> set ''/get_tx''"
    unfolding assms(16) by (rule hex_plain | code_simp)+
  have "handle_request (Rpc_ctor env q srv) (get_request ''/get_receipt'' ''hash'' h) a p s = Val (ok_response (json_serialize (rpc_json env) j), s) \<and>
    handle_request (Rpc_ctor env q srv) (get_request ''/get_tx'' ''hash'' h) a p s =
        Val (ok_response (json_serialize (rpc_json env) (Tx_toJson ?k (txs b ! i))), s)"
    if "rpc_wrld q s = getFromChainDB ops w'" for q :: "'s Rpc" and srv s
  proof -
    have "handle_get_receipt env (rpc_wrld q s) (Some [(''hash'', h)]) = Inr (True, json_serialize (rpc_json env) j)"
      "handle_get_tx env (rpc_wrld q s) (Some [(''hash'', h)]) = Inr (True, json_serialize (rpc_json env) (Tx_toJson ?k (txs b ! i)))"
      using that r by (simp_all add: handle_get_receipt_def handle_get_tx_def)
    then show ?thesis
      by (intro conjI handle_get_request [OF Rpc_routes(1) pl(3,1,2)] handle_get_request [OF Rpc_routes(2) pl(4,1,2)])
  qed
  then show ?thesis using w' by blast
qed

definition demo_rpc_env :: rpc_env where
  "demo_rpc_env = \<lparr>rpc_keccak = ethash_keccak256, rpc_json = \<lparr>json_parse = (\<lambda>s. None), json_serialize = (\<lambda>j. ''{}'')\<rparr>, rpc_codecs = demo_codecs,
     rpc_txs_codec = \<lparr>SerializeTxs = (\<lambda>ts. []), ParseTxs = (\<lambda>s. (False, []))\<rparr>, rpc_replies = (\<lambda>rs. []),
     rpc_clock = (\<lambda>i. 0), rpc_read_file = (\<lambda>p. None)\<rparr>"

definition demo_rpc :: "InRamWorldStorage Rpc" where
  "demo_rpc = \<lparr>rpc_addTxs = (\<lambda>ts s. (True, s)), rpc_pool_info = (\<lambda>s. []), rpc_wrld = InRam_getFromChainDB, rpc_verifier = None\<rparr>"

theorem client_gets_receipt_witness:
  "\<exists>w' j. commitBlk (InRam_ops (demo_codec (Acn_toPb Acn_default))) demo_codecs ethash_keccak256 InRam_empty demo_exec_blk = Inr (True, w') \<and>
     TxReceipt_toJson (rpc_json demo_rpc_env) (TxReceipt_ctor [7] Evm) = Inr j \<and>
     handle_request (Rpc_ctor demo_rpc_env demo_rpc WeakHttpServerBase_empty)
       (get_request ''/get_receipt'' ''hash'' (hex (tx_hash ethash_keccak256 (demo_tx 1)))) ''a'' 1 w' =
     Val (ok_response (json_serialize (rpc_json demo_rpc_env) j), w')"
proof -
  have ok: "InRam_ok InRam_empty" by (simp add: InRam_ok_def InRam_empty_def)
  have wf: "\<And>t. t \<in> set (txs demo_exec_blk) \<Longrightarrow> wf_tx t \<and> from_matches_key ethash_keccak256 t"
    by (simp add: demo_exec_blk_def)
  obtain j where j: "TxReceipt_toJson (rpc_json demo_rpc_env) (txReceipts demo_exec_blk ! 0) = Inr j"
    by (simp add: demo_exec_blk_def TxReceipt_toJson_def TxReceipt_ctor_def TxReceipt_default_def)
  let ?ops = "InRam_ops (demo_codec (Acn_toPb Acn_default))"
  have "\<exists>w'. commitBlk ?ops demo_codecs ethash_keccak256 InRam_empty demo_exec_blk = Inr (True, w') \<and>
    (\<forall>r srv s. rpc_wrld r s = getFromChainDB ?ops w' \<longrightarrow>
      handle_request (Rpc_ctor demo_rpc_env r srv) (get_request ''/get_receipt'' ''hash'' (hex (tx_hash ethash_keccak256 (txs demo_exec_blk ! 0)))) ''a'' 1 s =
        Val (ok_response (json_serialize (rpc_json demo_rpc_env) j), s) \<and>
      handle_request (Rpc_ctor demo_rpc_env r srv) (get_request ''/get_tx'' ''hash'' (hex (tx_hash ethash_keccak256 (txs demo_exec_blk ! 0)))) ''a'' 1 s =
        Val (ok_response (json_serialize (rpc_json demo_rpc_env) (Tx_toJson ethash_keccak256 (txs demo_exec_blk ! 0))), s))"
    by (rule client_gets_receipt [OF inram_total.reliable_world_axioms ok _ _ _ _ _ _ _ _ _ _ wf _ j refl])
      (simp_all add: demo_rpc_env_def demo_exec_blk_def demo_codecs_def wf_hash_def)
  moreover have "rpc_wrld demo_rpc w' = getFromChainDB ?ops w'" for w' by (simp add: demo_rpc_def InRam_ops_def)
  moreover have "txs demo_exec_blk ! 0 = demo_tx 1" "txReceipts demo_exec_blk ! 0 = TxReceipt_ctor [7] Evm" by (simp_all add: demo_exec_blk_def)
  ultimately show ?thesis using j by metis
qed

section \<open>The latest blocks\<close>

lemma latest_blks_stored:
  assumes "\<And>n. n \<in> set ns \<Longrightarrow> get_Blk_from_chain env get n = (Some (B n), ''OK'') \<and> ExecBlk_toJson (rpc_keccak env) (rpc_json env) (B n) = Inr (J n)"
  shows "latest_blks env get ns = Inr (Inr (map J ns))"
  using assms by (induction ns) auto

lemma decimal_plain: "plain_text (decimal n)"
proof -
  have "c \<notin> {CHR ''?'', CHR ''='', CHR ''&''}" if "c \<in> set (decimal n)" for c
  proof -
    have "48 \<le> (of_char c :: nat) \<and> (of_char c :: nat) \<le> 57" using decimal_digits [OF that] by (auto simp: is_digit_def)
    then show ?thesis by (auto simp: of_char_def)
  qed
  then show ?thesis by (auto simp: plain_text_def)
qed

lemma parse_positive_decimal: "n < 2 ^ 31 \<Longrightarrow> parse_positive_int (decimal n) = (Some (int n), [])"
  by (simp add: parse_positive_int_def lexical_cast_int_decimal)

text \<open>
  A client that asks for the latest \<open>N\<close> blocks gets exactly the last \<open>min N (M + 1)\<close> blocks of a chain
  whose newest block has number \<open>M\<close>, newest first, each as it is stored, for every positive \<open>N\<close> that fits an \<open>int\<close>.
\<close>

theorem latest_blocks_served:
  assumes "get ''/other/blk_number'' = Some (decimal M)" "M + 1 < 2 ^ 31" "0 < N" "N < 2 ^ 31" "rpc_wrld r s = get"
    and "\<forall>n \<le> M. \<exists>e. get (''/blk/'' @ decimal n) = Some e \<and> fromPbString (exec_codec (rpc_codecs env))
        (ExecBlk_fromPb0 (rpc_keccak env) (ExecBlk_default 0 (replicate 32 0))) e = Some (B n)"
    and "\<forall>n \<le> M. ExecBlk_toJson (rpc_keccak env) (rpc_json env) (B n) = Inr (J n)"
  shows "handle_request (Rpc_ctor env r srv) (get_request ''/get_latest_Blk'' ''n'' (decimal N)) a p s =
    Val (ok_response (json_serialize (rpc_json env) (JArr (map (\<lambda>i. J (M - i)) [0..<min N (M + 1)]))), s)"
proof -
  let ?m = "min N (M + 1)"
  have blk: "get_Blk_from_chain env get (int n) = (Some (B n), ''OK'')" if "n \<le> M" for n
    using assms(6) that by (fastforce simp: get_Blk_from_chain_def int_text_def)
  have ns: "map (\<lambda>i. int M - int i) [0..<?m] = map int (map (\<lambda>i. M - i) [0..<?m])" by (auto simp: of_nat_diff)
  have "latest_blks env get (map (\<lambda>i. int M - int i) [0..<?m]) =
      Inr (Inr (map (J \<circ> nat) (map int (map (\<lambda>i. M - i) [0..<?m]))))"
    unfolding ns
  proof (rule latest_blks_stored [where B = "B \<circ> nat"])
    fix n assume "n \<in> set (map int (map (\<lambda>i. M - i) [0..<?m]))"
    then obtain k i where "n = int k" "k = M - i" unfolding set_map by blast
    then have "n = int k" "k \<le> M" by simp_all
    then show "get_Blk_from_chain env get n = (Some ((B \<circ> nat) n), ''OK'') \<and>
        ExecBlk_toJson (rpc_keccak env) (rpc_json env) ((B \<circ> nat) n) = Inr ((J \<circ> nat) n)"
      using blk assms(7) by simp
  qed
  moreover have "(if int M + 1 < int N then int M + 1 else int N) = int ?m" by (auto simp: min_def)
  moreover have "parse_positive_int (decimal M) = (Some (int M), [])" using assms(2) by (intro parse_positive_decimal) simp
  ultimately have "get_latest_Blk env get (int N) = Inr (True, json_serialize (rpc_json env) (JArr (map (\<lambda>i. J (M - i)) [0..<?m])))"
    using assms(1-3) by (simp add: get_latest_Blk_def o_def)
  then have "handle_get_latest_Blk env (rpc_wrld r s) (Some [(''n'', decimal N)]) =
      Inr (True, json_serialize (rpc_json env) (JArr (map (\<lambda>i. J (M - i)) [0..<?m])))"
    using parse_positive_decimal [OF assms(4)] by (simp add: handle_get_latest_Blk_def assms(5))
  moreover have "CHR ''?'' \<notin> set ''/get_latest_Blk''" "plain_text ''n''" by code_simp+
  ultimately show ?thesis by (intro handle_get_request [OF Rpc_routes(3) _ _ decimal_plain])
qed

theorem latest_blocks_served_witness:
  "\<exists>j. handle_request (Rpc_ctor demo_rpc_env demo_rpc WeakHttpServerBase_empty) (get_request ''/get_latest_Blk'' ''n'' (decimal 5)) ''a'' 1
     \<lparr>stateDB = [], chainDB = [(''/blk/0'', toPbString (exec_codec demo_codecs) ExecBlk_toPb0 demo_exec_blk), (''/other/blk_number'', ''0'')]\<rparr> =
     Val (ok_response (json_serialize (rpc_json demo_rpc_env) (JArr [j])),
       \<lparr>stateDB = [], chainDB = [(''/blk/0'', toPbString (exec_codec demo_codecs) ExecBlk_toPb0 demo_exec_blk), (''/other/blk_number'', ''0'')]\<rparr>)"
  (is "\<exists>j. handle_request _ _ _ _ ?w = _")
proof -
  have d0: "decimal 0 = ''0''" by code_simp
  have "ExecBlk_fromPb0 ethash_keccak256 (ExecBlk_default 0 (replicate 32 0)) (ExecBlk_toPb0 demo_exec_blk) = Inr demo_exec_blk"
    by (rule ExecBlk_pb_roundtrip) (auto simp: demo_exec_blk_def wf_hash_def)
  then have e: "fromPbString (exec_codec (rpc_codecs demo_rpc_env)) (ExecBlk_fromPb0 (rpc_keccak demo_rpc_env) (ExecBlk_default 0 (replicate 32 0)))
      (toPbString (exec_codec demo_codecs) ExecBlk_toPb0 demo_exec_blk) = Some demo_exec_blk"
    by (simp add: demo_rpc_env_def demo_codecs_def fromPbString_toPbString)
  obtain j where j: "ExecBlk_toJson (rpc_keccak demo_rpc_env) (rpc_json demo_rpc_env) demo_exec_blk = Inr j"
    by (simp add: ExecBlk_toJson_def Blk_toJson_def demo_exec_blk_def TxReceipt_toJson_def TxReceipt_ctor_def TxReceipt_default_def)
  have g: "rpc_wrld demo_rpc ?w = InRam_getFromChainDB ?w" by (simp add: demo_rpc_def)
  have "handle_request (Rpc_ctor demo_rpc_env demo_rpc WeakHttpServerBase_empty) (get_request ''/get_latest_Blk'' ''n'' (decimal 5)) ''a'' 1 ?w =
    Val (ok_response (json_serialize (rpc_json demo_rpc_env) (JArr (map (\<lambda>i. j) [0..<min 5 (0 + 1)]))), ?w)"
    by (rule latest_blocks_served [OF _ _ _ _ g, where B = "\<lambda>_. demo_exec_blk"])
      (use e j in \<open>auto simp: d0 InRam_getFromChainDB_def\<close>)
  then show ?thesis by auto
qed

end
