(* ===== verification/Startup.thy ===== *)
theory Startup
  imports Rpc CnsssExe
begin

text \<open>
  Start-up of a node (\<^verbatim>\<open>include/init/init.hpp\<close>, \<^verbatim>\<open>include/init/options.hpp\<close>): what is read back from the chain
  database, which parts are made from which options, and with which values. Threads, sockets and the wait for
  the end are left out; \<open>init\<close> is the plan of the node it would run. Files are the parameter \<open>read_file\<close>, and
  the parsed command line is the record \<open>Options\<close>, without the fields that only choose the log level, the Unix socket and
  the configuration file.
\<close>

section \<open>Helpers\<close>

record PeerCryptoInfo =
  pci_addr_port :: string
  pci_pk_pem :: string
  pci_cert :: string

definition PeerCryptoInfo_endpoint :: "PeerCryptoInfo \<Rightarrow> string" where
  "PeerCryptoInfo_endpoint i = serialize_3_strs (pci_pk_pem i) (pci_addr_port i) (pci_cert i)"

definition read_or_throw :: "(string \<Rightarrow> string option) \<Rightarrow> string \<Rightarrow> string result" where
  "read_or_throw read_file p = or_error (read_file p)"

fun load_peers :: "(string \<Rightarrow> string option) \<Rightarrow> (string \<times> PeerCryptoInfo) list \<Rightarrow> (string \<times> json) list
    \<Rightarrow> (string \<times> PeerCryptoInfo) list result" where
  "load_peers rf o1 [] = Inr o1"
| "load_peers rf o1 ((k, v) # kvs) =
     bind_result (bind_result (json_at v ''pk_pem_file'') as_string) (\<lambda>pk_file.
     bind_result (bind_result (json_at v ''cert_file'') as_string) (\<lambda>cert_file.
     bind_result (read_or_throw rf pk_file) (\<lambda>pk.
     bind_result (read_or_throw rf cert_file) (\<lambda>cert.
       load_peers rf (AList.update k \<lparr>pci_addr_port = k, pci_pk_pem = pk, pci_cert = cert\<rparr> o1) kvs))))"

text \<open>
  A text that starts with \<open>@\<close> names a file whose content is parsed in turn, so a file may name a file; \<open>n\<close> bounds how
  many are followed, and \<open>None\<close> means that more would be.
\<close>

primrec parse_peer_json :: "nat \<Rightarrow> (string \<Rightarrow> string option) \<Rightarrow> json_text \<Rightarrow> string \<Rightarrow> string list
    \<Rightarrow> (string \<times> PeerCryptoInfo) list result option" where
  "parse_peer_json 0 rf jt s required_keys = None"
| "parse_peer_json (Suc n) rf jt s required_keys =
     map_option (\<lambda>r. bind_result r (\<lambda>o1.
         if list_all (\<lambda>k. map_of o1 k \<noteq> None) required_keys then Inr o1 else Inl Runtime_error))
       (if s \<noteq> [] \<and> hd s = CHR ''@''
        then (case read_or_throw rf (tl s) of
                Inl e \<Rightarrow> Some (Inl e)
              | Inr content \<Rightarrow> parse_peer_json n rf jt content [])
        else Some (case json_parse jt s of
               None \<Rightarrow> Inl Assertion_error
             | Some jv \<Rightarrow> bind_result (as_object jv) (load_peers rf [])))"

definition turn_addr_port_into_raw_endpoint :: "string \<Rightarrow> string" where
  "turn_addr_port_into_raw_endpoint addr_port = serialize_3_strs ''<mock-pk>'' addr_port []"

text \<open>\<open>ranges::unique\<close> on the sorted vector leaves its end in place.\<close>

definition is_unique :: "string list \<Rightarrow> bool" where
  "is_unique v \<longleftrightarrow> length (remdups_adj (sort v)) = length v"

definition prepare_endpoint_list :: "string list \<Rightarrow> string list result" where
  "prepare_endpoint_list v =
     (if \<not> is_unique v then Inl Runtime_error else Inr (map turn_addr_port_into_raw_endpoint v))"

definition get_hash_from_key :: "string \<Rightarrow> hash256 result" where
  "get_hash_from_key k =
     (if length k \<noteq> 4 + 32 * 2 then Inl Runtime_error else or_error (from_hex_T 32 (drop 4 k)))"

text \<open>The number and hash of the latest block and the hashes of all transactions.\<close>

definition get_required_things_from_ChainDB ::
  "rpc_env \<Rightarrow> (string \<Rightarrow> string option) \<Rightarrow> (string \<Rightarrow> string list) \<Rightarrow> string \<Rightarrow> (int \<times> hash256 \<times> hash256 set) result" where
  "get_required_things_from_ChainDB env get keys ns =
     (case parse_positive_int ns of
        (None, _) \<Rightarrow> Inl Runtime_error
      | (Some n, _) \<Rightarrow>
          (case get_Blk_from_chain env get n of
             (None, _) \<Rightarrow> Inl Runtime_error
           | (Some b, _) \<Rightarrow>
               bind_result (map_result get_hash_from_key (keys ''/tx/'')) (\<lambda>hs.
                 Inr (n, Blk_hash (rpc_keccak env) b, set hs))))"

definition figure_out_tx_mode :: "(string \<Rightarrow> string option) \<Rightarrow> string \<Rightarrow> (bool \<times> string) result" where
  "figure_out_tx_mode rf s =
     (if s = [] \<or> s = ''debug'' then Inr (False, [])
      else if s = ''public'' then Inr (True, [])
      else if take 3 s = ''ca@'' then bind_result (read_or_throw rf (drop 3 s)) (\<lambda>pem. Inr (True, pem))
      else Inl Runtime_error)"

section \<open>Options\<close>

record Options =
  consensus_name :: string
  opt_port :: int
  data_dir :: string
  txs_per_blk :: int
  my_address :: string
  Solo_node_to_connect :: string
  without_sealer :: string
  mock_exe :: string
  light_exe :: string
  without_crypto :: string
  ca_public_key_pem_file :: string
  node_secret_key_pem_file :: string
  node_cert_file :: string
  peer_json_file_or_string :: string
  Bft_node_list :: "string list"
  Raft_node_list :: "string list"
  tx_mode_serious :: string

text \<open>The values of the fields without any argument.\<close>

definition Options_default :: Options where
  "Options_default = \<lparr>consensus_name = ''Solo'', opt_port = 7777, data_dir = [], txs_per_blk = 10, my_address = ''localhost'',
     Solo_node_to_connect = [], without_sealer = ''yes'', mock_exe = ''no'', light_exe = ''yes'', without_crypto = ''yes'',
     ca_public_key_pem_file = [], node_secret_key_pem_file = [], node_cert_file = [], peer_json_file_or_string = [],
     Bft_node_list = [], Raft_node_list = [], tx_mode_serious = []\<rparr>"

definition split_space_vector_maybe :: "string list \<Rightarrow> string list" where
  "split_space_vector_maybe s = (if length s \<noteq> 1 then s else split_any '' '' (hd s))"

text \<open>The constructor, after the values of command line and configuration file are stored; the node list of Raft is not split.\<close>

definition Options_finish :: "Options \<Rightarrow> Options" where
  "Options_finish o1 = o1\<lparr>Bft_node_list := split_space_vector_maybe (Bft_node_list o1)\<rparr>"

section \<open>The plan of a node\<close>

datatype exe_plan = Mock_exe string | Light_exe u64 hash256 int | Normal_exe
datatype net_plan = Http_net | Udp_net "16 word"
datatype cnsss_plan = Solo_cnsss string bool | Rbft_cnsss "string list" | Raft_cnsss "string list"
datatype ('sk, 'pk) mgr_plan = Naive_mgr NaiveMsgMgr | Ssl_mgr "('sk, 'pk) SslMsgMgr"

record ('sk, 'pk) node_plan =
  np_verifier :: "'pk TxVerifier option"
  np_port :: "16 word"
  np_pool :: Mempool
  np_exe :: exe_plan
  np_mgr :: "('sk, 'pk) mgr_plan"
  np_net :: net_plan
  np_cnsss :: cnsss_plan
  np_sealer :: "Sealer option"

text \<open>How start-up ends without a node: an exception, or \<open>std::exit(EXIT_FAILURE)\<close>.\<close>

datatype stop = Thrown exn | Exited | Files_without_end

definition lift_stop :: "'a result \<Rightarrow> stop + 'a" where
  "lift_stop r = (case r of Inl e \<Rightarrow> Inl (Thrown e) | Inr x \<Rightarrow> Inr x)"

definition bind_stop :: "stop + 'a \<Rightarrow> ('a \<Rightarrow> stop + 'b) \<Rightarrow> stop + 'b" where
  "bind_stop r f = (case r of Inl e \<Rightarrow> Inl e | Inr x \<Rightarrow> f x)"

definition numeric_cast_uint16 :: "int \<Rightarrow> 16 word result" where
  "numeric_cast_uint16 i = (if 0 \<le> i \<and> i < 2 ^ 16 then Inr (word_of_int i) else Inl Bad_cast)"

text \<open>\<open>None\<close> on a fresh start.\<close>

definition restore :: "rpc_env \<Rightarrow> (string \<Rightarrow> string option) \<Rightarrow> (string \<Rightarrow> string list)
    \<Rightarrow> (int \<times> hash256 \<times> hash256 set) option result" where
  "restore env get keys =
     (case get ''/other/blk_number'' of
        None \<Rightarrow> Inr None
      | Some ns \<Rightarrow> bind_result (get_required_things_from_ChainDB env get keys ns) (\<lambda>r. Inr (Some r)))"

definition plan_exe :: "Options \<Rightarrow> 16 word \<Rightarrow> (int \<times> hash256 \<times> hash256 set) option \<Rightarrow> exe_plan" where
  "plan_exe o1 port r =
     (if mock_exe o1 = ''yes'' then Mock_exe (combine_addr_port (my_address o1) port)
      else if light_exe o1 = ''yes'' then
        (case r of
           None \<Rightarrow> Light_exe 0 (replicate 32 0) 2
         | Some (n, h, _) \<Rightarrow> Light_exe (word_of_int n + 1) h 2)
      else Normal_exe)"

definition plan_mgr :: "('sk, 'pk) openssl \<Rightarrow> (string \<Rightarrow> string option) \<Rightarrow> Options \<Rightarrow> 16 word \<Rightarrow> ('sk, 'pk) mgr_plan result" where
  "plan_mgr ssl rf o1 port =
     (let my_addr_port = combine_addr_port (my_address o1) port in
      if without_crypto o1 = ''yes'' then Inr (Naive_mgr \<lparr>ep = turn_addr_port_into_raw_endpoint my_addr_port\<rparr>)
      else
        bind_result (read_or_throw rf (node_secret_key_pem_file o1)) (\<lambda>my_sk_pem.
        bind_result (read_or_throw rf (ca_public_key_pem_file o1)) (\<lambda>ca_pk_pem.
        bind_result (read_or_throw rf (node_cert_file o1)) (\<lambda>my_cert.
        bind_result (SslMsgMgr_ctor ssl my_sk_pem my_addr_port my_cert ca_pk_pem) (\<lambda>m. Inr (Ssl_mgr m))))))"

definition plan_net :: "Options \<Rightarrow> 16 word \<Rightarrow> stop + net_plan" where
  "plan_net o1 port =
     (if consensus_name o1 = ''Solo'' \<or> consensus_name o1 = ''Solo-static'' then Inr Http_net
      else if consensus_name o1 = ''Rbft'' \<or> consensus_name o1 = ''Raft'' then Inr (Udp_net port)
      else Inl Exited)"

definition peers_of :: "nat \<Rightarrow> (string \<Rightarrow> string option) \<Rightarrow> json_text \<Rightarrow> Options \<Rightarrow> string list
    \<Rightarrow> stop + (string \<times> PeerCryptoInfo) list" where
  "peers_of n rf jt o1 required =
     (case parse_peer_json n rf jt (peer_json_file_or_string o1) required of
        None \<Rightarrow> Inl Files_without_end | Some r \<Rightarrow> lift_stop r)"

definition peer_endpoint :: "(string \<times> PeerCryptoInfo) list \<Rightarrow> string \<Rightarrow> string result" where
  "peer_endpoint peers k =
     (case map_of peers k of None \<Rightarrow> Inl Out_of_range | Some i \<Rightarrow> Inr (PeerCryptoInfo_endpoint i))"

definition plan_cnsss :: "nat \<Rightarrow> (string \<Rightarrow> string option) \<Rightarrow> json_text \<Rightarrow> Options \<Rightarrow> stop + cnsss_plan" where
  "plan_cnsss n rf jt o1 =
     (if consensus_name o1 = ''Solo'' \<or> consensus_name o1 = ''Solo-static'' then
        bind_stop
          (if Solo_node_to_connect o1 = [] then Inr []
           else if without_crypto o1 = ''yes'' then Inr (turn_addr_port_into_raw_endpoint (Solo_node_to_connect o1))
           else bind_stop (peers_of n rf jt o1 [Solo_node_to_connect o1])
                  (\<lambda>peers. lift_stop (peer_endpoint peers (Solo_node_to_connect o1))))
          (\<lambda>e. Inr (Solo_cnsss e (consensus_name o1 = ''Solo'')))
      else if consensus_name o1 = ''Rbft'' then
        (if Bft_node_list o1 = [] then Inl (Thrown Assertion_error)
         else bind_stop
           (if without_crypto o1 = ''yes'' then lift_stop (prepare_endpoint_list (Bft_node_list o1))
            else if \<not> is_unique (Bft_node_list o1) then Inl (Thrown Assertion_error)
            else bind_stop (peers_of n rf jt o1 (Bft_node_list o1))
                   (\<lambda>peers. lift_stop (map_result (peer_endpoint peers) (Bft_node_list o1))))
           (\<lambda>es. Inr (Rbft_cnsss es)))
      else if consensus_name o1 = ''Raft'' then
        bind_stop (lift_stop (prepare_endpoint_list (Raft_node_list o1))) (\<lambda>es. Inr (Raft_cnsss es))
      else Inl Exited)"

definition plan_sealer :: "Options \<Rightarrow> (int \<times> hash256 \<times> hash256 set) option \<Rightarrow> Sealer option" where
  "plan_sealer o1 r =
     (if without_sealer o1 = ''yes'' then None
      else Some (case r of
             None \<Rightarrow> Sealer_ctor 0 (replicate 32 0) 2
           | Some (n, h, _) \<Rightarrow> Sealer_ctor (word_of_int n + 1) h 2))"

definition init :: "('sk, 'pk) openssl \<Rightarrow> rpc_env \<Rightarrow> nat \<Rightarrow> (string \<Rightarrow> string option) \<Rightarrow> (string \<Rightarrow> string list) \<Rightarrow> Options
    \<Rightarrow> stop + ('sk, 'pk) node_plan" where
  "init ssl env n get keys o1 =
     bind_stop (lift_stop (figure_out_tx_mode (rpc_read_file env) (tx_mode_serious o1))) (\<lambda>(serious, ca_pk_pem).
     bind_stop (if serious then lift_stop (bind_result (TxVerifier_ctor ssl ca_pk_pem) (\<lambda>v. Inr (Some v))) else Inr None) (\<lambda>v.
     bind_stop (lift_stop (numeric_cast_uint16 (opt_port o1))) (\<lambda>port.
     bind_stop (lift_stop (restore env get keys)) (\<lambda>r.
     let txhs = (case r of None \<Rightarrow> {} | Some (_, _, hs) \<Rightarrow> hs);
         pool = Mempool_ctor txhs (txs_per_blk o1);
         exe = plan_exe o1 port r
     in bind_stop (lift_stop (plan_mgr ssl (rpc_read_file env) o1 port)) (\<lambda>mgr.
        bind_stop (plan_net o1 port) (\<lambda>net.
        bind_stop (plan_cnsss n (rpc_read_file env) (rpc_json env) o1) (\<lambda>cnsss.
          Inr \<lparr>np_verifier = v, np_port = port, np_pool = pool, np_exe = exe, np_mgr = mgr, np_net = net,
                np_cnsss = cnsss, np_sealer = plan_sealer o1 r\<rparr>)))))))"

section \<open>After a restart\<close>

text \<open>The blocks a node committed while it ran.\<close>

fun commit_all :: "'w world_ops \<Rightarrow> chain_codecs \<Rightarrow> keccak256 \<Rightarrow> ExecBlk list \<Rightarrow> 'w \<Rightarrow> 'w result" where
  "commit_all ops cs keccak [] w = Inr w"
| "commit_all ops cs keccak (b # bs) w =
     bind_result (commitBlk ops cs keccak w b) (\<lambda>(ok, w'). if ok then commit_all ops cs keccak bs w' else Inl Runtime_error)"

lemma tx_prefix [simp]: "prefix ''/tx/'' (tx_key_of keccak t)" "\<not> prefix ''/tx/'' (blk_key_of n)" "\<not> prefix ''/tx/'' ''/other/blk_number''"
  by (simp_all add: tx_key_of_def blk_key_of_def)

lemma hash_from_tx_key: "length (tx_hash keccak t) = 32 \<Longrightarrow> get_hash_from_key (tx_key_of keccak t) = Inr (tx_hash keccak t)"
proof -
  assume l: "length (tx_hash keccak t) = 32"
  have "length (hex bs) = 2 * length bs" for bs by (induction bs) (simp_all add: hex_def hex_byte_def)
  then show ?thesis using l by (simp add: get_hash_from_key_def tx_key_of_def hashToString_def from_hex_T_hex)
qed

context reliable_world
begin

lemma commit_all_effect:
  assumes "invar w" "\<And>b. b \<in> set bs \<Longrightarrow> length (stateChanges b) = length (txs b)"
  shows "\<exists>w'. commit_all ops cs keccak bs w = Inr w' \<and> invar w' \<and>
    {k \<in> dom (chain w'). prefix ''/tx/'' k} = {k \<in> dom (chain w). prefix ''/tx/'' k} \<union> tx_key_of keccak ` (\<Union>b \<in> set bs. set (txs b)) \<and>
    (bs \<noteq> [] \<longrightarrow> chain w' ''/other/blk_number'' = Some (decimal (unat (number (last bs)))) \<and>
       chain w' (blk_key_of (number (last bs))) = Some (toPbString (exec_codec cs) ExecBlk_toPb0 (last bs)))"
  using assms
proof (induction bs arbitrary: w)
  case (Cons b bs)
  let ?vs = "map (\<lambda>i. toPbString (info_codec cs) TxOnBlkInfo_toPb (TxOnBlkInfo_ctor (number b) (of_nat i))) [0..<length (txs b)]"
  obtain w1 where w1: "commitBlk ops cs keccak w b = Inr (True, w1)" "invar w1"
    and ch: "chain w1 = (chain w)(map (tx_key_of keccak) (txs b) [\<mapsto>] ?vs,
      blk_key_of (number b) \<mapsto> toPbString (exec_codec cs) ExecBlk_toPb0 b, ''/other/blk_number'' \<mapsto> decimal (unat (number b)))"
    using commit_effect [OF Cons.prems(1), of b cs keccak] Cons.prems(2) by auto
  have "dom ((chain w)(map (tx_key_of keccak) (txs b) [\<mapsto>] ?vs)) = dom (chain w) \<union> tx_key_of keccak ` set (txs b)"
    by (simp add: Un_commute)
  then have "{k \<in> dom (chain w1). prefix ''/tx/'' k} = {k \<in> dom (chain w). prefix ''/tx/'' k} \<union> tx_key_of keccak ` set (txs b)"
    unfolding ch by auto
  moreover obtain w' where "commit_all ops cs keccak bs w1 = Inr w'" "invar w'"
    "{k \<in> dom (chain w'). prefix ''/tx/'' k} = {k \<in> dom (chain w1). prefix ''/tx/'' k} \<union> tx_key_of keccak ` (\<Union>b \<in> set bs. set (txs b))"
    "bs \<noteq> [] \<longrightarrow> chain w' ''/other/blk_number'' = Some (decimal (unat (number (last bs)))) \<and>
       chain w' (blk_key_of (number (last bs))) = Some (toPbString (exec_codec cs) ExecBlk_toPb0 (last bs))"
    using Cons.IH [OF w1(2)] Cons.prems(2) by auto
  ultimately show ?case
    using w1 ch by (cases bs) (auto simp: image_Un)
qed simp

lemma restore_committed:
  assumes "invar w" "chain w = Map.empty" "bs \<noteq> []" "\<And>b. b \<in> set bs \<Longrightarrow> length (stateChanges b) = length (txs b)"
    and "rpc_codecs env = cs" "\<And>bs. length (rpc_keccak env bs) = 32" "unat (number (last bs)) < 2 ^ 31"
    and "fromPbString (exec_codec cs) (ExecBlk_fromPb0 (rpc_keccak env) (ExecBlk_default 0 (replicate 32 0)))
          (toPbString (exec_codec cs) ExecBlk_toPb0 (last bs)) = Some (last bs)"
  shows "\<exists>w'. commit_all ops cs (rpc_keccak env) bs w = Inr w' \<and>
    restore env (getFromChainDB ops w') (getKeysStartWith ops w') =
      Inr (Some (int (unat (number (last bs))), Blk_hash (rpc_keccak env) (last bs), tx_hash (rpc_keccak env) ` (\<Union>b \<in> set bs. set (txs b))))"
proof -
  let ?k = "rpc_keccak env" and ?T = "\<Union>b \<in> set bs. set (txs b)"
  obtain w' where w': "commit_all ops cs ?k bs w = Inr w'" "invar w'"
    "{k \<in> dom (chain w'). prefix ''/tx/'' k} = tx_key_of ?k ` ?T"
    "chain w' ''/other/blk_number'' = Some (decimal (unat (number (last bs))))"
    "chain w' (blk_key_of (number (last bs))) = Some (toPbString (exec_codec cs) ExecBlk_toPb0 (last bs))"
    using commit_all_effect [OF assms(1), of bs cs ?k] assms(2-4) by auto
  have keys: "set (getKeysStartWith ops w' ''/tx/'') = tx_key_of ?k ` ?T" using keys_eq [OF w'(2)] w'(3) by simp
  have hs: "\<exists>hs. map_result get_hash_from_key ks = Inr hs \<and> set hs = tx_hash ?k ` {t \<in> ?T. tx_key_of ?k t \<in> set ks}"
    if "set ks \<subseteq> tx_key_of ?k ` ?T" for ks
    using that
  proof (induction ks)
    case (Cons a ks)
    then obtain t where t: "t \<in> ?T" "a = tx_key_of ?k t" by auto
    have "get_hash_from_key a = Inr (tx_hash ?k t)" unfolding t(2) using assms(6) by (intro hash_from_tx_key) (simp add: tx_hash_def)
    with Cons t show ?case by (auto 0 3)
  qed simp
  have "{t \<in> ?T. tx_key_of ?k t \<in> set (getKeysStartWith ops w' ''/tx/'')} = ?T" unfolding keys by blast
  with hs [of "getKeysStartWith ops w' ''/tx/''"] keys
  have "\<exists>hs. map_result get_hash_from_key (getKeysStartWith ops w' ''/tx/'') = Inr hs \<and> set hs = tx_hash ?k ` ?T" by simp
  moreover have "get_Blk_from_chain env (getFromChainDB ops w') (int (unat (number (last bs)))) = (Some (last bs), ''OK'')"
    unfolding get_Blk_from_chain_def blk_key_int using assms(5,8) w'(5) by (simp add: get_eq [OF w'(2)])
  ultimately have "restore env (getFromChainDB ops w') (getKeysStartWith ops w') =
      Inr (Some (int (unat (number (last bs))), Blk_hash ?k (last bs), tx_hash ?k ` ?T))"
    using w'(4) parse_positive_decimal [OF assms(7)]
    by (auto simp: restore_def get_eq [OF w'(2)] get_required_things_from_ChainDB_def)
  then show ?thesis using w'(1) by blast
qed

end

lemma init_parts:
  assumes "init ssl env n get keys o1 = Inr p" "restore env get keys = Inr r"
  shows "np_pool p = Mempool_ctor (case r of None \<Rightarrow> {} | Some (_, _, hs) \<Rightarrow> hs) (txs_per_blk o1)"
    "np_sealer p = plan_sealer o1 r" "np_exe p = plan_exe o1 (np_port p) r"
  using assms by (auto simp: init_def bind_stop_def lift_stop_def Let_def split: sum.splits)

text \<open>Which stored chain is restored does not decide whether start-up fails, nor how.\<close>

lemma init_fails:
  assumes "restore env get keys = Inr r" "restore env get' keys' = Inr r'"
  shows "init ssl env n get keys o1 = Inl e \<longleftrightarrow> init ssl env n get' keys' o1 = Inl e"
  using assms by (auto simp: init_def bind_stop_def lift_stop_def Let_def split: sum.splits)

text \<open>
  C6. A restart resumes where the node stopped. After any run that committed blocks to a fresh storage that does not
  fail, \<open>init\<close> on that storage fails only as it would fail on an empty one, and otherwise restores the number and the hash of the last block and exactly the hashes of all
  committed transactions: the pool remembers those and holds nothing else, and the sealer, or the light
  executor, goes on with the next number on top of the last block.
\<close>

theorem restart_resumes_chain:
  assumes "reliable_world ops invar chain state c" "invar w" "chain w = Map.empty" "bs \<noteq> []"
    and "\<And>b. b \<in> set bs \<Longrightarrow> length (stateChanges b) = length (txs b)" "rpc_codecs env = cs" "rpc_keccak env = ethash_keccak256"
    and "unat (number (last bs)) < 2 ^ 31" "wf_hash (parentHash (last bs))"
    and "\<And>t. t \<in> set (txs (last bs)) \<Longrightarrow> wf_tx t \<and> from_matches_key ethash_keccak256 t"
    and "ParseFromString (exec_codec cs) (SerializeAsString (exec_codec cs) (ExecBlk_toPb0 (last bs))) = Some (ExecBlk_toPb0 (last bs))"
  shows "\<exists>w'. commit_all ops cs ethash_keccak256 bs w = Inr w' \<and>
    (\<forall>e. init ssl env n (getFromChainDB ops w') (getKeysStartWith ops w') o1 = Inl e \<longleftrightarrow> init ssl env n (\<lambda>_. None) (\<lambda>_. []) o1 = Inl e) \<and>
    (\<forall>p. init ssl env n (getFromChainDB ops w') (getKeysStartWith ops w') o1 = Inr p \<longrightarrow>
      np_pool p = Mempool_ctor (tx_hash ethash_keccak256 ` (\<Union>b \<in> set bs. set (txs b))) (txs_per_blk o1) \<and>
      (\<forall>s. np_sealer p = Some s \<longrightarrow> sl_next_blk_number s = number (last bs) + 1 \<and> sl_previous_hash s = Blk_hash ethash_keccak256 (last bs)) \<and>
      (\<forall>m h opt. np_exe p = Light_exe m h opt \<longrightarrow> m = number (last bs) + 1 \<and> h = Blk_hash ethash_keccak256 (last bs)))"
proof -
  have "fromPbString (exec_codec cs) (ExecBlk_fromPb0 (rpc_keccak env) (ExecBlk_default 0 (replicate 32 0)))
      (toPbString (exec_codec cs) ExecBlk_toPb0 (last bs)) = Some (last bs)"
    using assms(7,11) ExecBlk_pb_roundtrip [OF assms(10,9)] by (simp add: fromPbString_toPbString)
  from reliable_world.restore_committed [OF assms(1-6) _ assms(8) this]
  obtain w' where w': "commit_all ops cs ethash_keccak256 bs w = Inr w'"
    "restore env (getFromChainDB ops w') (getKeysStartWith ops w') =
      Inr (Some (int (unat (number (last bs))), Blk_hash ethash_keccak256 (last bs), tx_hash ethash_keccak256 ` (\<Union>b \<in> set bs. set (txs b))))"
    unfolding assms(7) by auto
  note parts = init_parts [OF _ w'(2)]
  show ?thesis
  proof (intro exI [of _ w'] conjI w'(1) allI impI)
    fix e show "init ssl env n (getFromChainDB ops w') (getKeysStartWith ops w') o1 = Inl e \<longleftrightarrow> init ssl env n (\<lambda>_. None) (\<lambda>_. []) o1 = Inl e"
      by (rule init_fails [OF w'(2)]) (simp add: restore_def)
  next
    fix p assume p: "init ssl env n (getFromChainDB ops w') (getKeysStartWith ops w') o1 = Inr p"
    show "np_pool p = Mempool_ctor (tx_hash ethash_keccak256 ` (\<Union>b \<in> set bs. set (txs b))) (txs_per_blk o1)"
      using parts(1) [OF p] by simp
    show "sl_next_blk_number s = number (last bs) + 1" "sl_previous_hash s = Blk_hash ethash_keccak256 (last bs)" if "np_sealer p = Some s" for s
      using parts(2) [OF p] that by (auto simp: plan_sealer_def Sealer_ctor_def split: if_splits)
    show "m = number (last bs) + 1" "h = Blk_hash ethash_keccak256 (last bs)" if "np_exe p = Light_exe m h opt" for m h opt
      using parts(3) [OF p] that by (auto simp: plan_exe_def split: if_splits)
  qed
qed

lemma demo_parts:
  "rpc_codecs demo_rpc_env = demo_codecs" "rpc_keccak demo_rpc_env = ethash_keccak256" "number demo_exec_blk = 1"
  "length (stateChanges demo_exec_blk) = length (txs demo_exec_blk)" "wf_hash (parentHash demo_exec_blk)"
  "t \<in> set (txs demo_exec_blk) \<Longrightarrow> wf_tx t \<and> from_matches_key ethash_keccak256 t"
  "ParseFromString (exec_codec demo_codecs) (SerializeAsString (exec_codec demo_codecs) (ExecBlk_toPb0 demo_exec_blk)) = Some (ExecBlk_toPb0 demo_exec_blk)"
  by (auto simp: demo_rpc_env_def demo_exec_blk_def wf_hash_def demo_codecs_def)

theorem restart_resumes_chain_witness:
  "\<exists>w' p. commit_all (InRam_ops (demo_codec (Acn_toPb Acn_default))) demo_codecs ethash_keccak256 [demo_exec_blk] InRam_empty = Inr w' \<and>
     init demo_ssl demo_rpc_env 0 (InRam_getFromChainDB w') (InRam_getKeysStartWith w') Options_default = Inr p \<and>
     pool_hs (np_pool p) = {tx_hash ethash_keccak256 (demo_tx 1)}"
proof -
  let ?ops = "InRam_ops (demo_codec (Acn_toPb Acn_default))"
  have ok: "InRam_ok InRam_empty" by (simp add: InRam_ok_def InRam_empty_def)
  obtain w' where w': "commit_all ?ops demo_codecs ethash_keccak256 [demo_exec_blk] InRam_empty = Inr w'"
    and f: "\<forall>e. init demo_ssl demo_rpc_env 0 (getFromChainDB ?ops w') (getKeysStartWith ?ops w') Options_default = Inl e \<longleftrightarrow>
      init demo_ssl demo_rpc_env 0 (\<lambda>_. None) (\<lambda>_. []) Options_default = Inl e"
    and p: "\<forall>p. init demo_ssl demo_rpc_env 0 (getFromChainDB ?ops w') (getKeysStartWith ?ops w') Options_default = Inr p \<longrightarrow>
      np_pool p = Mempool_ctor (tx_hash ethash_keccak256 ` (\<Union>b \<in> set [demo_exec_blk]. set (txs b))) (txs_per_blk Options_default)"
    using restart_resumes_chain [OF inram_total.reliable_world_axioms [of "demo_codec (Acn_toPb Acn_default)"] ok, where bs = "[demo_exec_blk]" and env = demo_rpc_env
        and cs = demo_codecs and ssl = demo_ssl and n = 0 and ?o1.0 = Options_default]
    by (auto simp: InRam_empty_def demo_parts)
  have "\<exists>p. init demo_ssl demo_rpc_env 0 (\<lambda>_. None) (\<lambda>_. []) Options_default = Inr p"
    by (simp add: init_def Options_default_def figure_out_tx_mode_def lift_stop_def bind_stop_def numeric_cast_uint16_def
        restore_def plan_mgr_def plan_net_def plan_cnsss_def Let_def)
  then have "\<exists>p. init demo_ssl demo_rpc_env 0 (getFromChainDB ?ops w') (getKeysStartWith ?ops w') Options_default = Inr p"
    using f by (metis Inl_Inr_False sum.exhaust)
  with p w' show ?thesis by (force simp: InRam_ops_def demo_exec_blk_def Mempool_ctor_def)
qed

end
