(* ===== verification/Toolbox.thy ===== *)
theory Toolbox
  imports BlkExec JsonData
begin

text \<open>
  The command line tool box (\<^verbatim>\<open>include/toolbox.hpp\<close>): making key pairs, signing and verifying files, and signing
  transactions before they are sent to a node. The file system is a map from paths to contents; a file is in
  it when it exists and can be opened.
\<close>

section \<open>Files\<close>

type_synonym files = "string \<Rightarrow> string option"

definition read_file :: "files \<Rightarrow> string \<Rightarrow> string result" where
  "read_file fs p = (case fs p of None \<Rightarrow> Inl Runtime_error | Some s \<Rightarrow> Inr s)"

text \<open>A stream that does not open swallows what is written to it.\<close>

definition writeToFile :: "(string \<Rightarrow> bool) \<Rightarrow> files \<Rightarrow> string \<Rightarrow> string \<Rightarrow> files" where
  "writeToFile writable fs p content = (if writable p then fs(p \<mapsto> content) else fs)"

text \<open>The OpenSSL functions that only the tool box needs.\<close>

record ('sk, 'pk) openssl_tool = "('sk, 'pk) openssl" +
  PEM_write_PrivateKey :: "'sk \<Rightarrow> string"

definition load_secret_from_file :: "('sk, 'pk, 'z) openssl_scheme \<Rightarrow> files \<Rightarrow> string \<Rightarrow> 'sk option" where
  "load_secret_from_file ssl fs p = Option.bind (fs p) (PEM_read_PrivateKey ssl)"

definition load_public_from_file :: "('sk, 'pk, 'z) openssl_scheme \<Rightarrow> files \<Rightarrow> string \<Rightarrow> 'pk option" where
  "load_public_from_file ssl fs p = Option.bind (fs p) (PEM_read_PUBKEY ssl)"

definition assert_some :: "'a option \<Rightarrow> 'a result" where
  "assert_some r = (case r of None \<Rightarrow> Inl Assertion_error | Some x \<Rightarrow> Inr x)"

section \<open>The commands\<close>

text \<open>\<open>sk\<close> is the key that OpenSSL generates.\<close>

definition new_key_pair :: "('sk, 'pk) openssl_tool \<Rightarrow> (string \<Rightarrow> bool) \<Rightarrow> files \<Rightarrow> 'sk \<Rightarrow> string \<Rightarrow> string \<Rightarrow> files" where
  "new_key_pair ssl writable fs sk out_pk out_sk =
     writeToFile writable (writeToFile writable fs out_sk (PEM_write_PrivateKey ssl sk)) out_pk (PEM_write_PUBKEY ssl sk)"

definition do_sign :: "('sk, 'pk, 'z) openssl_scheme \<Rightarrow> (string \<Rightarrow> bool) \<Rightarrow> files \<Rightarrow> string \<Rightarrow> string \<Rightarrow> string \<Rightarrow> files result" where
  "do_sign ssl writable fs sk_p msg_p out_sig_p =
     bind_result (assert_some (load_secret_from_file ssl fs sk_p)) (\<lambda>sk.
     bind_result (read_file fs msg_p) (\<lambda>msg.
       Inr (writeToFile writable fs out_sig_p (EVP_DigestSign ssl sk msg))))"

definition do_verify :: "('sk, 'pk, 'z) openssl_scheme \<Rightarrow> files \<Rightarrow> string \<Rightarrow> string \<Rightarrow> string \<Rightarrow> bool result" where
  "do_verify ssl fs pk_p msg_p sig_p =
     bind_result (assert_some (load_public_from_file ssl fs pk_p)) (\<lambda>pk.
     bind_result (read_file fs msg_p) (\<lambda>msg.
     bind_result (read_file fs sig_p) (\<lambda>sig.
       Inr (EVP_DigestVerify ssl pk msg sig))))"

definition tx_sign_this :: "('sk, 'pk, 'z) openssl_scheme \<Rightarrow> files \<Rightarrow> (string \<times> json) list \<Rightarrow> 'sk \<Rightarrow> string option
    \<Rightarrow> (string \<times> json) list result" where
  "tx_sign_this ssl fs o1 sk crt_sig_p =
     (if map_of o1 ''data'' = None \<or> map_of o1 ''nonce'' = None then Inl Assertion_error
      else
        bind_result (bind_result (jat o1 ''data'') as_string) (\<lambda>data.
        bind_result (bind_result (jat o1 ''nonce'') to_u64) (\<lambda>nonce.
        bind_result (if map_of o1 ''type'' \<noteq> None then bind_result (jat o1 ''type'') as_string else Inr []) (\<lambda>type.
        bind_result
          (if type = [] \<or> type = ''evm'' then bind_result (or_error (from_hex data)) (\<lambda>ob. Inr (toString ob)) else Inr data)
          (\<lambda>data'.
        let sig = EVP_DigestSign ssl sk (getToSignPayload0 nonce data');
            o2 = AList.update ''signature'' (JStr (hex (bytesFromString sig))) o1;
            o3 = AList.update ''pk_pem'' (JStr (PEM_write_PUBKEY ssl sk)) o2
        in case crt_sig_p of
             None \<Rightarrow> Inr o3
           | Some p \<Rightarrow> bind_result (read_file fs p) (\<lambda>crt_sig.
               Inr (AList.update ''pk_crt'' (JStr (hex (bytesFromString crt_sig))) o3)))))))"

definition assert_object :: "json \<Rightarrow> (string \<times> json) list result" where
  "assert_object v = (case v of JObj kvs \<Rightarrow> Inr kvs | _ \<Rightarrow> Inl Assertion_error)"

definition sign_value :: "('sk, 'pk, 'z) openssl_scheme \<Rightarrow> files \<Rightarrow> 'sk \<Rightarrow> string option \<Rightarrow> json \<Rightarrow> json result" where
  "sign_value ssl fs sk crt_sig_p v =
     bind_result (assert_object v) (\<lambda>o1. bind_result (tx_sign_this ssl fs o1 sk crt_sig_p) (\<lambda>o2. Inr (JObj o2)))"

definition tx_sign :: "('sk, 'pk, 'z) openssl_scheme \<Rightarrow> json_text \<Rightarrow> (string \<Rightarrow> bool) \<Rightarrow> files \<Rightarrow> string \<Rightarrow> string \<Rightarrow> string option
    \<Rightarrow> string \<Rightarrow> files result" where
  "tx_sign ssl jt writable fs tx_p sk_p crt_sig_p out_tx_p =
     bind_result (assert_some (load_secret_from_file ssl fs sk_p)) (\<lambda>sk.
     bind_result (read_file fs tx_p) (\<lambda>tx_json_s.
     bind_result (or_error (json_parse jt tx_json_s)) (\<lambda>jv.
     bind_result
       (case jv of
          JArr a \<Rightarrow> bind_result (map_result (sign_value ssl fs sk crt_sig_p) a) (\<lambda>oa. Inr (JArr oa))
        | _ \<Rightarrow> sign_value ssl fs sk crt_sig_p jv)
       (\<lambda>signed. Inr (writeToFile writable fs out_tx_p (json_serialize jt signed))))))"

text \<open>
  \<open>run\<close>: the arguments after \<^verbatim>\<open>toolbox\<close>, to the exit status and the files left behind. Without arguments \<open>argv[0]\<close>
  is the null pointer.
\<close>

definition exit_of :: "files \<Rightarrow> files result \<Rightarrow> int \<times> files" where
  "exit_of fs r = (case r of Inl e \<Rightarrow> (1, fs) | Inr fs' \<Rightarrow> (0, fs'))"

definition run_toolbox :: "('sk, 'pk) openssl_tool \<Rightarrow> json_text \<Rightarrow> (string \<Rightarrow> bool) \<Rightarrow> 'sk \<Rightarrow> files \<Rightarrow> string list \<Rightarrow> (int \<times> files) access" where
  "run_toolbox ssl jt writable new_sk fs argv =
     (case argv of
        [] \<Rightarrow> UB
      | cmd # args \<Rightarrow> Val (
          if cmd = ''--help'' \<or> cmd = ''-h'' then (0, fs)
          else if cmd = ''new-keypair'' then
            (case args of
               [out_pk, out_sk] \<Rightarrow> (0, new_key_pair ssl writable fs new_sk out_pk out_sk)
             | _ \<Rightarrow> (1, fs))
          else if cmd = ''do-sign'' \<or> cmd = ''sign-pk'' then
            (case args of
               [sk_p, msg_p, out_sig_p] \<Rightarrow> exit_of fs (do_sign ssl writable fs sk_p msg_p out_sig_p)
             | _ \<Rightarrow> (1, fs))
          else if cmd = ''do-verify'' then
            (case args of
               [pk_p, msg_p, sig_p] \<Rightarrow> (case do_verify ssl fs pk_p msg_p sig_p of Inr True \<Rightarrow> (0, fs) | _ \<Rightarrow> (1, fs))
             | _ \<Rightarrow> (1, fs))
          else if cmd = ''tx-sign'' then
            (case args of
               [tx_p, sk_p, crt_p, out_p] \<Rightarrow> exit_of fs (tx_sign ssl jt writable fs tx_p sk_p (Some crt_p) out_p)
             | _ \<Rightarrow> (1, fs))
          else if cmd = ''tx-sign-no-crt'' then
            (case args of
               [tx_p, sk_p, out_p] \<Rightarrow> exit_of fs (tx_sign ssl jt writable fs tx_p sk_p None out_p)
             | _ \<Rightarrow> (1, fs))
          else (0, fs)))"

section \<open>Signed transactions reach the node\<close>

text \<open>
  What a user may hand to \<open>tx-sign\<close>: an object that is a transaction once a public key and a time are added, and
  whose data does not name a file (the node would read that file, after the signature was made).
\<close>

definition signable :: "keccak256 \<Rightarrow> json \<Rightarrow> bool" where
  "signable keccak v =
     (case v of
        JObj o1 \<Rightarrow>
          (case Tx_fromJson0 keccak Tx_default (emplace ''timestamp'' (JInt 0) (AList.update ''pk_pem'' (JStr []) o1)) of
             Inl e \<Rightarrow> False | Inr t \<Rightarrow> (case map_of o1 ''data'' of Some (JStr s) \<Rightarrow> take 1 s \<noteq> ''@'' | _ \<Rightarrow> True))
      | _ \<Rightarrow> False)"

lemma as_string_norm [simp]: "as_string (json_norm v) = as_string v"
  by (cases v) auto

lemma to_u64_json_norm [simp]: "to_u64 (json_norm v) = to_u64 v"
proof (cases v)
  case (JUint u)
  then show ?thesis using to_u64_norm [of u] by (simp del: json_norm.simps)
qed simp_all

lemma map_of_norm [simp]: "map_of (map (\<lambda>(k, v). (k, json_norm v)) o1) k = map_option json_norm (map_of o1 k)"
  by (induction o1) auto

lemma map_of_emplace [simp]: "map_of (emplace k v o1) k' = (if map_of o1 k = None \<and> k' = k then Some v else map_of o1 k')"
  by (auto simp: emplace_def map_add_def split: option.splits)

text \<open>How the accessors see a changed object.\<close>

lemma toolbox_jat_simps [simp]:
  "jat (AList.update k v o1) k' = (if k' = k then Inr v else jat o1 k')"
  "k' \<noteq> k \<Longrightarrow> jat (emplace k v o1) k' = jat o1 k'"
  "bind_result (jat (map (\<lambda>(k, v). (k, json_norm v)) o1) k') as_string = bind_result (jat o1 k') as_string"
  "bind_result (jat (map (\<lambda>(k, v). (k, json_norm v)) o1) k') to_u64 = bind_result (jat o1 k') to_u64"
  "bind_result (jat (emplace k' v o1) k') to_u64 = (if map_of o1 k' = None then to_u64 v else bind_result (jat o1 k') to_u64)"
  by (simp_all add: jat_def update_conv' split: option.splits)

lemma opt_hex_field_simps [simp]:
  "opt_hex_field (AList.update k v o1) k' d = (if k' = k then bind_result (as_string v) (\<lambda>s. or_error (from_hex s)) else opt_hex_field o1 k' d)"
  "k' \<noteq> k \<Longrightarrow> opt_hex_field (emplace k v o1) k' d = opt_hex_field o1 k' d"
  "opt_hex_field (map (\<lambda>(k, v). (k, json_norm v)) o1) k' d = opt_hex_field o1 k' d"
  by (simp_all add: opt_hex_field_def update_conv')

lemma resolve_no_file: "(\<And>p. map_of o1 ''data'' \<noteq> Some (JStr (CHR ''@'' # p))) \<Longrightarrow> resolve_data rf o1 = Some o1"
  by (auto simp: resolve_data_def split: option.splits json.splits list.splits)

lemma bind_result_InrE: "bind_result r f = Inr y \<Longrightarrow> (\<And>x. r = Inr x \<Longrightarrow> f x = Inr y \<Longrightarrow> P) \<Longrightarrow> P"
  by (cases r) auto

text \<open>What a signable object holds.\<close>

lemma signable_fields:
  assumes "signable keccak (JObj o1)"
  obtains sig crt n tp s d a where "opt_hex_field o1 ''signature'' [] = Inr sig" "opt_hex_field o1 ''pk_crt'' [] = Inr crt"
    "bind_result (jat o1 ''nonce'') to_u64 = Inr n"
    "map_of o1 ''timestamp'' \<noteq> None \<longrightarrow> (\<exists>ts. bind_result (jat o1 ''timestamp'') to_u64 = Inr ts)"
    "(if map_of o1 ''type'' \<noteq> None then bind_result (bind_result (jat o1 ''type'') as_string) typeFromString else Inr Evm) = Inr tp"
    "bind_result (jat o1 ''data'') as_string = Inr s" "(if tp = Evm then or_error (from_hex s) else Inr (bytesFromString s)) = Inr d"
    "bind_result (bind_result (jat o1 ''to'') as_string) (\<lambda>s2. or_error (from_hex_T 20 s2)) = Inr a" "take 1 s \<noteq> ''@''"
proof -
  obtain t where "Tx_fromJson0 keccak Tx_default (emplace ''timestamp'' (JInt 0) (AList.update ''pk_pem'' (JStr []) o1)) = Inr t"
    using assms by (auto simp: signable_def split: sum.splits)
  then have ex: "\<exists>sig crt n ts tp s d a. opt_hex_field o1 ''signature'' [] = Inr sig \<and> opt_hex_field o1 ''pk_crt'' [] = Inr crt \<and>
    bind_result (jat o1 ''nonce'') to_u64 = Inr n \<and>
    (if map_of o1 ''timestamp'' = None then to_u64 (JInt 0) else bind_result (jat o1 ''timestamp'') to_u64) = Inr ts \<and>
    (if map_of o1 ''type'' \<noteq> None then bind_result (bind_result (jat o1 ''type'') as_string) typeFromString else Inr Evm) = Inr tp \<and>
    bind_result (jat o1 ''data'') as_string = Inr s \<and> (if tp = Evm then or_error (from_hex s) else Inr (bytesFromString s)) = Inr d \<and>
    bind_result (bind_result (jat o1 ''to'') as_string) (\<lambda>s2. or_error (from_hex_T 20 s2)) = Inr a"
    by (simp add: Tx_fromJson0_def update_conv' Let_def Tx_default_def del: to_u64.simps cong: if_cong split del: if_split)
      (elim bind_result_InrE; simp del: to_u64.simps cong: if_cong split del: if_split)
  have "take 1 s \<noteq> ''@''" if "bind_result (jat o1 ''data'') as_string = Inr s" for s
    using that assms by (auto simp: signable_def jat_def bind_result_Inr_iff split: sum.splits option.splits json.splits elim!: as_string.elims)
  with ex show thesis
    by (elim exE conjE) (rule that; (assumption | simp split: if_splits))
qed

lemma sign_then_parse:
  fixes ssl :: "('sk, 'pk, 'z) openssl_scheme"
  assumes "signable keccak (JObj o1)" "crt_p = Some p \<Longrightarrow> fs p = Some c" "0 \<le> i" "crt_p = None \<or> crt_p = Some p"
  defines "N \<equiv> \<lambda>o2. emplace ''timestamp'' (JInt i) (map (\<lambda>(k, v). (k, json_norm v)) o2)"
  shows "\<exists>o2 t. tx_sign_this ssl fs o1 sk crt_p = Inr o2 \<and> resolve_data rf (N o2) = Some (N o2) \<and>
    Tx_fromJson0 keccak Tx_default (N o2) = Inr t \<and>
    tx_pk_pem t = PEM_write_PUBKEY ssl sk \<and> tx_from t = getFromFromPkPem keccak t \<and>
    toString (tx_signature t) = EVP_DigestSign ssl sk (getToSignPayload t) \<and> (crt_p = Some p \<longrightarrow> toString (tx_pk_crt t) = c)"
proof -
  obtain sig crt n tp s d a where f: "opt_hex_field o1 ''signature'' [] = Inr sig" "opt_hex_field o1 ''pk_crt'' [] = Inr crt"
    "bind_result (jat o1 ''nonce'') to_u64 = Inr n"
    "map_of o1 ''timestamp'' \<noteq> None \<longrightarrow> (\<exists>ts. bind_result (jat o1 ''timestamp'') to_u64 = Inr ts)"
    "(if map_of o1 ''type'' \<noteq> None then bind_result (bind_result (jat o1 ''type'') as_string) typeFromString else Inr Evm) = Inr tp"
    "bind_result (jat o1 ''data'') as_string = Inr s" "(if tp = Evm then or_error (from_hex s) else Inr (bytesFromString s)) = Inr d"
    "bind_result (bind_result (jat o1 ''to'') as_string) (\<lambda>s2. or_error (from_hex_T 20 s2)) = Inr a" "take 1 s \<noteq> ''@''"
    using signable_fields [OF assms(1)] by blast
  let ?sig = "EVP_DigestSign ssl sk (getToSignPayload0 n (toString d))"
  let ?o3 = "AList.update ''pk_pem'' (JStr (PEM_write_PUBKEY ssl sk)) (AList.update ''signature'' (JStr (hex (bytesFromString ?sig))) o1)"
  let ?o4 = "case crt_p of None \<Rightarrow> ?o3 | Some p \<Rightarrow> AList.update ''pk_crt'' (JStr (hex (bytesFromString c))) ?o3"
  have data: "map_of o1 ''data'' \<noteq> None" "map_of o1 ''nonce'' \<noteq> None" using f(3,6) by (auto simp: jat_def split: option.splits)
  obtain type where type: "(if map_of o1 ''type'' \<noteq> None then bind_result (jat o1 ''type'') as_string else Inr []) = Inr type"
    "(if type = [] \<or> type = ''evm'' then bind_result (or_error (from_hex s)) (\<lambda>ob. Inr (toString ob)) else Inr s) = Inr (toString d)"
    using f(5,7) by (cases "map_of o1 ''type'' = None") (auto simp: typeFromString_def elim!: bind_result_InrE split: if_splits)
  have "tx_sign_this ssl fs o1 sk crt_p = Inr ?o4"
    unfolding tx_sign_this_def using f(3,6) type assms(2,4) data by (auto simp: read_file_def Let_def split del: if_split)
  moreover have g: "map_of (N ?o4) ''pk_pem'' \<noteq> None" "bind_result (jat (N ?o4) ''pk_pem'') as_string = Inr (PEM_write_PUBKEY ssl sk)"
    "opt_hex_field (N ?o4) ''signature'' [] = Inr (bytesFromString ?sig)"
    "opt_hex_field (N ?o4) ''pk_crt'' [] = Inr (case crt_p of None \<Rightarrow> crt | Some _ \<Rightarrow> bytesFromString c)"
    "bind_result (jat (N ?o4) ''nonce'') to_u64 = Inr n" "\<exists>ts. bind_result (jat (N ?o4) ''timestamp'') to_u64 = Inr ts"
    "(if map_of (N ?o4) ''type'' \<noteq> None then bind_result (bind_result (jat (N ?o4) ''type'') as_string) typeFromString else Inr Evm) = Inr tp"
    "bind_result (jat (N ?o4) ''data'') as_string = Inr s"
    "bind_result (bind_result (jat (N ?o4) ''to'') as_string) (\<lambda>s2. or_error (from_hex_T 20 s2)) = Inr a"
    using f assms(3) by (simp_all add: N_def update_conv' cong: if_cong split: option.split split del: if_split) auto
  then obtain ts where "bind_result (jat (N ?o4) ''timestamp'') to_u64 = Inr ts" by blast
  with g f(7) have "Tx_fromJson0 keccak Tx_default (N ?o4) = Inr (Tx_default\<lparr>tx_pk_pem := PEM_write_PUBKEY ssl sk,
      tx_from := getFromFromPkPem keccak (Tx_default\<lparr>tx_pk_pem := PEM_write_PUBKEY ssl sk\<rparr>), tx_signature := bytesFromString ?sig,
      tx_pk_crt := (case crt_p of None \<Rightarrow> crt | Some _ \<Rightarrow> bytesFromString c), tx_nonce := n, tx_timestamp := ts, tx_type := tp, tx_data := d, tx_to := a\<rparr>)"
    unfolding Tx_fromJson0_def by (auto simp: Let_def Tx_default_def elim!: bind_result_InrE split del: if_split)
  then have "\<exists>t. Tx_fromJson0 keccak Tx_default (N ?o4) = Inr t \<and>
    tx_pk_pem t = PEM_write_PUBKEY ssl sk \<and> tx_from t = getFromFromPkPem keccak t \<and>
    toString (tx_signature t) = EVP_DigestSign ssl sk (getToSignPayload t) \<and> (crt_p = Some p \<longrightarrow> toString (tx_pk_crt t) = c)"
    by (auto simp: getFromFromPkPem_def getToSignPayload_def)
  moreover have "resolve_data rf (N ?o4) = Some (N ?o4)"
    using g(8) f(9) by (intro resolve_no_file) (auto simp: jat_def)
  ultimately show ?thesis by blast
qed

lemma signed_list_accepted:
  fixes ssl :: "('sk, 'pk, 'z) openssl_scheme"
  assumes "\<forall>v \<in> set os. signable keccak v" "\<And>i. 0 \<le> sint (clock i)" "fs p = Some c"
    and ok: "\<And>t. tx_pk_pem t = PEM_write_PUBKEY ssl sk \<Longrightarrow> tx_from t = getFromFromPkPem keccak t \<Longrightarrow>
      toString (tx_signature t) = EVP_DigestSign ssl sk (getToSignPayload t) \<Longrightarrow> toString (tx_pk_crt t) = c \<Longrightarrow> verify t"
  shows "\<exists>oa rs ts. map_result (sign_value ssl fs sk (Some p)) os = Inr oa \<and>
    parse_txs_json_loop keccak clock rf (Some verify) j (map json_norm oa) = Inr (Some (rs, ts)) \<and>
    length ts = length os \<and> (\<forall>t \<in> set ts. tx_pk_pem t = PEM_write_PUBKEY ssl sk)"
  using assms(1)
proof (induction os arbitrary: j)
  case (Cons v os)
  then obtain o1 where v: "v = JObj o1" "signable keccak (JObj o1)" by (auto simp: signable_def split: json.splits)
  from sign_then_parse [OF v(2), of "Some p" p fs c "sint (clock j)" ssl sk rf] assms(2,3)
  obtain o2 t where o2: "tx_sign_this ssl fs o1 sk (Some p) = Inr o2"
    "resolve_data rf (emplace ''timestamp'' (JInt (sint (clock j))) (map (\<lambda>(k, v). (k, json_norm v)) o2)) =
       Some (emplace ''timestamp'' (JInt (sint (clock j))) (map (\<lambda>(k, v). (k, json_norm v)) o2))"
    "Tx_fromJson0 keccak Tx_default (emplace ''timestamp'' (JInt (sint (clock j))) (map (\<lambda>(k, v). (k, json_norm v)) o2)) = Inr t"
    "tx_pk_pem t = PEM_write_PUBKEY ssl sk" "tx_from t = getFromFromPkPem keccak t"
    "toString (tx_signature t) = EVP_DigestSign ssl sk (getToSignPayload t)" "toString (tx_pk_crt t) = c"
    by blast
  have "sign_value ssl fs sk (Some p) v = Inr (JObj o2)" using o2(1) by (simp add: v(1) sign_value_def assert_object_def)
  moreover have "verify t" by (rule ok) (use o2 in simp_all)
  moreover
  obtain oa rs ts where "map_result (sign_value ssl fs sk (Some p)) os = Inr oa"
    "parse_txs_json_loop keccak clock rf (Some verify) (Suc j) (map json_norm oa) = Inr (Some (rs, ts))"
    "length ts = length os" "\<forall>t \<in> set ts. tx_pk_pem t = PEM_write_PUBKEY ssl sk"
    using Cons.IH [of "Suc j"] Cons.prems by auto
  ultimately show ?case using o2(2-4) by simp
qed simp

lemma truncate_simps [simp]:
  "PEM_read_PUBKEY (openssl.truncate r) = PEM_read_PUBKEY r" "PEM_read_PrivateKey (openssl.truncate r) = PEM_read_PrivateKey r"
  "PEM_write_PUBKEY (openssl.truncate r) = PEM_write_PUBKEY r" "EVP_DigestSign (openssl.truncate r) = EVP_DigestSign r"
  "EVP_DigestVerify (openssl.truncate r) = EVP_DigestVerify r"
  by (simp_all add: openssl.truncate_def)

lemma tool_sign_verifies:
  "openssl_keypair (openssl.truncate tool) ca \<Longrightarrow>
     TxVerifier_ctor (openssl.truncate tool) (PEM_write_PUBKEY tool ca) = Inr v \<Longrightarrow>
     openssl_keypair (openssl.truncate tool) sk \<Longrightarrow> tx_pk_pem t = PEM_write_PUBKEY tool sk \<Longrightarrow> tx_from t = getFromFromPkPem keccak t \<Longrightarrow>
     toString (tx_signature t) = EVP_DigestSign tool sk (getToSignPayload t) \<Longrightarrow>
     toString (tx_pk_crt t) = EVP_DigestSign tool ca (PEM_write_PUBKEY tool sk) \<Longrightarrow>
     TxVerifier_verify (openssl.truncate tool) keccak v t"
  by (auto simp: TxVerifier_verify_def TxVerifier_ctor_def openssl_keypair_def do_verify_pem_def split: if_splits option.splits)


definition demo_tool :: "(unit, unit) openssl_tool" where
  "demo_tool = \<lparr>PEM_read_PUBKEY = (\<lambda>p. if p = ''K'' then Some () else None),
     PEM_read_PrivateKey = (\<lambda>p. if p = ''P'' then Some () else None), PEM_write_PUBKEY = (\<lambda>_. ''K''),
     EVP_DigestSign = (\<lambda>_ d. ''S''), EVP_DigestVerify = (\<lambda>_ d s. s = ''S''), PEM_write_PrivateKey = (\<lambda>_. ''P'')\<rparr>"

definition demo_unsigned :: "(string \<times> json) list" where
  "demo_unsigned = [(''data'', JStr ''ff''), (''nonce'', JInt 5), (''to'', JStr (hex (makeAddress 2)))]"

definition demo_signed :: "(string \<times> json) list" where
  "demo_signed = demo_unsigned @ [(''signature'', JStr (hex (bytesFromString ''S''))), (''pk_pem'', JStr ''K''), (''pk_crt'', JStr (hex (bytesFromString ''S'')))]"

definition demo_file_json :: json_text where
  "demo_file_json = \<lparr>json_parse = (\<lambda>s. Some (JArr [JObj (if s = ''in'' then demo_unsigned else demo_signed)])), json_serialize = (\<lambda>_. ''out'')\<rparr>"

lemma demo_tool_simps [simp]:
  "PEM_read_PUBKEY demo_tool = (\<lambda>p. if p = ''K'' then Some () else None)" "PEM_read_PrivateKey demo_tool = (\<lambda>p. if p = ''P'' then Some () else None)"
  "PEM_write_PUBKEY demo_tool = (\<lambda>_. ''K'')" "EVP_DigestSign demo_tool = (\<lambda>_ d. ''S'')" "EVP_DigestVerify demo_tool = (\<lambda>_ d s. s = ''S'')"
  "PEM_write_PrivateKey demo_tool = (\<lambda>_. ''P'')"
  by (simp_all add: demo_tool_def)


end
