(* ===== verification/Intx.thy ===== *)
theory Intx
  imports HexBytes "HOL-Library.Signed_Division"
begin

text \<open>
  The 256-bit integers of the virtual machine (\<^verbatim>\<open>pkgs/intx-0.10.0/include/intx/intx.hpp\<close>): the
  operations the interpreter uses that are more than one machine operation, each as the header
  computes it on the four 64-bit limbs, and the facts that they compute what they are named after.
  Addition, subtraction, multiplication and unsigned division are those of 256-bit words here; their
  loops over limbs are in \<open>IntxLimbs\<close> and \<open>IntxUdivrem\<close>, which show that they agree.
\<close>

type_synonym uint256 = "256 word"

section \<open>Limbs\<close>

text \<open>\<open>x[i]\<close>, least significant first.\<close>

definition limb :: "uint256 \<Rightarrow> nat \<Rightarrow> u64" where
  "limb x i = ucast (drop_bit (64 * i) x)"

definition of_limbs :: "u64 list \<Rightarrow> uint256" where
  "of_limbs ws = foldr (\<lambda>w acc. ucast w OR push_bit 64 acc) ws 0"

text \<open>\<open>static_cast<uint64_t>\<close> and \<open>static_cast<size_t>\<close>: the lowest limb.\<close>

definition low64 :: "uint256 \<Rightarrow> nat" where
  "low64 x = unat (limb x 0)"

text \<open>The halves \<open>uint128{x[0], x[1]}\<close> and \<open>uint128{x[2], x[3]}\<close>, and the way back.\<close>

definition half :: "uint256 \<Rightarrow> nat \<Rightarrow> 128 word" where
  "half x i = ucast (drop_bit (128 * i) x)"

definition of_halves :: "128 word \<Rightarrow> 128 word \<Rightarrow> uint256" where
  "of_halves lo hi = ucast lo OR push_bit 128 (ucast hi)"

section \<open>Operations\<close>

definition slt :: "uint256 \<Rightarrow> uint256 \<Rightarrow> bool" where
  "slt x y =
     (let x_neg = sint (limb x 3) < 0;
          y_neg = sint (limb y 3) < 0
      in if x_neg \<noteq> y_neg then x_neg else x < y)"

definition shl64 :: "uint256 \<Rightarrow> nat \<Rightarrow> uint256" where
  "shl64 x shift =
     (if shift \<ge> 256 then 0
      else
        (let xlo = half x 0 in
         if shift < 128 then
           (let lo = push_bit shift xlo;
                xhi = half x 1;
                rshift = 128 - shift;
                lo_overflow = drop_bit 1 (drop_bit (rshift - 1) xlo);
                hi = push_bit shift xhi OR lo_overflow
            in of_halves lo hi)
         else of_halves 0 (push_bit (shift - 128) xlo)))"

definition shr64 :: "uint256 \<Rightarrow> nat \<Rightarrow> uint256" where
  "shr64 x shift =
     (if shift \<ge> 256 then 0
      else
        (let xhi = half x 1 in
         if shift < 128 then
           (let hi = drop_bit shift xhi;
                xlo = half x 0;
                lshift = 128 - shift;
                hi_overflow = push_bit 1 (push_bit (lshift - 1) xhi);
                lo = drop_bit shift xlo OR hi_overflow
            in of_halves lo hi)
         else of_halves (drop_bit (shift - 128) xhi) 0))"

definition shl :: "uint256 \<Rightarrow> uint256 \<Rightarrow> uint256" where
  "shl x shift =
     (let high_words_fold = limb shift 1 OR limb shift 2 OR limb shift 3 in
      if high_words_fold \<noteq> 0 then 0 else shl64 x (low64 shift))"

definition shr :: "uint256 \<Rightarrow> uint256 \<Rightarrow> uint256" where
  "shr x shift =
     (let high_words_fold = limb shift 1 OR limb shift 2 OR limb shift 3 in
      if high_words_fold \<noteq> 0 then 0 else shr64 x (low64 shift))"

text \<open>The loop of \<open>exp\<close>; the exponent loses its lowest bit in every round.\<close>

function exp_loop :: "uint256 \<Rightarrow> uint256 \<Rightarrow> uint256 \<Rightarrow> uint256" where
  "exp_loop base exponent result =
     (if exponent = 0 then result
      else exp_loop (base * base) (drop_bit 1 exponent) (if exponent AND 1 \<noteq> 0 then result * base else result))"
  by pat_completeness auto

definition exp256 :: "uint256 \<Rightarrow> uint256 \<Rightarrow> uint256" where
  "exp256 base exponent = (if base = 2 then shl 1 exponent else exp_loop base exponent 1)"

definition count_significant_words :: "uint256 \<Rightarrow> nat" where
  "count_significant_words x =
     (if limb x 3 \<noteq> 0 then 4 else if limb x 2 \<noteq> 0 then 3 else if limb x 1 \<noteq> 0 then 2
      else if limb x 0 \<noteq> 0 then 1 else 0)"

text \<open>\<open>(64 - clz(x) + 7) / 8\<close>, where \<open>64 - clz(x)\<close> is the position after the highest set bit.\<close>

fun bit_length :: "nat \<Rightarrow> nat" where
  "bit_length n = (if n = 0 then 0 else Suc (bit_length (n div 2)))"

declare bit_length.simps [simp del]

definition count_significant_bytes64 :: "u64 \<Rightarrow> nat" where
  "count_significant_bytes64 x = (bit_length (unat x) + 7) div 8"

definition count_significant_bytes :: "uint256 \<Rightarrow> nat" where
  "count_significant_bytes x =
     (let w = count_significant_words x in
      if w \<noteq> 0 then count_significant_bytes64 (limb x (w - 1)) + (w - 1) * 8 else 0)"

definition sdivrem :: "uint256 \<Rightarrow> uint256 \<Rightarrow> uint256 \<times> uint256" where
  "sdivrem u v =
     (let sign_mask = push_bit 255 1;
          u_is_neg = (u AND sign_mask \<noteq> 0);
          v_is_neg = (v AND sign_mask \<noteq> 0);
          u_abs = (if u_is_neg then - u else u);
          v_abs = (if v_is_neg then - v else v);
          q_is_neg = (u_is_neg \<noteq> v_is_neg);
          quot = u_abs div v_abs;
          rm = u_abs mod v_abs
      in (if q_is_neg then - quot else quot, if u_is_neg then - rm else rm))"

definition subc :: "uint256 \<Rightarrow> uint256 \<Rightarrow> uint256 \<times> bool" where
  "subc x y = (x - y, x < y)"

definition addc :: "uint256 \<Rightarrow> uint256 \<Rightarrow> uint256 \<times> bool" where
  "addc x y = (x + y, x + y < x)"

definition addmod :: "uint256 \<Rightarrow> uint256 \<Rightarrow> uint256 \<Rightarrow> uint256" where
  "addmod x y m =
     (if limb m 3 \<noteq> 0 \<and> limb x 3 \<le> limb m 3 \<and> limb y 3 \<le> limb m 3 then
        (let (xd, xc) = subc x m; xn = (if \<not> xc then xd else x);
             (yd, yc) = subc y m; yn = (if \<not> yc then yd else y);
             (av, ac) = addc xn yn;
             (bv, bc) = subc av m
         in if ac \<or> \<not> bc then bv else av)
      else
        (let (s, c) = addc x y;
             n = (ucast s :: 320 word) OR push_bit 256 (if c then 1 else 0)
         in ucast (n mod ucast m)))"

definition mulmod :: "uint256 \<Rightarrow> uint256 \<Rightarrow> uint256 \<Rightarrow> uint256" where
  "mulmod x y m = ucast (((ucast x :: 512 word) * ucast y) mod ucast m)"

section \<open>Big-endian bytes\<close>

text \<open>\<open>be::load\<close> of at most 32 bytes, zero-extended on the left.\<close>

definition be_nat :: "bytes \<Rightarrow> nat" where
  "be_nat bs = foldl (\<lambda>acc b. acc * 256 + unat b) 0 bs"

definition be_load :: "bytes \<Rightarrow> uint256" where
  "be_load bs = word_of_nat (be_nat bs)"

text \<open>\<open>be::store\<close>: the four limbs, the highest first, each in big-endian order.\<close>

definition be_store256 :: "uint256 \<Rightarrow> bytes" where
  "be_store256 x = be_store (limb x 3) @ be_store (limb x 2) @ be_store (limb x 1) @ be_store (limb x 0)"

text \<open>\<open>be::trunc<evmc::address>\<close>.\<close>

definition trunc_address :: "uint256 \<Rightarrow> address" where
  "trunc_address x = drop 12 (be_store256 x)"

lemma unat_half: "unat (drop_bit 1 (e :: uint256)) = unat e div 2"
  by (subst unat_drop_bit_eq) (simp only: drop_bit_eq_div power_one_right)

termination exp_loop
proof (relation "measure (\<lambda>(b, e, r). unat e)")
  show "((base * base, drop_bit 1 exponent, if exponent AND 1 \<noteq> 0 then result * base else result), base, exponent, result)
     \<in> measure (\<lambda>(b, e, r). unat e)" if "exponent \<noteq> 0" for base exponent result :: uint256
  proof -
    have "0 < unat exponent" using that by (simp add: unat_gt_0)
    then have "unat (drop_bit 1 exponent) < unat exponent" unfolding unat_half by simp
    then show ?thesis by (simp only: in_measure case_prod_conv)
  qed
qed simp

declare exp_loop.simps [simp del]

section \<open>Bits of limbs and halves\<close>

named_theorems limb_bits \<open>bits of limbs and halves\<close>

lemma bit_limb [limb_bits]: "bit (limb x i) n \<longleftrightarrow> n < 64 \<and> bit x (64 * i + n)"
  by (auto simp: limb_def bit_simps)

lemma bit_half [limb_bits]: "bit (half x i) n \<longleftrightarrow> n < 128 \<and> bit x (128 * i + n)"
  by (auto simp: half_def bit_simps)

lemma bit_of_halves [limb_bits]:
  "bit (of_halves lo hi) n \<longleftrightarrow> n < 256 \<and> (if n < 128 then bit lo n else bit hi (n - 128))"
  by (auto simp: of_halves_def bit_simps dest: bit_imp_le_length)

lemma bit256_bound: "bit (x :: uint256) n \<Longrightarrow> n < 256"
  by (drule bit_imp_le_length) simp

lemma of_limbs_limb: "of_limbs [limb x 0, limb x 1, limb x 2, limb x 3] = x"
proof (rule bit_word_eqI)
  fix n assume "n < LENGTH(256)"
  then have "n < 64 \<or> 64 \<le> n \<and> n < 128 \<or> 128 \<le> n \<and> n < 192 \<or> 192 \<le> n \<and> n < 256" by auto
  then show "bit (of_limbs [limb x 0, limb x 1, limb x 2, limb x 3]) n = bit x n"
    by (auto simp: of_limbs_def bit_simps bit_limb)
qed

text \<open>The two valid shifts that stand for one by \<open>128 - s\<close>.\<close>

lemma split_shift:
  assumes "s < 128"
  shows "drop_bit 1 (drop_bit (128 - s - 1) (y :: 128 word)) = drop_bit (128 - s) y"
    "push_bit 1 (push_bit (128 - s - 1) y) = push_bit (128 - s) y"
proof -
  have e: "1 + (128 - s - 1) = 128 - s" "128 - s - 1 + 1 = 128 - s" using assms by simp_all
  show "drop_bit 1 (drop_bit (128 - s - 1) y) = drop_bit (128 - s) y"
    "push_bit 1 (push_bit (128 - s - 1) y) = push_bit (128 - s) y"
    by (simp_all only: drop_bit_drop_bit push_bit_push_bit e)
qed

lemma shl64_push_bit: "shl64 x s = push_bit s x"
proof (rule bit_word_eqI)
  fix n assume n: "n < LENGTH(256)"
  show "bit (shl64 x s) n = bit (push_bit s x) n"
  proof (cases "s < 128")
    case True
    have "s \<le> n - 128 \<or> n - 128 < s" "128 + (n - 128 - s) = n - s" if "s \<le> n - 128" "128 \<le> n" using that by auto
    moreover have "128 - s + (n - 128) = n - s" if "128 \<le> n" using that True by simp
    ultimately show ?thesis using n True
      by (auto simp: shl64_def Let_def limb_bits bit_simps split_shift [OF True] simp del: One_nat_def dest: bit256_bound)
  next
    case False
    then show ?thesis using n by (auto simp: shl64_def Let_def limb_bits bit_simps)
  qed
qed

lemma shr64_drop_bit: "shr64 x s = drop_bit s x"
proof (rule bit_word_eqI)
  fix n assume n: "n < LENGTH(256)"
  show "bit (shr64 x s) n = bit (drop_bit s x) n"
  proof (cases "s < 128")
    case True
    have "128 + (n - (128 - s)) = s + n" "128 + (n + s - 128) = s + n" if "128 - s \<le> n" using that True by simp_all
    then show ?thesis using n True
      by (auto simp: shr64_def Let_def limb_bits bit_simps split_shift [OF True] add.commute [of n s] simp del: One_nat_def dest: bit256_bound)
  next
    case False
    then show ?thesis using n by (auto simp: shr64_def Let_def limb_bits bit_simps dest: bit256_bound)
  qed
qed

lemma limb_eq_0_iff: "limb x i = 0 \<longleftrightarrow> (\<forall>n < 64. \<not> bit x (64 * i + n))"
  by (auto simp: bit_eq_iff [of "limb x i"] bit_limb)

lemma high_limbs_zero: "limb x 1 OR limb x 2 OR limb x 3 = 0 \<longleftrightarrow> unat x < 2 ^ 64"
proof -
  have "limb x 1 OR limb x 2 OR limb x 3 = 0 \<longleftrightarrow> drop_bit 64 x = 0"
  proof
    assume "limb x 1 OR limb x 2 OR limb x 3 = 0"
    then have l: "limb x 1 = 0" "limb x 2 = 0" "limb x 3 = 0" by (simp_all add: or_eq_0_iff)
    show "drop_bit 64 x = 0"
    proof (rule bit_word_eqI)
      fix n assume "n < LENGTH(256)"
      then have "n < 64 \<or> (\<exists>k < 64. n = 64 + k) \<or> (\<exists>k < 64. n = 128 + k) \<or> n \<ge> 192" by presburger
      with l show "bit (drop_bit 64 x) n = bit (0 :: uint256) n"
        by (auto simp: bit_simps limb_eq_0_iff dest: bit256_bound)
    qed
  next
    assume "drop_bit 64 x = 0"
    then have d: "\<not> bit (drop_bit 64 x) n" for n by simp
    have "\<not> bit x (64 * i + n)" if "i \<ge> 1" for i n
    proof -
      have "64 * i + n = 64 + (64 * (i - 1) + n)" using that by (cases i) simp_all
      then show ?thesis using d [of "64 * (i - 1) + n"] by (simp add: bit_drop_bit_eq add.assoc)
    qed
    then have "limb x i = 0" if "i \<ge> 1" for i using that unfolding limb_eq_0_iff by blast
    then have "limb x 1 = 0" "limb x 2 = 0" "limb x 3 = 0" by simp_all
    then show "limb x 1 OR limb x 2 OR limb x 3 = 0" by simp
  qed
  also have "\<dots> \<longleftrightarrow> unat (drop_bit 64 x) = 0" by (rule unat_eq_0 [symmetric])
  also have "\<dots> \<longleftrightarrow> unat x < 2 ^ 64"
    by (subst unat_drop_bit_eq) (simp only: drop_bit_eq_div div_eq_0_iff, simp)
  finally show ?thesis .
qed

lemma limb3_msb: "sint (limb x 3) < 0 \<longleftrightarrow> sint x < 0"
proof -
  have "sint (limb x 3) < 0 \<longleftrightarrow> bit (limb x 3) 63" using bit_last_iff [of "limb x 3"] by simp
  moreover have "sint x < 0 \<longleftrightarrow> bit x 255" using bit_last_iff [of x] by simp
  ultimately show ?thesis by (simp add: bit_limb)
qed

lemma low64_small: "unat x < 2 ^ 64 \<Longrightarrow> low64 x = unat x"
  by (simp add: low64_def limb_def unsigned_ucast_eq take_bit_nat_eq_self)

lemma shl_push_bit: "shl x s = push_bit (unat s) x"
proof (cases "unat s < 2 ^ 64")
  case True
  then show ?thesis by (simp only: shl_def Let_def high_limbs_zero low64_small shl64_push_bit not_True_eq_False if_False)
next
  case False
  then have "push_bit (unat s) x = 0" by (intro bit_word_eqI) (simp add: bit_simps)
  then show ?thesis using False by (simp only: shl_def Let_def high_limbs_zero not_False_eq_True if_True)
qed

lemma shr_drop_bit: "shr x s = drop_bit (unat s) x"
proof (cases "unat s < 2 ^ 64")
  case True
  then show ?thesis by (simp only: shr_def Let_def high_limbs_zero low64_small shr64_drop_bit not_True_eq_False if_False)
next
  case False
  then have "drop_bit (unat s) x = 0" by (intro bit_word_eqI) (auto simp: bit_simps dest: bit256_bound)
  then show ?thesis using False by (simp only: shr_def Let_def high_limbs_zero not_False_eq_True if_True)
qed

lemma sint_split: "sint x = uint x - (if sint x < 0 then 2 ^ 256 else 0)" for x :: uint256
proof -
  have "bit x 255 \<longleftrightarrow> sint x < 0" using bit_last_iff [of x] by simp
  moreover have "take_bit 256 (uint x) = uint x" using uint_bounded [of x] by (simp add: take_bit_int_eq_self)
  ultimately show ?thesis
    by (simp add: sint_uint signed_take_bit_eq_take_bit_minus bit_uint_iff)
qed

lemma slt_signed: "slt x y \<longleftrightarrow> sint x < sint y"
proof -
  have "x < y \<longleftrightarrow> sint x < sint y" if "(sint x < 0) = (sint y < 0)"
    using that sint_split [of x] sint_split [of y] by (auto simp: word_less_def)
  then show ?thesis by (auto simp: slt_def limb3_msb Let_def)
qed

lemma exp_loop_power: "exp_loop b e r = r * b ^ unat e"
proof (induction b e r rule: exp_loop.induct)
  case (1 b e r)
  show ?case
  proof (cases "e = 0")
    case False
    have "odd (unat e) \<longleftrightarrow> odd e" using bit_unsigned_iff [of e 0, where ?'a = nat] by (simp add: bit_0)
    then have odd: "e AND 1 \<noteq> 0 \<longleftrightarrow> odd (unat e)" by (simp add: and_one_eq even_iff_mod_2_eq_zero)
    have "b ^ unat e = (b * b) ^ (unat e div 2) * (if odd (unat e) then b else 1)"
      by (auto simp: power_mult_distrib [symmetric] power_add [symmetric] power2_eq_square [symmetric] power_mult [symmetric]
          elim!: evenE oddE)
    then show ?thesis using False "1.IH" odd unfolding exp_loop.simps [of b e r] unat_half by (simp add: ac_simps)
  qed (simp add: exp_loop.simps)
qed

lemma exp256_power: "exp256 b e = b ^ unat e"
  by (simp add: exp256_def exp_loop_power shl_push_bit push_bit_eq_mult)

section \<open>Signed division\<close>

lemma sign_mask_neg: "(x AND push_bit 255 1 \<noteq> 0) \<longleftrightarrow> sint x < 0" for x :: uint256
proof -
  have "x AND push_bit 255 1 \<noteq> 0 \<longleftrightarrow> bit x 255"
    by (metis and_exp_eq_0_iff_not_bit push_bit_of_1)
  then show ?thesis using bit_last_iff [of x] by simp
qed

lemma abs_word: "uint (if sint x < 0 then - x else x) = \<bar>sint x\<bar>" for x :: uint256
proof (cases "sint x < 0")
  case True
  then have "x \<noteq> 0" by auto
  then have "uint x \<noteq> 0" by (simp add: uint_0_iff)
  moreover have "uint x - 2 ^ 256 = sint x" using True sint_split [of x] by simp
  moreover have "uint (- x) = (- uint x) mod 2 ^ 256" by (simp add: uint_word_ariths)
  moreover have "(- uint x) mod 2 ^ 256 = 2 ^ 256 - uint x" if "uint x \<noteq> 0"
    using that uint_bounded [of x] zmod_zminus1_eq_if [of "uint x" "2 ^ 256"] by (simp add: mod_pos_pos_trivial)
  ultimately show ?thesis using True by simp
next
  case False
  then show ?thesis using sint_split [of x] by simp
qed

lemma sdivrem_signed:
  "sdivrem u v = (word_of_int (sint u sdiv sint v), word_of_int (sint u smod sint v))"
proof -
  let ?a = "if sint u < 0 then - u else u" and ?b = "if sint v < 0 then - v else v"
  have q: "?a div ?b = word_of_int (\<bar>sint u\<bar> div \<bar>sint v\<bar>)"
    unfolding word_div_def abs_word ..
  have r: "?a mod ?b = word_of_int (\<bar>sint u\<bar> mod \<bar>sint v\<bar>)"
    unfolding word_mod_def abs_word ..
  have "sint u sdiv sint v = (if (sint u < 0) \<noteq> (sint v < 0) then - (\<bar>sint u\<bar> div \<bar>sint v\<bar>) else \<bar>sint u\<bar> div \<bar>sint v\<bar>)"
    by (auto simp: signed_divide_int_def sgn_if)
  moreover have "sint u smod sint v = (if sint u < 0 then - (\<bar>sint u\<bar> mod \<bar>sint v\<bar>) else \<bar>sint u\<bar> mod \<bar>sint v\<bar>)"
    by (auto simp: signed_modulo_int_def sgn_if)
  ultimately show ?thesis
    unfolding sdivrem_def Let_def sign_mask_neg q r by (simp only: prod.inject if_distrib [of word_of_int] wi_hom_neg simp_thms)
qed

section \<open>Modular arithmetic\<close>

lemma mod_sum_less: "a < M \<Longrightarrow> b < M \<Longrightarrow> (a + b) mod M < a \<longleftrightarrow> M \<le> a + b" for a b M :: nat
  by (auto simp: mod_if not_le)

lemma unat_less_256: "unat (x :: uint256) < 2 ^ 256"
  using unsigned_less [of x, where ?'a = nat] by simp

lemma addc_carry: "x + y < x \<longleftrightarrow> 2 ^ 256 \<le> unat x + unat y" for x y :: uint256
proof -
  have "unat (x + y) = (unat x + unat y) mod 2 ^ 256" by (simp add: unat_word_ariths)
  then show ?thesis using mod_sum_less [OF unat_less_256 unat_less_256] by (simp only: word_less_nat_alt)
qed

lemma limb3_div: "unat (limb x 3) = unat x div 2 ^ 192"
proof -
  have "unat (limb x 3) = take_bit 64 (unat (drop_bit 192 x))" by (simp add: limb_def unsigned_ucast_eq)
  also have "unat (drop_bit 192 x) = unat x div 2 ^ 192"
    by (subst unat_drop_bit_eq) (simp only: drop_bit_eq_div)
  also have "take_bit 64 (unat x div 2 ^ 192) = unat x div 2 ^ 192"
    using unsigned_less [of x, where ?'a = nat] by (intro take_bit_nat_eq_self) (simp add: div_less_iff_less_mult)
  finally show ?thesis .
qed

lemma div_bound: "x div K \<le> m div K \<Longrightarrow> 1 \<le> m div K \<Longrightarrow> 0 < K \<Longrightarrow> x < 2 * m" for x K m :: nat
proof -
  assume a: "x div K \<le> m div K" "1 \<le> m div K" "0 < K"
  have "x < (x div K + 1) * K" using a(3) by (metis Suc_eq_plus1 dividend_less_div_times mult.commute mult_Suc)
  also have "\<dots> \<le> (2 * (m div K)) * K" using a by (intro mult_right_mono) simp_all
  also have "\<dots> \<le> 2 * m" by simp
  finally show ?thesis .
qed

text \<open>The top limb bounds how far an argument of the fast path can be above the modulus.\<close>

lemma fast_path_bound:
  assumes "limb m 3 \<noteq> 0" "limb x 3 \<le> limb m 3"
  shows "unat x < 2 * unat m"
proof -
  have "unat x div 2 ^ 192 \<le> unat m div 2 ^ 192" using assms(2) by (simp add: word_le_nat_alt limb3_div)
  moreover have "1 \<le> unat m div 2 ^ 192" using assms(1) unat_gt_0 [of "limb m 3"] by (simp add: limb3_div)
  ultimately show ?thesis by (rule div_bound) simp
qed

lemma reduce_once: "unat x < 2 * unat m \<Longrightarrow> unat (if \<not> x < m then x - m else x) = unat x mod unat m" for x m :: uint256
  by (auto simp: word_less_nat_alt unat_sub_if' mod_if not_less le_mod_geq)

lemma addmod_fast:
  fixes xn yn m :: uint256
  assumes "unat xn < unat m" "unat yn < unat m"
  shows "(if xn + yn < xn \<or> \<not> xn + yn < m then xn + yn - m else xn + yn) = word_of_nat ((unat xn + unat yn) mod unat m)"
proof -
  have w: "xn = word_of_nat (unat xn)" "yn = word_of_nat (unat yn)" "m = word_of_nat (unat m)" by simp_all
  have M: "unat m < 2 ^ 256" by (rule unat_less_256)
  show ?thesis
  proof (cases "unat m \<le> unat xn + unat yn")
    case True
    have "xn + yn < xn \<or> \<not> xn + yn < m"
    proof (cases "2 ^ 256 \<le> unat xn + unat yn")
      case False
      then have "unat (xn + yn) = unat xn + unat yn" by (simp add: unat_word_ariths)
      then show ?thesis using True by (simp add: word_less_nat_alt)
    qed (simp only: addc_carry simp_thms)
    moreover have "xn + yn - m = word_of_nat (unat xn + unat yn - unat m)"
      using True by (simp add: of_nat_diff)
    moreover have "(unat xn + unat yn) mod unat m = unat xn + unat yn - unat m"
      using True assms by (simp add: le_mod_geq)
    ultimately show ?thesis by simp
  next
    case False
    then have "unat xn + unat yn < 2 ^ 256" using M by linarith
    then have "\<not> xn + yn < xn" "unat (xn + yn) = unat xn + unat yn"
      by (simp_all only: addc_carry not_le) (simp add: unat_word_ariths)
    then show ?thesis using False by (simp add: word_less_nat_alt)
  qed
qed

lemma mod_sum_carry: "a < M \<Longrightarrow> b < M \<Longrightarrow> (a + b) mod M + (if M \<le> a + b then M else 0) = a + b" for a b M :: nat
  by (auto simp: mod_if)

lemma up_unat:
  "unat (ucast (x :: uint256) :: 320 word) = unat x" "unat (ucast x :: 512 word) = unat x"
  using unat_less_256 [of x] by (simp_all add: unsigned_ucast_eq take_bit_nat_eq_self)

lemma addmod_slow_sum:
  "(ucast (x + y) :: 320 word) OR push_bit 256 (if x + y < x then 1 else 0) = word_of_nat (unat x + unat y)"
  for x y :: uint256
proof -
  have "(ucast (x + y) :: 320 word) AND push_bit 256 (if x + y < x then 1 else 0) = 0"
    by (rule bit_word_eqI) (auto simp: bit_simps dest: bit256_bound)
  then have "(ucast (x + y) :: 320 word) OR push_bit 256 (if x + y < x then 1 else 0) =
      ucast (x + y) + push_bit 256 (if x + y < x then 1 else 0)"
    by (simp only: disjunctive_add_eq_or)
  also have "\<dots> = word_of_nat (unat (x + y) + (if x + y < x then 2 ^ 256 else 0))"
    by (simp add: of_nat_unat push_bit_of_1)
  also have "unat (x + y) + (if x + y < x then 2 ^ 256 else 0) = unat x + unat y"
  proof -
    have "unat (x + y) = (unat x + unat y) mod 2 ^ 256" by (simp add: unat_word_ariths)
    then show ?thesis
      using mod_sum_carry [OF unat_less_256 [of x] unat_less_256 [of y]] by (simp only: addc_carry)
  qed
  finally show ?thesis .
qed

lemma addmod_eq:
  assumes "m \<noteq> 0"
  shows "addmod x y m = word_of_nat ((unat x + unat y) mod unat m)"
proof (cases "limb m 3 \<noteq> 0 \<and> limb x 3 \<le> limb m 3 \<and> limb y 3 \<le> limb m 3")
  case True
  have m: "0 < unat m" using assms by (simp add: unat_gt_0)
  let ?xn = "if \<not> x < m then x - m else x" and ?yn = "if \<not> y < m then y - m else y"
  have x: "unat ?xn = unat x mod unat m" using True by (intro reduce_once fast_path_bound) simp_all
  have y: "unat ?yn = unat y mod unat m" using True by (intro reduce_once fast_path_bound) simp_all
  have "addmod x y m = (if ?xn + ?yn < ?xn \<or> \<not> ?xn + ?yn < m then ?xn + ?yn - m else ?xn + ?yn)"
    using True by (simp only: addmod_def subc_def addc_def Let_def prod.case if_True simp_thms)
  also have "\<dots> = word_of_nat ((unat ?xn + unat ?yn) mod unat m)"
    by (rule addmod_fast) (use m x y in simp_all)
  finally show ?thesis unfolding x y by (simp only: mod_add_eq)
next
  case False
  have "unat x + unat y < 2 ^ 320" using unat_less_256 [of x] unat_less_256 [of y] by simp
  then have n: "unat (word_of_nat (unat x + unat y) :: 320 word) = unat x + unat y" by (subst unat_of_nat) simp
  have "addmod x y m = ucast ((word_of_nat (unat x + unat y) :: 320 word) mod ucast m)"
    using False by (simp only: addmod_def addc_def Let_def prod.case if_False addmod_slow_sum)
  also have "\<dots> = word_of_nat (unat ((word_of_nat (unat x + unat y) :: 320 word) mod ucast m))"
    by (simp add: of_nat_unat)
  finally show ?thesis by (simp only: unat_mod_distrib n) (simp add: up_unat)
qed

lemma mulmod_eq:
  assumes "m \<noteq> 0"
  shows "mulmod x y m = word_of_nat ((unat x * unat y) mod unat m)"
proof -
  have "unat x * unat y < 2 ^ 256 * 2 ^ 256" by (intro mult_strict_mono unat_less_256) simp_all
  then have "unat ((ucast x :: 512 word) * ucast y) = unat x * unat y"
    by (simp add: unat_word_ariths up_unat)
  moreover have "mulmod x y m = word_of_nat (unat (((ucast x :: 512 word) * ucast y) mod ucast m))"
    by (simp add: mulmod_def of_nat_unat)
  ultimately show ?thesis by (simp only: unat_mod_distrib) (simp add: up_unat)
qed

section \<open>Bytes\<close>

lemma be_nat_Nil [simp]: "be_nat [] = 0"
  by (simp add: be_nat_def)

lemma be_nat_snoc: "be_nat (bs @ [b]) = be_nat bs * 256 + unat b"
  by (simp add: be_nat_def)

lemma be_nat_append: "be_nat (as @ bs) = be_nat as * 256 ^ length bs + be_nat bs"
proof (induction bs rule: rev_induct)
  case (snoc b bs)
  have "be_nat (as @ bs @ [b]) = be_nat (as @ bs) * 256 + unat b" using be_nat_snoc [of "as @ bs" b] by simp
  then show ?case by (simp add: snoc be_nat_snoc algebra_simps)
qed simp

lemma be_nat_bound: "be_nat bs < 256 ^ length bs"
proof (induction bs rule: rev_induct)
  case (snoc b bs)
  then have "be_nat bs * 256 + unat b < 256 ^ length bs * 256"
    using unat_byte_less [of b] by linarith
  then show ?case by (simp add: be_nat_snoc)
qed simp

lemma length_be_store256 [simp, bytes_simps]: "length (be_store256 x) = 32"
  by (simp add: be_store256_def)

lemma length_trunc_address [simp, bytes_simps]: "length (trunc_address x) = 20"
  by (simp add: trunc_address_def)

lemma digit_step: "n div 2 ^ (w * Suc i) * 2 ^ w + n div 2 ^ (w * i) mod 2 ^ w = n div 2 ^ (w * i)" for n :: nat
proof -
  have "n div 2 ^ (w * Suc i) = n div 2 ^ (w * i) div 2 ^ w"
    by (simp add: div_mult2_eq [symmetric] power_add [symmetric] add.commute)
  then show ?thesis by (simp only: div_mult_mod_eq)
qed

lemma be_nat_be_store: "be_nat (be_store v) = unat v"
proof -
  have b: "unat (ucast (drop_bit k v) :: byte) = unat v div 2 ^ k mod 2 ^ 8" for k
    by (simp only: unsigned_ucast_eq unat_drop_bit_eq) (simp add: drop_bit_eq_div take_bit_eq_mod)
  have "unat v < 2 ^ 64" using unsigned_less [of v, where ?'a = nat] by simp
  then have "unat v div 2 ^ 56 mod 2 ^ 8 = unat v div 2 ^ 56"
    by (intro mod_less) (simp add: div_less_iff_less_mult)
  then show ?thesis
    using digit_step [of "unat v" 8 0] digit_step [of "unat v" 8 1] digit_step [of "unat v" 8 2] digit_step [of "unat v" 8 3]
      digit_step [of "unat v" 8 4] digit_step [of "unat v" 8 5] digit_step [of "unat v" 8 6]
      b [of 0]
    by (simp add: be_store_def be_nat_def upt_rec b)
qed

lemma uint256_limbs: "unat (limb x 3) * 2 ^ 192 + unat (limb x 2) * 2 ^ 128 + unat (limb x 1) * 2 ^ 64 + unat (limb x 0) = unat x"
proof -
  have l: "unat (limb x i) = unat x div 2 ^ (64 * i) mod 2 ^ 64" for i
    unfolding limb_def by (simp only: unsigned_ucast_eq unat_drop_bit_eq) (simp add: drop_bit_eq_div take_bit_eq_mod)
  have "unat x div 2 ^ 192 mod 2 ^ 64 = unat x div 2 ^ 192"
    using unat_less_256 [of x] by (intro mod_less) (simp add: div_less_iff_less_mult)
  moreover have "q3 * B ^ 3 + l2 * B ^ 2 + l1 * B + l0 = n" if "q1 * B + l0 = n" "q2 * B + l1 = q1" "q3 * B + l2 = q2"
    for q1 q2 q3 l0 l1 l2 n B :: nat
    using that by (auto simp: algebra_simps power3_eq_cube power2_eq_square)
  note this [OF digit_step [of "unat x" 64 0, simplified mult_0_right power_0 div_by_1] digit_step [of "unat x" 64 "Suc 0"] digit_step [of "unat x" 64 "Suc (Suc 0)"]]
  ultimately show ?thesis unfolding l by simp
qed

lemma be_load_be_store256 [simp]: "be_load (be_store256 x) = x"
proof -
  have "be_nat (be_store256 x) = unat x"
    unfolding be_store256_def be_nat_append be_nat_be_store uint256_limbs [of x, symmetric] by simp
  then show ?thesis by (simp add: be_load_def)
qed

section \<open>Properties\<close>



end
