(* ===== verification/EvmHost.thy ===== *)
theory EvmHost
  imports PostExec Intx
begin

text \<open>
  The host of the virtual machine (\<open>WeakEvmHost\<close> of \<^verbatim>\<open>include/evmExecutor.hpp\<close>): the accounts a
  transaction has touched and those it has destroyed, on top of a read-only world, and the methods
  through which the interpreter reads and writes them. The message and result structures are those of
  \<^verbatim>\<open>evmc.h\<close>.
\<close>

section \<open>Messages and results\<close>

datatype evmc_call_kind = EVMC_CALL | EVMC_DELEGATECALL | EVMC_CALLCODE | EVMC_CREATE | EVMC_CREATE2

datatype evmc_status_code =
    EVMC_SUCCESS | EVMC_FAILURE | EVMC_REVERT | EVMC_OUT_OF_GAS | EVMC_INVALID_INSTRUCTION
  | EVMC_UNDEFINED_INSTRUCTION | EVMC_STACK_OVERFLOW | EVMC_STACK_UNDERFLOW
  | EVMC_BAD_JUMP_DESTINATION | EVMC_INVALID_MEMORY_ACCESS | EVMC_CALL_DEPTH_EXCEEDED
  | EVMC_STATIC_MODE_VIOLATION | EVMC_PRECOMPILE_FAILURE | EVMC_CONTRACT_VALIDATION_FAILURE
  | EVMC_ARGUMENT_OUT_OF_RANGE | EVMC_WASM_UNREACHABLE_INSTRUCTION | EVMC_WASM_TRAP
  | EVMC_INSUFFICIENT_BALANCE | EVMC_INTERNAL_ERROR | EVMC_REJECTED | EVMC_OUT_OF_MEMORY

datatype evmc_storage_status =
    EVMC_STORAGE_ASSIGNED | EVMC_STORAGE_ADDED | EVMC_STORAGE_DELETED | EVMC_STORAGE_MODIFIED
  | EVMC_STORAGE_DELETED_ADDED | EVMC_STORAGE_MODIFIED_DELETED | EVMC_STORAGE_DELETED_RESTORED
  | EVMC_STORAGE_ADDED_DELETED | EVMC_STORAGE_MODIFIED_RESTORED

datatype evmc_access_status = EVMC_ACCESS_COLD | EVMC_ACCESS_WARM

record evmc_message =
  msg_kind :: evmc_call_kind
  msg_flags :: u32
  msg_depth :: int
  msg_gas :: int  \<comment> \<open>\<open>int64_t\<close>\<close>
  msg_recipient :: address
  msg_sender :: address
  msg_input :: bytes  \<comment> \<open>\<open>input_data\<close> and \<open>input_size\<close>\<close>
  msg_value :: bytes32
  msg_create2_salt :: bytes32
  msg_code_address :: address

text \<open>\<open>evmc_message{}\<close>.\<close>

definition evmc_message_default :: evmc_message where
  "evmc_message_default =
     \<lparr>msg_kind = EVMC_CALL, msg_flags = 0, msg_depth = 0, msg_gas = 0, msg_recipient = replicate 20 0,
      msg_sender = replicate 20 0, msg_input = [], msg_value = replicate 32 0,
      msg_create2_salt = replicate 32 0, msg_code_address = replicate 20 0\<rparr>"

definition EVMC_STATIC :: u32 where
  "EVMC_STATIC = 1"

record evmc_result =
  res_status :: evmc_status_code
  res_gas_left :: int
  res_gas_refund :: int
  res_output :: bytes
  res_create_address :: address

text \<open>\<open>evmc::Result{status, gas_left, gas_refund, data, size}\<close>: no created address.\<close>

definition make_result :: "evmc_status_code \<Rightarrow> int \<Rightarrow> int \<Rightarrow> bytes \<Rightarrow> evmc_result" where
  "make_result sc gl gr out =
     \<lparr>res_status = sc, res_gas_left = gl, res_gas_refund = gr, res_output = out, res_create_address = replicate 20 0\<rparr>"

record evmc_tx_context =
  tx_gas_price :: bytes32
  tx_origin :: address
  block_coinbase :: address
  block_number :: int
  block_timestamp :: int
  block_gas_limit :: int
  block_prev_randao :: bytes32
  chain_id :: bytes32
  block_base_fee :: bytes32

definition INT64_MAX :: int where
  "INT64_MAX = 9223372036854775807"

text \<open>
  What can stop a run other than a result: the loop has used its fuel, an operation that C++ leaves
  undefined, or the end of the process (\<open>exit(1)\<close>, or an exception that meets \<open>noexcept\<close>).
\<close>

datatype fault = Out_of_fuel | Undefined_behaviour | Process_exit

type_synonym 'a vm = "fault + 'a"

definition bind_vm :: "'a vm \<Rightarrow> ('a \<Rightarrow> 'b vm) \<Rightarrow> 'b vm" where
  "bind_vm m f = (case m of Inl e \<Rightarrow> Inl e | Inr x \<Rightarrow> f x)"

section \<open>The host\<close>

text \<open>
  \<open>accounts\<close> is an \<open>unordered_map\<close> (its entries in iteration order), \<open>deadAcn\<close> a \<open>std::set\<close> (its
  elements in order). \<open>create_nonce\<close> is the function-static counter of \<open>handleCreate\<close>, which lives as
  long as the process; it is threaded with the host because only executions touch it. The output for
  hosts without an executor is \<open>output\<close>.
\<close>

record WeakEvmHost =
  readOnlyWorldState :: "address \<Rightarrow> Acn option"
  accounts :: "(address \<times> Acn) list"
  deadAcn :: "address list"
  create_nonce :: u64

definition WeakEvmHost_ctor :: "(address \<Rightarrow> Acn option) \<Rightarrow> u64 \<Rightarrow> WeakEvmHost" where
  "WeakEvmHost_ctor w n = \<lparr>readOnlyWorldState = w, accounts = [], deadAcn = [], create_nonce = n\<rparr>"

definition tryAddAcnFromWorldState :: "WeakEvmHost \<Rightarrow> address \<Rightarrow> bool \<Rightarrow> (bool \<times> WeakEvmHost) vm" where
  "tryAddAcnFromWorldState h a fatal =
     (case readOnlyWorldState h a of
        Some v \<Rightarrow> Inr (True, h\<lparr>accounts := AList.update a v (accounts h)\<rparr>)
      | None \<Rightarrow> if fatal then Inl Process_exit else Inr (False, h))"

definition account_exists :: "WeakEvmHost \<Rightarrow> address \<Rightarrow> bool" where
  "account_exists h a =
     (if a \<in> set (deadAcn h) then False
      else if map_of (accounts h) a \<noteq> None then True
      else if readOnlyWorldState h a \<noteq> None then True
      else False)"

definition get_storage :: "WeakEvmHost \<Rightarrow> address \<Rightarrow> bytes32 \<Rightarrow> bytes32" where
  "get_storage h a key =
     (if \<not> account_exists h a then replicate 32 0
      else
        (case map_of (accounts h) a of
           None \<Rightarrow>
             (case readOnlyWorldState h a of
                None \<Rightarrow> replicate 32 0  \<comment> \<open>not reached: the account exists\<close>
              | Some acn \<Rightarrow> (case map_of (storage acn) key of None \<Rightarrow> replicate 32 0 | Some v \<Rightarrow> v))
         | Some acn \<Rightarrow> (case map_of (storage acn) key of None \<Rightarrow> replicate 32 0 | Some v \<Rightarrow> v)))"

text \<open>\<open>accounts[a].storage[key] = value\<close> creates the account and the entry when they are missing.\<close>

definition set_storage :: "WeakEvmHost \<Rightarrow> address \<Rightarrow> bytes32 \<Rightarrow> bytes32 \<Rightarrow> (evmc_storage_status \<times> WeakEvmHost) vm" where
  "set_storage h a key v =
     bind_vm
       (if map_of (accounts h) a = None then tryAddAcnFromWorldState h a False else Inr (True, h))
       (\<lambda>(_, h1).
          let acn = (case map_of (accounts h1) a of None \<Rightarrow> Acn_default | Some x \<Rightarrow> x) in
          Inr (if v = replicate 32 0 then EVMC_STORAGE_DELETED else EVMC_STORAGE_MODIFIED,
               h1\<lparr>accounts := AList.update a (acn\<lparr>storage := AList.update key v (storage acn)\<rparr>) (accounts h1)\<rparr>))"

definition get_balance :: "WeakEvmHost \<Rightarrow> address \<Rightarrow> bytes32" where
  "get_balance h a = replicate 32 0"

text \<open>
  The bytes \<open>copy_code\<close> puts into the buffer. \<open>accounts.at\<close> throws for an account that exists only in
  the underlying world, and the function is \<open>noexcept\<close>.
\<close>

definition copy_code :: "WeakEvmHost \<Rightarrow> address \<Rightarrow> nat \<Rightarrow> nat \<Rightarrow> bytes vm" where
  "copy_code h a code_offset buffer_size =
     (if \<not> account_exists h a then Inr []
      else
        (case map_of (accounts h) a of
           None \<Rightarrow> Inl Process_exit
         | Some acn \<Rightarrow>
             if code_offset \<ge> length (code acn) then Inr []
             else (let n = min buffer_size (length (code acn) - code_offset) in
                   Inr (take n (drop code_offset (code acn))))))"

definition host_selfdestruct :: "WeakEvmHost \<Rightarrow> address \<Rightarrow> address \<Rightarrow> bool \<times> WeakEvmHost" where
  "host_selfdestruct h addr beneficiary = (True, h\<lparr>deadAcn := std_set_insert addr (deadAcn h)\<rparr>)"

definition evmc_tx_context_default :: evmc_tx_context where
  "evmc_tx_context_default =
     \<lparr>tx_gas_price = replicate 32 0, tx_origin = replicate 20 0, block_coinbase = replicate 20 0, block_number = 0,
      block_timestamp = 0, block_gas_limit = 0, block_prev_randao = replicate 32 0, chain_id = replicate 32 0,
      block_base_fee = replicate 32 0\<rparr>"

definition host_get_tx_context :: "WeakEvmHost \<Rightarrow> evmc_tx_context" where
  "host_get_tx_context h = evmc_tx_context_default"

definition get_block_hash :: "WeakEvmHost \<Rightarrow> int \<Rightarrow> bytes32" where
  "get_block_hash h n = replicate 32 0"

definition emit_log :: "WeakEvmHost \<Rightarrow> address \<Rightarrow> bytes \<Rightarrow> bytes32 list \<Rightarrow> WeakEvmHost" where
  "emit_log h a data topics = h"

definition access_account :: "WeakEvmHost \<Rightarrow> address \<Rightarrow> evmc_access_status" where
  "access_account h a = EVMC_ACCESS_COLD"

definition access_storage :: "WeakEvmHost \<Rightarrow> address \<Rightarrow> bytes32 \<Rightarrow> evmc_access_status" where
  "access_storage h a key = EVMC_ACCESS_COLD"

definition get_code_size :: "WeakEvmHost \<Rightarrow> address \<Rightarrow> nat" where
  "get_code_size h a = (case map_of (accounts h) a of None \<Rightarrow> 0 | Some acn \<Rightarrow> length (code acn))"

definition get_code_hash :: "keccak256 \<Rightarrow> WeakEvmHost \<Rightarrow> address \<Rightarrow> bytes32" where
  "get_code_hash keccak h a =
     (case map_of (accounts h) a of None \<Rightarrow> replicate 32 0 | Some acn \<Rightarrow> take 32 (codehash keccak acn))"

section \<open>What the host stands for\<close>

text \<open>The accounts as the rest of a transaction sees them.\<close>

definition host_view :: "WeakEvmHost \<Rightarrow> address \<Rightarrow> Acn option" where
  "host_view h a =
     (if a \<in> set (deadAcn h) then None
      else case map_of (accounts h) a of None \<Rightarrow> readOnlyWorldState h a | Some acn \<Rightarrow> Some acn)"

definition host_ok :: "WeakEvmHost \<Rightarrow> bool" where
  "host_ok h \<longleftrightarrow> distinct (map fst (accounts h)) \<and> sorted (deadAcn h) \<and> distinct (deadAcn h)"

section \<open>Lemmas\<close>

lemma bind_vm_simps [simp]: "bind_vm (Inl e) f = Inl e" "bind_vm (Inr x) f = f x"
  by (simp_all add: bind_vm_def)

lemma bind_vm_Inr_iff: "bind_vm m f = Inr y \<longleftrightarrow> (\<exists>x. m = Inr x \<and> f x = Inr y)"
  by (cases m) auto

lemma bind_vm_Inl_iff: "bind_vm m f = Inl e \<longleftrightarrow> m = Inl e \<or> (\<exists>x. m = Inr x \<and> f x = Inl e)"
  by (cases m) auto

lemma map_of_AList_update [simp]: "map_of (AList.update k v al) = (map_of al)(k \<mapsto> v)"
  by (rule update_conv')

lemma account_exists_view: "account_exists h a \<longleftrightarrow> host_view h a \<noteq> None"
  by (auto simp: account_exists_def host_view_def split: option.splits)

lemma get_storage_view:
  "get_storage h a key = (case host_view h a of None \<Rightarrow> replicate 32 0
     | Some acn \<Rightarrow> (case map_of (storage acn) key of None \<Rightarrow> replicate 32 0 | Some v \<Rightarrow> v))"
  by (auto simp: get_storage_def account_exists_def host_view_def split: option.splits)

text \<open>Fetching an account that is not local does not change what the host stands for.\<close>

lemma tryAdd_view:
  "tryAddAcnFromWorldState h a fatal = Inr (ok, h') \<Longrightarrow> map_of (accounts h) a = None \<Longrightarrow>
     host_view h' = host_view h \<and> deadAcn h' = deadAcn h \<and> create_nonce h' = create_nonce h \<and>
     readOnlyWorldState h' = readOnlyWorldState h \<and> map_of (accounts h') a = readOnlyWorldState h a"
  by (auto simp: tryAddAcnFromWorldState_def host_view_def fun_eq_iff split: option.splits if_splits)

lemma tryAdd_ok: "tryAddAcnFromWorldState h a fatal = Inr (ok, h') \<Longrightarrow> host_ok h \<Longrightarrow> host_ok h'"
  by (auto simp: tryAddAcnFromWorldState_def host_ok_def distinct_update split: option.splits if_splits)

lemma set_storage_total: "\<exists>sc h'. set_storage h a key v = Inr (sc, h') \<and> sc \<in> {EVMC_STORAGE_DELETED, EVMC_STORAGE_MODIFIED}"
  by (auto simp: set_storage_def tryAddAcnFromWorldState_def Let_def split: option.splits)

lemma set_storage_ok: "set_storage h a key v = Inr (sc, h') \<Longrightarrow> host_ok h \<Longrightarrow> host_ok h'"
  by (auto simp: set_storage_def host_ok_def tryAddAcnFromWorldState_def Let_def distinct_update split: option.splits if_splits)

lemma selfdestruct_ok: "host_ok h \<Longrightarrow> host_ok (snd (host_selfdestruct h a b))"
  by (simp add: host_selfdestruct_def host_ok_def)

text \<open>What \<open>set_storage\<close> does to the account it names, and that it leaves the others alone.\<close>

lemma set_storage_view:
  assumes "set_storage h a key v = Inr (sc, h')"
  shows "host_view h' b = (if b \<noteq> a \<or> a \<in> set (deadAcn h) then host_view h b
      else Some (let acn = (case host_view h a of None \<Rightarrow> Acn_default | Some x \<Rightarrow> x)
                 in acn\<lparr>storage := AList.update key v (storage acn)\<rparr>))"
proof -
  have h': "deadAcn h' = deadAcn h" "readOnlyWorldState h' = readOnlyWorldState h"
    "map_of (accounts h') a = Some (let acn = (case map_of (accounts h) a of
        None \<Rightarrow> (case readOnlyWorldState h a of None \<Rightarrow> Acn_default | Some x \<Rightarrow> x) | Some x \<Rightarrow> x)
      in acn\<lparr>storage := AList.update key v (storage acn)\<rparr>)"
    using assms by (cases "map_of (accounts h) a"; cases "readOnlyWorldState h a";
        auto simp: set_storage_def tryAddAcnFromWorldState_def Let_def)+
  have o: "map_of (accounts h') b = map_of (accounts h) b" if "b \<noteq> a"
    using assms that by (cases "map_of (accounts h) a"; cases "readOnlyWorldState h a";
        auto simp: set_storage_def tryAddAcnFromWorldState_def Let_def)
  show ?thesis
  proof (cases "b = a")
    case True
    then show ?thesis using h' by (cases "map_of (accounts h) a") (simp_all add: host_view_def)
  next
    case False
    then show ?thesis using h' o by (simp add: host_view_def split: option.split)
  qed
qed

end
