(* ===== verification/Eof.thy ===== *)
theory Eof
  imports EvmHost
begin

text \<open>
  The container format of code (\<^verbatim>\<open>pkgs/evmweak/eof.hpp\<close>, \<^verbatim>\<open>eof.cpp\<close>): how a container is recognised and
  how its header is read, without any validation, before the code in it is executed. A read outside
  the container is undefined behaviour.
\<close>

record EOFCodeType =
  ect_inputs :: nat
  ect_outputs :: nat
  ect_max_stack_height :: nat

record EOF1Header =
  eof_version :: nat
  code_sizes :: "nat list"
  code_offsets :: "nat list"
  data_size :: nat
  eof_types :: "EOFCodeType list"

definition EOF1Header_default :: EOF1Header where
  "EOF1Header_default = \<lparr>eof_version = 0, code_sizes = [], code_offsets = [], data_size = 0, eof_types = []\<rparr>"

text \<open>One byte of a buffer.\<close>

definition byte_at :: "bytes \<Rightarrow> nat \<Rightarrow> byte vm" where
  "byte_at bs i = (if i < length bs then Inr (bs ! i) else Inl Undefined_behaviour)"

definition read_uint16_be :: "bytes \<Rightarrow> nat \<Rightarrow> nat vm" where
  "read_uint16_be bs i =
     bind_vm (byte_at bs i) (\<lambda>h. bind_vm (byte_at bs (i + 1)) (\<lambda>l. Inr (unat h * 256 + unat l)))"

definition read_int16_be :: "bytes \<Rightarrow> nat \<Rightarrow> int vm" where
  "read_int16_be bs i =
     bind_vm (read_uint16_be bs i) (\<lambda>n. Inr (if n < 32768 then int n else int n - 65536))"

definition is_eof_container :: "bytes \<Rightarrow> bool" where
  "is_eof_container c \<longleftrightarrow> length c > 1 \<and> c ! 0 = 0xef \<and> c ! 1 = 0"

definition get_eof_version :: "bytes \<Rightarrow> nat" where
  "get_eof_version c = (if length c \<ge> 3 \<and> c ! 0 = 0xef \<and> c ! 1 = 0 then unat (c ! 2) else 0)"

section \<open>Reading a header\<close>

text \<open>
  \<open>EOFSectionHeaders\<close>: the sizes read for each of the section identifiers 0 to 3.
\<close>

type_synonym section_headers = "nat list list"

definition eof_header_size :: "section_headers \<Rightarrow> nat" where
  "eof_header_size headers = 2 + 1 + 2 * 3 + 1 + 2 + length (headers ! 2) * 2 + 1"

text \<open>\<open>section_headers[id].emplace_back(size)\<close>; the array has four elements.\<close>

definition emplace_size :: "section_headers \<Rightarrow> nat \<Rightarrow> nat \<Rightarrow> section_headers vm" where
  "emplace_size hs i n = (if i < length hs then Inr (hs[i := hs ! i @ [n]]) else Inl Undefined_behaviour)"

fun read_code_sizes :: "bytes \<Rightarrow> nat \<Rightarrow> nat \<Rightarrow> section_headers \<Rightarrow> (nat \<times> section_headers) vm" where
  "read_code_sizes c it 0 hs = Inr (it, hs)"
| "read_code_sizes c it (Suc k) hs =
     bind_vm (read_uint16_be c it) (\<lambda>n. bind_vm (emplace_size hs 2 n) (\<lambda>hs'. read_code_sizes c (it + 2) k hs'))"

lemma read_code_sizes_pos: "read_code_sizes c it k hs = Inr (it', hs') \<Longrightarrow> it \<le> it'"
  by (induction c it k hs rule: read_code_sizes.induct) (fastforce simp: bind_vm_Inr_iff)+

text \<open>The loop over the sections, up to the terminator.\<close>

function read_sections :: "bytes \<Rightarrow> nat \<Rightarrow> section_headers \<Rightarrow> section_headers vm" where
  "read_sections c it hs =
     (if it \<ge> length c then Inl Undefined_behaviour
      else if c ! it = 0 then Inr hs
      else if c ! it = 2 then
        (case bind_vm (read_uint16_be c (it + 1)) (\<lambda>n. read_code_sizes c (it + 3) n hs) of
           Inl e \<Rightarrow> Inl e
         | Inr (it', hs') \<Rightarrow> read_sections c it' hs')
      else
        (case bind_vm (read_uint16_be c (it + 1)) (\<lambda>n. emplace_size hs (unat (c ! it)) n) of
           Inl e \<Rightarrow> Inl e
         | Inr hs' \<Rightarrow> read_sections c (it + 3) hs'))"
  by pat_completeness auto

termination
proof (relation "measure (\<lambda>(c, it, hs). length c - it)")
  fix c it hs x it' hs'
  assume "\<not> length c \<le> it" "bind_vm (read_uint16_be c (it + 1)) (\<lambda>n. read_code_sizes c (it + 3) n hs) = Inr x" "(it', hs') = x"
  then show "((c, it', hs'), c, it, hs) \<in> measure (\<lambda>(c, it, hs). length c - it)"
    by (auto simp: bind_vm_Inr_iff dest!: read_code_sizes_pos)
qed auto

declare read_sections.simps [simp del]

text \<open>The type entries of four bytes, from \<open>offset\<close>.\<close>

function read_types :: "bytes \<Rightarrow> nat \<Rightarrow> nat \<Rightarrow> EOFCodeType list vm" where
  "read_types c off stop =
     (if off \<ge> stop then Inr []
      else bind_vm (byte_at c off) (\<lambda>i. bind_vm (byte_at c (off + 1)) (\<lambda>out.
             bind_vm (read_uint16_be c (off + 2)) (\<lambda>h. bind_vm (read_types c (off + 4) stop) (\<lambda>ts.
               Inr (\<lparr>ect_inputs = unat i, ect_outputs = unat out, ect_max_stack_height = h\<rparr> # ts))))))"
  by pat_completeness auto
termination by (relation "measure (\<lambda>(c, off, stop). stop - off)") auto

declare read_types.simps [simp del]

text \<open>The offsets of the code sections, each cut to 16 bits.\<close>

fun section_offsets :: "nat \<Rightarrow> nat list \<Rightarrow> nat list" where
  "section_offsets off [] = []"
| "section_offsets off (n # ns) = off mod 65536 # section_offsets (off + n) ns"

definition read_valid_eof1_header :: "bytes \<Rightarrow> EOF1Header vm" where
  "read_valid_eof1_header c =
     bind_vm (read_sections c 3 [[], [], [], []]) (\<lambda>hs.
       let header_size = eof_header_size hs in
       if hs ! 1 = [] then Inl Undefined_behaviour
       else
         bind_vm (read_types c header_size (header_size + hs ! 1 ! 0)) (\<lambda>ts.
         bind_vm (byte_at c 2) (\<lambda>v.
           if hs ! 3 = [] then Inl Undefined_behaviour
           else Inr \<lparr>eof_version = unat v, code_sizes = hs ! 2,
                     code_offsets = section_offsets (header_size + hs ! 1 ! 0) (hs ! 2),
                     data_size = hs ! 3 ! 0, eof_types = ts\<rparr>)))"

end
