(* ===== verification/EvmTables.thy ===== *)
theory EvmTables
  imports Eof
begin

text \<open>
  The tables of the interpreter: the opcodes (\<^verbatim>\<open>pkgs/evmweak/instructions_opcodes.hpp\<close>,
  \<^verbatim>\<open>instructions_xmacro.hpp\<close>), what each instruction needs of the stack and what it costs in every
  revision (\<^verbatim>\<open>instructions_traits.hpp\<close>, \<^verbatim>\<open>baseline_instruction_table.cpp\<close>), and the cost of storage
  writes (\<^verbatim>\<open>instructions_storage.cpp\<close>). The revisions are numbered as in \<^verbatim>\<open>evmc.h\<close>.
\<close>

section \<open>Opcodes\<close>

text \<open>
  The enumeration; \<open>OP_PUSH1\<close> to \<open>OP_PUSH32\<close>, \<open>OP_DUP1\<close> to \<open>OP_DUP16\<close>, \<open>OP_SWAP1\<close> to \<open>OP_SWAP16\<close> and
  \<open>OP_LOG0\<close> to \<open>OP_LOG4\<close> are families with their number as argument. The opcodes are grouped by the
  signature of the function that implements them, which is what the overloads of \<open>invoke\<close> tell apart.
\<close>

datatype stack_op =
    OP_ADD | OP_MUL | OP_SUB | OP_DIV | OP_SDIV | OP_MOD | OP_SMOD | OP_ADDMOD | OP_MULMOD
  | OP_SIGNEXTEND | OP_LT | OP_GT | OP_SLT | OP_SGT | OP_EQ | OP_ISZERO | OP_AND | OP_OR | OP_XOR
  | OP_NOT | OP_BYTE | OP_SHL | OP_SHR | OP_SAR | OP_POP | OP_JUMPDEST | OP_PUSH0 | OP_DUP nat
  | OP_SWAP nat

datatype state_op =
    OP_ADDRESS | OP_ORIGIN | OP_CALLER | OP_CALLVALUE | OP_CALLDATALOAD | OP_CALLDATASIZE | OP_CODESIZE
  | OP_GASPRICE | OP_BASEFEE | OP_RETURNDATASIZE | OP_BLOCKHASH | OP_COINBASE | OP_TIMESTAMP | OP_NUMBER
  | OP_PREVRANDAO | OP_GASLIMIT | OP_CHAINID | OP_SELFBALANCE | OP_MSIZE

datatype result_op =
    OP_EXP | OP_KECCAK256 | OP_BALANCE | OP_CALLDATACOPY | OP_CODECOPY | OP_EXTCODESIZE | OP_EXTCODECOPY
  | OP_RETURNDATACOPY | OP_EXTCODEHASH | OP_MLOAD | OP_MSTORE | OP_MSTORE8 | OP_SLOAD | OP_SSTORE
  | OP_GAS | OP_LOG nat | OP_CREATE | OP_CREATE2 | OP_CALL | OP_CALLCODE | OP_DELEGATECALL
  | OP_STATICCALL

datatype code_op =
    OP_JUMP | OP_JUMPI | OP_PC | OP_RJUMP | OP_RJUMPI | OP_RJUMPV | OP_PUSH nat | OP_DUPN | OP_SWAPN
  | OP_CALLF | OP_RETF

datatype term_op =
    OP_STOP | OP_INVALID | OP_RETURN | OP_REVERT | OP_SELFDESTRUCT

datatype Opcode = Op_stack stack_op | Op_state state_op | Op_result result_op | Op_code code_op | Op_term term_op

definition opcode_table :: "(nat \<times> Opcode) list" where
  "opcode_table =
    [(0x00, Op_term OP_STOP), (0x01, Op_stack OP_ADD), (0x02, Op_stack OP_MUL), (0x03, Op_stack OP_SUB),
     (0x04, Op_stack OP_DIV), (0x05, Op_stack OP_SDIV), (0x06, Op_stack OP_MOD), (0x07, Op_stack OP_SMOD),
     (0x08, Op_stack OP_ADDMOD), (0x09, Op_stack OP_MULMOD), (0x0a, Op_result OP_EXP),
     (0x0b, Op_stack OP_SIGNEXTEND), (0x10, Op_stack OP_LT), (0x11, Op_stack OP_GT),
     (0x12, Op_stack OP_SLT), (0x13, Op_stack OP_SGT), (0x14, Op_stack OP_EQ), (0x15, Op_stack OP_ISZERO),
     (0x16, Op_stack OP_AND), (0x17, Op_stack OP_OR), (0x18, Op_stack OP_XOR), (0x19, Op_stack OP_NOT),
     (0x1a, Op_stack OP_BYTE), (0x1b, Op_stack OP_SHL), (0x1c, Op_stack OP_SHR), (0x1d, Op_stack OP_SAR),
     (0x20, Op_result OP_KECCAK256), (0x30, Op_state OP_ADDRESS), (0x31, Op_result OP_BALANCE),
     (0x32, Op_state OP_ORIGIN), (0x33, Op_state OP_CALLER), (0x34, Op_state OP_CALLVALUE),
     (0x35, Op_state OP_CALLDATALOAD), (0x36, Op_state OP_CALLDATASIZE), (0x37, Op_result OP_CALLDATACOPY),
     (0x38, Op_state OP_CODESIZE), (0x39, Op_result OP_CODECOPY), (0x3a, Op_state OP_GASPRICE),
     (0x3b, Op_result OP_EXTCODESIZE), (0x3c, Op_result OP_EXTCODECOPY),
     (0x3d, Op_state OP_RETURNDATASIZE), (0x3e, Op_result OP_RETURNDATACOPY),
     (0x3f, Op_result OP_EXTCODEHASH), (0x40, Op_state OP_BLOCKHASH), (0x41, Op_state OP_COINBASE),
     (0x42, Op_state OP_TIMESTAMP), (0x43, Op_state OP_NUMBER), (0x44, Op_state OP_PREVRANDAO),
     (0x45, Op_state OP_GASLIMIT), (0x46, Op_state OP_CHAINID), (0x47, Op_state OP_SELFBALANCE),
     (0x48, Op_state OP_BASEFEE), (0x50, Op_stack OP_POP), (0x51, Op_result OP_MLOAD),
     (0x52, Op_result OP_MSTORE), (0x53, Op_result OP_MSTORE8), (0x54, Op_result OP_SLOAD),
     (0x55, Op_result OP_SSTORE), (0x56, Op_code OP_JUMP), (0x57, Op_code OP_JUMPI), (0x58, Op_code OP_PC),
     (0x59, Op_state OP_MSIZE), (0x5a, Op_result OP_GAS), (0x5b, Op_stack OP_JUMPDEST),
     (0x5c, Op_code OP_RJUMP), (0x5d, Op_code OP_RJUMPI), (0x5e, Op_code OP_RJUMPV),
     (0x5f, Op_stack OP_PUSH0), (0xb0, Op_code OP_CALLF), (0xb1, Op_code OP_RETF), (0xb5, Op_code OP_DUPN),
     (0xb6, Op_code OP_SWAPN), (0xf0, Op_result OP_CREATE), (0xf1, Op_result OP_CALL),
     (0xf2, Op_result OP_CALLCODE), (0xf3, Op_term OP_RETURN), (0xf4, Op_result OP_DELEGATECALL),
     (0xf5, Op_result OP_CREATE2), (0xfa, Op_result OP_STATICCALL), (0xfd, Op_term OP_REVERT),
     (0xfe, Op_term OP_INVALID), (0xff, Op_term OP_SELFDESTRUCT)]"

definition opcode_of_byte :: "byte \<Rightarrow> Opcode option" where
  "opcode_of_byte b =
     (let n = unat b in
      if 0x60 \<le> n \<and> n \<le> 0x7f then Some (Op_code (OP_PUSH (n - 0x5f)))
      else if 0x80 \<le> n \<and> n \<le> 0x8f then Some (Op_stack (OP_DUP (n - 0x7f)))
      else if 0x90 \<le> n \<and> n \<le> 0x9f then Some (Op_stack (OP_SWAP (n - 0x8f)))
      else if 0xa0 \<le> n \<and> n \<le> 0xa4 then Some (Op_result (OP_LOG (n - 0xa0)))
      else map_of opcode_table n)"

section \<open>Revisions\<close>

abbreviation (input) EVMC_FRONTIER :: nat where "EVMC_FRONTIER \<equiv> 0"
abbreviation (input) EVMC_HOMESTEAD :: nat where "EVMC_HOMESTEAD \<equiv> 1"
abbreviation (input) EVMC_TANGERINE_WHISTLE :: nat where "EVMC_TANGERINE_WHISTLE \<equiv> 2"
abbreviation (input) EVMC_SPURIOUS_DRAGON :: nat where "EVMC_SPURIOUS_DRAGON \<equiv> 3"
abbreviation (input) EVMC_BYZANTIUM :: nat where "EVMC_BYZANTIUM \<equiv> 4"
abbreviation (input) EVMC_CONSTANTINOPLE :: nat where "EVMC_CONSTANTINOPLE \<equiv> 5"
abbreviation (input) EVMC_PETERSBURG :: nat where "EVMC_PETERSBURG \<equiv> 6"
abbreviation (input) EVMC_ISTANBUL :: nat where "EVMC_ISTANBUL \<equiv> 7"
abbreviation (input) EVMC_BERLIN :: nat where "EVMC_BERLIN \<equiv> 8"
abbreviation (input) EVMC_LONDON :: nat where "EVMC_LONDON \<equiv> 9"
abbreviation (input) EVMC_PARIS :: nat where "EVMC_PARIS \<equiv> 10"
abbreviation (input) EVMC_SHANGHAI :: nat where "EVMC_SHANGHAI \<equiv> 11"
abbreviation (input) EVMC_CANCUN :: nat where "EVMC_CANCUN \<equiv> 12"
abbreviation (input) EVMC_PRAGUE :: nat where "EVMC_PRAGUE \<equiv> 13"

definition EVMC_MAX_REVISION :: nat where
  "EVMC_MAX_REVISION = EVMC_PRAGUE"

section \<open>Traits\<close>

text \<open>The names of the instructions, which only the tracer prints, are left out.\<close>

record Traits =
  immediate_size :: nat
  is_terminating :: bool
  stack_height_required :: nat
  stack_height_change :: int
  since :: nat

definition tr :: "nat \<Rightarrow> bool \<Rightarrow> nat \<Rightarrow> int \<Rightarrow> nat \<Rightarrow> Traits" where
  "tr i t r c s = \<lparr>immediate_size = i, is_terminating = t, stack_height_required = r, stack_height_change = c, since = s\<rparr>"

definition stack_traits :: "stack_op \<Rightarrow> Traits" where
  "stack_traits op =
     (case op of
        OP_ADD \<Rightarrow> tr 0 False 2 (- 1) EVMC_FRONTIER
      | OP_MUL \<Rightarrow> tr 0 False 2 (- 1) EVMC_FRONTIER
      | OP_SUB \<Rightarrow> tr 0 False 2 (- 1) EVMC_FRONTIER
      | OP_DIV \<Rightarrow> tr 0 False 2 (- 1) EVMC_FRONTIER
      | OP_SDIV \<Rightarrow> tr 0 False 2 (- 1) EVMC_FRONTIER
      | OP_MOD \<Rightarrow> tr 0 False 2 (- 1) EVMC_FRONTIER
      | OP_SMOD \<Rightarrow> tr 0 False 2 (- 1) EVMC_FRONTIER
      | OP_ADDMOD \<Rightarrow> tr 0 False 3 (- 2) EVMC_FRONTIER
      | OP_MULMOD \<Rightarrow> tr 0 False 3 (- 2) EVMC_FRONTIER
      | OP_SIGNEXTEND \<Rightarrow> tr 0 False 2 (- 1) EVMC_FRONTIER
      | OP_LT \<Rightarrow> tr 0 False 2 (- 1) EVMC_FRONTIER
      | OP_GT \<Rightarrow> tr 0 False 2 (- 1) EVMC_FRONTIER
      | OP_SLT \<Rightarrow> tr 0 False 2 (- 1) EVMC_FRONTIER
      | OP_SGT \<Rightarrow> tr 0 False 2 (- 1) EVMC_FRONTIER
      | OP_EQ \<Rightarrow> tr 0 False 2 (- 1) EVMC_FRONTIER
      | OP_ISZERO \<Rightarrow> tr 0 False 1 0 EVMC_FRONTIER
      | OP_AND \<Rightarrow> tr 0 False 2 (- 1) EVMC_FRONTIER
      | OP_OR \<Rightarrow> tr 0 False 2 (- 1) EVMC_FRONTIER
      | OP_XOR \<Rightarrow> tr 0 False 2 (- 1) EVMC_FRONTIER
      | OP_NOT \<Rightarrow> tr 0 False 1 0 EVMC_FRONTIER
      | OP_BYTE \<Rightarrow> tr 0 False 2 (- 1) EVMC_FRONTIER
      | OP_SHL \<Rightarrow> tr 0 False 2 (- 1) EVMC_CONSTANTINOPLE
      | OP_SHR \<Rightarrow> tr 0 False 2 (- 1) EVMC_CONSTANTINOPLE
      | OP_SAR \<Rightarrow> tr 0 False 2 (- 1) EVMC_CONSTANTINOPLE
      | OP_POP \<Rightarrow> tr 0 False 1 (- 1) EVMC_FRONTIER
      | OP_JUMPDEST \<Rightarrow> tr 0 False 0 0 EVMC_FRONTIER
      | OP_PUSH0 \<Rightarrow> tr 0 False 0 1 EVMC_SHANGHAI
      | OP_DUP n \<Rightarrow> tr 0 False n 1 EVMC_FRONTIER
      | OP_SWAP n \<Rightarrow> tr 0 False (n + 1) 0 EVMC_FRONTIER)"

definition state_traits :: "state_op \<Rightarrow> Traits" where
  "state_traits op =
     (case op of
        OP_ADDRESS \<Rightarrow> tr 0 False 0 1 EVMC_FRONTIER
      | OP_ORIGIN \<Rightarrow> tr 0 False 0 1 EVMC_FRONTIER
      | OP_CALLER \<Rightarrow> tr 0 False 0 1 EVMC_FRONTIER
      | OP_CALLVALUE \<Rightarrow> tr 0 False 0 1 EVMC_FRONTIER
      | OP_CALLDATALOAD \<Rightarrow> tr 0 False 1 0 EVMC_FRONTIER
      | OP_CALLDATASIZE \<Rightarrow> tr 0 False 0 1 EVMC_FRONTIER
      | OP_CODESIZE \<Rightarrow> tr 0 False 0 1 EVMC_FRONTIER
      | OP_GASPRICE \<Rightarrow> tr 0 False 0 1 EVMC_FRONTIER
      | OP_BASEFEE \<Rightarrow> tr 0 False 0 1 EVMC_LONDON
      | OP_RETURNDATASIZE \<Rightarrow> tr 0 False 0 1 EVMC_BYZANTIUM
      | OP_BLOCKHASH \<Rightarrow> tr 0 False 1 0 EVMC_FRONTIER
      | OP_COINBASE \<Rightarrow> tr 0 False 0 1 EVMC_FRONTIER
      | OP_TIMESTAMP \<Rightarrow> tr 0 False 0 1 EVMC_FRONTIER
      | OP_NUMBER \<Rightarrow> tr 0 False 0 1 EVMC_FRONTIER
      | OP_PREVRANDAO \<Rightarrow> tr 0 False 0 1 EVMC_FRONTIER
      | OP_GASLIMIT \<Rightarrow> tr 0 False 0 1 EVMC_FRONTIER
      | OP_CHAINID \<Rightarrow> tr 0 False 0 1 EVMC_ISTANBUL
      | OP_SELFBALANCE \<Rightarrow> tr 0 False 0 1 EVMC_ISTANBUL
      | OP_MSIZE \<Rightarrow> tr 0 False 0 1 EVMC_FRONTIER)"

definition result_traits :: "result_op \<Rightarrow> Traits" where
  "result_traits op =
     (case op of
        OP_EXP \<Rightarrow> tr 0 False 2 (- 1) EVMC_FRONTIER
      | OP_KECCAK256 \<Rightarrow> tr 0 False 2 (- 1) EVMC_FRONTIER
      | OP_BALANCE \<Rightarrow> tr 0 False 1 0 EVMC_FRONTIER
      | OP_CALLDATACOPY \<Rightarrow> tr 0 False 3 (- 3) EVMC_FRONTIER
      | OP_CODECOPY \<Rightarrow> tr 0 False 3 (- 3) EVMC_FRONTIER
      | OP_EXTCODESIZE \<Rightarrow> tr 0 False 1 0 EVMC_FRONTIER
      | OP_EXTCODECOPY \<Rightarrow> tr 0 False 4 (- 4) EVMC_FRONTIER
      | OP_RETURNDATACOPY \<Rightarrow> tr 0 False 3 (- 3) EVMC_BYZANTIUM
      | OP_EXTCODEHASH \<Rightarrow> tr 0 False 1 0 EVMC_CONSTANTINOPLE
      | OP_MLOAD \<Rightarrow> tr 0 False 1 0 EVMC_FRONTIER
      | OP_MSTORE \<Rightarrow> tr 0 False 2 (- 2) EVMC_FRONTIER
      | OP_MSTORE8 \<Rightarrow> tr 0 False 2 (- 2) EVMC_FRONTIER
      | OP_SLOAD \<Rightarrow> tr 0 False 1 0 EVMC_FRONTIER
      | OP_SSTORE \<Rightarrow> tr 0 False 2 (- 2) EVMC_FRONTIER
      | OP_GAS \<Rightarrow> tr 0 False 0 1 EVMC_FRONTIER
      | OP_LOG n \<Rightarrow> tr 0 False (n + 2) (- int n - 2) EVMC_FRONTIER
      | OP_CREATE \<Rightarrow> tr 0 False 3 (- 2) EVMC_FRONTIER
      | OP_CREATE2 \<Rightarrow> tr 0 False 4 (- 3) EVMC_CONSTANTINOPLE
      | OP_CALL \<Rightarrow> tr 0 False 7 (- 6) EVMC_FRONTIER
      | OP_CALLCODE \<Rightarrow> tr 0 False 7 (- 6) EVMC_FRONTIER
      | OP_DELEGATECALL \<Rightarrow> tr 0 False 6 (- 5) EVMC_HOMESTEAD
      | OP_STATICCALL \<Rightarrow> tr 0 False 6 (- 5) EVMC_BYZANTIUM)"

definition code_traits :: "code_op \<Rightarrow> Traits" where
  "code_traits op =
     (case op of
        OP_JUMP \<Rightarrow> tr 0 False 1 (- 1) EVMC_FRONTIER
      | OP_JUMPI \<Rightarrow> tr 0 False 2 (- 2) EVMC_FRONTIER
      | OP_PC \<Rightarrow> tr 0 False 0 1 EVMC_FRONTIER
      | OP_RJUMP \<Rightarrow> tr 2 False 0 0 EVMC_CANCUN
      | OP_RJUMPI \<Rightarrow> tr 2 False 1 (- 1) EVMC_CANCUN
      | OP_RJUMPV \<Rightarrow> tr 0 False 1 (- 1) EVMC_CANCUN
      | OP_PUSH n \<Rightarrow> tr n False 0 1 EVMC_FRONTIER
      | OP_DUPN \<Rightarrow> tr 1 False 0 1 EVMC_CANCUN
      | OP_SWAPN \<Rightarrow> tr 1 False 0 0 EVMC_CANCUN
      | OP_CALLF \<Rightarrow> tr 2 False 0 0 EVMC_CANCUN
      | OP_RETF \<Rightarrow> tr 0 True 0 0 EVMC_CANCUN)"

definition term_traits :: "term_op \<Rightarrow> Traits" where
  "term_traits op =
     (case op of
        OP_STOP \<Rightarrow> tr 0 True 0 0 EVMC_FRONTIER
      | OP_INVALID \<Rightarrow> tr 0 True 0 0 EVMC_FRONTIER
      | OP_RETURN \<Rightarrow> tr 0 True 2 (- 2) EVMC_FRONTIER
      | OP_REVERT \<Rightarrow> tr 0 True 2 (- 2) EVMC_BYZANTIUM
      | OP_SELFDESTRUCT \<Rightarrow> tr 0 True 1 (- 1) EVMC_FRONTIER)"

fun traits :: "Opcode \<Rightarrow> Traits" where
  "traits (Op_stack op) = stack_traits op"
| "traits (Op_state op) = state_traits op"
| "traits (Op_result op) = result_traits op"
| "traits (Op_code op) = code_traits op"
| "traits (Op_term op) = term_traits op"

section \<open>Gas costs\<close>

abbreviation (input) instr_undefined :: int where "instr_undefined \<equiv> - 1"
abbreviation (input) cold_sload_cost :: int where "cold_sload_cost \<equiv> 2100"
abbreviation (input) cold_account_access_cost :: int where "cold_account_access_cost \<equiv> 2600"
abbreviation (input) warm_storage_read_cost :: int where "warm_storage_read_cost \<equiv> 100"

definition additional_cold_account_access_cost :: int where
  "additional_cold_account_access_cost = cold_account_access_cost - warm_storage_read_cost"

definition stack_costs_frontier :: "stack_op \<Rightarrow> int" where
  "stack_costs_frontier op =
     (case op of
        OP_ADD \<Rightarrow> 3 | OP_MUL \<Rightarrow> 5 | OP_SUB \<Rightarrow> 3
      | OP_DIV \<Rightarrow> 5 | OP_SDIV \<Rightarrow> 5 | OP_MOD \<Rightarrow> 5
      | OP_SMOD \<Rightarrow> 5 | OP_ADDMOD \<Rightarrow> 8 | OP_MULMOD \<Rightarrow> 8
      | OP_SIGNEXTEND \<Rightarrow> 5 | OP_LT \<Rightarrow> 3 | OP_GT \<Rightarrow> 3
      | OP_SLT \<Rightarrow> 3 | OP_SGT \<Rightarrow> 3 | OP_EQ \<Rightarrow> 3
      | OP_ISZERO \<Rightarrow> 3 | OP_AND \<Rightarrow> 3 | OP_OR \<Rightarrow> 3
      | OP_XOR \<Rightarrow> 3 | OP_NOT \<Rightarrow> 3 | OP_BYTE \<Rightarrow> 3
      | OP_POP \<Rightarrow> 2 | OP_JUMPDEST \<Rightarrow> 1 | OP_DUP n \<Rightarrow> 3
      | OP_SWAP n \<Rightarrow> 3 | _ \<Rightarrow> instr_undefined)"

definition state_costs_frontier :: "state_op \<Rightarrow> int" where
  "state_costs_frontier op =
     (case op of
        OP_ADDRESS \<Rightarrow> 2 | OP_ORIGIN \<Rightarrow> 2 | OP_CALLER \<Rightarrow> 2
      | OP_CALLVALUE \<Rightarrow> 2 | OP_CALLDATALOAD \<Rightarrow> 3 | OP_CALLDATASIZE \<Rightarrow> 2
      | OP_CODESIZE \<Rightarrow> 2 | OP_GASPRICE \<Rightarrow> 2 | OP_BLOCKHASH \<Rightarrow> 20
      | OP_COINBASE \<Rightarrow> 2 | OP_TIMESTAMP \<Rightarrow> 2 | OP_NUMBER \<Rightarrow> 2
      | OP_PREVRANDAO \<Rightarrow> 2 | OP_GASLIMIT \<Rightarrow> 2 | OP_MSIZE \<Rightarrow> 2
      | _ \<Rightarrow> instr_undefined)"

definition result_costs_frontier :: "result_op \<Rightarrow> int" where
  "result_costs_frontier op =
     (case op of
        OP_EXP \<Rightarrow> 10 | OP_KECCAK256 \<Rightarrow> 30 | OP_BALANCE \<Rightarrow> 20
      | OP_CALLDATACOPY \<Rightarrow> 3 | OP_CODECOPY \<Rightarrow> 3 | OP_EXTCODESIZE \<Rightarrow> 20
      | OP_EXTCODECOPY \<Rightarrow> 20 | OP_MLOAD \<Rightarrow> 3 | OP_MSTORE \<Rightarrow> 3
      | OP_MSTORE8 \<Rightarrow> 3 | OP_SLOAD \<Rightarrow> 50 | OP_SSTORE \<Rightarrow> 0
      | OP_GAS \<Rightarrow> 2 | OP_LOG n \<Rightarrow> (int n + 1) * 375
      | OP_CREATE \<Rightarrow> 32000 | OP_CALL \<Rightarrow> 40 | OP_CALLCODE \<Rightarrow> 40
      | _ \<Rightarrow> instr_undefined)"

definition code_costs_frontier :: "code_op \<Rightarrow> int" where
  "code_costs_frontier op =
     (case op of
        OP_JUMP \<Rightarrow> 8 | OP_JUMPI \<Rightarrow> 10 | OP_PC \<Rightarrow> 2
      | OP_PUSH n \<Rightarrow> 3 | _ \<Rightarrow> instr_undefined)"

definition term_costs_frontier :: "term_op \<Rightarrow> int" where
  "term_costs_frontier op =
     (case op of
        OP_STOP \<Rightarrow> 0 | OP_INVALID \<Rightarrow> 0 | OP_RETURN \<Rightarrow> 0
      | OP_SELFDESTRUCT \<Rightarrow> 0 | _ \<Rightarrow> instr_undefined)"

fun gas_costs_frontier :: "Opcode \<Rightarrow> int" where
  "gas_costs_frontier (Op_stack op) = stack_costs_frontier op"
| "gas_costs_frontier (Op_state op) = state_costs_frontier op"
| "gas_costs_frontier (Op_result op) = result_costs_frontier op"
| "gas_costs_frontier (Op_code op) = code_costs_frontier op"
| "gas_costs_frontier (Op_term op) = term_costs_frontier op"

text \<open>What a revision changes of the table of the revision before it.\<close>

definition gas_costs_update :: "nat \<Rightarrow> Opcode \<Rightarrow> int option" where
  "gas_costs_update r =
     (if r = EVMC_HOMESTEAD then
        map_of [(Op_result OP_DELEGATECALL, 40)]
      else if r = EVMC_TANGERINE_WHISTLE then
        map_of [(Op_result OP_BALANCE, 400), (Op_result OP_EXTCODESIZE, 700),
          (Op_result OP_EXTCODECOPY, 700), (Op_result OP_SLOAD, 200), (Op_result OP_CALL, 700),
          (Op_result OP_CALLCODE, 700), (Op_result OP_DELEGATECALL, 700),
          (Op_term OP_SELFDESTRUCT, 5000)]
      else if r = EVMC_BYZANTIUM then
        map_of [(Op_state OP_RETURNDATASIZE, 2), (Op_result OP_RETURNDATACOPY, 3),
          (Op_result OP_STATICCALL, 700), (Op_term OP_REVERT, 0)]
      else if r = EVMC_CONSTANTINOPLE then
        map_of [(Op_stack OP_SHL, 3), (Op_stack OP_SHR, 3), (Op_stack OP_SAR, 3),
          (Op_result OP_EXTCODEHASH, 400), (Op_result OP_CREATE2, 32000)]
      else if r = EVMC_ISTANBUL then
        map_of [(Op_result OP_BALANCE, 700), (Op_state OP_CHAINID, 2), (Op_result OP_EXTCODEHASH, 700),
          (Op_state OP_SELFBALANCE, 5), (Op_result OP_SLOAD, 800)]
      else if r = EVMC_BERLIN then
        map_of [(Op_result OP_EXTCODESIZE, warm_storage_read_cost),
          (Op_result OP_EXTCODECOPY, warm_storage_read_cost),
          (Op_result OP_EXTCODEHASH, warm_storage_read_cost),
          (Op_result OP_BALANCE, warm_storage_read_cost), (Op_result OP_CALL, warm_storage_read_cost),
          (Op_result OP_CALLCODE, warm_storage_read_cost),
          (Op_result OP_DELEGATECALL, warm_storage_read_cost),
          (Op_result OP_STATICCALL, warm_storage_read_cost),
          (Op_result OP_SLOAD, warm_storage_read_cost)]
      else if r = EVMC_LONDON then
        map_of [(Op_state OP_BASEFEE, 2)]
      else if r = EVMC_SHANGHAI then
        map_of [(Op_stack OP_PUSH0, 2)]
      else if r = EVMC_CANCUN then
        map_of [(Op_code OP_DUPN, 3), (Op_code OP_SWAPN, 3), (Op_code OP_RJUMP, 2),
          (Op_code OP_RJUMPI, 4), (Op_code OP_RJUMPV, 4), (Op_code OP_CALLF, 5), (Op_code OP_RETF, 3)]
      else Map.empty)"

primrec gas_costs :: "nat \<Rightarrow> Opcode \<Rightarrow> int" where
  "gas_costs 0 op = gas_costs_frontier op"
| "gas_costs (Suc r) op = (case gas_costs_update (Suc r) op of Some c \<Rightarrow> c | None \<Rightarrow> gas_costs r op)"

definition has_const_gas_cost :: "Opcode \<Rightarrow> bool" where
  "has_const_gas_cost op =
     list_all (\<lambda>r. gas_costs r op = gas_costs EVMC_FRONTIER op) [1..<Suc EVMC_MAX_REVISION]"

type_synonym CostTable = "Opcode \<Rightarrow> int"

text \<open>Both tables take opcodes away in the revision \<open>EVMC_CANCUN\<close> only.\<close>

definition legacy_cost_tables :: "nat \<Rightarrow> CostTable" where
  "legacy_cost_tables r op =
     (if r = EVMC_CANCUN \<and> op \<in> Op_code ` {OP_RJUMP, OP_RJUMPI, OP_RJUMPV, OP_CALLF, OP_RETF} then instr_undefined
      else gas_costs r op)"

definition eof_cost_tables :: "nat \<Rightarrow> CostTable" where
  "eof_cost_tables r op =
     (if r = EVMC_CANCUN \<and> op \<in> {Op_code OP_JUMP, Op_code OP_JUMPI, Op_code OP_PC, Op_result OP_CALLCODE, Op_term OP_SELFDESTRUCT} then instr_undefined
      else gas_costs r op)"

definition get_baseline_cost_table :: "nat \<Rightarrow> nat \<Rightarrow> CostTable" where
  "get_baseline_cost_table r version = (if version = 0 then legacy_cost_tables r else eof_cost_tables r)"

section \<open>Storage costs\<close>

record StorageCostSpec =
  net_cost :: bool
  warm_access :: int
  cost_set :: int
  cost_reset :: int
  cost_clear :: int

definition cost_spec :: "bool \<Rightarrow> int \<Rightarrow> int \<Rightarrow> int \<Rightarrow> int \<Rightarrow> StorageCostSpec" where
  "cost_spec n w s r c = \<lparr>net_cost = n, warm_access = w, cost_set = s, cost_reset = r, cost_clear = c\<rparr>"

text \<open>
  The table is filled up to \<open>EVMC_CANCUN\<close>; the entry of \<open>EVMC_PRAGUE\<close> keeps its zero initialisation.
\<close>

definition storage_cost_spec :: "nat \<Rightarrow> StorageCostSpec" where
  "storage_cost_spec r =
     (if r \<in> {EVMC_FRONTIER, EVMC_HOMESTEAD, EVMC_TANGERINE_WHISTLE, EVMC_SPURIOUS_DRAGON, EVMC_BYZANTIUM, EVMC_PETERSBURG}
        then cost_spec False 200 20000 5000 15000
      else if r = EVMC_CONSTANTINOPLE then cost_spec True 200 20000 5000 15000
      else if r = EVMC_ISTANBUL then cost_spec True 800 20000 5000 15000
      else if r = EVMC_BERLIN then cost_spec True warm_storage_read_cost 20000 (5000 - cold_sload_cost) 15000
      else if r \<in> {EVMC_LONDON, EVMC_PARIS, EVMC_SHANGHAI, EVMC_CANCUN}
        then cost_spec True warm_storage_read_cost 20000 (5000 - cold_sload_cost) 4800
      else cost_spec False 0 0 0 0)"

text \<open>The pair of cost and refund for each status.\<close>

definition sstore_costs :: "nat \<Rightarrow> evmc_storage_status \<Rightarrow> int \<times> int" where
  "sstore_costs r status =
     (let c = storage_cost_spec r in
      if \<not> net_cost c then
        (case status of
           EVMC_STORAGE_ADDED \<Rightarrow> (cost_set c, 0)
         | EVMC_STORAGE_DELETED \<Rightarrow> (cost_reset c, cost_clear c)
         | EVMC_STORAGE_MODIFIED \<Rightarrow> (cost_reset c, 0)
         | EVMC_STORAGE_ASSIGNED \<Rightarrow> (cost_reset c, 0)
         | EVMC_STORAGE_DELETED_ADDED \<Rightarrow> (cost_set c, 0)
         | EVMC_STORAGE_MODIFIED_DELETED \<Rightarrow> (cost_reset c, cost_clear c)
         | EVMC_STORAGE_DELETED_RESTORED \<Rightarrow> (cost_set c, 0)
         | EVMC_STORAGE_ADDED_DELETED \<Rightarrow> (cost_reset c, cost_clear c)
         | EVMC_STORAGE_MODIFIED_RESTORED \<Rightarrow> (cost_reset c, 0))
      else
        (case status of
           EVMC_STORAGE_ASSIGNED \<Rightarrow> (warm_access c, 0)
         | EVMC_STORAGE_ADDED \<Rightarrow> (cost_set c, 0)
         | EVMC_STORAGE_DELETED \<Rightarrow> (cost_reset c, cost_clear c)
         | EVMC_STORAGE_MODIFIED \<Rightarrow> (cost_reset c, 0)
         | EVMC_STORAGE_DELETED_ADDED \<Rightarrow> (warm_access c, - cost_clear c)
         | EVMC_STORAGE_MODIFIED_DELETED \<Rightarrow> (warm_access c, cost_clear c)
         | EVMC_STORAGE_DELETED_RESTORED \<Rightarrow> (warm_access c, cost_reset c - warm_access c - cost_clear c)
         | EVMC_STORAGE_ADDED_DELETED \<Rightarrow> (warm_access c, cost_set c - warm_access c)
         | EVMC_STORAGE_MODIFIED_RESTORED \<Rightarrow> (warm_access c, cost_reset c - warm_access c)))"

end
