(* ===== verification/EvmInstr.thy ===== *)
theory EvmInstr
  imports EvmTables
begin

text \<open>
  The instructions of the interpreter (\<^verbatim>\<open>pkgs/evmweak/execution_state.hpp\<close>, \<^verbatim>\<open>instructions.hpp\<close>,
  \<^verbatim>\<open>instructions_storage.cpp\<close>, \<^verbatim>\<open>instructions_calls.cpp\<close>). The stack is the list of its items, the top
  first; an access below its bottom, outside the memory or outside the code is undefined behaviour.
  \<open>ethash::keccak256\<close> and the host's \<open>call\<close>, which executes another message, are the fields of
  \<open>evm_env\<close>.
\<close>

section \<open>The execution state\<close>

record CodeAnalysis =
  executable_code :: bytes
  code_buffer :: bytes  \<comment> \<open>the bytes that can be read from \<open>executable_code.data()\<close>, padding included\<close>
  jumpdest_map :: "bool list"
  eof_header :: EOF1Header

record ExecutionState =
  es_gas_refund :: int
  es_memory :: bytes
  es_msg :: evmc_message
  es_host :: WeakEvmHost
  es_rev :: nat
  es_return_data :: bytes
  es_original_code :: bytes
  es_status :: evmc_status_code
  es_output_offset :: nat
  es_output_size :: nat
  es_tx :: evmc_tx_context
  es_analysis :: CodeAnalysis
  es_call_stack :: "int list"

type_synonym stack = "uint256 list"

text \<open>An instruction that can fail: its status, the gas left, and what it did to stack and state.\<close>

type_synonym instr_result = "(evmc_status_code \<times> int \<times> stack \<times> ExecutionState) vm"

record evm_env =
  env_keccak :: keccak256
  env_call :: "evmc_message \<Rightarrow> WeakEvmHost \<Rightarrow> (evmc_result \<times> WeakEvmHost) vm"

abbreviation (input) stack_limit :: nat where "stack_limit \<equiv> 1024"

definition in_static_mode :: "ExecutionState \<Rightarrow> bool" where
  "in_static_mode st \<longleftrightarrow> msg_flags (es_msg st) AND EVMC_STATIC \<noteq> 0"

definition get_tx_context :: "ExecutionState \<Rightarrow> evmc_tx_context \<times> ExecutionState" where
  "get_tx_context st =
     (let st' = (if block_timestamp (es_tx st) = 0 then st\<lparr>es_tx := host_get_tx_context (es_host st)\<rparr> else st)
      in (es_tx st', st'))"

text \<open>Signed 64-bit arithmetic: an overflow is undefined.\<close>

definition i64 :: "int \<Rightarrow> int vm" where
  "i64 x = (if - 9223372036854775808 \<le> x \<and> x \<le> INT64_MAX then Inr x else Inl Undefined_behaviour)"

section \<open>Memory\<close>

definition mem_read :: "ExecutionState \<Rightarrow> nat \<Rightarrow> nat \<Rightarrow> bytes vm" where
  "mem_read st off n =
     (if off + n \<le> length (es_memory st) then Inr (take n (drop off (es_memory st))) else Inl Undefined_behaviour)"

text \<open>\<open>memcpy\<close> and \<open>memset\<close> into the memory, which the sources skip for an empty range.\<close>

definition mem_write :: "ExecutionState \<Rightarrow> nat \<Rightarrow> bytes \<Rightarrow> ExecutionState vm" where
  "mem_write st off bs =
     (if bs = [] then Inr st
      else if off + length bs \<le> length (es_memory st)
        then Inr (st\<lparr>es_memory := take off (es_memory st) @ bs @ drop (off + length bs) (es_memory st)\<rparr>)
      else Inl Undefined_behaviour)"

definition max_buffer_size :: nat where
  "max_buffer_size = 4294967295"

definition num_words :: "nat \<Rightarrow> int" where
  "num_words size_in_bytes = int ((size_in_bytes + 31) mod 2 ^ 64 div 32)"

definition memory_grow :: "bytes \<Rightarrow> nat \<Rightarrow> bytes" where
  "memory_grow m new_size = m @ replicate (new_size - length m) 0"

definition grow_memory :: "int \<Rightarrow> bytes \<Rightarrow> nat \<Rightarrow> int \<times> bytes" where
  "grow_memory gas_left m new_size =
     (let new_words = num_words new_size;
          current_words = int (length m div 32);
          new_cost = 3 * new_words + new_words * new_words div 512;
          current_cost = 3 * current_words + current_words * current_words div 512;
          cost = new_cost - current_cost;
          gas_left' = gas_left - cost
      in if gas_left' \<ge> 0 then (gas_left', memory_grow m (nat (new_words * 32))) else (gas_left', m))"

text \<open>\<open>check_memory\<close> with a 64-bit size.\<close>

definition check_memory64 :: "int \<Rightarrow> bytes \<Rightarrow> uint256 \<Rightarrow> nat \<Rightarrow> bool \<times> int \<times> bytes" where
  "check_memory64 gas_left m offset sz =
     (if limb offset 3 OR limb offset 2 OR limb offset 1 \<noteq> 0 \<or> low64 offset > max_buffer_size then (False, gas_left, m)
      else
        (let new_size = low64 offset + sz;
             (g, m') = (if new_size > length m then grow_memory gas_left m new_size else (gas_left, m))
         in (g \<ge> 0, g, m')))"

definition check_memory :: "int \<Rightarrow> bytes \<Rightarrow> uint256 \<Rightarrow> uint256 \<Rightarrow> bool \<times> int \<times> bytes" where
  "check_memory gas_left m offset sz =
     (if sz = 0 then (True, gas_left, m)
      else if limb sz 3 OR limb sz 2 OR limb sz 1 \<noteq> 0 \<or> low64 sz > max_buffer_size then (False, gas_left, m)
      else check_memory64 gas_left m offset (low64 sz))"

text \<open>
  The three recurring statements: \<open>if (!check_memory(...)) return {EVMC_OUT_OF_GAS, gas_left};\<close>,
  \<open>if ((gas_left -= cost) < 0) return {EVMC_OUT_OF_GAS, gas_left};\<close>, and the charge for a cold account.
\<close>

definition with_memory :: "int \<Rightarrow> ExecutionState \<Rightarrow> stack \<Rightarrow> uint256 \<Rightarrow> uint256
    \<Rightarrow> (int \<Rightarrow> ExecutionState \<Rightarrow> instr_result) \<Rightarrow> instr_result" where
  "with_memory gas st s offset sz k =
     (let (ok, g, m) = check_memory gas (es_memory st) offset sz; st' = st\<lparr>es_memory := m\<rparr>
      in if \<not> ok then Inr (EVMC_OUT_OF_GAS, g, s, st') else k g st')"

definition with_memory64 :: "int \<Rightarrow> ExecutionState \<Rightarrow> stack \<Rightarrow> uint256 \<Rightarrow> nat
    \<Rightarrow> (int \<Rightarrow> ExecutionState \<Rightarrow> instr_result) \<Rightarrow> instr_result" where
  "with_memory64 gas st s offset sz k =
     (let (ok, g, m) = check_memory64 gas (es_memory st) offset sz; st' = st\<lparr>es_memory := m\<rparr>
      in if \<not> ok then Inr (EVMC_OUT_OF_GAS, g, s, st') else k g st')"

definition charge :: "int \<Rightarrow> int \<Rightarrow> stack \<Rightarrow> ExecutionState \<Rightarrow> (int \<Rightarrow> instr_result) \<Rightarrow> instr_result" where
  "charge gas cost s st k = (if gas - cost < 0 then Inr (EVMC_OUT_OF_GAS, gas - cost, s, st) else k (gas - cost))"

definition charge_cold :: "int \<Rightarrow> address \<Rightarrow> int \<Rightarrow> stack \<Rightarrow> ExecutionState \<Rightarrow> (int \<Rightarrow> instr_result) \<Rightarrow> instr_result" where
  "charge_cold gas addr cost s st k =
     (if es_rev st \<ge> EVMC_BERLIN \<and> access_account (es_host st) addr = EVMC_ACCESS_COLD then charge gas cost s st k
      else k gas)"

section \<open>Stack instructions\<close>

definition core_add :: "uint256 \<Rightarrow> uint256 \<Rightarrow> uint256" where "core_add a b = b + a"
definition core_mul :: "uint256 \<Rightarrow> uint256 \<Rightarrow> uint256" where "core_mul a b = b * a"
definition core_sub :: "uint256 \<Rightarrow> uint256 \<Rightarrow> uint256" where "core_sub a b = a - b"
definition core_div :: "uint256 \<Rightarrow> uint256 \<Rightarrow> uint256" where "core_div a v = (if v \<noteq> 0 then a div v else 0)"
definition core_sdiv :: "uint256 \<Rightarrow> uint256 \<Rightarrow> uint256" where "core_sdiv a v = (if v \<noteq> 0 then fst (sdivrem a v) else 0)"
definition core_mod :: "uint256 \<Rightarrow> uint256 \<Rightarrow> uint256" where "core_mod a v = (if v \<noteq> 0 then a mod v else 0)"
definition core_smod :: "uint256 \<Rightarrow> uint256 \<Rightarrow> uint256" where "core_smod a v = (if v \<noteq> 0 then snd (sdivrem a v) else 0)"
definition core_addmod :: "uint256 \<Rightarrow> uint256 \<Rightarrow> uint256 \<Rightarrow> uint256" where "core_addmod x y m = (if m \<noteq> 0 then addmod x y m else 0)"
definition core_mulmod :: "uint256 \<Rightarrow> uint256 \<Rightarrow> uint256 \<Rightarrow> uint256" where "core_mulmod x y m = (if m \<noteq> 0 then mulmod x y m else 0)"

text \<open>
  \<open>signextend\<close> rewrites the limb with the sign byte and the limbs above it. \<open>sext_byte\<close> is the sign
  byte as a signed 64-bit number.
\<close>

definition core_signextend :: "uint256 \<Rightarrow> uint256 \<Rightarrow> uint256" where
  "core_signextend ext x =
     (if ext < 31 then
        (let e = low64 ext;
             sign_word_index = e div 8;
             sign_byte_index = e mod 8;
             sign_word = limb x sign_word_index;
             sign_byte_offset = sign_byte_index * 8;
             sign_byte = drop_bit sign_byte_offset sign_word;
             sext_byte = (scast (ucast sign_byte :: byte) :: u64);
             sext = push_bit sign_byte_offset sext_byte;
             sign_mask = push_bit sign_byte_offset (NOT 0);
             v = sign_word AND NOT sign_mask;
             sign_ex = signed_drop_bit 8 sext_byte
         in of_limbs (map (\<lambda>i. if i = sign_word_index then sext OR v else if i > sign_word_index then sign_ex else limb x i) [0, 1, 2, 3]))
      else x)"

definition core_lt :: "uint256 \<Rightarrow> uint256 \<Rightarrow> uint256" where "core_lt x y = of_bool (x < y)"
definition core_gt :: "uint256 \<Rightarrow> uint256 \<Rightarrow> uint256" where "core_gt x y = of_bool (y < x)"
definition core_slt :: "uint256 \<Rightarrow> uint256 \<Rightarrow> uint256" where "core_slt x y = of_bool (slt x y)"
definition core_sgt :: "uint256 \<Rightarrow> uint256 \<Rightarrow> uint256" where "core_sgt x y = of_bool (slt y x)"
definition core_eq :: "uint256 \<Rightarrow> uint256 \<Rightarrow> uint256" where "core_eq x y = of_bool (x = y)"
definition core_iszero :: "uint256 \<Rightarrow> uint256" where "core_iszero x = of_bool (x = 0)"
definition core_and :: "uint256 \<Rightarrow> uint256 \<Rightarrow> uint256" where "core_and a b = b AND a"
definition core_or :: "uint256 \<Rightarrow> uint256 \<Rightarrow> uint256" where "core_or a b = b OR a"
definition core_xor :: "uint256 \<Rightarrow> uint256 \<Rightarrow> uint256" where "core_xor a b = b XOR a"
definition core_not :: "uint256 \<Rightarrow> uint256" where "core_not a = NOT a"

definition core_byte :: "uint256 \<Rightarrow> uint256 \<Rightarrow> uint256" where
  "core_byte n x =
     (let byte_mask = (if n < 32 then 0xff else 0 :: u64);
          index = 31 - low64 n mod 32;
          wd = limb x (index div 8);
          byte_index = index mod 8
      in ucast (drop_bit (byte_index * 8) wd AND byte_mask))"

definition core_shl :: "uint256 \<Rightarrow> uint256 \<Rightarrow> uint256" where "core_shl a b = shl b a"
definition core_shr :: "uint256 \<Rightarrow> uint256 \<Rightarrow> uint256" where "core_shr a b = shr b a"

definition core_sar :: "uint256 \<Rightarrow> uint256 \<Rightarrow> uint256" where
  "core_sar y x =
     (let is_neg = sint (limb x 3) < 0;
          sign_mask = (if is_neg then NOT 0 else 0);
          mask_shift = (if y < 256 then 256 - low64 y else 0)
      in shr x y OR shl64 sign_mask mask_shift)"

text \<open>
  The stack items an instruction reads and the one it leaves. The height check has been made before:
  too short a stack is undefined.
\<close>

definition stack1 :: "(uint256 \<Rightarrow> uint256) \<Rightarrow> stack \<Rightarrow> stack vm" where
  "stack1 f s = (case s of a # r \<Rightarrow> Inr (f a # r) | _ \<Rightarrow> Inl Undefined_behaviour)"

definition stack2 :: "(uint256 \<Rightarrow> uint256 \<Rightarrow> uint256) \<Rightarrow> stack \<Rightarrow> stack vm" where
  "stack2 f s = (case s of a # b # r \<Rightarrow> Inr (f a b # r) | _ \<Rightarrow> Inl Undefined_behaviour)"

definition stack3 :: "(uint256 \<Rightarrow> uint256 \<Rightarrow> uint256 \<Rightarrow> uint256) \<Rightarrow> stack \<Rightarrow> stack vm" where
  "stack3 f s = (case s of a # b # c # r \<Rightarrow> Inr (f a b c # r) | _ \<Rightarrow> Inl Undefined_behaviour)"

definition core_pop :: "stack \<Rightarrow> stack vm" where
  "core_pop s = (case s of a # r \<Rightarrow> Inr r | _ \<Rightarrow> Inl Undefined_behaviour)"

definition core_dup :: "nat \<Rightarrow> stack \<Rightarrow> stack vm" where
  "core_dup n s = (if 1 \<le> n \<and> n \<le> length s then Inr (s ! (n - 1) # s) else Inl Undefined_behaviour)"

definition core_swap :: "nat \<Rightarrow> stack \<Rightarrow> stack vm" where
  "core_swap n s = (if n < length s then Inr (s[0 := s ! n, n := s ! 0]) else Inl Undefined_behaviour)"

definition stack_impl :: "stack_op \<Rightarrow> stack \<Rightarrow> stack vm" where
  "stack_impl op =
     (case op of
        OP_ADD \<Rightarrow> stack2 core_add | OP_MUL \<Rightarrow> stack2 core_mul | OP_SUB \<Rightarrow> stack2 core_sub
      | OP_DIV \<Rightarrow> stack2 core_div | OP_SDIV \<Rightarrow> stack2 core_sdiv | OP_MOD \<Rightarrow> stack2 core_mod
      | OP_SMOD \<Rightarrow> stack2 core_smod | OP_ADDMOD \<Rightarrow> stack3 core_addmod | OP_MULMOD \<Rightarrow> stack3 core_mulmod
      | OP_SIGNEXTEND \<Rightarrow> stack2 core_signextend
      | OP_LT \<Rightarrow> stack2 core_lt | OP_GT \<Rightarrow> stack2 core_gt | OP_SLT \<Rightarrow> stack2 core_slt | OP_SGT \<Rightarrow> stack2 core_sgt
      | OP_EQ \<Rightarrow> stack2 core_eq | OP_ISZERO \<Rightarrow> stack1 core_iszero
      | OP_AND \<Rightarrow> stack2 core_and | OP_OR \<Rightarrow> stack2 core_or | OP_XOR \<Rightarrow> stack2 core_xor | OP_NOT \<Rightarrow> stack1 core_not
      | OP_BYTE \<Rightarrow> stack2 core_byte | OP_SHL \<Rightarrow> stack2 core_shl | OP_SHR \<Rightarrow> stack2 core_shr | OP_SAR \<Rightarrow> stack2 core_sar
      | OP_POP \<Rightarrow> core_pop | OP_JUMPDEST \<Rightarrow> Inr | OP_PUSH0 \<Rightarrow> (\<lambda>s. Inr (0 # s))
      | OP_DUP n \<Rightarrow> core_dup n | OP_SWAP n \<Rightarrow> core_swap n)"

section \<open>Instructions that read the environment\<close>

definition core_calldataload :: "ExecutionState \<Rightarrow> uint256 \<Rightarrow> uint256" where
  "core_calldataload st index =
     (let input = msg_input (es_msg st) in
      if word_of_nat (length input) < index then 0
      else
        (let begin_i = low64 index;
             end_i = min (begin_i + 32) (length input);
             data = take (end_i - begin_i) (drop begin_i input)
         in be_load (data @ replicate (32 - (end_i - begin_i)) 0)))"

definition core_blockhash :: "ExecutionState \<Rightarrow> uint256 \<Rightarrow> uint256" where
  "core_blockhash st num =
     (let upper_bound = block_number (fst (get_tx_context st));
          lower_bound = max (upper_bound - 256) 0;
          n = sint (limb num 0)
      in be_load (if num < word_of_int upper_bound \<and> n \<ge> lower_bound then get_block_hash (es_host st) n
                  else replicate 32 0))"

text \<open>The values that the other instructions of this group push, from the state or from the transaction context.\<close>

definition core_address :: "ExecutionState \<Rightarrow> uint256" where "core_address st = be_load (msg_recipient (es_msg st))"
definition core_origin :: "evmc_tx_context \<Rightarrow> uint256" where "core_origin t = be_load (tx_origin t)"
definition core_caller :: "ExecutionState \<Rightarrow> uint256" where "core_caller st = be_load (msg_sender (es_msg st))"
definition core_callvalue :: "ExecutionState \<Rightarrow> uint256" where "core_callvalue st = be_load (msg_value (es_msg st))"
definition core_calldatasize :: "ExecutionState \<Rightarrow> uint256" where "core_calldatasize st = word_of_nat (length (msg_input (es_msg st)))"
definition core_codesize :: "ExecutionState \<Rightarrow> uint256" where "core_codesize st = word_of_nat (length (es_original_code st))"
definition core_gasprice :: "evmc_tx_context \<Rightarrow> uint256" where "core_gasprice t = be_load (tx_gas_price t)"
definition core_basefee :: "evmc_tx_context \<Rightarrow> uint256" where "core_basefee t = be_load (block_base_fee t)"
definition core_returndatasize :: "ExecutionState \<Rightarrow> uint256" where "core_returndatasize st = word_of_nat (length (es_return_data st))"
definition core_coinbase :: "evmc_tx_context \<Rightarrow> uint256" where "core_coinbase t = be_load (block_coinbase t)"
definition core_timestamp :: "evmc_tx_context \<Rightarrow> uint256" where "core_timestamp t = ucast (word_of_int (block_timestamp t) :: u64)"
definition core_number :: "evmc_tx_context \<Rightarrow> uint256" where "core_number t = ucast (word_of_int (block_number t) :: u64)"
definition core_prevrandao :: "evmc_tx_context \<Rightarrow> uint256" where "core_prevrandao t = be_load (block_prev_randao t)"
definition core_gaslimit :: "evmc_tx_context \<Rightarrow> uint256" where "core_gaslimit t = ucast (word_of_int (block_gas_limit t) :: u64)"
definition core_chainid :: "evmc_tx_context \<Rightarrow> uint256" where "core_chainid t = be_load (chain_id t)"
definition core_selfbalance :: "ExecutionState \<Rightarrow> uint256" where
  "core_selfbalance st = be_load (get_balance (es_host st) (msg_recipient (es_msg st)))"
definition core_msize :: "ExecutionState \<Rightarrow> uint256" where "core_msize st = word_of_nat (length (es_memory st))"

definition state_impl :: "state_op \<Rightarrow> stack \<Rightarrow> ExecutionState \<Rightarrow> (stack \<times> ExecutionState) vm" where
  "state_impl op s st =
     (let push = (\<lambda>f. Inr (f st # s, st));
          push_tx = (\<lambda>f. Inr (f (fst (get_tx_context st)) # s, snd (get_tx_context st)));
          map_top = (\<lambda>f st'. bind_vm (stack1 f s) (\<lambda>s'. Inr (s', st')))
      in case op of
        OP_ADDRESS \<Rightarrow> push core_address | OP_ORIGIN \<Rightarrow> push_tx core_origin | OP_CALLER \<Rightarrow> push core_caller
      | OP_CALLVALUE \<Rightarrow> push core_callvalue | OP_CALLDATALOAD \<Rightarrow> map_top (core_calldataload st) st
      | OP_CALLDATASIZE \<Rightarrow> push core_calldatasize | OP_CODESIZE \<Rightarrow> push core_codesize
      | OP_GASPRICE \<Rightarrow> push_tx core_gasprice | OP_BASEFEE \<Rightarrow> push_tx core_basefee
      | OP_RETURNDATASIZE \<Rightarrow> push core_returndatasize
      | OP_BLOCKHASH \<Rightarrow> map_top (core_blockhash st) (snd (get_tx_context st))
      | OP_COINBASE \<Rightarrow> push_tx core_coinbase | OP_TIMESTAMP \<Rightarrow> push_tx core_timestamp | OP_NUMBER \<Rightarrow> push_tx core_number
      | OP_PREVRANDAO \<Rightarrow> push_tx core_prevrandao | OP_GASLIMIT \<Rightarrow> push_tx core_gaslimit | OP_CHAINID \<Rightarrow> push_tx core_chainid
      | OP_SELFBALANCE \<Rightarrow> push core_selfbalance | OP_MSIZE \<Rightarrow> push core_msize)"

section \<open>Instructions that charge gas\<close>

definition core_exp :: "stack \<Rightarrow> int \<Rightarrow> ExecutionState \<Rightarrow> instr_result" where
  "core_exp s gas st =
     (case s of
        base # exponent # r \<Rightarrow>
          let exponent_significant_bytes = count_significant_bytes exponent;
              exponent_cost = (if es_rev st \<ge> EVMC_SPURIOUS_DRAGON then 50 else 10);
              additional_cost = int exponent_significant_bytes * exponent_cost
          in charge gas additional_cost s st (\<lambda>g. Inr (EVMC_SUCCESS, g, exp256 base exponent # r, st))
      | _ \<Rightarrow> Inl Undefined_behaviour)"

definition core_keccak256 :: "keccak256 \<Rightarrow> stack \<Rightarrow> int \<Rightarrow> ExecutionState \<Rightarrow> instr_result" where
  "core_keccak256 keccak s gas st =
     (case s of
        index # sz # r \<Rightarrow>
          with_memory gas st s index sz (\<lambda>g st1.
            let i = low64 index; n = low64 sz; cost = num_words n * 6 in
            charge g cost s st1 (\<lambda>g'.
              bind_vm (if n \<noteq> 0 then mem_read st1 i n else Inr []) (\<lambda>data.
                Inr (EVMC_SUCCESS, g', be_load (keccak data) # r, st1))))
      | _ \<Rightarrow> Inl Undefined_behaviour)"

text \<open>\<open>balance\<close>, \<open>extcodesize\<close> and \<open>extcodehash\<close>, which differ in what they ask the host.\<close>

definition core_balance :: "stack \<Rightarrow> int \<Rightarrow> ExecutionState \<Rightarrow> instr_result" where
  "core_balance s gas st =
     (case s of
        x # r \<Rightarrow>
          let addr = trunc_address x in
          charge_cold gas addr additional_cold_account_access_cost s st (\<lambda>g.
            Inr (EVMC_SUCCESS, g, be_load (get_balance (es_host st) addr) # r, st))
      | _ \<Rightarrow> Inl Undefined_behaviour)"

definition core_extcodesize :: "stack \<Rightarrow> int \<Rightarrow> ExecutionState \<Rightarrow> instr_result" where
  "core_extcodesize s gas st =
     (case s of
        x # r \<Rightarrow>
          let addr = trunc_address x in
          charge_cold gas addr additional_cold_account_access_cost s st (\<lambda>g.
            Inr (EVMC_SUCCESS, g, word_of_nat (get_code_size (es_host st) addr) # r, st))
      | _ \<Rightarrow> Inl Undefined_behaviour)"

definition core_extcodehash :: "keccak256 \<Rightarrow> stack \<Rightarrow> int \<Rightarrow> ExecutionState \<Rightarrow> instr_result" where
  "core_extcodehash keccak s gas st =
     (case s of
        x # r \<Rightarrow>
          let addr = trunc_address x in
          charge_cold gas addr additional_cold_account_access_cost s st (\<lambda>g.
            Inr (EVMC_SUCCESS, g, be_load (get_code_hash keccak (es_host st) addr) # r, st))
      | _ \<Rightarrow> Inl Undefined_behaviour)"

text \<open>
  The copy of \<open>calldatacopy\<close> and \<open>codecopy\<close>: as much of the source as there is from \<open>src\<close> on, then zeros.
\<close>

definition copy_padded :: "bytes \<Rightarrow> stack \<Rightarrow> int \<Rightarrow> ExecutionState \<Rightarrow> instr_result" where
  "copy_padded source s gas st =
     (case s of
        mem_index # input_index # sz # r \<Rightarrow>
          with_memory gas st s mem_index sz (\<lambda>g st1.
            let dst = low64 mem_index;
                src = (if word_of_nat (length source) < input_index then length source else low64 input_index);
                n = low64 sz;
                copy_size = min n (length source - src);
                copy_cost = num_words n * 3
            in charge g copy_cost s st1 (\<lambda>g'.
                 bind_vm (mem_write st1 dst (take copy_size (drop src source))) (\<lambda>st2.
                 bind_vm (mem_write st2 (dst + copy_size) (replicate (n - copy_size) 0)) (\<lambda>st3.
                   Inr (EVMC_SUCCESS, g', r, st3)))))
      | _ \<Rightarrow> Inl Undefined_behaviour)"

definition core_calldatacopy :: "stack \<Rightarrow> int \<Rightarrow> ExecutionState \<Rightarrow> instr_result" where
  "core_calldatacopy s gas st = copy_padded (msg_input (es_msg st)) s gas st"

definition core_codecopy :: "stack \<Rightarrow> int \<Rightarrow> ExecutionState \<Rightarrow> instr_result" where
  "core_codecopy s gas st = copy_padded (es_original_code st) s gas st"

definition core_extcodecopy :: "stack \<Rightarrow> int \<Rightarrow> ExecutionState \<Rightarrow> instr_result" where
  "core_extcodecopy s gas st =
     (case s of
        x # mem_index # input_index # sz # r \<Rightarrow>
          let addr = trunc_address x in
          with_memory gas st s mem_index sz (\<lambda>g st1.
            let n = low64 sz; copy_cost = num_words n * 3 in
            charge g copy_cost s st1 (\<lambda>g1.
            charge_cold g1 addr additional_cold_account_access_cost s st1 (\<lambda>g2.
              if n > 0 then
                (let src = (if word_of_nat max_buffer_size < input_index then max_buffer_size else low64 input_index);
                     dst = low64 mem_index
                 in bind_vm (copy_code (es_host st1) addr src n) (\<lambda>data.
                    bind_vm (mem_write st1 dst data) (\<lambda>st2.
                    bind_vm (mem_write st2 (dst + length data) (replicate (n - length data) 0)) (\<lambda>st3.
                      Inr (EVMC_SUCCESS, g2, r, st3)))))
              else Inr (EVMC_SUCCESS, g2, r, st1))))
      | _ \<Rightarrow> Inl Undefined_behaviour)"

definition core_returndatacopy :: "stack \<Rightarrow> int \<Rightarrow> ExecutionState \<Rightarrow> instr_result" where
  "core_returndatacopy s gas st =
     (case s of
        mem_index # input_index # sz # r \<Rightarrow>
          with_memory gas st s mem_index sz (\<lambda>g st1.
            let dst = low64 mem_index; n = low64 sz in
            if word_of_nat (length (es_return_data st1)) < input_index then Inr (EVMC_INVALID_MEMORY_ACCESS, g, s, st1)
            else
              (let src = low64 input_index in
               if src + n > length (es_return_data st1) then Inr (EVMC_INVALID_MEMORY_ACCESS, g, s, st1)
               else
                 charge g (num_words n * 3) s st1 (\<lambda>g'.
                   bind_vm (mem_write st1 dst (take n (drop src (es_return_data st1)))) (\<lambda>st2.
                     Inr (EVMC_SUCCESS, g', r, st2)))))
      | _ \<Rightarrow> Inl Undefined_behaviour)"

definition core_mload :: "stack \<Rightarrow> int \<Rightarrow> ExecutionState \<Rightarrow> instr_result" where
  "core_mload s gas st =
     (case s of
        index # r \<Rightarrow>
          with_memory64 gas st s index 32 (\<lambda>g st1.
            bind_vm (mem_read st1 (low64 index) 32) (\<lambda>bs. Inr (EVMC_SUCCESS, g, be_load bs # r, st1)))
      | _ \<Rightarrow> Inl Undefined_behaviour)"

definition core_mstore :: "stack \<Rightarrow> int \<Rightarrow> ExecutionState \<Rightarrow> instr_result" where
  "core_mstore s gas st =
     (case s of
        index # v # r \<Rightarrow>
          with_memory64 gas st s index 32 (\<lambda>g st1.
            bind_vm (mem_write st1 (low64 index) (be_store256 v)) (\<lambda>st2. Inr (EVMC_SUCCESS, g, r, st2)))
      | _ \<Rightarrow> Inl Undefined_behaviour)"

definition core_mstore8 :: "stack \<Rightarrow> int \<Rightarrow> ExecutionState \<Rightarrow> instr_result" where
  "core_mstore8 s gas st =
     (case s of
        index # v # r \<Rightarrow>
          with_memory64 gas st s index 1 (\<lambda>g st1.
            bind_vm (mem_write st1 (low64 index) [ucast v]) (\<lambda>st2. Inr (EVMC_SUCCESS, g, r, st2)))
      | _ \<Rightarrow> Inl Undefined_behaviour)"

definition core_sload :: "stack \<Rightarrow> int \<Rightarrow> ExecutionState \<Rightarrow> instr_result" where
  "core_sload s gas st =
     (case s of
        x # r \<Rightarrow>
          let key = be_store256 x;
              k = (\<lambda>g. Inr (EVMC_SUCCESS, g, be_load (get_storage (es_host st) (msg_recipient (es_msg st)) key) # r, st))
          in if es_rev st \<ge> EVMC_BERLIN \<and> access_storage (es_host st) (msg_recipient (es_msg st)) key = EVMC_ACCESS_COLD
               then charge gas (cold_sload_cost - warm_storage_read_cost) s st k
             else k gas
      | _ \<Rightarrow> Inl Undefined_behaviour)"

definition core_sstore :: "stack \<Rightarrow> int \<Rightarrow> ExecutionState \<Rightarrow> instr_result" where
  "core_sstore s gas st =
     (if in_static_mode st then Inr (EVMC_STATIC_MODE_VIOLATION, gas, s, st)
      else if es_rev st \<ge> EVMC_ISTANBUL \<and> gas \<le> 2300 then Inr (EVMC_OUT_OF_GAS, gas, s, st)
      else
        (case s of
           k # v # r \<Rightarrow>
             let key = be_store256 k;
                 gas_cost_cold = (if es_rev st \<ge> EVMC_BERLIN \<and>
                     access_storage (es_host st) (msg_recipient (es_msg st)) key = EVMC_ACCESS_COLD then cold_sload_cost else 0)
             in bind_vm (set_storage (es_host st) (msg_recipient (es_msg st)) key (be_store256 v)) (\<lambda>(status, h').
                  let st1 = st\<lparr>es_host := h'\<rparr>;
                      (gas_cost_warm, gas_refund) = sstore_costs (es_rev st) status
                  in charge gas (gas_cost_warm + gas_cost_cold) s st1 (\<lambda>g.
                       bind_vm (i64 (es_gas_refund st1 + gas_refund)) (\<lambda>rf.
                         Inr (EVMC_SUCCESS, g, r, st1\<lparr>es_gas_refund := rf\<rparr>))))
         | _ \<Rightarrow> Inl Undefined_behaviour))"

definition core_gas :: "stack \<Rightarrow> int \<Rightarrow> ExecutionState \<Rightarrow> instr_result" where
  "core_gas s gas st = Inr (EVMC_SUCCESS, gas, word_of_int gas # s, st)"

definition core_log :: "nat \<Rightarrow> stack \<Rightarrow> int \<Rightarrow> ExecutionState \<Rightarrow> instr_result" where
  "core_log num_topics s gas st =
     (if in_static_mode st then Inr (EVMC_STATIC_MODE_VIOLATION, 0, s, st)
      else
        (case s of
           offset # sz # r \<Rightarrow>
             with_memory gas st s offset sz (\<lambda>g st1.
               let o1 = low64 offset; n = low64 sz; cost = int n * 8 in
               charge g cost s st1 (\<lambda>g'.
                 if length r < num_topics then Inl Undefined_behaviour
                 else
                   bind_vm (if n \<noteq> 0 then mem_read st1 o1 n else Inr []) (\<lambda>data.
                     Inr (EVMC_SUCCESS, g', drop num_topics r,
                       st1\<lparr>es_host := emit_log (es_host st1) (msg_recipient (es_msg st1)) data
                                        (map be_store256 (take num_topics r))\<rparr>))))
         | _ \<Rightarrow> Inl Undefined_behaviour))"

section \<open>Calls and creations\<close>

text \<open>
  The operands: \<open>STATICCALL\<close> and \<open>DELEGATECALL\<close> have no value on the stack.
\<close>

definition call_operands :: "result_op \<Rightarrow> stack
    \<Rightarrow> (uint256 \<times> uint256 \<times> uint256 \<times> uint256 \<times> uint256 \<times> uint256 \<times> uint256 \<times> stack) option" where
  "call_operands op s =
     (if op = OP_STATICCALL \<or> op = OP_DELEGATECALL then
        (case s of g # d # io # isz # oo # osz # r \<Rightarrow> Some (g, d, 0, io, isz, oo, osz, r) | _ \<Rightarrow> None)
      else
        (case s of g # d # v # io # isz # oo # osz # r \<Rightarrow> Some (g, d, v, io, isz, oo, osz, r) | _ \<Rightarrow> None))"

text \<open>
  The message of a call, its gas apart. \<open>input_offset\<close> is not used when the size is zero.
\<close>

definition call_message :: "result_op \<Rightarrow> ExecutionState \<Rightarrow> address \<Rightarrow> uint256 \<Rightarrow> bytes \<Rightarrow> evmc_message" where
  "call_message op st dst v input =
     evmc_message_default
       \<lparr>msg_kind := (if op = OP_DELEGATECALL then EVMC_DELEGATECALL else if op = OP_CALLCODE then EVMC_CALLCODE else EVMC_CALL),
        msg_flags := (if op = OP_STATICCALL then EVMC_STATIC else msg_flags (es_msg st)),
        msg_depth := msg_depth (es_msg st) + 1,
        msg_recipient := (if op = OP_CALL \<or> op = OP_STATICCALL then dst else msg_recipient (es_msg st)),
        msg_code_address := dst,
        msg_sender := (if op = OP_DELEGATECALL then msg_sender (es_msg st) else msg_recipient (es_msg st)),
        msg_value := (if op = OP_DELEGATECALL then msg_value (es_msg st) else be_store256 v),
        msg_input := input\<rparr>"

text \<open>What follows \<open>host.call(msg)\<close>: return data, output, gas and refund.\<close>

definition call_return :: "evmc_message \<Rightarrow> int \<Rightarrow> nat \<Rightarrow> nat \<Rightarrow> stack \<Rightarrow> ExecutionState \<Rightarrow> evmc_result \<Rightarrow> instr_result" where
  "call_return msg gas output_offset output_size r st res =
     (let st1 = st\<lparr>es_return_data := res_output res\<rparr>;
          top = of_bool (res_status res = EVMC_SUCCESS);
          copy_size = min output_size (length (res_output res))
      in bind_vm (mem_write st1 output_offset (take copy_size (res_output res))) (\<lambda>st2.
         bind_vm (i64 (msg_gas msg - res_gas_left res)) (\<lambda>gas_used.
         bind_vm (i64 (gas - gas_used)) (\<lambda>g.
         bind_vm (i64 (es_gas_refund st2 + res_gas_refund res)) (\<lambda>rf.
           Inr (EVMC_SUCCESS, g, top # r, st2\<lparr>es_gas_refund := rf\<rparr>))))))"

text \<open>
  From the gas of the callee on: the part of the caller's gas it gets, the stipend for a transfer, the
  limits on depth and balance, and the call.
\<close>

definition call_dispatch :: "evm_env \<Rightarrow> evmc_message \<Rightarrow> int \<Rightarrow> uint256 \<Rightarrow> uint256 \<Rightarrow> nat \<Rightarrow> nat \<Rightarrow> stack \<Rightarrow> ExecutionState
    \<Rightarrow> instr_result" where
  "call_dispatch env msg gas_left gas v output_offset output_size r st =
     (let has_value = (v \<noteq> 0);
          g0 = (if gas < word_of_int INT64_MAX then int (unat gas) else INT64_MAX) in
      if \<not> es_rev st \<ge> EVMC_TANGERINE_WHISTLE \<and> g0 > gas_left then Inr (EVMC_OUT_OF_GAS, gas_left, 0 # r, st)
      else
        (let g1 = (if es_rev st \<ge> EVMC_TANGERINE_WHISTLE then min g0 (gas_left - gas_left div 64) else g0);
             g2 = (if has_value then g1 + 2300 else g1);
             gas_left' = (if has_value then gas_left + 2300 else gas_left);
             msg' = msg\<lparr>msg_gas := g2\<rparr> in
         if msg_depth (es_msg st) \<ge> 1024 then Inr (EVMC_SUCCESS, gas_left', 0 # r, st)
         else if has_value \<and> be_load (get_balance (es_host st) (msg_recipient (es_msg st))) < v
           then Inr (EVMC_SUCCESS, gas_left', 0 # r, st)
         else
           bind_vm (env_call env msg' (es_host st)) (\<lambda>(res, h').
             call_return msg' gas_left' output_offset output_size r (st\<lparr>es_host := h'\<rparr>) res)))"

definition call_impl :: "evm_env \<Rightarrow> result_op \<Rightarrow> stack \<Rightarrow> int \<Rightarrow> ExecutionState \<Rightarrow> instr_result" where
  "call_impl env op s gas_left st =
     (case call_operands op s of
        None \<Rightarrow> Inl Undefined_behaviour
      | Some (gas, d, v, input_offset, input_size, output_offset, output_size, r) \<Rightarrow>
          let dst = trunc_address d;
              has_value = (v \<noteq> 0);
              s1 = 0 # r;
              st1 = st\<lparr>es_return_data := []\<rparr>
          in charge_cold gas_left dst additional_cold_account_access_cost s1 st1 (\<lambda>g1.
             with_memory g1 st1 s1 input_offset input_size (\<lambda>g2 st2.
             with_memory g2 st2 s1 output_offset output_size (\<lambda>g3 st3.
             bind_vm (if low64 input_size > 0 then mem_read st3 (low64 input_offset) (low64 input_size) else Inr []) (\<lambda>input.
               let msg = call_message op st3 dst v input;
                   cost0 = (if has_value then 9000 else 0);
                   cost = (if op = OP_CALL \<and> (has_value \<or> es_rev st3 < EVMC_SPURIOUS_DRAGON) \<and> \<not> account_exists (es_host st3) dst
                           then cost0 + 25000 else cost0)
               in if op = OP_CALL \<and> has_value \<and> in_static_mode st3 then Inr (EVMC_STATIC_MODE_VIOLATION, g3, s1, st3)
                  else
                    charge g3 cost s1 st3 (\<lambda>g4.
                      call_dispatch env msg g4 gas v (low64 output_offset) (low64 output_size) r st3))))))"

definition create_operands :: "result_op \<Rightarrow> stack \<Rightarrow> (uint256 \<times> uint256 \<times> uint256 \<times> uint256 \<times> stack) option" where
  "create_operands op s =
     (if op = OP_CREATE2 then
        (case s of e # off # sz # salt # r \<Rightarrow> Some (e, off, sz, salt, r) | _ \<Rightarrow> None)
      else (case s of e # off # sz # r \<Rightarrow> Some (e, off, sz, 0, r) | _ \<Rightarrow> None))"

text \<open>The recipient and the code address of the message keep their zeros.\<close>

definition create_message :: "result_op \<Rightarrow> ExecutionState \<Rightarrow> int \<Rightarrow> uint256 \<Rightarrow> uint256 \<Rightarrow> bytes \<Rightarrow> evmc_message" where
  "create_message op st gas salt endowment input =
     evmc_message_default
       \<lparr>msg_gas := (if es_rev st \<ge> EVMC_TANGERINE_WHISTLE then gas - gas div 64 else gas),
        msg_kind := (if op = OP_CREATE then EVMC_CREATE else EVMC_CREATE2),
        msg_input := input,
        msg_sender := msg_recipient (es_msg st),
        msg_depth := msg_depth (es_msg st) + 1,
        msg_create2_salt := be_store256 salt,
        msg_value := be_store256 endowment\<rparr>"

definition create_return :: "evmc_message \<Rightarrow> int \<Rightarrow> stack \<Rightarrow> ExecutionState \<Rightarrow> evmc_result \<Rightarrow> instr_result" where
  "create_return msg gas r st res =
     bind_vm (i64 (msg_gas msg - res_gas_left res)) (\<lambda>gas_used.
     bind_vm (i64 (gas - gas_used)) (\<lambda>g.
     bind_vm (i64 (es_gas_refund st + res_gas_refund res)) (\<lambda>rf.
       Inr (EVMC_SUCCESS, g, (if res_status res = EVMC_SUCCESS then be_load (res_create_address res) else 0) # r,
            st\<lparr>es_gas_refund := rf, es_return_data := res_output res\<rparr>))))"

definition create_impl :: "evm_env \<Rightarrow> result_op \<Rightarrow> stack \<Rightarrow> int \<Rightarrow> ExecutionState \<Rightarrow> instr_result" where
  "create_impl env op s gas_left st =
     (if in_static_mode st then Inr (EVMC_STATIC_MODE_VIOLATION, gas_left, s, st)
      else
        (case create_operands op s of
           None \<Rightarrow> Inl Undefined_behaviour
         | Some (endowment, off, sz, salt, r) \<Rightarrow>
             let s1 = 0 # r; st1 = st\<lparr>es_return_data := []\<rparr> in
             with_memory gas_left st1 s1 off sz (\<lambda>g1 st2.
               let n = low64 sz;
                   init_code_word_cost = (if op = OP_CREATE2 then 6 else 0) + (if es_rev st2 \<ge> EVMC_SHANGHAI then 2 else 0);
                   init_code_cost = num_words n * init_code_word_cost
               in if es_rev st2 \<ge> EVMC_SHANGHAI \<and> n > 0xC000 then Inr (EVMC_OUT_OF_GAS, g1, s1, st2)
                  else
                    charge g1 init_code_cost s1 st2 (\<lambda>g2.
                      if msg_depth (es_msg st2) \<ge> 1024 then Inr (EVMC_SUCCESS, g2, s1, st2)
                      else if endowment \<noteq> 0 \<and> be_load (get_balance (es_host st2) (msg_recipient (es_msg st2))) < endowment
                        then Inr (EVMC_SUCCESS, g2, s1, st2)
                      else
                        bind_vm (if n > 0 then mem_read st2 (low64 off) n else Inr []) (\<lambda>input.
                          let msg = create_message op st2 g2 salt endowment input in
                          bind_vm (env_call env msg (es_host st2)) (\<lambda>(res, h').
                            create_return msg g2 r (st2\<lparr>es_host := h'\<rparr>) res))))))"

definition result_impl :: "evm_env \<Rightarrow> result_op \<Rightarrow> stack \<Rightarrow> int \<Rightarrow> ExecutionState \<Rightarrow> instr_result" where
  "result_impl env op =
     (case op of
        OP_EXP \<Rightarrow> core_exp | OP_KECCAK256 \<Rightarrow> core_keccak256 (env_keccak env) | OP_BALANCE \<Rightarrow> core_balance
      | OP_CALLDATACOPY \<Rightarrow> core_calldatacopy | OP_CODECOPY \<Rightarrow> core_codecopy
      | OP_EXTCODESIZE \<Rightarrow> core_extcodesize | OP_EXTCODECOPY \<Rightarrow> core_extcodecopy
      | OP_RETURNDATACOPY \<Rightarrow> core_returndatacopy | OP_EXTCODEHASH \<Rightarrow> core_extcodehash (env_keccak env)
      | OP_MLOAD \<Rightarrow> core_mload | OP_MSTORE \<Rightarrow> core_mstore | OP_MSTORE8 \<Rightarrow> core_mstore8
      | OP_SLOAD \<Rightarrow> core_sload | OP_SSTORE \<Rightarrow> core_sstore | OP_GAS \<Rightarrow> core_gas | OP_LOG n \<Rightarrow> core_log n
      | OP_CREATE \<Rightarrow> create_impl env OP_CREATE | OP_CREATE2 \<Rightarrow> create_impl env OP_CREATE2
      | OP_CALL \<Rightarrow> call_impl env OP_CALL | OP_CALLCODE \<Rightarrow> call_impl env OP_CALLCODE
      | OP_DELEGATECALL \<Rightarrow> call_impl env OP_DELEGATECALL | OP_STATICCALL \<Rightarrow> call_impl env OP_STATICCALL)"

section \<open>Instructions that choose the next position\<close>

text \<open>
  The result is the next position, or \<open>None\<close> for the null pointer that ends the loop; positions are
  offsets from the start of the executable code.
\<close>

type_synonym code_result = "(int option \<times> stack \<times> ExecutionState) vm"

definition code_at :: "ExecutionState \<Rightarrow> int \<Rightarrow> byte vm" where
  "code_at st pos =
     (if 0 \<le> pos \<and> nat pos < length (code_buffer (es_analysis st)) then Inr (code_buffer (es_analysis st) ! nat pos)
      else Inl Undefined_behaviour)"

definition code_bytes :: "ExecutionState \<Rightarrow> int \<Rightarrow> nat \<Rightarrow> bytes vm" where
  "code_bytes st pos n =
     (if 0 \<le> pos \<and> nat pos + n \<le> length (code_buffer (es_analysis st))
      then Inr (take n (drop (nat pos) (code_buffer (es_analysis st)))) else Inl Undefined_behaviour)"

definition code_int16 :: "ExecutionState \<Rightarrow> int \<Rightarrow> int vm" where
  "code_int16 st pos = bind_vm (code_bytes st pos 2) (\<lambda>bs. read_int16_be bs 0)"

definition fail_with :: "evmc_status_code \<Rightarrow> stack \<Rightarrow> ExecutionState \<Rightarrow> code_result" where
  "fail_with sc s st = Inr (None, s, st\<lparr>es_status := sc\<rparr>)"

definition jump_impl :: "ExecutionState \<Rightarrow> uint256 \<Rightarrow> stack \<Rightarrow> code_result" where
  "jump_impl st dst s =
     (if unat dst \<ge> length (jumpdest_map (es_analysis st)) \<or> \<not> jumpdest_map (es_analysis st) ! low64 dst
      then fail_with EVMC_BAD_JUMP_DESTINATION s st
      else Inr (Some (int (low64 dst)), s, st))"

definition core_jump :: "stack \<Rightarrow> ExecutionState \<Rightarrow> int \<Rightarrow> code_result" where
  "core_jump s st pos = (case s of dst # r \<Rightarrow> jump_impl st dst r | _ \<Rightarrow> Inl Undefined_behaviour)"

definition core_jumpi :: "stack \<Rightarrow> ExecutionState \<Rightarrow> int \<Rightarrow> code_result" where
  "core_jumpi s st pos =
     (case s of
        dst # cond # r \<Rightarrow> if cond \<noteq> 0 then jump_impl st dst r else Inr (Some (pos + 1), r, st)
      | _ \<Rightarrow> Inl Undefined_behaviour)"

definition core_rjump :: "stack \<Rightarrow> ExecutionState \<Rightarrow> int \<Rightarrow> code_result" where
  "core_rjump s st pc = bind_vm (code_int16 st (pc + 1)) (\<lambda>offset. Inr (Some (pc + 3 + offset), s, st))"

definition core_rjumpi :: "stack \<Rightarrow> ExecutionState \<Rightarrow> int \<Rightarrow> code_result" where
  "core_rjumpi s st pc =
     (case s of
        cond # r \<Rightarrow> if cond \<noteq> 0 then core_rjump r st pc else Inr (Some (pc + 3), r, st)
      | _ \<Rightarrow> Inl Undefined_behaviour)"

definition core_rjumpv :: "stack \<Rightarrow> ExecutionState \<Rightarrow> int \<Rightarrow> code_result" where
  "core_rjumpv s st pc =
     (case s of
        c # r \<Rightarrow>
          bind_vm (code_at st (pc + 1)) (\<lambda>count.
            let pc_post = pc + 1 + 1 + int (unat count) * 2 in
            if unat c \<ge> unat count then Inr (Some pc_post, r, st)
            else
              bind_vm (code_int16 st (pc + 2 + int (low64 c mod 65536) * 2)) (\<lambda>rel_offset.
                Inr (Some (pc_post + rel_offset), r, st)))
      | _ \<Rightarrow> Inl Undefined_behaviour)"

definition core_pc :: "stack \<Rightarrow> ExecutionState \<Rightarrow> int \<Rightarrow> code_result" where
  "core_pc s st pos = Inr (Some (pos + 1), word_of_int pos # s, st)"

text \<open>
  \<open>load_partial_push_data<Len>\<close> reads one, two, four or eight bytes and shifts out the ones too many.
\<close>

definition load_partial_push_data :: "nat \<Rightarrow> ExecutionState \<Rightarrow> int \<Rightarrow> u64 vm" where
  "load_partial_push_data len st pos =
     (if len = 1 then bind_vm (code_bytes st pos 1) (\<lambda>bs. Inr (word_of_nat (be_nat bs)))
      else if len = 2 then bind_vm (code_bytes st pos 2) (\<lambda>bs. Inr (word_of_nat (be_nat bs)))
      else if len = 3 then bind_vm (code_bytes st pos 4) (\<lambda>bs. Inr (drop_bit 8 (word_of_nat (be_nat bs))))
      else if len = 4 then bind_vm (code_bytes st pos 4) (\<lambda>bs. Inr (word_of_nat (be_nat bs)))
      else bind_vm (code_bytes st pos 8) (\<lambda>bs. Inr (drop_bit (8 * (8 - len)) (word_of_nat (be_nat bs)))))"

text \<open>The loop that loads the full words, the most significant first.\<close>

fun load_push_words :: "nat \<Rightarrow> ExecutionState \<Rightarrow> int \<Rightarrow> u64 list vm" where
  "load_push_words 0 st pos = Inr []"
| "load_push_words (Suc k) st pos =
     bind_vm (code_bytes st pos 8) (\<lambda>bs. bind_vm (load_push_words k st (pos + 8)) (\<lambda>ws. Inr (word_of_nat (be_nat bs) # ws)))"

definition push_value :: "nat \<Rightarrow> ExecutionState \<Rightarrow> int \<Rightarrow> uint256 vm" where
  "push_value len st data =
     (let num_full_words = len div 8; num_partial_bytes = len mod 8 in
      bind_vm (if num_partial_bytes \<noteq> 0
               then bind_vm (load_partial_push_data num_partial_bytes st data) (\<lambda>w. Inr [w]) else Inr []) (\<lambda>top.
      bind_vm (load_push_words num_full_words st (data + int num_partial_bytes)) (\<lambda>ws.
        Inr (of_limbs (rev ws @ top)))))"

definition core_push :: "nat \<Rightarrow> stack \<Rightarrow> ExecutionState \<Rightarrow> int \<Rightarrow> code_result" where
  "core_push len s st pos =
     bind_vm (push_value len st (pos + 1)) (\<lambda>v. Inr (Some (pos + (int len + 1)), v # s, st))"

definition core_dupn :: "stack \<Rightarrow> ExecutionState \<Rightarrow> int \<Rightarrow> code_result" where
  "core_dupn s st pos =
     bind_vm (code_at st (pos + 1)) (\<lambda>b.
       let n = unat b + 1 in
       if length s < n then fail_with EVMC_STACK_UNDERFLOW s st
       else Inr (Some (pos + 2), s ! (n - 1) # s, st))"

definition core_swapn :: "stack \<Rightarrow> ExecutionState \<Rightarrow> int \<Rightarrow> code_result" where
  "core_swapn s st pos =
     bind_vm (code_at st (pos + 1)) (\<lambda>b.
       let n = unat b + 1 in
       if length s \<le> n then fail_with EVMC_STACK_UNDERFLOW s st
       else Inr (Some (pos + 2), s[0 := s ! n, n := s ! 0], st))"

definition core_callf :: "stack \<Rightarrow> ExecutionState \<Rightarrow> int \<Rightarrow> code_result" where
  "core_callf s st pos =
     bind_vm (code_bytes st (pos + 1) 2) (\<lambda>bs.
     bind_vm (read_uint16_be bs 0) (\<lambda>index.
       let header = eof_header (es_analysis st) in
       if index \<ge> length (eof_types header) then Inl Undefined_behaviour
       else if length s + ect_max_stack_height (eof_types header ! index) > stack_limit then fail_with EVMC_STACK_OVERFLOW s st
       else if length (es_call_stack st) \<ge> stack_limit then fail_with EVMC_STACK_OVERFLOW s st
       else if index \<ge> length (code_offsets header) then Inl Undefined_behaviour
       else
         Inr (Some (int (code_offsets header ! index) - int (code_offsets header ! 0)), s,
              st\<lparr>es_call_stack := (pos + 3) # es_call_stack st\<rparr>)))"

definition core_retf :: "stack \<Rightarrow> ExecutionState \<Rightarrow> int \<Rightarrow> code_result" where
  "core_retf s st pos =
     (case es_call_stack st of
        p # ps \<Rightarrow> Inr (Some p, s, st\<lparr>es_call_stack := ps\<rparr>)
      | [] \<Rightarrow> Inl Undefined_behaviour)"

definition code_impl :: "code_op \<Rightarrow> stack \<Rightarrow> ExecutionState \<Rightarrow> int \<Rightarrow> code_result" where
  "code_impl op =
     (case op of
        OP_JUMP \<Rightarrow> core_jump | OP_JUMPI \<Rightarrow> core_jumpi | OP_PC \<Rightarrow> core_pc | OP_RJUMP \<Rightarrow> core_rjump
      | OP_RJUMPI \<Rightarrow> core_rjumpi | OP_RJUMPV \<Rightarrow> core_rjumpv | OP_PUSH n \<Rightarrow> core_push n | OP_DUPN \<Rightarrow> core_dupn
      | OP_SWAPN \<Rightarrow> core_swapn | OP_CALLF \<Rightarrow> core_callf | OP_RETF \<Rightarrow> core_retf)"

section \<open>Terminating instructions\<close>

definition return_impl :: "evmc_status_code \<Rightarrow> stack \<Rightarrow> int \<Rightarrow> ExecutionState \<Rightarrow> instr_result" where
  "return_impl sc s gas st =
     (case s of
        offset # sz # r \<Rightarrow>
          with_memory gas st s offset sz (\<lambda>g st1.
            let st2 = st1\<lparr>es_output_size := low64 sz\<rparr>;
                st3 = (if es_output_size st2 \<noteq> 0 then st2\<lparr>es_output_offset := low64 offset\<rparr> else st2)
            in Inr (sc, g, s, st3))
      | _ \<Rightarrow> Inl Undefined_behaviour)"

definition core_selfdestruct :: "stack \<Rightarrow> int \<Rightarrow> ExecutionState \<Rightarrow> instr_result" where
  "core_selfdestruct s gas st =
     (if in_static_mode st then Inr (EVMC_STATIC_MODE_VIOLATION, gas, s, st)
      else
        (case s of
           x # r \<Rightarrow>
             let beneficiary = trunc_address x;
                 me = msg_recipient (es_msg st);
                 finish = (\<lambda>g.
                   let (registered, h') = host_selfdestruct (es_host st) me beneficiary;
                       st1 = st\<lparr>es_host := h'\<rparr>
                   in Inr (EVMC_SUCCESS, g, s,
                           if registered \<and> es_rev st < EVMC_LONDON then st1\<lparr>es_gas_refund := es_gas_refund st1 + 24000\<rparr> else st1))
             in charge_cold gas beneficiary cold_account_access_cost s st (\<lambda>g.
                  if es_rev st \<ge> EVMC_TANGERINE_WHISTLE \<and>
                     (es_rev st = EVMC_TANGERINE_WHISTLE \<or> get_balance (es_host st) me \<noteq> replicate 32 0) \<and>
                     \<not> account_exists (es_host st) beneficiary
                  then charge g 25000 s st finish
                  else finish g)
         | _ \<Rightarrow> Inl Undefined_behaviour))"

definition stop_impl :: "evmc_status_code \<Rightarrow> stack \<Rightarrow> int \<Rightarrow> ExecutionState \<Rightarrow> instr_result" where
  "stop_impl sc s gas st = Inr (sc, gas, s, st)"

definition term_impl :: "term_op \<Rightarrow> stack \<Rightarrow> int \<Rightarrow> ExecutionState \<Rightarrow> instr_result" where
  "term_impl op s gas st =
     (case op of
        OP_STOP \<Rightarrow> stop_impl EVMC_SUCCESS s gas st
      | OP_INVALID \<Rightarrow> stop_impl EVMC_INVALID_INSTRUCTION s gas st
      | OP_RETURN \<Rightarrow> return_impl EVMC_SUCCESS s gas st
      | OP_REVERT \<Rightarrow> return_impl EVMC_REVERT s gas st
      | OP_SELFDESTRUCT \<Rightarrow> core_selfdestruct s gas st)"

end
