(* ===== verification/EvmVm.thy ===== *)
theory EvmVm
  imports EvmInstr
begin

text \<open>
  The interpreter loop (\<^verbatim>\<open>pkgs/evmweak/baseline.cpp\<close>): analysis of the code, the checks before each
  instruction, the dispatch loop and \<open>execute\<close>. The loop runs on fuel, one unit per instruction.
\<close>

section \<open>Analysis of the code\<close>

text \<open>
  The loop of \<open>analyze_jumpdests\<close>. A byte at least \<open>OP_PUSH1\<close> as a signed number is one of the push
  opcodes \<^verbatim>\<open>0x60\<close> to \<^verbatim>\<open>0x7f\<close>.
\<close>

function jumpdest_loop :: "bytes \<Rightarrow> nat \<Rightarrow> bool list \<Rightarrow> bool list" where
  "jumpdest_loop c i m =
     (if i < length c then
        (let op = c ! i in
         if sint op \<ge> 0x60 then jumpdest_loop c (i + (unat op - 0x5f) + 1) m
         else if op = 0x5b then jumpdest_loop c (i + 1) (m[i := True])
         else jumpdest_loop c (i + 1) m)
      else m)"
  by pat_completeness auto
termination by (relation "measure (\<lambda>(c, i, m). length c - i)") auto

declare jumpdest_loop.simps [simp del]

definition analyze_jumpdests :: "bytes \<Rightarrow> bool list" where
  "analyze_jumpdests c = jumpdest_loop c 0 (replicate (length c) False)"

definition pad_code :: "bytes \<Rightarrow> bytes" where
  "pad_code c = c @ replicate (32 + 1) 0"

definition analyze_legacy :: "bytes \<Rightarrow> CodeAnalysis" where
  "analyze_legacy c =
     \<lparr>executable_code = c, code_buffer = pad_code c, jumpdest_map = analyze_jumpdests c, eof_header = EOF1Header_default\<rparr>"

text \<open>
  The executable code of a container is the range of its code sections; what follows it in the
  container can be read. \<open>substr\<close> throws outside the container, and \<open>execute\<close> is \<open>noexcept\<close>.
\<close>

definition analyze_eof1 :: "bytes \<Rightarrow> CodeAnalysis vm" where
  "analyze_eof1 c =
     bind_vm (read_valid_eof1_header c) (\<lambda>header.
       if code_offsets header = [] \<or> code_sizes header = [] then Inl Undefined_behaviour
       else
         (let start = code_offsets header ! 0;
              stop = last (code_offsets header) + last (code_sizes header)
          in if start > length c then Inl Process_exit
             else Inr \<lparr>executable_code = take (if stop \<ge> start then stop - start else length c) (drop start c),
                       code_buffer = drop start c, jumpdest_map = [], eof_header = header\<rparr>))"

definition analyze :: "nat \<Rightarrow> bytes \<Rightarrow> CodeAnalysis vm" where
  "analyze r c = (if r < EVMC_CANCUN \<or> \<not> is_eof_container c then Inr (analyze_legacy c) else analyze_eof1 c)"

section \<open>The loop\<close>

definition check_requirements :: "CostTable \<Rightarrow> Opcode \<Rightarrow> int \<Rightarrow> nat \<Rightarrow> evmc_status_code \<times> int" where
  "check_requirements cost_table op gas_left height =
     (let gas_cost = (if has_const_gas_cost op then gas_costs EVMC_FRONTIER op else cost_table op) in
      if \<not> has_const_gas_cost op \<and> gas_cost < 0 then (EVMC_UNDEFINED_INSTRUCTION, gas_left)
      else if stack_height_change (traits op) > 0 \<and> height = stack_limit then (EVMC_STACK_OVERFLOW, gas_left)
      else if stack_height_required (traits op) > 0 \<and> height \<le> stack_height_required (traits op) - 1
        then (EVMC_STACK_UNDERFLOW, gas_left)
      else if gas_left - gas_cost < 0 then (EVMC_OUT_OF_GAS, gas_left - gas_cost)
      else (EVMC_SUCCESS, gas_left - gas_cost))"

text \<open>The five overloads of \<open>invoke\<close>: the next position, the stack, the gas and the state.\<close>

type_synonym step_result = "(int option \<times> stack \<times> int \<times> ExecutionState) vm"

fun invoke_impl :: "evm_env \<Rightarrow> Opcode \<Rightarrow> int \<Rightarrow> stack \<Rightarrow> int \<Rightarrow> ExecutionState \<Rightarrow> step_result" where
  "invoke_impl env (Op_stack op) pos s gas st = bind_vm (stack_impl op s) (\<lambda>s'. Inr (Some (pos + 1), s', gas, st))"
| "invoke_impl env (Op_state op) pos s gas st =
     bind_vm (state_impl op s st) (\<lambda>(s', st'). Inr (Some (pos + 1), s', gas, st'))"
| "invoke_impl env (Op_result op) pos s gas st =
     bind_vm (result_impl env op s gas st) (\<lambda>(sc, g, s', st').
       if sc \<noteq> EVMC_SUCCESS then Inr (None, s', g, st'\<lparr>es_status := sc\<rparr>) else Inr (Some (pos + 1), s', g, st'))"
| "invoke_impl env (Op_code op) pos s gas st =
     bind_vm (code_impl op s st pos) (\<lambda>(next, s', st'). Inr (next, s', gas, st'))"
| "invoke_impl env (Op_term op) pos s gas st =
     bind_vm (term_impl op s gas st) (\<lambda>(sc, g, s', st'). Inr (None, s', g, st'\<lparr>es_status := sc\<rparr>))"

definition invoke :: "evm_env \<Rightarrow> CostTable \<Rightarrow> Opcode \<Rightarrow> int \<Rightarrow> stack \<Rightarrow> int \<Rightarrow> ExecutionState \<Rightarrow> step_result" where
  "invoke env cost_table op pos s gas st =
     (let (status, gas') = check_requirements cost_table op gas (length s) in
      if status \<noteq> EVMC_SUCCESS then Inr (None, s, gas', st\<lparr>es_status := status\<rparr>)
      else invoke_impl env op pos s gas' st)"

text \<open>One round of the loop: the opcode at the position, and its instruction.\<close>

definition vm_step :: "evm_env \<Rightarrow> CostTable \<Rightarrow> int \<Rightarrow> stack \<Rightarrow> int \<Rightarrow> ExecutionState \<Rightarrow> step_result" where
  "vm_step env cost_table pos s gas st =
     bind_vm (code_at st pos) (\<lambda>b.
       case opcode_of_byte b of
         None \<Rightarrow> Inr (None, s, gas, st\<lparr>es_status := EVMC_UNDEFINED_INSTRUCTION\<rparr>)
       | Some op \<Rightarrow> invoke env cost_table op pos s gas st)"

primrec dispatch :: "evm_env \<Rightarrow> CostTable \<Rightarrow> nat \<Rightarrow> int \<Rightarrow> stack \<Rightarrow> int \<Rightarrow> ExecutionState \<Rightarrow> (int \<times> ExecutionState) vm" where
  "dispatch env cost_table 0 pos s gas st = Inl Out_of_fuel"
| "dispatch env cost_table (Suc n) pos s gas st =
     bind_vm (vm_step env cost_table pos s gas st) (\<lambda>(next, s', gas', st').
       case next of None \<Rightarrow> Inr (gas', st') | Some p \<Rightarrow> dispatch env cost_table n p s' gas' st')"

definition ExecutionState_ctor :: "evmc_message \<Rightarrow> nat \<Rightarrow> WeakEvmHost \<Rightarrow> bytes \<Rightarrow> CodeAnalysis \<Rightarrow> ExecutionState" where
  "ExecutionState_ctor msg r h c an =
     \<lparr>es_gas_refund = 0, es_memory = [], es_msg = msg, es_host = h, es_rev = r, es_return_data = [],
      es_original_code = c, es_status = EVMC_SUCCESS, es_output_offset = 0, es_output_size = 0,
      es_tx = evmc_tx_context_default, es_analysis = an, es_call_stack = []\<rparr>"

definition execute :: "evm_env \<Rightarrow> nat \<Rightarrow> nat \<Rightarrow> evmc_message \<Rightarrow> WeakEvmHost \<Rightarrow> bytes \<Rightarrow> (evmc_result \<times> WeakEvmHost) vm" where
  "execute env fuel r msg h c =
     bind_vm (analyze r c) (\<lambda>an.
       let cost_table = get_baseline_cost_table r (eof_version (eof_header an)) in
       bind_vm (dispatch env cost_table fuel 0 [] (msg_gas msg) (ExecutionState_ctor msg r h c an)) (\<lambda>(gas, st).
         let gas_left = (if es_status st = EVMC_SUCCESS \<or> es_status st = EVMC_REVERT then gas else 0);
             gas_refund = (if es_status st = EVMC_SUCCESS then es_gas_refund st else 0)
         in bind_vm (if es_output_size st \<noteq> 0 then mem_read st (es_output_offset st) (es_output_size st) else Inr []) (\<lambda>out.
              Inr (make_result (es_status st) gas_left gas_refund out, es_host st))))"

end
