(* ===== verification/EvmSafety.thy ===== *)
theory EvmSafety
  imports EvmVm
begin

text \<open>
  What the interpreter guarantees of every run: the stack and the memory are only accessed inside
  their bounds, the gas never grows, and the loop ends. The facts about single instructions are
  stated with \<open>instr_ok\<close> and proved by rules for the recurring statements.
\<close>

section \<open>Costs\<close>

text \<open>A defined instruction that does not end the run costs gas; \<open>SSTORE\<close> charges it by itself.\<close>

definition free_op :: "Opcode \<Rightarrow> bool" where
  "free_op op \<longleftrightarrow> (\<exists>t. op = Op_term t) \<or> op = Op_result OP_SSTORE"

lemma frontier_cost: "gas_costs_frontier op = - 1 \<or> 1 \<le> gas_costs_frontier op \<or> free_op op \<and> 0 \<le> gas_costs_frontier op"
proof (cases op)
  case (Op_stack x)
  then show ?thesis by (cases x) (simp_all add: stack_costs_frontier_def)
next
  case (Op_state x)
  then show ?thesis by (cases x) (simp_all add: state_costs_frontier_def)
next
  case (Op_result x)
  then show ?thesis by (cases x) (simp_all add: result_costs_frontier_def free_op_def)
next
  case (Op_code x)
  then show ?thesis by (cases x) (simp_all add: code_costs_frontier_def)
next
  case (Op_term x)
  then show ?thesis by (cases x) (simp_all add: term_costs_frontier_def free_op_def)
qed

lemma update_cost: "gas_costs_update r op = Some c \<Longrightarrow> 1 \<le> c \<or> free_op op \<and> 0 \<le> c"
  by (auto simp: gas_costs_update_def free_op_def split: if_splits)

lemma gas_costs_defined: "gas_costs r op = - 1 \<or> 1 \<le> gas_costs r op \<or> free_op op \<and> 0 \<le> gas_costs r op"
proof (induction r)
  case (Suc r)
  then show ?case using update_cost [of "Suc r" op] by (auto split: option.splits)
qed (simp add: frontier_cost)

text \<open>Tables whose defined entries are the costs of a revision.\<close>

definition table_ok :: "CostTable \<Rightarrow> bool" where
  "table_ok ct \<longleftrightarrow> (\<forall>op. ct op = - 1 \<or> 1 \<le> ct op \<or> free_op op \<and> 0 \<le> ct op)"

lemma baseline_table_ok: "table_ok (get_baseline_cost_table r v)"
  using gas_costs_defined by (auto simp: table_ok_def get_baseline_cost_table_def legacy_cost_tables_def eof_cost_tables_def)

lemma const_cost_at: "has_const_gas_cost op \<Longrightarrow> r \<le> EVMC_PRAGUE \<Longrightarrow> gas_costs r op = gas_costs 0 op"
  by (cases "r = 0") (auto simp: has_const_gas_cost_def list_all_iff EVMC_MAX_REVISION_def)

lemma gas_costs_numeral:
  "gas_costs (numeral k) op = (case gas_costs_update (numeral k) op of Some c \<Rightarrow> c | None \<Rightarrow> gas_costs (pred_numeral k) op)"
  by (simp add: numeral_eq_Suc)

text \<open>Every opcode of the enumeration is defined in the last revision.\<close>

lemma prague_cost_defined: "gas_costs EVMC_PRAGUE op \<noteq> - 1"
proof (cases op)
  case (Op_stack x)
  then show ?thesis by (cases x) (simp_all add: gas_costs_numeral gas_costs_update_def stack_costs_frontier_def)
next
  case (Op_state x)
  then show ?thesis by (cases x) (simp_all add: gas_costs_numeral gas_costs_update_def state_costs_frontier_def)
next
  case (Op_result x)
  then show ?thesis by (cases x) (simp_all add: gas_costs_numeral gas_costs_update_def result_costs_frontier_def)
next
  case (Op_code x)
  then show ?thesis by (cases x) (simp_all add: gas_costs_numeral gas_costs_update_def code_costs_frontier_def)
next
  case (Op_term x)
  then show ?thesis by (cases x) (simp_all add: gas_costs_numeral gas_costs_update_def term_costs_frontier_def)
qed

text \<open>The gas that \<open>check_requirements\<close> takes.\<close>

definition base_cost :: "CostTable \<Rightarrow> Opcode \<Rightarrow> int" where
  "base_cost ct op = (if has_const_gas_cost op then gas_costs EVMC_FRONTIER op else ct op)"

lemma base_cost_pos:
  assumes "table_ok ct" "has_const_gas_cost op \<or> 0 \<le> ct op"
  shows "1 \<le> base_cost ct op \<or> free_op op \<and> 0 \<le> base_cost ct op"
proof (cases "has_const_gas_cost op")
  case True
  then have "gas_costs 0 op \<noteq> - 1" using const_cost_at [of op EVMC_PRAGUE] prague_cost_defined [of op] by simp
  then show ?thesis using True gas_costs_defined [of 0 op] by (auto simp: base_cost_def)
next
  case False
  then have "0 \<le> ct op" using assms(2) by simp
  moreover have "ct op = - 1 \<or> 1 \<le> ct op \<or> free_op op \<and> 0 \<le> ct op" using assms(1) by (simp add: table_ok_def)
  ultimately show ?thesis using False by (auto simp: base_cost_def)
qed

lemma check_requirements_ok:
  assumes "check_requirements ct op gas height = (EVMC_SUCCESS, gas')" "table_ok ct"
  shows "0 \<le> gas'" "gas' \<le> gas" "free_op op \<or> gas' < gas" "stack_height_required (traits op) \<le> height"
    "stack_height_change (traits op) > 0 \<Longrightarrow> height \<noteq> stack_limit" "has_const_gas_cost op \<or> 0 \<le> ct op"
proof -
  have d: "has_const_gas_cost op \<or> 0 \<le> ct op"
    using assms(1) by (auto simp: check_requirements_def Let_def not_less split: if_splits)
  then show "has_const_gas_cost op \<or> 0 \<le> ct op" .
  have g: "gas' = gas - base_cost ct op" "0 \<le> gas'"
    using assms(1) unfolding check_requirements_def Let_def base_cost_def by (simp_all split: if_splits)
  then show "0 \<le> gas'" "gas' \<le> gas" "free_op op \<or> gas' < gas" using base_cost_pos [OF assms(2) d] by auto
  show "stack_height_required (traits op) \<le> height" "stack_height_change (traits op) > 0 \<Longrightarrow> height \<noteq> stack_limit"
    using assms(1) unfolding check_requirements_def Let_def by (auto split: if_splits)
qed

section \<open>Memory\<close>

lemma limbs_or_commute: "limb x 3 OR limb x 2 OR limb x 1 = limb x 1 OR limb x 2 OR limb x 3"
  by (simp add: ac_simps)

lemma low64_of_small: "limb x 3 OR limb x 2 OR limb x 1 = 0 \<Longrightarrow> low64 x = unat x"
  using high_limbs_zero [of x] low64_small [of x] by (simp only: limbs_or_commute)

lemma low64_eq_0: "limb x 3 OR limb x 2 OR limb x 1 = 0 \<Longrightarrow> low64 x = 0 \<longleftrightarrow> x = 0"
  by (simp only: low64_of_small unat_eq_0)

lemma memory_cost_mono: "0 \<le> a \<Longrightarrow> a \<le> b \<Longrightarrow> 3 * a + a * a div 512 \<le> 3 * b + b * b div 512" for a b :: int
  by (intro add_mono zdiv_mono1 mult_mono) auto

lemma num_words_covers: "n \<le> 2 * max_buffer_size + 1 \<Longrightarrow> int n \<le> num_words n * 32 \<and> 0 \<le> num_words n"
  by (simp add: num_words_def max_buffer_size_def)

lemma grow_memory_ok:
  assumes "grow_memory gas m n = (g, m')" "length m < n" "n \<le> 2 * max_buffer_size + 1" "32 dvd length m"
  shows "g \<le> gas" "0 \<le> g \<Longrightarrow> n \<le> length m'" "32 dvd length m'" "length m \<le> length m'" "g < 0 \<Longrightarrow> m' = m"
proof -
  let ?w = "num_words n"
  have w: "int n \<le> ?w * 32" "0 \<le> ?w" using num_words_covers [OF assms(3)] by simp_all
  have lt: "int (length m) < ?w * 32" using w(1) assms(2) by simp
  have "int (length m div 32) \<le> ?w" using lt by linarith
  then have c: "3 * int (length m div 32) + int (length m div 32) * int (length m div 32) div 512 \<le> 3 * ?w + ?w * ?w div 512"
    by (intro memory_cost_mono) simp_all
  have "int (nat (?w * 32)) = ?w * 32" using w(2) by simp
  then have l: "length (memory_grow m (nat (?w * 32))) = nat (?w * 32)" using lt by (simp add: memory_grow_def)
  have d: "32 dvd nat (?w * 32)" using w(2) by (simp add: nat_mult_distrib)
  show "g \<le> gas" using assms(1) c by (auto simp: grow_memory_def Let_def split: if_splits)
  show "0 \<le> g \<Longrightarrow> n \<le> length m'"
    using assms(1) w l by (auto simp: grow_memory_def Let_def split: if_splits)
  show "32 dvd length m'" using assms(1,4) l d by (auto simp: grow_memory_def Let_def split: if_splits)
  show "length m \<le> length m'" using assms(1) lt l by (auto simp: grow_memory_def Let_def split: if_splits)
  show "g < 0 \<Longrightarrow> m' = m" using assms(1) by (auto simp: grow_memory_def Let_def split: if_splits)
qed

lemma check_memory64_ok:
  assumes "check_memory64 gas m off n = (ok, g, m')" "32 dvd length m" "n \<le> max_buffer_size + 1"
  shows "g \<le> gas" "ok \<Longrightarrow> low64 off + n \<le> length m'" "ok \<Longrightarrow> 0 \<le> g" "32 dvd length m'" "length m \<le> length m'"
proof -
  have "low64 off \<le> max_buffer_size" if "\<not> (limb off 3 OR limb off 2 OR limb off 1 \<noteq> 0 \<or> low64 off > max_buffer_size)"
    using that by simp
  then show "g \<le> gas" "ok \<Longrightarrow> low64 off + n \<le> length m'" "ok \<Longrightarrow> 0 \<le> g" "32 dvd length m'" "length m \<le> length m'"
    using assms grow_memory_ok [of gas m "low64 off + n"]
    by (auto simp: check_memory64_def Let_def split: if_splits prod.splits)
qed

lemma check_memory_ok:
  assumes "check_memory gas m off sz = (ok, g, m')" "32 dvd length m" "0 \<le> gas"
  shows "g \<le> gas" "ok \<Longrightarrow> sz \<noteq> 0 \<Longrightarrow> low64 off + low64 sz \<le> length m' \<and> low64 sz \<noteq> 0" "ok \<Longrightarrow> 0 \<le> g"
    "32 dvd length m'" "length m \<le> length m'" "ok \<Longrightarrow> low64 sz = 0 \<longleftrightarrow> sz = 0" "ok \<Longrightarrow> low64 sz \<le> max_buffer_size"
proof -
  consider (zero) "sz = 0" | (big) "sz \<noteq> 0" "limb sz 3 OR limb sz 2 OR limb sz 1 \<noteq> 0 \<or> low64 sz > max_buffer_size"
    | (mem) "sz \<noteq> 0" "limb sz 3 OR limb sz 2 OR limb sz 1 = 0" "low64 sz \<le> max_buffer_size"
    by fastforce
  then have "g \<le> gas \<and> (ok \<longrightarrow> sz \<noteq> 0 \<longrightarrow> low64 off + low64 sz \<le> length m' \<and> low64 sz \<noteq> 0) \<and> (ok \<longrightarrow> 0 \<le> g) \<and>
    32 dvd length m' \<and> length m \<le> length m' \<and> (ok \<longrightarrow> (low64 sz = 0 \<longleftrightarrow> sz = 0)) \<and> (ok \<longrightarrow> low64 sz \<le> max_buffer_size)"
  proof cases
    case zero
    then show ?thesis using assms by (simp add: check_memory_def low64_def limb_def)
  next
    case big
    then show ?thesis using assms by (auto simp: check_memory_def)
  next
    case mem
    then have "check_memory64 gas m off (low64 sz) = (ok, g, m')" using assms(1) by (simp add: check_memory_def)
    from check_memory64_ok [OF this assms(2)] show ?thesis using mem low64_eq_0 [of sz] by simp
  qed
  then show "g \<le> gas" "ok \<Longrightarrow> sz \<noteq> 0 \<Longrightarrow> low64 off + low64 sz \<le> length m' \<and> low64 sz \<noteq> 0" "ok \<Longrightarrow> 0 \<le> g"
    "32 dvd length m'" "length m \<le> length m'" "ok \<Longrightarrow> low64 sz = 0 \<longleftrightarrow> sz = 0" "ok \<Longrightarrow> low64 sz \<le> max_buffer_size"
    by simp_all
qed

section \<open>What an instruction may do\<close>

text \<open>
  \<open>keeps\<close>: the fields no instruction but the terminating ones touches; the memory stays a whole
  number of words and the refund counter non-negative.
\<close>

definition keeps :: "ExecutionState \<Rightarrow> ExecutionState \<Rightarrow> bool" where
  "keeps st st' \<longleftrightarrow>
     es_msg st' = es_msg st \<and> es_rev st' = es_rev st \<and> es_analysis st' = es_analysis st \<and>
     es_call_stack st' = es_call_stack st \<and> es_output_size st' = es_output_size st \<and> es_status st' = es_status st \<and>
     32 dvd length (es_memory st') \<and> 0 \<le> es_gas_refund st'"

text \<open>
  \<open>F\<close> is the set of faults that are allowed; \<open>n\<close> is the height of the stack after a success. Gas and
  refund together never grow.
\<close>

definition instr_ok :: "fault set \<Rightarrow> ExecutionState \<Rightarrow> int \<Rightarrow> nat \<Rightarrow> instr_result \<Rightarrow> bool" where
  "instr_ok F st gas n r \<longleftrightarrow>
     (case r of
        Inl f \<Rightarrow> f \<in> F
      | Inr (sc, g, s', st') \<Rightarrow>
          keeps st st' \<and> g \<le> gas \<and> es_gas_refund st' + g \<le> es_gas_refund st + gas \<and>
          (sc = EVMC_SUCCESS \<longrightarrow> 0 \<le> g \<and> length s' = n) \<and> sc \<noteq> EVMC_REVERT)"

abbreviation wf_state :: "ExecutionState \<Rightarrow> bool" where
  "wf_state st \<equiv> 32 dvd length (es_memory st) \<and> 0 \<le> es_gas_refund st"

lemma keeps_refl: "keeps st st \<longleftrightarrow> wf_state st"
  by (simp add: keeps_def)

lemma keeps_wf: "keeps st st' \<Longrightarrow> wf_state st'"
  by (simp add: keeps_def)

lemma keeps_trans: "keeps st st1 \<Longrightarrow> keeps st1 st2 \<Longrightarrow> keeps st st2"
  by (simp add: keeps_def)

lemma instr_ok_Inr [simp]:
  "instr_ok F st gas n (Inr (sc, g, s', st')) \<longleftrightarrow>
     keeps st st' \<and> g \<le> gas \<and> es_gas_refund st' + g \<le> es_gas_refund st + gas \<and> (sc = EVMC_SUCCESS \<longrightarrow> 0 \<le> g \<and> length s' = n) \<and> sc \<noteq> EVMC_REVERT"
  by (simp add: instr_ok_def)

lemma instr_ok_Inl [simp]: "instr_ok F st gas n (Inl f) \<longleftrightarrow> f \<in> F"
  by (simp add: instr_ok_def)

lemma instr_ok_trans:
  "instr_ok F st1 g n r \<Longrightarrow> keeps st st1 \<Longrightarrow> g \<le> gas \<Longrightarrow> es_gas_refund st1 + g \<le> es_gas_refund st + gas \<Longrightarrow> instr_ok F st gas n r"
  by (auto simp: instr_ok_def split: sum.splits intro: keeps_trans)

lemma charge_ok:
  assumes "0 \<le> cost" "wf_state st" "\<And>g. 0 \<le> g \<Longrightarrow> g = gas - cost \<Longrightarrow> instr_ok F st g n (k g)"
  shows "instr_ok F st gas n (charge gas cost s st k)"
  using assms by (auto simp: charge_def keeps_refl intro!: instr_ok_trans [OF assms(3)])

lemma charge_cold_ok:
  assumes "0 \<le> cost" "wf_state st" "0 \<le> gas" "\<And>g. 0 \<le> g \<Longrightarrow> g \<le> gas \<Longrightarrow> instr_ok F st g n (k g)"
  shows "instr_ok F st gas n (charge_cold gas addr cost s st k)"
  using assms unfolding charge_cold_def
  by (auto intro!: charge_ok assms(4))

text \<open>The state in which the statements after \<open>check_memory\<close> run.\<close>

definition grown :: "ExecutionState \<Rightarrow> uint256 \<Rightarrow> uint256 \<Rightarrow> ExecutionState \<Rightarrow> bool" where
  "grown st off sz st1 \<longleftrightarrow>
     (\<exists>m. st1 = st\<lparr>es_memory := m\<rparr> \<and> length (es_memory st) \<le> length m) \<and> wf_state st1 \<and>
     low64 sz \<le> max_buffer_size \<and> (low64 sz \<noteq> 0 \<longrightarrow> low64 off + low64 sz \<le> length (es_memory st1))"

lemma grown_keeps: "grown st off sz st1 \<Longrightarrow> keeps st st1"
  by (auto simp: grown_def keeps_def)

lemma with_memory_ok:
  assumes "wf_state st" "0 \<le> gas" "\<And>g st1. grown st off sz st1 \<Longrightarrow> 0 \<le> g \<Longrightarrow> g \<le> gas \<Longrightarrow> instr_ok F st1 g n (k g st1)"
  shows "instr_ok F st gas n (with_memory gas st s off sz k)"
proof -
  obtain ok g m where c: "check_memory gas (es_memory st) off sz = (ok, g, m)" by (metis prod_cases3)
  note m = check_memory_ok [OF c conjunct1 [OF assms(1)] assms(2)]
  show ?thesis
  proof (cases ok)
    case True
    have gr: "grown st off sz (st\<lparr>es_memory := m\<rparr>)" using m True assms(1) unfolding grown_def by auto
    have "instr_ok F (st\<lparr>es_memory := m\<rparr>) g n (k g (st\<lparr>es_memory := m\<rparr>))" using m True by (intro assms(3) gr) auto
    then have "instr_ok F st gas n (k g (st\<lparr>es_memory := m\<rparr>))"
      by (rule instr_ok_trans) (use m gr in \<open>auto simp: grown_keeps\<close>)
    with True show ?thesis by (simp add: with_memory_def c)
  next
    case False
    then show ?thesis using m assms(1) by (simp add: with_memory_def c keeps_def)
  qed
qed

lemma with_memory64_ok:
  assumes "wf_state st" "0 \<le> gas" "sz \<le> 32"
    and "\<And>g st1 m. st1 = st\<lparr>es_memory := m\<rparr> \<Longrightarrow> wf_state st1 \<Longrightarrow> low64 off + sz \<le> length (es_memory st1) \<Longrightarrow> 0 \<le> g \<Longrightarrow> g \<le> gas
      \<Longrightarrow> instr_ok F st1 g n (k g st1)"
  shows "instr_ok F st gas n (with_memory64 gas st s off sz k)"
proof -
  obtain ok g m where c: "check_memory64 gas (es_memory st) off sz = (ok, g, m)" by (metis prod_cases3)
  have "sz \<le> max_buffer_size + 1" using assms(3) by (simp add: max_buffer_size_def)
  note m = check_memory64_ok [OF c conjunct1 [OF assms(1)] this]
  show ?thesis
  proof (cases ok)
    case True
    have "instr_ok F (st\<lparr>es_memory := m\<rparr>) g n (k g (st\<lparr>es_memory := m\<rparr>))"
      using m True assms(1) by (intro assms(4) [where m = m]) auto
    then have "instr_ok F st gas n (k g (st\<lparr>es_memory := m\<rparr>))"
      by (rule instr_ok_trans) (use m assms(1) in \<open>auto simp: keeps_def\<close>)
    with True show ?thesis by (simp add: with_memory64_def c)
  next
    case False
    then show ?thesis using m assms(1) by (simp add: with_memory64_def c keeps_def)
  qed
qed

text \<open>Reading and writing inside the memory.\<close>

lemma mem_write_ok:
  assumes "bs = [] \<or> off + length bs \<le> length (es_memory st)"
    and "\<And>m. length m = length (es_memory st) \<Longrightarrow> instr_ok F st0 gas n (k (st\<lparr>es_memory := m\<rparr>))"
  shows "instr_ok F st0 gas n (bind_vm (mem_write st off bs) k)"
proof (cases "bs = []")
  case True
  then show ?thesis using assms(2) [of "es_memory st"] by (simp add: mem_write_def)
next
  case False
  then show ?thesis using assms by (simp add: mem_write_def)
qed

lemma mem_read_ok:
  assumes "len \<noteq> 0 \<Longrightarrow> off + len \<le> length (es_memory st)" "\<And>bs. length bs = len \<Longrightarrow> instr_ok F st0 gas n (k bs)"
  shows "instr_ok F st0 gas n (bind_vm (if len \<noteq> 0 then mem_read st off len else Inr []) k)"
  using assms by (cases "len = 0") (simp_all add: mem_read_def)

section \<open>Instructions\<close>

lemma stack_at_least:
  "1 \<le> length s \<Longrightarrow> \<exists>a r. s = a # r"
  "2 \<le> length s \<Longrightarrow> \<exists>a b r. s = a # b # r"
  "3 \<le> length s \<Longrightarrow> \<exists>a b c r. s = a # b # c # r"
  "4 \<le> length s \<Longrightarrow> \<exists>a b c d r. s = a # b # c # d # r"
  "6 \<le> length s \<Longrightarrow> \<exists>a b c d e f r. s = a # b # c # d # e # f # r"
  "7 \<le> length s \<Longrightarrow> \<exists>a b c d e f g r. s = a # b # c # d # e # f # g # r"
  by (auto simp: Suc_le_length_iff numeral_eq_Suc)

text \<open>What the state of a run satisfies before an instruction.\<close>

definition run_ok :: "ExecutionState \<Rightarrow> int \<Rightarrow> bool" where
  "run_ok st gas \<longleftrightarrow> wf_state st \<and> 0 \<le> gas \<and> es_gas_refund st + gas \<le> INT64_MAX \<and> EVMC_LONDON \<le> es_rev st"

lemma run_okD: "run_ok st gas \<Longrightarrow> wf_state st" "run_ok st gas \<Longrightarrow> 0 \<le> gas"
  by (simp_all add: run_ok_def)

lemma num_words_nonneg: "0 \<le> num_words n"
  by (simp add: num_words_def)

lemma cold_cost_nonneg: "0 \<le> additional_cold_account_access_cost"
  by (simp add: additional_cold_account_access_cost_def)

lemmas instr_rules = charge_ok charge_cold_ok with_memory_ok with_memory64_ok mem_write_ok mem_read_ok

lemma core_exp_ok: "run_ok st gas \<Longrightarrow> 2 \<le> length s \<Longrightarrow> instr_ok F st gas (length s - 1) (core_exp s gas st)"
  by (drule stack_at_least(2)) (auto simp: core_exp_def run_ok_def Let_def keeps_refl intro!: instr_rules)

lemma core_keccak256_ok: "run_ok st gas \<Longrightarrow> 2 \<le> length s \<Longrightarrow> instr_ok F st gas (length s - 1) (core_keccak256 keccak s gas st)"
  by (drule stack_at_least(2))
    (auto simp: core_keccak256_def run_ok_def Let_def keeps_refl grown_def num_words_nonneg mem_read_def intro!: instr_rules)

lemma core_account_ok:
  assumes "run_ok st gas" "1 \<le> length s"
  shows "instr_ok F st gas (length s) (core_balance s gas st)"
    "instr_ok F st gas (length s) (core_extcodesize s gas st)"
    "instr_ok F st gas (length s) (core_extcodehash keccak s gas st)"
  using assms(1) stack_at_least(1) [OF assms(2)]
  by (auto simp: core_balance_def core_extcodesize_def core_extcodehash_def run_ok_def keeps_refl cold_cost_nonneg Let_def
      intro!: instr_rules)

lemma copy_padded_ok:
  assumes "run_ok st gas" "3 \<le> length s"
  shows "instr_ok F st gas (length s - 3) (copy_padded source s gas st)"
proof -
  obtain mi ii sz r where s: "s = mi # ii # sz # r" using stack_at_least(3) [OF assms(2)] by blast
  show ?thesis using assms(1) unfolding s copy_padded_def run_ok_def
    by (auto simp: Let_def keeps_def grown_def num_words_nonneg intro!: instr_rules)
qed

lemma copy_code_length: "copy_code h a off n = Inr data \<Longrightarrow> length data \<le> n"
  by (auto simp: copy_code_def Let_def split: option.splits if_splits)

lemma copy_code_fault: "copy_code h a off n = Inl f \<Longrightarrow> f = Process_exit"
  by (auto simp: copy_code_def Let_def split: option.splits if_splits)

lemma copy_code_ok:
  assumes "Process_exit \<in> F" "\<And>data. length data \<le> n \<Longrightarrow> instr_ok F st g m (k data)"
  shows "instr_ok F st g m (bind_vm (copy_code h a off n) k)"
  using assms copy_code_length [of h a off n] copy_code_fault [of h a off n]
  by (cases "copy_code h a off n") auto

lemma core_extcodecopy_ok:
  assumes "run_ok st gas" "4 \<le> length s" "Process_exit \<in> F"
  shows "instr_ok F st gas (length s - 4) (core_extcodecopy s gas st)"
proof -
  obtain x mi ii sz r where s: "s = x # mi # ii # sz # r" using stack_at_least(4) [OF assms(2)] by blast
  show ?thesis using assms(1,3) unfolding s core_extcodecopy_def run_ok_def
    by (auto simp: Let_def keeps_def grown_def num_words_nonneg cold_cost_nonneg intro!: instr_rules copy_code_ok)
qed

lemma core_returndatacopy_ok:
  assumes "run_ok st gas" "3 \<le> length s"
  shows "instr_ok F st gas (length s - 3) (core_returndatacopy s gas st)"
proof -
  obtain mi ii sz r where s: "s = mi # ii # sz # r" using stack_at_least(3) [OF assms(2)] by blast
  show ?thesis using assms(1) unfolding s core_returndatacopy_def run_ok_def
    by (auto simp: Let_def keeps_def grown_def num_words_nonneg intro!: instr_rules)
qed

lemma core_mload_ok: "run_ok st gas \<Longrightarrow> 1 \<le> length s \<Longrightarrow> instr_ok F st gas (length s) (core_mload s gas st)"
  by (drule stack_at_least(1)) (auto simp: core_mload_def run_ok_def mem_read_def keeps_refl intro!: with_memory64_ok)

lemma core_mstore_ok: "run_ok st gas \<Longrightarrow> 2 \<le> length s \<Longrightarrow> instr_ok F st gas (length s - 2) (core_mstore s gas st)"
  by (drule stack_at_least(2)) (auto simp: core_mstore_def run_ok_def keeps_def intro!: instr_rules)

lemma core_mstore8_ok: "run_ok st gas \<Longrightarrow> 2 \<le> length s \<Longrightarrow> instr_ok F st gas (length s - 2) (core_mstore8 s gas st)"
  by (drule stack_at_least(2)) (auto simp: core_mstore8_def run_ok_def keeps_def intro!: instr_rules)

lemma core_sload_ok: "run_ok st gas \<Longrightarrow> 1 \<le> length s \<Longrightarrow> instr_ok F st gas (length s) (core_sload s gas st)"
  by (drule stack_at_least(1)) (auto simp: core_sload_def run_ok_def Let_def keeps_refl intro!: instr_rules)

lemma core_log_ok: "run_ok st gas \<Longrightarrow> n + 2 \<le> length s \<Longrightarrow> instr_ok F st gas (length s - n - 2) (core_log n s gas st)"
proof -
  assume a: "run_ok st gas" "n + 2 \<le> length s"
  then have "2 \<le> length s" by simp
  then obtain off sz r where s: "s = off # sz # r" using stack_at_least(2) by blast
  show ?thesis using a unfolding s core_log_def run_ok_def
    by (auto simp: Let_def keeps_def grown_def emit_log_def mem_read_def intro!: instr_rules)
qed

lemma i64_ok: "- 9223372036854775808 \<le> x \<Longrightarrow> x \<le> INT64_MAX \<Longrightarrow> i64 x = Inr x"
  by (simp add: i64_def)

text \<open>From London on a storage write refunds no more than it charges.\<close>

lemma sstore_costs_bounds:
  assumes "9 \<le> r" "status \<in> {EVMC_STORAGE_DELETED, EVMC_STORAGE_MODIFIED}" "sstore_costs r status = (c, rf)"
  shows "0 \<le> c" "0 \<le> rf" "rf \<le> c + 2100"
  using assms by (auto simp: sstore_costs_def storage_cost_spec_def cost_spec_def Let_def split: if_splits)

lemma core_sstore_ok:
  assumes "run_ok st gas" "2 \<le> length s"
  shows "instr_ok F st gas (length s - 2) (core_sstore s gas st)"
    and "core_sstore s gas st = Inr (EVMC_SUCCESS, g, s', st') \<Longrightarrow> g < gas"
proof -
  obtain k v r where s: "s = k # v # r" using stack_at_least(2) [OF assms(2)] by blast
  let ?a = "msg_recipient (es_msg st)" and ?k = "be_store256 k" and ?v = "be_store256 v"
  obtain status h' where h': "set_storage (es_host st) ?a ?k ?v = Inr (status, h')"
    and status: "status \<in> {EVMC_STORAGE_DELETED, EVMC_STORAGE_MODIFIED}"
    using set_storage_total by blast
  obtain c rf where c: "sstore_costs (es_rev st) status = (c, rf)" by (cases "sstore_costs (es_rev st) status")
  have r9: "9 \<le> es_rev st" using assms(1) by (simp add: run_ok_def)
  note cb = sstore_costs_bounds [OF r9 status c]
  have R: "core_sstore s gas st =
     (if in_static_mode st then Inr (EVMC_STATIC_MODE_VIOLATION, gas, s, st)
      else if gas \<le> 2300 then Inr (EVMC_OUT_OF_GAS, gas, s, st)
      else charge gas (c + 2100) s (st\<lparr>es_host := h'\<rparr>) (\<lambda>g. bind_vm (i64 (es_gas_refund st + rf)) (\<lambda>rf'.
             Inr (EVMC_SUCCESS, g, r, st\<lparr>es_host := h', es_gas_refund := rf'\<rparr>))))"
    using r9 by (simp add: core_sstore_def s h' c access_storage_def Let_def)
  have i: "i64 (es_gas_refund st + rf) = Inr (es_gas_refund st + rf)" if "0 \<le> gas - (c + 2100)"
    using assms(1) that cb by (intro i64_ok) (auto simp: run_ok_def)
  show "instr_ok F st gas (length s - 2) (core_sstore s gas st)"
    using assms(1) cb i unfolding R by (auto simp: charge_def run_ok_def keeps_def s)
  show "core_sstore s gas st = Inr (EVMC_SUCCESS, g, s', st') \<Longrightarrow> g < gas"
    using cb i unfolding R by (auto simp: charge_def split: if_splits)
qed

section \<open>Calls\<close>

text \<open>What the interpreter relies on when it hands a message to the host.\<close>

definition metered :: "fault set \<Rightarrow> evmc_message \<Rightarrow> (evmc_result \<times> 'h) vm \<Rightarrow> bool" where
  "metered F m r \<longleftrightarrow>
     (case r of
        Inl f \<Rightarrow> f \<in> F
      | Inr (res, h') \<Rightarrow> 0 \<le> res_gas_left res \<and> 0 \<le> res_gas_refund res \<and> res_gas_left res + res_gas_refund res \<le> msg_gas m)"

definition host_law :: "fault set \<Rightarrow> (evmc_message \<Rightarrow> WeakEvmHost \<Rightarrow> (evmc_result \<times> WeakEvmHost) vm) \<Rightarrow> bool" where
  "host_law F call \<longleftrightarrow> (\<forall>m h. 0 \<le> msg_gas m \<longrightarrow> metered F m (call m h))"

lemma host_call_ok:
  assumes "host_law F call" "0 \<le> msg_gas m"
    and "\<And>res h'. 0 \<le> res_gas_left res \<Longrightarrow> 0 \<le> res_gas_refund res \<Longrightarrow> res_gas_left res + res_gas_refund res \<le> msg_gas m
      \<Longrightarrow> instr_ok F st g n (k (res, h'))"
  shows "instr_ok F st g n (bind_vm (call m h) k)"
proof -
  have "metered F m (call m h)" using assms(1,2) by (simp add: host_law_def)
  then show ?thesis using assms(3) by (cases "call m h") (auto simp: metered_def)
qed

lemma call_return_ok:
  assumes "wf_state st" "0 \<le> msg_gas m" "msg_gas m \<le> gas" "es_gas_refund st + gas \<le> INT64_MAX"
    and "0 \<le> res_gas_left res" "0 \<le> res_gas_refund res" "res_gas_left res + res_gas_refund res \<le> msg_gas m"
    and "osz \<noteq> 0 \<Longrightarrow> oo + osz \<le> length (es_memory st)"
  shows "instr_ok F st gas (Suc (length r)) (call_return m gas oo osz r st res)"
proof -
  have M: "INT64_MAX = 9223372036854775807" by (simp add: INT64_MAX_def)
  have i: "i64 (msg_gas m - res_gas_left res) = Inr (msg_gas m - res_gas_left res)"
    "i64 (gas - (msg_gas m - res_gas_left res)) = Inr (gas - (msg_gas m - res_gas_left res))"
    "i64 (es_gas_refund st + res_gas_refund res) = Inr (es_gas_refund st + res_gas_refund res)"
    using assms by (auto intro!: i64_ok simp: M)
  have w: "take (min osz (length (res_output res))) (res_output res) = [] \<or>
    oo + length (take (min osz (length (res_output res))) (res_output res)) \<le> length (es_memory (st\<lparr>es_return_data := res_output res\<rparr>))"
    using assms(8) by auto
  show ?thesis
    unfolding call_return_def Let_def
    by (rule mem_write_ok [OF w]) (use assms in \<open>simp add: i keeps_def\<close>)
qed

text \<open>The gas that a call passes on fits into what the caller has.\<close>

lemma call_gas_bounds:
  fixes gas :: uint256
  assumes "0 \<le> gas_left"
  shows "0 \<le> min (if gas < word_of_int INT64_MAX then int (unat gas) else INT64_MAX) (gas_left - gas_left div 64)"
    "min (if gas < word_of_int INT64_MAX then int (unat gas) else INT64_MAX) (gas_left - gas_left div 64) \<le> gas_left"
proof -
  have "0 \<le> gas_left div 64" "gas_left div 64 \<le> gas_left" using assms by auto
  then show "0 \<le> min (if gas < word_of_int INT64_MAX then int (unat gas) else INT64_MAX) (gas_left - gas_left div 64)"
    "min (if gas < word_of_int INT64_MAX then int (unat gas) else INT64_MAX) (gas_left - gas_left div 64) \<le> gas_left"
    by (auto simp: INT64_MAX_def min_def)
qed

text \<open>A transfer has paid 9000 for the stipend of 2300 it gets.\<close>

lemma call_dispatch_ok:
  assumes "host_law F (env_call env)" "run_ok st gas_left" "osz \<noteq> 0 \<Longrightarrow> oo + osz \<le> length (es_memory st)"
    and "v \<noteq> 0 \<Longrightarrow> es_gas_refund st + gas_left + 2300 \<le> INT64_MAX"
  shows "instr_ok F st (gas_left + (if v \<noteq> 0 then 2300 else 0)) (Suc (length r)) (call_dispatch env m gas_left gas v oo osz r st)"
proof -
  let ?g = "min (if gas < word_of_int INT64_MAX then int (unat gas) else INT64_MAX) (gas_left - gas_left div 64)"
  let ?e = "if v \<noteq> 0 then 2300 else 0 :: int"
  let ?m = "m\<lparr>msg_gas := ?g + ?e\<rparr>"
  have g: "0 \<le> ?g" "?g \<le> gas_left" using call_gas_bounds [of gas_left gas] assms(2) by (simp_all only: run_ok_def)
  have wf: "wf_state st" "0 \<le> gas_left" using assms(2) by (simp_all add: run_ok_def)
  have mg: "0 \<le> msg_gas ?m" using g(1) by simp
  have c: "instr_ok F st (gas_left + ?e) (Suc (length r))
     (bind_vm (env_call env ?m (es_host st)) (\<lambda>(res, h'). call_return ?m (gas_left + ?e) oo osz r (st\<lparr>es_host := h'\<rparr>) res))"
  proof (rule host_call_ok [OF assms(1) mg])
    fix res :: evmc_result and h'
    assume res: "0 \<le> res_gas_left res" "0 \<le> res_gas_refund res" "res_gas_left res + res_gas_refund res \<le> msg_gas ?m"
    have "instr_ok F (st\<lparr>es_host := h'\<rparr>) (gas_left + ?e) (Suc (length r)) (call_return ?m (gas_left + ?e) oo osz r (st\<lparr>es_host := h'\<rparr>) res)"
      using res wf g mg assms(2-4) by (intro call_return_ok) (auto simp: run_ok_def)
    then show "instr_ok F st (gas_left + ?e) (Suc (length r)) (case (res, h') of (res, h') \<Rightarrow>
        call_return ?m (gas_left + ?e) oo osz r (st\<lparr>es_host := h'\<rparr>) res)"
      unfolding prod.case by (rule instr_ok_trans) (use wf in \<open>simp_all add: keeps_def\<close>)
  qed
  have r2: "2 \<le> es_rev st" using assms(2) by (simp add: run_ok_def)
  have e: "(if v \<noteq> 0 then ?g + 2300 else ?g) = ?g + ?e" "(if v \<noteq> 0 then gas_left + 2300 else gas_left) = gas_left + ?e" by simp_all
  let ?refused = "1024 \<le> msg_depth (es_msg st) \<or> v \<noteq> 0 \<and> be_load (get_balance (es_host st) (msg_recipient (es_msg st))) < v"
  have D: "call_dispatch env m gas_left gas v oo osz r st =
     (if ?refused then Inr (EVMC_SUCCESS, gas_left + ?e, 0 # r, st)
      else bind_vm (env_call env ?m (es_host st)) (\<lambda>(res, h'). call_return ?m (gas_left + ?e) oo osz r (st\<lparr>es_host := h'\<rparr>) res))"
    unfolding call_dispatch_def Let_def using r2
    by (cases "1024 \<le> msg_depth (es_msg st)";
        cases "v \<noteq> 0 \<and> be_load (get_balance (es_host st) (msg_recipient (es_msg st))) < v")
      (simp_all only: e simp_thms if_True if_False not_True_eq_False not_False_eq_True)
  show ?thesis
  proof (cases ?refused)
    case True
    then show ?thesis unfolding D using wf by (simp only: if_True instr_ok_Inr) (simp add: keeps_refl)
  next
    case False
    then show ?thesis unfolding D using c by (simp only: if_False)
  qed
qed

lemma charge_rebate_ok:
  assumes "0 \<le> rebate" "rebate \<le> cost" "wf_state st" "\<And>g. 0 \<le> g \<Longrightarrow> g = gas - cost \<Longrightarrow> instr_ok F st (g + rebate) n (k g)"
  shows "instr_ok F st gas n (charge gas cost s st k)"
proof (cases "gas - cost < 0")
  case True
  then show ?thesis using assms by (auto simp: charge_def keeps_refl)
next
  case False
  then have "instr_ok F st gas n (k (gas - cost))"
    by (intro instr_ok_trans [OF assms(4)]) (use assms in \<open>auto simp: keeps_refl\<close>)
  then show ?thesis using False by (simp add: charge_def)
qed

lemma call_operands_some:
  assumes "op \<in> {OP_CALL, OP_CALLCODE, OP_DELEGATECALL, OP_STATICCALL}" "stack_height_required (result_traits op) \<le> length s"
  obtains g d v io isz oo osz r where "call_operands op s = Some (g, d, v, io, isz, oo, osz, r)"
    "int (length (0 # r)) = int (length s) + stack_height_change (result_traits op)"
proof (cases "op = OP_CALL \<or> op = OP_CALLCODE")
  case True
  then have "7 \<le> length s" using assms(2) by (auto simp: result_traits_def tr_def)
  from stack_at_least(6) [OF this] True that show thesis
    by (auto simp: call_operands_def result_traits_def tr_def)
next
  case False
  then have "6 \<le> length s" using assms by (auto simp: result_traits_def tr_def)
  from stack_at_least(5) [OF this] False assms(1) that show thesis
    by (auto simp: call_operands_def result_traits_def tr_def)
qed

lemma grown_run_ok: "grown st off sz st1 \<Longrightarrow> run_ok st gas \<Longrightarrow> 0 \<le> g \<Longrightarrow> g \<le> gas \<Longrightarrow> run_ok st1 g"
  by (auto simp: grown_def run_ok_def)

lemma grown_twice:
  "grown st off sz st1 \<Longrightarrow> grown st1 off2 sz2 st2 \<Longrightarrow> low64 sz \<noteq> 0 \<Longrightarrow> low64 off + low64 sz \<le> length (es_memory st2)"
  by (auto simp: grown_def)

lemma call_impl_ok:
  assumes "host_law F (env_call env)" "run_ok st gas" "op \<in> {OP_CALL, OP_CALLCODE, OP_DELEGATECALL, OP_STATICCALL}"
    and "stack_height_required (result_traits op) \<le> length s" "n = nat (int (length s) + stack_height_change (result_traits op))"
  shows "instr_ok F st gas n (call_impl env op s gas st)"
proof -
  obtain gg d v io isz oo osz r where ops: "call_operands op s = Some (gg, d, v, io, isz, oo, osz, r)"
    and len: "int (length (0 # r)) = int (length s) + stack_height_change (result_traits op)"
    using call_operands_some [OF assms(3,4)] by metis
  have n: "n = Suc (length r)" using len assms(5) by simp
  let ?st1 = "st\<lparr>es_return_data := []\<rparr>"
  have ro: "run_ok ?st1 gas" using assms(2) by (simp add: run_ok_def)
  have "instr_ok F ?st1 gas n (call_impl env op s gas st)"
    unfolding call_impl_def ops option.case prod.case Let_def
  proof (intro charge_cold_ok with_memory_ok cold_cost_nonneg run_okD [OF ro])
    fix g1 g2 st2 assume g1: "0 \<le> g1" "g1 \<le> gas" and st2: "grown ?st1 io isz st2" "0 \<le> g2" "g2 \<le> g1"
    have ro2: "run_ok st2 g2" using grown_run_ok [OF st2(1) ro] g1 st2 by simp
    then show "wf_state st2" by (simp add: run_ok_def)
    fix g3 st3 assume st3: "grown st2 oo osz st3" "0 \<le> g3" "g3 \<le> g2"
    have ro3: "run_ok st3 g3" using grown_run_ok [OF st3(1) ro2] st3 by simp
    have mr: "low64 isz \<noteq> 0 \<Longrightarrow> low64 io + low64 isz \<le> length (es_memory st3)"
      by (rule grown_twice [OF st2(1) st3(1)])
    have mo: "low64 osz \<noteq> 0 \<Longrightarrow> low64 oo + low64 osz \<le> length (es_memory st3)" using st3(1) by (simp add: grown_def)
    let ?cost0 = "if v \<noteq> 0 then 9000 else 0 :: int"
    let ?cost = "if op = OP_CALL \<and> (v \<noteq> 0 \<or> es_rev st3 < EVMC_SPURIOUS_DRAGON) \<and> \<not> account_exists (es_host st3) (trunc_address d) then ?cost0 + 25000 else ?cost0"
    have ch: "instr_ok F st3 g3 n (charge g3 ?cost (0 # r) st3 (\<lambda>g4. call_dispatch env msg g4 gg v (low64 oo) (low64 osz) r st3))" for msg
    proof (rule charge_rebate_ok [where rebate = "if v \<noteq> 0 then 2300 else 0"])
      fix g4 assume g4: "0 \<le> g4" "g4 = g3 - ?cost"
      have "run_ok st3 g4" using ro3 g4 by (auto simp: run_ok_def split: if_splits)
      moreover have "es_gas_refund st3 + g4 + 2300 \<le> INT64_MAX" if "v \<noteq> 0" using ro3 g4 that by (auto simp: run_ok_def split: if_splits)
      ultimately show "instr_ok F st3 (g4 + (if v \<noteq> 0 then 2300 else 0)) n (call_dispatch env msg g4 gg v (low64 oo) (low64 osz) r st3)"
        unfolding n using mo by (intro call_dispatch_ok [OF assms(1)]) simp_all
    qed (use ro3 in \<open>auto simp: run_ok_def\<close>)
    show "instr_ok F st3 g3 n (bind_vm (if 0 < low64 isz then mem_read st3 (low64 io) (low64 isz) else Inr []) (\<lambda>input.
        if op = OP_CALL \<and> v \<noteq> 0 \<and> in_static_mode st3 then Inr (EVMC_STATIC_MODE_VIOLATION, g3, 0 # r, st3)
        else charge g3 ?cost (0 # r) st3
              (\<lambda>g4. call_dispatch env (call_message op st3 (trunc_address d) v input) g4 gg v (low64 oo) (low64 osz) r st3)))"
      unfolding neq0_conv [symmetric]
      by (rule mem_read_ok [OF mr]) (use ch ro3 in \<open>simp_all only: if_split instr_ok_Inr keeps_refl run_ok_def simp_thms\<close>, simp)
  qed
  then show ?thesis by (rule instr_ok_trans) (use assms(2) in \<open>auto simp: run_ok_def keeps_def\<close>)
qed

lemma create_return_ok:
  assumes "wf_state st" "0 \<le> msg_gas m" "msg_gas m \<le> gas" "es_gas_refund st + gas \<le> INT64_MAX"
    and "0 \<le> res_gas_left res" "0 \<le> res_gas_refund res" "res_gas_left res + res_gas_refund res \<le> msg_gas m"
  shows "instr_ok F st gas (Suc (length r)) (create_return m gas r st res)"
proof -
  have M: "INT64_MAX = 9223372036854775807" by (simp add: INT64_MAX_def)
  have i: "i64 (msg_gas m - res_gas_left res) = Inr (msg_gas m - res_gas_left res)"
    "i64 (gas - (msg_gas m - res_gas_left res)) = Inr (gas - (msg_gas m - res_gas_left res))"
    "i64 (es_gas_refund st + res_gas_refund res) = Inr (es_gas_refund st + res_gas_refund res)"
    using assms by (auto intro!: i64_ok simp: M)
  show ?thesis using assms unfolding create_return_def i by (simp add: i keeps_def)
qed

lemma create_call_ok:
  assumes "host_law F (env_call env)" "run_ok st g" "m = create_message op st g salt endowment input"
  shows "instr_ok F st g (Suc (length r))
    (bind_vm (env_call env m (es_host st)) (\<lambda>(res, h'). create_return m g r (st\<lparr>es_host := h'\<rparr>) res))"
proof -
  have mg: "0 \<le> msg_gas m" "msg_gas m \<le> g" using assms(2) by (auto simp: assms(3) create_message_def run_ok_def)
  show ?thesis
  proof (rule host_call_ok [OF assms(1) mg(1)])
    fix res :: evmc_result and h'
    assume res: "0 \<le> res_gas_left res" "0 \<le> res_gas_refund res" "res_gas_left res + res_gas_refund res \<le> msg_gas m"
    have "instr_ok F (st\<lparr>es_host := h'\<rparr>) g (Suc (length r)) (create_return m g r (st\<lparr>es_host := h'\<rparr>) res)"
      using res mg assms(2) by (intro create_return_ok) (auto simp: run_ok_def)
    then show "instr_ok F st g (Suc (length r)) (case (res, h') of (res, h') \<Rightarrow> create_return m g r (st\<lparr>es_host := h'\<rparr>) res)"
      unfolding prod.case by (rule instr_ok_trans) (use assms(2) in \<open>simp_all add: keeps_def run_ok_def\<close>)
  qed
qed

lemma create_operands_some:
  assumes "op \<in> {OP_CREATE, OP_CREATE2}" "stack_height_required (result_traits op) \<le> length s"
  obtains e off sz salt r where "create_operands op s = Some (e, off, sz, salt, r)"
    "int (length (0 # r)) = int (length s) + stack_height_change (result_traits op)"
proof (cases "op = OP_CREATE2")
  case True
  then have "4 \<le> length s" using assms(2) by (auto simp: result_traits_def tr_def)
  from stack_at_least(4) [OF this] True that show thesis
    by (auto simp: create_operands_def result_traits_def tr_def)
next
  case False
  then have "3 \<le> length s" using assms by (auto simp: result_traits_def tr_def)
  from stack_at_least(3) [OF this] False assms(1) that show thesis
    by (auto simp: create_operands_def result_traits_def tr_def)
qed

lemma create_body_ok:
  assumes "host_law F (env_call env)" "run_ok st g" "low64 sz \<noteq> 0 \<Longrightarrow> low64 off + low64 sz \<le> length (es_memory st)"
  shows "instr_ok F st g (Suc (length r))
    (if 1024 \<le> msg_depth (es_msg st) then Inr (EVMC_SUCCESS, g, 0 # r, st)
     else if e \<noteq> 0 \<and> be_load (get_balance (es_host st) (msg_recipient (es_msg st))) < e then Inr (EVMC_SUCCESS, g, 0 # r, st)
     else bind_vm (if 0 < low64 sz then mem_read st (low64 off) (low64 sz) else Inr []) (\<lambda>input.
       bind_vm (env_call env (create_message op st g salt e input) (es_host st)) (\<lambda>(res, h').
         create_return (create_message op st g salt e input) g r (st\<lparr>es_host := h'\<rparr>) res)))"
proof -
  have "instr_ok F st g (Suc (length r)) (Inr (EVMC_SUCCESS, g, 0 # r, st))" using assms(2) by (simp add: keeps_refl run_ok_def)
  moreover have "instr_ok F st g (Suc (length r)) (bind_vm (if 0 < low64 sz then mem_read st (low64 off) (low64 sz) else Inr []) (\<lambda>input.
       bind_vm (env_call env (create_message op st g salt e input) (es_host st)) (\<lambda>(res, h').
         create_return (create_message op st g salt e input) g r (st\<lparr>es_host := h'\<rparr>) res)))"
    unfolding neq0_conv [symmetric]
    by (rule mem_read_ok [OF assms(3)], assumption, rule create_call_ok [OF assms(1,2) refl])
  ultimately show ?thesis by (simp only: if_split simp_thms)
qed

lemma create_impl_ok:
  assumes "host_law F (env_call env)" "run_ok st gas" "op \<in> {OP_CREATE, OP_CREATE2}"
    and "stack_height_required (result_traits op) \<le> length s" "n = nat (int (length s) + stack_height_change (result_traits op))"
  shows "instr_ok F st gas n (create_impl env op s gas st)"
proof (cases "in_static_mode st")
  case True
  then show ?thesis using assms(2) by (simp add: create_impl_def keeps_refl run_ok_def)
next
  case False
  obtain e off sz salt r where ops: "create_operands op s = Some (e, off, sz, salt, r)"
    and len: "int (length (0 # r)) = int (length s) + stack_height_change (result_traits op)"
    using create_operands_some [OF assms(3,4)] by metis
  have n: "n = Suc (length r)" using len assms(5) by simp
  let ?st1 = "st\<lparr>es_return_data := []\<rparr>"
  have ro: "run_ok ?st1 gas" using assms(2) by (simp add: run_ok_def)
  have wc: "0 \<le> num_words k * ((if op = OP_CREATE2 then 6 else 0) + (if 11 \<le> es_rev st2 then 2 else 0))" for st2 k
    using num_words_nonneg [of k] by simp
  have "instr_ok F ?st1 gas n (create_impl env op s gas st)"
    unfolding create_impl_def ops option.case prod.case Let_def if_not_P [OF False]
  proof (rule with_memory_ok [OF run_okD(1) [OF ro] run_okD(2) [OF ro]], split if_split, intro conjI impI)
    fix g1 st2 assume st2: "grown ?st1 off sz st2" "0 \<le> g1" "g1 \<le> gas"
    have ro2: "run_ok st2 g1" using grown_run_ok [OF st2(1) ro] st2 by simp
    have mr: "low64 sz \<noteq> 0 \<Longrightarrow> low64 off + low64 sz \<le> length (es_memory st2)" using st2(1) by (simp add: grown_def)
    have ro3: "run_ok st2 g2" if "0 \<le> g2" "g2 = g1 - num_words (low64 sz) * ((if op = OP_CREATE2 then 6 else 0) + (if 11 \<le> es_rev st2 then 2 else 0))" for g2
      using ro2 that wc [of "low64 sz" st2] unfolding run_ok_def by linarith
    show "instr_ok F st2 g1 n (Inr (EVMC_OUT_OF_GAS, g1, 0 # r, st2))" using ro2 by (simp add: keeps_refl run_ok_def)
    show "instr_ok F st2 g1 n (charge g1 (num_words (low64 sz) * ((if op = OP_CREATE2 then 6 else 0) + (if 11 \<le> es_rev st2 then 2 else 0)))
        (0 # r) st2 (\<lambda>g2. if 1024 \<le> msg_depth (es_msg st2) then Inr (EVMC_SUCCESS, g2, 0 # r, st2)
          else if e \<noteq> 0 \<and> be_load (get_balance (es_host st2) (msg_recipient (es_msg st2))) < e then Inr (EVMC_SUCCESS, g2, 0 # r, st2)
          else bind_vm (if 0 < low64 sz then mem_read st2 (low64 off) (low64 sz) else Inr []) (\<lambda>input.
            bind_vm (env_call env (create_message op st2 g2 salt e input) (es_host st2)) (\<lambda>(res, h').
              create_return (create_message op st2 g2 salt e input) g2 r (st2\<lparr>es_host := h'\<rparr>) res))))"
      unfolding n by (rule charge_ok [OF wc run_okD(1) [OF ro2]], rule create_body_ok [OF assms(1) ro3 mr])
  qed
  then show ?thesis by (rule instr_ok_trans) (use assms(2) in \<open>auto simp: run_ok_def keeps_def\<close>)
qed

lemma core_gas_ok: "run_ok st gas \<Longrightarrow> instr_ok F st gas (Suc (length s)) (core_gas s gas st)"
  by (simp add: core_gas_def run_ok_def keeps_refl)

lemma nat_heights:
  "nat (int a - numeral j) = a - numeral j" "nat (int a - 1) = a - 1" "nat (int a + 1) = Suc a"
  by (simp_all add: nat_minus_as_int)

lemma nat_height_log: "nat (int a + (- int k - 2)) = a - k - 2"
proof -
  have "int a + (- int k - 2) = int a - int (k + 2)" by simp
  then show ?thesis by (simp only: nat_minus_as_int [symmetric] diff_diff_left)
qed

lemmas result_op_oks = core_exp_ok core_keccak256_ok core_account_ok copy_padded_ok core_extcodecopy_ok core_returndatacopy_ok
  core_mload_ok core_mstore_ok core_mstore8_ok core_sload_ok core_sstore_ok(1) core_log_ok core_gas_ok

lemma result_impl_ok:
  assumes "host_law F (env_call env)" "Process_exit \<in> F" "run_ok st gas"
    and "stack_height_required (result_traits op) \<le> length s" "n = nat (int (length s) + stack_height_change (result_traits op))"
  shows "instr_ok F st gas n (result_impl env op s gas st)"
proof (cases "op \<in> {OP_CALL, OP_CALLCODE, OP_DELEGATECALL, OP_STATICCALL, OP_CREATE, OP_CREATE2}")
  case True
  then show ?thesis using call_impl_ok [OF assms(1,3) _ assms(4,5)] create_impl_ok [OF assms(1,3) _ assms(4,5)]
    by (auto simp: result_impl_def)
next
  case False
  then show ?thesis using assms(4)
    by (cases op) (simp_all add: result_impl_def result_traits_def tr_def assms(2,3,5) core_calldatacopy_def core_codecopy_def
        nat_heights nat_height_log result_op_oks [simplified])
qed

section \<open>The other groups\<close>

lemma stack_impl_ok:
  assumes "stack_height_required (stack_traits op) \<le> length s" "\<forall>n. op = OP_DUP n \<longrightarrow> 1 \<le> n"
  shows "\<exists>s'. stack_impl op s = Inr s' \<and> int (length s') = int (length s) + stack_height_change (stack_traits op)"
proof -
  consider "stack_height_required (stack_traits op) = 2" | "stack_height_required (stack_traits op) = 3"
    | "stack_height_required (stack_traits op) = 1" | "op = OP_JUMPDEST \<or> op = OP_PUSH0" | k where "op = OP_DUP k" | k where "op = OP_SWAP k"
    by (cases op) (auto simp: stack_traits_def tr_def)
  then show ?thesis
  proof cases
    case 1
    then show ?thesis using assms stack_at_least(2) [of s]
      by (cases op) (auto simp: stack_traits_def tr_def stack_impl_def stack2_def core_dup_def core_swap_def)
  next
    case 2
    then show ?thesis using assms stack_at_least(3) [of s]
      by (cases op) (auto simp: stack_traits_def tr_def stack_impl_def stack3_def core_dup_def core_swap_def)
  next
    case 3
    then show ?thesis using assms stack_at_least(1) [of s]
      by (cases op) (auto simp: stack_traits_def tr_def stack_impl_def stack1_def core_pop_def core_dup_def core_swap_def)
  qed (use assms in \<open>auto simp: stack_traits_def tr_def stack_impl_def core_dup_def core_swap_def\<close>)
qed

lemma get_tx_context_keeps:
  "es_memory (snd (get_tx_context st)) = es_memory st \<and> es_gas_refund (snd (get_tx_context st)) = es_gas_refund st \<and>
   es_host (snd (get_tx_context st)) = es_host st"
  "wf_state st \<Longrightarrow> keeps st (snd (get_tx_context st))"
  by (simp_all add: get_tx_context_def Let_def keeps_def)

lemma state_impl_ok:
  assumes "stack_height_required (state_traits op) \<le> length s" "wf_state st"
  shows "\<exists>s' st'. state_impl op s st = Inr (s', st') \<and> int (length s') = int (length s) + stack_height_change (state_traits op) \<and>
    keeps st st' \<and> es_gas_refund st' = es_gas_refund st"
  using assms stack_at_least(1) [of s] get_tx_context_keeps [of st]
  by (cases op) (auto simp: state_traits_def tr_def state_impl_def stack1_def Let_def keeps_refl)

end
