(* ===== verification/EvmRun.thy ===== *)
theory EvmRun
  imports EvmSafety
begin

text \<open>
  Whole runs of the interpreter on legacy code: positions stay inside the padded code, the invariant of
  the loop, and what \<open>execute\<close> returns.
\<close>

section \<open>Legacy code\<close>

lemma length_jumpdest_loop [simp]: "length (jumpdest_loop c i m) = length m"
  by (induction c i m rule: jumpdest_loop.induct) (subst jumpdest_loop.simps, auto simp: Let_def)

lemma length_analyze_jumpdests [simp]: "length (analyze_jumpdests c) = length c"
  by (simp add: analyze_jumpdests_def)

text \<open>A position in the code or in its padding, where every byte is \<open>STOP\<close>.\<close>

definition code_pos :: "bytes \<Rightarrow> int \<Rightarrow> bool" where
  "code_pos c p \<longleftrightarrow> 0 \<le> p \<and> p \<le> int (length c) + 32"

lemma code_at_legacy:
  assumes "es_analysis st = analyze_legacy c" "code_pos c p"
  shows "code_at st p = Inr (if nat p < length c then c ! nat p else 0)"
proof -
  have "nat p < length (pad_code c)" using assms(2) by (simp add: code_pos_def pad_code_def nat_less_iff)
  then show ?thesis using assms(2)
    by (auto simp: code_at_def assms(1) analyze_legacy_def code_pos_def pad_code_def nth_append)
qed

lemma code_bytes_legacy:
  assumes "es_analysis st = analyze_legacy c" "0 \<le> p" "p + int n \<le> int (length c) + 33"
  shows "\<exists>bs. code_bytes st p n = Inr bs \<and> length bs = n"
proof -
  have "nat p + n \<le> length (pad_code c)" using assms(2,3) by (simp add: pad_code_def)
  then show ?thesis using assms(2) by (simp add: code_bytes_def assms(1) analyze_legacy_def)
qed

lemma load_partial_legacy:
  assumes "es_analysis st = analyze_legacy c" "0 \<le> p" "p \<le> int (length c)"
  shows "\<exists>w. load_partial_push_data k st p = Inr w"
proof -
  have "\<exists>bs. code_bytes st p n = Inr bs \<and> length bs = n" if "n \<le> 8" for n
    using that assms by (intro code_bytes_legacy) auto
  from this [of 1] this [of 2] this [of 4] this [of 8] show ?thesis by (auto simp: load_partial_push_data_def)
qed

lemma load_push_words_legacy:
  assumes "es_analysis st = analyze_legacy c" "0 \<le> p" "p + int (8 * k) \<le> int (length c) + 33"
  shows "\<exists>ws. load_push_words k st p = Inr ws"
  using assms(2,3)
proof (induction k arbitrary: p)
  case (Suc k)
  have "\<exists>bs. code_bytes st p 8 = Inr bs \<and> length bs = 8" using Suc.prems by (intro code_bytes_legacy [OF assms(1)]) auto
  moreover have "\<exists>ws. load_push_words k st (p + 8) = Inr ws" using Suc.prems by (intro Suc.IH) auto
  ultimately show ?case by auto
qed simp

lemma push_value_legacy:
  assumes "es_analysis st = analyze_legacy c" "0 \<le> p" "p \<le> int (length c)" "len \<le> 32"
  shows "\<exists>v. push_value len st p = Inr v"
proof -
  have "8 * (len div 8) + len mod 8 = len" by simp
  then have "int (len mod 8) + int (8 * (len div 8)) \<le> 32" using assms(4) by linarith
  then have "\<exists>ws. load_push_words (len div 8) st (p + int (len mod 8)) = Inr ws"
    using assms(2,3) by (intro load_push_words_legacy [OF assms(1)]) auto
  then show ?thesis using load_partial_legacy [OF assms(1-3), of "len mod 8"] by (auto simp: push_value_def Let_def)
qed

abbreviation (input) eof_ops :: "code_op set" where
  "eof_ops \<equiv> {OP_RJUMP, OP_RJUMPI, OP_RJUMPV, OP_CALLF, OP_RETF}"

lemma jump_impl_legacy:
  assumes "es_analysis st = analyze_legacy c"
  shows "jump_impl st dst s = fail_with EVMC_BAD_JUMP_DESTINATION s st \<or>
    (\<exists>p. jump_impl st dst s = Inr (Some p, s, st) \<and> code_pos c p \<and> p < int (length c))"
proof (cases "unat dst < length c")
  case True
  have "low64 dst \<le> unat dst" by (simp add: low64_def limb_def unsigned_ucast_eq take_bit_nat_less_eq_self)
  then show ?thesis using True by (auto simp: jump_impl_def assms analyze_legacy_def code_pos_def)
next
  case False
  then show ?thesis by (simp add: jump_impl_def assms analyze_legacy_def)
qed

lemma code_impl_ok:
  assumes "es_analysis st = analyze_legacy c" "0 \<le> p" "p < int (length c)" "op \<notin> eof_ops"
    and "stack_height_required (code_traits op) \<le> length s" "\<forall>n. op = OP_PUSH n \<longrightarrow> n \<le> 32"
  shows "(\<exists>s0 sc. code_impl op s st p = Inr (None, s0, st\<lparr>es_status := sc\<rparr>)) \<or>
    (\<exists>q s'. code_impl op s st p = Inr (Some q, s', st) \<and> code_pos c q \<and>
       int (length s') = int (length s) + stack_height_change (code_traits op))"
proof (cases op)
  case OP_JUMP
  then obtain d r where s: "s = d # r" using assms(5) stack_at_least(1) [of s] by (auto simp: code_traits_def tr_def)
  from jump_impl_legacy [OF assms(1), of d r] show ?thesis
    by (auto simp: code_impl_def OP_JUMP core_jump_def s fail_with_def code_traits_def tr_def)
next
  case OP_JUMPI
  then obtain d k r where s: "s = d # k # r" using assms(5) stack_at_least(2) [of s] by (auto simp: code_traits_def tr_def)
  from jump_impl_legacy [OF assms(1), of d r] assms(2,3) show ?thesis
    by (auto simp: code_impl_def OP_JUMPI core_jumpi_def s fail_with_def code_traits_def tr_def code_pos_def)
next
  case (OP_PUSH n)
  then have "n \<le> 32" using assms(6) by simp
  then obtain v where "push_value n st (p + 1) = Inr v" using push_value_legacy [OF assms(1), of "p + 1" n] assms(2,3) by auto
  then show ?thesis using assms(2,3) \<open>n \<le> 32\<close>
    by (auto simp: code_impl_def OP_PUSH core_push_def code_traits_def tr_def code_pos_def)
next
  case OP_DUPN
  have "code_pos c (p + 1)" using assms(2,3) by (simp add: code_pos_def)
  from code_at_legacy [OF assms(1) this] show ?thesis using assms(2,3)
    by (auto simp: code_impl_def OP_DUPN core_dupn_def fail_with_def code_traits_def tr_def code_pos_def Let_def)
next
  case OP_SWAPN
  have "code_pos c (p + 1)" using assms(2,3) by (simp add: code_pos_def)
  from code_at_legacy [OF assms(1) this] show ?thesis using assms(2,3)
    by (auto simp: code_impl_def OP_SWAPN core_swapn_def fail_with_def code_traits_def tr_def code_pos_def Let_def)
next
  case OP_PC
  then show ?thesis using assms(2,3) by (simp add: code_impl_def core_pc_def code_traits_def tr_def code_pos_def)
qed (use assms(4) in simp_all)

section \<open>Terminating instructions\<close>

text \<open>The state a run ends in: its output is inside the memory.\<close>

definition final_ok :: "ExecutionState \<Rightarrow> int \<Rightarrow> int \<Rightarrow> ExecutionState \<Rightarrow> bool" where
  "final_ok st gas g st' \<longleftrightarrow>
     g \<le> gas \<and> 0 \<le> es_gas_refund st' \<and> es_gas_refund st' + g \<le> es_gas_refund st + gas \<and>
     (es_status st' \<in> {EVMC_SUCCESS, EVMC_REVERT} \<longrightarrow> 0 \<le> g) \<and>
     (es_output_size st' \<noteq> 0 \<longrightarrow> es_output_offset st' + es_output_size st' \<le> length (es_memory st'))"

lemma return_impl_ok:
  assumes "run_ok st gas" "es_output_size st = 0" "2 \<le> length s" "sc \<in> {EVMC_SUCCESS, EVMC_REVERT}"
  shows "\<exists>sc' g s' st'. return_impl sc s gas st = Inr (sc', g, s', st') \<and> final_ok st gas g (st'\<lparr>es_status := sc'\<rparr>)"
proof -
  obtain off sz r where s: "s = off # sz # r" using stack_at_least(2) [OF assms(3)] by blast
  obtain ok g m where c: "check_memory gas (es_memory st) off sz = (ok, g, m)" by (metis prod_cases3)
  have "32 dvd length (es_memory st)" "0 \<le> gas" using assms(1) by (simp_all add: run_ok_def)
  note m = check_memory_ok [OF c this]
  show ?thesis using m assms(1,2,4)
    by (auto simp: return_impl_def s with_memory_def c Let_def final_ok_def run_ok_def)
qed

lemma core_selfdestruct_ok:
  assumes "run_ok st gas" "es_output_size st = 0" "1 \<le> length s"
  shows "\<exists>sc' g s' st'. core_selfdestruct s gas st = Inr (sc', g, s', st') \<and> final_ok st gas g (st'\<lparr>es_status := sc'\<rparr>)"
proof -
  obtain x r where s: "s = x # r" using stack_at_least(1) [OF assms(3)] by blast
  show ?thesis using assms(1,2)
    by (auto simp: core_selfdestruct_def s Let_def charge_cold_def charge_def access_account_def host_selfdestruct_def
        get_balance_def run_ok_def final_ok_def)
qed

lemma term_impl_ok:
  assumes "run_ok st gas" "es_output_size st = 0" "stack_height_required (term_traits op) \<le> length s"
  shows "\<exists>sc' g s' st'. term_impl op s gas st = Inr (sc', g, s', st') \<and> final_ok st gas g (st'\<lparr>es_status := sc'\<rparr>)"
  using assms return_impl_ok [OF assms(1,2)] core_selfdestruct_ok [OF assms(1,2)]
  by (cases op) (auto simp: term_impl_def stop_impl_def term_traits_def tr_def run_ok_def final_ok_def)

section \<open>Steps and runs\<close>

lemma opcode_families:
  "opcode_of_byte b = Some (Op_code (OP_PUSH n)) \<Longrightarrow> n \<le> 32"
  "opcode_of_byte b = Some (Op_stack (OP_DUP k)) \<Longrightarrow> 1 \<le> k"
  "opcode_of_byte 0 = Some (Op_term OP_STOP)"
  by (auto simp: opcode_of_byte_def opcode_table_def Let_def split: if_splits)

lemma stack_change_le: "stack_height_change (traits op) \<le> 1"
proof (cases op)
  case (Op_stack x)
  then show ?thesis by (cases x) (simp_all add: stack_traits_def tr_def)
next
  case (Op_state x)
  then show ?thesis by (cases x) (simp_all add: state_traits_def tr_def)
next
  case (Op_result x)
  then show ?thesis by (cases x) (simp_all add: result_traits_def tr_def)
next
  case (Op_code x)
  then show ?thesis by (cases x) (simp_all add: code_traits_def tr_def)
next
  case (Op_term x)
  then show ?thesis by (cases x) (simp_all add: term_traits_def tr_def)
qed

text \<open>The code does not use the opcodes meant for containers: none of its bytes is one, or the table has none.\<close>

definition no_eof_ops :: "CostTable \<Rightarrow> bytes \<Rightarrow> bool" where
  "no_eof_ops ct c \<longleftrightarrow> (\<forall>op \<in> eof_ops. ct (Op_code op) < 0 \<or> (\<forall>b \<in> set c. opcode_of_byte b \<noteq> Some (Op_code op)))"

text \<open>The invariant of the loop.\<close>

definition loop_inv :: "bytes \<Rightarrow> int \<Rightarrow> stack \<Rightarrow> int \<Rightarrow> ExecutionState \<Rightarrow> bool" where
  "loop_inv c p s gas st \<longleftrightarrow>
     es_analysis st = analyze_legacy c \<and> code_pos c p \<and> length s \<le> stack_limit \<and> run_ok st gas \<and> es_output_size st = 0 \<and>
     es_status st = EVMC_SUCCESS"

text \<open>What one round does: a fault that is allowed, the end of the run, or the invariant with less gas.\<close>

definition step_ok :: "fault set \<Rightarrow> bytes \<Rightarrow> int \<Rightarrow> ExecutionState \<Rightarrow> step_result \<Rightarrow> bool" where
  "step_ok F c gas st r \<longleftrightarrow>
     (case r of
        Inl f \<Rightarrow> f \<in> F
      | Inr (None, s', g, st') \<Rightarrow> final_ok st gas g st'
      | Inr (Some p, s', g, st') \<Rightarrow> loop_inv c p s' g st' \<and> g < gas \<and> es_gas_refund st' + g \<le> es_gas_refund st + gas)"

lemma step_ok_simps [simp]:
  "step_ok F c gas st (Inl f) \<longleftrightarrow> f \<in> F"
  "step_ok F c gas st (Inr (None, s', g, st')) \<longleftrightarrow> final_ok st gas g st'"
  "step_ok F c gas st (Inr (Some p, s', g, st')) \<longleftrightarrow> loop_inv c p s' g st' \<and> g < gas \<and> es_gas_refund st' + g \<le> es_gas_refund st + gas"
  by (simp_all add: step_ok_def)

lemma check_fail_final:
  assumes "check_requirements ct op gas h = (sc, gas')" "sc \<noteq> EVMC_SUCCESS" "table_ok ct" "run_ok st gas" "es_output_size st = 0"
  shows "final_ok st gas gas' (st\<lparr>es_status := sc\<rparr>)"
proof -
  have "sc \<noteq> EVMC_REVERT" "gas' \<le> gas"
    using assms(1,2) base_cost_pos [OF assms(3), of op]
    by (auto simp: check_requirements_def Let_def base_cost_def split: if_splits)
  then show ?thesis using assms(2,4,5) by (simp add: final_ok_def run_ok_def)
qed

text \<open>The instructions that charge gas by themselves.\<close>

lemma invoke_result_ok:
  assumes "loop_inv c p s gas st" "host_law F (env_call env)" "Process_exit \<in> F" "run_ok st gas'" "gas' \<le> gas"
    and "free_op (Op_result x) \<or> gas' < gas" "stack_height_required (result_traits x) \<le> length s" "code_pos c (p + 1)"
    and hl: "\<And>h'. int h' = int (length s) + stack_height_change (result_traits x) \<Longrightarrow> h' \<le> stack_limit"
  shows "step_ok F c gas st (invoke_impl env (Op_result x) p s gas' st)"
proof -
  note inv = assms(1) [unfolded loop_inv_def]
  let ?n = "nat (int (length s) + stack_height_change (result_traits x))"
  have ok: "instr_ok F st gas' ?n (result_impl env x s gas' st)"
    using result_impl_ok [OF assms(2,3,4,7) refl] .
  have pos: "0 \<le> int (length s) + stack_height_change (result_traits x)"
    using assms(7) by (cases x) (auto simp: result_traits_def tr_def)
  have lt: "g < gas" if "result_impl env x s gas' st = Inr (EVMC_SUCCESS, g, s', st')" for g s' st'
  proof (cases "x = OP_SSTORE")
    case True
    then show ?thesis using that core_sstore_ok(2) [OF assms(4), of s g s' st'] assms(5,7)
      by (auto simp: result_impl_def result_traits_def tr_def)
  next
    case False
    then show ?thesis using that ok assms(6) by (auto simp: free_op_def)
  qed
  show ?thesis
  proof (cases "result_impl env x s gas' st")
    case (Inr r)
    obtain sc g s' st' where r: "r = (sc, g, s', st')" by (metis prod_cases4)
    show ?thesis using ok lt inv assms(5,8) hl [of "length s'"] pos
      by (auto simp: Inr r loop_inv_def keeps_def run_ok_def final_ok_def)
  qed (use ok in simp)
qed

lemma invoke_impl_ok:
  assumes "loop_inv c p s gas st" "host_law F (env_call env)" "Process_exit \<in> F" "check_requirements ct op gas (length s) = (EVMC_SUCCESS, gas')"
    and "table_ok ct" "\<forall>x. op = Op_code x \<longrightarrow> x \<notin> eof_ops" "opcode_of_byte b = Some op" "op = Op_term OP_STOP \<or> p < int (length c)"
  shows "step_ok F c gas st (invoke_impl env op p s gas' st)"
proof -
  note cr = check_requirements_ok [OF assms(4,5)]
  note inv = assms(1) [unfolded loop_inv_def]
  have ro: "run_ok st gas'" using inv cr by (auto simp: run_ok_def)
  have wf: "wf_state st" using ro by (simp add: run_ok_def)
  have hl: "h' \<le> stack_limit" if "int h' = int (length s) + stack_height_change (traits op)" for h'
    using that inv cr(5) stack_change_le [of op] by (cases "stack_height_change (traits op) > 0") auto
  have nx: "code_pos c (p + 1)" if "op \<noteq> Op_term OP_STOP" using that assms(8) inv by (auto simp: code_pos_def)
  show ?thesis
  proof (cases op)
    case (Op_stack x)
    have "\<forall>n. x = OP_DUP n \<longrightarrow> 1 \<le> n" using opcode_families(2) assms(7) Op_stack by blast
    then obtain s' where "stack_impl x s = Inr s'" "int (length s') = int (length s) + stack_height_change (stack_traits x)"
      using stack_impl_ok [of x s] cr(4) Op_stack by auto
    then show ?thesis using inv ro cr nx hl Op_stack by (auto simp: loop_inv_def free_op_def)
  next
    case (Op_state x)
    obtain s' st' where "state_impl x s st = Inr (s', st')" "int (length s') = int (length s) + stack_height_change (state_traits x)"
      "keeps st st'" "es_gas_refund st' = es_gas_refund st"
      using state_impl_ok [of x s st] cr(4) wf Op_state by auto
    then show ?thesis using inv ro cr nx hl Op_state by (auto simp: loop_inv_def free_op_def keeps_def run_ok_def)
  next
    case (Op_result x)
    then show ?thesis using cr(2,3,4) nx hl by (simp del: invoke_impl.simps) (rule invoke_result_ok [OF assms(1-3) ro], simp_all)
  next
    case (Op_code x)
    have "p < int (length c)" "0 \<le> p" using assms(8) Op_code inv by (auto simp: code_pos_def)
    moreover have "\<forall>n. x = OP_PUSH n \<longrightarrow> n \<le> 32" using opcode_families(1) assms(7) Op_code by blast
    ultimately show ?thesis using code_impl_ok [of st c p x s] inv ro cr hl assms(6) Op_code
      by (fastforce simp: loop_inv_def free_op_def final_ok_def run_ok_def)
  next
    case (Op_term x)
    then show ?thesis using term_impl_ok [OF ro, of x s] inv cr(2,4) by (fastforce simp: final_ok_def)
  qed
qed

lemma eof_op_not_const: "x \<in> eof_ops \<Longrightarrow> \<not> has_const_gas_cost (Op_code x)"
  using const_cost_at [of "Op_code x" EVMC_PRAGUE] prague_cost_defined [of "Op_code x"]
  by (auto simp: code_costs_frontier_def)

lemma vm_step_ok:
  assumes "loop_inv c p s gas st" "host_law F (env_call env)" "Process_exit \<in> F" "table_ok ct" "no_eof_ops ct c"
  shows "step_ok F c gas st (vm_step env ct p s gas st)"
proof -
  let ?b = "if nat p < length c then c ! nat p else 0"
  have inv: "es_analysis st = analyze_legacy c" "code_pos c p" "run_ok st gas" "es_output_size st = 0"
    using assms(1) by (simp_all add: loop_inv_def)
  have b: "code_at st p = Inr ?b" by (rule code_at_legacy [OF inv(1,2)])
  show ?thesis
  proof (cases "opcode_of_byte ?b")
    case None
    then show ?thesis using inv(3,4) by (simp add: vm_step_def b final_ok_def run_ok_def)
  next
    case (Some op)
    obtain sc gas' where c: "check_requirements ct op gas (length s) = (sc, gas')" by fastforce
    have stop: "op = Op_term OP_STOP \<or> p < int (length c)"
      using Some inv(2) opcode_families(3) by (auto simp: code_pos_def split: if_splits)
    have "step_ok F c gas st (invoke env ct op p s gas st)"
    proof (cases "sc = EVMC_SUCCESS")
      case True
      have "x \<notin> eof_ops" if "op = Op_code x" for x
      proof
        assume x: "x \<in> eof_ops"
        have "0 \<le> ct (Op_code x)" using check_requirements_ok(6) [OF c [unfolded True] assms(4)] eof_op_not_const [OF x] that by simp
        moreover have "?b \<in> set c" using stop that inv(2) by (auto simp: code_pos_def nat_less_iff)
        ultimately show False using assms(5) x Some that unfolding no_eof_ops_def by force
      qed
      then show ?thesis
        using invoke_impl_ok [OF assms(1-3) c [unfolded True] assms(4) _ Some stop] by (simp add: invoke_def c True)
    next
      case False
      then show ?thesis using check_fail_final [OF c False assms(4) inv(3,4)] by (simp add: invoke_def c)
    qed
    then show ?thesis using Some by (simp add: vm_step_def b)
  qed
qed

text \<open>A run ends within its gas, with one unit of fuel per instruction.\<close>

lemma dispatch_ok:
  assumes "loop_inv c p s gas st" "host_law F (env_call env)" "Process_exit \<in> F" "table_ok ct" "no_eof_ops ct c"
  shows "case dispatch env ct n p s gas st of
      Inl f \<Rightarrow> f \<in> F \<or> f = Out_of_fuel \<and> int n \<le> gas
    | Inr (g, st') \<Rightarrow> final_ok st gas g st'"
  using assms(1)
proof (induction n arbitrary: p s gas st)
  case 0
  then show ?case by (simp add: loop_inv_def run_ok_def)
next
  case (Suc n)
  have step: "step_ok F c gas st (vm_step env ct p s gas st)" by (rule vm_step_ok [OF Suc.prems assms(2-5)])
  show ?case
  proof (cases "vm_step env ct p s gas st")
    case (Inl f)
    then show ?thesis using step by simp
  next
    case (Inr r)
    obtain nx s' g st' where r: "r = (nx, s', g, st')" by (metis prod_cases4)
    show ?thesis
    proof (cases nx)
      case None
      then show ?thesis using step by (simp add: Inr r)
    next
      case (Some q)
      have "loop_inv c q s' g st'" "g < gas" "es_gas_refund st' + g \<le> es_gas_refund st + gas" using step by (simp_all add: Inr r Some)
      then show ?thesis using Suc.IH [of q s' g st']
        by (auto simp: Inr r Some final_ok_def split: sum.splits)
    qed
  qed
qed

text \<open>The outcome of \<open>execute\<close>.\<close>

lemma execute_ok:
  assumes "host_law F (env_call env)" "Process_exit \<in> F" "0 \<le> msg_gas m" "msg_gas m \<le> INT64_MAX" "EVMC_LONDON \<le> r"
    and "r < EVMC_CANCUN \<or> \<not> is_eof_container c" "no_eof_ops (legacy_cost_tables r) c"
  shows "metered (F \<union> (if int fuel \<le> msg_gas m then {Out_of_fuel} else {})) m (execute env fuel r m h c)"
proof -
  let ?st = "ExecutionState_ctor m r h c (analyze_legacy c)"
  have t: "get_baseline_cost_table r (eof_version (eof_header (analyze_legacy c))) = legacy_cost_tables r"
    by (simp add: analyze_legacy_def EOF1Header_default_def get_baseline_cost_table_def)
  have "table_ok (legacy_cost_tables r)" using baseline_table_ok [of r 0] by (simp add: get_baseline_cost_table_def)
  moreover have "loop_inv c 0 [] (msg_gas m) ?st"
    using assms(3-5) by (simp add: loop_inv_def ExecutionState_ctor_def code_pos_def run_ok_def)
  ultimately have d: "case dispatch env (legacy_cost_tables r) fuel 0 [] (msg_gas m) ?st of
      Inl f \<Rightarrow> f \<in> F \<or> f = Out_of_fuel \<and> int fuel \<le> msg_gas m | Inr (g, st') \<Rightarrow> final_ok ?st (msg_gas m) g st'"
    using assms(1,2,7) by (intro dispatch_ok)
  have a: "analyze r c = Inr (analyze_legacy c)" using assms(6) by (auto simp: analyze_def)
  show ?thesis
  proof (cases "dispatch env (legacy_cost_tables r) fuel 0 [] (msg_gas m) ?st")
    case (Inl f)
    then show ?thesis using d by (auto simp: execute_def a t metered_def Let_def)
  next
    case (Inr x)
    obtain g st' where x: "x = (g, st')" by (cases x)
    have fo: "final_ok ?st (msg_gas m) g st'" using d by (simp add: Inr x)
    moreover have "es_gas_refund ?st = 0" by (simp add: ExecutionState_ctor_def)
    ultimately show ?thesis using assms(3)
      by (auto simp: execute_def a t metered_def Let_def Inr x mem_read_def final_ok_def make_result_def)
  qed
qed

end
