(* ===== verification/EvmEffects.thy ===== *)
theory EvmEffects
  imports EvmRun
begin

text \<open>
  What the instructions do to the stack and to the host, without any assumption on the code: the height
  of the stack changes as the table of traits says, the message stays, and the host changes only
  through its own methods, none of them in static mode.
\<close>

section \<open>Postconditions\<close>

definition post :: "('a \<Rightarrow> bool) \<Rightarrow> 'a vm \<Rightarrow> bool" where
  "post Q r \<longleftrightarrow> (case r of Inl f \<Rightarrow> True | Inr x \<Rightarrow> Q x)"

lemma post_simps [simp]: "post Q (Inl f)" "post Q (Inr x) \<longleftrightarrow> Q x"
  by (simp_all add: post_def)

lemma postD: "post Q r \<Longrightarrow> r = Inr x \<Longrightarrow> Q x"
  by simp

lemma post_bind: "(\<And>x. m = Inr x \<Longrightarrow> post Q (f x)) \<Longrightarrow> post Q (bind_vm m f)"
  by (cases m) simp_all

lemma post_bind_any: "(\<And>x. post Q (f x)) \<Longrightarrow> post Q (bind_vm m f)"
  by (rule post_bind)

lemma post_if: "(b \<Longrightarrow> post Q x) \<Longrightarrow> (\<not> b \<Longrightarrow> post Q y) \<Longrightarrow> post Q (if b then x else y)"
  by simp

lemma post_charge: "Q (EVMC_OUT_OF_GAS, gas - cost, s, st) \<Longrightarrow> (\<And>g. post Q (k g)) \<Longrightarrow> post Q (charge gas cost s st k)"
  by (simp add: charge_def)

lemma post_charge_cold:
  "Q (EVMC_OUT_OF_GAS, gas - cost, s, st) \<Longrightarrow> (\<And>g. post Q (k g)) \<Longrightarrow> post Q (charge_cold gas addr cost s st k)"
  by (simp add: charge_cold_def charge_def)

lemma post_with_memory:
  "(\<And>g m. Q (EVMC_OUT_OF_GAS, g, s, st\<lparr>es_memory := m\<rparr>)) \<Longrightarrow> (\<And>g m. post Q (k g (st\<lparr>es_memory := m\<rparr>))) \<Longrightarrow>
   post Q (with_memory gas st s off sz k)"
  by (simp add: with_memory_def Let_def split: prod.split)

lemma post_with_memory64:
  "(\<And>g m. Q (EVMC_OUT_OF_GAS, g, s, st\<lparr>es_memory := m\<rparr>)) \<Longrightarrow> (\<And>g m. post Q (k g (st\<lparr>es_memory := m\<rparr>))) \<Longrightarrow>
   post Q (with_memory64 gas st s off sz k)"
  by (simp add: with_memory64_def Let_def split: prod.split)

lemma mem_write_eq: "mem_write st off bs = Inr st' \<Longrightarrow> \<exists>m. st' = st\<lparr>es_memory := m\<rparr>"
  by (cases st) (auto simp: mem_write_def split: if_splits)

lemma post_mem_write: "(\<And>m. post Q (k (st\<lparr>es_memory := m\<rparr>))) \<Longrightarrow> post Q (bind_vm (mem_write st off bs) k)"
  by (rule post_bind) (auto dest!: mem_write_eq)

lemmas post_rules = post_charge post_charge_cold post_with_memory post_with_memory64 post_mem_write post_if
  post_bind_any [where m = "i64 x" for x] post_bind_any [where m = "mem_read st off n" for st off n]
  post_bind_any [where m = "copy_code h a off n" for h a off n] post_bind_any [where m = "if b then x else y" for b x y]

section \<open>The relation between the state before and after\<close>

text \<open>
  A property of hosts that the methods of the host keep; in static mode \<open>set_storage\<close> and
  \<open>selfdestruct\<close> need not keep it, and calls only for static messages that create nothing.
\<close>

definition host_closed :: "bool \<Rightarrow> (evmc_message \<Rightarrow> WeakEvmHost \<Rightarrow> (evmc_result \<times> WeakEvmHost) vm) \<Rightarrow> (WeakEvmHost \<Rightarrow> bool) \<Rightarrow> bool" where
  "host_closed static call P \<longleftrightarrow>
     (\<not> static \<longrightarrow> (\<forall>h a k v sc h'. P h \<longrightarrow> length k = 32 \<longrightarrow> length v = 32 \<longrightarrow>
        set_storage h a k v = Inr (sc, h') \<longrightarrow> P h')) \<and>
     (\<not> static \<longrightarrow> (\<forall>h a b. P h \<longrightarrow> P (snd (host_selfdestruct h a b)))) \<and>
     (\<forall>m h res h'. P h \<longrightarrow> call m h = Inr (res, h') \<longrightarrow>
        (static \<longrightarrow> msg_flags m AND EVMC_STATIC \<noteq> 0 \<and> msg_kind m \<notin> {EVMC_CREATE, EVMC_CREATE2}) \<longrightarrow> P h')"

lemma host_closedD:
  assumes "host_closed static call P" "P h"
  shows "\<not> static \<Longrightarrow> length k = 32 \<Longrightarrow> length v = 32 \<Longrightarrow> set_storage h a k v = Inr (sc, h') \<Longrightarrow> P h'"
    and "\<not> static \<Longrightarrow> P (snd (host_selfdestruct h a b))"
    and "call m h = Inr (res, h') \<Longrightarrow>
      (static \<Longrightarrow> msg_flags m AND EVMC_STATIC \<noteq> 0 \<and> msg_kind m \<notin> {EVMC_CREATE, EVMC_CREATE2}) \<Longrightarrow> P h'"
proof -
  show "P h'" if "\<not> static" "length k = 32" "length v = 32" "set_storage h a k v = Inr (sc, h')" using assms that unfolding host_closed_def by blast
  show "P (snd (host_selfdestruct h a b))" if "\<not> static" using assms that unfolding host_closed_def by blast
  show "P h'" if "call m h = Inr (res, h')"
    "static \<Longrightarrow> msg_flags m AND EVMC_STATIC \<noteq> 0 \<and> msg_kind m \<notin> {EVMC_CREATE, EVMC_CREATE2}"
    using assms that unfolding host_closed_def by blast
qed

definition effect :: "(WeakEvmHost \<Rightarrow> bool) \<Rightarrow> ExecutionState \<Rightarrow> nat \<Rightarrow> evmc_status_code \<times> int \<times> stack \<times> ExecutionState \<Rightarrow> bool" where
  "effect P st n = (\<lambda>(sc, g, s', st'). es_msg st' = es_msg st \<and> es_analysis st' = es_analysis st \<and> P (es_host st') \<and> (sc = EVMC_SUCCESS \<longrightarrow> length s' = n))"

lemma effect_simp [simp]:
  "effect P st n (sc, g, s', st') \<longleftrightarrow> es_msg st' = es_msg st \<and> es_analysis st' = es_analysis st \<and>
     P (es_host st') \<and> (sc = EVMC_SUCCESS \<longrightarrow> length s' = n)"
  by (simp add: effect_def)

section \<open>Instructions that charge gas\<close>

lemma core_exp_effect: "P (es_host st) \<Longrightarrow> post (effect P st (length s - 1)) (core_exp s gas st)"
  by (auto simp: core_exp_def Let_def intro!: post_rules split: list.split)

lemma core_keccak256_effect: "P (es_host st) \<Longrightarrow> post (effect P st (length s - 1)) (core_keccak256 keccak s gas st)"
  by (auto simp: core_keccak256_def Let_def intro!: post_rules split: list.split)

lemma core_account_effect:
  "P (es_host st) \<Longrightarrow> post (effect P st (length s)) (core_balance s gas st)"
  "P (es_host st) \<Longrightarrow> post (effect P st (length s)) (core_extcodesize s gas st)"
  "P (es_host st) \<Longrightarrow> post (effect P st (length s)) (core_extcodehash keccak s gas st)"
  by (auto simp: core_balance_def core_extcodesize_def core_extcodehash_def Let_def intro!: post_rules split: list.split)

lemma copy_padded_effect: "P (es_host st) \<Longrightarrow> post (effect P st (length s - 3)) (copy_padded source s gas st)"
  by (auto simp: copy_padded_def Let_def intro!: post_rules split: list.split)

lemma core_extcodecopy_effect: "P (es_host st) \<Longrightarrow> post (effect P st (length s - 4)) (core_extcodecopy s gas st)"
  by (auto simp: core_extcodecopy_def Let_def intro!: post_rules split: list.split)

lemma core_returndatacopy_effect: "P (es_host st) \<Longrightarrow> post (effect P st (length s - 3)) (core_returndatacopy s gas st)"
  by (auto simp: core_returndatacopy_def Let_def intro!: post_rules split: list.split)

lemma core_memory_effect:
  "P (es_host st) \<Longrightarrow> post (effect P st (length s)) (core_mload s gas st)"
  "P (es_host st) \<Longrightarrow> post (effect P st (length s - 2)) (core_mstore s gas st)"
  "P (es_host st) \<Longrightarrow> post (effect P st (length s - 2)) (core_mstore8 s gas st)"
  by (auto simp: core_mload_def core_mstore_def core_mstore8_def Let_def intro!: post_rules split: list.split)

lemma core_sload_effect: "P (es_host st) \<Longrightarrow> post (effect P st (length s)) (core_sload s gas st)"
  by (auto simp: core_sload_def Let_def intro!: post_rules split: list.split)

lemma core_sstore_effect:
  assumes "host_closed (in_static_mode st) call P" "P (es_host st)"
  shows "post (effect P st (length s - 2)) (core_sstore s gas st)"
  using assms(2) host_closedD(1) [OF assms _ length_be_store256 length_be_store256]
  by (auto simp: core_sstore_def Let_def intro!: post_charge post_bind post_if split: list.split prod.split)

lemma core_log_effect: "P (es_host st) \<Longrightarrow> n + 2 \<le> length s \<Longrightarrow> post (effect P st (length s - n - 2)) (core_log n s gas st)"
  by (auto simp: core_log_def Let_def emit_log_def intro!: post_rules split: list.split)

section \<open>Calls\<close>

lemma static_flags: "in_static_mode st \<Longrightarrow> msg_flags (call_message op st dst v input) AND EVMC_STATIC \<noteq> 0"
  by (simp add: call_message_def in_static_mode_def EVMC_STATIC_def)

lemma call_message_kind: "msg_kind (call_message op st dst v input) \<notin> {EVMC_CREATE, EVMC_CREATE2}"
  by (simp add: call_message_def)

lemma call_return_effect:
  "P (es_host st) \<Longrightarrow> post (effect P st (Suc (length r))) (call_return m gas oo osz r st res)"
  by (auto simp: call_return_def Let_def intro!: post_rules)

lemma call_dispatch_effect:
  assumes "host_closed (in_static_mode st) (env_call env) P" "P (es_host st)"
    and "in_static_mode st \<Longrightarrow> msg_flags m AND EVMC_STATIC \<noteq> 0" "msg_kind m \<notin> {EVMC_CREATE, EVMC_CREATE2}"
  shows "post (effect P st (Suc (length r))) (call_dispatch env m gas_left gas v oo osz r st)"
proof -
  have c: "post (effect P st (Suc (length r))) (call_return m' g oo osz r (st\<lparr>es_host := h'\<rparr>) res)"
    if "env_call env m' (es_host st) = Inr (res, h')" "m' = m\<lparr>msg_gas := x\<rparr>" for res h' m' x g
  proof -
    have "P h'" using host_closedD(3) [OF assms(1,2) that(1)] that(2) assms(3,4) by simp
    then have "post (effect P (st\<lparr>es_host := h'\<rparr>) (Suc (length r))) (call_return m' g oo osz r (st\<lparr>es_host := h'\<rparr>) res)"
      by (intro call_return_effect) simp
    then show ?thesis by (simp add: post_def effect_def split: sum.splits prod.splits)
  qed
  show ?thesis unfolding call_dispatch_def Let_def
    by (intro post_if post_bind) (use assms(2) c in \<open>auto split: prod.split\<close>)
qed

lemma post_effect_frame:
  "post (effect P st1 n) r \<Longrightarrow> es_msg st1 = es_msg st \<Longrightarrow> es_analysis st1 = es_analysis st \<Longrightarrow> post (effect P st n) r"
  by (auto simp: post_def effect_def split: sum.splits)

lemma in_static_mode_frame: "es_msg st1 = es_msg st \<Longrightarrow> in_static_mode st1 = in_static_mode st"
  by (simp add: in_static_mode_def)

lemma call_operands_length:
  "call_operands op s = Some (g, d, v, io, isz, oo, osz, r) \<Longrightarrow>
   length s = length r + (if op = OP_STATICCALL \<or> op = OP_DELEGATECALL then 6 else 7)"
  by (auto simp: call_operands_def split: if_splits list.splits)

lemma call_impl_effect:
  assumes "host_closed (in_static_mode st) (env_call env) P" "P (es_host st)"
  shows "post (effect P st (length s - (if op = OP_STATICCALL \<or> op = OP_DELEGATECALL then 5 else 6))) (call_impl env op s gas st)"
proof (cases "call_operands op s")
  case (Some t)
  obtain g d v io isz oo osz r where t: "t = (g, d, v, io, isz, oo, osz, r)" by (cases t) auto
  have n: "length s - (if op = OP_STATICCALL \<or> op = OP_DELEGATECALL then 5 else 6) = Suc (length r)"
    using call_operands_length [OF Some [unfolded t]] by simp
  have k: "post (effect P st (Suc (length r))) (call_dispatch env m gas_left gas v oo' osz' r st')"
    if "es_msg st' = es_msg st" "es_host st' = es_host st" "es_analysis st' = es_analysis st" "m = call_message op st' dst v input" for st' m gas_left gas v oo' osz' dst input
  proof (rule post_effect_frame [OF call_dispatch_effect that(1,3)])
    show "host_closed (in_static_mode st') (env_call env) P" "P (es_host st')"
      using assms that(1,2) in_static_mode_frame [of st' st] by simp_all
    show "in_static_mode st' \<Longrightarrow> msg_flags m AND EVMC_STATIC \<noteq> 0" using static_flags that(4) by simp
    show "msg_kind m \<notin> {EVMC_CREATE, EVMC_CREATE2}" using call_message_kind that(4) by simp
  qed
  show ?thesis using assms(2)
    by (auto simp: call_impl_def Some t n Let_def intro!: post_rules k)
qed (simp add: call_impl_def)

lemma create_operands_length:
  "create_operands op s = Some (e, off, sz, salt, r) \<Longrightarrow> length s = length r + (if op = OP_CREATE2 then 4 else 3)"
  by (auto simp: create_operands_def split: if_splits list.splits)

lemma create_return_effect:
  "P (es_host st) \<Longrightarrow> post (effect P st (Suc (length r))) (create_return m gas r st res)"
  by (auto simp: create_return_def Let_def intro!: post_rules)

lemma create_call_effect:
  assumes "host_closed (in_static_mode st) (env_call env) P" "P (es_host st)" "\<not> in_static_mode st"
  shows "post (effect P st (Suc (length r))) (bind_vm (env_call env m (es_host st)) (\<lambda>(res, h'). create_return m g r (st\<lparr>es_host := h'\<rparr>) res))"
proof (rule post_bind)
  fix x assume x: "env_call env m (es_host st) = Inr x"
  obtain res h' where x': "x = (res, h')" by (cases x)
  have "P h'" using host_closedD(3) [OF assms(1,2) x [unfolded x']] assms(3) by blast
  then have "post (effect P (st\<lparr>es_host := h'\<rparr>) (Suc (length r))) (create_return m g r (st\<lparr>es_host := h'\<rparr>) res)"
    by (intro create_return_effect) simp
  then show "post (effect P st (Suc (length r))) (case x of (res, h') \<Rightarrow> create_return m g r (st\<lparr>es_host := h'\<rparr>) res)"
    by (simp add: x' post_effect_frame)
qed

lemma create_impl_effect:
  assumes "host_closed (in_static_mode st) (env_call env) P" "P (es_host st)"
  shows "post (effect P st (length s - (if op = OP_CREATE2 then 3 else 2))) (create_impl env op s gas st)"
proof (cases "in_static_mode st")
  case ns: False
  show ?thesis
  proof (cases "create_operands op s")
    case (Some t)
    obtain e off sz salt r where t: "t = (e, off, sz, salt, r)" by (metis prod_cases5)
    have n: "length s - (if op = OP_CREATE2 then 3 else 2) = Suc (length r)"
      using create_operands_length [OF Some [unfolded t]] by simp
    have k: "post (effect P st (Suc (length r)))
        (bind_vm (env_call env m (es_host st')) (\<lambda>(res, h'). create_return m g r (st'\<lparr>es_host := h'\<rparr>) res))"
      if "es_msg st' = es_msg st" "es_host st' = es_host st" "es_analysis st' = es_analysis st" for st' m g
      using assms ns that in_static_mode_frame [of st' st]
      by (intro post_effect_frame [OF create_call_effect that(1,3)]) simp_all
    have k': "post (effect P st (Suc (length r)))
        (bind_vm (env_call env m (es_host st)) (\<lambda>(res, h'). create_return m g r (st'\<lparr>es_host := h'\<rparr>) res))"
      if "es_msg st' = es_msg st" "es_host st' = es_host st" "es_analysis st' = es_analysis st" for st' m g
      using k [OF that] that(2) by simp
    show ?thesis using assms(2) ns
      by (auto simp: create_impl_def Some t n Let_def intro!: post_rules k')
  qed (simp add: create_impl_def ns)
qed (use assms(2) in \<open>simp add: create_impl_def\<close>)

section \<open>Every instruction\<close>

lemma core_gas_effect: "P (es_host st) \<Longrightarrow> post (effect P st (Suc (length s))) (core_gas s gas st)"
  by (simp add: core_gas_def)

lemmas result_effects = core_exp_effect core_keccak256_effect core_account_effect copy_padded_effect core_extcodecopy_effect
  core_returndatacopy_effect core_memory_effect core_sload_effect core_gas_effect core_log_effect

lemma result_impl_effect:
  assumes "host_closed (in_static_mode st) (env_call env) P" "P (es_host st)" "stack_height_required (result_traits op) \<le> length s"
  shows "post (effect P st (nat (int (length s) + stack_height_change (result_traits op)))) (result_impl env op s gas st)"
  using result_effects [where P = P, OF assms(2)] core_sstore_effect [OF assms(1,2), of s gas] assms(3)
    call_impl_effect [OF assms(1,2), of s op gas] create_impl_effect [OF assms(1,2), of s op gas]
  by (cases op) (auto simp: result_impl_def result_traits_def tr_def nat_heights nat_height_log core_calldatacopy_def core_codecopy_def)

lemma state_impl_effect:
  "post (\<lambda>(s', st'). es_msg st' = es_msg st \<and> es_host st' = es_host st \<and> es_analysis st' = es_analysis st \<and>
     int (length s') = int (length s) + stack_height_change (state_traits op)) (state_impl op s st)"
  by (cases op) (auto simp: state_impl_def state_traits_def tr_def Let_def get_tx_context_def stack1_def split: list.split)

lemma stack_impl_effect:
  "post (\<lambda>s'. int (length s') = int (length s) + stack_height_change (stack_traits op)) (stack_impl op s)"
  by (cases op) (auto simp: stack_impl_def stack_traits_def tr_def stack1_def stack2_def stack3_def core_pop_def core_dup_def
      core_swap_def split: list.split)

lemma post_jump_impl:
  "Q (None, s, st\<lparr>es_status := EVMC_BAD_JUMP_DESTINATION\<rparr>) \<Longrightarrow> (\<And>p. Q (Some p, s, st)) \<Longrightarrow> post Q (jump_impl st dst s)"
  by (simp add: jump_impl_def fail_with_def)

lemma code_impl_effect:
  "post (\<lambda>(nx, s', st'). es_msg st' = es_msg st \<and> es_host st' = es_host st \<and> es_analysis st' = es_analysis st \<and>
     (nx \<noteq> None \<longrightarrow> int (length s') = int (length s) + stack_height_change (code_traits op))) (code_impl op s st pos)"
  by (cases op) (auto simp: code_impl_def code_traits_def tr_def core_jump_def core_jumpi_def core_pc_def core_rjump_def
      core_rjumpi_def core_rjumpv_def core_push_def core_dupn_def core_swapn_def core_callf_def core_retf_def fail_with_def Let_def
      intro!: post_jump_impl post_bind_any post_if split: list.split)

lemma return_impl_effect:
  "P (es_host st) \<Longrightarrow> post (\<lambda>(sc, g, s', st'). es_msg st' = es_msg st \<and> P (es_host st')) (return_impl sc0 s gas st)"
  by (auto simp: return_impl_def Let_def intro!: post_rules split: list.split)

lemma selfdestruct_effect:
  assumes "host_closed (in_static_mode st) call P" "P (es_host st)"
  shows "post (\<lambda>(sc, g, s', st'). es_msg st' = es_msg st \<and> P (es_host st')) (core_selfdestruct s gas st)"
  using assms(2) host_closedD(2) [OF assms]
  by (auto simp: core_selfdestruct_def Let_def split_beta intro!: post_rules split: list.split)

lemma term_impl_effect:
  assumes "host_closed (in_static_mode st) call P" "P (es_host st)"
  shows "post (\<lambda>(sc, g, s', st'). es_msg st' = es_msg st \<and> P (es_host st')) (term_impl op s gas st)"
  using assms(2) selfdestruct_effect [OF assms] return_impl_effect [where P = P, OF assms(2)]
  by (cases op) (auto simp: term_impl_def stop_impl_def)

section \<open>Steps and runs\<close>

definition step_effect :: "(WeakEvmHost \<Rightarrow> bool) \<Rightarrow> ExecutionState \<Rightarrow> int \<Rightarrow> int option \<times> stack \<times> int \<times> ExecutionState \<Rightarrow> bool" where
  "step_effect P st n = (\<lambda>(nx, s', g, st'). es_msg st' = es_msg st \<and> P (es_host st') \<and>
     (nx \<noteq> None \<longrightarrow> es_analysis st' = es_analysis st \<and> int (length s') = n))"

lemma step_effect_simp [simp]:
  "step_effect P st n (nx, s', g, st') \<longleftrightarrow> es_msg st' = es_msg st \<and> P (es_host st') \<and>
     (nx \<noteq> None \<longrightarrow> es_analysis st' = es_analysis st \<and> int (length s') = n)"
  by (simp add: step_effect_def)

lemma post_bind_post: "post R m \<Longrightarrow> (\<And>x. R x \<Longrightarrow> post Q (f x)) \<Longrightarrow> post Q (bind_vm m f)"
  by (cases m) simp_all

lemma invoke_impl_effect:
  assumes "host_closed (in_static_mode st) (env_call env) P" "P (es_host st)" "stack_height_required (traits op) \<le> length s"
  shows "post (step_effect P st (int (length s) + stack_height_change (traits op))) (invoke_impl env op pos s gas st)"
proof (cases op)
  case (Op_stack x)
  then show ?thesis using assms(2) by (auto intro!: post_bind_post [OF stack_impl_effect [of s x]])
next
  case (Op_state x)
  then show ?thesis using assms(2) by (auto intro!: post_bind_post [OF state_impl_effect [of st s x]])
next
  case (Op_result x)
  have "0 \<le> int (length s) + stack_height_change (result_traits x)"
    using assms(3) Op_result by (cases x) (auto simp: result_traits_def tr_def)
  moreover have "stack_height_required (result_traits x) \<le> length s" using assms(3) Op_result by simp
  ultimately show ?thesis using Op_result by (auto intro!: post_bind_post [OF result_impl_effect [OF assms(1,2), of x s gas]])
next
  case (Op_code x)
  then show ?thesis using assms(2) by (auto intro!: post_bind_post [OF code_impl_effect [of st s x pos]])
next
  case (Op_term x)
  then show ?thesis by (auto intro!: post_bind_post [OF term_impl_effect [OF assms(1,2), of x s gas]])
qed

lemma check_requirements_height:
  assumes "check_requirements ct op gas n = (EVMC_SUCCESS, g)" "n \<le> stack_limit"
  shows "stack_height_required (traits op) \<le> n" "int n + stack_height_change (traits op) \<le> int stack_limit"
  using assms stack_change_le [of op] by (auto simp: check_requirements_def Let_def split: if_splits)

lemma vm_step_host:
  assumes "host_closed (in_static_mode st) (env_call env) P" "P (es_host st)" "length s \<le> stack_limit"
  shows "post (\<lambda>(nx, s', g, st'). es_msg st' = es_msg st \<and> P (es_host st') \<and> (nx \<noteq> None \<longrightarrow> es_analysis st' = es_analysis st \<and> length s' \<le> stack_limit)) (vm_step env ct pos s gas st)"
proof -
  have "post (\<lambda>(nx, s', g, st'). es_msg st' = es_msg st \<and> P (es_host st') \<and> (nx \<noteq> None \<longrightarrow> es_analysis st' = es_analysis st \<and> length s' \<le> stack_limit)) (invoke env ct op pos s gas st)" for op
  proof (cases "check_requirements ct op gas (length s)")
    case (Pair sc g)
    show ?thesis
    proof (cases "sc = EVMC_SUCCESS")
      case True
      note h = check_requirements_height [OF Pair [unfolded True] assms(3)]
      show ?thesis using invoke_impl_effect [OF assms(1,2) h(1), of pos g] h(2)
        by (auto simp: invoke_def Pair True post_def step_effect_def split: sum.splits)
    qed (use assms(2) in \<open>simp add: invoke_def Pair\<close>)
  qed
  then show ?thesis using assms(2) by (auto simp: vm_step_def intro!: post_bind_any split: option.split)
qed

lemma dispatch_host:
  assumes "host_closed (in_static_mode st) (env_call env) P" "P (es_host st)" "length s \<le> stack_limit"
  shows "post (\<lambda>(g, st'). es_msg st' = es_msg st \<and> P (es_host st')) (dispatch env ct n pos s gas st)"
  using assms
proof (induction n arbitrary: pos s gas st)
  case (Suc n)
  have "post (\<lambda>(g, st'). es_msg st' = es_msg st \<and> P (es_host st'))
      (case x of (nx, s', gas', st') \<Rightarrow> case nx of None \<Rightarrow> Inr (gas', st') | Some p \<Rightarrow> dispatch env ct n p s' gas' st')"
    if "case x of (nx, s', g, st') \<Rightarrow> es_msg st' = es_msg st \<and> P (es_host st') \<and> (nx \<noteq> None \<longrightarrow> es_analysis st' = es_analysis st \<and> length s' \<le> stack_limit)" for x
  proof -
    obtain nx s' g' st' where x: "x = (nx, s', g', st')" by (cases x)
    show ?thesis
    proof (cases nx)
      case (Some p)
      have "in_static_mode st' = in_static_mode st" using that by (intro in_static_mode_frame) (simp add: x)
      then have "post (\<lambda>(g, st''). es_msg st'' = es_msg st' \<and> P (es_host st'')) (dispatch env ct n p s' g' st')"
        using Suc.prems(1) that by (intro Suc.IH) (simp_all add: x Some)
      then show ?thesis using that by (auto simp: x Some post_def split: sum.splits)
    qed (use that in \<open>simp add: x\<close>)
  qed
  then show ?case by (simp only: dispatch.simps) (rule post_bind_post [OF vm_step_host [OF Suc.prems]])
qed simp

text \<open>A run of \<open>execute\<close> keeps what the methods of the host keep.\<close>

lemma execute_host:
  assumes "host_closed (msg_flags m AND EVMC_STATIC \<noteq> 0) (env_call env) P" "P h" "execute env fuel r m h c = Inr (res, h')"
  shows "P h'"
proof -
  obtain an g st' where d: "dispatch env (get_baseline_cost_table r (eof_version (eof_header an))) fuel 0 [] (msg_gas m)
      (ExecutionState_ctor m r h c an) = Inr (g, st')" and h': "h' = es_host st'"
    using assms(3) by (auto simp: execute_def bind_vm_Inr_iff Let_def)
  let ?st = "ExecutionState_ctor m r h c an"
  have "post (\<lambda>(g, st'). es_msg st' = es_msg ?st \<and> P (es_host st')) (Inr (g, st'))"
    unfolding d [symmetric] using assms(1,2) by (intro dispatch_host) (simp_all add: in_static_mode_def ExecutionState_ctor_def)
  then show ?thesis by (simp add: h')
qed

section \<open>The run as a state machine\<close>

text \<open>The positions, stacks, gas and states the loop goes through.\<close>

type_synonym vm_config = "int \<times> stack \<times> int \<times> ExecutionState"

inductive vm_reach :: "evm_env \<Rightarrow> CostTable \<Rightarrow> vm_config \<Rightarrow> vm_config \<Rightarrow> bool" for env ct where
  vm_start: "vm_reach env ct x x"
| vm_next: "vm_reach env ct x (p, s, g, st) \<Longrightarrow> vm_step env ct p s g st = Inr (Some q, s', g', st') \<Longrightarrow>
    vm_reach env ct x (q, s', g', st')"

lemma host_closed_top: "host_closed b call (\<lambda>_. True)"
  by (simp add: host_closed_def)

lemma vm_reach_limit:
  assumes "vm_reach env ct x y" "length (fst (snd x)) \<le> stack_limit"
  shows "length (fst (snd y)) \<le> stack_limit \<and> es_msg (snd (snd (snd y))) = es_msg (snd (snd (snd x))) \<and>
    es_analysis (snd (snd (snd y))) = es_analysis (snd (snd (snd x)))"
  using assms
proof (induction rule: vm_reach.induct)
  case (vm_next x p s g st q s' g' st')
  then show ?case using vm_step_host [OF host_closed_top TrueI, of s st env ct p g] by simp
qed simp

lemma vm_step_height:
  assumes "vm_step env ct p s g st = Inr (Some q, s', g', st')" "length s \<le> stack_limit"
  shows "\<exists>b op. code_at st p = Inr b \<and> opcode_of_byte b = Some op \<and> stack_height_required (traits op) \<le> length s \<and>
    int (length s') = int (length s) + stack_height_change (traits op)"
proof -
  obtain b op g0 where b: "code_at st p = Inr b" "opcode_of_byte b = Some op"
    "check_requirements ct op g (length s) = (EVMC_SUCCESS, g0)" "invoke_impl env op p s g0 st = Inr (Some q, s', g', st')"
    using assms(1) by (auto simp: vm_step_def bind_vm_Inr_iff invoke_def Let_def split_beta split: option.splits if_splits)
      (metis prod.collapse)
  have "stack_height_required (traits op) \<le> length s" by (rule check_requirements_height(1) [OF b(3) assms(2)])
  then show ?thesis using invoke_impl_effect [OF host_closed_top TrueI, of op s st env p g0] b by simp
qed

text \<open>
  C21. The stack discipline of the table of traits: in every configuration a run reaches from the empty
  stack, whatever the code, the gas table and the host, the stack holds at most 1024 items and the message is
  unchanged; and the next instruction that goes on found the items it needs and changes the height by exactly
  what the table says for its opcode.
\<close>

theorem stack_height_typed:
  assumes "vm_reach env ct (0, [], gas, st0) (p, s, g, st)"
  shows "length s \<le> 1024 \<and> es_msg st = es_msg st0 \<and>
    (\<forall>q s' g' st'. vm_step env ct p s g st = Inr (Some q, s', g', st') \<longrightarrow>
       (\<exists>b op. code_at st p = Inr b \<and> opcode_of_byte b = Some op \<and> stack_height_required (traits op) \<le> length s \<and>
          int (length s') = int (length s) + stack_height_change (traits op)))"
  using vm_reach_limit [OF assms] vm_step_height by auto

definition vm_demo_msg :: evmc_message where
  "vm_demo_msg = evmc_message_default\<lparr>msg_gas := 100000\<rparr>"

definition vm_demo_env :: evm_env where
  "vm_demo_env = \<lparr>env_keccak = \<lambda>_. replicate 32 0, env_call = \<lambda>m h. Inr (make_result EVMC_FAILURE 0 0 [], h)\<rparr>"

definition vm_demo_host :: WeakEvmHost where
  "vm_demo_host = WeakEvmHost_ctor (\<lambda>_. None) 0"

text \<open>In the last revision the cost of an opcode is its entry in the table, constant or not.\<close>

lemma vm_step_prague:
  assumes "code_at st p = Inr b" "opcode_of_byte b = Some op" "gas_costs EVMC_PRAGUE op = c" "c \<le> g"
    and "stack_height_required (traits op) \<le> length s" "length s < stack_limit"
  shows "vm_step env (legacy_cost_tables EVMC_PRAGUE) p s g st = invoke_impl env op p s (g - c) st"
proof -
  have "(if has_const_gas_cost op then gas_costs EVMC_FRONTIER op else legacy_cost_tables EVMC_PRAGUE op) = c"
    using assms(3) const_cost_at [of op EVMC_PRAGUE] by (auto simp: legacy_cost_tables_def)
  moreover have "0 \<le> c" using assms(3) gas_costs_defined [of EVMC_PRAGUE op] prague_cost_defined [of op] by auto
  ultimately have "check_requirements (legacy_cost_tables EVMC_PRAGUE) op g (length s) = (EVMC_SUCCESS, g - c)"
    using assms(4-6) by (auto simp: check_requirements_def Let_def)
  then show ?thesis using assms(1,2) by (simp add: vm_step_def invoke_def)
qed

lemma opcode_of_byte_0x5f: "opcode_of_byte 0x5f = Some (Op_stack OP_PUSH0)"
  by (simp add: opcode_of_byte_def opcode_table_def Let_def)

lemma push0_reach:
  fixes st :: ExecutionState
  defines "st \<equiv> ExecutionState_ctor vm_demo_msg EVMC_PRAGUE vm_demo_host [0x5f] (analyze_legacy [0x5f])"
  shows "vm_reach vm_demo_env (legacy_cost_tables EVMC_PRAGUE) (0, [], 10, st) (1, [0], 8, st)"
proof -
  have "code_at st 0 = Inr 0x5f" by (simp add: st_def code_at_def ExecutionState_ctor_def analyze_legacy_def pad_code_def)
  moreover have "gas_costs EVMC_PRAGUE (Op_stack OP_PUSH0) = 2" by (simp add: gas_costs_numeral gas_costs_update_def)
  ultimately have "vm_step vm_demo_env (legacy_cost_tables EVMC_PRAGUE) 0 [] 10 st = Inr (Some 1, [0], 8, st)"
    by (subst vm_step_prague [OF _ opcode_of_byte_0x5f]) (simp_all add: stack_traits_def tr_def stack_impl_def)
  then show ?thesis by (rule vm_next [OF vm_start])
qed

theorem stack_height_typed_witness:
  "\<exists>p s g st. vm_reach vm_demo_env (legacy_cost_tables EVMC_PRAGUE)
      (0, [], 10, ExecutionState_ctor vm_demo_msg EVMC_PRAGUE vm_demo_host [0x5f] (analyze_legacy [0x5f])) (p, s, g, st) \<and>
     s = [0] \<and> length s \<le> 1024 \<and> es_msg st = vm_demo_msg"
  using stack_height_typed [OF push0_reach] push0_reach by (fastforce simp: ExecutionState_ctor_def)

end
