(* ===== verification/EvmRef.thy ===== *)
theory EvmRef
  imports EvmEffects
begin

text \<open>
  Reference definitions for the routines of the interpreter that work limb by limb or by pointer
  arithmetic, and their equivalence with the code: the map of jump destinations, the data of push
  instructions, and the byte, shift and extension instructions; and that control stays on instructions.
\<close>

section \<open>Jump destinations\<close>

text \<open>The position after the instruction at a position: a push skips its data.\<close>

definition next_instr :: "bytes \<Rightarrow> nat \<Rightarrow> nat" where
  "next_instr c i = i + 1 + (if 0x60 \<le> unat (c ! i) \<and> unat (c ! i) \<le> 0x7f then unat (c ! i) - 0x5f else 0)"

text \<open>The positions of the instructions from a position on, the one after the last included.\<close>

inductive instr_from :: "bytes \<Rightarrow> nat \<Rightarrow> nat \<Rightarrow> bool" for c where
  instr_here: "instr_from c i i"
| instr_later: "i < length c \<Longrightarrow> instr_from c (next_instr c i) j \<Longrightarrow> instr_from c i j"

inductive_cases instr_fromE: "instr_from c i j"

lemma sint_byte: "sint (b :: byte) = (if unat b < 128 then int (unat b) else int (unat b) - 256)"
proof -
  obtain k where k: "unat b = k" "uint b = int k" by (metis of_nat_unat)
  have "k < 256" using unat_byte_less [of b] k(1) by simp
  moreover have "sint b = (int k + 128) mod 256 - 128"
    unfolding k(2) [symmetric] by (simp add: sint_uint signed_take_bit_eq_take_bit_shift take_bit_eq_mod)
  moreover have "(int k - 128 + 256) mod 256 = (int k - 128) mod 256" by (rule mod_add_self2)
  ultimately show ?thesis unfolding k(1) by (cases "k < 128") (simp_all add: mod_pos_pos_trivial add.commute)
qed

lemma sint_byte_push: "0x60 \<le> sint (b :: byte) \<longleftrightarrow> 0x60 \<le> unat b \<and> unat b \<le> 0x7f"
proof -
  obtain k where k: "unat b = k" by simp
  then show ?thesis using unat_byte_less [of b] unfolding sint_byte k by auto
qed

lemma instr_from_iff: "instr_from c i j \<longleftrightarrow> j = i \<or> i < length c \<and> instr_from c (next_instr c i) j"
  by (auto elim: instr_fromE intro: instr_here instr_later)

lemma instr_from_le: "instr_from c i j \<Longrightarrow> i \<le> j"
  by (induction rule: instr_from.induct) (auto simp: next_instr_def split: if_splits)

lemma instr_from_next: "instr_from c i j \<Longrightarrow> j < length c \<Longrightarrow> instr_from c i (next_instr c j)"
  by (induction rule: instr_from.induct) (blast intro: instr_here instr_later)+

lemma jumpdest_loop_step:
  "jumpdest_loop c i m = (if i < length c then jumpdest_loop c (next_instr c i) (if c ! i = 0x5b then m[i := True] else m) else m)"
proof -
  have "unat (c ! i) = 0x5b" if "c ! i = 0x5b" using that by simp
  then show ?thesis by (subst jumpdest_loop.simps) (auto simp: Let_def sint_byte_push next_instr_def algebra_simps)
qed

lemma jumpdest_loop_nth:
  "length m = length c \<Longrightarrow> j < length c \<Longrightarrow> jumpdest_loop c i m ! j \<longleftrightarrow> m ! j \<or> instr_from c i j \<and> c ! j = 0x5b"
proof (induction "length c - i" arbitrary: i m rule: less_induct)
  case less
  show ?case
  proof (cases "i < length c")
    case True
    let ?m = "if c ! i = 0x5b then m[i := True] else m"
    have "i < next_instr c i" by (simp add: next_instr_def)
    then have "jumpdest_loop c (next_instr c i) ?m ! j \<longleftrightarrow> ?m ! j \<or> instr_from c (next_instr c i) j \<and> c ! j = 0x5b"
      using less.prems True by (intro less.hyps) auto
    then show ?thesis using True less.prems
      by (subst jumpdest_loop_step, subst instr_from_iff) (auto simp: nth_list_update)
  next
    case False
    then show ?thesis using less.prems instr_from_le [of c i j] by (subst jumpdest_loop_step) auto
  qed
qed

lemma analyze_jumpdests_nth: "j < length c \<Longrightarrow> analyze_jumpdests c ! j \<longleftrightarrow> instr_from c 0 j \<and> c ! j = 0x5b"
  by (simp add: analyze_jumpdests_def jumpdest_loop_nth)

section \<open>Words\<close>

lemma and_0xff: "w AND 0xff = take_bit 8 w" for w :: "'a :: len word"
  unfolding take_bit_eq_mask mask_eq_exp_minus_1 by simp

lemma core_byte_eq: "core_byte n x = (if unat n < 32 then take_bit 8 (drop_bit (8 * (31 - unat n)) x) else 0)"
proof (rule bit_eqI)
  fix j assume "possible_bit TYPE(256 word) j"
  have n: "n < 32 \<longleftrightarrow> unat n < 32" by (simp add: word_less_nat_alt)
  have l: "low64 n mod 32 = unat n" if "unat n < 32" using that low64_small [of n] by simp
  have k: "64 * (k div 8) + (k mod 8 * 8 + j) = 8 * k + j" "j < 8 \<Longrightarrow> k mod 8 * 8 + j < 64" for k :: nat
    using div_mult_mod_eq [of k 8] mod_less_divisor [of 8 k] by linarith+
  show "bit (core_byte n x) j = bit (if unat n < 32 then take_bit 8 (drop_bit (8 * (31 - unat n)) x) else 0) j"
  proof (cases "unat n < 32")
    case True
    have "core_byte n x = ucast (take_bit 8 (drop_bit ((31 - unat n) mod 8 * 8) (limb x ((31 - unat n) div 8))))"
      using True by (simp only: core_byte_def Let_def n l if_True and_0xff)
    moreover have "bit (ucast (take_bit 8 (drop_bit ((31 - unat n) mod 8 * 8) (limb x ((31 - unat n) div 8)))) :: uint256) j
        \<longleftrightarrow> j < 8 \<and> bit x (8 * (31 - unat n) + j)"
      using k [of "31 - unat n"] by (auto simp only: bit_ucast_iff bit_take_bit_iff bit_drop_bit_eq o_apply bit_limb) (auto dest: bit256_bound simp: possible_bit_word)
    ultimately show ?thesis using True by (simp only: if_True bit_take_bit_iff bit_drop_bit_eq o_apply)
  next
    case False
    then show ?thesis by (simp add: core_byte_def n)
  qed
qed

lemma bit_of_limbs:
  "bit (of_limbs ws) j \<longleftrightarrow> j < 256 \<and> j div 64 < length ws \<and> bit (ws ! (j div 64)) (j mod 64)"
proof (induction ws arbitrary: j)
  case (Cons w ws)
  show ?case
  proof (cases "j < 64")
    case True
    then show ?thesis by (simp add: of_limbs_def bit_simps)
  next
    case False
    then have "j div 64 = Suc ((j - 64) div 64)" "j mod 64 = (j - 64) mod 64" by (simp_all add: le_div_geq le_mod_geq)
    then show ?thesis using Cons.IH [of "j - 64"] False
      by (auto simp: of_limbs_def bit_simps dest: bit_imp_le_length)
  qed
qed (simp add: of_limbs_def)

lemma limbs_nth: "i < 4 \<Longrightarrow> map f [0, 1, 2, 3 :: nat] ! i = f i"
  by (auto simp: less_Suc_eq numeral_eq_Suc)

lemma limb_position: "j < 256 \<Longrightarrow> \<exists>q i. j = 64 * q + i \<and> i < 64 \<and> q < 4 \<and> j div 64 = q \<and> j mod 64 = i" for j :: nat
  by (rule exI [of _ "j div 64"], rule exI [of _ "j mod 64"]) auto

lemma sext_limb:
  fixes w :: u64
  assumes "b \<le> 56"
  defines "s \<equiv> scast (ucast (drop_bit b w) :: byte) :: u64"
  shows "i < 64 \<Longrightarrow> bit (push_bit b s OR (w AND NOT (push_bit b (NOT 0)))) i \<longleftrightarrow> bit w (if i \<le> b + 7 then i else b + 7)"
    and "i < 64 \<Longrightarrow> bit (signed_drop_bit 8 s) i \<longleftrightarrow> bit w (b + 7)"
proof -
  have s: "bit s n \<longleftrightarrow> n < 64 \<and> bit w (b + min n 7)" for n
    using assms(1) by (auto simp: s_def bit_signed_iff bit_simps min_def)
  show "bit (push_bit b s OR (w AND NOT (push_bit b (NOT 0)))) i \<longleftrightarrow> bit w (if i \<le> b + 7 then i else b + 7)" if "i < 64"
    using that assms(1) by (auto simp: bit_simps s min_def)
  show "bit (signed_drop_bit 8 s) i \<longleftrightarrow> bit w (b + 7)" if "i < 64"
    using that by (auto simp: bit_signed_drop_bit_iff s)
qed

lemma core_signextend_limb:
  assumes "unat e < 31" "i < 64" "q < 4" "b = unat e mod 8 * 8"
  shows "bit (core_signextend e x) (64 * q + i) \<longleftrightarrow>
    (if q = unat e div 8 then bit (limb x q) (if i \<le> b + 7 then i else b + 7)
     else if unat e div 8 < q then bit (limb x (unat e div 8)) (b + 7) else bit (limb x q) i)"
proof -
  have e: "low64 e = unat e" "e < 31" using assms(1) by (simp_all add: low64_small word_less_nat_alt)
  have "b \<le> 56" using assms(4) by simp
  note sx = sext_limb [OF this, of i "limb x (unat e div 8)", OF assms(2)]
  have "(64 * q + i) div 64 = q" "(64 * q + i) mod 64 = i" "64 * q + i < 256" using assms(2,3) by auto
  then show ?thesis
    using e(2) sx unfolding core_signextend_def Let_def e(1) bit_of_limbs assms(4) [symmetric]
    by (simp only: if_True bit_of_limbs limbs_nth [OF assms(3)] length_map) (simp add: assms(3))
qed

lemma core_signextend_eq: "core_signextend e x = (if unat e < 31 then signed_take_bit (8 * unat e + 7) x else x)"
proof (cases "unat e < 31")
  case True
  let ?w = "unat e div 8" and ?b = "unat e mod 8 * 8"
  have split: "8 * unat e + 7 = 64 * ?w + (?b + 7)" "?b \<le> 56"
    using div_mult_mod_eq [of "unat e" 8] mod_less_divisor [of 8 "unat e"] by linarith+
  have "core_signextend e x = signed_take_bit (8 * unat e + 7) x"
  proof (rule bit_eqI)
    fix j assume "possible_bit TYPE(256 word) j"
    then have j: "j < 256" by (simp add: possible_bit_word)
    then obtain q i where "j = 64 * q + i" "i < 64" "q < 4" using limb_position by blast
    note q = this j [unfolded this(1)]
    have "q < ?w \<Longrightarrow> 64 * q + 64 \<le> 64 * ?w" "?w < q \<Longrightarrow> 64 * ?w + 64 \<le> 64 * q" by simp_all
    then show "bit (core_signextend e x) j = bit (signed_take_bit (8 * unat e + 7) x) j"
      unfolding q(1) core_signextend_limb [OF True q(2,3) refl] split(1) using q(2,4) split(2)
      by (auto simp: bit_signed_take_bit_iff possible_bit_word bit_limb min_def)
  qed
  then show ?thesis using True by simp
next
  case False
  then have "\<not> e < 31" by (simp add: word_less_nat_alt)
  then show ?thesis using False by (simp add: core_signextend_def)
qed

lemma core_sar_eq: "core_sar y x = signed_drop_bit (unat y) x"
proof (rule bit_eqI)
  fix n assume "possible_bit TYPE(256 word) n"
  then have n: "n < 256" by (simp add: possible_bit_word)
  have "sint (limb x 3) < 0 \<longleftrightarrow> bit x 255" using limb3_msb [of x] bit_last_iff [of x] by simp
  moreover have "y < 256 \<longleftrightarrow> unat y < 256" by (simp add: word_less_nat_alt)
  moreover have "low64 y = unat y" if "unat y < 256" using that by (intro low64_small) simp
  ultimately show "bit (core_sar y x) n = bit (signed_drop_bit (unat y) x) n" using n
    by (auto simp: core_sar_def Let_def shr_drop_bit shl64_push_bit bit_simps bit_signed_drop_bit_iff dest: bit256_bound)
qed

section \<open>The data of push instructions\<close>

lemma of_limbs_Cons: "of_limbs (w # ws) = word_of_nat (unat w) + 2 ^ 64 * of_limbs ws"
proof -
  have "of_limbs (w # ws) = (ucast w :: uint256) OR push_bit 64 (of_limbs ws)" by (simp add: of_limbs_def)
  also have "\<dots> = ucast w + push_bit 64 (of_limbs ws)"
    by (rule disjunctive_add [symmetric]) (auto simp: bit_simps dest: bit_imp_le_length)
  also have "(ucast w :: uint256) = word_of_nat (unat w)" by (simp add: unsigned_of_nat [symmetric])
  finally show ?thesis by (simp add: push_bit_eq_mult mult.commute)
qed

lemma unat_be8: "length bs \<le> 8 \<Longrightarrow> unat (word_of_nat (be_nat bs) :: u64) = be_nat bs"
proof -
  assume l: "length bs \<le> 8"
  have "(256 :: nat) ^ length bs \<le> 256 ^ 8" using l by (intro power_increasing) auto
  then have "be_nat bs < 2 ^ 64" using be_nat_bound [of bs] by simp
  then show ?thesis by (simp add: unat_of_nat)
qed

text \<open>Reading some bytes too many and shifting them out.\<close>

lemma be_shift_out:
  assumes "k \<le> n" "n \<le> 8" "n \<le> length xs"
  shows "drop_bit (8 * (n - k)) (word_of_nat (be_nat (take n xs)) :: u64) = word_of_nat (be_nat (take k xs))"
proof -
  have "take n xs = take k xs @ take (n - k) (drop k xs)" using assms(1) by (metis le_add_diff_inverse take_add)
  moreover have "length (take (n - k) (drop k xs)) = n - k" using assms by simp
  ultimately have "be_nat (take n xs) = be_nat (take k xs) * 256 ^ (n - k) + be_nat (take (n - k) (drop k xs))"
    "be_nat (take (n - k) (drop k xs)) < 256 ^ (n - k)"
    using be_nat_append be_nat_bound by metis+
  then have "be_nat (take n xs) div 2 ^ (8 * (n - k)) = be_nat (take k xs)" by (simp add: power_mult)
  then have "unat (drop_bit (8 * (n - k)) (word_of_nat (be_nat (take n xs)) :: u64)) = be_nat (take k xs)"
    unfolding unat_drop_bit_eq using assms(2) unat_be8 [of "take n xs"] by (simp add: drop_bit_eq_div)
  then show ?thesis using assms unat_be8 [of "take k xs"] by (metis (no_types) word_unat_eq_iff min.absorb2 length_take order.trans)
qed

lemma code_bytes_eq:
  assumes "es_analysis st = analyze_legacy c" "p + n \<le> length (pad_code c)"
  shows "code_bytes st (int p) n = Inr (take n (drop p (pad_code c)))"
  using assms(2) by (simp add: code_bytes_def assms(1) analyze_legacy_def)

lemma load_partial_eq:
  assumes "es_analysis st = analyze_legacy c" "1 \<le> k" "k < 8" "p + 8 \<le> length (pad_code c)"
  shows "load_partial_push_data k st (int p) = Inr (word_of_nat (be_nat (take k (drop p (pad_code c)))))"
proof -
  have cb: "code_bytes st (int p) n = Inr (take n (drop p (pad_code c)))" if "n \<le> 8" for n
    using assms(4) that by (intro code_bytes_eq [OF assms(1)]) simp
  have d: "drop_bit (8 * (n - k)) (word_of_nat (be_nat (take n (drop p (pad_code c)))) :: u64) = word_of_nat (be_nat (take k (drop p (pad_code c))))"
    if "k \<le> n" "n \<le> 8" for n using that assms(4) by (intro be_shift_out) auto
  show ?thesis using assms(3) d [of 4] d [of 8]
    by (auto simp: load_partial_push_data_def cb)
qed

lemma load_push_words_eq:
  assumes "es_analysis st = analyze_legacy c"
  shows "p + 8 * k \<le> length (pad_code c) \<Longrightarrow> of_limbs hd_ws = word_of_nat (be_nat bs) \<Longrightarrow>
    \<exists>ws. load_push_words k st (int p) = Inr ws \<and> of_limbs (rev ws @ hd_ws) = be_load (bs @ take (8 * k) (drop p (pad_code c)))"
proof (induction k arbitrary: p hd_ws bs)
  case 0
  then show ?case by (simp add: be_load_def)
next
  case (Suc k)
  let ?b = "take 8 (drop p (pad_code c))"
  let ?w = "word_of_nat (be_nat ?b) :: u64"
  have l: "length ?b = 8" using Suc.prems(1) by simp
  have "of_limbs (?w # hd_ws) = word_of_nat (be_nat ?b) + 2 ^ 64 * word_of_nat (be_nat bs)"
    using unat_be8 [of ?b] l by (simp only: of_limbs_Cons Suc.prems(2))
  also have "\<dots> = word_of_nat (be_nat (bs @ ?b))" by (simp only: be_nat_append l) (simp add: algebra_simps)
  finally obtain ws where ws: "load_push_words k st (int (p + 8)) = Inr ws"
    "of_limbs (rev ws @ ?w # hd_ws) = be_load ((bs @ ?b) @ take (8 * k) (drop (p + 8) (pad_code c)))"
    using Suc.IH [of "p + 8" "?w # hd_ws" "bs @ ?b"] Suc.prems(1) by auto
  have "take (8 * Suc k) (drop p (pad_code c)) = ?b @ take (8 * k) (drop (p + 8) (pad_code c))"
    using take_add [of 8 "8 * k" "drop p (pad_code c)"] by (simp add: add.commute)
  moreover have "code_bytes st (int p) 8 = Inr ?b" using Suc.prems(1) by (intro code_bytes_eq [OF assms]) simp
  ultimately show ?case using ws by (simp add: add.commute)
qed

text \<open>The value of a push: its data in big-endian order, with zeros after the end of the code.\<close>

lemma push_value_eq:
  assumes "es_analysis st = analyze_legacy c" "p \<le> length c" "len \<le> 32"
  shows "push_value len st (int p) = Inr (be_load (take len (drop p (pad_code c))))"
proof -
  let ?r = "len mod 8" and ?buf = "drop p (pad_code c)"
  have len: "8 * (len div 8) + ?r = len" by simp
  have lp: "length (pad_code c) = length c + 33" by (simp add: pad_code_def)
  obtain hd_ws where hd_ws: "(if ?r \<noteq> 0 then bind_vm (load_partial_push_data ?r st (int p)) (\<lambda>w. Inr [w]) else Inr []) = Inr hd_ws"
    "of_limbs hd_ws = word_of_nat (be_nat (take ?r ?buf))"
  proof (cases "?r = 0")
    case True
    then show thesis using that [of "[]"] by (simp add: of_limbs_def)
  next
    case False
    then have "load_partial_push_data ?r st (int p) = Inr (word_of_nat (be_nat (take ?r ?buf)))"
      using lp assms(2) by (intro load_partial_eq [OF assms(1)]) auto
    moreover have "unat (word_of_nat (be_nat (take ?r ?buf)) :: u64) = be_nat (take ?r ?buf)" by (intro unat_be8) simp
    ultimately show thesis using False that [of "[word_of_nat (be_nat (take ?r ?buf))]"] by (simp add: of_limbs_Cons) (simp add: of_limbs_def)
  qed
  have "p + ?r + 8 * (len div 8) \<le> length (pad_code c)" using len lp assms(2,3) by linarith
  from load_push_words_eq [OF assms(1) this hd_ws(2)] obtain ws
    where ws: "load_push_words (len div 8) st (int (p + ?r)) = Inr ws"
      "of_limbs (rev ws @ hd_ws) = be_load (take ?r ?buf @ take (8 * (len div 8)) (drop (p + ?r) (pad_code c)))" by blast
  have "take len ?buf = take ?r ?buf @ take (8 * (len div 8)) (drop (p + ?r) (pad_code c))"
    using take_add [of ?r "8 * (len div 8)" ?buf] len by (simp add: add.commute)
  then show ?thesis using hd_ws(1) ws by (simp add: push_value_def Let_def add.commute)
qed

section \<open>Control stays on instructions\<close>

text \<open>No byte of the code is an opcode with an immediate operand other than the pushes, or a jump of containers.\<close>

definition plain_code :: "bytes \<Rightarrow> bool" where
  "plain_code c \<longleftrightarrow> (\<forall>b \<in> set c. \<forall>op \<in> {OP_RJUMP, OP_RJUMPI, OP_RJUMPV, OP_DUPN, OP_SWAPN, OP_CALLF, OP_RETF}.
     opcode_of_byte b \<noteq> Some (Op_code op))"

lemma table_no_push: "map_of opcode_table n \<noteq> Some (Op_code (OP_PUSH k))"
  by (rule notI, drule map_of_SomeD) (simp add: opcode_table_def)

lemma opcode_push:
  "opcode_of_byte b = Some op \<Longrightarrow> (0x60 \<le> unat b \<and> unat b \<le> 0x7f) = (op = Op_code (OP_PUSH (unat b - 0x5f)))"
  "opcode_of_byte b = Some (Op_code (OP_PUSH n)) \<Longrightarrow> unat b = n + 0x5f \<and> 1 \<le> n"
  using table_no_push by (auto simp: opcode_of_byte_def Let_def split: if_splits)

lemma instr_from_bound: "instr_from c i j \<Longrightarrow> i \<le> length c + 32 \<Longrightarrow> j \<le> length c + 32"
  by (induction rule: instr_from.induct) (auto simp: next_instr_def split: if_splits)

lemma jump_impl_next:
  assumes "jump_impl st dst s = Inr (Some q, s', st')" "es_analysis st = analyze_legacy c"
  shows "\<exists>i. q = int i \<and> instr_from c 0 i"
proof -
  have "low64 dst \<le> unat dst" by (simp add: low64_def limb_def unsigned_ucast_eq take_bit_nat_less_eq_self)
  then show ?thesis using assms analyze_jumpdests_nth [of "low64 dst" c]
    by (auto simp: jump_impl_def fail_with_def analyze_legacy_def split: if_splits)
qed

lemma invoke_impl_next:
  assumes "invoke_impl env op (int p) s g st = Inr (Some q, s', g', st')" "es_analysis st = analyze_legacy c"
    and "p < length c" "opcode_of_byte (c ! p) = Some op" "instr_from c 0 p" "plain_code c"
  shows "\<exists>i. q = int i \<and> instr_from c 0 i"
proof -
  note nx = instr_from_next [OF assms(5,3)]
  have plain: "op \<noteq> Op_code x" if "x \<in> {OP_RJUMP, OP_RJUMPI, OP_RJUMPV, OP_DUPN, OP_SWAPN, OP_CALLF, OP_RETF}" for x
    using assms(3,4,6) that nth_mem [OF assms(3)] unfolding plain_code_def by force
  have one: "next_instr c p = p + 1" if "\<forall>n. op \<noteq> Op_code (OP_PUSH n)"
    using that opcode_push(1) [OF assms(4)] by (auto simp: next_instr_def)
  show ?thesis
  proof (cases op)
    case (Op_code x)
    show ?thesis
    proof (cases x)
      case (OP_PUSH n)
      then have "next_instr c p = p + n + 1" using opcode_push [of "c ! p"] assms(4) Op_code by (simp add: next_instr_def)
      then show ?thesis using assms(1) nx Op_code OP_PUSH
        by (auto simp: code_impl_def core_push_def bind_vm_Inr_iff intro!: exI [of _ "p + n + 1"])
    qed (use assms(1,2) nx one Op_code plain jump_impl_next in \<open>force simp: code_impl_def core_jump_def core_jumpi_def core_pc_def
        bind_vm_Inr_iff split: list.splits if_splits\<close>)+
  qed (use assms(1) nx one in \<open>force simp: bind_vm_Inr_iff split: if_splits\<close>)+
qed

lemma vm_step_next:
  assumes "vm_step env ct (int p) s g st = Inr (Some q, s', g', st')" "es_analysis st = analyze_legacy c"
    and "instr_from c 0 p" "plain_code c"
  shows "\<exists>i. q = int i \<and> instr_from c 0 i"
proof -
  have "p \<le> length c + 32" using instr_from_bound [OF assms(3)] by simp
  then have b: "code_at st (int p) = Inr (if p < length c then c ! p else 0)"
    using code_at_legacy [OF assms(2), of "int p"] by (simp add: code_pos_def)
  obtain op g0 where op: "opcode_of_byte (if p < length c then c ! p else 0) = Some op" "invoke_impl env op (int p) s g0 st = Inr (Some q, s', g', st')"
    using assms(1) by (auto simp: vm_step_def b invoke_def Let_def split_beta split: option.splits if_splits)
  show ?thesis
  proof (cases "p < length c")
    case True
    then show ?thesis using invoke_impl_next [OF op(2) assms(2) True _ assms(3,4)] op(1) by simp
  next
    case False
    then have "op = Op_term OP_STOP" using op(1) opcode_families(3) by simp
    then show ?thesis using op(2) by (simp add: term_impl_def stop_impl_def)
  qed
qed

section \<open>Properties\<close>

text \<open>
  C26. The analysis of legacy code and the loads of push data, which work on padded buffers with
  unchecked pointers, agree with the definition of the instruction stream: a position is in the map of jump
  destinations exactly if it is that of a \<open>JUMPDEST\<close> byte at which an instruction starts (never one
  inside push data), and a push of up to 32 bytes at any position of the code reads exactly its data in
  big-endian order, filled up with zeros at the end of the code.
\<close>

theorem code_analysis_correct:
  assumes "j < length c" "es_analysis st = analyze_legacy c" "p \<le> length c" "len \<le> 32"
  shows "(jumpdest_map (analyze_legacy c) ! j \<longleftrightarrow> instr_from c 0 j \<and> c ! j = 0x5b) \<and>
    push_value len st (int p) = Inr (be_load (take len (drop p c @ replicate 33 0)))"
proof -
  have "drop p (pad_code c) = drop p c @ replicate 33 0" using assms(3) by (simp add: pad_code_def)
  then show ?thesis using analyze_jumpdests_nth [OF assms(1)] push_value_eq [OF assms(2-4)] by (simp add: analyze_legacy_def)
qed

definition ref_demo_state :: "bytes \<Rightarrow> ExecutionState" where
  "ref_demo_state c = ExecutionState_ctor vm_demo_msg EVMC_PRAGUE vm_demo_host c (analyze_legacy c)"

theorem code_analysis_correct_witness:
  "\<not> jumpdest_map (analyze_legacy [0x60, 0x5b, 0x5b]) ! 1 \<and> jumpdest_map (analyze_legacy [0x60, 0x5b, 0x5b]) ! 2 \<and>
   push_value 3 (ref_demo_state [0x62, 0x01, 0x02]) 1 = Inr 0x010200"
proof -
  let ?c = "[0x60, 0x5b, 0x5b] :: bytes" and ?d = "[0x62, 0x01, 0x02] :: bytes"
  have st: "es_analysis (ref_demo_state x) = analyze_legacy x" for x by (simp add: ref_demo_state_def ExecutionState_ctor_def)
  have "next_instr ?c 0 = 2" by (simp add: next_instr_def)
  then have "instr_from ?c 0 j \<longleftrightarrow> j = 0 \<or> instr_from ?c 2 j" for j using instr_from_iff [of ?c 0 j] by simp
  then have "instr_from ?c 0 2" "\<not> instr_from ?c 0 1" using instr_from_le [of ?c 2 1] by (auto intro: instr_here)
  moreover have "take 3 (drop 1 ?d @ replicate 33 0) = [0x01, 0x02, 0]" by (simp add: eval_nat_numeral)
  then have "be_load (take 3 (drop 1 ?d @ replicate 33 0)) = 0x010200" by (simp add: be_load_def be_nat_def)
  ultimately show ?thesis
    using code_analysis_correct [OF _ st, of 1 ?c 0 0] code_analysis_correct [OF _ st, of 2 ?c 0 0]
      code_analysis_correct [OF _ st, of 0 ?d 1 3]
    by simp
qed



text \<open>
  C31. The instructions that take words apart compute what they are specified to: \<open>BYTE\<close> selects a byte
  counted from the most significant one and gives zero from index 32 on, \<open>SAR\<close> is the arithmetic shift for
  every amount, \<open>SIGNEXTEND\<close> extends from the sign bit of the chosen byte, and \<open>SHL\<close> and \<open>SHR\<close> are
  the logical shifts.
\<close>

theorem word_instructions_correct:
  "core_byte n x = (if unat n < 32 then take_bit 8 (drop_bit (8 * (31 - unat n)) x) else 0) \<and>
   core_sar n x = signed_drop_bit (unat n) x \<and>
   core_signextend n x = (if unat n < 31 then signed_take_bit (8 * unat n + 7) x else x) \<and>
   core_shl n x = push_bit (unat n) x \<and> core_shr n x = drop_bit (unat n) x"
  by (simp only: core_byte_eq core_sar_eq core_signextend_eq core_shl_def core_shr_def shl_push_bit shr_drop_bit simp_thms)

end
