(* ===== verification/EvmExec.thy ===== *)
theory EvmExec
  imports EvmRef WorldStore
begin

text \<open>
  The execution of transactions by the virtual machine (\<open>EvmweakMsgExecutor\<close>, \<open>EvmExecutor\<close> and
  \<open>WeakEvmHost::call\<close> of \<^verbatim>\<open>include/evmExecutor.hpp\<close>): a transaction becomes a message, the message
  creates or calls a contract, contracts call each other through the host, and the accounts that the host
  has collected become the journal of the transaction.
\<close>

section \<open>Messages\<close>

text \<open>\<open>WeakEvmHost::call\<close>: the executor of the host, or a fixed answer when it has none.\<close>

definition host_call :: "(evmc_message \<Rightarrow> WeakEvmHost \<Rightarrow> (evmc_result \<times> WeakEvmHost) vm) option
    \<Rightarrow> evmc_message \<Rightarrow> WeakEvmHost \<Rightarrow> (evmc_result \<times> WeakEvmHost) vm" where
  "host_call msgExe msg h =
     (case msgExe of
        Some exec \<Rightarrow> exec msg h
      | None \<Rightarrow> Inr (make_result EVMC_SUCCESS INT64_MAX 0 [0xaa, 0xbb, 0xcc], h))"

text \<open>The environment of a run whose host has an executor.\<close>

definition exec_env :: "keccak256 \<Rightarrow> (evmc_message \<Rightarrow> WeakEvmHost \<Rightarrow> (evmc_result \<times> WeakEvmHost) vm) \<Rightarrow> evm_env" where
  "exec_env keccak exec = \<lparr>env_keccak = keccak, env_call = host_call (Some exec)\<rparr>"

text \<open>The \<open>Result\<close> with which both handlers start, and which they return when they refuse a message.\<close>

definition refusal :: evmc_result where
  "refusal = make_result EVMC_FAILURE INT64_MAX 0 []"

definition handleCreate :: "evm_env \<Rightarrow> nat \<Rightarrow> evmc_message \<Rightarrow> WeakEvmHost \<Rightarrow> (evmc_result \<times> WeakEvmHost) vm" where
  "handleCreate env fuel msg h =
     (if account_exists h (msg_recipient msg) then Inr (refusal, h)
      else
        bind_vm (execute env fuel EVMC_MAX_REVISION msg h (msg_input msg)) (\<lambda>(r, h1).
          if res_status r \<noteq> EVMC_SUCCESS then Inr (r, h1)
          else Inr (r, h1\<lparr>accounts := AList.update (msg_recipient msg) (Acn_ctor (create_nonce h1) (res_output r)) (accounts h1),
                          create_nonce := create_nonce h1 + 1\<rparr>)))"

text \<open>\<open>accounts.at\<close> finds the account: it was there, or it has just been fetched or the process has ended.\<close>

definition handleCall :: "evm_env \<Rightarrow> nat \<Rightarrow> evmc_message \<Rightarrow> WeakEvmHost \<Rightarrow> (evmc_result \<times> WeakEvmHost) vm" where
  "handleCall env fuel msg h =
     (let a = msg_code_address msg in
      if \<not> account_exists h a then Inr (refusal, h)
      else
        bind_vm (if map_of (accounts h) a = None then tryAddAcnFromWorldState h a True else Inr (True, h)) (\<lambda>(_, h1).
          case map_of (accounts h1) a of
            None \<Rightarrow> Inl Process_exit
          | Some acn \<Rightarrow> execute env fuel EVMC_MAX_REVISION msg h1 (code acn)))"

text \<open>
  \<open>execMsg\<close> and the host call each other. The second number bounds the depth of calls: the interpreter
  refuses to call from depth 1024, so that 1025 levels are enough.
\<close>

primrec execMsg :: "keccak256 \<Rightarrow> nat \<Rightarrow> nat \<Rightarrow> evmc_message \<Rightarrow> WeakEvmHost \<Rightarrow> (evmc_result \<times> WeakEvmHost) vm" where
  "execMsg keccak fuel 0 = (\<lambda>msg h. Inl Out_of_fuel)"
| "execMsg keccak fuel (Suc d) = (\<lambda>msg h.
     let env = exec_env keccak (execMsg keccak fuel d) in
     if msg_kind msg \<in> {EVMC_CREATE, EVMC_CREATE2} then handleCreate env fuel msg h
     else handleCall env fuel msg h)"

section \<open>Transactions\<close>

definition txToEvmcMsg :: "Tx \<Rightarrow> evmc_message" where
  "txToEvmcMsg t =
     (let msg = evmc_message_default\<lparr>msg_gas := INT64_MAX, msg_sender := tx_from t\<rparr>;
          msg1 = (if tx_to t = replicate 20 0
                  then msg\<lparr>msg_kind := EVMC_CREATE, msg_recipient := getContractDeployAddress t,
                           msg_code_address := getContractDeployAddress t\<rparr>
                  else msg\<lparr>msg_recipient := tx_to t, msg_code_address := tx_to t\<rparr>)
      in msg1\<lparr>msg_input := tx_data t\<rparr>)"

definition getStateChanges :: "PbAcn pb_codec \<Rightarrow> WeakEvmHost \<Rightarrow> StateChange list" where
  "getStateChanges c h =
     map (\<lambda>(addr, acn). \<lparr>del = False, sc_k = addressToString addr, sc_v = toPbString c Acn_toPb acn\<rparr>)
       (filter (\<lambda>(addr, acn). addr \<notin> set (deadAcn h)) (accounts h)) @
     map (\<lambda>a. \<lparr>del = True, sc_k = addressToString a, sc_v = []\<rparr>) (deadAcn h)"

text \<open>
  The journal and the output, or nothing; and the counter of \<open>handleCreate\<close>, which the next transaction
  starts from.
\<close>

definition executeTx :: "PbAcn pb_codec \<Rightarrow> keccak256 \<Rightarrow> nat \<Rightarrow> nat \<Rightarrow> (address \<Rightarrow> Acn option) \<Rightarrow> u64 \<Rightarrow> Tx
    \<Rightarrow> ((StateChange list \<times> bytes) option \<times> u64) vm" where
  "executeTx c keccak fuel d w n t =
     bind_vm (execMsg keccak fuel d (txToEvmcMsg t) (WeakEvmHost_ctor w n)) (\<lambda>(r, h).
       if res_status r \<noteq> EVMC_SUCCESS then Inr (None, create_nonce h)
       else Inr (Some (getStateChanges c h, res_output r), create_nonce h))"

section \<open>What messages keep of the host\<close>

lemma exec_env_call [simp]: "env_call (exec_env keccak exec) = exec" "env_keccak (exec_env keccak exec) = keccak"
  by (simp_all add: exec_env_def host_call_def fun_eq_iff)

lemma handleCall_Inr:
  assumes "handleCall env fuel m h = Inr (res, h')"
  shows "res = refusal \<and> h' = h \<or>
    (\<exists>h1 c. (h1 = h \<or> map_of (accounts h) (msg_code_address m) = None \<and> tryAddAcnFromWorldState h (msg_code_address m) True = Inr (True, h1)) \<and>
       execute env fuel EVMC_MAX_REVISION m h1 c = Inr (res, h'))"
  using assms
  by (auto simp: handleCall_def Let_def bind_vm_Inr_iff split: if_splits option.splits)
    (auto simp: tryAddAcnFromWorldState_def split: option.splits if_splits)

lemma handleCreate_Inr:
  assumes "handleCreate env fuel m h = Inr (res, h')"
  shows "res = refusal \<and> h' = h \<and> account_exists h (msg_recipient m) \<or>
    (\<exists>h1. execute env fuel EVMC_MAX_REVISION m h (msg_input m) = Inr (res, h1) \<and> \<not> account_exists h (msg_recipient m) \<and>
       (h' = h1 \<and> res_status res \<noteq> EVMC_SUCCESS \<or> res_status res = EVMC_SUCCESS \<and>
        h' = h1\<lparr>accounts := AList.update (msg_recipient m) (Acn_ctor (create_nonce h1) (res_output res)) (accounts h1),
                create_nonce := create_nonce h1 + 1\<rparr>))"
  using assms by (auto simp: handleCreate_def bind_vm_Inr_iff split: if_splits)

text \<open>
  A property that storing, destroying, fetching and creating keep is kept by every message, at every
  depth. In static mode only fetching counts.
\<close>

definition host_stable :: "bool \<Rightarrow> (WeakEvmHost \<Rightarrow> bool) \<Rightarrow> bool" where
  "host_stable static P \<longleftrightarrow>
     (\<not> static \<longrightarrow> (\<forall>h a k v sc h'. P h \<longrightarrow> length k = 32 \<longrightarrow> length v = 32 \<longrightarrow> set_storage h a k v = Inr (sc, h') \<longrightarrow> P h')) \<and>
     (\<not> static \<longrightarrow> (\<forall>h a b. P h \<longrightarrow> P (snd (host_selfdestruct h a b)))) \<and>
     (\<not> static \<longrightarrow> (\<forall>h a c. P h \<longrightarrow>
        P (h\<lparr>accounts := AList.update a (Acn_ctor (create_nonce h) c) (accounts h), create_nonce := create_nonce h + 1\<rparr>))) \<and>
     (\<forall>h a h'. P h \<longrightarrow> map_of (accounts h) a = None \<longrightarrow> tryAddAcnFromWorldState h a True = Inr (True, h') \<longrightarrow> P h')"

lemma host_closed_weaken: "host_closed False call P \<Longrightarrow> host_closed b call P"
  unfolding host_closed_def by blast

lemma host_stableD:
  assumes "host_stable static P" "P h"
  shows "map_of (accounts h) a = None \<Longrightarrow> tryAddAcnFromWorldState h a True = Inr (True, h') \<Longrightarrow> P h'"
    and "\<not> static \<Longrightarrow> P (h\<lparr>accounts := AList.update a (Acn_ctor (create_nonce h) c) (accounts h), create_nonce := create_nonce h + 1\<rparr>)"
  using assms unfolding host_stable_def by blast+

lemma host_stable_closed:
  assumes "host_stable static P"
    and "\<And>m h res h'. P h \<Longrightarrow> call m h = Inr (res, h') \<Longrightarrow>
      (static \<Longrightarrow> msg_flags m AND EVMC_STATIC \<noteq> 0 \<and> msg_kind m \<notin> {EVMC_CREATE, EVMC_CREATE2}) \<Longrightarrow> P h'"
  shows "host_closed static call P"
  using assms unfolding host_closed_def host_stable_def by blast

lemma execMsg_host:
  assumes "host_stable static P" "P h" "execMsg keccak fuel d m h = Inr (res, h')"
    and "static \<Longrightarrow> msg_flags m AND EVMC_STATIC \<noteq> 0 \<and> msg_kind m \<notin> {EVMC_CREATE, EVMC_CREATE2}"
  shows "P h'"
  using assms(2-4)
proof (induction d arbitrary: m h res h')
  case (Suc d)
  let ?env = "exec_env keccak (execMsg keccak fuel d)"
  have "host_closed static (env_call ?env) P"
    by (rule host_stable_closed [OF assms(1)]) (use Suc.IH in simp)
  then have cl: "host_closed (msg_flags m AND EVMC_STATIC \<noteq> 0) (env_call ?env) P"
    using Suc.prems(3) host_closed_weaken by (cases static) auto
  note run = execute_host [OF cl]
  show ?case
  proof (cases "msg_kind m \<in> {EVMC_CREATE, EVMC_CREATE2}")
    case True
    then have "\<not> static" "handleCreate ?env fuel m h = Inr (res, h')" using Suc.prems(2,3) by (auto simp: Let_def)
    with handleCreate_Inr [of ?env fuel m h res h'] show ?thesis
      using run [OF Suc.prems(1)] Suc.prems(1) host_stableD(2) [OF assms(1)] by blast
  next
    case False
    then have "handleCall ?env fuel m h = Inr (res, h')" using Suc.prems(2) by (auto simp: Let_def)
    from handleCall_Inr [OF this] show ?thesis
      using run host_stableD(1) [OF assms(1) Suc.prems(1)] Suc.prems(1) by blast
  qed
qed simp

section \<open>Static calls\<close>

text \<open>
  C15. A static call changes nothing that a transaction can see: whatever the called contract and those
  it calls in turn do, and whether they succeed, fail or revert, the accounts as the host shows them, the set
  of destroyed accounts and the counter of creations are those from before. Only accounts of the
  underlying world may have been fetched into the host.
\<close>

theorem static_call_changes_nothing:
  assumes "execMsg keccak fuel d m h = Inr (res, h')" "msg_flags m AND EVMC_STATIC \<noteq> 0" "msg_kind m \<notin> {EVMC_CREATE, EVMC_CREATE2}"
  shows "host_view h' = host_view h \<and> deadAcn h' = deadAcn h \<and> create_nonce h' = create_nonce h"
proof -
  let ?P = "\<lambda>x. host_view x = host_view h \<and> deadAcn x = deadAcn h \<and> create_nonce x = create_nonce h"
  have "host_stable True ?P" using tryAdd_view by (fastforce simp: host_stable_def)
  from execMsg_host [OF this _ assms(1)] assms(2,3) show ?thesis by blast
qed

section \<open>The invariant of the host\<close>

definition world_wf :: "(address \<Rightarrow> Acn option) \<Rightarrow> bool" where
  "world_wf w \<longleftrightarrow> (\<forall>a acn. w a = Some acn \<longrightarrow> wf_acn acn)"

definition host_wf :: "(address \<Rightarrow> Acn option) \<Rightarrow> WeakEvmHost \<Rightarrow> bool" where
  "host_wf w h \<longleftrightarrow> host_ok h \<and> readOnlyWorldState h = w \<and> (\<forall>acn \<in> snd ` set (accounts h). wf_acn acn)"

lemma AList_update_set: "p \<in> set (AList.update k v xs) \<Longrightarrow> p = (k, v) \<or> p \<in> set xs"
  by (induction xs) (auto split: if_splits)

lemma wf_acn_store: "wf_acn acn \<Longrightarrow> length k = 32 \<Longrightarrow> length v = 32 \<Longrightarrow> wf_acn (acn\<lparr>storage := AList.update k v (storage acn)\<rparr>)"
  by (fastforce simp: wf_acn_def distinct_update dest!: AList_update_set)

lemma wf_acn_ctor: "wf_acn (Acn_ctor n c)" "wf_acn Acn_default"
  by (simp_all add: wf_acn_def Acn_ctor_def Acn_default_def)

lemma host_wf_update:
  "host_wf w h \<Longrightarrow> wf_acn acn \<Longrightarrow> host_wf w (h\<lparr>accounts := AList.update a acn (accounts h)\<rparr>)"
  by (auto simp: host_wf_def host_ok_def distinct_update dest!: AList_update_set)

lemma host_wf_fetch:
  assumes "world_wf w" "host_wf w h" "tryAddAcnFromWorldState h a fatal = Inr (ok, h')"
  shows "host_wf w h'"
proof (cases "readOnlyWorldState h a")
  case None
  then show ?thesis using assms(2,3) by (auto simp: tryAddAcnFromWorldState_def split: if_splits)
next
  case (Some acn)
  have "wf_acn acn" using assms(1,2) Some by (auto simp: world_wf_def host_wf_def)
  from host_wf_update [OF assms(2) this, of a] show ?thesis using Some assms(3) by (simp add: tryAddAcnFromWorldState_def)
qed

lemma host_wf_local: "host_wf w h \<Longrightarrow> map_of (accounts h) a = Some acn \<Longrightarrow> wf_acn acn"
  by (force simp: host_wf_def dest: map_of_SomeD)

lemma host_wf_store:
  assumes "world_wf w" "host_wf w h" "length k = 32" "length v = 32" "set_storage h a k v = Inr (sc, h')"
  shows "host_wf w h'"
proof -
  let ?store = "\<lambda>h1 :: WeakEvmHost. let acn = (case map_of (accounts h1) a of None \<Rightarrow> Acn_default | Some x \<Rightarrow> x)
      in h1\<lparr>accounts := AList.update a (acn\<lparr>storage := AList.update k v (storage acn)\<rparr>) (accounts h1)\<rparr>"
  obtain ok h1 where r: "(if map_of (accounts h) a = None then tryAddAcnFromWorldState h a False else Inr (True, h)) = Inr (ok, h1)"
    and h': "h' = ?store h1"
    using assms(5) unfolding set_storage_def bind_vm_Inr_iff by (auto simp: Let_def)
  have h1: "host_wf w h1" using r assms(2) host_wf_fetch [OF assms(1,2)] by (auto split: if_splits)
  have "wf_acn (case map_of (accounts h1) a of None \<Rightarrow> Acn_default | Some x \<Rightarrow> x)"
    using host_wf_local [OF h1] wf_acn_ctor(2) by (auto split: option.split)
  then show ?thesis unfolding h' Let_def by (intro host_wf_update h1 wf_acn_store assms(3,4))
qed

lemma host_wf_stable:
  assumes "world_wf w"
  shows "host_stable False (host_wf w)"
proof -
  have "host_wf w (h\<lparr>accounts := AList.update a (Acn_ctor n c) (accounts h), create_nonce := k\<rparr>)" if "host_wf w h" for h a n c k
    using host_wf_update [OF that wf_acn_ctor(1), of a n c] by (simp add: host_wf_def host_ok_def)
  moreover have "host_wf w (snd (host_selfdestruct h a b))" if "host_wf w h" for h a b
    using that selfdestruct_ok [of h a b] by (simp add: host_wf_def host_selfdestruct_def)
  ultimately show ?thesis unfolding host_stable_def
    by (intro conjI allI impI) (assumption | rule host_wf_store [OF assms] host_wf_fetch [OF assms])+
qed

lemma WeakEvmHost_ctor_wf: "host_wf w (WeakEvmHost_ctor w n)"
  by (simp add: host_wf_def WeakEvmHost_ctor_def host_ok_def)

section \<open>The journal\<close>

lemma fold_puts:
  assumes "inj f" "distinct (map fst xs)"
  shows "fold change_map (map (\<lambda>(a, v). \<lparr>del = False, sc_k = f a, sc_v = g v\<rparr>) xs) m (f a) =
    (case map_of xs a of None \<Rightarrow> m (f a) | Some v \<Rightarrow> Some (g v))"
  using assms(2)
proof (induction xs arbitrary: m)
  case (Cons x xs)
  obtain b v where x: "x = (b, v)" by (cases x)
  have "map_of xs b = None" using Cons.prems by (simp add: x map_of_eq_None_iff)
  then show ?case using Cons injD [OF assms(1), of a b] by (auto simp: x change_map_def split: option.split)
qed simp

lemma fold_dels:
  "inj f \<Longrightarrow> fold change_map (map (\<lambda>a. \<lparr>del = True, sc_k = f a, sc_v = []\<rparr>) xs) m (f a) = (if a \<in> set xs then None else m (f a))"
  by (induction xs arbitrary: m) (auto simp: change_map_def dest: injD)

lemma inj_addressToString: "inj addressToString"
  by (rule injI) (simp add: addressToString_def hex_inject)

lemma map_of_filter_live:
  "distinct (map fst xs) \<Longrightarrow> map_of (filter (\<lambda>(a, v). a \<notin> D) xs) a = (if a \<in> D then None else map_of xs a)"
  by (induction xs) (auto simp: map_of_eq_None_iff)

text \<open>The effect of the journal of a host on the database of states.\<close>

lemma journal_of_host:
  assumes "host_ok h"
  shows "journal_map (getStateChanges c h) m (addressToString a) =
    (if a \<in> set (deadAcn h) then None
     else case map_of (accounts h) a of None \<Rightarrow> m (addressToString a) | Some acn \<Rightarrow> Some (toPbString c Acn_toPb acn))"
proof -
  have d: "distinct (map fst (accounts h))" using assms by (simp add: host_ok_def)
  then have "distinct (map fst (filter (\<lambda>(addr, acn). addr \<notin> set (deadAcn h)) (accounts h)))" by (rule distinct_map_filter)
  from fold_puts [OF inj_addressToString this] map_of_filter_live [OF d] show ?thesis
    unfolding journal_map_def getStateChanges_def fold_append o_apply fold_dels [OF inj_addressToString] by auto
qed

context world_storage
begin

lemma world_wf_getAcn: "invar w \<Longrightarrow> world_wf (getAcn ops w)"
proof (unfold world_wf_def, intro allI impI)
  fix a acn assume "invar w" "getAcn ops w a = Some acn"
  then obtain v where v: "fromPbString codec (Acn_fromPb Acn_default) v = Some acn" by (auto simp: acn_eq bind_eq_Some_conv)
  then obtain pb where "ParseFromString codec v = Some pb" by (auto simp: fromPbString_def split: option.splits)
  with v have "Acn_fromPb Acn_default pb = Inr acn" by (cases "Acn_fromPb Acn_default pb") (simp_all add: fromPbString_def)
  then show "wf_acn acn" by (blast intro: Acn_fromPb_wf)
qed

text \<open>Applying the journal of a host on top of a storage makes the storage show what the host showed.\<close>

lemma journal_refines_view:
  assumes "invar w" "host_wf (getAcn ops w) h" "applyJournalStateDB ops w (getStateChanges codec h) = Inr (True, w')"
    and "\<And>a acn. map_of (accounts h) a = Some acn \<Longrightarrow> a \<notin> set (deadAcn h) \<Longrightarrow>
      ParseFromString codec (SerializeAsString codec (Acn_toPb acn)) = Some (Acn_toPb acn)"
  shows "getAcn ops w' = host_view h"
proof (rule ext)
  fix a
  have ok: "host_ok h" "readOnlyWorldState h = getAcn ops w" using assms(2) by (simp_all add: host_wf_def)
  have w': "invar w'" "state w' = journal_map (getStateChanges codec h) (state w)" using apply_ok [OF assms(1,3)] by simp_all
  show "getAcn ops w' a = host_view h a"
  proof (cases "map_of (accounts h) a")
    case None
    then show ?thesis using acn_eq [OF w'(1), of a] acn_eq [OF assms(1), of a]
      by (simp add: w'(2) journal_of_host [OF ok(1)] host_view_def ok(2))
  next
    case (Some acn)
    have "Acn_fromPb Acn_default (Acn_toPb acn) = Inr acn" by (rule Acn_pb_roundtrip [OF host_wf_local [OF assms(2) Some]])
    then have "fromPbString codec (Acn_fromPb Acn_default) (toPbString codec Acn_toPb acn) = Some acn" if "a \<notin> set (deadAcn h)"
      using assms(4) [OF Some that] by (intro fromPbString_toPbString)
    then show ?thesis using acn_eq [OF w'(1), of a]
      by (simp add: w'(2) journal_of_host [OF ok(1)] host_view_def Some)
  qed
qed

end

text \<open>
  C5. The journal of a transaction is what the transaction did: when the message of a transaction succeeds
  on the accounts of a storage, \<open>executeTx\<close> returns the journal of the host with the output, and a storage
  that applies it then shows, at every address, the account that the host showed when execution ended --
  created, changed and fetched accounts included, destroyed ones gone. The storage is any that meets
  the contract \<open>world_storage\<close>; of the protobuf codec only the accounts that are stored must round-trip.
\<close>

theorem executeTx_journal_refines_host:
  assumes "world_storage ops invar chain state c" "invar w"
    and "execMsg keccak fuel d (txToEvmcMsg t) (WeakEvmHost_ctor (getAcn ops w) n) = Inr (r, h)" "res_status r = EVMC_SUCCESS"
    and "applyJournalStateDB ops w (getStateChanges c h) = Inr (True, w')"
    and "\<And>a acn. map_of (accounts h) a = Some acn \<Longrightarrow> a \<notin> set (deadAcn h) \<Longrightarrow>
      ParseFromString c (SerializeAsString c (Acn_toPb acn)) = Some (Acn_toPb acn)"
  shows "executeTx c keccak fuel d (getAcn ops w) n t = Inr (Some (getStateChanges c h, res_output r), create_nonce h) \<and>
    getAcn ops w' = host_view h"
proof -
  have "host_stable False (host_wf (getAcn ops w))" by (rule host_wf_stable [OF world_storage.world_wf_getAcn [OF assms(1,2)]])
  from execMsg_host [OF this WeakEvmHost_ctor_wf assms(3)] have "host_wf (getAcn ops w) h" by simp
  from world_storage.journal_refines_view [OF assms(1,2) this assms(5) assms(6)] assms(3,4) show ?thesis
    by (simp add: executeTx_def)
qed

section \<open>Contracts that call no others\<close>

text \<open>Code with no opcode of a call or a creation, none of those for containers, and not a container itself.\<close>

abbreviation (input) call_ops :: "result_op set" where
  "call_ops \<equiv> {OP_CALL, OP_CALLCODE, OP_DELEGATECALL, OP_STATICCALL, OP_CREATE, OP_CREATE2}"

definition leaf_code :: "bytes \<Rightarrow> bool" where
  "leaf_code c \<longleftrightarrow> \<not> is_eof_container c \<and>
     (\<forall>b \<in> set c. (\<forall>x \<in> eof_ops. opcode_of_byte b \<noteq> Some (Op_code x)) \<and> (\<forall>x \<in> call_ops. opcode_of_byte b \<noteq> Some (Op_result x)))"

text \<open>Such code never asks the host to execute a message: any host does for it.\<close>

definition no_calls :: "evm_env \<Rightarrow> evm_env" where
  "no_calls env = env\<lparr>env_call := \<lambda>m h. Inl Process_exit\<rparr>"

lemma host_law_no_calls: "host_law {Process_exit} (env_call (no_calls env))"
  by (simp add: host_law_def metered_def no_calls_def)

lemma result_impl_no_calls: "x \<notin> call_ops \<Longrightarrow> result_impl (no_calls env) x s g st = result_impl env x s g st"
  by (cases x) (simp_all add: result_impl_def no_calls_def)

lemma vm_step_no_calls:
  assumes "es_analysis st = analyze_legacy c" "code_pos c p" "leaf_code c"
  shows "vm_step (no_calls env) ct p s g st = vm_step env ct p s g st"
proof -
  let ?b = "if nat p < length c then c ! nat p else 0"
  have "invoke_impl (no_calls env) op p s g' st = invoke_impl env op p s g' st" if "opcode_of_byte ?b = Some op" for op g'
  proof (cases op)
    case (Op_result x)
    then have "?b \<in> set c" using that opcode_families(3) by (auto split: if_splits)
    then have "x \<notin> call_ops" using assms(3) that Op_result unfolding leaf_code_def by blast
    then show ?thesis using result_impl_no_calls Op_result by simp
  qed simp_all
  then show ?thesis by (simp add: vm_step_def code_at_legacy [OF assms(1,2)] invoke_def split: option.split prod.split)
qed

lemma leaf_no_eof_ops: "leaf_code c \<Longrightarrow> no_eof_ops ct c"
  by (auto simp: leaf_code_def no_eof_ops_def)

lemma dispatch_no_calls:
  assumes "loop_inv c p s gas st" "leaf_code c" "table_ok ct"
  shows "dispatch (no_calls env) ct n p s gas st = dispatch env ct n p s gas st"
  using assms(1)
proof (induction n arbitrary: p s gas st)
  case (Suc n)
  have eq: "vm_step (no_calls env) ct p s gas st = vm_step env ct p s gas st"
    using Suc.prems assms(2) by (intro vm_step_no_calls) (simp_all add: loop_inv_def)
  have step: "step_ok {Process_exit} c gas st (vm_step (no_calls env) ct p s gas st)"
    by (rule vm_step_ok [OF Suc.prems host_law_no_calls _ assms(3) leaf_no_eof_ops [OF assms(2)]]) simp
  show ?case
  proof (cases "vm_step env ct p s gas st")
    case (Inr r)
    obtain nx s' g st' where r: "r = (nx, s', g, st')" by (cases r)
    have "dispatch (no_calls env) ct n q s' g st' = dispatch env ct n q s' g st'" if "nx = Some q" for q
      using step Suc.IH [of q s' g st'] by (simp add: eq Inr r that)
    then show ?thesis by (simp add: eq Inr r split: option.split)
  qed (simp add: eq)
qed simp

lemma execute_leaf:
  assumes "leaf_code c" "0 \<le> msg_gas m" "msg_gas m \<le> INT64_MAX" "EVMC_LONDON \<le> r"
  shows "metered ({Process_exit} \<union> (if int fuel \<le> msg_gas m then {Out_of_fuel} else {})) m (execute env fuel r m h c)"
proof -
  have an: "analyze r c = Inr (analyze_legacy c)" using assms(1) by (simp add: analyze_def leaf_code_def)
  have t: "get_baseline_cost_table r (eof_version (eof_header (analyze_legacy c))) = legacy_cost_tables r"
    by (simp add: analyze_legacy_def EOF1Header_default_def get_baseline_cost_table_def)
  have "table_ok (legacy_cost_tables r)" using baseline_table_ok [of r 0] by (simp add: get_baseline_cost_table_def)
  moreover have "loop_inv c 0 [] (msg_gas m) (ExecutionState_ctor m r h c (analyze_legacy c))"
    using assms(2-4) by (simp add: loop_inv_def ExecutionState_ctor_def code_pos_def run_ok_def)
  ultimately have "execute (no_calls env) fuel r m h c = execute env fuel r m h c"
    using dispatch_no_calls [OF _ assms(1)] by (simp add: execute_def an t)
  moreover have "metered ({Process_exit} \<union> (if int fuel \<le> msg_gas m then {Out_of_fuel} else {})) m (execute (no_calls env) fuel r m h c)"
    using assms by (intro execute_ok host_law_no_calls leaf_no_eof_ops) (simp_all add: leaf_code_def)
  ultimately show ?thesis by simp
qed

text \<open>The code that a transaction runs.\<close>

definition tx_code :: "(address \<Rightarrow> Acn option) \<Rightarrow> Tx \<Rightarrow> bytes" where
  "tx_code w t = (if tx_to t = replicate 20 0 then tx_data t else case w (tx_to t) of None \<Rightarrow> [] | Some acn \<Rightarrow> code acn)"

lemma txToEvmcMsg_fields:
  "msg_gas (txToEvmcMsg t) = INT64_MAX" "msg_depth (txToEvmcMsg t) = 0" "msg_input (txToEvmcMsg t) = tx_data t"
  "msg_kind (txToEvmcMsg t) = (if tx_to t = replicate 20 0 then EVMC_CREATE else EVMC_CALL)"
  "tx_to t \<noteq> replicate 20 0 \<Longrightarrow> msg_code_address (txToEvmcMsg t) = tx_to t"
  by (simp_all add: txToEvmcMsg_def Let_def evmc_message_default_def)

lemma metered_refusal: "metered F (txToEvmcMsg t) (Inr (refusal, h))"
  by (simp add: metered_def refusal_def make_result_def txToEvmcMsg_fields INT64_MAX_def)

lemma execMsg_leaf:
  assumes "leaf_code (tx_code w t)"
  shows "metered ({Process_exit} \<union> (if int fuel \<le> INT64_MAX then {Out_of_fuel} else {})) (txToEvmcMsg t)
    (execMsg keccak fuel (Suc d) (txToEvmcMsg t) (WeakEvmHost_ctor w n))"
proof -
  let ?m = "txToEvmcMsg t" and ?h = "WeakEvmHost_ctor w n"
  let ?env = "exec_env keccak (execMsg keccak fuel d)"
  let ?F = "{Process_exit} \<union> (if int fuel \<le> INT64_MAX then {Out_of_fuel} else {})"
  have run: "metered ?F ?m (execute ?env fuel EVMC_MAX_REVISION ?m h (tx_code w t))" for h
    using execute_leaf [OF assms, of ?m EVMC_MAX_REVISION fuel ?env h] by (simp add: txToEvmcMsg_fields INT64_MAX_def EVMC_MAX_REVISION_def)
  show ?thesis
  proof (cases "tx_to t = replicate 20 0")
    case True
    have "metered ?F ?m (handleCreate ?env fuel ?m ?h)"
      using run [of ?h] metered_refusal True
      by (cases "execute ?env fuel EVMC_MAX_REVISION ?m ?h (tx_data t)")
        (auto simp: handleCreate_def txToEvmcMsg_fields tx_code_def metered_def)
    then show ?thesis using True by (simp add: txToEvmcMsg_fields)
  next
    case False
    then have "metered ?F ?m (handleCall ?env fuel ?m ?h)"
    proof (cases "w (tx_to t)")
      case None
      then show ?thesis using False
        by (simp add: metered_refusal handleCall_def txToEvmcMsg_fields account_exists_def WeakEvmHost_ctor_def)
    next
      case (Some acn)
      then have "handleCall ?env fuel ?m ?h = execute ?env fuel EVMC_MAX_REVISION ?m (?h\<lparr>accounts := [(tx_to t, acn)]\<rparr>) (tx_code w t)"
        using False by (simp add: handleCall_def txToEvmcMsg_fields account_exists_def WeakEvmHost_ctor_def tryAddAcnFromWorldState_def tx_code_def)
      then show ?thesis using run by simp
    qed
    then show ?thesis using False by (simp add: txToEvmcMsg_fields)
  qed
qed

section \<open>Properties\<close>



text \<open>
  A deployment replaces the account of the new contract: when a creation succeeds, the account at its
  address has the returned code, the next number of the process-wide counter as its nonce and an empty storage --
  whatever the constructor stored there before is gone.
\<close>

theorem create_drops_constructor_storage:
  assumes "execMsg keccak fuel d m h = Inr (r, h')" "msg_kind m \<in> {EVMC_CREATE, EVMC_CREATE2}" "res_status r = EVMC_SUCCESS"
  shows "\<exists>n. create_nonce h' = n + 1 \<and> map_of (accounts h') (msg_recipient m) = Some (Acn_ctor n (res_output r)) \<and>
    get_storage h' (msg_recipient m) key = replicate 32 0"
proof -
  obtain k where d: "d = Suc k" using assms(1) by (cases d) auto
  let ?env = "exec_env keccak (execMsg keccak fuel k)"
  have "handleCreate ?env fuel m h = Inr (r, h')" using assms(1,2) by (auto simp: d Let_def)
  from handleCreate_Inr [OF this] assms(3) obtain h1 where
    "h' = h1\<lparr>accounts := AList.update (msg_recipient m) (Acn_ctor (create_nonce h1) (res_output r)) (accounts h1), create_nonce := create_nonce h1 + 1\<rparr>"
    by (auto simp: refusal_def make_result_def)
  then show ?thesis by (intro exI [of _ "create_nonce h1"])
    (simp add: get_storage_view host_view_def Acn_ctor_def Acn_default_def)
qed

text \<open>Results carry no created address.\<close>

lemma execute_create_address: "execute env fuel r m h c = Inr (res, h') \<Longrightarrow> res_create_address res = replicate 20 0"
  by (auto simp: execute_def bind_vm_Inr_iff Let_def make_result_def)

lemma execMsg_create_address: "execMsg keccak fuel d m h = Inr (res, h') \<Longrightarrow> res_create_address res = replicate 20 0"
proof (cases d)
  case (Suc k)
  let ?env = "exec_env keccak (execMsg keccak fuel k)"
  have ref: "res_create_address refusal = replicate 20 0" by (simp add: refusal_def make_result_def)
  assume "execMsg keccak fuel d m h = Inr (res, h')"
  then have "handleCreate ?env fuel m h = Inr (res, h') \<or> handleCall ?env fuel m h = Inr (res, h')"
    by (auto simp: Suc Let_def split: if_splits)
  with handleCreate_Inr [of ?env fuel m h res h'] handleCall_Inr [of ?env fuel m h res h'] ref show ?thesis
    using execute_create_address by metis
qed simp

lemma be_load_zeros: "be_load (replicate n 0) = 0"
proof -
  have "be_nat (replicate n 0) = 0"
    by (induction n) (simp_all add: be_nat_snoc flip: replicate_append_same)
  then show ?thesis by (simp add: be_load_def)
qed

text \<open>
  A contract cannot learn the address of a contract it creates: with the executor as the host's back
  end, \<open>CREATE\<close> and \<open>CREATE2\<close> that go on always leave zero on the stack, and the message they send names the
  zero address as the account to create, whatever the sender, the code and the salt.
\<close>

theorem nested_create_yields_zero:
  assumes "create_impl (exec_env keccak (execMsg keccak fuel d)) op s gas st = Inr (EVMC_SUCCESS, g, s', st')"
  shows "hd s' = 0 \<and> msg_recipient (create_message op st gas' salt v input) = replicate 20 0"
proof -
  let ?Q = "\<lambda>(sc, g, s', st'). sc = EVMC_SUCCESS \<longrightarrow> hd s' = 0"
  have "post ?Q (create_return m g r st1 res)" if "res_create_address res = replicate 20 0" for m g r st1 res
    using that by (auto simp: create_return_def be_load_zeros intro!: post_rules)
  then have call: "post ?Q (bind_vm (execMsg keccak fuel d m h) (\<lambda>(res, h'). create_return m g r (st1\<lparr>es_host := h'\<rparr>) res))" for m h g r st1
    using execMsg_create_address by (intro post_bind) (auto split: prod.split)
  have "post ?Q (create_impl (exec_env keccak (execMsg keccak fuel d)) op s gas st)"
    by (auto simp: create_impl_def Let_def intro!: post_rules call split: option.split)
  then show ?thesis using assms by (simp add: create_message_def evmc_message_default_def)
qed

text \<open>
  C38. A call to an address without an account breaks the accounting of gas: the executor refuses it with
  \<open>gas_left\<close> at its maximum, and the caller adds that to its own gas. With 64 units of gas or more left the
  signed addition overflows, which is undefined; with less, and all of it passed on, the caller goes on
  with the maximum of gas.
\<close>

theorem call_to_missing_account_breaks_gas:
  assumes "\<not> account_exists (es_host st) (msg_code_address m)" "msg_kind m \<notin> {EVMC_CREATE, EVMC_CREATE2}"
    and "msg_depth (es_msg st) < 1024" "EVMC_TANGERINE_WHISTLE \<le> es_rev st" "0 \<le> gas_left" "gas_left \<le> INT64_MAX"
    and "- INT64_MAX \<le> es_gas_refund st" "es_gas_refund st \<le> INT64_MAX"
  shows "(64 \<le> gas_left \<longrightarrow> call_dispatch (exec_env keccak (execMsg keccak fuel (Suc d))) m gas_left gas 0 oo osz r st = Inl Undefined_behaviour) \<and>
    (gas_left < 64 \<and> gas_left \<le> int (unat gas) \<longrightarrow>
       call_dispatch (exec_env keccak (execMsg keccak fuel (Suc d))) m gas_left gas 0 oo osz r st = Inr (EVMC_SUCCESS, INT64_MAX, 0 # r, st\<lparr>es_return_data := []\<rparr>))"
proof -
  let ?g0 = "if gas < word_of_int INT64_MAX then int (unat gas) else INT64_MAX"
  let ?g = "min ?g0 (gas_left - gas_left div 64)"
  let ?st = "st\<lparr>es_return_data := []\<rparr>"
  have call: "execMsg keccak fuel (Suc d) (m\<lparr>msg_gas := x\<rparr>) (es_host st) = Inr (refusal, es_host st)" for x
    using assms(1,2) by (simp add: handleCall_def Let_def)
  have D: "call_dispatch (exec_env keccak (execMsg keccak fuel (Suc d))) m gas_left gas 0 oo osz r st =
     bind_vm (i64 (?g - INT64_MAX)) (\<lambda>u. bind_vm (i64 (gas_left - u)) (\<lambda>g. bind_vm (i64 (es_gas_refund st)) (\<lambda>rf.
       Inr (EVMC_SUCCESS, g, 0 # r, ?st\<lparr>es_gas_refund := rf\<rparr>))))"
    using assms(3,4) unfolding call_dispatch_def Let_def
    by (simp add: call call_return_def refusal_def make_result_def mem_write_def del: execMsg.simps)
  have g: "0 \<le> ?g" "?g \<le> gas_left" using call_gas_bounds [OF assms(5), of gas] by simp_all
  have M: "INT64_MAX = 9223372036854775807" by (simp add: INT64_MAX_def)
  have u: "i64 (?g - INT64_MAX) = Inr (?g - INT64_MAX)" using g assms(6) by (intro i64_ok) (simp_all add: M)
  have rf: "i64 (es_gas_refund st) = Inr (es_gas_refund st)" using assms(7,8) by (intro i64_ok) (simp_all add: M)
  have "call_dispatch (exec_env keccak (execMsg keccak fuel (Suc d))) m gas_left gas 0 oo osz r st = Inl Undefined_behaviour" if "64 \<le> gas_left"
  proof -
    have "?g < gas_left" using that by (simp add: min_less_iff_disj pos_imp_zdiv_pos_iff)
    then have "\<not> gas_left - (?g - INT64_MAX) \<le> INT64_MAX" by linarith
    then have "i64 (gas_left - (?g - INT64_MAX)) = Inl Undefined_behaviour" by (simp only: i64_def simp_thms if_False)
    then show ?thesis unfolding D u by simp
  qed
  moreover have "call_dispatch (exec_env keccak (execMsg keccak fuel (Suc d))) m gas_left gas 0 oo osz r st = Inr (EVMC_SUCCESS, INT64_MAX, 0 # r, ?st)"
    if "gas_left < 64" "gas_left \<le> int (unat gas)"
  proof -
    have "?g = gas_left" using that assms(5,6) by (simp add: div_pos_pos_trivial)
    then have "i64 (gas_left - (?g - INT64_MAX)) = Inr INT64_MAX" by (simp add: i64_def M)
    then show ?thesis unfolding D u by (simp add: rf)
  qed
  ultimately show ?thesis by blast
qed

section \<open>Runs of small programs\<close>

text \<open>\<open>PUSH1 1, PUSH1 0, SSTORE\<close>: store 1 at key 0.\<close>

definition store_code :: bytes where
  "store_code = [0x60, 1, 0x60, 0, 0x55]"

lemma opcode_bytes:
  "opcode_of_byte 0x00 = Some (Op_term OP_STOP)" "opcode_of_byte 0x60 = Some (Op_code (OP_PUSH 1))"
  "opcode_of_byte 0x55 = Some (Op_result OP_SSTORE)" "opcode_of_byte 0x01 = Some (Op_stack OP_ADD)"
  by (simp_all add: opcode_of_byte_def opcode_table_def Let_def)

lemma prague_costs:
  "gas_costs EVMC_PRAGUE (Op_term OP_STOP) = 0" "gas_costs EVMC_PRAGUE (Op_code (OP_PUSH n)) = 3"
  "gas_costs EVMC_PRAGUE (Op_result OP_SSTORE) = 0"
  by (simp_all add: gas_costs_numeral gas_costs_update_def term_costs_frontier_def code_costs_frontier_def result_costs_frontier_def)

lemma dispatch_prague:
  assumes "code_at st p = Inr b" "opcode_of_byte b = Some op" "gas_costs EVMC_PRAGUE op = c" "c \<le> g"
    and "stack_height_required (traits op) \<le> length s" "length s < stack_limit"
  shows "dispatch env (legacy_cost_tables EVMC_PRAGUE) (Suc n) p s g st = bind_vm (invoke_impl env op p s (g - c) st) (\<lambda>(next, s', gas', st').
     case next of None \<Rightarrow> Inr (gas', st') | Some q \<Rightarrow> dispatch env (legacy_cost_tables EVMC_PRAGUE) n q s' gas' st')"
  by (simp add: vm_step_prague [OF assms])

lemma execute_legacy:
  "\<not> is_eof_container c \<Longrightarrow> execute env fuel EVMC_MAX_REVISION m h c =
     bind_vm (dispatch env (legacy_cost_tables EVMC_PRAGUE) fuel 0 [] (msg_gas m) (ExecutionState_ctor m EVMC_PRAGUE h c (analyze_legacy c))) (\<lambda>(gas, st).
         let gas_left = (if es_status st = EVMC_SUCCESS \<or> es_status st = EVMC_REVERT then gas else 0);
             gas_refund = (if es_status st = EVMC_SUCCESS then es_gas_refund st else 0)
         in bind_vm (if es_output_size st \<noteq> 0 then mem_read st (es_output_offset st) (es_output_size st) else Inr []) (\<lambda>out.
              Inr (make_result (es_status st) gas_left gas_refund out, es_host st)))"
  by (simp add: execute_def analyze_def analyze_legacy_def EOF1Header_default_def get_baseline_cost_table_def EVMC_MAX_REVISION_def)

lemma push1_step:
  assumes "es_analysis st = analyze_legacy c" "p + 1 < length c" "c ! p = 0x60" "3 \<le> g" "length s < stack_limit"
  shows "dispatch env (legacy_cost_tables EVMC_PRAGUE) (Suc n) (int p) s g st =
    dispatch env (legacy_cost_tables EVMC_PRAGUE) n (int (p + 2)) (word_of_nat (unat (c ! (p + 1))) # s) (g - 3) st"
proof -
  have "code_at st (int p) = Inr 0x60" using code_at_legacy [OF assms(1), of "int p"] assms(2,3) by (simp add: code_pos_def)
  note a = dispatch_prague [OF this opcode_bytes(2) prague_costs(2) assms(4) _ assms(5)]
  have "take 1 (drop (p + 1) (pad_code c)) = [c ! (p + 1)]"
    using assms(2) by (simp add: pad_code_def take_Suc_conv_app_nth)
  then have "push_value 1 st (int (p + 1)) = Inr (word_of_nat (unat (c ! (p + 1))))"
    using push_value_eq [OF assms(1), of "p + 1" 1] assms(2) by (simp add: be_load_def be_nat_def)
  then show ?thesis by (subst a) (simp_all add: code_traits_def tr_def code_impl_def core_push_def add.commute)
qed

lemma stop_step:
  assumes "es_analysis st = analyze_legacy c" "p = int (length c)" "0 \<le> g" "length s < stack_limit"
  shows "dispatch env (legacy_cost_tables EVMC_PRAGUE) (Suc n) p s g st = Inr (g, st\<lparr>es_status := EVMC_SUCCESS\<rparr>)"
proof -
  have "code_at st p = Inr 0x00" using code_at_legacy [OF assms(1), of p] assms(2) by (simp add: code_pos_def)
  from dispatch_prague [OF this opcode_bytes(1) prague_costs(1) assms(3) _ assms(4)] show ?thesis
    by (simp add: term_traits_def tr_def term_impl_def stop_impl_def)
qed

lemma execute_empty:
  assumes "0 \<le> msg_gas m"
  shows "execute env (Suc n) EVMC_MAX_REVISION m h [] = Inr (make_result EVMC_SUCCESS (msg_gas m) 0 [], h)"
  using stop_step [of "ExecutionState_ctor m EVMC_PRAGUE h [] (analyze_legacy [])" "[]" 0 "msg_gas m" "[]" env n] assms
  by (subst execute_legacy) (simp_all add: is_eof_container_def ExecutionState_ctor_def)

text \<open>The program up to its last instruction.\<close>

lemma store_code_pushes:
  fixes m :: evmc_message and h :: WeakEvmHost
  assumes "6 \<le> g"
  defines "st \<equiv> ExecutionState_ctor m EVMC_PRAGUE h store_code (analyze_legacy store_code)"
  shows "dispatch env (legacy_cost_tables EVMC_PRAGUE) (Suc (Suc n)) 0 [] g st = dispatch env (legacy_cost_tables EVMC_PRAGUE) n 4 [0, 1] (g - 6) st"
proof -
  have a: "es_analysis st = analyze_legacy store_code" by (simp add: st_def ExecutionState_ctor_def)
  have "dispatch env (legacy_cost_tables EVMC_PRAGUE) (Suc (Suc n)) (int 0) [] g st =
      dispatch env (legacy_cost_tables EVMC_PRAGUE) (Suc n) (int 2) [1] (g - 3) st"
    using push1_step [OF a, of 0 g "[]" env "Suc n"] assms(1) by (simp add: store_code_def)
  also have "\<dots> = dispatch env (legacy_cost_tables EVMC_PRAGUE) n (int 4) [0, 1] (g - 3 - 3) st"
    using push1_step [OF a, of 2 "g - 3" "[1]" env n] assms(1) by (simp add: store_code_def)
  finally show ?thesis by simp
qed

lemma sstore_prague: "sstore_costs EVMC_PRAGUE EVMC_STORAGE_MODIFIED = (0, 0)"
  by (simp add: sstore_costs_def storage_cost_spec_def cost_spec_def)

lemma store_code_at_4:
  "code_at (ExecutionState_ctor m EVMC_PRAGUE h store_code (analyze_legacy store_code)) 4 = Inr 0x55"
  by (simp add: code_at_def ExecutionState_ctor_def analyze_legacy_def pad_code_def store_code_def)

lemma execute_store_code:
  assumes "msg_flags m AND EVMC_STATIC = 0" "2307 \<le> msg_gas m"
    and "set_storage h (msg_recipient m) (be_store256 0) (be_store256 1) = Inr (EVMC_STORAGE_MODIFIED, h')"
  shows "execute env (Suc (Suc (Suc (Suc n)))) EVMC_MAX_REVISION m h store_code = Inr (make_result EVMC_SUCCESS (msg_gas m - 2106) 0 [], h')"
proof -
  let ?st = "ExecutionState_ctor m EVMC_PRAGUE h store_code (analyze_legacy store_code)"
  let ?ct = "legacy_cost_tables EVMC_PRAGUE"
  have "core_sstore [0, 1] (msg_gas m - 6) ?st = Inr (EVMC_SUCCESS, msg_gas m - 2106, [], ?st\<lparr>es_host := h'\<rparr>)"
    using assms by (simp add: core_sstore_def in_static_mode_def ExecutionState_ctor_def access_storage_def sstore_prague charge_def i64_def INT64_MAX_def)
  then have "dispatch env ?ct (Suc (Suc (Suc (Suc n)))) 0 [] (msg_gas m) ?st = dispatch env ?ct (Suc n) 5 [] (msg_gas m - 2106) (?st\<lparr>es_host := h'\<rparr>)"
    using store_code_pushes [of "msg_gas m" env "Suc (Suc n)" m h] assms(2)
      dispatch_prague [OF store_code_at_4 opcode_bytes(3) prague_costs(3), of "msg_gas m - 6" "[0, 1]" env "Suc n" m h]
    by (simp add: result_traits_def tr_def result_impl_def)
  also have "\<dots> = Inr (msg_gas m - 2106, ?st\<lparr>es_host := h', es_status := EVMC_SUCCESS\<rparr>)"
    using assms(2) by (subst stop_step [where c = store_code]) (simp_all add: ExecutionState_ctor_def store_code_def)
  finally show ?thesis
    by (subst execute_legacy) (simp_all add: is_eof_container_def store_code_def ExecutionState_ctor_def)
qed

lemma execute_store_code_static:
  assumes "msg_flags m AND EVMC_STATIC \<noteq> 0" "6 \<le> msg_gas m"
  shows "execute env (Suc (Suc (Suc n))) EVMC_MAX_REVISION m h store_code = Inr (make_result EVMC_STATIC_MODE_VIOLATION 0 0 [], h)"
proof -
  let ?st = "ExecutionState_ctor m EVMC_PRAGUE h store_code (analyze_legacy store_code)"
  have "core_sstore [0, 1] (msg_gas m - 6) ?st = Inr (EVMC_STATIC_MODE_VIOLATION, msg_gas m - 6, [0, 1], ?st)"
    using assms(1) by (simp add: core_sstore_def in_static_mode_def ExecutionState_ctor_def)
  then have "dispatch env (legacy_cost_tables EVMC_PRAGUE) (Suc (Suc (Suc n))) 0 [] (msg_gas m) ?st =
      Inr (msg_gas m - 6, ?st\<lparr>es_status := EVMC_STATIC_MODE_VIOLATION\<rparr>)"
    using store_code_pushes [of "msg_gas m" env "Suc n" m h] assms(2)
      dispatch_prague [OF store_code_at_4 opcode_bytes(3) prague_costs(3), of "msg_gas m - 6" "[0, 1]" env n m h]
    by (simp add: result_traits_def tr_def result_impl_def)
  then show ?thesis
    by (subst execute_legacy) (simp_all add: is_eof_container_def store_code_def ExecutionState_ctor_def)
qed

section \<open>Examples\<close>

text \<open>A deployment whose constructor stores, and the address it deploys to.\<close>

definition demo_deploy :: Tx where
  "demo_deploy = Tx_ctor 7 (makeAddress 1) (replicate 20 0) store_code 3 Evm"

abbreviation (input) demo_address :: address where
  "demo_address \<equiv> getContractDeployAddress demo_deploy"

lemma demo_deploy_msg:
  "txToEvmcMsg demo_deploy = evmc_message_default\<lparr>msg_gas := INT64_MAX, msg_sender := makeAddress 1, msg_kind := EVMC_CREATE,
     msg_recipient := demo_address, msg_code_address := demo_address, msg_input := store_code\<rparr>"
  by (simp add: txToEvmcMsg_def demo_deploy_def Tx_ctor_def Tx_default_def)

definition demo_world :: "address \<Rightarrow> Acn option" where
  "demo_world a = None"

text \<open>The host after the constructor, and after the deployment.\<close>

definition stored_host :: WeakEvmHost where
  "stored_host = (WeakEvmHost_ctor demo_world 0)\<lparr>accounts := [(demo_address, Acn_default\<lparr>storage := [(be_store256 0, be_store256 1)]\<rparr>)]\<rparr>"

definition deployed_host :: WeakEvmHost where
  "deployed_host = (WeakEvmHost_ctor demo_world 1)\<lparr>accounts := [(demo_address, Acn_ctor 0 [])]\<rparr>"

lemma store_key: "be_store256 1 \<noteq> replicate 32 0"
proof
  assume "be_store256 1 = replicate 32 0"
  then have "be_load (be_store256 1) = be_load (replicate 32 0)" by simp
  then show False by (simp add: be_load_zeros)
qed

lemma demo_deploy_run:
  "execMsg demo_keccak 4 1 (txToEvmcMsg demo_deploy) (WeakEvmHost_ctor demo_world 0) =
     Inr (make_result EVMC_SUCCESS (INT64_MAX - 2106) 0 [], deployed_host)"
proof -
  let ?h = "WeakEvmHost_ctor demo_world 0"
  have "set_storage ?h demo_address (be_store256 0) (be_store256 1) = Inr (EVMC_STORAGE_MODIFIED, stored_host)"
    using store_key by (simp add: set_storage_def tryAddAcnFromWorldState_def WeakEvmHost_ctor_def demo_world_def stored_host_def Acn_default_def)
  then have "execute (exec_env demo_keccak (execMsg demo_keccak 4 0)) (Suc (Suc (Suc (Suc 0)))) EVMC_MAX_REVISION (txToEvmcMsg demo_deploy) ?h store_code =
      Inr (make_result EVMC_SUCCESS (INT64_MAX - 2106) 0 [], stored_host)"
    using execute_store_code [of "txToEvmcMsg demo_deploy" ?h stored_host] by (simp add: demo_deploy_msg INT64_MAX_def evmc_message_default_def)
  then have "handleCreate (exec_env demo_keccak (execMsg demo_keccak 4 0)) 4 (txToEvmcMsg demo_deploy) ?h =
      Inr (make_result EVMC_SUCCESS (INT64_MAX - 2106) 0 [], deployed_host)"
    by (simp add: handleCreate_def demo_deploy_msg eval_nat_numeral account_exists_def WeakEvmHost_ctor_def demo_world_def
        make_result_def stored_host_def deployed_host_def Acn_ctor_def)
  then show ?thesis by (simp add: demo_deploy_msg)
qed

theorem create_drops_constructor_storage_witness:
  "\<exists>r h'. execMsg demo_keccak 4 1 (txToEvmcMsg demo_deploy) (WeakEvmHost_ctor demo_world 0) = Inr (r, h') \<and>
     get_storage stored_host demo_address (be_store256 0) = be_store256 1 \<and> get_storage h' demo_address (be_store256 0) = replicate 32 0"
proof -
  have k: "msg_kind (txToEvmcMsg demo_deploy) \<in> {EVMC_CREATE, EVMC_CREATE2}" "msg_recipient (txToEvmcMsg demo_deploy) = demo_address"
    by (simp_all add: demo_deploy_msg)
  have "get_storage deployed_host demo_address (be_store256 0) = replicate 32 0"
    using create_drops_constructor_storage [OF demo_deploy_run k(1), of "be_store256 0"] k(2) by (auto simp: make_result_def)
  moreover have "get_storage stored_host demo_address (be_store256 0) = be_store256 1"
    by (simp add: get_storage_view host_view_def stored_host_def WeakEvmHost_ctor_def Acn_default_def)
  ultimately show ?thesis using demo_deploy_run by blast
qed

theorem executeTx_journal_refines_host_witness:
  "\<exists>w'. executeTx (demo_codec (Acn_toPb (Acn_ctor 0 []))) demo_keccak 4 1
       (getAcn (InRam_ops (demo_codec (Acn_toPb (Acn_ctor 0 [])))) InRam_empty) 0 demo_deploy =
       Inr (Some ([\<lparr>del = False, sc_k = addressToString demo_address, sc_v = ''w''\<rparr>], []), 1) \<and>
     getAcn (InRam_ops (demo_codec (Acn_toPb (Acn_ctor 0 [])))) w' demo_address = Some (Acn_ctor 0 [])"
proof -
  let ?c = "demo_codec (Acn_toPb (Acn_ctor 0 []))"
  let ?w = "InRam_empty\<lparr>stateDB := fold apply_change (getStateChanges ?c deployed_host) []\<rparr>"
  have w: "getAcn (InRam_ops ?c) InRam_empty = demo_world"
    by (simp add: fun_eq_iff InRam_defs InRam_empty_def demo_world_def)
  have run: "execMsg demo_keccak 4 1 (txToEvmcMsg demo_deploy) (WeakEvmHost_ctor (getAcn (InRam_ops ?c) InRam_empty) 0) =
     Inr (make_result EVMC_SUCCESS (INT64_MAX - 2106) 0 [], deployed_host)" unfolding w by (rule demo_deploy_run)
  have ap: "applyJournalStateDB (InRam_ops ?c) InRam_empty (getStateChanges ?c deployed_host) = Inr (True, ?w)"
    by (simp add: InRam_defs InRam_empty_def)
  have "executeTx ?c demo_keccak 4 1 (getAcn (InRam_ops ?c) InRam_empty) 0 demo_deploy =
      Inr (Some (getStateChanges ?c deployed_host, res_output (make_result EVMC_SUCCESS (INT64_MAX - 2106) 0 [])), create_nonce deployed_host) \<and>
    getAcn (InRam_ops ?c) ?w = host_view deployed_host"
  proof (rule executeTx_journal_refines_host [OF inram.world_storage_axioms _ run _ ap])
    show "InRam_ok InRam_empty" by (simp add: InRam_ok_def InRam_empty_def smap_ok_def)
    show "ParseFromString ?c (SerializeAsString ?c (Acn_toPb acn)) = Some (Acn_toPb acn)" if "map_of (accounts deployed_host) a = Some acn" for a acn
      using that by (auto simp: deployed_host_def split: if_splits)
  qed (simp add: make_result_def)
  then show ?thesis by (intro exI [of _ ?w])
    (auto simp: getStateChanges_def deployed_host_def WeakEvmHost_ctor_def toPbString_def demo_codec_def make_result_def host_view_def)
qed

lemma leaf_store_code: "leaf_code store_code"
  using opcode_bytes by (simp add: leaf_code_def is_eof_container_def store_code_def)

lemma demo_deploy_leaf: "leaf_code (tx_code demo_world demo_deploy)"
  using leaf_store_code by (simp add: tx_code_def demo_deploy_def Tx_ctor_def Tx_default_def)



text \<open>A static call to a contract that tries to store.\<close>

definition static_demo_msg :: evmc_message where
  "static_demo_msg = evmc_message_default\<lparr>msg_flags := EVMC_STATIC, msg_gas := 1000, msg_recipient := makeAddress 5, msg_code_address := makeAddress 5\<rparr>"

definition static_demo_host :: WeakEvmHost where
  "static_demo_host = WeakEvmHost_ctor (\<lambda>a. if a = makeAddress 5 then Some (Acn_ctor 0 store_code) else None) 0"

theorem static_call_changes_nothing_witness:
  "\<exists>res h'. execMsg demo_keccak 3 1 static_demo_msg static_demo_host = Inr (res, h') \<and> res_status res = EVMC_STATIC_MODE_VIOLATION \<and>
     h' \<noteq> static_demo_host \<and> host_view h' = host_view static_demo_host"
proof -
  let ?h = "static_demo_host\<lparr>accounts := [(makeAddress 5, Acn_ctor 0 store_code)]\<rparr>"
  have "execute (exec_env demo_keccak (execMsg demo_keccak 3 0)) (Suc (Suc (Suc 0))) EVMC_MAX_REVISION static_demo_msg ?h store_code =
      Inr (make_result EVMC_STATIC_MODE_VIOLATION 0 0 [], ?h)"
    by (rule execute_store_code_static) (simp_all add: static_demo_msg_def EVMC_STATIC_def)
  then have run: "execMsg demo_keccak 3 1 static_demo_msg static_demo_host = Inr (make_result EVMC_STATIC_MODE_VIOLATION 0 0 [], ?h)"
    by (simp add: handleCall_def Let_def static_demo_msg_def evmc_message_default_def static_demo_host_def WeakEvmHost_ctor_def account_exists_def
        tryAddAcnFromWorldState_def Acn_ctor_def eval_nat_numeral)
  have "host_view ?h = host_view static_demo_host"
    using static_call_changes_nothing [OF run] by (simp add: static_demo_msg_def EVMC_STATIC_def evmc_message_default_def)
  then show ?thesis using run by (intro exI conjI) (assumption, simp_all add: make_result_def static_demo_host_def WeakEvmHost_ctor_def)
qed

text \<open>\<open>CREATE\<close> of a contract with no code, from a caller with 6400 units of gas.\<close>

definition caller_demo_state :: ExecutionState where
  "caller_demo_state = ExecutionState_ctor vm_demo_msg EVMC_PRAGUE vm_demo_host [] (analyze_legacy [])"

theorem nested_create_yields_zero_witness:
  "\<exists>g st'. create_impl (exec_env demo_keccak (execMsg demo_keccak 1 1)) OP_CREATE [0, 0, 0] 6400 caller_demo_state = Inr (EVMC_SUCCESS, g, [0], st') \<and>
     map_of (accounts (es_host st')) (replicate 20 0) = Some (Acn_ctor 0 [])"
proof -
  let ?m = "create_message OP_CREATE (caller_demo_state\<lparr>es_return_data := []\<rparr>) 6400 0 0 []"
  let ?h = "vm_demo_host\<lparr>accounts := [(replicate 20 0, Acn_ctor 0 [])], create_nonce := 1\<rparr>"
  have m: "msg_gas ?m = 6300" "msg_kind ?m = EVMC_CREATE" "msg_recipient ?m = replicate 20 0" "msg_input ?m = []"
    by (simp_all add: create_message_def evmc_message_default_def caller_demo_state_def ExecutionState_ctor_def)
  have refund0: "es_gas_refund caller_demo_state = 0" by (simp add: caller_demo_state_def ExecutionState_ctor_def)
  have call: "execMsg demo_keccak 1 1 ?m vm_demo_host = Inr (make_result EVMC_SUCCESS 6300 0 [], ?h)"
    using execute_empty [of ?m _ 0 vm_demo_host] by (simp add: m handleCreate_def account_exists_def vm_demo_host_def WeakEvmHost_ctor_def make_result_def)
  have "create_impl (exec_env demo_keccak (execMsg demo_keccak 1 1)) OP_CREATE [0, 0, 0] 6400 caller_demo_state =
      create_return ?m 6400 [] (caller_demo_state\<lparr>es_return_data := [], es_host := ?h\<rparr>) (make_result EVMC_SUCCESS 6300 0 [])"
    using call by (simp add: create_impl_def create_operands_def in_static_mode_def caller_demo_state_def ExecutionState_ctor_def vm_demo_msg_def
        evmc_message_default_def Let_def with_memory_def check_memory_def charge_def num_words_def low64_def limb_def del: execMsg.simps)
  then obtain g s' st' where r: "create_impl (exec_env demo_keccak (execMsg demo_keccak 1 1)) OP_CREATE [0, 0, 0] 6400 caller_demo_state = Inr (EVMC_SUCCESS, g, s', st')"
      "length s' = 1" "es_host st' = ?h"
    by (simp add: create_return_def m make_result_def i64_def INT64_MAX_def refund0)
  from nested_create_yields_zero [OF r(1)] r(2) have "s' = [0]" by (cases s') auto
  then show ?thesis using r by auto
qed

theorem call_to_missing_account_breaks_gas_witness:
  "call_dispatch (exec_env demo_keccak (execMsg demo_keccak 1 1)) (call_message OP_CALL caller_demo_state (makeAddress 9) 0 []) 100 50 0 0 0 [] caller_demo_state =
     Inl Undefined_behaviour"
proof -
  let ?m = "call_message OP_CALL caller_demo_state (makeAddress 9) 0 []"
  have "\<not> account_exists (es_host caller_demo_state) (msg_code_address ?m)" "msg_kind ?m \<notin> {EVMC_CREATE, EVMC_CREATE2}"
    "msg_depth (es_msg caller_demo_state) < 1024" "EVMC_TANGERINE_WHISTLE \<le> es_rev caller_demo_state" "es_gas_refund caller_demo_state = 0"
    by (simp_all add: account_exists_def caller_demo_state_def ExecutionState_ctor_def vm_demo_host_def WeakEvmHost_ctor_def vm_demo_msg_def
        evmc_message_default_def call_message_def)
  then show ?thesis
    using call_to_missing_account_breaks_gas [of caller_demo_state ?m 100 demo_keccak 1 0 50 0 0 "[]"] by (simp add: INT64_MAX_def)
qed

text \<open>
  One byte is enough to leave the defined behaviour: in the revision that the node runs, \<open>RETF\<close> is enabled in
  legacy code, where there is no call frame to return to. A transaction that deploys data starting with it
  makes every node that executes it pop an empty stack of return addresses, whatever follows, unless the
  address to deploy to is taken.
\<close>

theorem retf_deployment_is_undefined:
  assumes "tx_to t = replicate 20 0" "tx_data t = 0xb1 # rest" "w (getContractDeployAddress t) = None"
  shows "executeTx c keccak (Suc fuel) (Suc d) w n t = Inl Undefined_behaviour"
proof -
  let ?m = "txToEvmcMsg t" and ?h = "WeakEvmHost_ctor w n" and ?c = "0xb1 # rest"
  let ?st = "ExecutionState_ctor ?m EVMC_PRAGUE ?h ?c (analyze_legacy ?c)"
  have op: "opcode_of_byte 0xb1 = Some (Op_code OP_RETF)" by (simp add: opcode_of_byte_def opcode_table_def Let_def)
  have cost: "gas_costs EVMC_PRAGUE (Op_code OP_RETF) = 3" by (simp add: gas_costs_numeral gas_costs_update_def)
  have "code_at ?st 0 = Inr 0xb1" by (simp add: code_at_def ExecutionState_ctor_def analyze_legacy_def pad_code_def)
  from dispatch_prague [OF this op cost, of INT64_MAX "[]"]
  have "dispatch env (legacy_cost_tables EVMC_PRAGUE) (Suc fuel) 0 [] INT64_MAX ?st = Inl Undefined_behaviour" for env
    by (simp add: INT64_MAX_def code_traits_def tr_def code_impl_def core_retf_def ExecutionState_ctor_def)
  then have "execute env (Suc fuel) EVMC_MAX_REVISION ?m ?h ?c = Inl Undefined_behaviour" for env
    by (subst execute_legacy) (simp_all add: is_eof_container_def txToEvmcMsg_fields)
  moreover have "msg_recipient ?m = getContractDeployAddress t" using assms(1) by (simp add: txToEvmcMsg_def)
  ultimately show ?thesis using assms
    by (simp add: executeTx_def txToEvmcMsg_fields handleCreate_def account_exists_def WeakEvmHost_ctor_def)
qed

theorem retf_deployment_is_undefined_witness:
  "executeTx (demo_codec (Acn_toPb Acn_default)) demo_keccak 1 1 demo_world 0 (Tx_ctor 7 (makeAddress 1) (replicate 20 0) [0xb1] 3 Evm) =
     Inl Undefined_behaviour"
  using retf_deployment_is_undefined [of "Tx_ctor 7 (makeAddress 1) (replicate 20 0) [0xb1] 3 Evm" "[]" demo_world _ _ 0 0 0]
  by (simp add: Tx_ctor_def Tx_default_def demo_world_def)

end
