(* ===== verification/PyExec.thy ===== *)
theory PyExec
  imports EvmExec JsonData "HOL-Library.Multiset"
begin

text \<open>
  The executor that dispatches on the type of a transaction (\<open>Div2Executor\<close> of \<^verbatim>\<open>include/div2Executor.hpp\<close>) and the
  one that runs Python contracts in a child process (\<open>PyTxExecutor\<close>, \<open>ExoticTxExecutorBase\<close>). The child process is
  the parameter \<open>launch\<close>: from the files of the working directory to what the node observes of the process. An
  exception that meets a \<open>noexcept\<close> function ends the node, which is \<open>Process_exit\<close> as in the virtual machine.
\<close>

section \<open>Child processes\<close>

type_synonym dir = "string \<Rightarrow> string option"

text \<open>
  What is seen of a child: the answers to \<open>running()\<close> in the waiting thread and in the listener, the lines of its
  standard output, how many of the lines read were appended when the result was copied (the listener is not joined
  before that), its exit code, and the files it leaves.
\<close>

record child =
  polls :: "nat \<Rightarrow> bool"
  listener_polls :: "nat \<Rightarrow> bool"
  out_lines :: "string list"
  heard :: nat
  exit_code :: int
  files_after :: dir

primrec wait_loop :: "(nat \<Rightarrow> bool) \<Rightarrow> nat \<Rightarrow> nat \<Rightarrow> bool" where
  "wait_loop running i 0 = True"
| "wait_loop running i (Suc n) = (if running i then wait_loop running (Suc i) n else False)"

definition wait_for_and_terminate :: "child \<Rightarrow> int \<Rightarrow> bool" where
  "wait_for_and_terminate c timeout_s =
     (if \<not> polls c 0 \<or> timeout_s \<le> 0 then False else wait_loop (polls c) 1 (nat (timeout_s * 1000)))"

fun listen :: "(nat \<Rightarrow> bool) \<Rightarrow> nat \<Rightarrow> string list \<Rightarrow> string list" where
  "listen running i [] = []"
| "listen running i (l # ls) = (if running i \<and> l \<noteq> [] then l # listen running (Suc i) ls else [])"

record py_env =
  launch :: "dir \<Rightarrow> child option"  \<comment> \<open>\<open>None\<close>: the child cannot be started\<close>
  py_json :: json_text
  py_codec :: "PbAcn pb_codec"
  py_keccak :: keccak256
  PY_VERIFIER_CONTENT :: string
  PY_INVOKE_TEMPLATE :: string
  what :: "exn \<Rightarrow> string"

text \<open>The exit code and the output, with the files left behind.\<close>

definition exec0 :: "py_env \<Rightarrow> int \<Rightarrow> dir \<Rightarrow> (int \<times> string \<times> dir) result" where
  "exec0 env timeout_s wd =
     (case launch env wd of
        None \<Rightarrow> Inl Runtime_error
      | Some c \<Rightarrow>
          (if wait_for_and_terminate c timeout_s then Inr (- 1, ''timed out'', files_after c)
           else Inr (exit_code c, concat (take (heard c) (listen (listener_polls c) 0 (out_lines c))), files_after c)))"

section \<open>Files and texts\<close>

definition readAllText :: "dir \<Rightarrow> string \<Rightarrow> string" where
  "readAllText d p = (case d p of None \<Rightarrow> [] | Some s \<Rightarrow> s)"

text \<open>\<open>contains(json::array, string)\<close>; \<open>as_string\<close> throws on what is not a text.\<close>

fun json_contains :: "json list \<Rightarrow> string \<Rightarrow> bool result" where
  "json_contains [] s = Inr False"
| "json_contains (v # vs) s = bind_result (as_string v) (\<lambda>x. if x = s then Inr True else json_contains vs s)"

text \<open>\<open>o[k]\<close>, which makes a null of what is missing; and \<open>erase\<close>, which moves the last element into the gap.\<close>

definition obj_sub :: "(string \<times> json) list \<Rightarrow> string \<Rightarrow> json" where
  "obj_sub o1 k = (case map_of o1 k of None \<Rightarrow> JNull | Some v \<Rightarrow> v)"

fun obj_erase :: "string \<Rightarrow> (string \<times> json) list \<Rightarrow> (string \<times> json) list" where
  "obj_erase k [] = []"
| "obj_erase k ((k', v) # kvs) =
     (if k' = k then (if kvs = [] then [] else last kvs # butlast kvs) else (k', v) # obj_erase k kvs)"

text \<open>\<open>operator==\<close>: integers of the two kinds are compared by value, objects without regard to order.\<close>

definition double_equal :: "int \<Rightarrow> int \<Rightarrow> int \<Rightarrow> int \<Rightarrow> bool" where
  "double_equal m e m' e' = (if e' \<le> e then m * 2 ^ nat (e - e') = m' else m = m' * 2 ^ nat (e' - e))"

fun json_equal :: "json \<Rightarrow> json \<Rightarrow> bool" and arr_equal :: "json list \<Rightarrow> json list \<Rightarrow> bool"
  and obj_equal :: "(string \<times> json) list \<Rightarrow> (string \<times> json) list \<Rightarrow> bool" where
  "json_equal JNull w = (case w of JNull \<Rightarrow> True | _ \<Rightarrow> False)"
| "json_equal (JBool b) w = (case w of JBool b' \<Rightarrow> b = b' | _ \<Rightarrow> False)"
| "json_equal (JInt i) w = (case w of JInt j \<Rightarrow> i = j | JUint u \<Rightarrow> i = uint u | _ \<Rightarrow> False)"
| "json_equal (JUint u) w = (case w of JInt j \<Rightarrow> uint u = j | JUint u' \<Rightarrow> u = u' | _ \<Rightarrow> False)"
| "json_equal (JDouble m e) w = (case w of JDouble m' e' \<Rightarrow> double_equal m e m' e' | _ \<Rightarrow> False)"
| "json_equal (JStr s) w = (case w of JStr s' \<Rightarrow> s = s' | _ \<Rightarrow> False)"
| "json_equal (JArr xs) w = (case w of JArr ys \<Rightarrow> arr_equal xs ys | _ \<Rightarrow> False)"
| "json_equal (JObj kvs) w = (case w of JObj kvs' \<Rightarrow> length kvs = length kvs' \<and> obj_equal kvs kvs' | _ \<Rightarrow> False)"
| "arr_equal [] ys = (ys = [])"
| "arr_equal (x # xs) ys = (case ys of [] \<Rightarrow> False | y # ys' \<Rightarrow> json_equal x y \<and> arr_equal xs ys')"
| "obj_equal [] kvs' = True"
| "obj_equal ((k, v) # kvs) kvs' = (case map_of kvs' k of None \<Rightarrow> False | Some w \<Rightarrow> json_equal v w \<and> obj_equal kvs kvs')"

text \<open>\<open>boost::replace_all\<close>; a text read through \<open>c_str()\<close> ends at its first zero.\<close>

function replace_all :: "string \<Rightarrow> string \<Rightarrow> string \<Rightarrow> string" where
  "replace_all pat rep s =
     (if pat = [] then s
      else (case s of
              [] \<Rightarrow> []
            | c # cs \<Rightarrow> (if prefix pat s then rep @ replace_all pat rep (drop (length pat) s) else c # replace_all pat rep cs)))"
  by pat_completeness auto

termination
  by (relation "measure (\<lambda>(pat, rep, s). length s)") auto

definition c_str :: "string \<Rightarrow> string" where
  "c_str s = takeWhile (\<lambda>c. c \<noteq> CHR 0x00) s"

definition std_to_string :: "int \<Rightarrow> string" where
  "std_to_string i = (if i < 0 then ''-'' @ decimal (nat (- i)) else decimal (nat i))"

section \<open>Invoking a method\<close>

definition exec_py :: "py_env \<Rightarrow> string \<Rightarrow> int \<Rightarrow> dir \<Rightarrow> (int \<times> string \<times> dir) result" where
  "exec_py env py_code_content timeout_s wd = exec0 env timeout_s (wd(''hi-tmp.py'' \<mapsto> py_code_content))"

definition prepareWorkingDir :: dir where
  "prepareWorkingDir = Map.empty"

definition verifyPyContract :: "py_env \<Rightarrow> string \<Rightarrow> string option result" where
  "verifyPyContract env py_code =
     bind_result (exec_py env (PY_VERIFIER_CONTENT env) 5 (prepareWorkingDir(''hi.py'' \<mapsto> py_code))) (\<lambda>(ec, output, wd).
       if ec \<noteq> 0 \<or> wd ''verifier-result.json'' = None then Inr None
       else Inr (Some (readAllText wd ''verifier-result.json'')))"

definition quit :: "string \<Rightarrow> (string \<times> json) list" where
  "quit msg = [(''quit'', JStr msg)]"

definition no_except :: "'a result \<Rightarrow> 'a vm" where
  "no_except r = (case r of Inl e \<Rightarrow> Inl Process_exit | Inr x \<Rightarrow> Inr x)"

text \<open>The loop over the declared parameters: \<open>Inr\<close> the message for the caller, or what is left over of the arguments.\<close>

fun use_args :: "json list \<Rightarrow> (string \<times> json) list \<Rightarrow> ((string \<times> json) list + (string \<times> json) list) result" where
  "use_args [] unused = Inr (Inr unused)"
| "use_args (a # as) unused =
     bind_result (as_string a) (\<lambda>s.
       if prefix ''_'' s then use_args as unused
       else if map_of unused s = None then Inr (Inl (quit (''Required argument not found: `'' @ s @ ''`'')))
       else use_args as (obj_erase s unused))"

definition match_args :: "json_text \<Rightarrow> json list \<Rightarrow> (string \<times> json) list \<Rightarrow> (string \<times> json) list result" where
  "match_args jt required_args args =
     bind_result (use_args required_args args) (\<lambda>r.
       case r of
         Inl q \<Rightarrow> Inr q
       | Inr unused \<Rightarrow>
           if unused \<noteq> [] then Inr (quit (''Excess arguments provided: '' @ json_serialize jt (JObj unused)))
           else Inr args)"

definition checkAndPrepareArgs :: "json_text \<Rightarrow> (string \<times> json) list \<Rightarrow> (string \<times> json) list \<Rightarrow> (string \<times> json) list vm" where
  "checkAndPrepareArgs jt iv abi = no_except
     (if map_of iv ''method'' = None
      then Inr (quit ''Malformed invoke json: `method` not found in the invoke object'')
      else
        bind_result (as_string (obj_sub iv ''method'')) (\<lambda>m.
        let method = c_str m in
        if map_of abi method = None then Inr (quit (''Method not found in abi: '' @ method))
        else
          bind_result (as_array (obj_sub abi method)) (\<lambda>required_args.
          case map_of iv ''args'' of
            None \<Rightarrow> match_args jt required_args []
          | Some v \<Rightarrow>
              (case v of
                 JObj args \<Rightarrow> match_args jt required_args args
               | _ \<Rightarrow> Inr (quit ''Malformed invoke json: `args` should be an object'')))))"

definition tx_context :: "keccak256 \<Rightarrow> Tx \<Rightarrow> json" where
  "tx_context keccak t = JObj [(''to'', JStr (addressToString (tx_to t))), (''from'', JStr (addressToString (tx_from t))),
     (''timestamp'', JUint (tx_timestamp t)), (''hash'', JStr (hashToString (tx_hash keccak t)))]"

definition addTxContextToArgsMaybe :: "keccak256 \<Rightarrow> json list \<Rightarrow> (string \<times> json) list \<Rightarrow> Tx \<Rightarrow> (string \<times> json) list vm" where
  "addTxContextToArgsMaybe keccak required_args args t = no_except
     (bind_result (json_contains required_args ''_tx_context'') (\<lambda>b.
       Inr (if b then AList.update ''_tx_context'' (tx_context keccak t) args else args)))"

definition makePyTxCode :: "string \<Rightarrow> string \<Rightarrow> string \<Rightarrow> string" where
  "makePyTxCode py_code s method = py_code @ [CHR 0x0A, CHR 0x0A] @ replace_all ''METHOD'' method s"

text \<open>
  The body of the \<open>try\<close> block after the arguments are prepared. The result text is turned into an object before the
  error code is looked at, so a text that does not parse is reported by the exception of \<open>as_object\<close>.
\<close>

definition run_method :: "py_env \<Rightarrow> string \<Rightarrow> string \<Rightarrow> json list \<Rightarrow> (string \<times> json) list \<Rightarrow> json \<Rightarrow> (string \<times> json) list result" where
  "run_method env py_code method required_args args stg =
     bind_result (json_contains required_args ''_storage'') (\<lambda>b.
     let args' = (if b then AList.update ''_storage'' stg args else args);
         wd = prepareWorkingDir(''args.json'' \<mapsto> json_serialize (py_json env) (JObj args'))
     in bind_result (exec_py env (makePyTxCode py_code (PY_INVOKE_TEMPLATE env) method) 3 wd) (\<lambda>(ec, output, wd').
        if ec \<noteq> 0 then
          Inr (quit (''Python-vm exited with non-zero exit code: '' @ std_to_string ec @ ''Output: '' @ output))
        else
          bind_result (as_object (case json_parse (py_json env) (readAllText wd' ''result.json'') of None \<Rightarrow> JNull | Some v \<Rightarrow> v)) (\<lambda>result.
            Inr ([(''result'', obj_sub result ''result'')]
              @ (if map_of result ''storage'' \<noteq> None \<and> \<not> json_equal (obj_sub result ''storage'') stg
                 then [(''storage'', obj_sub result ''storage'')] else [])
              @ [(''log'', JStr output)]))))"

definition caught_quit :: "py_env \<Rightarrow> (string \<times> json) list result \<Rightarrow> (string \<times> json) list" where
  "caught_quit env r = (case r of Inl e \<Rightarrow> quit (what env e) | Inr x \<Rightarrow> x)"

definition invokePyMethod :: "py_env \<Rightarrow> (string \<times> json) list \<Rightarrow> string \<Rightarrow> (string \<times> json) list \<Rightarrow> Tx \<Rightarrow> json
    \<Rightarrow> (string \<times> json) list vm" where
  "invokePyMethod env iv py_code abi t stg =
     bind_vm (checkAndPrepareArgs (py_json env) iv abi) (\<lambda>args.
       if map_of args ''quit'' \<noteq> None then Inr args
       else
         (case as_string (obj_sub iv ''method'') of
            Inl e \<Rightarrow> Inr (quit (what env e))
          | Inr m \<Rightarrow>
              (case as_array (obj_sub abi (c_str m)) of
                 Inl e \<Rightarrow> Inr (quit (what env e))
               | Inr required_args \<Rightarrow>
                   bind_vm (addTxContextToArgsMaybe (py_keccak env) required_args args t) (\<lambda>args'.
                     Inr (caught_quit env (run_method env py_code (c_str m) required_args args' stg))))))"

section \<open>Python transactions\<close>

text \<open>
  \<open>deployPyContract\<close> and \<open>invokePyContract\<close> may throw; their only caller is \<open>noexcept\<close>.
\<close>

definition deployPyContract :: "py_env \<Rightarrow> Tx \<Rightarrow> (Acn \<times> bytes) vm" where
  "deployPyContract env t =
     (let py_code = toString (tx_data t) in
      bind_vm (no_except (verifyPyContract env py_code)) (\<lambda>r.
      case r of
        None \<Rightarrow> Inr (Acn_default, [])
      | Some abi \<Rightarrow>
          bind_vm (no_except (bind_result (or_error (json_parse (py_json env) abi)) as_object)) (\<lambda>abi_json.
          let a = (Acn_ctor (tx_nonce t) (tx_data t))\<lparr>disk_storage := [abi]\<rparr> in
          if map_of abi_json ''init'' \<noteq> None then
            bind_vm (invokePyMethod env [(''method'', JStr ''init'')] py_code abi_json t (JObj [])) (\<lambda>r.
              if map_of r ''quit'' \<noteq> None then Inr (Acn_default, [])
              else if map_of r ''storage'' \<noteq> None then
                Inr (a\<lparr>disk_storage := [abi, json_serialize (py_json env) (obj_sub r ''storage'')]\<rparr>,
                     bytesFromString (json_serialize (py_json env) (JObj (obj_erase ''storage'' r))))
              else
                Inr (a\<lparr>disk_storage := [abi, ''{}'']\<rparr>, bytesFromString (json_serialize (py_json env) (JObj r))))
          else Inr (a\<lparr>disk_storage := [abi, ''{}'']\<rparr>, []))))"

definition invokePyContract :: "py_env \<Rightarrow> Acn \<Rightarrow> (string \<times> json) list \<Rightarrow> Tx \<Rightarrow> (Acn option \<times> bytes) vm" where
  "invokePyContract env a iv t =
     (case disk_storage a of
        abi_s # storage_s # etc \<Rightarrow>
          (case json_parse (py_json env) abi_s of
             Some (JObj abi) \<Rightarrow>
               bind_vm (no_except (bind_result (jat iv ''method'') as_string)) (\<lambda>m.
               if map_of abi m = None then Inr (None, [])
               else
                 (case json_parse (py_json env) storage_s of
                    None \<Rightarrow> Inr (None, [])
                  | Some stg \<Rightarrow>
                      bind_vm (invokePyMethod env iv (toString (code a)) abi t stg) (\<lambda>r.
                      if map_of r ''quit'' \<noteq> None then
                        bind_vm (no_except (as_string (obj_sub r ''quit''))) (\<lambda>msg. Inr (None, []))
                      else if map_of r ''storage'' \<noteq> None then
                        Inr (Some (a\<lparr>disk_storage := abi_s # json_serialize (py_json env) (obj_sub r ''storage'') # etc\<rparr>),
                             bytesFromString (json_serialize (py_json env) (JObj (obj_erase ''storage'' r))))
                      else Inr (None, bytesFromString (json_serialize (py_json env) (JObj r))))))
           | _ \<Rightarrow> Inr (None, []))
      | _ \<Rightarrow> Inr (None, []))"

definition store_acn :: "py_env \<Rightarrow> address \<Rightarrow> Acn \<Rightarrow> StateChange" where
  "store_acn env addr a = \<lparr>del = False, sc_k = addressToString addr, sc_v = toPbString (py_codec env) Acn_toPb a\<rparr>"

definition executePyTx :: "py_env \<Rightarrow> (address \<Rightarrow> Acn option) \<Rightarrow> Tx \<Rightarrow> (StateChange list \<times> bytes) option vm" where
  "executePyTx env w t =
     (if tx_to t = replicate 20 0 then
        bind_vm (deployPyContract env t) (\<lambda>(a, res). Inr (Some ([store_acn env (getContractDeployAddress t) a], res)))
      else
        (case json_parse (py_json env) (toString (tx_data t)) of
           Some (JObj iv) \<Rightarrow>
             (case map_of iv ''method'' of
                Some (JStr m) \<Rightarrow>
                  (case w (tx_to t) of
                     None \<Rightarrow> Inr None
                   | Some a \<Rightarrow>
                       bind_vm (invokePyContract env a iv t) (\<lambda>(ao1, res).
                         Inr (Some (case ao1 of None \<Rightarrow> [] | Some a1 \<Rightarrow> [store_acn env (tx_to t) a1], res))))
              | _ \<Rightarrow> Inr None)
         | _ \<Rightarrow> Inr None))"

section \<open>Div2Executor\<close>

definition executeDataTx :: "(address \<Rightarrow> Acn option) \<Rightarrow> Tx \<Rightarrow> (StateChange list \<times> bytes) option" where
  "executeDataTx w t = Some ([], [])"

text \<open>\<open>py\<close> is \<open>None\<close> in a build without Python; the counter \<open>n\<close> is the one of the virtual machine.\<close>

definition Div2_executeTx :: "py_env option \<Rightarrow> PbAcn pb_codec \<Rightarrow> keccak256 \<Rightarrow> nat \<Rightarrow> nat \<Rightarrow> (address \<Rightarrow> Acn option) \<Rightarrow> u64 \<Rightarrow> Tx
    \<Rightarrow> ((StateChange list \<times> bytes) option \<times> u64) vm" where
  "Div2_executeTx py c keccak fuel d w n t =
     (case tx_type t of
        Data \<Rightarrow> Inr (executeDataTx w t, n)
      | Python \<Rightarrow>
          (case py of
             None \<Rightarrow> Inr (None, n)
           | Some env \<Rightarrow> bind_vm (executePyTx env w t) (\<lambda>r. Inr (r, n)))
      | Evm \<Rightarrow> executeTx c keccak fuel d w n t)"

section \<open>How long a child runs\<close>

lemma wait_loop_iff: "wait_loop running i n \<longleftrightarrow> (\<forall>k < n. running (i + k))"
proof (induction n arbitrary: i)
  case (Suc n)
  have "(\<forall>k < Suc n. running (i + k)) \<longleftrightarrow> running i \<and> (\<forall>k < n. running (Suc i + k))"
    by (auto simp: All_less_Suc2)
  with Suc show ?case by simp
qed simp

text \<open>A child is killed exactly when it is still running at each of the polls, one per millisecond.\<close>

lemma wait_for_and_terminate_iff:
  "wait_for_and_terminate c s \<longleftrightarrow> 0 < s \<and> (\<forall>k \<le> nat (s * 1000). polls c k)"
proof (cases "0 < s")
  case True
  have "(\<forall>k \<le> n. polls c k) \<longleftrightarrow> polls c 0 \<and> (\<forall>k < n. polls c (Suc k))" for n
    by (metis (no_types) Suc_le_eq le0 old.nat.exhaust)
  with True show ?thesis by (simp add: wait_for_and_terminate_def wait_loop_iff)
qed (simp add: wait_for_and_terminate_def)

section \<open>Arguments are matched exactly\<close>

lemma mset_obj_erase: "k \<in> fst ` set o1 \<Longrightarrow> mset (map fst (obj_erase k o1)) = mset (map fst o1) - {#k#}"
proof (induction o1)
  case (Cons p o1)
  obtain k' v where p: "p = (k', v)" by force
  have "mset (map fst (last o1 # butlast o1)) = mset (map fst o1)" if "o1 \<noteq> []"
    by (metis append_butlast_last_id mset.simps(2) mset_append mset_map mset.simps(1) add_mset_add_single that)
  with Cons p show ?case by (cases "k' = k") auto
qed simp

text \<open>The declared parameters that the caller has to give.\<close>

definition needed :: "string list \<Rightarrow> string list" where
  "needed ps = filter (\<lambda>p. \<not> prefix ''_'' p) ps"

lemma use_args_exact: "use_args (map JStr ps) args = Inr (Inr []) \<longleftrightarrow> mset (needed ps) = mset (map fst args)"
proof (induction ps arbitrary: args)
  case (Cons p ps)
  show ?case
  proof (cases "prefix ''_'' p")
    case False
    show ?thesis
    proof (cases "map_of args p")
      case None
      then have "p \<notin># mset (map fst args)" by (simp add: map_of_eq_None_iff)
      then have "mset (needed (p # ps)) \<noteq> mset (map fst args)" using False by (metis filter.simps(2) needed_def mset.simps(2) union_single_eq_member add_mset_add_single)
      with False None show ?thesis by simp
    next
      case (Some v)
      then have "p \<in> fst ` set args" by (metis map_of_SomeD fst_conv image_eqI)
      moreover then have "p \<in># mset (map fst args)" by simp
      then have "add_mset p M = mset (map fst args) \<longleftrightarrow> M = mset (map fst args) - {#p#}" for M
        by (metis add_mset_remove_trivial insert_DiffM)
      moreover have "mset (needed (p # ps)) = add_mset p (mset (needed ps))" using False by (simp add: needed_def)
      ultimately show ?thesis
        using False Some Cons [of "obj_erase p args"] mset_obj_erase [of p args] by simp
    qed
  qed (use Cons in \<open>simp add: needed_def\<close>)
qed (auto simp: needed_def)

lemma json_contains_strs [simp]: "json_contains (map JStr ps) s = Inr (s \<in> set ps)"
  by (induction ps) auto

lemma no_except_Inr [simp]: "no_except (Inr y) = Inr y"
  by (simp add: no_except_def)

lemma c_str_id [simp]: "CHR 0x00 \<notin> set m \<Longrightarrow> c_str m = m"
  by (auto simp: c_str_def takeWhile_eq_all_conv)

lemma checkAndPrepareArgs_exact:
  assumes "map_of iv ''method'' = Some (JStr m)" "CHR 0x00 \<notin> set m" "map_of iv ''args'' = Some (JObj args)"
    and "map_of abi m = Some (JArr (map JStr ps))" "mset (needed ps) = mset (map fst args)"
  shows "checkAndPrepareArgs jt iv abi = Inr args"
  using assms use_args_exact [of ps args] by (simp add: checkAndPrepareArgs_def obj_sub_def Let_def match_args_def)

section \<open>What a call does\<close>

text \<open>The arguments the method is started with: those of the caller, and the special ones it declares.\<close>

definition started_args :: "py_env \<Rightarrow> string list \<Rightarrow> (string \<times> json) list \<Rightarrow> Tx \<Rightarrow> json \<Rightarrow> (string \<times> json) list" where
  "started_args env ps args t stg =
     (let args1 = (if ''_tx_context'' \<in> set ps then AList.update ''_tx_context'' (tx_context (py_keccak env) t) args else args)
      in if ''_storage'' \<in> set ps then AList.update ''_storage'' stg args1 else args1)"

definition call_files :: "py_env \<Rightarrow> string \<Rightarrow> string \<Rightarrow> (string \<times> json) list \<Rightarrow> dir" where
  "call_files env py_code m args =
     [''args.json'' \<mapsto> json_serialize (py_json env) (JObj args), ''hi-tmp.py'' \<mapsto> makePyTxCode py_code (PY_INVOKE_TEMPLATE env) m]"

definition child_output :: "child \<Rightarrow> string" where
  "child_output c = concat (take (heard c) (listen (listener_polls c) 0 (out_lines c)))"

lemma run_method_ok:
  assumes "launch env (call_files env py_code m (started_args env ps args t stg)) = Some c" "k \<le> 3000" "\<not> polls c k" "exit_code c = 0"
    and "files_after c ''result.json'' = Some txt" "json_parse (py_json env) txt = Some (JObj result)"
    and "args1 = (if ''_tx_context'' \<in> set ps then AList.update ''_tx_context'' (tx_context (py_keccak env) t) args else args)"
  shows "run_method env py_code m (map JStr ps) args1 stg =
    Inr ([(''result'', obj_sub result ''result'')]
      @ (if map_of result ''storage'' \<noteq> None \<and> \<not> json_equal (obj_sub result ''storage'') stg then [(''storage'', obj_sub result ''storage'')] else [])
      @ [(''log'', JStr (child_output c))])"
proof -
  have "\<not> wait_for_and_terminate c 3" using assms(2,3) by (auto simp: wait_for_and_terminate_iff)
  moreover have "launch env [''args.json'' \<mapsto> json_serialize (py_json env) (JObj (if ''_storage'' \<in> set ps then AList.update ''_storage'' stg args1 else args1)),
      ''hi-tmp.py'' \<mapsto> makePyTxCode py_code (PY_INVOKE_TEMPLATE env) m] = Some c"
    using assms(1) unfolding call_files_def started_args_def assms(7) Let_def by simp
  ultimately show ?thesis
    using assms(4-6) by (simp add: run_method_def exec_py_def exec0_def prepareWorkingDir_def Let_def readAllText_def child_output_def)
qed

text \<open>
  C13. What a call of a Python contract does. Let the request name a method of the stored interface, give exactly the
  parameters the method declares without an underscore, and let the child process end within three
  seconds with code 0 and leave a result object. Then the method was started with those
  arguments and the transaction context and storage it declares; the receipt holds its result and output; and the
  journal is empty when the storage came back equal, and otherwise replaces the stored storage of that account
  and nothing else.
\<close>

theorem py_call_effect:
  assumes "tx_to t \<noteq> replicate 20 0" "json_parse (py_json env) (toString (tx_data t)) = Some (JObj iv)"
    and "map_of iv ''method'' = Some (JStr m)" "CHR 0x00 \<notin> set m" "map_of iv ''args'' = Some (JObj args)"
    and "w (tx_to t) = Some a" "disk_storage a = abi_s # stg_s # etc" "json_parse (py_json env) abi_s = Some (JObj abi)"
    and "map_of abi m = Some (JArr (map JStr ps))" "mset (needed ps) = mset (map fst args)" "''quit'' \<notin> set ps"
    and "json_parse (py_json env) stg_s = Some stg"
    and "launch env (call_files env (toString (code a)) m (started_args env ps args t stg)) = Some c"
    and "k \<le> 3000" "\<not> polls c k" "exit_code c = 0"
    and "files_after c ''result.json'' = Some txt" "json_parse (py_json env) txt = Some (JObj result)"
  shows "executePyTx env w t = Inr (Some
    (if map_of result ''storage'' \<noteq> None \<and> \<not> json_equal (obj_sub result ''storage'') stg
     then [store_acn env (tx_to t) (a\<lparr>disk_storage := abi_s # json_serialize (py_json env) (obj_sub result ''storage'') # etc\<rparr>)] else [],
     bytesFromString (json_serialize (py_json env) (JObj [(''result'', obj_sub result ''result''), (''log'', JStr (child_output c))]))))"
proof -
  have "''quit'' \<notin> set (map fst args)"
    using assms(10,11) by (metis needed_def mset_filter set_mset_mset filter_is_subset subsetD)
  then have q: "map_of args ''quit'' = None" by (simp add: map_of_eq_None_iff)
  have "invokePyMethod env iv (toString (code a)) abi t stg =
    Inr ([(''result'', obj_sub result ''result'')]
      @ (if map_of result ''storage'' \<noteq> None \<and> \<not> json_equal (obj_sub result ''storage'') stg then [(''storage'', obj_sub result ''storage'')] else [])
      @ [(''log'', JStr (child_output c))])"
    using checkAndPrepareArgs_exact [OF assms(3-5,9,10)] q assms(3,4,9) run_method_ok [OF assms(13-18) refl]
    by (simp add: invokePyMethod_def obj_sub_def [of iv] obj_sub_def [of abi] addTxContextToArgsMaybe_def caught_quit_def del: append.simps)
  then show ?thesis
    using assms(1-3,6-9,12) by (simp add: executePyTx_def invokePyContract_def jat_def obj_sub_def split: option.splits)
qed

text \<open>A sample contract: method \<open>add\<close> with a parameter \<open>x\<close> and the storage, called on storage 1, which becomes 2.\<close>

definition demo_child :: child where
  "demo_child = \<lparr>polls = (\<lambda>k. k < 20), listener_polls = (\<lambda>_. True), out_lines = [''hi''], heard = 1, exit_code = 0,
     files_after = [''result.json'' \<mapsto> ''res'']\<rparr>"

definition demo_py_parse :: "json \<Rightarrow> string \<Rightarrow> string \<Rightarrow> json option" where
  "demo_py_parse v p s =
     map_of [(''call'', JObj [(''method'', JStr ''add''), (''args'', JObj [(p, v)])]),
             (''abi'', JObj [(''add'', JArr [JStr p, JStr ''_storage''])]), (''one'', JInt 1),
             (''res'', JObj [(''result'', JNull), (''storage'', JInt 2)])] s"

definition demo_py :: "json \<Rightarrow> string \<Rightarrow> py_env" where
  "demo_py v p = \<lparr>launch = (\<lambda>_. Some demo_child), py_json = \<lparr>json_parse = demo_py_parse v p, json_serialize = (\<lambda>_. ''two'')\<rparr>,
     py_codec = demo_codec (Acn_toPb Acn_default), py_keccak = demo_keccak, PY_VERIFIER_CONTENT = [], PY_INVOKE_TEMPLATE = ''METHOD'', what = (\<lambda>_. [])\<rparr>"

definition demo_py_tx :: Tx where
  "demo_py_tx = (Tx_ctor 7 (makeAddress 1) (makeAddress 2) (bytesFromString ''call'') 1 Python)\<lparr>tx_type := Python\<rparr>"

definition demo_py_world :: "address \<Rightarrow> Acn option" where
  "demo_py_world _ = Some ((Acn_ctor 0 [])\<lparr>disk_storage := [''abi'', ''one'']\<rparr>)"

lemma demo_py_simps [simp]:
  "json_parse (py_json (demo_py v p)) = demo_py_parse v p" "json_serialize (py_json (demo_py v p)) = (\<lambda>_. ''two'')"
  "launch (demo_py v p) = (\<lambda>_. Some demo_child)" "tx_to demo_py_tx \<noteq> replicate 20 0" "toString (tx_data demo_py_tx) = ''call''"
  "tx_type demo_py_tx = Python"
proof -
  have "makeAddress 2 \<noteq> replicate 20 0" by code_simp
  then show "tx_to demo_py_tx \<noteq> replicate 20 0" by (simp add: demo_py_tx_def Tx_ctor_def)
qed (simp_all add: demo_py_def demo_py_tx_def Tx_ctor_def)

theorem py_call_effect_witness:
  "executePyTx (demo_py (JInt 5) ''x'') demo_py_world demo_py_tx =
     Inr (Some ([store_acn (demo_py (JInt 5) ''x'') (tx_to demo_py_tx) ((Acn_ctor 0 [])\<lparr>disk_storage := [''abi'', ''two'']\<rparr>)], bytesFromString ''two''))"
  using py_call_effect [of demo_py_tx "demo_py (JInt 5) ''x''" "[(''method'', JStr ''add''), (''args'', JObj [(''x'', JInt 5)])]" "''add''"
      "[(''x'', JInt 5)]" demo_py_world "(Acn_ctor 0 [])\<lparr>disk_storage := [''abi'', ''one'']\<rparr>" "''abi''" "''one''" "[]"
      "[(''add'', JArr [JStr ''x'', JStr ''_storage''])]" "[''x'', ''_storage'']" "JInt 1" demo_child 20 "''res''" "[(''result'', JNull), (''storage'', JInt 2)]"]
  by (simp add: demo_py_parse_def demo_py_world_def demo_child_def needed_def obj_sub_def)

section \<open>What a call leaves alone\<close>

text \<open>The account a Python transaction is about.\<close>

definition own_account :: "Tx \<Rightarrow> address" where
  "own_account t = (if tx_to t = replicate 20 0 then getContractDeployAddress t else tx_to t)"

lemma invokePyContract_acn:
  assumes "invokePyContract env a iv t = Inr (Some a', res)"
  shows "\<exists>s. a' = a\<lparr>disk_storage := (disk_storage a)[1 := s]\<rparr>"
  using assms by (auto simp: invokePyContract_def bind_vm_Inr_iff split: list.splits option.splits json.splits if_splits)

lemma executePyTx_journal:
  assumes "executePyTx env w t = Inr (Some (js, res))"
  shows "js = [] \<or> (\<exists>a'. js = [store_acn env (own_account t) a'] \<and>
     (tx_to t \<noteq> replicate 20 0 \<longrightarrow> (\<exists>a s. w (tx_to t) = Some a \<and> a' = a\<lparr>disk_storage := (disk_storage a)[1 := s]\<rparr>)))"
proof (cases "tx_to t = replicate 20 0")
  case False
  then obtain iv a ao where "w (tx_to t) = Some a" "invokePyContract env a iv t = Inr (ao, res)"
    "js = (case ao of None \<Rightarrow> [] | Some a1 \<Rightarrow> [store_acn env (tx_to t) a1])"
    using assms by (auto simp: executePyTx_def bind_vm_Inr_iff split: option.splits json.splits)
  then show ?thesis using invokePyContract_acn [of env a iv t _ res] False by (cases ao) (auto simp: own_account_def)
qed (use assms in \<open>auto simp: executePyTx_def own_account_def bind_vm_Inr_iff\<close>)

text \<open>
  A deployment that the verifier refuses is not a failure: it stores an empty account at the deployment address,
  whatever was there.
\<close>

lemma refused_deployment_stores_empty_account:
  assumes "tx_to t = replicate 20 0" "verifyPyContract env (toString (tx_data t)) = Inr None"
  shows "executePyTx env w t = Inr (Some ([store_acn env (getContractDeployAddress t) Acn_default], []))"
  using assms by (simp add: executePyTx_def deployPyContract_def Let_def)

text \<open>
  C14. A transaction that is not for the virtual machine touches its own account only. Whatever the Python
  process does, the journal of a Python transaction is empty or stores the one account it deploys or calls, a call changes
  nothing of that account but its storage text, and a data transaction changes nothing; so every other key of
  the state keeps its value, and the counter of the virtual machine stays.
\<close>

theorem exotic_tx_touches_own_account:
  assumes "Div2_executeTx py c keccak fuel d w n t = Inr (Some (js, res), n')" "tx_type t \<noteq> Evm"
  shows "n' = n \<and> (tx_type t = Data \<longrightarrow> js = []) \<and> (\<forall>m k. k \<noteq> addressToString (own_account t) \<longrightarrow> journal_map js m k = m k) \<and>
    (\<forall>ch \<in> set js. \<not> del ch \<and> (tx_to t \<noteq> replicate 20 0 \<longrightarrow> (\<exists>env a s. py = Some env \<and> w (tx_to t) = Some a \<and>
       sc_v ch = toPbString (py_codec env) Acn_toPb (a\<lparr>disk_storage := (disk_storage a)[1 := s]\<rparr>))))"
proof (cases "tx_type t")
  case Python
  then obtain env where env: "py = Some env" "executePyTx env w t = Inr (Some (js, res))" "n' = n"
    using assms(1) by (auto simp: Div2_executeTx_def bind_vm_def split: option.splits sum.splits)
  from executePyTx_journal [OF env(2)] show ?thesis
    using Python env(1,3) by (auto simp: store_acn_def journal_map_def change_map_def)
qed (use assms in \<open>auto simp: Div2_executeTx_def executeDataTx_def journal_map_def\<close>)

theorem exotic_tx_touches_own_account_witness:
  "\<exists>js. Div2_executeTx (Some (demo_py JNull [])) (demo_codec (Acn_toPb Acn_default)) demo_keccak 0 0 demo_py_world 0
       (demo_py_tx\<lparr>tx_to := replicate 20 0\<rparr>) = Inr (Some (js, []), 0) \<and> js \<noteq> [] \<and>
     journal_map js [''other'' \<mapsto> ''v''] ''other'' = [''other'' \<mapsto> ''v''] ''other''"
proof -
  let ?t = "demo_py_tx\<lparr>tx_to := replicate 20 0\<rparr>"
  let ?js = "[store_acn (demo_py JNull []) (getContractDeployAddress ?t) Acn_default]"
  have "\<not> wait_for_and_terminate demo_child 5"
    by (auto simp: wait_for_and_terminate_iff demo_child_def intro!: exI [of _ 20])
  then have "verifyPyContract (demo_py JNull []) (toString (tx_data ?t)) = Inr None"
    by (simp add: verifyPyContract_def exec_py_def exec0_def demo_child_def)
  then have run: "Div2_executeTx (Some (demo_py JNull [])) (demo_codec (Acn_toPb Acn_default)) demo_keccak 0 0 demo_py_world 0 ?t =
      Inr (Some (?js, []), 0)"
    by (simp add: Div2_executeTx_def refused_deployment_stores_empty_account)
  have "''other'' \<noteq> addressToString (own_account ?t)" by code_simp
  with exotic_tx_touches_own_account [OF run] run show ?thesis by (intro exI [of _ ?js]) simp
qed

section \<open>Refusals\<close>

text \<open>
  A parameter with the name \<open>quit\<close> ends the node. The code marks a refused call by the key \<open>quit\<close> in the object it
  otherwise returns the arguments in. A call that gives a parameter of that name a value which is not a
  text is accepted by the argument check, taken for a refusal, and its value is read as a message: the exception leaves
  a \<open>noexcept\<close> function, on every node that executes the block.
\<close>

theorem quit_parameter_ends_node:
  assumes "tx_type t = Python" "tx_to t \<noteq> replicate 20 0" "json_parse (py_json env) (toString (tx_data t)) = Some (JObj iv)"
    and "map_of iv ''method'' = Some (JStr m)" "CHR 0x00 \<notin> set m" "map_of iv ''args'' = Some (JObj args)"
    and "w (tx_to t) = Some a" "disk_storage a = abi_s # stg_s # etc" "json_parse (py_json env) abi_s = Some (JObj abi)"
    and "map_of abi m = Some (JArr (map JStr ps))" "mset (needed ps) = mset (map fst args)" "json_parse (py_json env) stg_s = Some stg"
    and "map_of args ''quit'' = Some v" "\<And>s. v \<noteq> JStr s"
  shows "Div2_executeTx (Some env) c keccak fuel d w n t = Inl Process_exit"
proof -
  have "as_string v = Inl Runtime_error" using assms(14) by (cases v) auto
  moreover have "invokePyMethod env iv (toString (code a)) abi t stg = Inr args"
    using checkAndPrepareArgs_exact [OF assms(4-6,10,11)] assms(13) by (simp add: invokePyMethod_def)
  ultimately have "executePyTx env w t = Inl Process_exit"
    using assms(2-4,7-10,12,13) by (simp add: executePyTx_def invokePyContract_def jat_def obj_sub_def no_except_def)
  then show ?thesis using assms(1) by (simp add: Div2_executeTx_def)
qed

theorem quit_parameter_ends_node_witness:
  "Div2_executeTx (Some (demo_py (JInt 5) ''quit'')) (demo_codec (Acn_toPb Acn_default)) demo_keccak 0 0 demo_py_world 0 demo_py_tx = Inl Process_exit"
  by (rule quit_parameter_ends_node [of demo_py_tx "demo_py (JInt 5) ''quit''" "[(''method'', JStr ''add''), (''args'', JObj [(''quit'', JInt 5)])]" "''add''"
      "[(''quit'', JInt 5)]" demo_py_world "(Acn_ctor 0 [])\<lparr>disk_storage := [''abi'', ''one'']\<rparr>" "''abi''" "''one''" "[]"
      "[(''add'', JArr [JStr ''quit'', JStr ''_storage''])]" "[''quit'', ''_storage'']" "JInt 1" "JInt 5"])
    (simp_all add: demo_py_parse_def demo_py_world_def needed_def)

end
