(* ===== verification/EvmMetrics.thy ===== *)
theory EvmMetrics
  imports EvmTables
begin

text \<open>
  The instruction tables of the EVMC library (\<^verbatim>\<open>evmc-10.1.0/lib/instructions/instruction_metrics.c\<close> and
  \<^verbatim>\<open>instruction_names.c\<close>): for every revision, the base cost of each of the 256 opcodes with the stack height it needs and
  the change it makes, and its name. They are a second, independent account of the tables that the interpreter uses.
\<close>

section \<open>Metrics\<close>

text \<open>\<open>gas_cost\<close>, \<open>stack_height_required\<close>, \<open>stack_height_change\<close>; the names of the cost tiers are replaced by their values.\<close>

type_synonym metrics = "int \<times> int \<times> int"

definition prague_metrics :: "metrics list" where
  "prague_metrics =
    [(0, 0, 0), (3, 2, - 1), (5, 2, - 1), (3, 2, - 1), (5, 2, - 1), (5, 2, - 1), (5, 2, - 1), (5, 2, - 1),
     (8, 3, - 2), (8, 3, - 2), (10, 2, - 1), (5, 2, - 1), (0, 0, 0), (0, 0, 0), (0, 0, 0), (0, 0, 0),
     (3, 2, - 1), (3, 2, - 1), (3, 2, - 1), (3, 2, - 1), (3, 2, - 1), (3, 1, 0), (3, 2, - 1), (3, 2, - 1),
     (3, 2, - 1), (3, 1, 0), (3, 2, - 1), (3, 2, - 1), (3, 2, - 1), (3, 2, - 1), (0, 0, 0), (0, 0, 0),
     (30, 2, - 1), (0, 0, 0), (0, 0, 0), (0, 0, 0), (0, 0, 0), (0, 0, 0), (0, 0, 0), (0, 0, 0),
     (0, 0, 0), (0, 0, 0), (0, 0, 0), (0, 0, 0), (0, 0, 0), (0, 0, 0), (0, 0, 0), (0, 0, 0),
     (2, 0, 1), (100, 1, 0), (2, 0, 1), (2, 0, 1), (2, 0, 1), (3, 1, 0), (2, 0, 1), (3, 3, - 3),
     (2, 0, 1), (3, 3, - 3), (2, 0, 1), (100, 1, 0), (100, 4, - 4), (2, 0, 1), (3, 3, - 3), (100, 1, 0),
     (20, 1, 0), (2, 0, 1), (2, 0, 1), (2, 0, 1), (2, 0, 1), (2, 0, 1), (2, 0, 1), (5, 0, 1),
     (2, 0, 1), (0, 0, 0), (0, 0, 0), (0, 0, 0), (0, 0, 0), (0, 0, 0), (0, 0, 0), (0, 0, 0),
     (2, 1, - 1), (3, 1, 0), (3, 2, - 2), (3, 2, - 2), (100, 1, 0), (0, 2, - 2), (8, 1, - 1), (10, 2, - 2),
     (2, 0, 1), (2, 0, 1), (2, 0, 1), (1, 0, 0), (0, 0, 0), (0, 0, 0), (0, 0, 0), (2, 0, 1),
     (3, 0, 1), (3, 0, 1), (3, 0, 1), (3, 0, 1), (3, 0, 1), (3, 0, 1), (3, 0, 1), (3, 0, 1),
     (3, 0, 1), (3, 0, 1), (3, 0, 1), (3, 0, 1), (3, 0, 1), (3, 0, 1), (3, 0, 1), (3, 0, 1),
     (3, 0, 1), (3, 0, 1), (3, 0, 1), (3, 0, 1), (3, 0, 1), (3, 0, 1), (3, 0, 1), (3, 0, 1),
     (3, 0, 1), (3, 0, 1), (3, 0, 1), (3, 0, 1), (3, 0, 1), (3, 0, 1), (3, 0, 1), (3, 0, 1),
     (3, 1, 1), (3, 2, 1), (3, 3, 1), (3, 4, 1), (3, 5, 1), (3, 6, 1), (3, 7, 1), (3, 8, 1),
     (3, 9, 1), (3, 10, 1), (3, 11, 1), (3, 12, 1), (3, 13, 1), (3, 14, 1), (3, 15, 1), (3, 16, 1),
     (3, 2, 0), (3, 3, 0), (3, 4, 0), (3, 5, 0), (3, 6, 0), (3, 7, 0), (3, 8, 0), (3, 9, 0),
     (3, 10, 0), (3, 11, 0), (3, 12, 0), (3, 13, 0), (3, 14, 0), (3, 15, 0), (3, 16, 0), (3, 17, 0),
     (375, 2, - 2), (750, 3, - 3), (1125, 4, - 4), (1500, 5, - 5), (1875, 6, - 6), (0, 0, 0), (0, 0, 0), (0, 0, 0),
     (0, 0, 0), (0, 0, 0), (0, 0, 0), (0, 0, 0), (0, 0, 0), (0, 0, 0), (0, 0, 0), (0, 0, 0),
     (0, 0, 0), (0, 0, 0), (0, 0, 0), (0, 0, 0), (0, 0, 0), (0, 0, 0), (0, 0, 0), (0, 0, 0),
     (0, 0, 0), (0, 0, 0), (0, 0, 0), (0, 0, 0), (0, 0, 0), (0, 0, 0), (0, 0, 0), (0, 0, 0),
     (0, 0, 0), (0, 0, 0), (0, 0, 0), (0, 0, 0), (0, 0, 0), (0, 0, 0), (0, 0, 0), (0, 0, 0),
     (0, 0, 0), (0, 0, 0), (0, 0, 0), (0, 0, 0), (0, 0, 0), (0, 0, 0), (0, 0, 0), (0, 0, 0),
     (0, 0, 0), (0, 0, 0), (0, 0, 0), (0, 0, 0), (0, 0, 0), (0, 0, 0), (0, 0, 0), (0, 0, 0),
     (0, 0, 0), (0, 0, 0), (0, 0, 0), (0, 0, 0), (0, 0, 0), (0, 0, 0), (0, 0, 0), (0, 0, 0),
     (0, 0, 0), (0, 0, 0), (0, 0, 0), (0, 0, 0), (0, 0, 0), (0, 0, 0), (0, 0, 0), (0, 0, 0),
     (0, 0, 0), (0, 0, 0), (0, 0, 0), (0, 0, 0), (0, 0, 0), (0, 0, 0), (0, 0, 0), (0, 0, 0),
     (32000, 3, - 2), (100, 7, - 6), (100, 7, - 6), (0, 2, - 2), (100, 6, - 5), (32000, 4, - 3), (0, 0, 0), (0, 0, 0),
     (0, 0, 0), (0, 0, 0), (100, 6, - 5), (0, 0, 0), (0, 0, 0), (0, 2, - 2), (0, 0, 0), (5000, 1, - 1)]"

definition cancun_metrics :: "metrics list" where
  "cancun_metrics =
    [(0, 0, 0), (3, 2, - 1), (5, 2, - 1), (3, 2, - 1), (5, 2, - 1), (5, 2, - 1), (5, 2, - 1), (5, 2, - 1),
     (8, 3, - 2), (8, 3, - 2), (10, 2, - 1), (5, 2, - 1), (0, 0, 0), (0, 0, 0), (0, 0, 0), (0, 0, 0),
     (3, 2, - 1), (3, 2, - 1), (3, 2, - 1), (3, 2, - 1), (3, 2, - 1), (3, 1, 0), (3, 2, - 1), (3, 2, - 1),
     (3, 2, - 1), (3, 1, 0), (3, 2, - 1), (3, 2, - 1), (3, 2, - 1), (3, 2, - 1), (0, 0, 0), (0, 0, 0),
     (30, 2, - 1), (0, 0, 0), (0, 0, 0), (0, 0, 0), (0, 0, 0), (0, 0, 0), (0, 0, 0), (0, 0, 0),
     (0, 0, 0), (0, 0, 0), (0, 0, 0), (0, 0, 0), (0, 0, 0), (0, 0, 0), (0, 0, 0), (0, 0, 0),
     (2, 0, 1), (100, 1, 0), (2, 0, 1), (2, 0, 1), (2, 0, 1), (3, 1, 0), (2, 0, 1), (3, 3, - 3),
     (2, 0, 1), (3, 3, - 3), (2, 0, 1), (100, 1, 0), (100, 4, - 4), (2, 0, 1), (3, 3, - 3), (100, 1, 0),
     (20, 1, 0), (2, 0, 1), (2, 0, 1), (2, 0, 1), (2, 0, 1), (2, 0, 1), (2, 0, 1), (5, 0, 1),
     (2, 0, 1), (0, 0, 0), (0, 0, 0), (0, 0, 0), (0, 0, 0), (0, 0, 0), (0, 0, 0), (0, 0, 0),
     (2, 1, - 1), (3, 1, 0), (3, 2, - 2), (3, 2, - 2), (100, 1, 0), (0, 2, - 2), (8, 1, - 1), (10, 2, - 2),
     (2, 0, 1), (2, 0, 1), (2, 0, 1), (1, 0, 0), (0, 0, 0), (0, 0, 0), (0, 0, 0), (2, 0, 1),
     (3, 0, 1), (3, 0, 1), (3, 0, 1), (3, 0, 1), (3, 0, 1), (3, 0, 1), (3, 0, 1), (3, 0, 1),
     (3, 0, 1), (3, 0, 1), (3, 0, 1), (3, 0, 1), (3, 0, 1), (3, 0, 1), (3, 0, 1), (3, 0, 1),
     (3, 0, 1), (3, 0, 1), (3, 0, 1), (3, 0, 1), (3, 0, 1), (3, 0, 1), (3, 0, 1), (3, 0, 1),
     (3, 0, 1), (3, 0, 1), (3, 0, 1), (3, 0, 1), (3, 0, 1), (3, 0, 1), (3, 0, 1), (3, 0, 1),
     (3, 1, 1), (3, 2, 1), (3, 3, 1), (3, 4, 1), (3, 5, 1), (3, 6, 1), (3, 7, 1), (3, 8, 1),
     (3, 9, 1), (3, 10, 1), (3, 11, 1), (3, 12, 1), (3, 13, 1), (3, 14, 1), (3, 15, 1), (3, 16, 1),
     (3, 2, 0), (3, 3, 0), (3, 4, 0), (3, 5, 0), (3, 6, 0), (3, 7, 0), (3, 8, 0), (3, 9, 0),
     (3, 10, 0), (3, 11, 0), (3, 12, 0), (3, 13, 0), (3, 14, 0), (3, 15, 0), (3, 16, 0), (3, 17, 0),
     (375, 2, - 2), (750, 3, - 3), (1125, 4, - 4), (1500, 5, - 5), (1875, 6, - 6), (0, 0, 0), (0, 0, 0), (0, 0, 0),
     (0, 0, 0), (0, 0, 0), (0, 0, 0), (0, 0, 0), (0, 0, 0), (0, 0, 0), (0, 0, 0), (0, 0, 0),
     (0, 0, 0), (0, 0, 0), (0, 0, 0), (0, 0, 0), (0, 0, 0), (0, 0, 0), (0, 0, 0), (0, 0, 0),
     (0, 0, 0), (0, 0, 0), (0, 0, 0), (0, 0, 0), (0, 0, 0), (0, 0, 0), (0, 0, 0), (0, 0, 0),
     (0, 0, 0), (0, 0, 0), (0, 0, 0), (0, 0, 0), (0, 0, 0), (0, 0, 0), (0, 0, 0), (0, 0, 0),
     (0, 0, 0), (0, 0, 0), (0, 0, 0), (0, 0, 0), (0, 0, 0), (0, 0, 0), (0, 0, 0), (0, 0, 0),
     (0, 0, 0), (0, 0, 0), (0, 0, 0), (0, 0, 0), (0, 0, 0), (0, 0, 0), (0, 0, 0), (0, 0, 0),
     (0, 0, 0), (0, 0, 0), (0, 0, 0), (0, 0, 0), (0, 0, 0), (0, 0, 0), (0, 0, 0), (0, 0, 0),
     (0, 0, 0), (0, 0, 0), (0, 0, 0), (0, 0, 0), (0, 0, 0), (0, 0, 0), (0, 0, 0), (0, 0, 0),
     (0, 0, 0), (0, 0, 0), (0, 0, 0), (0, 0, 0), (0, 0, 0), (0, 0, 0), (0, 0, 0), (0, 0, 0),
     (32000, 3, - 2), (100, 7, - 6), (100, 7, - 6), (0, 2, - 2), (100, 6, - 5), (32000, 4, - 3), (0, 0, 0), (0, 0, 0),
     (0, 0, 0), (0, 0, 0), (100, 6, - 5), (0, 0, 0), (0, 0, 0), (0, 2, - 2), (0, 0, 0), (5000, 1, - 1)]"

definition shanghai_metrics :: "metrics list" where
  "shanghai_metrics =
    [(0, 0, 0), (3, 2, - 1), (5, 2, - 1), (3, 2, - 1), (5, 2, - 1), (5, 2, - 1), (5, 2, - 1), (5, 2, - 1),
     (8, 3, - 2), (8, 3, - 2), (10, 2, - 1), (5, 2, - 1), (0, 0, 0), (0, 0, 0), (0, 0, 0), (0, 0, 0),
     (3, 2, - 1), (3, 2, - 1), (3, 2, - 1), (3, 2, - 1), (3, 2, - 1), (3, 1, 0), (3, 2, - 1), (3, 2, - 1),
     (3, 2, - 1), (3, 1, 0), (3, 2, - 1), (3, 2, - 1), (3, 2, - 1), (3, 2, - 1), (0, 0, 0), (0, 0, 0),
     (30, 2, - 1), (0, 0, 0), (0, 0, 0), (0, 0, 0), (0, 0, 0), (0, 0, 0), (0, 0, 0), (0, 0, 0),
     (0, 0, 0), (0, 0, 0), (0, 0, 0), (0, 0, 0), (0, 0, 0), (0, 0, 0), (0, 0, 0), (0, 0, 0),
     (2, 0, 1), (100, 1, 0), (2, 0, 1), (2, 0, 1), (2, 0, 1), (3, 1, 0), (2, 0, 1), (3, 3, - 3),
     (2, 0, 1), (3, 3, - 3), (2, 0, 1), (100, 1, 0), (100, 4, - 4), (2, 0, 1), (3, 3, - 3), (100, 1, 0),
     (20, 1, 0), (2, 0, 1), (2, 0, 1), (2, 0, 1), (2, 0, 1), (2, 0, 1), (2, 0, 1), (5, 0, 1),
     (2, 0, 1), (0, 0, 0), (0, 0, 0), (0, 0, 0), (0, 0, 0), (0, 0, 0), (0, 0, 0), (0, 0, 0),
     (2, 1, - 1), (3, 1, 0), (3, 2, - 2), (3, 2, - 2), (100, 1, 0), (0, 2, - 2), (8, 1, - 1), (10, 2, - 2),
     (2, 0, 1), (2, 0, 1), (2, 0, 1), (1, 0, 0), (0, 0, 0), (0, 0, 0), (0, 0, 0), (2, 0, 1),
     (3, 0, 1), (3, 0, 1), (3, 0, 1), (3, 0, 1), (3, 0, 1), (3, 0, 1), (3, 0, 1), (3, 0, 1),
     (3, 0, 1), (3, 0, 1), (3, 0, 1), (3, 0, 1), (3, 0, 1), (3, 0, 1), (3, 0, 1), (3, 0, 1),
     (3, 0, 1), (3, 0, 1), (3, 0, 1), (3, 0, 1), (3, 0, 1), (3, 0, 1), (3, 0, 1), (3, 0, 1),
     (3, 0, 1), (3, 0, 1), (3, 0, 1), (3, 0, 1), (3, 0, 1), (3, 0, 1), (3, 0, 1), (3, 0, 1),
     (3, 1, 1), (3, 2, 1), (3, 3, 1), (3, 4, 1), (3, 5, 1), (3, 6, 1), (3, 7, 1), (3, 8, 1),
     (3, 9, 1), (3, 10, 1), (3, 11, 1), (3, 12, 1), (3, 13, 1), (3, 14, 1), (3, 15, 1), (3, 16, 1),
     (3, 2, 0), (3, 3, 0), (3, 4, 0), (3, 5, 0), (3, 6, 0), (3, 7, 0), (3, 8, 0), (3, 9, 0),
     (3, 10, 0), (3, 11, 0), (3, 12, 0), (3, 13, 0), (3, 14, 0), (3, 15, 0), (3, 16, 0), (3, 17, 0),
     (375, 2, - 2), (750, 3, - 3), (1125, 4, - 4), (1500, 5, - 5), (1875, 6, - 6), (0, 0, 0), (0, 0, 0), (0, 0, 0),
     (0, 0, 0), (0, 0, 0), (0, 0, 0), (0, 0, 0), (0, 0, 0), (0, 0, 0), (0, 0, 0), (0, 0, 0),
     (0, 0, 0), (0, 0, 0), (0, 0, 0), (0, 0, 0), (0, 0, 0), (0, 0, 0), (0, 0, 0), (0, 0, 0),
     (0, 0, 0), (0, 0, 0), (0, 0, 0), (0, 0, 0), (0, 0, 0), (0, 0, 0), (0, 0, 0), (0, 0, 0),
     (0, 0, 0), (0, 0, 0), (0, 0, 0), (0, 0, 0), (0, 0, 0), (0, 0, 0), (0, 0, 0), (0, 0, 0),
     (0, 0, 0), (0, 0, 0), (0, 0, 0), (0, 0, 0), (0, 0, 0), (0, 0, 0), (0, 0, 0), (0, 0, 0),
     (0, 0, 0), (0, 0, 0), (0, 0, 0), (0, 0, 0), (0, 0, 0), (0, 0, 0), (0, 0, 0), (0, 0, 0),
     (0, 0, 0), (0, 0, 0), (0, 0, 0), (0, 0, 0), (0, 0, 0), (0, 0, 0), (0, 0, 0), (0, 0, 0),
     (0, 0, 0), (0, 0, 0), (0, 0, 0), (0, 0, 0), (0, 0, 0), (0, 0, 0), (0, 0, 0), (0, 0, 0),
     (0, 0, 0), (0, 0, 0), (0, 0, 0), (0, 0, 0), (0, 0, 0), (0, 0, 0), (0, 0, 0), (0, 0, 0),
     (32000, 3, - 2), (100, 7, - 6), (100, 7, - 6), (0, 2, - 2), (100, 6, - 5), (32000, 4, - 3), (0, 0, 0), (0, 0, 0),
     (0, 0, 0), (0, 0, 0), (100, 6, - 5), (0, 0, 0), (0, 0, 0), (0, 2, - 2), (0, 0, 0), (5000, 1, - 1)]"

definition london_metrics :: "metrics list" where
  "london_metrics =
    [(0, 0, 0), (3, 2, - 1), (5, 2, - 1), (3, 2, - 1), (5, 2, - 1), (5, 2, - 1), (5, 2, - 1), (5, 2, - 1),
     (8, 3, - 2), (8, 3, - 2), (10, 2, - 1), (5, 2, - 1), (0, 0, 0), (0, 0, 0), (0, 0, 0), (0, 0, 0),
     (3, 2, - 1), (3, 2, - 1), (3, 2, - 1), (3, 2, - 1), (3, 2, - 1), (3, 1, 0), (3, 2, - 1), (3, 2, - 1),
     (3, 2, - 1), (3, 1, 0), (3, 2, - 1), (3, 2, - 1), (3, 2, - 1), (3, 2, - 1), (0, 0, 0), (0, 0, 0),
     (30, 2, - 1), (0, 0, 0), (0, 0, 0), (0, 0, 0), (0, 0, 0), (0, 0, 0), (0, 0, 0), (0, 0, 0),
     (0, 0, 0), (0, 0, 0), (0, 0, 0), (0, 0, 0), (0, 0, 0), (0, 0, 0), (0, 0, 0), (0, 0, 0),
     (2, 0, 1), (100, 1, 0), (2, 0, 1), (2, 0, 1), (2, 0, 1), (3, 1, 0), (2, 0, 1), (3, 3, - 3),
     (2, 0, 1), (3, 3, - 3), (2, 0, 1), (100, 1, 0), (100, 4, - 4), (2, 0, 1), (3, 3, - 3), (100, 1, 0),
     (20, 1, 0), (2, 0, 1), (2, 0, 1), (2, 0, 1), (2, 0, 1), (2, 0, 1), (2, 0, 1), (5, 0, 1),
     (2, 0, 1), (0, 0, 0), (0, 0, 0), (0, 0, 0), (0, 0, 0), (0, 0, 0), (0, 0, 0), (0, 0, 0),
     (2, 1, - 1), (3, 1, 0), (3, 2, - 2), (3, 2, - 2), (100, 1, 0), (0, 2, - 2), (8, 1, - 1), (10, 2, - 2),
     (2, 0, 1), (2, 0, 1), (2, 0, 1), (1, 0, 0), (0, 0, 0), (0, 0, 0), (0, 0, 0), (0, 0, 0),
     (3, 0, 1), (3, 0, 1), (3, 0, 1), (3, 0, 1), (3, 0, 1), (3, 0, 1), (3, 0, 1), (3, 0, 1),
     (3, 0, 1), (3, 0, 1), (3, 0, 1), (3, 0, 1), (3, 0, 1), (3, 0, 1), (3, 0, 1), (3, 0, 1),
     (3, 0, 1), (3, 0, 1), (3, 0, 1), (3, 0, 1), (3, 0, 1), (3, 0, 1), (3, 0, 1), (3, 0, 1),
     (3, 0, 1), (3, 0, 1), (3, 0, 1), (3, 0, 1), (3, 0, 1), (3, 0, 1), (3, 0, 1), (3, 0, 1),
     (3, 1, 1), (3, 2, 1), (3, 3, 1), (3, 4, 1), (3, 5, 1), (3, 6, 1), (3, 7, 1), (3, 8, 1),
     (3, 9, 1), (3, 10, 1), (3, 11, 1), (3, 12, 1), (3, 13, 1), (3, 14, 1), (3, 15, 1), (3, 16, 1),
     (3, 2, 0), (3, 3, 0), (3, 4, 0), (3, 5, 0), (3, 6, 0), (3, 7, 0), (3, 8, 0), (3, 9, 0),
     (3, 10, 0), (3, 11, 0), (3, 12, 0), (3, 13, 0), (3, 14, 0), (3, 15, 0), (3, 16, 0), (3, 17, 0),
     (375, 2, - 2), (750, 3, - 3), (1125, 4, - 4), (1500, 5, - 5), (1875, 6, - 6), (0, 0, 0), (0, 0, 0), (0, 0, 0),
     (0, 0, 0), (0, 0, 0), (0, 0, 0), (0, 0, 0), (0, 0, 0), (0, 0, 0), (0, 0, 0), (0, 0, 0),
     (0, 0, 0), (0, 0, 0), (0, 0, 0), (0, 0, 0), (0, 0, 0), (0, 0, 0), (0, 0, 0), (0, 0, 0),
     (0, 0, 0), (0, 0, 0), (0, 0, 0), (0, 0, 0), (0, 0, 0), (0, 0, 0), (0, 0, 0), (0, 0, 0),
     (0, 0, 0), (0, 0, 0), (0, 0, 0), (0, 0, 0), (0, 0, 0), (0, 0, 0), (0, 0, 0), (0, 0, 0),
     (0, 0, 0), (0, 0, 0), (0, 0, 0), (0, 0, 0), (0, 0, 0), (0, 0, 0), (0, 0, 0), (0, 0, 0),
     (0, 0, 0), (0, 0, 0), (0, 0, 0), (0, 0, 0), (0, 0, 0), (0, 0, 0), (0, 0, 0), (0, 0, 0),
     (0, 0, 0), (0, 0, 0), (0, 0, 0), (0, 0, 0), (0, 0, 0), (0, 0, 0), (0, 0, 0), (0, 0, 0),
     (0, 0, 0), (0, 0, 0), (0, 0, 0), (0, 0, 0), (0, 0, 0), (0, 0, 0), (0, 0, 0), (0, 0, 0),
     (0, 0, 0), (0, 0, 0), (0, 0, 0), (0, 0, 0), (0, 0, 0), (0, 0, 0), (0, 0, 0), (0, 0, 0),
     (32000, 3, - 2), (100, 7, - 6), (100, 7, - 6), (0, 2, - 2), (100, 6, - 5), (32000, 4, - 3), (0, 0, 0), (0, 0, 0),
     (0, 0, 0), (0, 0, 0), (100, 6, - 5), (0, 0, 0), (0, 0, 0), (0, 2, - 2), (0, 0, 0), (5000, 1, - 1)]"

definition berlin_metrics :: "metrics list" where
  "berlin_metrics =
    [(0, 0, 0), (3, 2, - 1), (5, 2, - 1), (3, 2, - 1), (5, 2, - 1), (5, 2, - 1), (5, 2, - 1), (5, 2, - 1),
     (8, 3, - 2), (8, 3, - 2), (10, 2, - 1), (5, 2, - 1), (0, 0, 0), (0, 0, 0), (0, 0, 0), (0, 0, 0),
     (3, 2, - 1), (3, 2, - 1), (3, 2, - 1), (3, 2, - 1), (3, 2, - 1), (3, 1, 0), (3, 2, - 1), (3, 2, - 1),
     (3, 2, - 1), (3, 1, 0), (3, 2, - 1), (3, 2, - 1), (3, 2, - 1), (3, 2, - 1), (0, 0, 0), (0, 0, 0),
     (30, 2, - 1), (0, 0, 0), (0, 0, 0), (0, 0, 0), (0, 0, 0), (0, 0, 0), (0, 0, 0), (0, 0, 0),
     (0, 0, 0), (0, 0, 0), (0, 0, 0), (0, 0, 0), (0, 0, 0), (0, 0, 0), (0, 0, 0), (0, 0, 0),
     (2, 0, 1), (100, 1, 0), (2, 0, 1), (2, 0, 1), (2, 0, 1), (3, 1, 0), (2, 0, 1), (3, 3, - 3),
     (2, 0, 1), (3, 3, - 3), (2, 0, 1), (100, 1, 0), (100, 4, - 4), (2, 0, 1), (3, 3, - 3), (100, 1, 0),
     (20, 1, 0), (2, 0, 1), (2, 0, 1), (2, 0, 1), (2, 0, 1), (2, 0, 1), (2, 0, 1), (5, 0, 1),
     (0, 0, 0), (0, 0, 0), (0, 0, 0), (0, 0, 0), (0, 0, 0), (0, 0, 0), (0, 0, 0), (0, 0, 0),
     (2, 1, - 1), (3, 1, 0), (3, 2, - 2), (3, 2, - 2), (100, 1, 0), (0, 2, - 2), (8, 1, - 1), (10, 2, - 2),
     (2, 0, 1), (2, 0, 1), (2, 0, 1), (1, 0, 0), (0, 0, 0), (0, 0, 0), (0, 0, 0), (0, 0, 0),
     (3, 0, 1), (3, 0, 1), (3, 0, 1), (3, 0, 1), (3, 0, 1), (3, 0, 1), (3, 0, 1), (3, 0, 1),
     (3, 0, 1), (3, 0, 1), (3, 0, 1), (3, 0, 1), (3, 0, 1), (3, 0, 1), (3, 0, 1), (3, 0, 1),
     (3, 0, 1), (3, 0, 1), (3, 0, 1), (3, 0, 1), (3, 0, 1), (3, 0, 1), (3, 0, 1), (3, 0, 1),
     (3, 0, 1), (3, 0, 1), (3, 0, 1), (3, 0, 1), (3, 0, 1), (3, 0, 1), (3, 0, 1), (3, 0, 1),
     (3, 1, 1), (3, 2, 1), (3, 3, 1), (3, 4, 1), (3, 5, 1), (3, 6, 1), (3, 7, 1), (3, 8, 1),
     (3, 9, 1), (3, 10, 1), (3, 11, 1), (3, 12, 1), (3, 13, 1), (3, 14, 1), (3, 15, 1), (3, 16, 1),
     (3, 2, 0), (3, 3, 0), (3, 4, 0), (3, 5, 0), (3, 6, 0), (3, 7, 0), (3, 8, 0), (3, 9, 0),
     (3, 10, 0), (3, 11, 0), (3, 12, 0), (3, 13, 0), (3, 14, 0), (3, 15, 0), (3, 16, 0), (3, 17, 0),
     (375, 2, - 2), (750, 3, - 3), (1125, 4, - 4), (1500, 5, - 5), (1875, 6, - 6), (0, 0, 0), (0, 0, 0), (0, 0, 0),
     (0, 0, 0), (0, 0, 0), (0, 0, 0), (0, 0, 0), (0, 0, 0), (0, 0, 0), (0, 0, 0), (0, 0, 0),
     (0, 0, 0), (0, 0, 0), (0, 0, 0), (0, 0, 0), (0, 0, 0), (0, 0, 0), (0, 0, 0), (0, 0, 0),
     (0, 0, 0), (0, 0, 0), (0, 0, 0), (0, 0, 0), (0, 0, 0), (0, 0, 0), (0, 0, 0), (0, 0, 0),
     (0, 0, 0), (0, 0, 0), (0, 0, 0), (0, 0, 0), (0, 0, 0), (0, 0, 0), (0, 0, 0), (0, 0, 0),
     (0, 0, 0), (0, 0, 0), (0, 0, 0), (0, 0, 0), (0, 0, 0), (0, 0, 0), (0, 0, 0), (0, 0, 0),
     (0, 0, 0), (0, 0, 0), (0, 0, 0), (0, 0, 0), (0, 0, 0), (0, 0, 0), (0, 0, 0), (0, 0, 0),
     (0, 0, 0), (0, 0, 0), (0, 0, 0), (0, 0, 0), (0, 0, 0), (0, 0, 0), (0, 0, 0), (0, 0, 0),
     (0, 0, 0), (0, 0, 0), (0, 0, 0), (0, 0, 0), (0, 0, 0), (0, 0, 0), (0, 0, 0), (0, 0, 0),
     (0, 0, 0), (0, 0, 0), (0, 0, 0), (0, 0, 0), (0, 0, 0), (0, 0, 0), (0, 0, 0), (0, 0, 0),
     (32000, 3, - 2), (100, 7, - 6), (100, 7, - 6), (0, 2, - 2), (100, 6, - 5), (32000, 4, - 3), (0, 0, 0), (0, 0, 0),
     (0, 0, 0), (0, 0, 0), (100, 6, - 5), (0, 0, 0), (0, 0, 0), (0, 2, - 2), (0, 0, 0), (5000, 1, - 1)]"

definition istanbul_metrics :: "metrics list" where
  "istanbul_metrics =
    [(0, 0, 0), (3, 2, - 1), (5, 2, - 1), (3, 2, - 1), (5, 2, - 1), (5, 2, - 1), (5, 2, - 1), (5, 2, - 1),
     (8, 3, - 2), (8, 3, - 2), (10, 2, - 1), (5, 2, - 1), (0, 0, 0), (0, 0, 0), (0, 0, 0), (0, 0, 0),
     (3, 2, - 1), (3, 2, - 1), (3, 2, - 1), (3, 2, - 1), (3, 2, - 1), (3, 1, 0), (3, 2, - 1), (3, 2, - 1),
     (3, 2, - 1), (3, 1, 0), (3, 2, - 1), (3, 2, - 1), (3, 2, - 1), (3, 2, - 1), (0, 0, 0), (0, 0, 0),
     (30, 2, - 1), (0, 0, 0), (0, 0, 0), (0, 0, 0), (0, 0, 0), (0, 0, 0), (0, 0, 0), (0, 0, 0),
     (0, 0, 0), (0, 0, 0), (0, 0, 0), (0, 0, 0), (0, 0, 0), (0, 0, 0), (0, 0, 0), (0, 0, 0),
     (2, 0, 1), (700, 1, 0), (2, 0, 1), (2, 0, 1), (2, 0, 1), (3, 1, 0), (2, 0, 1), (3, 3, - 3),
     (2, 0, 1), (3, 3, - 3), (2, 0, 1), (700, 1, 0), (700, 4, - 4), (2, 0, 1), (3, 3, - 3), (700, 1, 0),
     (20, 1, 0), (2, 0, 1), (2, 0, 1), (2, 0, 1), (2, 0, 1), (2, 0, 1), (2, 0, 1), (5, 0, 1),
     (0, 0, 0), (0, 0, 0), (0, 0, 0), (0, 0, 0), (0, 0, 0), (0, 0, 0), (0, 0, 0), (0, 0, 0),
     (2, 1, - 1), (3, 1, 0), (3, 2, - 2), (3, 2, - 2), (800, 1, 0), (0, 2, - 2), (8, 1, - 1), (10, 2, - 2),
     (2, 0, 1), (2, 0, 1), (2, 0, 1), (1, 0, 0), (0, 0, 0), (0, 0, 0), (0, 0, 0), (0, 0, 0),
     (3, 0, 1), (3, 0, 1), (3, 0, 1), (3, 0, 1), (3, 0, 1), (3, 0, 1), (3, 0, 1), (3, 0, 1),
     (3, 0, 1), (3, 0, 1), (3, 0, 1), (3, 0, 1), (3, 0, 1), (3, 0, 1), (3, 0, 1), (3, 0, 1),
     (3, 0, 1), (3, 0, 1), (3, 0, 1), (3, 0, 1), (3, 0, 1), (3, 0, 1), (3, 0, 1), (3, 0, 1),
     (3, 0, 1), (3, 0, 1), (3, 0, 1), (3, 0, 1), (3, 0, 1), (3, 0, 1), (3, 0, 1), (3, 0, 1),
     (3, 1, 1), (3, 2, 1), (3, 3, 1), (3, 4, 1), (3, 5, 1), (3, 6, 1), (3, 7, 1), (3, 8, 1),
     (3, 9, 1), (3, 10, 1), (3, 11, 1), (3, 12, 1), (3, 13, 1), (3, 14, 1), (3, 15, 1), (3, 16, 1),
     (3, 2, 0), (3, 3, 0), (3, 4, 0), (3, 5, 0), (3, 6, 0), (3, 7, 0), (3, 8, 0), (3, 9, 0),
     (3, 10, 0), (3, 11, 0), (3, 12, 0), (3, 13, 0), (3, 14, 0), (3, 15, 0), (3, 16, 0), (3, 17, 0),
     (375, 2, - 2), (750, 3, - 3), (1125, 4, - 4), (1500, 5, - 5), (1875, 6, - 6), (0, 0, 0), (0, 0, 0), (0, 0, 0),
     (0, 0, 0), (0, 0, 0), (0, 0, 0), (0, 0, 0), (0, 0, 0), (0, 0, 0), (0, 0, 0), (0, 0, 0),
     (0, 0, 0), (0, 0, 0), (0, 0, 0), (0, 0, 0), (0, 0, 0), (0, 0, 0), (0, 0, 0), (0, 0, 0),
     (0, 0, 0), (0, 0, 0), (0, 0, 0), (0, 0, 0), (0, 0, 0), (0, 0, 0), (0, 0, 0), (0, 0, 0),
     (0, 0, 0), (0, 0, 0), (0, 0, 0), (0, 0, 0), (0, 0, 0), (0, 0, 0), (0, 0, 0), (0, 0, 0),
     (0, 0, 0), (0, 0, 0), (0, 0, 0), (0, 0, 0), (0, 0, 0), (0, 0, 0), (0, 0, 0), (0, 0, 0),
     (0, 0, 0), (0, 0, 0), (0, 0, 0), (0, 0, 0), (0, 0, 0), (0, 0, 0), (0, 0, 0), (0, 0, 0),
     (0, 0, 0), (0, 0, 0), (0, 0, 0), (0, 0, 0), (0, 0, 0), (0, 0, 0), (0, 0, 0), (0, 0, 0),
     (0, 0, 0), (0, 0, 0), (0, 0, 0), (0, 0, 0), (0, 0, 0), (0, 0, 0), (0, 0, 0), (0, 0, 0),
     (0, 0, 0), (0, 0, 0), (0, 0, 0), (0, 0, 0), (0, 0, 0), (0, 0, 0), (0, 0, 0), (0, 0, 0),
     (32000, 3, - 2), (700, 7, - 6), (700, 7, - 6), (0, 2, - 2), (700, 6, - 5), (32000, 4, - 3), (0, 0, 0), (0, 0, 0),
     (0, 0, 0), (0, 0, 0), (700, 6, - 5), (0, 0, 0), (0, 0, 0), (0, 2, - 2), (0, 0, 0), (5000, 1, - 1)]"

definition constantinople_metrics :: "metrics list" where
  "constantinople_metrics =
    [(0, 0, 0), (3, 2, - 1), (5, 2, - 1), (3, 2, - 1), (5, 2, - 1), (5, 2, - 1), (5, 2, - 1), (5, 2, - 1),
     (8, 3, - 2), (8, 3, - 2), (10, 2, - 1), (5, 2, - 1), (0, 0, 0), (0, 0, 0), (0, 0, 0), (0, 0, 0),
     (3, 2, - 1), (3, 2, - 1), (3, 2, - 1), (3, 2, - 1), (3, 2, - 1), (3, 1, 0), (3, 2, - 1), (3, 2, - 1),
     (3, 2, - 1), (3, 1, 0), (3, 2, - 1), (3, 2, - 1), (3, 2, - 1), (3, 2, - 1), (0, 0, 0), (0, 0, 0),
     (30, 2, - 1), (0, 0, 0), (0, 0, 0), (0, 0, 0), (0, 0, 0), (0, 0, 0), (0, 0, 0), (0, 0, 0),
     (0, 0, 0), (0, 0, 0), (0, 0, 0), (0, 0, 0), (0, 0, 0), (0, 0, 0), (0, 0, 0), (0, 0, 0),
     (2, 0, 1), (400, 1, 0), (2, 0, 1), (2, 0, 1), (2, 0, 1), (3, 1, 0), (2, 0, 1), (3, 3, - 3),
     (2, 0, 1), (3, 3, - 3), (2, 0, 1), (700, 1, 0), (700, 4, - 4), (2, 0, 1), (3, 3, - 3), (400, 1, 0),
     (20, 1, 0), (2, 0, 1), (2, 0, 1), (2, 0, 1), (2, 0, 1), (2, 0, 1), (0, 0, 0), (0, 0, 0),
     (0, 0, 0), (0, 0, 0), (0, 0, 0), (0, 0, 0), (0, 0, 0), (0, 0, 0), (0, 0, 0), (0, 0, 0),
     (2, 1, - 1), (3, 1, 0), (3, 2, - 2), (3, 2, - 2), (200, 1, 0), (0, 2, - 2), (8, 1, - 1), (10, 2, - 2),
     (2, 0, 1), (2, 0, 1), (2, 0, 1), (1, 0, 0), (0, 0, 0), (0, 0, 0), (0, 0, 0), (0, 0, 0),
     (3, 0, 1), (3, 0, 1), (3, 0, 1), (3, 0, 1), (3, 0, 1), (3, 0, 1), (3, 0, 1), (3, 0, 1),
     (3, 0, 1), (3, 0, 1), (3, 0, 1), (3, 0, 1), (3, 0, 1), (3, 0, 1), (3, 0, 1), (3, 0, 1),
     (3, 0, 1), (3, 0, 1), (3, 0, 1), (3, 0, 1), (3, 0, 1), (3, 0, 1), (3, 0, 1), (3, 0, 1),
     (3, 0, 1), (3, 0, 1), (3, 0, 1), (3, 0, 1), (3, 0, 1), (3, 0, 1), (3, 0, 1), (3, 0, 1),
     (3, 1, 1), (3, 2, 1), (3, 3, 1), (3, 4, 1), (3, 5, 1), (3, 6, 1), (3, 7, 1), (3, 8, 1),
     (3, 9, 1), (3, 10, 1), (3, 11, 1), (3, 12, 1), (3, 13, 1), (3, 14, 1), (3, 15, 1), (3, 16, 1),
     (3, 2, 0), (3, 3, 0), (3, 4, 0), (3, 5, 0), (3, 6, 0), (3, 7, 0), (3, 8, 0), (3, 9, 0),
     (3, 10, 0), (3, 11, 0), (3, 12, 0), (3, 13, 0), (3, 14, 0), (3, 15, 0), (3, 16, 0), (3, 17, 0),
     (375, 2, - 2), (750, 3, - 3), (1125, 4, - 4), (1500, 5, - 5), (1875, 6, - 6), (0, 0, 0), (0, 0, 0), (0, 0, 0),
     (0, 0, 0), (0, 0, 0), (0, 0, 0), (0, 0, 0), (0, 0, 0), (0, 0, 0), (0, 0, 0), (0, 0, 0),
     (0, 0, 0), (0, 0, 0), (0, 0, 0), (0, 0, 0), (0, 0, 0), (0, 0, 0), (0, 0, 0), (0, 0, 0),
     (0, 0, 0), (0, 0, 0), (0, 0, 0), (0, 0, 0), (0, 0, 0), (0, 0, 0), (0, 0, 0), (0, 0, 0),
     (0, 0, 0), (0, 0, 0), (0, 0, 0), (0, 0, 0), (0, 0, 0), (0, 0, 0), (0, 0, 0), (0, 0, 0),
     (0, 0, 0), (0, 0, 0), (0, 0, 0), (0, 0, 0), (0, 0, 0), (0, 0, 0), (0, 0, 0), (0, 0, 0),
     (0, 0, 0), (0, 0, 0), (0, 0, 0), (0, 0, 0), (0, 0, 0), (0, 0, 0), (0, 0, 0), (0, 0, 0),
     (0, 0, 0), (0, 0, 0), (0, 0, 0), (0, 0, 0), (0, 0, 0), (0, 0, 0), (0, 0, 0), (0, 0, 0),
     (0, 0, 0), (0, 0, 0), (0, 0, 0), (0, 0, 0), (0, 0, 0), (0, 0, 0), (0, 0, 0), (0, 0, 0),
     (0, 0, 0), (0, 0, 0), (0, 0, 0), (0, 0, 0), (0, 0, 0), (0, 0, 0), (0, 0, 0), (0, 0, 0),
     (32000, 3, - 2), (700, 7, - 6), (700, 7, - 6), (0, 2, - 2), (700, 6, - 5), (32000, 4, - 3), (0, 0, 0), (0, 0, 0),
     (0, 0, 0), (0, 0, 0), (700, 6, - 5), (0, 0, 0), (0, 0, 0), (0, 2, - 2), (0, 0, 0), (5000, 1, - 1)]"

definition byzantium_metrics :: "metrics list" where
  "byzantium_metrics =
    [(0, 0, 0), (3, 2, - 1), (5, 2, - 1), (3, 2, - 1), (5, 2, - 1), (5, 2, - 1), (5, 2, - 1), (5, 2, - 1),
     (8, 3, - 2), (8, 3, - 2), (10, 2, - 1), (5, 2, - 1), (0, 0, 0), (0, 0, 0), (0, 0, 0), (0, 0, 0),
     (3, 2, - 1), (3, 2, - 1), (3, 2, - 1), (3, 2, - 1), (3, 2, - 1), (3, 1, 0), (3, 2, - 1), (3, 2, - 1),
     (3, 2, - 1), (3, 1, 0), (3, 2, - 1), (0, 0, 0), (0, 0, 0), (0, 0, 0), (0, 0, 0), (0, 0, 0),
     (30, 2, - 1), (0, 0, 0), (0, 0, 0), (0, 0, 0), (0, 0, 0), (0, 0, 0), (0, 0, 0), (0, 0, 0),
     (0, 0, 0), (0, 0, 0), (0, 0, 0), (0, 0, 0), (0, 0, 0), (0, 0, 0), (0, 0, 0), (0, 0, 0),
     (2, 0, 1), (400, 1, 0), (2, 0, 1), (2, 0, 1), (2, 0, 1), (3, 1, 0), (2, 0, 1), (3, 3, - 3),
     (2, 0, 1), (3, 3, - 3), (2, 0, 1), (700, 1, 0), (700, 4, - 4), (2, 0, 1), (3, 3, - 3), (0, 0, 0),
     (20, 1, 0), (2, 0, 1), (2, 0, 1), (2, 0, 1), (2, 0, 1), (2, 0, 1), (0, 0, 0), (0, 0, 0),
     (0, 0, 0), (0, 0, 0), (0, 0, 0), (0, 0, 0), (0, 0, 0), (0, 0, 0), (0, 0, 0), (0, 0, 0),
     (2, 1, - 1), (3, 1, 0), (3, 2, - 2), (3, 2, - 2), (200, 1, 0), (0, 2, - 2), (8, 1, - 1), (10, 2, - 2),
     (2, 0, 1), (2, 0, 1), (2, 0, 1), (1, 0, 0), (0, 0, 0), (0, 0, 0), (0, 0, 0), (0, 0, 0),
     (3, 0, 1), (3, 0, 1), (3, 0, 1), (3, 0, 1), (3, 0, 1), (3, 0, 1), (3, 0, 1), (3, 0, 1),
     (3, 0, 1), (3, 0, 1), (3, 0, 1), (3, 0, 1), (3, 0, 1), (3, 0, 1), (3, 0, 1), (3, 0, 1),
     (3, 0, 1), (3, 0, 1), (3, 0, 1), (3, 0, 1), (3, 0, 1), (3, 0, 1), (3, 0, 1), (3, 0, 1),
     (3, 0, 1), (3, 0, 1), (3, 0, 1), (3, 0, 1), (3, 0, 1), (3, 0, 1), (3, 0, 1), (3, 0, 1),
     (3, 1, 1), (3, 2, 1), (3, 3, 1), (3, 4, 1), (3, 5, 1), (3, 6, 1), (3, 7, 1), (3, 8, 1),
     (3, 9, 1), (3, 10, 1), (3, 11, 1), (3, 12, 1), (3, 13, 1), (3, 14, 1), (3, 15, 1), (3, 16, 1),
     (3, 2, 0), (3, 3, 0), (3, 4, 0), (3, 5, 0), (3, 6, 0), (3, 7, 0), (3, 8, 0), (3, 9, 0),
     (3, 10, 0), (3, 11, 0), (3, 12, 0), (3, 13, 0), (3, 14, 0), (3, 15, 0), (3, 16, 0), (3, 17, 0),
     (375, 2, - 2), (750, 3, - 3), (1125, 4, - 4), (1500, 5, - 5), (1875, 6, - 6), (0, 0, 0), (0, 0, 0), (0, 0, 0),
     (0, 0, 0), (0, 0, 0), (0, 0, 0), (0, 0, 0), (0, 0, 0), (0, 0, 0), (0, 0, 0), (0, 0, 0),
     (0, 0, 0), (0, 0, 0), (0, 0, 0), (0, 0, 0), (0, 0, 0), (0, 0, 0), (0, 0, 0), (0, 0, 0),
     (0, 0, 0), (0, 0, 0), (0, 0, 0), (0, 0, 0), (0, 0, 0), (0, 0, 0), (0, 0, 0), (0, 0, 0),
     (0, 0, 0), (0, 0, 0), (0, 0, 0), (0, 0, 0), (0, 0, 0), (0, 0, 0), (0, 0, 0), (0, 0, 0),
     (0, 0, 0), (0, 0, 0), (0, 0, 0), (0, 0, 0), (0, 0, 0), (0, 0, 0), (0, 0, 0), (0, 0, 0),
     (0, 0, 0), (0, 0, 0), (0, 0, 0), (0, 0, 0), (0, 0, 0), (0, 0, 0), (0, 0, 0), (0, 0, 0),
     (0, 0, 0), (0, 0, 0), (0, 0, 0), (0, 0, 0), (0, 0, 0), (0, 0, 0), (0, 0, 0), (0, 0, 0),
     (0, 0, 0), (0, 0, 0), (0, 0, 0), (0, 0, 0), (0, 0, 0), (0, 0, 0), (0, 0, 0), (0, 0, 0),
     (0, 0, 0), (0, 0, 0), (0, 0, 0), (0, 0, 0), (0, 0, 0), (0, 0, 0), (0, 0, 0), (0, 0, 0),
     (32000, 3, - 2), (700, 7, - 6), (700, 7, - 6), (0, 2, - 2), (700, 6, - 5), (0, 0, 0), (0, 0, 0), (0, 0, 0),
     (0, 0, 0), (0, 0, 0), (700, 6, - 5), (0, 0, 0), (0, 0, 0), (0, 2, - 2), (0, 0, 0), (5000, 1, - 1)]"

definition tangerine_whistle_metrics :: "metrics list" where
  "tangerine_whistle_metrics =
    [(0, 0, 0), (3, 2, - 1), (5, 2, - 1), (3, 2, - 1), (5, 2, - 1), (5, 2, - 1), (5, 2, - 1), (5, 2, - 1),
     (8, 3, - 2), (8, 3, - 2), (10, 2, - 1), (5, 2, - 1), (0, 0, 0), (0, 0, 0), (0, 0, 0), (0, 0, 0),
     (3, 2, - 1), (3, 2, - 1), (3, 2, - 1), (3, 2, - 1), (3, 2, - 1), (3, 1, 0), (3, 2, - 1), (3, 2, - 1),
     (3, 2, - 1), (3, 1, 0), (3, 2, - 1), (0, 0, 0), (0, 0, 0), (0, 0, 0), (0, 0, 0), (0, 0, 0),
     (30, 2, - 1), (0, 0, 0), (0, 0, 0), (0, 0, 0), (0, 0, 0), (0, 0, 0), (0, 0, 0), (0, 0, 0),
     (0, 0, 0), (0, 0, 0), (0, 0, 0), (0, 0, 0), (0, 0, 0), (0, 0, 0), (0, 0, 0), (0, 0, 0),
     (2, 0, 1), (400, 1, 0), (2, 0, 1), (2, 0, 1), (2, 0, 1), (3, 1, 0), (2, 0, 1), (3, 3, - 3),
     (2, 0, 1), (3, 3, - 3), (2, 0, 1), (700, 1, 0), (700, 4, - 4), (0, 0, 0), (0, 0, 0), (0, 0, 0),
     (20, 1, 0), (2, 0, 1), (2, 0, 1), (2, 0, 1), (2, 0, 1), (2, 0, 1), (0, 0, 0), (0, 0, 0),
     (0, 0, 0), (0, 0, 0), (0, 0, 0), (0, 0, 0), (0, 0, 0), (0, 0, 0), (0, 0, 0), (0, 0, 0),
     (2, 1, - 1), (3, 1, 0), (3, 2, - 2), (3, 2, - 2), (200, 1, 0), (0, 2, - 2), (8, 1, - 1), (10, 2, - 2),
     (2, 0, 1), (2, 0, 1), (2, 0, 1), (1, 0, 0), (0, 0, 0), (0, 0, 0), (0, 0, 0), (0, 0, 0),
     (3, 0, 1), (3, 0, 1), (3, 0, 1), (3, 0, 1), (3, 0, 1), (3, 0, 1), (3, 0, 1), (3, 0, 1),
     (3, 0, 1), (3, 0, 1), (3, 0, 1), (3, 0, 1), (3, 0, 1), (3, 0, 1), (3, 0, 1), (3, 0, 1),
     (3, 0, 1), (3, 0, 1), (3, 0, 1), (3, 0, 1), (3, 0, 1), (3, 0, 1), (3, 0, 1), (3, 0, 1),
     (3, 0, 1), (3, 0, 1), (3, 0, 1), (3, 0, 1), (3, 0, 1), (3, 0, 1), (3, 0, 1), (3, 0, 1),
     (3, 1, 1), (3, 2, 1), (3, 3, 1), (3, 4, 1), (3, 5, 1), (3, 6, 1), (3, 7, 1), (3, 8, 1),
     (3, 9, 1), (3, 10, 1), (3, 11, 1), (3, 12, 1), (3, 13, 1), (3, 14, 1), (3, 15, 1), (3, 16, 1),
     (3, 2, 0), (3, 3, 0), (3, 4, 0), (3, 5, 0), (3, 6, 0), (3, 7, 0), (3, 8, 0), (3, 9, 0),
     (3, 10, 0), (3, 11, 0), (3, 12, 0), (3, 13, 0), (3, 14, 0), (3, 15, 0), (3, 16, 0), (3, 17, 0),
     (375, 2, - 2), (750, 3, - 3), (1125, 4, - 4), (1500, 5, - 5), (1875, 6, - 6), (0, 0, 0), (0, 0, 0), (0, 0, 0),
     (0, 0, 0), (0, 0, 0), (0, 0, 0), (0, 0, 0), (0, 0, 0), (0, 0, 0), (0, 0, 0), (0, 0, 0),
     (0, 0, 0), (0, 0, 0), (0, 0, 0), (0, 0, 0), (0, 0, 0), (0, 0, 0), (0, 0, 0), (0, 0, 0),
     (0, 0, 0), (0, 0, 0), (0, 0, 0), (0, 0, 0), (0, 0, 0), (0, 0, 0), (0, 0, 0), (0, 0, 0),
     (0, 0, 0), (0, 0, 0), (0, 0, 0), (0, 0, 0), (0, 0, 0), (0, 0, 0), (0, 0, 0), (0, 0, 0),
     (0, 0, 0), (0, 0, 0), (0, 0, 0), (0, 0, 0), (0, 0, 0), (0, 0, 0), (0, 0, 0), (0, 0, 0),
     (0, 0, 0), (0, 0, 0), (0, 0, 0), (0, 0, 0), (0, 0, 0), (0, 0, 0), (0, 0, 0), (0, 0, 0),
     (0, 0, 0), (0, 0, 0), (0, 0, 0), (0, 0, 0), (0, 0, 0), (0, 0, 0), (0, 0, 0), (0, 0, 0),
     (0, 0, 0), (0, 0, 0), (0, 0, 0), (0, 0, 0), (0, 0, 0), (0, 0, 0), (0, 0, 0), (0, 0, 0),
     (0, 0, 0), (0, 0, 0), (0, 0, 0), (0, 0, 0), (0, 0, 0), (0, 0, 0), (0, 0, 0), (0, 0, 0),
     (32000, 3, - 2), (700, 7, - 6), (700, 7, - 6), (0, 2, - 2), (700, 6, - 5), (0, 0, 0), (0, 0, 0), (0, 0, 0),
     (0, 0, 0), (0, 0, 0), (0, 0, 0), (0, 0, 0), (0, 0, 0), (0, 0, 0), (0, 0, 0), (5000, 1, - 1)]"

definition homestead_metrics :: "metrics list" where
  "homestead_metrics =
    [(0, 0, 0), (3, 2, - 1), (5, 2, - 1), (3, 2, - 1), (5, 2, - 1), (5, 2, - 1), (5, 2, - 1), (5, 2, - 1),
     (8, 3, - 2), (8, 3, - 2), (10, 2, - 1), (5, 2, - 1), (0, 0, 0), (0, 0, 0), (0, 0, 0), (0, 0, 0),
     (3, 2, - 1), (3, 2, - 1), (3, 2, - 1), (3, 2, - 1), (3, 2, - 1), (3, 1, 0), (3, 2, - 1), (3, 2, - 1),
     (3, 2, - 1), (3, 1, 0), (3, 2, - 1), (0, 0, 0), (0, 0, 0), (0, 0, 0), (0, 0, 0), (0, 0, 0),
     (30, 2, - 1), (0, 0, 0), (0, 0, 0), (0, 0, 0), (0, 0, 0), (0, 0, 0), (0, 0, 0), (0, 0, 0),
     (0, 0, 0), (0, 0, 0), (0, 0, 0), (0, 0, 0), (0, 0, 0), (0, 0, 0), (0, 0, 0), (0, 0, 0),
     (2, 0, 1), (20, 1, 0), (2, 0, 1), (2, 0, 1), (2, 0, 1), (3, 1, 0), (2, 0, 1), (3, 3, - 3),
     (2, 0, 1), (3, 3, - 3), (2, 0, 1), (20, 1, 0), (20, 4, - 4), (0, 0, 0), (0, 0, 0), (0, 0, 0),
     (20, 1, 0), (2, 0, 1), (2, 0, 1), (2, 0, 1), (2, 0, 1), (2, 0, 1), (0, 0, 0), (0, 0, 0),
     (0, 0, 0), (0, 0, 0), (0, 0, 0), (0, 0, 0), (0, 0, 0), (0, 0, 0), (0, 0, 0), (0, 0, 0),
     (2, 1, - 1), (3, 1, 0), (3, 2, - 2), (3, 2, - 2), (50, 1, 0), (0, 2, - 2), (8, 1, - 1), (10, 2, - 2),
     (2, 0, 1), (2, 0, 1), (2, 0, 1), (1, 0, 0), (0, 0, 0), (0, 0, 0), (0, 0, 0), (0, 0, 0),
     (3, 0, 1), (3, 0, 1), (3, 0, 1), (3, 0, 1), (3, 0, 1), (3, 0, 1), (3, 0, 1), (3, 0, 1),
     (3, 0, 1), (3, 0, 1), (3, 0, 1), (3, 0, 1), (3, 0, 1), (3, 0, 1), (3, 0, 1), (3, 0, 1),
     (3, 0, 1), (3, 0, 1), (3, 0, 1), (3, 0, 1), (3, 0, 1), (3, 0, 1), (3, 0, 1), (3, 0, 1),
     (3, 0, 1), (3, 0, 1), (3, 0, 1), (3, 0, 1), (3, 0, 1), (3, 0, 1), (3, 0, 1), (3, 0, 1),
     (3, 1, 1), (3, 2, 1), (3, 3, 1), (3, 4, 1), (3, 5, 1), (3, 6, 1), (3, 7, 1), (3, 8, 1),
     (3, 9, 1), (3, 10, 1), (3, 11, 1), (3, 12, 1), (3, 13, 1), (3, 14, 1), (3, 15, 1), (3, 16, 1),
     (3, 2, 0), (3, 3, 0), (3, 4, 0), (3, 5, 0), (3, 6, 0), (3, 7, 0), (3, 8, 0), (3, 9, 0),
     (3, 10, 0), (3, 11, 0), (3, 12, 0), (3, 13, 0), (3, 14, 0), (3, 15, 0), (3, 16, 0), (3, 17, 0),
     (375, 2, - 2), (750, 3, - 3), (1125, 4, - 4), (1500, 5, - 5), (1875, 6, - 6), (0, 0, 0), (0, 0, 0), (0, 0, 0),
     (0, 0, 0), (0, 0, 0), (0, 0, 0), (0, 0, 0), (0, 0, 0), (0, 0, 0), (0, 0, 0), (0, 0, 0),
     (0, 0, 0), (0, 0, 0), (0, 0, 0), (0, 0, 0), (0, 0, 0), (0, 0, 0), (0, 0, 0), (0, 0, 0),
     (0, 0, 0), (0, 0, 0), (0, 0, 0), (0, 0, 0), (0, 0, 0), (0, 0, 0), (0, 0, 0), (0, 0, 0),
     (0, 0, 0), (0, 0, 0), (0, 0, 0), (0, 0, 0), (0, 0, 0), (0, 0, 0), (0, 0, 0), (0, 0, 0),
     (0, 0, 0), (0, 0, 0), (0, 0, 0), (0, 0, 0), (0, 0, 0), (0, 0, 0), (0, 0, 0), (0, 0, 0),
     (0, 0, 0), (0, 0, 0), (0, 0, 0), (0, 0, 0), (0, 0, 0), (0, 0, 0), (0, 0, 0), (0, 0, 0),
     (0, 0, 0), (0, 0, 0), (0, 0, 0), (0, 0, 0), (0, 0, 0), (0, 0, 0), (0, 0, 0), (0, 0, 0),
     (0, 0, 0), (0, 0, 0), (0, 0, 0), (0, 0, 0), (0, 0, 0), (0, 0, 0), (0, 0, 0), (0, 0, 0),
     (0, 0, 0), (0, 0, 0), (0, 0, 0), (0, 0, 0), (0, 0, 0), (0, 0, 0), (0, 0, 0), (0, 0, 0),
     (32000, 3, - 2), (40, 7, - 6), (40, 7, - 6), (0, 2, - 2), (40, 6, - 5), (0, 0, 0), (0, 0, 0), (0, 0, 0),
     (0, 0, 0), (0, 0, 0), (0, 0, 0), (0, 0, 0), (0, 0, 0), (0, 0, 0), (0, 0, 0), (0, 1, - 1)]"

definition frontier_metrics :: "metrics list" where
  "frontier_metrics =
    [(0, 0, 0), (3, 2, - 1), (5, 2, - 1), (3, 2, - 1), (5, 2, - 1), (5, 2, - 1), (5, 2, - 1), (5, 2, - 1),
     (8, 3, - 2), (8, 3, - 2), (10, 2, - 1), (5, 2, - 1), (0, 0, 0), (0, 0, 0), (0, 0, 0), (0, 0, 0),
     (3, 2, - 1), (3, 2, - 1), (3, 2, - 1), (3, 2, - 1), (3, 2, - 1), (3, 1, 0), (3, 2, - 1), (3, 2, - 1),
     (3, 2, - 1), (3, 1, 0), (3, 2, - 1), (0, 0, 0), (0, 0, 0), (0, 0, 0), (0, 0, 0), (0, 0, 0),
     (30, 2, - 1), (0, 0, 0), (0, 0, 0), (0, 0, 0), (0, 0, 0), (0, 0, 0), (0, 0, 0), (0, 0, 0),
     (0, 0, 0), (0, 0, 0), (0, 0, 0), (0, 0, 0), (0, 0, 0), (0, 0, 0), (0, 0, 0), (0, 0, 0),
     (2, 0, 1), (20, 1, 0), (2, 0, 1), (2, 0, 1), (2, 0, 1), (3, 1, 0), (2, 0, 1), (3, 3, - 3),
     (2, 0, 1), (3, 3, - 3), (2, 0, 1), (20, 1, 0), (20, 4, - 4), (0, 0, 0), (0, 0, 0), (0, 0, 0),
     (20, 1, 0), (2, 0, 1), (2, 0, 1), (2, 0, 1), (2, 0, 1), (2, 0, 1), (0, 0, 0), (0, 0, 0),
     (0, 0, 0), (0, 0, 0), (0, 0, 0), (0, 0, 0), (0, 0, 0), (0, 0, 0), (0, 0, 0), (0, 0, 0),
     (2, 1, - 1), (3, 1, 0), (3, 2, - 2), (3, 2, - 2), (50, 1, 0), (0, 2, - 2), (8, 1, - 1), (10, 2, - 2),
     (2, 0, 1), (2, 0, 1), (2, 0, 1), (1, 0, 0), (0, 0, 0), (0, 0, 0), (0, 0, 0), (0, 0, 0),
     (3, 0, 1), (3, 0, 1), (3, 0, 1), (3, 0, 1), (3, 0, 1), (3, 0, 1), (3, 0, 1), (3, 0, 1),
     (3, 0, 1), (3, 0, 1), (3, 0, 1), (3, 0, 1), (3, 0, 1), (3, 0, 1), (3, 0, 1), (3, 0, 1),
     (3, 0, 1), (3, 0, 1), (3, 0, 1), (3, 0, 1), (3, 0, 1), (3, 0, 1), (3, 0, 1), (3, 0, 1),
     (3, 0, 1), (3, 0, 1), (3, 0, 1), (3, 0, 1), (3, 0, 1), (3, 0, 1), (3, 0, 1), (3, 0, 1),
     (3, 1, 1), (3, 2, 1), (3, 3, 1), (3, 4, 1), (3, 5, 1), (3, 6, 1), (3, 7, 1), (3, 8, 1),
     (3, 9, 1), (3, 10, 1), (3, 11, 1), (3, 12, 1), (3, 13, 1), (3, 14, 1), (3, 15, 1), (3, 16, 1),
     (3, 2, 0), (3, 3, 0), (3, 4, 0), (3, 5, 0), (3, 6, 0), (3, 7, 0), (3, 8, 0), (3, 9, 0),
     (3, 10, 0), (3, 11, 0), (3, 12, 0), (3, 13, 0), (3, 14, 0), (3, 15, 0), (3, 16, 0), (3, 17, 0),
     (375, 2, - 2), (750, 3, - 3), (1125, 4, - 4), (1500, 5, - 5), (1875, 6, - 6), (0, 0, 0), (0, 0, 0), (0, 0, 0),
     (0, 0, 0), (0, 0, 0), (0, 0, 0), (0, 0, 0), (0, 0, 0), (0, 0, 0), (0, 0, 0), (0, 0, 0),
     (0, 0, 0), (0, 0, 0), (0, 0, 0), (0, 0, 0), (0, 0, 0), (0, 0, 0), (0, 0, 0), (0, 0, 0),
     (0, 0, 0), (0, 0, 0), (0, 0, 0), (0, 0, 0), (0, 0, 0), (0, 0, 0), (0, 0, 0), (0, 0, 0),
     (0, 0, 0), (0, 0, 0), (0, 0, 0), (0, 0, 0), (0, 0, 0), (0, 0, 0), (0, 0, 0), (0, 0, 0),
     (0, 0, 0), (0, 0, 0), (0, 0, 0), (0, 0, 0), (0, 0, 0), (0, 0, 0), (0, 0, 0), (0, 0, 0),
     (0, 0, 0), (0, 0, 0), (0, 0, 0), (0, 0, 0), (0, 0, 0), (0, 0, 0), (0, 0, 0), (0, 0, 0),
     (0, 0, 0), (0, 0, 0), (0, 0, 0), (0, 0, 0), (0, 0, 0), (0, 0, 0), (0, 0, 0), (0, 0, 0),
     (0, 0, 0), (0, 0, 0), (0, 0, 0), (0, 0, 0), (0, 0, 0), (0, 0, 0), (0, 0, 0), (0, 0, 0),
     (0, 0, 0), (0, 0, 0), (0, 0, 0), (0, 0, 0), (0, 0, 0), (0, 0, 0), (0, 0, 0), (0, 0, 0),
     (32000, 3, - 2), (40, 7, - 6), (40, 7, - 6), (0, 2, - 2), (0, 0, 0), (0, 0, 0), (0, 0, 0), (0, 0, 0),
     (0, 0, 0), (0, 0, 0), (0, 0, 0), (0, 0, 0), (0, 0, 0), (0, 0, 0), (0, 0, 0), (0, 1, - 1)]"

definition evmc_get_instruction_metrics_table :: "nat \<Rightarrow> metrics list option" where
  "evmc_get_instruction_metrics_table revision =
     (if revision = EVMC_PRAGUE then Some prague_metrics
      else if revision = EVMC_CANCUN then Some cancun_metrics
      else if revision = EVMC_SHANGHAI then Some shanghai_metrics
      else if revision = EVMC_PARIS \<or> revision = EVMC_LONDON then Some london_metrics
      else if revision = EVMC_BERLIN then Some berlin_metrics
      else if revision = EVMC_ISTANBUL then Some istanbul_metrics
      else if revision = EVMC_PETERSBURG \<or> revision = EVMC_CONSTANTINOPLE then Some constantinople_metrics
      else if revision = EVMC_BYZANTIUM then Some byzantium_metrics
      else if revision = EVMC_SPURIOUS_DRAGON \<or> revision = EVMC_TANGERINE_WHISTLE then Some tangerine_whistle_metrics
      else if revision = EVMC_HOMESTEAD then Some homestead_metrics
      else if revision = EVMC_FRONTIER then Some frontier_metrics
      else None)"

section \<open>Names\<close>

definition prague_names :: "string option list" where
  "prague_names =
    [Some ''STOP'', Some ''ADD'', Some ''MUL'', Some ''SUB'', Some ''DIV'', Some ''SDIV'', Some ''MOD'', Some ''SMOD'',
     Some ''ADDMOD'', Some ''MULMOD'', Some ''EXP'', Some ''SIGNEXTEND'', None, None, None, None,
     Some ''LT'', Some ''GT'', Some ''SLT'', Some ''SGT'', Some ''EQ'', Some ''ISZERO'', Some ''AND'', Some ''OR'',
     Some ''XOR'', Some ''NOT'', Some ''BYTE'', Some ''SHL'', Some ''SHR'', Some ''SAR'', None, None,
     Some ''KECCAK256'', None, None, None, None, None, None, None,
     None, None, None, None, None, None, None, None,
     Some ''ADDRESS'', Some ''BALANCE'', Some ''ORIGIN'', Some ''CALLER'', Some ''CALLVALUE'', Some ''CALLDATALOAD'', Some ''CALLDATASIZE'', Some ''CALLDATACOPY'',
     Some ''CODESIZE'', Some ''CODECOPY'', Some ''GASPRICE'', Some ''EXTCODESIZE'', Some ''EXTCODECOPY'', Some ''RETURNDATASIZE'', Some ''RETURNDATACOPY'', Some ''EXTCODEHASH'',
     Some ''BLOCKHASH'', Some ''COINBASE'', Some ''TIMESTAMP'', Some ''NUMBER'', Some ''PREVRANDAO'', Some ''GASLIMIT'', Some ''CHAINID'', Some ''SELFBALANCE'',
     Some ''BASEFEE'', None, None, None, None, None, None, None,
     Some ''POP'', Some ''MLOAD'', Some ''MSTORE'', Some ''MSTORE8'', Some ''SLOAD'', Some ''SSTORE'', Some ''JUMP'', Some ''JUMPI'',
     Some ''PC'', Some ''MSIZE'', Some ''GAS'', Some ''JUMPDEST'', None, None, None, Some ''PUSH0'',
     Some ''PUSH1'', Some ''PUSH2'', Some ''PUSH3'', Some ''PUSH4'', Some ''PUSH5'', Some ''PUSH6'', Some ''PUSH7'', Some ''PUSH8'',
     Some ''PUSH9'', Some ''PUSH10'', Some ''PUSH11'', Some ''PUSH12'', Some ''PUSH13'', Some ''PUSH14'', Some ''PUSH15'', Some ''PUSH16'',
     Some ''PUSH17'', Some ''PUSH18'', Some ''PUSH19'', Some ''PUSH20'', Some ''PUSH21'', Some ''PUSH22'', Some ''PUSH23'', Some ''PUSH24'',
     Some ''PUSH25'', Some ''PUSH26'', Some ''PUSH27'', Some ''PUSH28'', Some ''PUSH29'', Some ''PUSH30'', Some ''PUSH31'', Some ''PUSH32'',
     Some ''DUP1'', Some ''DUP2'', Some ''DUP3'', Some ''DUP4'', Some ''DUP5'', Some ''DUP6'', Some ''DUP7'', Some ''DUP8'',
     Some ''DUP9'', Some ''DUP10'', Some ''DUP11'', Some ''DUP12'', Some ''DUP13'', Some ''DUP14'', Some ''DUP15'', Some ''DUP16'',
     Some ''SWAP1'', Some ''SWAP2'', Some ''SWAP3'', Some ''SWAP4'', Some ''SWAP5'', Some ''SWAP6'', Some ''SWAP7'', Some ''SWAP8'',
     Some ''SWAP9'', Some ''SWAP10'', Some ''SWAP11'', Some ''SWAP12'', Some ''SWAP13'', Some ''SWAP14'', Some ''SWAP15'', Some ''SWAP16'',
     Some ''LOG0'', Some ''LOG1'', Some ''LOG2'', Some ''LOG3'', Some ''LOG4'', None, None, None,
     None, None, None, None, None, None, None, None,
     None, None, None, None, None, None, None, None,
     None, None, None, None, None, None, None, None,
     None, None, None, None, None, None, None, None,
     None, None, None, None, None, None, None, None,
     None, None, None, None, None, None, None, None,
     None, None, None, None, None, None, None, None,
     None, None, None, None, None, None, None, None,
     None, None, None, None, None, None, None, None,
     Some ''CREATE'', Some ''CALL'', Some ''CALLCODE'', Some ''RETURN'', Some ''DELEGATECALL'', Some ''CREATE2'', None, None,
     None, None, Some ''STATICCALL'', None, None, Some ''REVERT'', Some ''INVALID'', Some ''SELFDESTRUCT'']"

definition cancun_names :: "string option list" where
  "cancun_names =
    [Some ''STOP'', Some ''ADD'', Some ''MUL'', Some ''SUB'', Some ''DIV'', Some ''SDIV'', Some ''MOD'', Some ''SMOD'',
     Some ''ADDMOD'', Some ''MULMOD'', Some ''EXP'', Some ''SIGNEXTEND'', None, None, None, None,
     Some ''LT'', Some ''GT'', Some ''SLT'', Some ''SGT'', Some ''EQ'', Some ''ISZERO'', Some ''AND'', Some ''OR'',
     Some ''XOR'', Some ''NOT'', Some ''BYTE'', Some ''SHL'', Some ''SHR'', Some ''SAR'', None, None,
     Some ''KECCAK256'', None, None, None, None, None, None, None,
     None, None, None, None, None, None, None, None,
     Some ''ADDRESS'', Some ''BALANCE'', Some ''ORIGIN'', Some ''CALLER'', Some ''CALLVALUE'', Some ''CALLDATALOAD'', Some ''CALLDATASIZE'', Some ''CALLDATACOPY'',
     Some ''CODESIZE'', Some ''CODECOPY'', Some ''GASPRICE'', Some ''EXTCODESIZE'', Some ''EXTCODECOPY'', Some ''RETURNDATASIZE'', Some ''RETURNDATACOPY'', Some ''EXTCODEHASH'',
     Some ''BLOCKHASH'', Some ''COINBASE'', Some ''TIMESTAMP'', Some ''NUMBER'', Some ''PREVRANDAO'', Some ''GASLIMIT'', Some ''CHAINID'', Some ''SELFBALANCE'',
     Some ''BASEFEE'', None, None, None, None, None, None, None,
     Some ''POP'', Some ''MLOAD'', Some ''MSTORE'', Some ''MSTORE8'', Some ''SLOAD'', Some ''SSTORE'', Some ''JUMP'', Some ''JUMPI'',
     Some ''PC'', Some ''MSIZE'', Some ''GAS'', Some ''JUMPDEST'', None, None, None, Some ''PUSH0'',
     Some ''PUSH1'', Some ''PUSH2'', Some ''PUSH3'', Some ''PUSH4'', Some ''PUSH5'', Some ''PUSH6'', Some ''PUSH7'', Some ''PUSH8'',
     Some ''PUSH9'', Some ''PUSH10'', Some ''PUSH11'', Some ''PUSH12'', Some ''PUSH13'', Some ''PUSH14'', Some ''PUSH15'', Some ''PUSH16'',
     Some ''PUSH17'', Some ''PUSH18'', Some ''PUSH19'', Some ''PUSH20'', Some ''PUSH21'', Some ''PUSH22'', Some ''PUSH23'', Some ''PUSH24'',
     Some ''PUSH25'', Some ''PUSH26'', Some ''PUSH27'', Some ''PUSH28'', Some ''PUSH29'', Some ''PUSH30'', Some ''PUSH31'', Some ''PUSH32'',
     Some ''DUP1'', Some ''DUP2'', Some ''DUP3'', Some ''DUP4'', Some ''DUP5'', Some ''DUP6'', Some ''DUP7'', Some ''DUP8'',
     Some ''DUP9'', Some ''DUP10'', Some ''DUP11'', Some ''DUP12'', Some ''DUP13'', Some ''DUP14'', Some ''DUP15'', Some ''DUP16'',
     Some ''SWAP1'', Some ''SWAP2'', Some ''SWAP3'', Some ''SWAP4'', Some ''SWAP5'', Some ''SWAP6'', Some ''SWAP7'', Some ''SWAP8'',
     Some ''SWAP9'', Some ''SWAP10'', Some ''SWAP11'', Some ''SWAP12'', Some ''SWAP13'', Some ''SWAP14'', Some ''SWAP15'', Some ''SWAP16'',
     Some ''LOG0'', Some ''LOG1'', Some ''LOG2'', Some ''LOG3'', Some ''LOG4'', None, None, None,
     None, None, None, None, None, None, None, None,
     None, None, None, None, None, None, None, None,
     None, None, None, None, None, None, None, None,
     None, None, None, None, None, None, None, None,
     None, None, None, None, None, None, None, None,
     None, None, None, None, None, None, None, None,
     None, None, None, None, None, None, None, None,
     None, None, None, None, None, None, None, None,
     None, None, None, None, None, None, None, None,
     Some ''CREATE'', Some ''CALL'', Some ''CALLCODE'', Some ''RETURN'', Some ''DELEGATECALL'', Some ''CREATE2'', None, None,
     None, None, Some ''STATICCALL'', None, None, Some ''REVERT'', Some ''INVALID'', Some ''SELFDESTRUCT'']"

definition shanghai_names :: "string option list" where
  "shanghai_names =
    [Some ''STOP'', Some ''ADD'', Some ''MUL'', Some ''SUB'', Some ''DIV'', Some ''SDIV'', Some ''MOD'', Some ''SMOD'',
     Some ''ADDMOD'', Some ''MULMOD'', Some ''EXP'', Some ''SIGNEXTEND'', None, None, None, None,
     Some ''LT'', Some ''GT'', Some ''SLT'', Some ''SGT'', Some ''EQ'', Some ''ISZERO'', Some ''AND'', Some ''OR'',
     Some ''XOR'', Some ''NOT'', Some ''BYTE'', Some ''SHL'', Some ''SHR'', Some ''SAR'', None, None,
     Some ''KECCAK256'', None, None, None, None, None, None, None,
     None, None, None, None, None, None, None, None,
     Some ''ADDRESS'', Some ''BALANCE'', Some ''ORIGIN'', Some ''CALLER'', Some ''CALLVALUE'', Some ''CALLDATALOAD'', Some ''CALLDATASIZE'', Some ''CALLDATACOPY'',
     Some ''CODESIZE'', Some ''CODECOPY'', Some ''GASPRICE'', Some ''EXTCODESIZE'', Some ''EXTCODECOPY'', Some ''RETURNDATASIZE'', Some ''RETURNDATACOPY'', Some ''EXTCODEHASH'',
     Some ''BLOCKHASH'', Some ''COINBASE'', Some ''TIMESTAMP'', Some ''NUMBER'', Some ''PREVRANDAO'', Some ''GASLIMIT'', Some ''CHAINID'', Some ''SELFBALANCE'',
     Some ''BASEFEE'', None, None, None, None, None, None, None,
     Some ''POP'', Some ''MLOAD'', Some ''MSTORE'', Some ''MSTORE8'', Some ''SLOAD'', Some ''SSTORE'', Some ''JUMP'', Some ''JUMPI'',
     Some ''PC'', Some ''MSIZE'', Some ''GAS'', Some ''JUMPDEST'', None, None, None, Some ''PUSH0'',
     Some ''PUSH1'', Some ''PUSH2'', Some ''PUSH3'', Some ''PUSH4'', Some ''PUSH5'', Some ''PUSH6'', Some ''PUSH7'', Some ''PUSH8'',
     Some ''PUSH9'', Some ''PUSH10'', Some ''PUSH11'', Some ''PUSH12'', Some ''PUSH13'', Some ''PUSH14'', Some ''PUSH15'', Some ''PUSH16'',
     Some ''PUSH17'', Some ''PUSH18'', Some ''PUSH19'', Some ''PUSH20'', Some ''PUSH21'', Some ''PUSH22'', Some ''PUSH23'', Some ''PUSH24'',
     Some ''PUSH25'', Some ''PUSH26'', Some ''PUSH27'', Some ''PUSH28'', Some ''PUSH29'', Some ''PUSH30'', Some ''PUSH31'', Some ''PUSH32'',
     Some ''DUP1'', Some ''DUP2'', Some ''DUP3'', Some ''DUP4'', Some ''DUP5'', Some ''DUP6'', Some ''DUP7'', Some ''DUP8'',
     Some ''DUP9'', Some ''DUP10'', Some ''DUP11'', Some ''DUP12'', Some ''DUP13'', Some ''DUP14'', Some ''DUP15'', Some ''DUP16'',
     Some ''SWAP1'', Some ''SWAP2'', Some ''SWAP3'', Some ''SWAP4'', Some ''SWAP5'', Some ''SWAP6'', Some ''SWAP7'', Some ''SWAP8'',
     Some ''SWAP9'', Some ''SWAP10'', Some ''SWAP11'', Some ''SWAP12'', Some ''SWAP13'', Some ''SWAP14'', Some ''SWAP15'', Some ''SWAP16'',
     Some ''LOG0'', Some ''LOG1'', Some ''LOG2'', Some ''LOG3'', Some ''LOG4'', None, None, None,
     None, None, None, None, None, None, None, None,
     None, None, None, None, None, None, None, None,
     None, None, None, None, None, None, None, None,
     None, None, None, None, None, None, None, None,
     None, None, None, None, None, None, None, None,
     None, None, None, None, None, None, None, None,
     None, None, None, None, None, None, None, None,
     None, None, None, None, None, None, None, None,
     None, None, None, None, None, None, None, None,
     Some ''CREATE'', Some ''CALL'', Some ''CALLCODE'', Some ''RETURN'', Some ''DELEGATECALL'', Some ''CREATE2'', None, None,
     None, None, Some ''STATICCALL'', None, None, Some ''REVERT'', Some ''INVALID'', Some ''SELFDESTRUCT'']"

definition paris_names :: "string option list" where
  "paris_names =
    [Some ''STOP'', Some ''ADD'', Some ''MUL'', Some ''SUB'', Some ''DIV'', Some ''SDIV'', Some ''MOD'', Some ''SMOD'',
     Some ''ADDMOD'', Some ''MULMOD'', Some ''EXP'', Some ''SIGNEXTEND'', None, None, None, None,
     Some ''LT'', Some ''GT'', Some ''SLT'', Some ''SGT'', Some ''EQ'', Some ''ISZERO'', Some ''AND'', Some ''OR'',
     Some ''XOR'', Some ''NOT'', Some ''BYTE'', Some ''SHL'', Some ''SHR'', Some ''SAR'', None, None,
     Some ''KECCAK256'', None, None, None, None, None, None, None,
     None, None, None, None, None, None, None, None,
     Some ''ADDRESS'', Some ''BALANCE'', Some ''ORIGIN'', Some ''CALLER'', Some ''CALLVALUE'', Some ''CALLDATALOAD'', Some ''CALLDATASIZE'', Some ''CALLDATACOPY'',
     Some ''CODESIZE'', Some ''CODECOPY'', Some ''GASPRICE'', Some ''EXTCODESIZE'', Some ''EXTCODECOPY'', Some ''RETURNDATASIZE'', Some ''RETURNDATACOPY'', Some ''EXTCODEHASH'',
     Some ''BLOCKHASH'', Some ''COINBASE'', Some ''TIMESTAMP'', Some ''NUMBER'', Some ''PREVRANDAO'', Some ''GASLIMIT'', Some ''CHAINID'', Some ''SELFBALANCE'',
     Some ''BASEFEE'', None, None, None, None, None, None, None,
     Some ''POP'', Some ''MLOAD'', Some ''MSTORE'', Some ''MSTORE8'', Some ''SLOAD'', Some ''SSTORE'', Some ''JUMP'', Some ''JUMPI'',
     Some ''PC'', Some ''MSIZE'', Some ''GAS'', Some ''JUMPDEST'', None, None, None, None,
     Some ''PUSH1'', Some ''PUSH2'', Some ''PUSH3'', Some ''PUSH4'', Some ''PUSH5'', Some ''PUSH6'', Some ''PUSH7'', Some ''PUSH8'',
     Some ''PUSH9'', Some ''PUSH10'', Some ''PUSH11'', Some ''PUSH12'', Some ''PUSH13'', Some ''PUSH14'', Some ''PUSH15'', Some ''PUSH16'',
     Some ''PUSH17'', Some ''PUSH18'', Some ''PUSH19'', Some ''PUSH20'', Some ''PUSH21'', Some ''PUSH22'', Some ''PUSH23'', Some ''PUSH24'',
     Some ''PUSH25'', Some ''PUSH26'', Some ''PUSH27'', Some ''PUSH28'', Some ''PUSH29'', Some ''PUSH30'', Some ''PUSH31'', Some ''PUSH32'',
     Some ''DUP1'', Some ''DUP2'', Some ''DUP3'', Some ''DUP4'', Some ''DUP5'', Some ''DUP6'', Some ''DUP7'', Some ''DUP8'',
     Some ''DUP9'', Some ''DUP10'', Some ''DUP11'', Some ''DUP12'', Some ''DUP13'', Some ''DUP14'', Some ''DUP15'', Some ''DUP16'',
     Some ''SWAP1'', Some ''SWAP2'', Some ''SWAP3'', Some ''SWAP4'', Some ''SWAP5'', Some ''SWAP6'', Some ''SWAP7'', Some ''SWAP8'',
     Some ''SWAP9'', Some ''SWAP10'', Some ''SWAP11'', Some ''SWAP12'', Some ''SWAP13'', Some ''SWAP14'', Some ''SWAP15'', Some ''SWAP16'',
     Some ''LOG0'', Some ''LOG1'', Some ''LOG2'', Some ''LOG3'', Some ''LOG4'', None, None, None,
     None, None, None, None, None, None, None, None,
     None, None, None, None, None, None, None, None,
     None, None, None, None, None, None, None, None,
     None, None, None, None, None, None, None, None,
     None, None, None, None, None, None, None, None,
     None, None, None, None, None, None, None, None,
     None, None, None, None, None, None, None, None,
     None, None, None, None, None, None, None, None,
     None, None, None, None, None, None, None, None,
     Some ''CREATE'', Some ''CALL'', Some ''CALLCODE'', Some ''RETURN'', Some ''DELEGATECALL'', Some ''CREATE2'', None, None,
     None, None, Some ''STATICCALL'', None, None, Some ''REVERT'', Some ''INVALID'', Some ''SELFDESTRUCT'']"

definition london_names :: "string option list" where
  "london_names =
    [Some ''STOP'', Some ''ADD'', Some ''MUL'', Some ''SUB'', Some ''DIV'', Some ''SDIV'', Some ''MOD'', Some ''SMOD'',
     Some ''ADDMOD'', Some ''MULMOD'', Some ''EXP'', Some ''SIGNEXTEND'', None, None, None, None,
     Some ''LT'', Some ''GT'', Some ''SLT'', Some ''SGT'', Some ''EQ'', Some ''ISZERO'', Some ''AND'', Some ''OR'',
     Some ''XOR'', Some ''NOT'', Some ''BYTE'', Some ''SHL'', Some ''SHR'', Some ''SAR'', None, None,
     Some ''KECCAK256'', None, None, None, None, None, None, None,
     None, None, None, None, None, None, None, None,
     Some ''ADDRESS'', Some ''BALANCE'', Some ''ORIGIN'', Some ''CALLER'', Some ''CALLVALUE'', Some ''CALLDATALOAD'', Some ''CALLDATASIZE'', Some ''CALLDATACOPY'',
     Some ''CODESIZE'', Some ''CODECOPY'', Some ''GASPRICE'', Some ''EXTCODESIZE'', Some ''EXTCODECOPY'', Some ''RETURNDATASIZE'', Some ''RETURNDATACOPY'', Some ''EXTCODEHASH'',
     Some ''BLOCKHASH'', Some ''COINBASE'', Some ''TIMESTAMP'', Some ''NUMBER'', Some ''DIFFICULTY'', Some ''GASLIMIT'', Some ''CHAINID'', Some ''SELFBALANCE'',
     Some ''BASEFEE'', None, None, None, None, None, None, None,
     Some ''POP'', Some ''MLOAD'', Some ''MSTORE'', Some ''MSTORE8'', Some ''SLOAD'', Some ''SSTORE'', Some ''JUMP'', Some ''JUMPI'',
     Some ''PC'', Some ''MSIZE'', Some ''GAS'', Some ''JUMPDEST'', None, None, None, None,
     Some ''PUSH1'', Some ''PUSH2'', Some ''PUSH3'', Some ''PUSH4'', Some ''PUSH5'', Some ''PUSH6'', Some ''PUSH7'', Some ''PUSH8'',
     Some ''PUSH9'', Some ''PUSH10'', Some ''PUSH11'', Some ''PUSH12'', Some ''PUSH13'', Some ''PUSH14'', Some ''PUSH15'', Some ''PUSH16'',
     Some ''PUSH17'', Some ''PUSH18'', Some ''PUSH19'', Some ''PUSH20'', Some ''PUSH21'', Some ''PUSH22'', Some ''PUSH23'', Some ''PUSH24'',
     Some ''PUSH25'', Some ''PUSH26'', Some ''PUSH27'', Some ''PUSH28'', Some ''PUSH29'', Some ''PUSH30'', Some ''PUSH31'', Some ''PUSH32'',
     Some ''DUP1'', Some ''DUP2'', Some ''DUP3'', Some ''DUP4'', Some ''DUP5'', Some ''DUP6'', Some ''DUP7'', Some ''DUP8'',
     Some ''DUP9'', Some ''DUP10'', Some ''DUP11'', Some ''DUP12'', Some ''DUP13'', Some ''DUP14'', Some ''DUP15'', Some ''DUP16'',
     Some ''SWAP1'', Some ''SWAP2'', Some ''SWAP3'', Some ''SWAP4'', Some ''SWAP5'', Some ''SWAP6'', Some ''SWAP7'', Some ''SWAP8'',
     Some ''SWAP9'', Some ''SWAP10'', Some ''SWAP11'', Some ''SWAP12'', Some ''SWAP13'', Some ''SWAP14'', Some ''SWAP15'', Some ''SWAP16'',
     Some ''LOG0'', Some ''LOG1'', Some ''LOG2'', Some ''LOG3'', Some ''LOG4'', None, None, None,
     None, None, None, None, None, None, None, None,
     None, None, None, None, None, None, None, None,
     None, None, None, None, None, None, None, None,
     None, None, None, None, None, None, None, None,
     None, None, None, None, None, None, None, None,
     None, None, None, None, None, None, None, None,
     None, None, None, None, None, None, None, None,
     None, None, None, None, None, None, None, None,
     None, None, None, None, None, None, None, None,
     Some ''CREATE'', Some ''CALL'', Some ''CALLCODE'', Some ''RETURN'', Some ''DELEGATECALL'', Some ''CREATE2'', None, None,
     None, None, Some ''STATICCALL'', None, None, Some ''REVERT'', Some ''INVALID'', Some ''SELFDESTRUCT'']"

definition istanbul_names :: "string option list" where
  "istanbul_names =
    [Some ''STOP'', Some ''ADD'', Some ''MUL'', Some ''SUB'', Some ''DIV'', Some ''SDIV'', Some ''MOD'', Some ''SMOD'',
     Some ''ADDMOD'', Some ''MULMOD'', Some ''EXP'', Some ''SIGNEXTEND'', None, None, None, None,
     Some ''LT'', Some ''GT'', Some ''SLT'', Some ''SGT'', Some ''EQ'', Some ''ISZERO'', Some ''AND'', Some ''OR'',
     Some ''XOR'', Some ''NOT'', Some ''BYTE'', Some ''SHL'', Some ''SHR'', Some ''SAR'', None, None,
     Some ''KECCAK256'', None, None, None, None, None, None, None,
     None, None, None, None, None, None, None, None,
     Some ''ADDRESS'', Some ''BALANCE'', Some ''ORIGIN'', Some ''CALLER'', Some ''CALLVALUE'', Some ''CALLDATALOAD'', Some ''CALLDATASIZE'', Some ''CALLDATACOPY'',
     Some ''CODESIZE'', Some ''CODECOPY'', Some ''GASPRICE'', Some ''EXTCODESIZE'', Some ''EXTCODECOPY'', Some ''RETURNDATASIZE'', Some ''RETURNDATACOPY'', Some ''EXTCODEHASH'',
     Some ''BLOCKHASH'', Some ''COINBASE'', Some ''TIMESTAMP'', Some ''NUMBER'', Some ''DIFFICULTY'', Some ''GASLIMIT'', Some ''CHAINID'', Some ''SELFBALANCE'',
     None, None, None, None, None, None, None, None,
     Some ''POP'', Some ''MLOAD'', Some ''MSTORE'', Some ''MSTORE8'', Some ''SLOAD'', Some ''SSTORE'', Some ''JUMP'', Some ''JUMPI'',
     Some ''PC'', Some ''MSIZE'', Some ''GAS'', Some ''JUMPDEST'', None, None, None, None,
     Some ''PUSH1'', Some ''PUSH2'', Some ''PUSH3'', Some ''PUSH4'', Some ''PUSH5'', Some ''PUSH6'', Some ''PUSH7'', Some ''PUSH8'',
     Some ''PUSH9'', Some ''PUSH10'', Some ''PUSH11'', Some ''PUSH12'', Some ''PUSH13'', Some ''PUSH14'', Some ''PUSH15'', Some ''PUSH16'',
     Some ''PUSH17'', Some ''PUSH18'', Some ''PUSH19'', Some ''PUSH20'', Some ''PUSH21'', Some ''PUSH22'', Some ''PUSH23'', Some ''PUSH24'',
     Some ''PUSH25'', Some ''PUSH26'', Some ''PUSH27'', Some ''PUSH28'', Some ''PUSH29'', Some ''PUSH30'', Some ''PUSH31'', Some ''PUSH32'',
     Some ''DUP1'', Some ''DUP2'', Some ''DUP3'', Some ''DUP4'', Some ''DUP5'', Some ''DUP6'', Some ''DUP7'', Some ''DUP8'',
     Some ''DUP9'', Some ''DUP10'', Some ''DUP11'', Some ''DUP12'', Some ''DUP13'', Some ''DUP14'', Some ''DUP15'', Some ''DUP16'',
     Some ''SWAP1'', Some ''SWAP2'', Some ''SWAP3'', Some ''SWAP4'', Some ''SWAP5'', Some ''SWAP6'', Some ''SWAP7'', Some ''SWAP8'',
     Some ''SWAP9'', Some ''SWAP10'', Some ''SWAP11'', Some ''SWAP12'', Some ''SWAP13'', Some ''SWAP14'', Some ''SWAP15'', Some ''SWAP16'',
     Some ''LOG0'', Some ''LOG1'', Some ''LOG2'', Some ''LOG3'', Some ''LOG4'', None, None, None,
     None, None, None, None, None, None, None, None,
     None, None, None, None, None, None, None, None,
     None, None, None, None, None, None, None, None,
     None, None, None, None, None, None, None, None,
     None, None, None, None, None, None, None, None,
     None, None, None, None, None, None, None, None,
     None, None, None, None, None, None, None, None,
     None, None, None, None, None, None, None, None,
     None, None, None, None, None, None, None, None,
     Some ''CREATE'', Some ''CALL'', Some ''CALLCODE'', Some ''RETURN'', Some ''DELEGATECALL'', Some ''CREATE2'', None, None,
     None, None, Some ''STATICCALL'', None, None, Some ''REVERT'', Some ''INVALID'', Some ''SELFDESTRUCT'']"

definition constantinople_names :: "string option list" where
  "constantinople_names =
    [Some ''STOP'', Some ''ADD'', Some ''MUL'', Some ''SUB'', Some ''DIV'', Some ''SDIV'', Some ''MOD'', Some ''SMOD'',
     Some ''ADDMOD'', Some ''MULMOD'', Some ''EXP'', Some ''SIGNEXTEND'', None, None, None, None,
     Some ''LT'', Some ''GT'', Some ''SLT'', Some ''SGT'', Some ''EQ'', Some ''ISZERO'', Some ''AND'', Some ''OR'',
     Some ''XOR'', Some ''NOT'', Some ''BYTE'', Some ''SHL'', Some ''SHR'', Some ''SAR'', None, None,
     Some ''KECCAK256'', None, None, None, None, None, None, None,
     None, None, None, None, None, None, None, None,
     Some ''ADDRESS'', Some ''BALANCE'', Some ''ORIGIN'', Some ''CALLER'', Some ''CALLVALUE'', Some ''CALLDATALOAD'', Some ''CALLDATASIZE'', Some ''CALLDATACOPY'',
     Some ''CODESIZE'', Some ''CODECOPY'', Some ''GASPRICE'', Some ''EXTCODESIZE'', Some ''EXTCODECOPY'', Some ''RETURNDATASIZE'', Some ''RETURNDATACOPY'', Some ''EXTCODEHASH'',
     Some ''BLOCKHASH'', Some ''COINBASE'', Some ''TIMESTAMP'', Some ''NUMBER'', Some ''DIFFICULTY'', Some ''GASLIMIT'', None, None,
     None, None, None, None, None, None, None, None,
     Some ''POP'', Some ''MLOAD'', Some ''MSTORE'', Some ''MSTORE8'', Some ''SLOAD'', Some ''SSTORE'', Some ''JUMP'', Some ''JUMPI'',
     Some ''PC'', Some ''MSIZE'', Some ''GAS'', Some ''JUMPDEST'', None, None, None, None,
     Some ''PUSH1'', Some ''PUSH2'', Some ''PUSH3'', Some ''PUSH4'', Some ''PUSH5'', Some ''PUSH6'', Some ''PUSH7'', Some ''PUSH8'',
     Some ''PUSH9'', Some ''PUSH10'', Some ''PUSH11'', Some ''PUSH12'', Some ''PUSH13'', Some ''PUSH14'', Some ''PUSH15'', Some ''PUSH16'',
     Some ''PUSH17'', Some ''PUSH18'', Some ''PUSH19'', Some ''PUSH20'', Some ''PUSH21'', Some ''PUSH22'', Some ''PUSH23'', Some ''PUSH24'',
     Some ''PUSH25'', Some ''PUSH26'', Some ''PUSH27'', Some ''PUSH28'', Some ''PUSH29'', Some ''PUSH30'', Some ''PUSH31'', Some ''PUSH32'',
     Some ''DUP1'', Some ''DUP2'', Some ''DUP3'', Some ''DUP4'', Some ''DUP5'', Some ''DUP6'', Some ''DUP7'', Some ''DUP8'',
     Some ''DUP9'', Some ''DUP10'', Some ''DUP11'', Some ''DUP12'', Some ''DUP13'', Some ''DUP14'', Some ''DUP15'', Some ''DUP16'',
     Some ''SWAP1'', Some ''SWAP2'', Some ''SWAP3'', Some ''SWAP4'', Some ''SWAP5'', Some ''SWAP6'', Some ''SWAP7'', Some ''SWAP8'',
     Some ''SWAP9'', Some ''SWAP10'', Some ''SWAP11'', Some ''SWAP12'', Some ''SWAP13'', Some ''SWAP14'', Some ''SWAP15'', Some ''SWAP16'',
     Some ''LOG0'', Some ''LOG1'', Some ''LOG2'', Some ''LOG3'', Some ''LOG4'', None, None, None,
     None, None, None, None, None, None, None, None,
     None, None, None, None, None, None, None, None,
     None, None, None, None, None, None, None, None,
     None, None, None, None, None, None, None, None,
     None, None, None, None, None, None, None, None,
     None, None, None, None, None, None, None, None,
     None, None, None, None, None, None, None, None,
     None, None, None, None, None, None, None, None,
     None, None, None, None, None, None, None, None,
     Some ''CREATE'', Some ''CALL'', Some ''CALLCODE'', Some ''RETURN'', Some ''DELEGATECALL'', Some ''CREATE2'', None, None,
     None, None, Some ''STATICCALL'', None, None, Some ''REVERT'', Some ''INVALID'', Some ''SELFDESTRUCT'']"

definition byzantium_names :: "string option list" where
  "byzantium_names =
    [Some ''STOP'', Some ''ADD'', Some ''MUL'', Some ''SUB'', Some ''DIV'', Some ''SDIV'', Some ''MOD'', Some ''SMOD'',
     Some ''ADDMOD'', Some ''MULMOD'', Some ''EXP'', Some ''SIGNEXTEND'', None, None, None, None,
     Some ''LT'', Some ''GT'', Some ''SLT'', Some ''SGT'', Some ''EQ'', Some ''ISZERO'', Some ''AND'', Some ''OR'',
     Some ''XOR'', Some ''NOT'', Some ''BYTE'', None, None, None, None, None,
     Some ''KECCAK256'', None, None, None, None, None, None, None,
     None, None, None, None, None, None, None, None,
     Some ''ADDRESS'', Some ''BALANCE'', Some ''ORIGIN'', Some ''CALLER'', Some ''CALLVALUE'', Some ''CALLDATALOAD'', Some ''CALLDATASIZE'', Some ''CALLDATACOPY'',
     Some ''CODESIZE'', Some ''CODECOPY'', Some ''GASPRICE'', Some ''EXTCODESIZE'', Some ''EXTCODECOPY'', Some ''RETURNDATASIZE'', Some ''RETURNDATACOPY'', None,
     Some ''BLOCKHASH'', Some ''COINBASE'', Some ''TIMESTAMP'', Some ''NUMBER'', Some ''DIFFICULTY'', Some ''GASLIMIT'', None, None,
     None, None, None, None, None, None, None, None,
     Some ''POP'', Some ''MLOAD'', Some ''MSTORE'', Some ''MSTORE8'', Some ''SLOAD'', Some ''SSTORE'', Some ''JUMP'', Some ''JUMPI'',
     Some ''PC'', Some ''MSIZE'', Some ''GAS'', Some ''JUMPDEST'', None, None, None, None,
     Some ''PUSH1'', Some ''PUSH2'', Some ''PUSH3'', Some ''PUSH4'', Some ''PUSH5'', Some ''PUSH6'', Some ''PUSH7'', Some ''PUSH8'',
     Some ''PUSH9'', Some ''PUSH10'', Some ''PUSH11'', Some ''PUSH12'', Some ''PUSH13'', Some ''PUSH14'', Some ''PUSH15'', Some ''PUSH16'',
     Some ''PUSH17'', Some ''PUSH18'', Some ''PUSH19'', Some ''PUSH20'', Some ''PUSH21'', Some ''PUSH22'', Some ''PUSH23'', Some ''PUSH24'',
     Some ''PUSH25'', Some ''PUSH26'', Some ''PUSH27'', Some ''PUSH28'', Some ''PUSH29'', Some ''PUSH30'', Some ''PUSH31'', Some ''PUSH32'',
     Some ''DUP1'', Some ''DUP2'', Some ''DUP3'', Some ''DUP4'', Some ''DUP5'', Some ''DUP6'', Some ''DUP7'', Some ''DUP8'',
     Some ''DUP9'', Some ''DUP10'', Some ''DUP11'', Some ''DUP12'', Some ''DUP13'', Some ''DUP14'', Some ''DUP15'', Some ''DUP16'',
     Some ''SWAP1'', Some ''SWAP2'', Some ''SWAP3'', Some ''SWAP4'', Some ''SWAP5'', Some ''SWAP6'', Some ''SWAP7'', Some ''SWAP8'',
     Some ''SWAP9'', Some ''SWAP10'', Some ''SWAP11'', Some ''SWAP12'', Some ''SWAP13'', Some ''SWAP14'', Some ''SWAP15'', Some ''SWAP16'',
     Some ''LOG0'', Some ''LOG1'', Some ''LOG2'', Some ''LOG3'', Some ''LOG4'', None, None, None,
     None, None, None, None, None, None, None, None,
     None, None, None, None, None, None, None, None,
     None, None, None, None, None, None, None, None,
     None, None, None, None, None, None, None, None,
     None, None, None, None, None, None, None, None,
     None, None, None, None, None, None, None, None,
     None, None, None, None, None, None, None, None,
     None, None, None, None, None, None, None, None,
     None, None, None, None, None, None, None, None,
     Some ''CREATE'', Some ''CALL'', Some ''CALLCODE'', Some ''RETURN'', Some ''DELEGATECALL'', None, None, None,
     None, None, Some ''STATICCALL'', None, None, Some ''REVERT'', Some ''INVALID'', Some ''SELFDESTRUCT'']"

definition homestead_names :: "string option list" where
  "homestead_names =
    [Some ''STOP'', Some ''ADD'', Some ''MUL'', Some ''SUB'', Some ''DIV'', Some ''SDIV'', Some ''MOD'', Some ''SMOD'',
     Some ''ADDMOD'', Some ''MULMOD'', Some ''EXP'', Some ''SIGNEXTEND'', None, None, None, None,
     Some ''LT'', Some ''GT'', Some ''SLT'', Some ''SGT'', Some ''EQ'', Some ''ISZERO'', Some ''AND'', Some ''OR'',
     Some ''XOR'', Some ''NOT'', Some ''BYTE'', None, None, None, None, None,
     Some ''KECCAK256'', None, None, None, None, None, None, None,
     None, None, None, None, None, None, None, None,
     Some ''ADDRESS'', Some ''BALANCE'', Some ''ORIGIN'', Some ''CALLER'', Some ''CALLVALUE'', Some ''CALLDATALOAD'', Some ''CALLDATASIZE'', Some ''CALLDATACOPY'',
     Some ''CODESIZE'', Some ''CODECOPY'', Some ''GASPRICE'', Some ''EXTCODESIZE'', Some ''EXTCODECOPY'', None, None, None,
     Some ''BLOCKHASH'', Some ''COINBASE'', Some ''TIMESTAMP'', Some ''NUMBER'', Some ''DIFFICULTY'', Some ''GASLIMIT'', None, None,
     None, None, None, None, None, None, None, None,
     Some ''POP'', Some ''MLOAD'', Some ''MSTORE'', Some ''MSTORE8'', Some ''SLOAD'', Some ''SSTORE'', Some ''JUMP'', Some ''JUMPI'',
     Some ''PC'', Some ''MSIZE'', Some ''GAS'', Some ''JUMPDEST'', None, None, None, None,
     Some ''PUSH1'', Some ''PUSH2'', Some ''PUSH3'', Some ''PUSH4'', Some ''PUSH5'', Some ''PUSH6'', Some ''PUSH7'', Some ''PUSH8'',
     Some ''PUSH9'', Some ''PUSH10'', Some ''PUSH11'', Some ''PUSH12'', Some ''PUSH13'', Some ''PUSH14'', Some ''PUSH15'', Some ''PUSH16'',
     Some ''PUSH17'', Some ''PUSH18'', Some ''PUSH19'', Some ''PUSH20'', Some ''PUSH21'', Some ''PUSH22'', Some ''PUSH23'', Some ''PUSH24'',
     Some ''PUSH25'', Some ''PUSH26'', Some ''PUSH27'', Some ''PUSH28'', Some ''PUSH29'', Some ''PUSH30'', Some ''PUSH31'', Some ''PUSH32'',
     Some ''DUP1'', Some ''DUP2'', Some ''DUP3'', Some ''DUP4'', Some ''DUP5'', Some ''DUP6'', Some ''DUP7'', Some ''DUP8'',
     Some ''DUP9'', Some ''DUP10'', Some ''DUP11'', Some ''DUP12'', Some ''DUP13'', Some ''DUP14'', Some ''DUP15'', Some ''DUP16'',
     Some ''SWAP1'', Some ''SWAP2'', Some ''SWAP3'', Some ''SWAP4'', Some ''SWAP5'', Some ''SWAP6'', Some ''SWAP7'', Some ''SWAP8'',
     Some ''SWAP9'', Some ''SWAP10'', Some ''SWAP11'', Some ''SWAP12'', Some ''SWAP13'', Some ''SWAP14'', Some ''SWAP15'', Some ''SWAP16'',
     Some ''LOG0'', Some ''LOG1'', Some ''LOG2'', Some ''LOG3'', Some ''LOG4'', None, None, None,
     None, None, None, None, None, None, None, None,
     None, None, None, None, None, None, None, None,
     None, None, None, None, None, None, None, None,
     None, None, None, None, None, None, None, None,
     None, None, None, None, None, None, None, None,
     None, None, None, None, None, None, None, None,
     None, None, None, None, None, None, None, None,
     None, None, None, None, None, None, None, None,
     None, None, None, None, None, None, None, None,
     Some ''CREATE'', Some ''CALL'', Some ''CALLCODE'', Some ''RETURN'', Some ''DELEGATECALL'', None, None, None,
     None, None, None, None, None, None, Some ''INVALID'', Some ''SELFDESTRUCT'']"

definition frontier_names :: "string option list" where
  "frontier_names =
    [Some ''STOP'', Some ''ADD'', Some ''MUL'', Some ''SUB'', Some ''DIV'', Some ''SDIV'', Some ''MOD'', Some ''SMOD'',
     Some ''ADDMOD'', Some ''MULMOD'', Some ''EXP'', Some ''SIGNEXTEND'', None, None, None, None,
     Some ''LT'', Some ''GT'', Some ''SLT'', Some ''SGT'', Some ''EQ'', Some ''ISZERO'', Some ''AND'', Some ''OR'',
     Some ''XOR'', Some ''NOT'', Some ''BYTE'', None, None, None, None, None,
     Some ''KECCAK256'', None, None, None, None, None, None, None,
     None, None, None, None, None, None, None, None,
     Some ''ADDRESS'', Some ''BALANCE'', Some ''ORIGIN'', Some ''CALLER'', Some ''CALLVALUE'', Some ''CALLDATALOAD'', Some ''CALLDATASIZE'', Some ''CALLDATACOPY'',
     Some ''CODESIZE'', Some ''CODECOPY'', Some ''GASPRICE'', Some ''EXTCODESIZE'', Some ''EXTCODECOPY'', None, None, None,
     Some ''BLOCKHASH'', Some ''COINBASE'', Some ''TIMESTAMP'', Some ''NUMBER'', Some ''DIFFICULTY'', Some ''GASLIMIT'', None, None,
     None, None, None, None, None, None, None, None,
     Some ''POP'', Some ''MLOAD'', Some ''MSTORE'', Some ''MSTORE8'', Some ''SLOAD'', Some ''SSTORE'', Some ''JUMP'', Some ''JUMPI'',
     Some ''PC'', Some ''MSIZE'', Some ''GAS'', Some ''JUMPDEST'', None, None, None, None,
     Some ''PUSH1'', Some ''PUSH2'', Some ''PUSH3'', Some ''PUSH4'', Some ''PUSH5'', Some ''PUSH6'', Some ''PUSH7'', Some ''PUSH8'',
     Some ''PUSH9'', Some ''PUSH10'', Some ''PUSH11'', Some ''PUSH12'', Some ''PUSH13'', Some ''PUSH14'', Some ''PUSH15'', Some ''PUSH16'',
     Some ''PUSH17'', Some ''PUSH18'', Some ''PUSH19'', Some ''PUSH20'', Some ''PUSH21'', Some ''PUSH22'', Some ''PUSH23'', Some ''PUSH24'',
     Some ''PUSH25'', Some ''PUSH26'', Some ''PUSH27'', Some ''PUSH28'', Some ''PUSH29'', Some ''PUSH30'', Some ''PUSH31'', Some ''PUSH32'',
     Some ''DUP1'', Some ''DUP2'', Some ''DUP3'', Some ''DUP4'', Some ''DUP5'', Some ''DUP6'', Some ''DUP7'', Some ''DUP8'',
     Some ''DUP9'', Some ''DUP10'', Some ''DUP11'', Some ''DUP12'', Some ''DUP13'', Some ''DUP14'', Some ''DUP15'', Some ''DUP16'',
     Some ''SWAP1'', Some ''SWAP2'', Some ''SWAP3'', Some ''SWAP4'', Some ''SWAP5'', Some ''SWAP6'', Some ''SWAP7'', Some ''SWAP8'',
     Some ''SWAP9'', Some ''SWAP10'', Some ''SWAP11'', Some ''SWAP12'', Some ''SWAP13'', Some ''SWAP14'', Some ''SWAP15'', Some ''SWAP16'',
     Some ''LOG0'', Some ''LOG1'', Some ''LOG2'', Some ''LOG3'', Some ''LOG4'', None, None, None,
     None, None, None, None, None, None, None, None,
     None, None, None, None, None, None, None, None,
     None, None, None, None, None, None, None, None,
     None, None, None, None, None, None, None, None,
     None, None, None, None, None, None, None, None,
     None, None, None, None, None, None, None, None,
     None, None, None, None, None, None, None, None,
     None, None, None, None, None, None, None, None,
     None, None, None, None, None, None, None, None,
     Some ''CREATE'', Some ''CALL'', Some ''CALLCODE'', Some ''RETURN'', None, None, None, None,
     None, None, None, None, None, None, Some ''INVALID'', Some ''SELFDESTRUCT'']"

definition evmc_get_instruction_names_table :: "nat \<Rightarrow> string option list option" where
  "evmc_get_instruction_names_table revision =
     (if revision = EVMC_PRAGUE then Some prague_names
      else if revision = EVMC_CANCUN then Some cancun_names
      else if revision = EVMC_SHANGHAI then Some shanghai_names
      else if revision = EVMC_PARIS then Some paris_names
      else if revision = EVMC_LONDON then Some london_names
      else if revision = EVMC_BERLIN \<or> revision = EVMC_ISTANBUL then Some istanbul_names
      else if revision = EVMC_PETERSBURG \<or> revision = EVMC_CONSTANTINOPLE then Some constantinople_names
      else if revision = EVMC_BYZANTIUM then Some byzantium_names
      else if revision = EVMC_SPURIOUS_DRAGON \<or> revision = EVMC_TANGERINE_WHISTLE \<or> revision = EVMC_HOMESTEAD then Some homestead_names
      else if revision = EVMC_FRONTIER then Some frontier_names
      else None)"

section \<open>Both accounts side by side\<close>

text \<open>What each of the 256 bytes means to the interpreter.\<close>

definition opcodes :: "Opcode option list" where
  "opcodes = map (\<lambda>n. opcode_of_byte (word_of_nat n)) [0..<256]"

text \<open>Lookup of a rising sequence of keys in a sorted table, in one pass.\<close>

fun spread :: "(nat \<times> 'a) list \<Rightarrow> nat list \<Rightarrow> 'a option list" where
  "spread t [] = []"
| "spread [] (n # ns) = None # spread [] ns"
| "spread ((k, v) # t) (n # ns) = (if n = k then Some v # spread t ns else None # spread ((k, v) # t) ns)"

lemma map_of_spread:
  fixes t :: "(nat \<times> 'a) list"
  shows "sorted_wrt (<) (map fst t) \<Longrightarrow> \<forall>k \<in> set (map fst t). n \<le> k \<Longrightarrow> map (map_of t) [n..<m] = spread t [n..<m]"
proof (induction "m - n" arbitrary: t n)
  case (Suc i)
  then have up: "[n..<m] = n # [Suc n..<m]" by (simp add: upt_conv_Cons)
  have IH: "map (map_of t') [Suc n..<m] = spread t' [Suc n..<m]" if "sorted_wrt (<) (map fst t')" "\<forall>k \<in> set (map fst t'). Suc n \<le> k"
    for t' :: "(nat \<times> 'a) list"
    by (rule Suc.hyps(1)) (use Suc.hyps(2) that in auto)
  show ?case
  proof (cases t)
    case Nil
    then show ?thesis using IH [of "[]"] by (simp add: up)
  next
    case (Cons p t')
    obtain k v where p: "p = (k, v)" by force
    show ?thesis
    proof (cases "n = k")
      case True
      have "map (map_of t) [Suc n..<m] = map (map_of t') [Suc n..<m]"
        by (rule map_cong [OF refl]) (use True Cons p in auto)
      moreover have "map (map_of t') [Suc n..<m] = spread t' [Suc n..<m]"
        using Suc.prems True Cons p by (intro IH) (auto simp: Suc_le_eq)
      ultimately have "map (map_of t) [Suc n..<m] = spread t' [Suc n..<m]" by simp
      then show ?thesis unfolding up list.map by (simp add: Cons p True)
    next
      case False
      then have "map_of t n = None" using Suc.prems Cons p by (auto simp: map_of_eq_None_iff)
      moreover have "map (map_of t) [Suc n..<m] = spread t [Suc n..<m]"
        using Suc.prems False Cons p by (intro IH) (auto simp: Suc_le_eq)
      ultimately show ?thesis unfolding up list.map using False by (simp add: Cons p)
    qed
  qed
qed simp

lemma opcode_of_nat:
  assumes "n < 256"
  shows "opcode_of_byte (word_of_nat n) =
     (if 0x60 \<le> n \<and> n \<le> 0x7f then Some (Op_code (OP_PUSH (n - 0x5f)))
      else if 0x80 \<le> n \<and> n \<le> 0x8f then Some (Op_stack (OP_DUP (n - 0x7f)))
      else if 0x90 \<le> n \<and> n \<le> 0x9f then Some (Op_stack (OP_SWAP (n - 0x8f)))
      else if 0xa0 \<le> n \<and> n \<le> 0xa4 then Some (Op_result (OP_LOG (n - 0xa0)))
      else map_of opcode_table n)"
  unfolding opcode_of_byte_def Let_def unat_of_nat_byte [OF assms] ..

lemma upt_split: "i \<le> j \<Longrightarrow> j \<le> k \<Longrightarrow> [i..<k] = [i..<j] @ [j..<k]"
  by (metis le_add_diff_inverse upt_add_eq_append)

lemma upt_bytes: "[0..<256] = [0..<96] @ [96..<128] @ [128..<144] @ [144..<160] @ [160..<165] @ [165..<256]"
  using upt_split [of 0 96 256] upt_split [of 96 128 256] upt_split [of 128 144 256] upt_split [of 144 160 256] upt_split [of 160 165 256]
  by (simp del: upt_rec_numeral)

lemma map_of_drop: "\<forall>p \<in> set (take i t). fst p \<noteq> n \<Longrightarrow> map_of t n = map_of (drop i t) n"
proof -
  assume "\<forall>p \<in> set (take i t). fst p \<noteq> n"
  then have "map_of (take i t) n = None" by (auto simp: map_of_eq_None_iff)
  then have "map_of (take i t @ drop i t) n = map_of (drop i t) n" by (simp add: map_add_def del: append_take_drop_id)
  then show ?thesis by simp
qed

lemma opcodes_split:
  "opcodes = spread opcode_table [0..<96] @ map (\<lambda>n. Some (Op_code (OP_PUSH (n - 0x5f)))) [96..<128] @
     map (\<lambda>n. Some (Op_stack (OP_DUP (n - 0x7f)))) [128..<144] @ map (\<lambda>n. Some (Op_stack (OP_SWAP (n - 0x8f)))) [144..<160] @
     map (\<lambda>n. Some (Op_result (OP_LOG (n - 0xa0)))) [160..<165] @ spread (drop 68 opcode_table) [165..<256]"
proof -
  let ?f = "\<lambda>n. opcode_of_byte (word_of_nat n)"
  have keys: "sorted_wrt (<) (map fst opcode_table)" "\<forall>p \<in> set (take 68 opcode_table). fst p < 165" "\<forall>k \<in> set (map fst (drop 68 opcode_table)). 165 \<le> k"
    by (simp_all add: opcode_table_def)
  have "map ?f [0..<96] = map (map_of opcode_table) [0..<96]"
    by (rule map_cong [OF refl]) (simp add: opcode_of_nat del: upt_rec_numeral)
  also have "\<dots> = spread opcode_table [0..<96]" by (rule map_of_spread) (use keys(1) in simp_all)
  finally have 1: "map ?f [0..<96] = spread opcode_table [0..<96]" .
  have "map ?f [165..<256] = map (map_of (drop 68 opcode_table)) [165..<256]"
    by (rule map_cong [OF refl]) (use keys(2) in \<open>auto simp: opcode_of_nat simp del: upt_rec_numeral intro!: map_of_drop\<close>)
  also have "\<dots> = spread (drop 68 opcode_table) [165..<256]"
    by (rule map_of_spread [OF _ keys(3)]) (unfold drop_map [symmetric], rule sorted_wrt_drop [OF keys(1)])
  finally have 2: "map ?f [165..<256] = spread (drop 68 opcode_table) [165..<256]" .
  have 3: "map ?f [96..<128] = map (\<lambda>n. Some (Op_code (OP_PUSH (n - 0x5f)))) [96..<128]"
    "map ?f [128..<144] = map (\<lambda>n. Some (Op_stack (OP_DUP (n - 0x7f)))) [128..<144]"
    "map ?f [144..<160] = map (\<lambda>n. Some (Op_stack (OP_SWAP (n - 0x8f)))) [144..<160]"
    "map ?f [160..<165] = map (\<lambda>n. Some (Op_result (OP_LOG (n - 0xa0)))) [160..<165]"
    by (rule map_cong [OF refl], simp add: opcode_of_nat del: upt_rec_numeral)+
  show ?thesis unfolding opcodes_def upt_bytes map_append 1 2 3 ..
qed

text \<open>The list written out, for evaluation.\<close>

lemma opcodes_eq: "opcodes =
    [Some (Op_term OP_STOP), Some (Op_stack OP_ADD), Some (Op_stack OP_MUL), Some (Op_stack OP_SUB),
     Some (Op_stack OP_DIV), Some (Op_stack OP_SDIV), Some (Op_stack OP_MOD), Some (Op_stack OP_SMOD),
     Some (Op_stack OP_ADDMOD), Some (Op_stack OP_MULMOD), Some (Op_result OP_EXP), Some (Op_stack OP_SIGNEXTEND),
     None, None, None, None,
     Some (Op_stack OP_LT), Some (Op_stack OP_GT), Some (Op_stack OP_SLT), Some (Op_stack OP_SGT),
     Some (Op_stack OP_EQ), Some (Op_stack OP_ISZERO), Some (Op_stack OP_AND), Some (Op_stack OP_OR),
     Some (Op_stack OP_XOR), Some (Op_stack OP_NOT), Some (Op_stack OP_BYTE), Some (Op_stack OP_SHL),
     Some (Op_stack OP_SHR), Some (Op_stack OP_SAR), None, None,
     Some (Op_result OP_KECCAK256), None, None, None,
     None, None, None, None,
     None, None, None, None,
     None, None, None, None,
     Some (Op_state OP_ADDRESS), Some (Op_result OP_BALANCE), Some (Op_state OP_ORIGIN), Some (Op_state OP_CALLER),
     Some (Op_state OP_CALLVALUE), Some (Op_state OP_CALLDATALOAD), Some (Op_state OP_CALLDATASIZE), Some (Op_result OP_CALLDATACOPY),
     Some (Op_state OP_CODESIZE), Some (Op_result OP_CODECOPY), Some (Op_state OP_GASPRICE), Some (Op_result OP_EXTCODESIZE),
     Some (Op_result OP_EXTCODECOPY), Some (Op_state OP_RETURNDATASIZE), Some (Op_result OP_RETURNDATACOPY), Some (Op_result OP_EXTCODEHASH),
     Some (Op_state OP_BLOCKHASH), Some (Op_state OP_COINBASE), Some (Op_state OP_TIMESTAMP), Some (Op_state OP_NUMBER),
     Some (Op_state OP_PREVRANDAO), Some (Op_state OP_GASLIMIT), Some (Op_state OP_CHAINID), Some (Op_state OP_SELFBALANCE),
     Some (Op_state OP_BASEFEE), None, None, None,
     None, None, None, None,
     Some (Op_stack OP_POP), Some (Op_result OP_MLOAD), Some (Op_result OP_MSTORE), Some (Op_result OP_MSTORE8),
     Some (Op_result OP_SLOAD), Some (Op_result OP_SSTORE), Some (Op_code OP_JUMP), Some (Op_code OP_JUMPI),
     Some (Op_code OP_PC), Some (Op_state OP_MSIZE), Some (Op_result OP_GAS), Some (Op_stack OP_JUMPDEST),
     Some (Op_code OP_RJUMP), Some (Op_code OP_RJUMPI), Some (Op_code OP_RJUMPV), Some (Op_stack OP_PUSH0),
     Some (Op_code (OP_PUSH 1)), Some (Op_code (OP_PUSH 2)), Some (Op_code (OP_PUSH 3)), Some (Op_code (OP_PUSH 4)),
     Some (Op_code (OP_PUSH 5)), Some (Op_code (OP_PUSH 6)), Some (Op_code (OP_PUSH 7)), Some (Op_code (OP_PUSH 8)),
     Some (Op_code (OP_PUSH 9)), Some (Op_code (OP_PUSH 10)), Some (Op_code (OP_PUSH 11)), Some (Op_code (OP_PUSH 12)),
     Some (Op_code (OP_PUSH 13)), Some (Op_code (OP_PUSH 14)), Some (Op_code (OP_PUSH 15)), Some (Op_code (OP_PUSH 16)),
     Some (Op_code (OP_PUSH 17)), Some (Op_code (OP_PUSH 18)), Some (Op_code (OP_PUSH 19)), Some (Op_code (OP_PUSH 20)),
     Some (Op_code (OP_PUSH 21)), Some (Op_code (OP_PUSH 22)), Some (Op_code (OP_PUSH 23)), Some (Op_code (OP_PUSH 24)),
     Some (Op_code (OP_PUSH 25)), Some (Op_code (OP_PUSH 26)), Some (Op_code (OP_PUSH 27)), Some (Op_code (OP_PUSH 28)),
     Some (Op_code (OP_PUSH 29)), Some (Op_code (OP_PUSH 30)), Some (Op_code (OP_PUSH 31)), Some (Op_code (OP_PUSH 32)),
     Some (Op_stack (OP_DUP 1)), Some (Op_stack (OP_DUP 2)), Some (Op_stack (OP_DUP 3)), Some (Op_stack (OP_DUP 4)),
     Some (Op_stack (OP_DUP 5)), Some (Op_stack (OP_DUP 6)), Some (Op_stack (OP_DUP 7)), Some (Op_stack (OP_DUP 8)),
     Some (Op_stack (OP_DUP 9)), Some (Op_stack (OP_DUP 10)), Some (Op_stack (OP_DUP 11)), Some (Op_stack (OP_DUP 12)),
     Some (Op_stack (OP_DUP 13)), Some (Op_stack (OP_DUP 14)), Some (Op_stack (OP_DUP 15)), Some (Op_stack (OP_DUP 16)),
     Some (Op_stack (OP_SWAP 1)), Some (Op_stack (OP_SWAP 2)), Some (Op_stack (OP_SWAP 3)), Some (Op_stack (OP_SWAP 4)),
     Some (Op_stack (OP_SWAP 5)), Some (Op_stack (OP_SWAP 6)), Some (Op_stack (OP_SWAP 7)), Some (Op_stack (OP_SWAP 8)),
     Some (Op_stack (OP_SWAP 9)), Some (Op_stack (OP_SWAP 10)), Some (Op_stack (OP_SWAP 11)), Some (Op_stack (OP_SWAP 12)),
     Some (Op_stack (OP_SWAP 13)), Some (Op_stack (OP_SWAP 14)), Some (Op_stack (OP_SWAP 15)), Some (Op_stack (OP_SWAP 16)),
     Some (Op_result (OP_LOG 0)), Some (Op_result (OP_LOG 1)), Some (Op_result (OP_LOG 2)), Some (Op_result (OP_LOG 3)),
     Some (Op_result (OP_LOG 4)), None, None, None,
     None, None, None, None,
     None, None, None, None,
     Some (Op_code OP_CALLF), Some (Op_code OP_RETF), None, None,
     None, Some (Op_code OP_DUPN), Some (Op_code OP_SWAPN), None,
     None, None, None, None,
     None, None, None, None,
     None, None, None, None,
     None, None, None, None,
     None, None, None, None,
     None, None, None, None,
     None, None, None, None,
     None, None, None, None,
     None, None, None, None,
     None, None, None, None,
     None, None, None, None,
     None, None, None, None,
     None, None, None, None,
     None, None, None, None,
     Some (Op_result OP_CREATE), Some (Op_result OP_CALL), Some (Op_result OP_CALLCODE), Some (Op_term OP_RETURN),
     Some (Op_result OP_DELEGATECALL), Some (Op_result OP_CREATE2), None, None,
     None, None, Some (Op_result OP_STATICCALL), None,
     None, Some (Op_term OP_REVERT), Some (Op_term OP_INVALID), Some (Op_term OP_SELFDESTRUCT)]"
proof -
  have "[0..<96] = 0 # 1 # [2..<96]" using upt_split [of 0 2 96] by (simp add: upt_rec [of 0] upt_rec [of "Suc 0"] del: upt_rec_numeral)
  then show ?thesis unfolding opcodes_split by (simp add: opcode_table_def)
qed

text \<open>The cost, the stack height needed and the change of it, when the revision has the instruction.\<close>

definition vm_metrics :: "nat \<Rightarrow> Opcode \<Rightarrow> metrics option" where
  "vm_metrics r op =
     (if gas_costs r op = instr_undefined then None
      else Some (gas_costs r op, int (stack_height_required (traits op)), stack_height_change (traits op)))"

text \<open>The instructions of the EOF proposals, which the interpreter knows from \<open>EVMC_CANCUN\<close> on and EVMC does not.\<close>

definition eof_ops :: "Opcode list" where
  "eof_ops = map Op_code [OP_RJUMP, OP_RJUMPI, OP_RJUMPV, OP_CALLF, OP_RETF, OP_DUPN, OP_SWAPN]"

definition row_agrees :: "nat \<Rightarrow> Opcode option \<Rightarrow> string option \<Rightarrow> metrics \<Rightarrow> bool" where
  "row_agrees r o1 name m =
     (case (case o1 of None \<Rightarrow> None | Some op \<Rightarrow> if op \<in> set eof_ops then None else vm_metrics r op) of
        None \<Rightarrow> name = None \<and> m = (0, 0, 0)
      | Some m' \<Rightarrow> name \<noteq> None \<and> m = m')"

definition tables_agree :: "nat \<Rightarrow> bool" where
  "tables_agree r =
     (case (evmc_get_instruction_names_table r, evmc_get_instruction_metrics_table r) of
        (Some ns, Some ms) \<Rightarrow> length ns = 256 \<and> length ms = 256 \<and>
          list_all (\<lambda>(o1, n, m). row_agrees r o1 n m) (zip opcodes (zip ns ms))
      | _ \<Rightarrow> False)"

lemma tables_agree_0: "tables_agree 0"
  unfolding tables_agree_def opcodes_eq by code_simp

lemma tables_agree_1: "tables_agree 1"
  unfolding tables_agree_def opcodes_eq by code_simp

lemma tables_agree_2: "tables_agree 2"
  unfolding tables_agree_def opcodes_eq by code_simp

lemma tables_agree_3: "tables_agree 3"
  unfolding tables_agree_def opcodes_eq by code_simp

lemma tables_agree_4: "tables_agree 4"
  unfolding tables_agree_def opcodes_eq by code_simp

lemma tables_agree_5: "tables_agree 5"
  unfolding tables_agree_def opcodes_eq by code_simp

lemma tables_agree_6: "tables_agree 6"
  unfolding tables_agree_def opcodes_eq by code_simp

lemma tables_agree_7: "tables_agree 7"
  unfolding tables_agree_def opcodes_eq by code_simp

lemma tables_agree_8: "tables_agree 8"
  unfolding tables_agree_def opcodes_eq by code_simp

lemma tables_agree_9: "tables_agree 9"
  unfolding tables_agree_def opcodes_eq by code_simp

lemma tables_agree_10: "tables_agree 10"
  unfolding tables_agree_def opcodes_eq by code_simp

lemma tables_agree_11: "tables_agree 11"
  unfolding tables_agree_def opcodes_eq by code_simp

lemma tables_agree_12: "tables_agree 12"
  unfolding tables_agree_def opcodes_eq by code_simp

lemma tables_agree_13: "tables_agree 13"
  unfolding tables_agree_def opcodes_eq by code_simp

lemmas tables_agree_revisions = tables_agree_0 tables_agree_1 tables_agree_2 tables_agree_3 tables_agree_4 tables_agree_5 tables_agree_6
  tables_agree_7 tables_agree_8 tables_agree_9 tables_agree_10 tables_agree_11 tables_agree_12 tables_agree_13

lemma tables_agree_all: "r \<le> EVMC_MAX_REVISION \<Longrightarrow> tables_agree r"
proof -
  assume "r \<le> EVMC_MAX_REVISION"
  then have "r \<in> set [0, 1, 2, 3, 4, 5, 6, 7, 8, 9, 10, 11, 12, 13]" unfolding EVMC_MAX_REVISION_def by (simp, arith)
  then show ?thesis using tables_agree_revisions by (auto simp del: One_nat_def)
qed

text \<open>
  C32. The two instruction tables agree. In every revision, and for every byte, the table of names and metrics of the
  EVMC library has an entry exactly when the interpreter's tables define the instruction in that
  revision, and then the base gas cost, the stack height required and the stack height change are the same numbers; the only
  exceptions are the seven instructions of the EOF proposals, which EVMC does not list.
\<close>

theorem instruction_tables_agree:
  assumes "r \<le> EVMC_MAX_REVISION"
  shows "\<exists>ns ms. evmc_get_instruction_names_table r = Some ns \<and> evmc_get_instruction_metrics_table r = Some ms \<and>
    length ns = 256 \<and> length ms = 256 \<and> row_agrees r (opcode_of_byte b) (ns ! unat b) (ms ! unat b)"
proof -
  obtain ns ms where t: "evmc_get_instruction_names_table r = Some ns" "evmc_get_instruction_metrics_table r = Some ms" "length ns = 256" "length ms = 256"
    "list_all (\<lambda>(o1, n, m). row_agrees r o1 n m) (zip opcodes (zip ns ms))"
    using tables_agree_all [OF assms] by (auto simp: tables_agree_def split: option.splits)
  have b: "unat b < 256" by (rule unat_byte_less)
  have "length opcodes = 256" by (simp add: opcodes_def del: upt_rec_numeral)
  with t(3-5) b have "row_agrees r (opcodes ! unat b) (ns ! unat b) (ms ! unat b)" by (simp add: list_all_length)
  moreover have "opcodes ! unat b = opcode_of_byte b" using b by (simp add: opcodes_def del: upt_rec_numeral)
  ultimately show ?thesis using t(1-4) by auto
qed

theorem instruction_tables_agree_witness:
  "\<exists>ns ms. evmc_get_instruction_names_table 13 = Some ns \<and> evmc_get_instruction_metrics_table 13 = Some ms \<and>
    length ns = 256 \<and> length ms = 256 \<and> row_agrees 13 (opcode_of_byte 0x54) (ns ! unat (0x54 :: byte)) (ms ! unat (0x54 :: byte))"
  by (rule instruction_tables_agree) (simp add: EVMC_MAX_REVISION_def)

end
