(* ===== verification/IntxLimbs.thy ===== *)
theory IntxLimbs
  imports Intx
begin

text \<open>
  The arithmetic of \<^verbatim>\<open>pkgs/intx-0.10.0/include/intx/intx.hpp\<close> below the 256-bit word: a \<open>uint<N>\<close>
  is its array of 64-bit limbs, least significant first, and every routine is the loop over the
  limbs that the header has. Here: addition and subtraction with carry, the comparison, the
  multiplication 64 x 64 (portable and with the compiler's 128-bit type), the two schoolbook
  multiplications, and the operations of \<open>uint128\<close>. The theory relates each of them to the number a
  limb array stands for, so that the 256-bit words of \<open>Intx\<close> are refined by the arrays. The
  division is in \<open>IntxDivision\<close>.
\<close>

section \<open>Definitions\<close>

text \<open>The number a limb array stands for, and the limbs of a word.\<close>

fun val :: "u64 list \<Rightarrow> nat" where
  "val [] = 0"
| "val (w # ws) = unat w + 2 ^ 64 * val ws"

definition limbs :: "nat \<Rightarrow> 'a::len word \<Rightarrow> u64 list" where
  "limbs n x = map (\<lambda>i. ucast (drop_bit (64 * i) x)) [0..<n]"

text \<open>\<open>uint128\<close> as its two limbs, and the compiler's 128-bit integer.\<close>

type_synonym uint128 = "u64 \<times> u64"

definition val2 :: "uint128 \<Rightarrow> nat" where
  "val2 x = unat (fst x) + 2 ^ 64 * unat (snd x)"

definition of_builtin :: "128 word \<Rightarrow> uint128" where
  "of_builtin x = (ucast x, ucast (drop_bit 64 x))"

definition to_builtin :: "uint128 \<Rightarrow> 128 word" where
  "to_builtin x = push_bit 64 (ucast (snd x)) OR ucast (fst x)"

text \<open>One limb with carry, and the loop over the limbs.\<close>

definition addc64 :: "u64 \<Rightarrow> u64 \<Rightarrow> bool \<Rightarrow> u64 \<times> bool" where
  "addc64 x y carry =
     (let s = x + y;
          carry1 = s < x;
          t = s + of_bool carry;
          carry2 = t < s
      in (t, carry1 \<or> carry2))"

definition subc64 :: "u64 \<Rightarrow> u64 \<Rightarrow> bool \<Rightarrow> u64 \<times> bool" where
  "subc64 x y carry =
     (let d = x - y;
          carry1 = x < y;
          e = d - of_bool carry;
          carry2 = d < of_bool carry
      in (e, carry1 \<or> carry2))"

fun addc_words :: "u64 list \<Rightarrow> u64 list \<Rightarrow> bool \<Rightarrow> u64 list \<times> bool" where
  "addc_words (x # xs) (y # ys) k =
     (let (v, c) = addc64 x y k; (s, c') = addc_words xs ys c in (v # s, c'))"
| "addc_words _ _ k = ([], k)"

fun subc_words :: "u64 list \<Rightarrow> u64 list \<Rightarrow> bool \<Rightarrow> u64 list \<times> bool" where
  "subc_words (x # xs) (y # ys) k =
     (let (v, c) = subc64 x y k; (s, c') = subc_words xs ys c in (v # s, c'))"
| "subc_words _ _ k = ([], k)"

text \<open>\<open>operator<\<close> of \<open>uint<N>\<close>, \<open>operator==\<close> and \<open>operator~\<close>, and the negation of \<open>uint<N>\<close>.\<close>

definition less_words :: "u64 list \<Rightarrow> u64 list \<Rightarrow> bool" where
  "less_words xs ys = snd (subc_words xs ys False)"

definition eq_words :: "u64 list \<Rightarrow> u64 list \<Rightarrow> bool" where
  "eq_words xs ys = (fold (\<lambda>(x, y) folded. folded OR (x XOR y)) (zip xs ys) 0 = 0)"

definition not_words :: "u64 list \<Rightarrow> u64 list" where
  "not_words xs = map (\<lambda>w. NOT w) xs"

definition neg_words :: "u64 list \<Rightarrow> u64 list" where
  "neg_words xs = fst (addc_words (not_words xs) (1 # replicate (length xs - 1) 0) False)"

text \<open>The operators of \<open>uint128\<close>.\<close>

definition add128 :: "uint128 \<Rightarrow> uint128 \<Rightarrow> uint128" where
  "add128 x y = (let s = fst (addc_words [fst x, snd x] [fst y, snd y] False) in (s ! 0, s ! 1))"

definition sub128 :: "uint128 \<Rightarrow> uint128 \<Rightarrow> uint128" where
  "sub128 x y = (let z = fst (subc_words [fst x, snd x] [fst y, snd y] False) in (z ! 0, z ! 1))"

definition fast_add :: "uint128 \<Rightarrow> uint128 \<Rightarrow> uint128" where
  "fast_add x y = of_builtin (to_builtin x + to_builtin y)"

definition less128 :: "uint128 \<Rightarrow> uint128 \<Rightarrow> bool" where
  "less128 x y = (to_builtin x < to_builtin y)"

definition shr128 :: "uint128 \<Rightarrow> nat \<Rightarrow> uint128" where
  "shr128 x shift =
     (if shift < 64 then
        (drop_bit shift (fst x) OR push_bit (63 - shift) (push_bit 1 (snd x)), drop_bit shift (snd x))
      else if shift < 128 then (drop_bit (shift - 64) (snd x), 0) else (0, 0))"

definition shl128 :: "uint128 \<Rightarrow> nat \<Rightarrow> uint128" where
  "shl128 x shift =
     (if shift < 64 then
        (push_bit shift (fst x), push_bit shift (snd x) OR drop_bit (63 - shift) (drop_bit 1 (fst x)))
      else if shift < 128 then (0, push_bit (shift - 64) (fst x)) else (0, 0))"

text \<open>The full product of two limbs: with the compiler's type, and the portable code.\<close>

definition umul :: "u64 \<Rightarrow> u64 \<Rightarrow> uint128" where
  "umul x y = of_builtin (ucast x * ucast y)"

definition umul_portable :: "u64 \<Rightarrow> u64 \<Rightarrow> uint128" where
  "umul_portable x y =
     (let xl = x AND 0xffffffff; xh = drop_bit 32 x;
          yl = y AND 0xffffffff; yh = drop_bit 32 y;
          t0 = xl * yl; t1 = xh * yl; t2 = xl * yh; t3 = xh * yh;
          u1 = t1 + drop_bit 32 t0;
          u2 = t2 + (u1 AND 0xffffffff);
          lo = push_bit 32 u2 OR (t0 AND 0xffffffff);
          hi = t3 + drop_bit 32 u2 + drop_bit 32 u1
      in (lo, hi))"

definition mul128 :: "uint128 \<Rightarrow> uint128 \<Rightarrow> uint128" where
  "mul128 x y = (let p = umul (fst x) (fst y) in (fst p, snd p + (fst x * snd y + snd x * fst y)))"

text \<open>
  One row of the schoolbook product, the inner loop of both multiplications: \<open>p[i+j]\<close> is replaced by
  the low limb of \<open>p[i+j] + k + x[i]*y[j]\<close>, and \<open>k\<close> is the high one.
\<close>

fun mul_row :: "u64 list \<Rightarrow> u64 list \<Rightarrow> u64 \<Rightarrow> u64 \<Rightarrow> u64 list \<times> u64" where
  "mul_row (p # ps) (x # xs) y k =
     (let (av, ac) = addc64 p k False;
          t = add128 (umul x y) (av, of_bool ac);
          (ps', k') = mul_row ps xs y (snd t)
      in (fst t # ps', k'))"
| "mul_row _ _ y k = ([], k)"

text \<open>The full product \<open>umul\<close> of two \<open>uint<N>\<close>, and \<open>operator*\<close>, which drops the high half.\<close>

fun umul_loop :: "u64 list \<Rightarrow> u64 list \<Rightarrow> u64 list \<Rightarrow> nat \<Rightarrow> u64 list" where
  "umul_loop p xs [] j = p"
| "umul_loop p xs (y # ys) j =
     (let (ps, k) = mul_row (take (length xs) (drop j p)) xs y 0
      in umul_loop (take j p @ ps @ k # drop (j + length xs + 1) p) xs ys (Suc j))"

definition umul_words :: "u64 list \<Rightarrow> u64 list \<Rightarrow> u64 list" where
  "umul_words xs ys = umul_loop (replicate (length xs + length ys) 0) xs ys 0"

fun mul_loop :: "u64 list \<Rightarrow> u64 list \<Rightarrow> u64 list \<Rightarrow> nat \<Rightarrow> u64 list" where
  "mul_loop p xs [] j = p"
| "mul_loop p xs (y # ys) j =
     (let m = length p - j - 1;
          (ps, k) = mul_row (take m (drop j p)) (take m xs) y 0
      in mul_loop (take j p @ ps @ [last p + (xs ! m * y + k)]) xs ys (Suc j))"

definition mul_words :: "u64 list \<Rightarrow> u64 list \<Rightarrow> u64 list" where
  "mul_words xs ys = mul_loop (replicate (length xs) 0) xs ys 0"

section \<open>Numbers and limbs\<close>

lemma u64_less: "unat (x :: u64) < 2 ^ 64"
  using unsigned_less [of x, where ?'a = nat] by simp

lemma val_less: "val ws < (2 ^ 64) ^ length ws"
proof (induction ws)
  case (Cons w ws)
  have "unat w + 2 ^ 64 * val ws < 2 ^ 64 * (val ws + 1)" using u64_less [of w] by simp
  also have "\<dots> \<le> 2 ^ 64 * (2 ^ 64) ^ length ws" using Cons by (intro mult_left_mono) simp_all
  finally show ?case by simp
qed simp

lemma val_append: "val (as @ bs) = val as + (2 ^ 64) ^ length as * val bs"
  by (induction as) (simp_all add: algebra_simps)

lemma val_replicate_0 [simp]: "val (replicate n 0) = 0"
  by (induction n) simp_all

lemma digit_inj: "a + B * b = c + B * d \<Longrightarrow> a < B \<Longrightarrow> c < B \<Longrightarrow> a = c \<and> b = d" for a b c d B :: nat
proof -
  assume a: "a + B * b = c + B * d" "a < B" "c < B"
  have "(a + B * b) mod B = a" "(a + B * b) div B = b" "(c + B * d) mod B = c" "(c + B * d) div B = d" using a(2,3) by simp_all
  then show ?thesis unfolding a(1) by simp
qed

lemma val_inj: "length xs = length ys \<Longrightarrow> val xs = val ys \<Longrightarrow> xs = ys"
proof (induction xs ys rule: list_induct2)
  case (Cons x xs y ys)
  from Cons.prems have "unat x = unat y \<and> val xs = val ys" unfolding val.simps by (rule digit_inj) (rule u64_less)+
  then show ?case using Cons.IH by (simp add: word_unat_eq_iff)
qed simp

lemma length_limbs [simp]: "length (limbs n x) = n"
  by (simp add: limbs_def)

lemma limbs_Suc: "limbs (Suc n) x = limbs n x @ [ucast (drop_bit (64 * n) x)]"
  by (simp add: limbs_def)

lemma val_limbs_mod: "val (limbs n x) = unat x mod (2 ^ 64) ^ n"
proof (induction n)
  case (Suc n)
  have "unat (ucast (drop_bit (64 * n) x) :: u64) = unat x div (2 ^ 64) ^ n mod 2 ^ 64"
    by (simp only: unsigned_ucast_eq unat_drop_bit_eq) (simp add: drop_bit_eq_div take_bit_eq_mod power_mult)
  then have "val (limbs (Suc n) x) = unat x mod (2 ^ 64) ^ n + (2 ^ 64) ^ n * (unat x div (2 ^ 64) ^ n mod 2 ^ 64)"
    by (simp only: limbs_Suc val_append Suc length_limbs val.simps mult_0_right add_0_right)
  also have "\<dots> = unat x mod ((2 ^ 64) ^ n * 2 ^ 64)" by (simp only: mod_mult2_eq add.commute)
  finally show ?case by (simp only: power_Suc mult.commute)
qed (simp add: limbs_def)

lemma val_limbs: "LENGTH('a) \<le> 64 * n \<Longrightarrow> val (limbs n x) = unat x" for x :: "'a::len word"
proof -
  assume "LENGTH('a) \<le> 64 * n"
  then have "(2 :: nat) ^ LENGTH('a) \<le> (2 ^ 64) ^ n" unfolding power_mult [symmetric] by (rule power_increasing) simp
  then have "unat x < (2 ^ 64) ^ n" using unsigned_less [of x, where ?'a = nat] by (rule order.strict_trans2 [rotated])
  then show ?thesis by (simp only: val_limbs_mod mod_less)
qed

text \<open>A limb array that stands for a word's number is the array of that word.\<close>

lemma limbs_eqI: "length ws = n \<Longrightarrow> LENGTH('a) \<le> 64 * n \<Longrightarrow> val ws = unat x \<Longrightarrow> ws = limbs n x" for x :: "'a::len word"
  by (intro val_inj) (simp_all add: val_limbs)

lemma val2_less: "val2 x < 2 ^ 128"
  using u64_less [of "fst x"] u64_less [of "snd x"] by (simp add: val2_def)

lemma val2_Pair [simp]: "val2 (a, b) = unat a + 2 ^ 64 * unat b"
  by (simp add: val2_def)

lemma unat_of_builtin:
  "val2 (of_builtin x) = unat x"
proof -
  have "unat (ucast x :: u64) = unat x mod 2 ^ 64" by (simp add: unsigned_ucast_eq take_bit_eq_mod)
  moreover have "unat (ucast (drop_bit 64 x) :: u64) = unat x div 2 ^ 64"
  proof -
    have "unat (ucast (drop_bit 64 x) :: u64) = unat x div 2 ^ 64 mod 2 ^ 64"
      by (simp only: unsigned_ucast_eq unat_drop_bit_eq) (simp add: drop_bit_eq_div take_bit_eq_mod)
    also have "\<dots> = unat x div 2 ^ 64"
      using unsigned_less [of x, where ?'a = nat] by (intro mod_less) (simp add: div_less_iff_less_mult)
    finally show ?thesis .
  qed
  ultimately show ?thesis by (simp add: of_builtin_def)
qed

lemma to_builtin_of_nat: "to_builtin x = word_of_nat (val2 x)"
proof -
  have "push_bit 64 (ucast (snd x)) AND (ucast (fst x) :: 128 word) = 0"
    by (rule bit_word_eqI) (auto simp: bit_simps dest: bit_imp_le_length)
  then have "to_builtin x = push_bit 64 (ucast (snd x)) + ucast (fst x)"
    unfolding to_builtin_def by (simp only: disjunctive_add_eq_or)
  also have "\<dots> = word_of_nat (val2 x)" by (simp add: val2_def push_bit_eq_mult of_nat_unat mult.commute)
  finally show ?thesis .
qed

lemma unat_to_builtin: "unat (to_builtin x) = val2 x"
  using val2_less [of x] by (simp add: to_builtin_of_nat unat_of_nat)

section \<open>Addition and subtraction\<close>

lemma sum_carry: "a < B \<Longrightarrow> b < B \<Longrightarrow> (a + b) mod B + B * of_bool ((a + b) mod B < a) = a + b" for a b B :: nat
  by (cases "a + b < B") (auto simp: le_mod_geq)

lemma add_carry: "unat (x + y) + 2 ^ 64 * of_bool (x + y < x) = unat x + unat y" for x y :: u64
  unfolding word_less_nat_alt unat_word_ariths using sum_carry [OF u64_less [of x] u64_less [of y]] by simp

lemma addc64_val:
  "unat (fst (addc64 x y k)) + 2 ^ 64 * of_bool (snd (addc64 x y k)) = unat x + unat y + of_bool k"
proof -
  let ?s = "x + y"
  have s: "unat ?s + 2 ^ 64 * of_bool (?s < x) = unat x + unat y" by (rule add_carry)
  have k: "unat (of_bool k :: u64) = of_bool k" by (cases k) simp_all
  have t: "unat (?s + of_bool k) + 2 ^ 64 * of_bool (?s + of_bool k < ?s) = unat ?s + of_bool k"
    using add_carry [of ?s "of_bool k"] unfolding k .
  have "\<not> (?s < x \<and> ?s + of_bool k < ?s)"
    using s t u64_less [of x] u64_less [of y] u64_less [of "?s + of_bool k"] by (auto split: if_splits)
  then show ?thesis using s t by (auto simp: addc64_def Let_def)
qed

lemma sub_borrow: "unat (x - y) + unat y = unat x + 2 ^ 64 * of_bool (x < y)" for x y :: u64
  using u64_less [of x] u64_less [of y] by (auto simp: unat_sub_if' word_less_nat_alt)

lemma subc64_val:
  "unat (fst (subc64 x y k)) + unat y + of_bool k = unat x + 2 ^ 64 * of_bool (snd (subc64 x y k))"
proof -
  let ?d = "x - y"
  have k: "unat (of_bool k :: u64) = of_bool k" by (cases k) simp_all
  have s: "unat ?d + unat y = unat x + 2 ^ 64 * of_bool (x < y)" by (rule sub_borrow)
  have t: "unat (?d - of_bool k) + of_bool k = unat ?d + 2 ^ 64 * of_bool (?d < of_bool k)"
    using sub_borrow [of ?d "of_bool k"] unfolding k .
  have "\<not> (x < y \<and> ?d < of_bool k)"
    using s t u64_less [of x] u64_less [of y] u64_less [of "?d - of_bool k"] by (auto split: if_splits)
  then show ?thesis using s t by (auto simp: subc64_def Let_def)
qed

lemma addc_words_val:
  "length xs = length ys \<Longrightarrow> addc_words xs ys k = (s, c) \<Longrightarrow>
    length s = length xs \<and> val s + (2 ^ 64) ^ length xs * of_bool c = val xs + val ys + of_bool k"
proof (induction xs ys arbitrary: k s c rule: list_induct2)
  case (Cons x xs y ys)
  obtain v c1 where v: "addc64 x y k = (v, c1)" by (cases "addc64 x y k")
  obtain s1 c2 where s1: "addc_words xs ys c1 = (s1, c2)" by (cases "addc_words xs ys c1")
  have "s = v # s1" "c = c2" using Cons.prems v s1 by simp_all
  moreover have "unat v + 2 ^ 64 * of_bool c1 = unat x + unat y + of_bool k" using addc64_val [of x y k] v by simp
  ultimately show ?case using Cons.IH [OF s1] by (simp add: algebra_simps)
qed simp

lemma subc_words_val:
  "length xs = length ys \<Longrightarrow> subc_words xs ys k = (s, c) \<Longrightarrow>
    length s = length xs \<and> val s + val ys + of_bool k = val xs + (2 ^ 64) ^ length xs * of_bool c"
proof (induction xs ys arbitrary: k s c rule: list_induct2)
  case (Cons x xs y ys)
  obtain v c1 where v: "subc64 x y k = (v, c1)" by (cases "subc64 x y k")
  obtain s1 c2 where s1: "subc_words xs ys c1 = (s1, c2)" by (cases "subc_words xs ys c1")
  have "s = v # s1" "c = c2" using Cons.prems v s1 by simp_all
  moreover have "unat v + unat y + of_bool k = unat x + 2 ^ 64 * of_bool c1" using subc64_val [of x y k] v by simp
  ultimately show ?case using Cons.IH [OF s1] by (simp add: algebra_simps)
qed simp

text \<open>The borrow of a subtraction is the comparison.\<close>

lemma less_words_iff: "length xs = length ys \<Longrightarrow> less_words xs ys \<longleftrightarrow> val xs < val ys"
proof -
  assume l: "length xs = length ys"
  obtain s c where s: "subc_words xs ys False = (s, c)" by (cases "subc_words xs ys False")
  have "val s < (2 ^ 64) ^ length xs" "val ys < (2 ^ 64) ^ length xs"
    using subc_words_val [OF l s] val_less [of s] val_less [of ys] l by simp_all
  then show ?thesis using subc_words_val [OF l s] by (cases c) (simp_all add: less_words_def s)
qed

lemma xor_zero: "x XOR y = 0 \<longleftrightarrow> x = y" for x y :: u64
  by (auto simp: bit_eq_iff [of "x XOR y"] bit_eq_iff [of x] bit_simps)

lemma fold_or_zero: "fold (\<lambda>(x, y) acc. acc OR (x XOR y)) zs (a :: u64) = 0 \<longleftrightarrow> a = 0 \<and> (\<forall>(x, y) \<in> set zs. x = y)"
  by (induction zs arbitrary: a) (auto simp: or_eq_0_iff xor_zero)

lemma eq_words_iff: "length xs = length ys \<Longrightarrow> eq_words xs ys \<longleftrightarrow> xs = ys"
  unfolding eq_words_def fold_or_zero by (induction xs ys rule: list_induct2) auto

lemma not_words_val: "val (not_words xs) + val xs + 1 = (2 ^ 64) ^ length xs"
proof (induction xs)
  case (Cons x xs)
  have "unat (NOT x) = 2 ^ 64 - 1 - unat x"
    using add_carry [of x "NOT x"] by (simp add: unsigned_minus_1_eq_mask mask_eq_exp_minus_1 split: if_splits)
  then show ?case using Cons u64_less [of x] by (simp add: not_words_def algebra_simps)
qed (simp add: not_words_def)

lemma neg_words_val:
  assumes "xs \<noteq> []"
  shows "length (neg_words xs) = length xs \<and> val (neg_words xs) = (if val xs = 0 then 0 else (2 ^ 64) ^ length xs - val xs)"
proof -
  obtain s c where s: "addc_words (not_words xs) (1 # replicate (length xs - 1) 0) False = (s, c)"
    by (cases "addc_words (not_words xs) (1 # replicate (length xs - 1) 0) False")
  have l: "length (not_words xs) = length xs" by (simp add: not_words_def)
  then have "length (not_words xs) = length (1 # replicate (length xs - 1) 0)" using assms by simp
  from addc_words_val [OF this s] have "length s = length xs"
    "val s + (2 ^ 64) ^ length xs * of_bool c + val xs = (2 ^ 64) ^ length xs"
    using not_words_val [of xs] by (simp_all add: l)
  then show ?thesis using val_less [of s] val_less [of xs] unfolding neg_words_def s fst_conv by (cases c) auto
qed

section \<open>Two limbs\<close>

lemma add128_val: "val2 (add128 x y) = (val2 x + val2 y) mod 2 ^ 128"
proof -
  obtain s c where s: "addc_words [fst x, snd x] [fst y, snd y] False = (s, c)"
    by (cases "addc_words [fst x, snd x] [fst y, snd y] False")
  from addc_words_val [OF _ s] have "length s = 2" and v: "val s + 2 ^ 128 * of_bool c = val2 x + val2 y"
    by (simp_all add: val2_def algebra_simps)
  then obtain a b where ab: "s = [a, b]" by (auto simp: length_Suc_conv numeral_2_eq_2)
  have "val2 (add128 x y) = val s" unfolding add128_def s ab by simp
  moreover have "val s < 2 ^ 128" using val_less [of s] by (simp add: ab)
  ultimately show ?thesis using v [symmetric] by simp
qed

lemma sub128_val: "int (val2 (sub128 x y)) = (int (val2 x) - int (val2 y)) mod 2 ^ 128"
proof -
  obtain s c where s: "subc_words [fst x, snd x] [fst y, snd y] False = (s, c)"
    by (cases "subc_words [fst x, snd x] [fst y, snd y] False")
  from subc_words_val [OF _ s] have "length s = 2" and v: "val s + val2 y = val2 x + 2 ^ 128 * of_bool c"
    by (simp_all add: val2_def algebra_simps)
  then obtain a b where ab: "s = [a, b]" by (auto simp: length_Suc_conv numeral_2_eq_2)
  have 1: "val2 (sub128 x y) = val s" unfolding sub128_def s ab by simp
  have "val s < 2 ^ 128" using val_less [of s] by (simp add: ab)
  then have "int (val s) = int (val s) mod 2 ^ 128" by simp
  moreover have "int (val s) = int (val2 x) - int (val2 y) + 2 ^ 128 * of_bool c" using arg_cong [OF v, of int] by simp
  ultimately show ?thesis unfolding 1 by (metis mod_mult_self2)
qed

lemma fast_add_val: "val2 (fast_add x y) = (val2 x + val2 y) mod 2 ^ 128"
  by (simp add: fast_add_def unat_of_builtin unat_word_ariths unat_to_builtin)

lemma less128_iff: "less128 x y \<longleftrightarrow> val2 x < val2 y"
  by (simp add: less128_def word_less_nat_alt unat_to_builtin)

lemma val2_inj: "val2 x = val2 y \<longleftrightarrow> x = y"
  using digit_inj [OF _ u64_less [of "fst x"] u64_less [of "fst y"], of "unat (snd x)" "unat (snd y)"]
  by (auto simp: val2_def prod_eq_iff word_unat_eq_iff)

lemma umul_val: "val2 (umul x y) = unat x * unat y"
proof -
  have "unat x * unat y < 2 ^ 64 * 2 ^ 64" by (intro mult_strict_mono u64_less) simp_all
  moreover have "unat (ucast x :: 128 word) = unat x" "unat (ucast y :: 128 word) = unat y"
    using u64_less [of x] u64_less [of y] by (simp_all add: unsigned_ucast_eq take_bit_nat_eq_self)
  ultimately show ?thesis by (simp add: umul_def unat_of_builtin unat_word_ariths)
qed

text \<open>The portable multiplication splits the factors into halves; no partial sum overflows.\<close>

lemma low32: "unat (x AND 0xffffffff) = unat x mod 2 ^ 32" for x :: u64
proof -
  have "x AND 0xffffffff = take_bit 32 x"
    using take_bit_eq_mask [of 32 x] by (simp add: mask_eq_exp_minus_1)
  then show ?thesis by (simp only: unsigned_take_bit_eq) (simp add: take_bit_eq_mod)
qed

lemma high32: "unat (drop_bit 32 x) = unat x div 2 ^ 32" for x :: u64
  by (subst unat_drop_bit_eq) (simp only: drop_bit_eq_div)

lemma halves_product:
  fixes xl xh yl yh H :: nat
  assumes "m0 + H * q0 = xl * yl" "m1 + H * q1 = xh * yl + q0" "m2 + H * q2 = xl * yh + m1"
  shows "(m2 * H + m0) + H * H * (xh * yh + q2 + q1) = (xl + H * xh) * (yl + H * yh)"
  using assms by algebra

lemma half_mult: "a < H \<Longrightarrow> b < H \<Longrightarrow> c < H \<Longrightarrow> a * b + c < H * H" for a b c H :: nat
proof -
  assume a: "a < H" "b < H" "c < H"
  then have "a * b \<le> (H - 1) * (H - 1)" by (intro mult_mono) auto
  moreover have "(H - 1) * (H - 1) + (H - 1) < H * H" using a(1) by (cases H) simp_all
  ultimately show ?thesis using a(3) by linarith
qed

lemma unat_plus_small: "unat x + unat y < 2 ^ 64 \<Longrightarrow> unat (x + y) = unat x + unat y" for x y :: u64
  by (simp add: unat_word_ariths)

lemma unat_times_small: "unat x * unat y < 2 ^ 64 \<Longrightarrow> unat (x * y) = unat x * unat y" for x y :: u64
  by (simp add: unat_word_ariths)

lemma join32: "unat (push_bit 32 u OR (t AND 0xffffffff)) = unat u mod 2 ^ 32 * 2 ^ 32 + unat t mod 2 ^ 32" for u t :: u64
proof -
  have m: "t AND 0xffffffff = take_bit 32 t" using take_bit_eq_mask [of 32 t] by (simp add: mask_eq_exp_minus_1)
  have "push_bit 32 u AND take_bit 32 t = 0" by (rule bit_word_eqI) (auto simp: bit_simps)
  then have e: "push_bit 32 u OR take_bit 32 t = push_bit 32 u + take_bit 32 t" by (simp only: disjunctive_add_eq_or)
  have p: "unat (push_bit 32 u) = unat u mod 2 ^ 32 * 2 ^ 32"
  proof -
    have "unat (push_bit 32 u) = (unat u * 2 ^ 32) mod (2 ^ 32 * 2 ^ 32)"
      by (simp add: push_bit_eq_mult unat_word_ariths)
    then show ?thesis by (simp only: mult_mod_left)
  qed
  have l: "unat (take_bit 32 t) = unat t mod 2 ^ 32" by (simp only: unsigned_take_bit_eq) (simp add: take_bit_eq_mod)
  have "unat u mod 2 ^ 32 < 2 ^ 32" "unat t mod 2 ^ 32 < 2 ^ 32" by simp_all
  then have "unat u mod 2 ^ 32 * 2 ^ 32 + unat t mod 2 ^ 32 < 2 ^ 64" by simp
  then show ?thesis unfolding m e by (subst unat_plus_small) (simp_all only: p l)
qed

lemma umul_portable_eq: "umul_portable x y = umul x y"
proof -
  define xl xh yl yh where xs: "xl = x AND 0xffffffff" "xh = drop_bit 32 x" "yl = y AND 0xffffffff" "yh = drop_bit 32 y"
  have small: "unat xl < 2 ^ 32" "unat xh < 2 ^ 32" "unat yl < 2 ^ 32" "unat yh < 2 ^ 32"
    using u64_less [of x] u64_less [of y] by (simp_all add: xs low32 high32 div_less_iff_less_mult)
  have S: "a * b + c < 2 ^ 64" if "a < 2 ^ 32" "b < 2 ^ 32" "c < 2 ^ 32" for a b c :: nat
    using half_mult [OF that] by simp
  have t: "unat (xl * yl) = unat xl * unat yl" "unat (xh * yl) = unat xh * unat yl"
    "unat (xl * yh) = unat xl * unat yh" "unat (xh * yh) = unat xh * unat yh"
    by (rule unat_times_small, use S [OF small(1) small(3), of 0] S [OF small(2) small(3), of 0]
        S [OF small(1) small(4), of 0] S [OF small(2) small(4), of 0] in simp)+
  define u1 where "u1 = xh * yl + drop_bit 32 (xl * yl)"
  define u2 where "u2 = xl * yh + (u1 AND 0xffffffff)"
  have "unat (xl * yl) div 2 ^ 32 < 2 ^ 32" using u64_less [of "xl * yl"] by (simp add: div_less_iff_less_mult)
  then have u1: "unat u1 = unat xh * unat yl + unat (xl * yl) div 2 ^ 32"
    unfolding u1_def using S [OF small(2,3)] by (subst unat_plus_small) (simp_all only: t(2) high32)
  have "unat u1 mod 2 ^ 32 < 2 ^ 32" by simp
  then have u2: "unat u2 = unat xl * unat yh + unat u1 mod 2 ^ 32"
    unfolding u2_def using S [OF small(1,4)] by (subst unat_plus_small) (simp_all only: t(3) low32)
  have X: "unat xl + 2 ^ 32 * unat xh = unat x" and Y: "unat yl + 2 ^ 32 * unat yh = unat y"
    unfolding xs low32 high32 by (rule mod_mult_div_eq)+
  define hi where "hi = xh * yh + drop_bit 32 u2 + drop_bit 32 u1"
  let ?hi = "unat xh * unat yh + unat u2 div 2 ^ 32 + unat u1 div 2 ^ 32"
  have full: "(unat u2 mod 2 ^ 32 * 2 ^ 32 + unat (xl * yl) mod 2 ^ 32) + 2 ^ 32 * 2 ^ 32 * ?hi = unat x * unat y"
    using halves_product [OF trans [OF mod_mult_div_eq t(1)] trans [OF mod_mult_div_eq u1] trans [OF mod_mult_div_eq u2]] unfolding X Y .
  then have "2 ^ 64 * ?hi \<le> unat x * unat y" by simp
  also have "\<dots> < 2 ^ 64 * 2 ^ 64" by (intro mult_strict_mono u64_less) simp_all
  finally have "?hi < 2 ^ 64" by simp
  then have "unat hi = ?hi" unfolding hi_def by (simp add: unat_word_ariths t(4) high32)
  then have "val2 (umul_portable x y) = unat x * unat y"
    using full by (simp add: umul_portable_def Let_def xs [symmetric] u1_def [symmetric] u2_def [symmetric] hi_def [symmetric] join32)
  then show ?thesis using umul_val [of x y] val2_inj by metis
qed

section \<open>Multiplication\<close>

lemma mul_row_step: "a < B \<Longrightarrow> b < B \<Longrightarrow> c < B \<Longrightarrow> d < B \<Longrightarrow> a * b + (c + d) < B * B" for a b c d B :: nat
proof -
  assume a: "a < B" "b < B" "c < B" "d < B"
  then have "a * b \<le> (B - 1) * (B - 1)" by (intro mult_mono) auto
  moreover have "(B - 1) * (B - 1) + ((B - 1) + (B - 1)) < B * B" using a(1) by (cases B) simp_all
  ultimately show ?thesis using a(3,4) by linarith
qed

lemma mul_row_val:
  "length ps = length xs \<Longrightarrow> mul_row ps xs y k = (qs, k') \<Longrightarrow>
    length qs = length xs \<and> val qs + (2 ^ 64) ^ length xs * unat k' = val ps + val xs * unat y + unat k"
proof (induction ps xs arbitrary: k qs k' rule: list_induct2)
  case (Cons p ps x xs)
  obtain av ac where a: "addc64 p k False = (av, ac)" by (cases "addc64 p k False")
  define t where "t = add128 (umul x y) (av, of_bool ac)"
  obtain rs r where r: "mul_row ps xs y (snd t) = (rs, r)" by (cases "mul_row ps xs y (snd t)")
  have q: "qs = fst t # rs" "k' = r" using Cons.prems a r by (simp_all add: t_def Let_def)
  have "unat (of_bool ac :: u64) = of_bool ac" by (cases ac) simp_all
  then have "val2 (av, of_bool ac) = unat p + unat k" using addc64_val [of p k False] a by simp
  then have "val2 t = (unat x * unat y + (unat p + unat k)) mod 2 ^ 128" by (simp add: t_def add128_val umul_val)
  also have "\<dots> = unat x * unat y + (unat p + unat k)"
    using mul_row_step [OF u64_less [of x] u64_less [of y] u64_less [of p] u64_less [of k]] by (intro mod_less) simp
  finally have t: "unat (fst t) + 2 ^ 64 * unat (snd t) = unat x * unat y + (unat p + unat k)" by (simp add: val2_def)
  have IH: "length rs = length xs" "val rs + (2 ^ 64) ^ length xs * unat r = val ps + val xs * unat y + unat (snd t)"
    using Cons.IH [OF r] by simp_all
  have "val qs + (2 ^ 64) ^ length (x # xs) * unat k' = unat (fst t) + 2 ^ 64 * (val rs + (2 ^ 64) ^ length xs * unat r)"
    by (simp add: q algebra_simps)
  also have "\<dots> = (unat (fst t) + 2 ^ 64 * unat (snd t)) + 2 ^ 64 * (val ps + val xs * unat y)"
    unfolding IH(2) by (simp add: algebra_simps)
  finally show ?case unfolding t using IH(1) q(1) by (simp add: algebra_simps)
qed simp

text \<open>The full product never overflows its array: what is above the current row is still zero.\<close>

lemma umul_loop_val:
  "length p = j + length xs + length ys \<Longrightarrow> drop (j + length xs) p = replicate (length ys) 0 \<Longrightarrow>
    length (umul_loop p xs ys j) = length p \<and>
    val (umul_loop p xs ys j) = val p + (2 ^ 64) ^ j * (val xs * val ys)"
proof (induction ys arbitrary: p j)
  case (Cons y ys)
  let ?n = "length xs"
  obtain ps k where r: "mul_row (take ?n (drop j p)) xs y 0 = (ps, k)" by (cases "mul_row (take ?n (drop j p)) xs y 0")
  define p' where "p' = take j p @ ps @ k # drop (j + ?n + 1) p"
  have l: "length (take ?n (drop j p)) = ?n" using Cons.prems(1) by simp
  have row: "length ps = ?n" "val ps + (2 ^ 64) ^ ?n * unat k = val (take ?n (drop j p)) + val xs * unat y"
    using mul_row_val [OF l r] by simp_all
  have d: "drop (j + ?n + 1) p = replicate (length ys) 0"
    using arg_cong [OF Cons.prems(2), of tl] by (simp add: drop_Suc tl_drop)
  have p: "p = take j p @ take ?n (drop j p) @ replicate (Suc (length ys)) 0"
    using Cons.prems(2) append_take_drop_id [of j p] append_take_drop_id [of ?n "drop j p"]
    by (simp add: add.commute del: append_take_drop_id)
  have lj: "length (take j p) = j" using Cons.prems(1) by simp
  have "length p' = Suc j + ?n + length ys" using Cons.prems(1) row(1) by (simp add: p'_def)
  moreover have "drop (Suc j + ?n) p' = replicate (length ys) 0" using row(1) lj d by (simp add: p'_def)
  ultimately have IH: "length (umul_loop p' xs ys (Suc j)) = length p'"
    "val (umul_loop p' xs ys (Suc j)) = val p' + (2 ^ 64) ^ Suc j * (val xs * val ys)"
    using Cons.IH by blast+
  have "val p' = val (take j p) + (2 ^ 64) ^ j * (val ps + (2 ^ 64) ^ ?n * unat k)"
    unfolding p'_def d val_append lj row(1) by (simp add: algebra_simps)
  also have "\<dots> = val (take j p @ take ?n (drop j p) @ replicate (Suc (length ys)) 0) + (2 ^ 64) ^ j * (val xs * unat y)"
    unfolding row(2) by (simp only: val_append val_replicate_0 lj) (simp add: algebra_simps)
  finally have "val p' = val p + (2 ^ 64) ^ j * (val xs * unat y)" using p by simp
  moreover have "length p' = length p" using Cons.prems(1) row(1) by (simp add: p'_def)
  moreover have "umul_loop p xs (y # ys) j = umul_loop p' xs ys (Suc j)" by (simp add: r p'_def)
  ultimately show ?case using IH by (simp add: algebra_simps)
qed simp

lemma umul_words_val: "length (umul_words xs ys) = length xs + length ys \<and> val (umul_words xs ys) = val xs * val ys"
  using umul_loop_val [of "replicate (length xs + length ys) 0" 0 xs ys] by (simp add: umul_words_def)

text \<open>\<open>operator*\<close> computes the same rows, cut off at the top limb: the result is right modulo the width.\<close>

lemma val_snoc: "val (xs @ [w]) = val xs + (2 ^ 64) ^ length xs * unat w"
  by (simp add: val_append)

lemma drop_last: "length p = Suc n \<Longrightarrow> drop n p = [last p]"
  by (cases p rule: rev_cases) simp_all

lemma mul_loop_val:
  "length xs = length p \<Longrightarrow> j + length ys = length p \<Longrightarrow>
    length (mul_loop p xs ys j) = length p \<and>
    val (mul_loop p xs ys j) mod (2 ^ 64) ^ length p = (val p + (2 ^ 64) ^ j * (val xs * val ys)) mod (2 ^ 64) ^ length p"
proof (induction ys arbitrary: p j)
  case (Cons y ys)
  define m where "m = length p - j - 1"
  have lp: "length p = j + (m + 1)" using Cons.prems(2) by (simp add: m_def)
  obtain ps k where r: "mul_row (take m (drop j p)) (take m xs) y 0 = (ps, k)" by (cases "mul_row (take m (drop j p)) (take m xs) y 0")
  define top where "top = last p + (xs ! m * y + k)"
  define p' where "p' = take j p @ ps @ [top]"
  have l: "length (take m (drop j p)) = m" "length (take m xs) = m" "length (take j p) = j" using lp Cons.prems(1) by simp_all
  have row: "length ps = m" "val ps + (2 ^ 64) ^ m * unat k = val (take m (drop j p)) + val (take m xs) * unat y"
    using mul_row_val [OF trans [OF l(1) l(2) [symmetric]] r] l(2) by simp_all
  obtain h where h: "unat top + 2 ^ 64 * h = unat (last p) + (unat (xs ! m) * unat y + unat k)"
  proof
    show "unat top + 2 ^ 64 * ((unat (last p) + (unat (xs ! m) * unat y + unat k)) div 2 ^ 64) =
        unat (last p) + (unat (xs ! m) * unat y + unat k)"
      unfolding top_def by (simp add: unat_word_ariths mod_simps)
  qed
  have p: "p = take j p @ take m (drop j p) @ [last p]"
    using drop_last [of p "j + m"] append_take_drop_id [of j p] append_take_drop_id [of m "drop j p"] lp
    by (simp only: drop_drop add.commute [of m j])
  have x: "val xs = val (take m xs) + (2 ^ 64) ^ m * (unat (xs ! m) + 2 ^ 64 * val (drop (Suc m) xs))"
    using arg_cong [OF id_take_nth_drop [of m xs], of val] lp Cons.prems(1) by (simp add: val_append)
  have "val p + (2 ^ 64) ^ j * (val xs * unat y) = val p' + (2 ^ 64) ^ length p * (h + val (drop (Suc m) xs) * unat y)"
  proof -
    let ?B = "2 ^ 64 :: nat"
    have P: "val p = val (take j p) + ?B ^ j * (val (take m (drop j p)) + ?B ^ m * unat (last p))"
      by (subst p) (simp only: val_append val_snoc l val.simps mult_0_right add_0_right)
    have P': "val p' = val (take j p) + ?B ^ j * (val ps + ?B ^ m * unat top)"
      unfolding p'_def by (simp only: val_append val_snoc l row(1) val.simps mult_0_right add_0_right)
    have "val p + ?B ^ j * (val xs * unat y) = val (take j p) + ?B ^ j * ((val (take m (drop j p)) + val (take m xs) * unat y)
        + ?B ^ m * (unat (last p) + unat (xs ! m) * unat y) + ?B ^ m * (?B * (val (drop (Suc m) xs) * unat y)))"
      unfolding P x by (simp only: distrib_left distrib_right ac_simps)
    also have "\<dots> = val (take j p) + ?B ^ j * (val ps + ?B ^ m * (unat (last p) + (unat (xs ! m) * unat y + unat k))
        + ?B ^ m * (?B * (val (drop (Suc m) xs) * unat y)))"
      unfolding row(2) [symmetric] by (simp only: distrib_left distrib_right ac_simps)
    also have "\<dots> = val p' + ?B ^ length p * (h + val (drop (Suc m) xs) * unat y)"
      unfolding h [symmetric] P' lp power_add power_one_right by (simp only: distrib_left distrib_right ac_simps)
    finally show ?thesis .
  qed
  note step = this
  have lp': "length p' = length p" using lp l(3) row(1) by (simp add: p'_def)
  have IH: "length (mul_loop p' xs ys (Suc j)) = length p'" "val (mul_loop p' xs ys (Suc j)) mod (2 ^ 64) ^ length p' =
      (val p' + (2 ^ 64) ^ Suc j * (val xs * val ys)) mod (2 ^ 64) ^ length p'"
    using Cons.IH [of p' "Suc j"] Cons.prems lp' by simp_all
  have e: "mul_loop p xs (y # ys) j = mul_loop p' xs ys (Suc j)" unfolding mul_loop.simps Let_def m_def [symmetric] r p'_def top_def by simp
  have "val p + (2 ^ 64) ^ j * (val xs * val (y # ys)) = (val p + (2 ^ 64) ^ j * (val xs * unat y)) + (2 ^ 64) ^ Suc j * (val xs * val ys)"
    by (simp add: algebra_simps)
  also have "\<dots> = (val p' + (2 ^ 64) ^ Suc j * (val xs * val ys)) + (2 ^ 64) ^ length p * (h + val (drop (Suc m) xs) * unat y)"
    unfolding step by (simp only: ac_simps)
  finally show ?case using IH unfolding e lp' by (simp only: mod_mult_self2 simp_thms)
qed simp

lemma mul_words_val:
  "length xs = length ys \<Longrightarrow> length (mul_words xs ys) = length xs \<and> val (mul_words xs ys) = (val xs * val ys) mod (2 ^ 64) ^ length xs"
  using mul_loop_val [of xs "replicate (length xs) 0" 0 ys] val_less [of "mul_words xs ys"] by (simp add: mul_words_def)

lemma digits_mod: "a < B \<Longrightarrow> a + B * (c mod B) = (a + B * c) mod (B * B)" for a c B :: nat
  by (simp add: mod_mult2_eq)

lemma mul128_val: "val2 (mul128 x y) = (val2 x * val2 y) mod 2 ^ 128"
proof -
  let ?B = "2 ^ 64 :: nat" and ?p = "umul (fst x) (fst y)"
  define c where "c = unat (fst x) * unat (snd y) + unat (snd x) * unat (fst y)"
  have p: "unat (fst ?p) + ?B * unat (snd ?p) = unat (fst x) * unat (fst y)" using umul_val [of "fst x" "fst y"] by (simp add: val2_def)
  have "unat (snd ?p + (fst x * snd y + snd x * fst y)) = (unat (snd ?p) + c) mod ?B"
    by (simp add: unat_word_ariths c_def mod_simps)
  then have "val2 (mul128 x y) = unat (fst ?p) + ?B * ((unat (snd ?p) + c) mod ?B)" by (simp add: mul128_def Let_def)
  also have "\<dots> = (unat (fst ?p) + ?B * (unat (snd ?p) + c)) mod (?B * ?B)"
    by (rule digits_mod [OF u64_less])
  also have "unat (fst ?p) + ?B * (unat (snd ?p) + c) = unat (fst x) * unat (fst y) + ?B * c"
    unfolding p [symmetric] by (simp only: distrib_left distrib_right ac_simps)
  also have "\<dots> mod (?B * ?B) = (unat (fst x) * unat (fst y) + ?B * c + ?B * ?B * (unat (snd x) * unat (snd y))) mod (?B * ?B)"
    by (simp only: mod_mult_self2)
  also have "unat (fst x) * unat (fst y) + ?B * c + ?B * ?B * (unat (snd x) * unat (snd y)) = val2 x * val2 y"
    unfolding val2_def c_def by (simp only: distrib_left distrib_right ac_simps)
  finally show ?thesis by simp
qed

section \<open>Shifts of two limbs\<close>

text \<open>The part that moves between the limbs and the part that stays use different bits.\<close>

lemma unat_push: "unat (push_bit s w) = unat w * 2 ^ s mod 2 ^ 64" for w :: u64
  by (simp only: unsigned_push_bit_eq) (simp add: push_bit_eq_mult take_bit_eq_mod)

lemma unat_drop: "unat (drop_bit s w) = unat w div 2 ^ s" for w :: u64
  by (subst unat_drop_bit_eq) (simp only: drop_bit_eq_div)

lemma split_power: "s \<le> 64 \<Longrightarrow> (2 :: nat) ^ 64 = 2 ^ s * 2 ^ (64 - s)"
  by (simp add: power_add [symmetric])

lemma scaled_mod: "s \<le> 64 \<Longrightarrow> n * 2 ^ s mod 2 ^ 64 = n mod 2 ^ (64 - s) * 2 ^ s" for n :: nat
  unfolding split_power by (simp only: mult.commute [of n] mult.commute [of _ "2 ^ s"] mult_mod_right)

lemma join_shift:
  fixes w w' :: u64
  assumes "s \<le> 64"
  shows "unat (push_bit s w OR drop_bit (64 - s) w') = unat w * 2 ^ s mod 2 ^ 64 + unat w' div 2 ^ (64 - s)"
proof -
  have "push_bit s w AND drop_bit (64 - s) w' = 0"
    using assms by (intro bit_word_eqI) (auto simp: bit_simps dest!: bit_imp_le_length)
  then have e: "push_bit s w OR drop_bit (64 - s) w' = push_bit s w + drop_bit (64 - s) w'" by (simp only: disjunctive_add_eq_or)
  have "unat w' < 2 ^ s * 2 ^ (64 - s)" using u64_less [of w'] split_power [OF assms] by simp
  then have d: "unat w' div 2 ^ (64 - s) < 2 ^ s" by (simp add: div_less_iff_less_mult)
  have "unat w mod 2 ^ (64 - s) * 2 ^ s + 2 ^ s \<le> 2 ^ (64 - s) * 2 ^ s"
    using mult_right_mono [of "unat w mod 2 ^ (64 - s) + 1" "2 ^ (64 - s)" "2 ^ s"] by (simp add: Suc_leI)
  then have "unat w * 2 ^ s mod 2 ^ 64 + unat w' div 2 ^ (64 - s) < 2 ^ 64"
    unfolding scaled_mod [OF assms] using d split_power [OF assms] by (simp add: mult.commute)
  then show ?thesis unfolding e by (subst unat_plus_small) (simp_all only: unat_push unat_drop)
qed

lemma shift_split: "s < 64 \<Longrightarrow> 63 - s + 1 = 64 - s" for s :: nat
  by simp

lemma push_push: "s < 64 \<Longrightarrow> push_bit (63 - s) (push_bit 1 w) = push_bit (64 - s) w" for w :: u64
  by (simp only: push_bit_push_bit shift_split)

lemma drop_drop_bit: "s < 64 \<Longrightarrow> drop_bit (63 - s) (drop_bit 1 w) = drop_bit (64 - s) w" for w :: u64
  by (simp only: drop_bit_drop_bit shift_split)

lemma div_scaled: "(a + m * n * b) div n = a div n + m * b" if "0 < n" for a b m n :: nat
proof -
  have "a + m * n * b = a + n * (m * b)" by (simp only: ac_simps)
  then show ?thesis using that by (metis add.commute div_mult_self2 less_numeral_extra(3))
qed

lemma shr128_val: "s < 64 \<Longrightarrow> val2 (shr128 x s) = val2 x div 2 ^ s"
proof -
  assume s: "s < 64"
  let ?h = "unat (snd x)" and ?l = "unat (fst x)" and ?P = "2 ^ s :: nat" and ?Q = "2 ^ (64 - s) :: nat"
  have B: "2 ^ 64 = ?Q * ?P" using split_power [of "64 - s"] s by simp
  have "unat (drop_bit s (fst x) OR push_bit (64 - s) (snd x)) = ?h * ?Q mod 2 ^ 64 + ?l div ?P"
    using join_shift [of "64 - s" "snd x" "fst x"] s by (simp add: or.commute)
  also have "?h * ?Q mod 2 ^ 64 = ?h mod ?P * ?Q" using scaled_mod [of "64 - s" ?h] s by simp
  finally have "val2 (shr128 x s) = (?h mod ?P * ?Q + ?l div ?P) + ?Q * ?P * (?h div ?P)"
    unfolding shr128_def using s by (simp only: if_True push_push val2_Pair unat_drop B)
  also have "\<dots> = ?l div ?P + ?Q * (?h mod ?P + ?P * (?h div ?P))" by (simp only: distrib_left ac_simps)
  also have "?h mod ?P + ?P * (?h div ?P) = ?h" by (rule mod_mult_div_eq)
  also have "?l div ?P + ?Q * ?h = (?l + ?Q * ?P * ?h) div ?P" by (rule div_scaled [symmetric]) simp
  finally show ?thesis by (simp only: val2_def B)
qed

lemma shl128_val: "s < 64 \<Longrightarrow> val2 (shl128 x s) = val2 x * 2 ^ s mod 2 ^ 128"
proof -
  assume s: "s < 64"
  let ?h = "unat (snd x)" and ?l = "unat (fst x)" and ?P = "2 ^ s :: nat" and ?B = "2 ^ 64 :: nat"
  have q: "?l div 2 ^ (64 - s) = ?l * ?P div ?B" using s by (simp only: split_power [of s] mult.commute [of ?l] less_imp_le) simp
  let ?w = "push_bit s (snd x) OR drop_bit (64 - s) (fst x)"
  have e: "unat ?w = ?h * ?P mod ?B + ?l * ?P div ?B" using join_shift [of s "snd x" "fst x"] s q by simp
  have "unat ?w = unat ?w mod ?B" using u64_less [of ?w] by simp
  then have lt: "unat ?w = (?h * ?P + ?l * ?P div ?B) mod ?B" unfolding e by (simp only: mod_add_left_eq)
  have "val2 (shl128 x s) = ?l * ?P mod ?B + ?B * ((?h * ?P + ?l * ?P div ?B) mod ?B)"
    unfolding shl128_def using s by (simp only: if_True drop_drop_bit val2_Pair unat_push lt)
  also have "\<dots> = (?l * ?P mod ?B + ?B * (?h * ?P + ?l * ?P div ?B)) mod (?B * ?B)" by (rule digits_mod) simp
  also have "?l * ?P mod ?B + ?B * (?h * ?P + ?l * ?P div ?B) = (?l * ?P mod ?B + ?B * (?l * ?P div ?B)) + ?B * (?h * ?P)"
    by (simp only: distrib_left ac_simps)
  also have "\<dots> = val2 x * ?P" unfolding mod_mult_div_eq val2_def by (simp only: distrib_left distrib_right ac_simps)
  finally show ?thesis by simp
qed

end
