(* ===== verification/IntxDivision.thy ===== *)
theory IntxDivision
  imports IntxLimbs
begin

text \<open>
  The division of \<^verbatim>\<open>pkgs/intx-0.10.0/include/intx/intx.hpp\<close> on limb arrays: the reciprocal of a
  normalized limb by table lookup and Newton steps, the reciprocal of two limbs, the divisions two by
  one and three by two limbs that use them, and the long divisions by one, by two and by more limbs
  (Knuth's algorithm D) below \<open>udivrem\<close>. The theorem at the end is that \<open>udivrem\<close> gives quotient and
  remainder for arrays of every length, and so refines \<open>div\<close> and \<open>mod\<close> of the words in \<open>Intx\<close>.
\<close>

section \<open>Definitions\<close>

definition reciprocal_table_item :: "8 word \<Rightarrow> 16 word" where
  "reciprocal_table_item d9 = word_of_nat (0x7fd00 div (0x100 OR unat d9))"

definition reciprocal_table :: "16 word list" where
  "reciprocal_table = map (\<lambda>i. reciprocal_table_item (word_of_nat i)) [0..<256]"

text \<open>\<open>reciprocal_2by1\<close> up to its \<open>v2\<close>, and the whole of it.\<close>

definition reciprocal_v2 :: "u64 \<Rightarrow> u64" where
  "reciprocal_v2 d =
     (let d9 = drop_bit 55 d;
          v0 = (ucast (reciprocal_table ! unat (d9 - 256)) :: u32);
          d40 = drop_bit 24 d + 1;
          v1 = (ucast (push_bit 11 v0 - (ucast (drop_bit 40 (ucast (v0 * v0) * d40)) :: u32) - 1) :: u64)
      in push_bit 13 v1 + drop_bit 47 (v1 * (0x1000000000000000 - v1 * d40)))"

definition reciprocal_2by1 :: "u64 \<Rightarrow> u64" where
  "reciprocal_2by1 d =
     (let v2 = reciprocal_v2 d;
          d0 = d AND 1;
          d63 = drop_bit 1 d + d0;
          e = (drop_bit 1 v2 AND (0 - d0)) - v2 * d63;
          v3 = drop_bit 1 (snd (umul v2 e)) + push_bit 31 v2;
          v4 = v3 - snd (add128 (umul v3 d) (d, 0)) - d
      in v4)"

text \<open>\<open>reciprocal_3by2\<close> up to the multiplication by the low limb, and the whole of it.\<close>

definition reciprocal_3by2_high :: "uint128 \<Rightarrow> u64 \<times> u64" where
  "reciprocal_3by2_high d =
     (let v = reciprocal_2by1 (snd d);
          p = snd d * v;
          p = p + fst d
      in if p < fst d then
           (let v = v - 1;
                (v, p) = (if p \<ge> snd d then (v - 1, p - snd d) else (v, p))
            in (v, p - snd d))
         else (v, p))"

definition reciprocal_3by2 :: "uint128 \<Rightarrow> u64" where
  "reciprocal_3by2 d =
     (let (v, p) = reciprocal_3by2_high d;
          t = umul v (fst d);
          p = p + snd t
      in if p < snd t then
           (let v = v - 1 in
            if p \<ge> snd d then (if p > snd d \<or> fst t \<ge> fst d then v - 1 else v) else v)
         else v)"

definition udivrem_2by1 :: "uint128 \<Rightarrow> u64 \<Rightarrow> u64 \<Rightarrow> u64 \<times> u64" where
  "udivrem_2by1 u d v =
     (let q = fast_add (umul v (snd u)) u;
          q1 = snd q + 1;
          r = fst u - q1 * d;
          (q1, r) = (if r > fst q then (q1 - 1, r + d) else (q1, r));
          (q1, r) = (if r \<ge> d then (q1 + 1, r - d) else (q1, r))
      in (q1, r))"

definition udivrem_3by2 :: "u64 \<Rightarrow> u64 \<Rightarrow> u64 \<Rightarrow> uint128 \<Rightarrow> u64 \<Rightarrow> u64 \<times> uint128" where
  "udivrem_3by2 u2 u1 u0 d v =
     (let q = fast_add (umul v u2) (u1, u2);
          r1 = u1 - snd q * snd d;
          t = umul (fst d) (snd q);
          r = sub128 (sub128 (u0, r1) t) d;
          r1 = snd r;
          q1 = snd q + 1;
          (q1, r) = (if r1 \<ge> fst q then (q1 - 1, add128 r d) else (q1, r));
          (q1, r) = (if \<not> less128 r d then (q1 + 1, sub128 r d) else (q1, r))
      in (q1, r))"

section \<open>The reciprocal of a limb\<close>

text \<open>
  What a reciprocal is: \<open>v\<close> is \<^verbatim>\<open>(2^128 - 1) / d - 2^64\<close>, stated without the division, and the same one
  power higher for a divisor of two limbs.
\<close>

definition recip :: "int \<Rightarrow> int \<Rightarrow> int \<Rightarrow> bool" where
  "recip M d W \<longleftrightarrow> (let k = M - W * d in 1 \<le> k \<and> k \<le> d)"

lemma recip_div: "recip M d W \<Longrightarrow> W = (M - 1) div d"
proof -
  assume "recip M d W"
  then have "0 \<le> M - 1 - W * d" "M - 1 - W * d < d" by (auto simp: recip_def Let_def)
  then have "(M - 1 - W * d + W * d) div d = W" using div_mult_self1 [of d "M - 1 - W * d" W] by simp
  then show ?thesis by simp
qed

text \<open>The first approximation, from the table, has an error below \<^verbatim>\<open>1278 * 2^31\<close>.\<close>

lemma table_error:
  fixes D9 D40 V0 :: int
  assumes "256 \<le> D9" "D9 \<le> 511" "D9 * 2 ^ 31 + 1 \<le> D40" "D40 \<le> (D9 + 1) * 2 ^ 31" and V0: "V0 = 523520 div D9"
  shows "\<bar>2 ^ 50 - V0 * D40\<bar> \<le> 1278 * 2 ^ 31" "1024 \<le> V0" "V0 \<le> 2045"
proof -
  have m: "V0 * D9 \<le> 523520" "523520 < V0 * D9 + D9"
    using assms(1) minus_mod_eq_div_mult [of 523520 D9] pos_mod_bound [of D9 523520] pos_mod_sign [of D9 523520]
    unfolding V0 by linarith+
  have "0 \<le> V0" using assms(1) unfolding V0 by (intro pos_imp_zdiv_nonneg_iff [THEN iffD2]) simp_all
  then have "V0 * 256 \<le> V0 * D9" using assms(1) by (intro mult_left_mono) simp_all
  then show le: "V0 \<le> 2045" using m(1) by simp
  show ge: "1024 \<le> V0"
  proof (rule ccontr)
    assume "\<not> 1024 \<le> V0"
    then have "(V0 + 1) * D9 \<le> 1024 * D9" using assms(1) by (intro mult_right_mono) simp_all
    then show False using m(2) assms(2) by (simp add: algebra_simps)
  qed
  have "V0 * D40 \<le> V0 * ((D9 + 1) * 2 ^ 31)" using assms(4) ge by (intro mult_left_mono) simp_all
  also have "\<dots> = (V0 * D9 + V0) * 2 ^ 31" by (simp add: algebra_simps)
  finally have u: "V0 * D40 \<le> (V0 * D9 + V0) * 2 ^ 31" .
  have "(V0 * D9) * 2 ^ 31 = V0 * (D9 * 2 ^ 31)" by simp
  also have "\<dots> \<le> V0 * D40" using assms(3) ge by (intro mult_left_mono) simp_all
  finally show "\<bar>2 ^ 50 - V0 * D40\<bar> \<le> 1278 * 2 ^ 31" using u m le assms(2) by simp
qed

text \<open>The first Newton step squares the error and adds at most one unit.\<close>

lemma newton1:
  fixes D40 V0 V1 :: int
  assumes e0: "\<bar>2 ^ 50 - V0 * D40\<bar> \<le> 1278 * 2 ^ 31" and D: "2 ^ 39 < D40" "D40 \<le> 2 ^ 40"
    and V1: "V1 = 2 ^ 11 * V0 - V0 * V0 * D40 div 2 ^ 40 - 1"
  shows "0 < 2 ^ 60 - V1 * D40" "2 ^ 60 - V1 * D40 \<le> 29 * 2 ^ 38" "0 < V1" "V1 < 2 ^ 21"
proof -
  define g where "g = 2 ^ 40 - V0 * V0 * D40 mod 2 ^ 40"
  have g: "0 < g" "g \<le> 2 ^ 40" by (simp_all add: g_def)
  have "2 ^ 40 * (V0 * V0 * D40 div 2 ^ 40) = V0 * V0 * D40 - (2 ^ 40 - g)"
    using minus_mod_eq_mult_div [of "V0 * V0 * D40" "2 ^ 40"] by (simp add: g_def)
  then have v: "2 ^ 40 * V1 = 2 ^ 51 * V0 - V0 * V0 * D40 - g" unfolding V1 by simp
  have e: "2 ^ 40 * (2 ^ 60 - V1 * D40) = (2 ^ 50 - V0 * D40)\<^sup>2 + D40 * g"
  proof -
    have "2 ^ 40 * (2 ^ 60 - V1 * D40) = 2 ^ 100 - (2 ^ 40 * V1) * D40" by (simp add: algebra_simps)
    also have "\<dots> = (2 ^ 50 - V0 * D40)\<^sup>2 + D40 * g" unfolding v by (simp add: power2_eq_square algebra_simps)
    finally show ?thesis .
  qed
  have Dg: "0 < D40 * g" "D40 * g \<le> 2 ^ 40 * 2 ^ 40" using D g by (simp, intro mult_mono) simp_all
  have "0 < 2 ^ 40 * (2 ^ 60 - V1 * D40)" unfolding e using Dg(1) by (intro add_nonneg_pos) simp_all
  then show pos: "0 < 2 ^ 60 - V1 * D40" by (simp only: zero_less_mult_iff) simp
  have "(2 ^ 50 - V0 * D40)\<^sup>2 \<le> (1278 * 2 ^ 31)\<^sup>2" using abs_le_square_iff [of "2 ^ 50 - V0 * D40" "1278 * 2 ^ 31"] e0 by simp
  then show up: "2 ^ 60 - V1 * D40 \<le> 29 * 2 ^ 38" using e Dg(2) by simp
  have pr: "0 < V1 * D40" using up by simp
  then show V: "0 < V1" using D(1) by (simp add: zero_less_mult_iff)
  have "V1 * 2 ^ 39 < V1 * D40" using V D(1) by (intro mult_strict_left_mono) simp_all
  then show "V1 < 2 ^ 21" using pos by simp
qed

lemma newton2:
  fixes D40 V1 V2 E1 d :: int
  assumes V1: "0 < V1" and E1: "E1 = 2 ^ 60 - V1 * D40" "0 < E1" "E1 \<le> 29 * 2 ^ 38" and D: "0 < D40" "D40 \<le> 2 ^ 40"
    and d: "2 ^ 63 \<le> d" "d < 2 ^ 24 * D40" "2 ^ 24 * D40 \<le> d + 2 ^ 24"
    and V2: "V2 = 2 ^ 13 * V1 + V1 * E1 div 2 ^ 47"
  shows "0 < 2 ^ 97 - V2 * d" "2 ^ 97 - V2 * d \<le> 874 * 2 ^ 53 + d" "0 < V2" "V2 < 2 ^ 34"
proof -
  define f where "f = V1 * E1 mod 2 ^ 47"
  have f: "0 \<le> f" "f < 2 ^ 47" by (simp_all add: f_def)
  have pos: "0 \<le> V1 * E1 div 2 ^ 47" using V1 E1(2) by (simp add: pos_imp_zdiv_nonneg_iff)
  then show V2_pos: "0 < V2" using V1 V2 by simp
  have "2 ^ 47 * (V1 * E1 div 2 ^ 47) = V1 * E1 - f"
    using minus_mod_eq_mult_div [of "V1 * E1" "2 ^ 47"] by (simp add: f_def)
  then have v: "2 ^ 47 * V2 = V1 * (2 ^ 60 + E1) - f" unfolding V2 by (simp add: algebra_simps)
  define \<delta> where "\<delta> = 2 ^ 24 * D40 - d"
  have \<delta>: "0 < \<delta>" "\<delta> \<le> 2 ^ 24" using d by (simp_all add: \<delta>_def)
  have DV: "D40 * V1 = 2 ^ 60 - E1" using E1(1) by (simp add: mult.commute)
  have e: "2 ^ 47 * (2 ^ 97 - V2 * d) = 2 ^ 24 * E1\<^sup>2 + 2 ^ 24 * (f * D40) + 2 ^ 47 * (V2 * \<delta>)"
  proof -
    have "2 ^ 47 * (2 ^ 97 - V2 * d) = 2 ^ 144 - 2 ^ 24 * (D40 * (2 ^ 47 * V2)) + 2 ^ 47 * (V2 * \<delta>)"
      by (simp add: \<delta>_def algebra_simps)
    also have "D40 * (2 ^ 47 * V2) = (D40 * V1) * (2 ^ 60 + E1) - f * D40" unfolding v by (simp add: algebra_simps)
    finally show ?thesis unfolding DV by (simp add: power2_eq_square algebra_simps)
  qed
  have sq: "0 < E1\<^sup>2" "E1\<^sup>2 \<le> (29 * 2 ^ 38)\<^sup>2" using E1(2,3) by (simp, intro power_mono) simp_all
  have fD: "0 \<le> f * D40" "f * D40 \<le> 2 ^ 47 * D40" using f D by (simp, intro mult_right_mono) simp_all
  have V\<delta>: "0 < V2 * \<delta>" "V2 * \<delta> \<le> V2 * 2 ^ 24" using V2_pos \<delta> by (simp, intro mult_left_mono) simp_all
  have "0 < 2 ^ 47 * (2 ^ 97 - V2 * d)" unfolding e using sq fD V\<delta> by (intro add_pos_pos add_pos_nonneg) simp_all
  then show E2: "0 < 2 ^ 97 - V2 * d" by simp
  have "V2 * 2 ^ 63 \<le> V2 * d" using V2_pos d(1) by (intro mult_left_mono) simp_all
  then show lt: "V2 < 2 ^ 34" using E2 by simp
  have "2 ^ 47 * (2 ^ 97 - V2 * d) \<le> 2 ^ 24 * (29 * 2 ^ 38)\<^sup>2 + 2 ^ 24 * (2 ^ 47 * D40) + 2 ^ 47 * (2 ^ 34 * 2 ^ 24)"
    unfolding e using sq(2) fD(2) V\<delta>(2) lt by simp
  then show "2 ^ 97 - V2 * d \<le> 874 * 2 ^ 53 + d" using d(3) by simp
qed

text \<open>The second step leaves an error below two divisors.\<close>

lemma newton3:
  fixes V2 V3 E2 d :: int
  assumes V2: "0 < V2" "V2 < 2 ^ 34" and E2: "E2 = 2 ^ 97 - V2 * d" "0 < E2" "E2 \<le> 874 * 2 ^ 53 + d"
    and d: "2 ^ 63 \<le> d" "d < 2 ^ 64" and V3: "V3 = 2 ^ 31 * V2 + V2 * (E2 div 2) div 2 ^ 65"
  shows "0 < 2 ^ 128 - V3 * d" "2 ^ 128 - V3 * d < 2 * d"
proof -
  define b f where "b = E2 mod 2" and "f = V2 * (E2 div 2) mod 2 ^ 65"
  have b: "0 \<le> b" "b \<le> 1" and f: "0 \<le> f" "f < 2 ^ 65" by (simp_all add: b_def f_def)
  have "2 ^ 65 * (V2 * (E2 div 2) div 2 ^ 65) = V2 * (E2 div 2) - f"
    using minus_mod_eq_mult_div [of "V2 * (E2 div 2)" "2 ^ 65"] by (simp add: f_def)
  moreover have "2 * (E2 div 2) = E2 - b" using minus_mod_eq_mult_div [of E2 2] by (simp add: b_def)
  ultimately have "2 ^ 66 * V3 = 2 ^ 97 * V2 + V2 * (E2 - b) - 2 * f" unfolding V3
    using arg_cong [of "2 * (E2 div 2)" "E2 - b" "\<lambda>z. V2 * z"] by (simp add: algebra_simps)
  then have v: "2 ^ 66 * V3 = V2 * (2 ^ 97 + E2) - (b * V2 + 2 * f)" by (simp add: algebra_simps)
  have Vd: "V2 * d = 2 ^ 97 - E2" using E2(1) by simp
  have e: "2 ^ 66 * (2 ^ 128 - V3 * d) = E2\<^sup>2 + d * (b * V2 + 2 * f)"
  proof -
    have "2 ^ 66 * (2 ^ 128 - V3 * d) = 2 ^ 194 - (2 ^ 66 * V3) * d" by (simp add: algebra_simps)
    also have "(2 ^ 66 * V3) * d = (V2 * d) * (2 ^ 97 + E2) - d * (b * V2 + 2 * f)" unfolding v by (simp add: algebra_simps)
    finally show ?thesis unfolding Vd by (simp add: power2_eq_square algebra_simps)
  qed
  have c: "0 \<le> b * V2" "b * V2 \<le> 2 ^ 34" using b V2 mult_mono [of b 1 V2 "2 ^ 34"] by simp_all
  have "0 < 2 ^ 66 * (2 ^ 128 - V3 * d)"
    unfolding e using E2(2) c f d by (intro add_pos_nonneg mult_nonneg_nonneg) simp_all
  then show "0 < 2 ^ 128 - V3 * d" by simp
  let ?c = "874 * 2 ^ 53 :: int"
  have "E2\<^sup>2 \<le> (?c + d)\<^sup>2" using E2(2,3) by (intro power_mono) simp_all
  also have "(?c + d)\<^sup>2 = ?c * ?c + (2 * ?c) * d + d * d" by (simp add: power2_eq_square algebra_simps)
  also have "\<dots> \<le> ?c * d + (2 * ?c) * d + 2 ^ 64 * d" using d by (intro add_mono mult_left_mono mult_right_mono) simp_all
  finally have "E2\<^sup>2 \<le> (3 * ?c + 2 ^ 64) * d" by (simp add: algebra_simps)
  moreover have "d * (b * V2 + 2 * f) \<le> d * (2 ^ 34 + 2 ^ 66)" using c f d by (intro mult_left_mono) simp_all
  ultimately have "2 ^ 66 * (2 ^ 128 - V3 * d) \<le> (3 * ?c + 2 ^ 64 + 2 ^ 34 + 2 ^ 66) * d" unfolding e by (simp add: algebra_simps)
  also have "\<dots> < 2 ^ 67 * d" using d by (intro mult_strict_right_mono) simp_all
  finally show "2 ^ 128 - V3 * d < 2 * d" by simp
qed

text \<open>The last step finds out which of the two candidates it is.\<close>

lemma final_step:
  fixes V3 d :: int
  assumes e: "0 < 2 ^ 128 - V3 * d" "2 ^ 128 - V3 * d < 2 * d" and d: "2 ^ 63 \<le> d" "d < 2 ^ 64"
    and V4: "V4 = V3 + (2 ^ 64 - (V3 + 1) * d div 2 ^ 64)"
  shows "recip (2 ^ 128) d V4" "2 ^ 64 \<le> V3" "V3 < 2 ^ 65" "2 ^ 64 \<le> V4" "V4 < 2 ^ 65"
proof -
  show lo: "2 ^ 64 \<le> V3"
  proof (rule ccontr)
    assume "\<not> 2 ^ 64 \<le> V3"
    then have "(V3 + 2) * d \<le> (2 ^ 64 + 1) * d" using d by (intro mult_right_mono) simp_all
    also have "\<dots> \<le> (2 ^ 64 + 1) * (2 ^ 64 - 1)" using d by (intro mult_left_mono) simp_all
    finally show False using e(2) by (simp add: algebra_simps)
  qed
  have up: "W < 2 ^ 65" if "W * d < 2 ^ 128" "0 \<le> W" for W
    using mult_left_mono [OF d(1) that(2)] that(1) by simp
  show "V3 < 2 ^ 65" using up [of V3] e(1) lo by simp
  have "V4 = (if 2 ^ 128 - V3 * d \<le> d then V3 else V3 + 1)"
  proof (cases "2 ^ 128 - V3 * d \<le> d")
    case True
    then have "2 ^ 64 * 2 ^ 64 \<le> (V3 + 1) * d \<and> (V3 + 1) * d < (2 ^ 64 + 1) * 2 ^ 64" using e d by (simp add: algebra_simps)
    then have "(V3 + 1) * d div 2 ^ 64 = 2 ^ 64" by (intro int_div_pos_eq [of _ _ _ "(V3 + 1) * d - 2 ^ 128"]) simp_all
    then show ?thesis using True V4 by simp
  next
    case False
    then have "(2 ^ 64 - 1) * 2 ^ 64 \<le> (V3 + 1) * d \<and> (V3 + 1) * d < 2 ^ 64 * 2 ^ 64" using e d by (simp add: algebra_simps)
    then have "(V3 + 1) * d div 2 ^ 64 = 2 ^ 64 - 1" by (intro int_div_pos_eq [of _ _ _ "(V3 + 1) * d - (2 ^ 64 - 1) * 2 ^ 64"]) simp_all
    then show ?thesis using False V4 by simp
  qed
  then show "recip (2 ^ 128) d V4" "2 ^ 64 \<le> V4" using e lo by (auto simp: recip_def Let_def algebra_simps)
  then show "V4 < 2 ^ 65" using up [of V4] by (simp add: recip_def Let_def)
qed

subsection \<open>The words of the computation\<close>

lemma uint_lt64: "0 \<le> uint (x :: u64)" "uint (x :: u64) < 2 ^ 64"
  using uint_bounded [of x] by simp_all

lemma uint_drop: "uint (drop_bit n w) = uint w div 2 ^ n" for w :: "'a::len word"
proof -
  have "int (unat (drop_bit n w)) = int (unat w div 2 ^ n)" by (subst unat_drop_bit_eq) (simp only: drop_bit_eq_div)
  then show ?thesis by (simp add: zdiv_int)
qed

lemma uint_eqI: "w = word_of_int n \<Longrightarrow> 0 \<le> n \<Longrightarrow> n < 2 ^ LENGTH('a) \<Longrightarrow> uint w = n" for w :: "'a::len word"
  by (simp add: uint_word_of_int)

lemma table_item: "unat (reciprocal_table_item w) = 0x7fd00 div (256 + unat w)"
proof -
  have "(0x100 :: nat) AND unat w = 0"
  proof (rule bit_eqI)
    fix n
    have "bit (0x100 :: nat) n \<longleftrightarrow> n = 8" using bit_exp_iff [of 8 n, where ?'a = nat] by simp
    moreover have "\<not> bit (unat w) 8" using bit_imp_le_length [of w 8] by (auto simp: bit_unsigned_iff)
    ultimately show "bit ((0x100 :: nat) AND unat w) n \<longleftrightarrow> bit (0 :: nat) n" by (auto simp: bit_and_iff)
  qed
  then have "(0x100 :: nat) OR unat w = 256 + unat w" by (simp add: disjunctive_add_eq_or [symmetric])
  moreover have "(0x7fd00 :: nat) div (256 + unat w) \<le> 0x7fd00 div 256" by (intro div_le_mono2) simp_all
  ultimately show ?thesis by (simp add: reciprocal_table_item_def unat_of_nat)
qed

lemma table_nth: "i < 256 \<Longrightarrow> unat (reciprocal_table ! i) = 0x7fd00 div (256 + i)"
proof -
  assume i: "i < 256"
  then have "unat (word_of_nat i :: 8 word) = i" by (simp add: unat_of_nat)
  then show ?thesis using i by (simp add: reciprocal_table_def table_item)
qed

lemma ucast_up: "LENGTH('a) \<le> LENGTH('b) \<Longrightarrow> uint (ucast w :: 'b::len word) = uint w" for w :: "'a::len word"
  by transfer (simp add: take_bit_take_bit min_absorb2)

lemma table_lookup:
  fixes d :: u64
  assumes "2 ^ 63 \<le> uint d"
  shows "256 \<le> uint d div 2 ^ 55" "uint d div 2 ^ 55 \<le> 511"
    and "uint (reciprocal_table ! unat (drop_bit 55 d - 256)) = 523520 div (uint d div 2 ^ 55)"
proof -
  let ?n = "uint d div 2 ^ 55"
  show n: "256 \<le> ?n" "?n \<le> 511"
    using zdiv_mono1 [of "2 ^ 63" "uint d" "2 ^ 55"] zdiv_mono1 [of "uint d" "2 ^ 64 - 1" "2 ^ 55"] assms uint_lt64 [of d] by simp_all
  have "drop_bit 55 d - 256 = word_of_int (?n - 256)"
    by (metis of_int_diff of_int_numeral uint_drop word_of_int_uint)
  then have "uint (drop_bit 55 d - 256) = ?n - 256" using n by (intro uint_eqI) simp_all
  then have u: "unat (drop_bit 55 d - 256) = nat (?n - 256)" by (simp only: unat_eq_nat_uint)
  have "unat (reciprocal_table ! unat (drop_bit 55 d - 256)) = 0x7fd00 div (256 + nat (?n - 256))"
    unfolding u using n by (intro table_nth) simp
  moreover have "256 + nat (?n - 256) = nat ?n" using n by simp
  ultimately have "int (unat (reciprocal_table ! unat (drop_bit 55 d - 256))) = 523520 div int (nat ?n)"
    by (simp only: zdiv_int) simp
  then show "uint (reciprocal_table ! unat (drop_bit 55 d - 256)) = 523520 div ?n" using n by simp
qed

lemma val2_snd: "uint (snd p) = int (val2 p) div 2 ^ 64" and val2_fst: "uint (fst p) = int (val2 p) mod 2 ^ 64"
proof -
  have v: "int (val2 p) = uint (fst p) + 2 ^ 64 * uint (snd p)" by (simp add: val2_def)
  show "uint (snd p) = int (val2 p) div 2 ^ 64" "uint (fst p) = int (val2 p) mod 2 ^ 64"
    unfolding v using uint_lt64 [of "fst p"] by simp_all
qed

lemma uint_umul_high: "uint (snd (umul x y)) = uint x * uint y div 2 ^ 64"
  by (simp add: val2_snd umul_val)

lemma wi_uint: "word_of_int (uint x) = x" for x :: u64
  by simp

text \<open>The 32-bit part: the table's entry and the first Newton step.\<close>

lemma word_v1:
  fixes v0 :: u32 and d40 :: u64
  assumes "1024 \<le> uint v0" "uint v0 \<le> 2045" "uint d40 \<le> 2 ^ 40"
  defines "x \<equiv> uint v0 * uint v0 * uint d40 div 2 ^ 40"
  shows "uint (ucast (push_bit 11 v0 - (ucast (drop_bit 40 (ucast (v0 * v0) * d40)) :: u32) - 1) :: u64) = 2 ^ 11 * uint v0 - x - 1"
proof -
  have sq: "uint v0 * uint v0 \<le> 2045 * 2045" using assms(1,2) by (intro mult_mono) simp_all
  have "v0 * v0 = word_of_int (uint v0 * uint v0)" by simp
  then have v2: "uint (v0 * v0) = uint v0 * uint v0" using sq by (intro uint_eqI) simp_all
  then have c: "uint (ucast (v0 * v0) :: u64) = uint v0 * uint v0" by (simp add: ucast_up)
  have p: "uint v0 * uint v0 * uint d40 \<le> uint v0 * uint v0 * 2 ^ 40" using assms(3) by (intro mult_left_mono) simp_all
  have "(ucast (v0 * v0) :: u64) * d40 = word_of_int (uint v0 * uint v0 * uint d40)" using c by (metis of_int_mult wi_uint)
  then have m: "uint ((ucast (v0 * v0) :: u64) * d40) = uint v0 * uint v0 * uint d40"
    using sq p by (intro uint_eqI) simp_all
  have x: "0 \<le> x" "x \<le> uint v0 * uint v0" using p by (simp_all add: x_def pos_imp_zdiv_nonneg_iff)
  have dr: "drop_bit 40 ((ucast (v0 * v0) :: u64) * d40) = word_of_int x"
    unfolding x_def m [symmetric] uint_drop [symmetric] by simp
  have "(ucast (word_of_int x :: u64) :: u32) = word_of_int x"
    using x sq by (simp add: ucast_eq uint_word_of_int)
  then have w: "push_bit 11 v0 - (ucast (drop_bit 40 (ucast (v0 * v0) * d40)) :: u32) - 1 = word_of_int (2 ^ 11 * uint v0 - x - 1)"
    unfolding dr by (simp add: push_bit_eq_mult mult.commute)
  have "x \<le> uint v0 * 2045" using x(2) mult_left_mono [OF assms(2), of "uint v0"] by simp
  then have "uint (push_bit 11 v0 - (ucast (drop_bit 40 (ucast (v0 * v0) * d40)) :: u32) - 1) = 2 ^ 11 * uint v0 - x - 1"
    using x assms(1,2) by (intro uint_eqI [OF w]) simp_all
  then show ?thesis using x(1) assms(2) by (simp add: ucast_up)
qed

text \<open>\<open>e\<close> is half the error of \<open>v2\<close>, rounded down.\<close>

lemma word_odd: "d AND 1 = word_of_int (uint d mod 2)" for d :: u64
proof -
  have "uint (d AND 1) = uint d mod 2" by (subst unsigned_and_eq) (simp only: unsigned_1 and_one_eq)
  then show ?thesis by (metis word_of_int_uint)
qed

lemma word_e:
  fixes v2 d :: u64
  shows "(drop_bit 1 v2 AND (0 - (d AND 1))) - v2 * (drop_bit 1 d + (d AND 1)) = word_of_int ((2 ^ 97 - uint v2 * uint d) div 2)"
proof (cases "even (uint d)")
  case True
  then obtain m where m: "uint d = 2 * m" by (elim evenE)
  have "d AND 1 = 0" unfolding word_odd m by simp
  moreover have "drop_bit 1 d = word_of_int m" using m uint_drop [of 1 d] by (metis nonzero_mult_div_cancel_left power_one_right word_of_int_uint zero_neq_numeral)
  moreover have "(2 ^ 97 - uint v2 * uint d) div 2 = 2 ^ 96 - uint v2 * m" by (simp add: m)
  ultimately show ?thesis by simp
next
  case False
  then obtain m where m: "uint d = 2 * m + 1" by (elim oddE)
  have "d AND 1 = 1" unfolding word_odd m by simp
  moreover have "drop_bit 1 d = word_of_int m" using m uint_drop [of 1 d] by (metis add.commute div_mult_self2 power_one_right word_of_int_uint zero_neq_numeral zdiv_eq_0_iff add_0 one_div_two_eq_zero)
  moreover have "drop_bit 1 v2 = word_of_int (uint v2 div 2)" by (metis power_one_right uint_drop word_of_int_uint)
  moreover have "(2 ^ 97 - uint v2 * uint d) div 2 = 2 ^ 96 - uint v2 * (m + 1) + uint v2 div 2"
    by (simp add: m algebra_simps)
  ultimately show ?thesis by simp
qed

text \<open>The approximation before the last steps, with its error.\<close>

lemma reciprocal_v2_error:
  assumes d: "2 ^ 63 \<le> uint d"
  shows "0 < 2 ^ 97 - uint (reciprocal_v2 d) * uint d" "2 ^ 97 - uint (reciprocal_v2 d) * uint d \<le> 874 * 2 ^ 53 + uint d"
    "0 < uint (reciprocal_v2 d)" "uint (reciprocal_v2 d) < 2 ^ 34"
proof -
  let ?d = "uint d"
  define v0 :: u32 where "v0 = ucast (reciprocal_table ! unat (drop_bit 55 d - 256))"
  define d40 where "d40 = drop_bit 24 d + 1"
  define v1 :: u64 where "v1 = ucast (push_bit 11 v0 - (ucast (drop_bit 40 (ucast (v0 * v0) * d40)) :: u32) - 1)"
  have v2: "reciprocal_v2 d = push_bit 13 v1 + drop_bit 47 (v1 * (0x1000000000000000 - v1 * d40))"
    unfolding reciprocal_v2_def Let_def v1_def d40_def v0_def ..
  note tab = table_lookup [OF d]
  have V0: "uint v0 = 523520 div (?d div 2 ^ 55)" unfolding v0_def tab(3) [symmetric] by (simp add: ucast_up)
  have "d40 = word_of_int (?d div 2 ^ 24 + 1)" unfolding d40_def by (metis of_int_1 of_int_add uint_drop word_of_int_uint)
  moreover have q: "0 \<le> ?d div 2 ^ 24" "?d div 2 ^ 24 \<le> 2 ^ 40 - 1"
    using uint_lt64 [of d] zdiv_mono1 [of ?d "2 ^ 64 - 1" "2 ^ 24"] by (simp_all add: pos_imp_zdiv_nonneg_iff)
  ultimately have D40: "uint d40 = ?d div 2 ^ 24 + 1" by (intro uint_eqI) simp_all
  have m24: "2 ^ 24 * uint d40 = ?d - ?d mod 2 ^ 24 + 2 ^ 24" unfolding D40 distrib_left minus_mod_eq_mult_div by simp
  have b24: "0 \<le> ?d mod 2 ^ 24" "?d mod 2 ^ 24 < 2 ^ 24" by simp_all
  have m55: "2 ^ 55 * (?d div 2 ^ 55) = ?d - ?d mod 2 ^ 55" "0 \<le> ?d mod 2 ^ 55" "?d mod 2 ^ 55 < 2 ^ 55"
    by (simp_all only: minus_mod_eq_mult_div) simp_all
  have lo: "?d div 2 ^ 55 * 2 ^ 31 + 1 \<le> uint d40" and hi: "uint d40 \<le> (?d div 2 ^ 55 + 1) * 2 ^ 31"
    using m24 b24 m55 by simp_all
  have D: "2 ^ 39 < uint d40" "uint d40 \<le> 2 ^ 40" "0 < uint d40" using q(2) D40 m24 b24 d by simp_all
  note e0 = table_error [OF tab(1,2) lo hi V0]
  have V1: "uint v1 = 2 ^ 11 * uint v0 - uint v0 * uint v0 * uint d40 div 2 ^ 40 - 1"
    unfolding v1_def by (rule word_v1 [OF e0(2,3) D(2)])
  note n1 = newton1 [OF e0(1) D(1,2) V1]
  define E1 where "E1 = 2 ^ 60 - uint v1 * uint d40"
  have "v1 * (0x1000000000000000 - v1 * d40) = word_of_int (uint v1 * E1)" by (simp add: E1_def)
  moreover have "uint v1 * E1 \<le> 2 ^ 21 * (29 * 2 ^ 38)" using n1 by (intro mult_mono) (simp_all add: E1_def)
  ultimately have p: "uint (v1 * (0x1000000000000000 - v1 * d40)) = uint v1 * E1" using n1 by (intro uint_eqI) (simp_all add: E1_def)
  define V2 where "V2 = 2 ^ 13 * uint v1 + uint v1 * E1 div 2 ^ 47"
  have V2w: "reciprocal_v2 d = word_of_int V2"
    unfolding v2 V2_def p [symmetric] uint_drop [symmetric] by (simp add: push_bit_eq_mult mult.commute)
  have "?d < 2 ^ 24 * uint d40" "2 ^ 24 * uint d40 \<le> ?d + 2 ^ 24" using m24 b24 by simp_all
  note n2 = newton2 [OF n1(3) E1_def n1(1) [folded E1_def] n1(2) [folded E1_def] D(3,2) d this V2_def]
  have "uint (reciprocal_v2 d) = V2" using n2(3,4) by (intro uint_eqI [OF V2w]) simp_all
  then show "0 < 2 ^ 97 - uint (reciprocal_v2 d) * uint d" "2 ^ 97 - uint (reciprocal_v2 d) * uint d \<le> 874 * 2 ^ 53 + uint d"
    "0 < uint (reciprocal_v2 d)" "uint (reciprocal_v2 d) < 2 ^ 34"
    using n2 by (simp_all only:)
qed

text \<open>The reciprocal of every normalized limb is right.\<close>

lemma reciprocal_2by1_correct:
  assumes d: "2 ^ 63 \<le> uint d"
  shows "recip (2 ^ 128) (uint d) (2 ^ 64 + uint (reciprocal_2by1 d))"
proof -
  let ?d = "uint d"
  define v2 where "v2 = reciprocal_v2 d"
  define e where "e = (drop_bit 1 v2 AND (0 - (d AND 1))) - v2 * (drop_bit 1 d + (d AND 1))"
  define v3 where "v3 = drop_bit 1 (snd (umul v2 e)) + push_bit 31 v2"
  have v4: "reciprocal_2by1 d = v3 - snd (add128 (umul v3 d) (d, 0)) - d"
    unfolding reciprocal_2by1_def Let_def v3_def e_def v2_def ..
  note n2 = reciprocal_v2_error [OF d, folded v2_def]
  define E2 where "E2 = 2 ^ 97 - uint v2 * ?d"
  have E2: "0 < E2" "E2 \<le> 874 * 2 ^ 53 + ?d" using n2 by (simp_all add: E2_def)
  have "e = word_of_int (E2 div 2)" unfolding e_def word_e E2_def ..
  then have E: "uint e = E2 div 2" using E2 uint_lt64 [of d] by (intro uint_eqI) (simp_all add: pos_imp_zdiv_nonneg_iff)
  define V3 where "V3 = 2 ^ 31 * uint v2 + uint v2 * (E2 div 2) div 2 ^ 65"
  have "uint (drop_bit 1 (snd (umul v2 e))) = uint v2 * (E2 div 2) div 2 ^ 65"
    unfolding uint_drop uint_umul_high E by (simp add: zdiv_zmult2_eq [symmetric])
  then have "drop_bit 1 (snd (umul v2 e)) = word_of_int (uint v2 * (E2 div 2) div 2 ^ 65)" by (metis word_of_int_uint)
  then have V3w: "v3 = word_of_int V3" unfolding v3_def V3_def by (simp add: push_bit_eq_mult mult.commute)
  note n3 = newton3 [OF n2(3,4) E2_def E2 d uint_lt64(2) V3_def]
  note fin = final_step [OF n3 d uint_lt64(2) refl]
  have "v3 = word_of_int (V3 - 2 ^ 64)" unfolding V3w by simp
  then have v3: "uint v3 = V3 - 2 ^ 64" using fin(2,3) by (intro uint_eqI) simp_all
  have "(uint v3 + 1) * ?d \<le> 2 ^ 64 * ?d" using uint_lt64 [of v3] by (intro mult_right_mono) simp_all
  then have "(uint v3 + 1) * ?d < 2 ^ 128" using uint_lt64 [of d] by simp
  moreover have "int (val2 (add128 (umul v3 d) (d, 0))) = (uint v3 + 1) * ?d mod 2 ^ 128"
    by (simp add: add128_val umul_val zmod_int algebra_simps)
  ultimately have "int (val2 (add128 (umul v3 d) (d, 0))) = (uint v3 + 1) * ?d" by simp
  then have "uint (snd (add128 (umul v3 d) (d, 0))) = ((V3 + 1) * ?d - 2 ^ 64 * ?d) div 2 ^ 64"
    by (simp add: val2_snd v3 algebra_simps)
  also have "\<dots> = (V3 + 1) * ?d div 2 ^ 64 - ?d" using div_mult_self2 [of "2 ^ 64" "(V3 + 1) * ?d" "- ?d"] by simp
  finally have h: "snd (add128 (umul v3 d) (d, 0)) = word_of_int ((V3 + 1) * ?d div 2 ^ 64 - ?d)" by (metis word_of_int_uint)
  define V4 where "V4 = V3 + (2 ^ 64 - (V3 + 1) * ?d div 2 ^ 64)"
  have "reciprocal_2by1 d = word_of_int (V4 - 2 ^ 64)" unfolding v4 h by (simp add: V3w V4_def)
  then have "uint (reciprocal_2by1 d) = V4 - 2 ^ 64" using fin(4,5) by (intro uint_eqI) (simp_all add: V4_def)
  then have "2 ^ 64 + uint (reciprocal_2by1 d) = V4" by simp
  then show ?thesis using fin(1) by (simp only: V4_def)
qed

section \<open>Division of two limbs by one\<close>

text \<open>
  The candidate quotient is at most one too large or too small, and the low limb of the
  approximation tells which.
\<close>

lemma divide_2by1_bounds:
  fixes B d u1 u0 W k q1 q0 :: int
  assumes W: "W * d = B * B - k" "1 \<le> k" "k \<le> d" and u: "0 \<le> u1" "u1 < d" "0 \<le> u0" "u0 < B" and d: "d < B"
    and q: "W * u1 + u0 = B * q1 + q0" "0 \<le> q0" "q0 < B"
  defines "R \<equiv> u1 * B + u0 - (q1 + 1) * d"
  shows "- d \<le> R" "q0 - B < R" "R < B - d \<or> R < q0"
proof -
  have B: "0 < B" "0 < d" using u by linarith+
  have "B * R = B * (u1 * B) + B * u0 - (B * q1) * d - B * d" by (simp add: R_def algebra_simps)
  also have "B * q1 = W * u1 + u0 - q0" using q(1) by simp
  also have "(W * u1 + u0 - q0) * d = (W * d) * u1 + u0 * d - q0 * d" by (simp add: algebra_simps)
  finally have R: "B * R = k * u1 + (B - d) * u0 + q0 * d - B * d" unfolding W(1) by (simp add: algebra_simps)
  have nn: "0 \<le> k * u1" "0 \<le> (B - d) * u0" "0 \<le> q0 * d" using W u d q B by simp_all
  have "B * (- d) \<le> B * R" unfolding R using nn by simp
  then show "- d \<le> R" using B(1) by (simp only: mult_le_cancel_left_pos)
  have "B * (q0 - B) < d * (q0 - B)" using q(3) d by (intro mult_strict_right_mono_neg) simp_all
  also have "\<dots> \<le> B * R" unfolding R using nn by (simp add: algebra_simps)
  finally show "q0 - B < R" using B(1) by (simp only: mult_less_cancel_left_pos)
  have "k * u1 < d * d" using W u B mult_mono [of k d u1 "d - 1"] by (simp add: algebra_simps)
  moreover have "(B - d) * u0 \<le> (B - d) * B" using u d by (intro mult_left_mono) simp_all
  ultimately have up: "B * R < (B - d) * (B - d) + d * q0" unfolding R by (simp add: algebra_simps)
  show "R < B - d \<or> R < q0"
  proof (rule ccontr)
    assume "\<not> (R < B - d \<or> R < q0)"
    then have "(B - d) * (B - d) + d * q0 \<le> (B - d) * R + d * R" using d B by (intro add_mono mult_left_mono) simp_all
    then show False using up by (simp add: algebra_simps)
  qed
qed

lemma approx_no_overflow:
  fixes B d u1 u0 W k :: int
  assumes "W * d = B * B - k" "1 \<le> k" "k \<le> d" "0 \<le> u1" "u1 < d" "0 \<le> u0" "u0 < B" "d < B"
  shows "W * u1 + u0 < B * B"
proof -
  have "(W * u1 + u0) * d = (W * d) * u1 + u0 * d" by (simp add: algebra_simps)
  also have "\<dots> = B * (B * u1) - k * u1 + u0 * d" unfolding assms(1) by (simp add: algebra_simps)
  also have "\<dots> \<le> B * (B * u1) + u0 * B" using assms by (intro add_mono mult_left_mono) simp_all
  also have "\<dots> = B * (B * u1 + u0)" by (simp add: algebra_simps)
  also have "\<dots> < B * (B * (u1 + 1))" using assms by (intro mult_strict_left_mono) (simp_all add: algebra_simps)
  also have "\<dots> \<le> B * (B * d)" using assms by (intro mult_left_mono) simp_all
  finally have "(W * u1 + u0) * d < (B * B) * d" by (simp add: algebra_simps)
  then show ?thesis using assms by (simp only: mult_less_cancel_right_pos)
qed

lemma divmod_unique: "U = Q * d + R \<Longrightarrow> 0 \<le> R \<Longrightarrow> R < d \<Longrightarrow> Q = U div d \<and> R = U mod d" for U Q R d :: int
  by (auto simp: div_pos_pos_trivial)

lemma quotient_less: "0 < d \<Longrightarrow> U < B * d \<Longrightarrow> U div d < B" for U B d :: int
proof (rule ccontr)
  assume "0 < d" "U < B * d" "\<not> U div d < B"
  then have "B * d \<le> U div d * d" by (intro mult_right_mono) simp_all
  also have "\<dots> = U - U mod d" by (simp add: minus_mod_eq_div_mult)
  finally show False using \<open>U < B * d\<close> pos_mod_sign [OF \<open>0 < d\<close>, of U] by linarith
qed

lemma uint_pos: "0 \<le> R \<Longrightarrow> R < 2 ^ 64 \<Longrightarrow> uint (word_of_int R :: u64) = R"
  by (simp add: uint_word_of_int)

lemma wrap64 [simp]: "(18446744073709551616 :: u64) = 0"
  by simp

text \<open>
  The two corrections, on integers: \<open>R\<close> is the candidate remainder, which the code only knows modulo
  \<open>M\<close>, and \<open>T\<close> is the outcome of its first test.
\<close>

lemma adjust:
  fixes R D M U Q :: int
  assumes "- D \<le> R" "R < M" "M \<le> 2 * D" "D < M" and T: "R < 0 \<Longrightarrow> T" "0 \<le> R \<Longrightarrow> T \<Longrightarrow> R < M - D"
    and U: "U = Q * D + R"
  defines "R1 \<equiv> (if T then R + D else R)"
  defines "R2 \<equiv> (if D \<le> R1 mod M then R1 - D else R1)"
  shows "R2 = U mod D" "(if T then Q - 1 else Q) + (if D \<le> R1 mod M then 1 else 0) = U div D"
proof -
  let ?Q = "(if T then Q - 1 else Q) + (if D \<le> R1 mod M then 1 else 0)"
  have "0 \<le> R1" "R1 < M" using assms(1-4) T unfolding R1_def by (cases "R < 0"; cases T; simp)+
  then have m: "R1 mod M = R1" by simp
  have "0 \<le> R2" "R2 < D" using assms(1-4) T \<open>0 \<le> R1\<close> unfolding R2_def m by (auto simp: R1_def split: if_splits)
  moreover have "U = ?Q * D + R2" unfolding U R2_def R1_def by (simp add: algebra_simps)
  ultimately show "R2 = U mod D" "?Q = U div D" using divmod_unique [of U ?Q D R2] by simp_all
qed

lemma udivrem_2by1_correct:
  assumes d: "2 ^ 63 \<le> uint d" and v: "recip (2 ^ 128) (uint d) (2 ^ 64 + uint v)" and u: "snd u < d"
  shows "uint (fst (udivrem_2by1 u d v)) = int (val2 u) div uint d \<and> uint (snd (udivrem_2by1 u d v)) = int (val2 u) mod uint d"
proof -
  let ?B = "2 ^ 64 :: int" and ?d = "uint d" and ?u1 = "uint (snd u)" and ?u0 = "uint (fst u)" and ?U = "int (val2 u)"
  define q where "q = fast_add (umul v (snd u)) u"
  let ?W = "?B + uint v" and ?q1 = "uint (snd q)" and ?q0 = "uint (fst q)"
  define k where "k = ?B * ?B - ?W * ?d"
  have k: "?W * ?d = ?B * ?B - k" "1 \<le> k" "k \<le> ?d" using v by (simp_all add: recip_def Let_def k_def)
  have u1: "?u1 < ?d" using u by (simp add: word_less_def)
  note b = k uint_lt64(1) [of "snd u"] u1 uint_lt64 [of "fst u"]
  have U: "?U = ?u1 * ?B + ?u0" by (simp add: val2_def)
  have "int (val2 q) = (?W * ?u1 + ?u0) mod (?B * ?B)"
    by (simp add: q_def fast_add_val umul_val zmod_int U algebra_simps)
  also have "\<dots> = ?W * ?u1 + ?u0" using approx_no_overflow [OF b uint_lt64(2)] uint_lt64 [of "snd u"] uint_lt64 [of v] by (intro mod_pos_pos_trivial) simp_all
  finally have q: "?W * ?u1 + ?u0 = ?B * ?q1 + ?q0" by (simp add: val2_def)
  define R where "R = ?u1 * ?B + ?u0 - (?q1 + 1) * ?d"
  note R = divide_2by1_bounds [OF b uint_lt64(2) q uint_lt64, folded R_def]
  let ?T = "R mod ?B > ?q0"
  define R1 where "R1 = (if ?T then R + ?d else R)"
  have RB: "R < ?B" using R(3) uint_lt64 [of d] uint_lt64 [of "fst q"] d by auto
  have T1: ?T if "R < 0" using that R(1,2) uint_lt64 [of d] mod_add_self2 [of R ?B] by (simp del: mod_add_self2)
  have T2: "R < ?B - ?d" if "0 \<le> R" ?T using that R(3) RB by simp
  note A = adjust [of ?d R ?B ?T ?U "?q1 + 1", OF R(1) RB _ uint_lt64(2) T1 T2, folded R1_def]
  have r: "fst u - (snd q + 1) * d = word_of_int R" by (simp add: R_def)
  have "udivrem_2by1 u d v = (word_of_int ((if ?T then ?q1 + 1 - 1 else ?q1 + 1) + (if ?d \<le> R1 mod ?B then 1 else 0)),
      word_of_int (if ?d \<le> R1 mod ?B then R1 - ?d else R1))"
    unfolding udivrem_2by1_def q_def [symmetric] Let_def r
    by (simp add: R1_def word_less_def word_le_def uint_word_of_int uint_word_ariths mod_simps)
  also have "\<dots> = (word_of_int (?U div ?d), word_of_int (?U mod ?d))" using A d by (simp add: U R_def)
  finally have res: "udivrem_2by1 u d v = (word_of_int (?U div ?d), word_of_int (?U mod ?d))" .
  have "?u1 * ?B + ?u0 < ?B * ?d" using mult_left_mono [of "?u1 + 1" ?d ?B] u1 uint_lt64 [of "fst u"] by simp
  then have "?U div ?d < ?B" unfolding U using d by (intro quotient_less) simp_all
  moreover have "0 \<le> ?U div ?d" "0 \<le> ?U mod ?d" using d by (simp_all add: pos_imp_zdiv_nonneg_iff)
  moreover have "?U mod ?d < ?B" using order.strict_trans [OF pos_mod_bound uint_lt64(2)] d by simp
  ultimately show ?thesis by (simp only: res fst_conv snd_conv uint_pos)
qed

section \<open>Division of three limbs by two\<close>

text \<open>
  The same argument one power higher. The bound on the error needs a case of its own for the
  divisors close to \<^verbatim>\<open>2^128\<close>, whose reciprocal is zero.
\<close>

lemma error_3by2:
  fixes B D u2 u1 u0 W k :: int
  assumes W: "W * D = B * B * B - k" "1 \<le> k" "k \<le> D" and u: "0 \<le> u2" "0 \<le> u1" "u1 < B" "0 \<le> u0" "u0 < B" "u2 * B + u1 < D"
    and D: "D < B * B" "0 < D"
  shows "B * (k * u2 + (B * B - D) * u1 + B * u0) < (B * B - D) * (B * B - D) + B * B * D"
proof (cases "D * (B + 1) \<le> B * B * B")
  case True
  have B: "0 < B" using u by simp
  have "B * (k * u2) \<le> B * (D * u2)" using W u B by (intro mult_left_mono mult_right_mono) simp_all
  also have "\<dots> = D * (u2 * B + u1) - D * u1" by (simp add: algebra_simps)
  also have "\<dots> \<le> D * (D - 1) - D * u1" using u D by (intro diff_mono mult_left_mono) simp_all
  finally have "B * (k * u2 + (B * B - D) * u1 + B * u0) \<le> D * (D - 1) + (B * B * B - D * (B + 1)) * u1 + B * B * u0"
    by (simp add: algebra_simps)
  also have "\<dots> \<le> D * (D - 1) + (B * B * B - D * (B + 1)) * (B - 1) + B * B * (B - 1)"
    using True u B D by (intro add_mono mult_left_mono) simp_all
  also have "\<dots> = (B * B - D) * (B * B - D) + B * B * D - B * B" by (simp add: algebra_simps)
  finally show ?thesis using mult_pos_pos [OF B B] by linarith
next
  case False
  have B: "0 < B" using u by simp
  define g where "g = B * B - D"
  have g0: "0 < g" using D by (simp add: g_def)
  have "g < B"
  proof (rule ccontr)
    assume "\<not> g < B"
    then have "B * (B + 1) \<le> g * (B + 1)" using B by (intro mult_right_mono) simp_all
    then show False using False B by (simp add: g_def algebra_simps)
  qed
  then have gB: "B * g \<le> B * (B - 1)" using B by (intro mult_left_mono) simp_all
  also have BD: "B * (B - 1) < D" using \<open>g < B\<close> by (simp add: g_def algebra_simps)
  finally have gB: "B * g < D" .
  have WB: "(W - B) * D = B * g - k" using W(1) by (simp add: g_def algebra_simps)
  have "W = B"
  proof (rule ccontr)
    assume "W \<noteq> B"
    then have "D \<le> \<bar>W - B\<bar> * D" using D by simp
    also have "\<dots> = \<bar>B * g - k\<bar>" unfolding WB [symmetric] using D by (simp add: abs_mult)
    finally show False using W gB g0 B mult_pos_pos [OF B g0] by linarith
  qed
  then have k: "k = B * g" using WB by simp
  define h where "h = B - 1 - g"
  have gh: "g = B - 1 - h" and h: "0 \<le> h" using \<open>g < B\<close> by (simp_all add: h_def)
  have "B * (k * u2 + g * u1 + B * u0) = B * g * (u2 * B + u1) + B * B * u0" by (simp add: k algebra_simps)
  also have "\<dots> \<le> B * g * (D - 1) + B * B * (B - 1)" using u B g0 by (intro add_mono mult_left_mono) simp_all
  also have "\<dots> = g * g + B * B * D - (h * B * D + B * B + g * g)" using gh by (simp add: g_def algebra_simps) algebra
  also have "\<dots> < g * g + B * B * D" using mult_nonneg_nonneg [OF mult_nonneg_nonneg [OF h less_imp_le [OF B]] less_imp_le [OF D(2)]]
      mult_pos_pos [OF B B] mult_pos_pos [OF g0 g0] by linarith
  finally show ?thesis by (simp add: g_def)
qed

lemma divide_3by2_bounds:
  fixes B D u2 u1 u0 W k q1 q0 :: int
  assumes W: "W * D = B * B * B - k" "1 \<le> k" "k \<le> D" and u: "0 \<le> u2" "0 \<le> u1" "u1 < B" "0 \<le> u0" "u0 < B" "u2 * B + u1 < D"
    and D: "D < B * B" and q: "W * u2 + u1 = B * q1 + q0" "0 \<le> q0" "q0 < B"
  defines "R \<equiv> u2 * B * B + u1 * B + u0 - (q1 + 1) * D"
  shows "- D \<le> R" "q0 * B - B * B < R" "R < B * B - D \<or> R < q0 * B"
proof -
  have B: "0 < B" "0 < D" using u by (simp, smt (verit) mult_nonneg_nonneg)
  have "B * R = B * (u2 * B * B) + B * (u1 * B) + B * u0 - (B * q1) * D - B * D" by (simp add: R_def algebra_simps)
  also have "B * q1 = W * u2 + u1 - q0" using q(1) by simp
  also have "(W * u2 + u1 - q0) * D = (W * D) * u2 + u1 * D - q0 * D" by (simp add: algebra_simps)
  finally have R: "B * R = k * u2 + (B * B - D) * u1 + B * u0 + q0 * D - B * D" unfolding W(1) by (simp add: algebra_simps)
  have nn: "0 \<le> k * u2" "0 \<le> (B * B - D) * u1" "0 \<le> B * u0" "0 \<le> q0 * D" using W u D q B by simp_all
  have "B * (- D) \<le> B * R" unfolding R using nn by simp
  then show "- D \<le> R" using B(1) by (simp only: mult_le_cancel_left_pos)
  have "(B * B) * (q0 - B) < D * (q0 - B)" using q(3) D by (intro mult_strict_right_mono_neg) simp_all
  also have "\<dots> \<le> B * R" unfolding R using nn by (simp add: algebra_simps)
  finally have "B * (q0 * B - B * B) < B * R" by (simp add: algebra_simps)
  then show "q0 * B - B * B < R" using B(1) by (simp only: mult_less_cancel_left_pos)
  have "B * (B * R) = B * (k * u2 + (B * B - D) * u1 + B * u0) + D * (q0 * B) - B * B * D" unfolding R by (simp add: algebra_simps)
  then have up: "B * (B * R) < (B * B - D) * (B * B - D) + D * (q0 * B)" using error_3by2 [OF W u D B(2)] by simp
  show "R < B * B - D \<or> R < q0 * B"
  proof (rule ccontr)
    assume "\<not> (R < B * B - D \<or> R < q0 * B)"
    then have "(B * B - D) * (B * B - D) + D * (q0 * B) \<le> (B * B - D) * R + D * R" using D B by (intro add_mono mult_left_mono) simp_all
    then show False using up by (simp add: algebra_simps)
  qed
qed

lemma approx_no_overflow_3by2:
  fixes B D u2 u1 W k :: int
  assumes "W * D = B * B * B - k" "1 \<le> k" "k \<le> D" "0 \<le> u2" "0 \<le> u1" "0 < B" "u2 * B + u1 < D" "D < B * B"
  shows "W * u2 + u1 < B * B"
proof -
  have D: "0 < D" using assms by simp
  have "(W * u2 + u1) * D = (W * D) * u2 + u1 * D" by (simp add: algebra_simps)
  also have "\<dots> = B * B * (u2 * B) - k * u2 + u1 * D" unfolding assms(1) by (simp add: algebra_simps)
  also have "\<dots> \<le> B * B * (u2 * B) + u1 * (B * B)" using assms by (intro add_mono mult_left_mono) simp_all
  also have "\<dots> = (B * B) * (u2 * B + u1)" by (simp add: algebra_simps)
  also have "\<dots> < (B * B) * D" using assms by (intro mult_strict_left_mono) simp_all
  finally show ?thesis using D by (simp only: mult_less_cancel_right_pos)
qed

lemma add128_int: "int (val2 (add128 x y)) = (int (val2 x) + int (val2 y)) mod 2 ^ 128"
  by (simp add: add128_val zmod_int)

lemma val2_int_less: "0 \<le> int (val2 x)" "int (val2 x) < 2 ^ 128"
  using val2_less [of x] by (simp_all flip: of_nat_less_iff)

lemma snd_less: "snd x < snd y \<Longrightarrow> val2 x < val2 y"
  using u64_less [of "fst x"] unfolding val2_def word_less_nat_alt by simp

lemma digits_mod_int: "0 \<le> a \<Longrightarrow> a < B \<Longrightarrow> a + B * (c mod B) = (a + B * c) mod (B * B)" for a c B :: int
  by (simp add: zmod_zmult2_eq)

lemma digit_le_iff: "0 \<le> a \<Longrightarrow> a < B \<Longrightarrow> q \<le> s \<longleftrightarrow> q * B \<le> a + B * s" for a B q s :: int
proof
  assume "0 \<le> a" "a < B" "q \<le> s"
  moreover from this have "q * B \<le> s * B" by (intro mult_right_mono) simp_all
  ultimately show "q * B \<le> a + B * s" unfolding mult.commute [of s] by linarith
next
  assume "0 \<le> a" "a < B" "q * B \<le> a + B * s"
  then show "q \<le> s" using mult_right_mono [of "s + 1" q B] by (cases "q \<le> s") (simp_all add: algebra_simps)
qed

lemma high_ge_iff: "q0 \<le> snd r \<longleftrightarrow> uint q0 * 2 ^ 64 \<le> int (val2 r)"
proof -
  have "int (val2 r) = uint (fst r) + 2 ^ 64 * uint (snd r)" by (simp add: val2_def)
  then show ?thesis unfolding word_le_def using digit_le_iff [OF uint_lt64 [of "fst r"], of "uint q0" "uint (snd r)"] by simp
qed

text \<open>The remainder the code starts from is the candidate remainder modulo \<^verbatim>\<open>2^128\<close>.\<close>

lemma first_remainder:
  fixes u2 u1 u0 q1 :: u64 and d :: uint128
  shows "int (val2 (sub128 (sub128 (u0, u1 - q1 * snd d) (umul (fst d) q1)) d)) =
    (uint u2 * 2 ^ 64 * 2 ^ 64 + uint u1 * 2 ^ 64 + uint u0 - (uint q1 + 1) * int (val2 d)) mod 2 ^ 128"
proof -
  let ?B = "2 ^ 64 :: int"
  have "int (val2 (u0, u1 - q1 * snd d)) = uint u0 + ?B * ((uint u1 - uint q1 * uint (snd d)) mod ?B)"
    by (simp add: uint_word_ariths mod_simps)
  also have "\<dots> = (uint u0 + ?B * (uint u1 - uint q1 * uint (snd d))) mod (?B * ?B)"
    by (rule digits_mod_int [OF uint_lt64])
  finally have 1: "int (val2 (u0, u1 - q1 * snd d)) = (uint u0 + ?B * (uint u1 - uint q1 * uint (snd d))) mod 2 ^ 128" by simp
  have "int (val2 (sub128 (sub128 (u0, u1 - q1 * snd d) (umul (fst d) q1)) d)) =
      (uint u0 + ?B * (uint u1 - uint q1 * uint (snd d)) - uint (fst d) * uint q1 - int (val2 d)) mod 2 ^ 128"
    unfolding sub128_val 1 umul_val by (simp add: mod_simps)
  also have "uint u0 + ?B * (uint u1 - uint q1 * uint (snd d)) - uint (fst d) * uint q1 - int (val2 d) =
      (uint u2 * ?B * ?B + uint u1 * ?B + uint u0 - (uint q1 + 1) * int (val2 d)) - 2 ^ 128 * uint u2"
    by (simp add: val2_def algebra_simps)
  finally show ?thesis using mod_mult_self2 [of _ "2 ^ 128" "- uint u2"] by (simp only: mult_minus_right add_uminus_conv_diff)
qed

lemma normalized_128:
  assumes "2 ^ 63 \<le> uint (snd d)"
  shows "2 ^ 128 \<le> 2 * int (val2 d)" "int (val2 d) < 2 ^ 64 * 2 ^ 64"
proof -
  have "2 ^ 63 * 2 ^ 64 \<le> uint (fst d) + 2 ^ 64 * uint (snd d)"
    using digit_le_iff [OF uint_lt64 [of "fst d"], of "2 ^ 63" "uint (snd d)"] assms by simp
  moreover have "int (val2 d) = uint (fst d) + 2 ^ 64 * uint (snd d)" by (simp add: val2_def)
  ultimately show "2 ^ 128 \<le> 2 * int (val2 d)" "int (val2 d) < 2 ^ 64 * 2 ^ 64" using val2_int_less [of d] by simp_all
qed

lemma udivrem_3by2_correct:
  fixes u0 :: u64
  assumes d: "2 ^ 63 \<le> uint (snd d)" and v: "recip (2 ^ 192) (int (val2 d)) (2 ^ 64 + uint v)" and u: "val2 (u1, u2) < val2 d"
  defines "U \<equiv> uint u2 * 2 ^ 64 * 2 ^ 64 + uint u1 * 2 ^ 64 + uint u0"
  shows "uint (fst (udivrem_3by2 u2 u1 u0 d v)) = U div int (val2 d) \<and> int (val2 (snd (udivrem_3by2 u2 u1 u0 d v))) = U mod int (val2 d)"
proof -
  let ?B = "2 ^ 64 :: int" and ?M = "2 ^ 128 :: int" and ?d = "int (val2 d)"
  define q where "q = fast_add (umul v u2) (u1, u2)"
  let ?W = "?B + uint v" and ?q1 = "uint (snd q)" and ?q0 = "uint (fst q)"
  define k where "k = ?B * ?B * ?B - ?W * ?d"
  have k: "?W * ?d = ?B * ?B * ?B - k" "1 \<le> k" "k \<le> ?d" using v by (simp_all add: recip_def Let_def k_def)
  have "int (val2 (u1, u2)) < ?d" using u by (simp only: of_nat_less_iff)
  then have hd: "uint u2 * ?B + uint u1 < ?d" by simp
  note dM = normalized_128 [OF d]
  have "int (val2 q) = (?W * uint u2 + uint u1) mod ?M"
    by (simp add: q_def fast_add_val umul_val zmod_int algebra_simps)
  also have "\<dots> = ?W * uint u2 + uint u1"
    using approx_no_overflow_3by2 [OF k uint_lt64(1) uint_lt64(1) _ hd dM(2)] uint_lt64 [of u2] uint_lt64 [of u1] uint_lt64 [of v]
    by (intro mod_pos_pos_trivial) simp_all
  finally have q: "?W * uint u2 + uint u1 = ?B * ?q1 + ?q0" by (simp add: val2_def)
  define R where "R = U - (?q1 + 1) * ?d"
  note b = divide_3by2_bounds [OF k uint_lt64(1) uint_lt64 uint_lt64 hd dM(2) q uint_lt64, of u0, folded U_def, folded R_def]
  let ?T = "R mod ?M \<ge> ?q0 * ?B"
  define R1 where "R1 = (if ?T then R + ?d else R)"
  have RM: "R < ?M" using b(3) dM d uint_lt64 [of "fst q"] val2_int_less [of d] by auto
  have T1: ?T if "R < 0" using that b(1,2) dM mod_add_self2 [of R ?M] by (simp del: mod_add_self2)
  have T2: "R < ?M - ?d" if "0 \<le> R" ?T using that b(3) RM by simp
  have UR: "U = (?q1 + 1) * ?d + R" by (simp add: R_def)
  note A = adjust [OF b(1) RM dM(1) val2_int_less(2) T1 T2 UR, folded R1_def]
  define r where "r = sub128 (sub128 (u0, u1 - snd q * snd d) (umul (fst d) (snd q))) d"
  have r: "int (val2 r) = R mod ?M" unfolding r_def first_remainder [of u0 u1 "snd q" d u2] R_def U_def ..
  define r' where "r' = (if fst q \<le> snd r then add128 r d else r)"
  have r': "int (val2 r') = R1 mod ?M" by (simp add: r'_def R1_def high_ge_iff r add128_int mod_simps)
  have res: "udivrem_3by2 u2 u1 u0 d v =
      ((if fst q \<le> snd r then snd q else snd q + 1) + (if \<not> less128 r' d then 1 else 0), if \<not> less128 r' d then sub128 r' d else r')"
    unfolding udivrem_3by2_def q_def [symmetric] Let_def r_def [symmetric] by (simp add: r'_def)
  have lt: "\<not> less128 r' d \<longleftrightarrow> ?d \<le> R1 mod ?M" by (simp only: less128_iff not_less r' [symmetric] of_nat_le_iff)
  have "U < ?B * ?d" using mult_left_mono [of "uint u2 * ?B + uint u1 + 1" ?d ?B] hd uint_lt64 [of u0] by (simp add: U_def)
  then have "U div ?d < ?B" using dM(1) by (intro quotient_less) simp_all
  moreover have d0: "0 < ?d" using dM(1) by simp
  then have "0 \<le> U div ?d" using uint_lt64 [of u0] uint_lt64 [of u1] uint_lt64 [of u2] by (simp add: U_def pos_imp_zdiv_nonneg_iff)
  moreover have "fst (udivrem_3by2 u2 u1 u0 d v) =
      word_of_int ((if ?T then ?q1 + 1 - 1 else ?q1 + 1) + (if ?d \<le> R1 mod ?M then 1 else 0))"
    unfolding res lt by (simp add: high_ge_iff r)
  moreover have "int (val2 (snd (udivrem_3by2 u2 u1 u0 d v))) = (if ?d \<le> R1 mod ?M then R1 - ?d else R1) mod ?M"
    unfolding res lt by (simp add: sub128_val r' mod_simps)
  moreover have "U mod ?d mod ?M = U mod ?d"
    using pos_mod_sign [OF d0, of U] pos_mod_bound [OF d0, of U] val2_int_less [of d] by (intro mod_pos_pos_trivial) simp_all
  ultimately show ?thesis by (simp only: A uint_pos)
qed

section \<open>The reciprocal of two limbs\<close>

lemma add_overflow: "x + y < y \<longleftrightarrow> 2 ^ 64 \<le> uint x + uint y" for x y :: u64
proof -
  have "int (unat (y + x) + 2 ^ 64 * of_bool (y + x < y)) = uint x + uint y" unfolding add_carry by simp
  then have "uint (x + y) + 2 ^ 64 * of_bool (x + y < y) = uint x + uint y" by (simp add: add.commute)
  then have "(x + y < y \<and> uint (x + y) + 2 ^ 64 = uint x + uint y) \<or> (\<not> x + y < y \<and> uint (x + y) = uint x + uint y)" by (cases "x + y < y") simp_all
  then show ?thesis using uint_lt64 [of "x + y"] by linarith
qed

text \<open>
  The first part of the reciprocal of two limbs: \<open>W\<close> is the largest number with
  \<open>W * d1 + d0 < B * B\<close>, and \<open>P\<close> is what is left.
\<close>

lemma high_part_cases:
  assumes d: "2 ^ 63 \<le> uint (snd d)"
  defines "W0 \<equiv> 2 ^ 64 + uint (reciprocal_2by1 (snd d))"
  shows "\<exists>W P. reciprocal_3by2_high d = (word_of_int W, word_of_int P) \<and> W \<le> W0 \<and> 2 ^ 64 - uint (snd d) \<le> P \<and> P < 2 ^ 64 \<and>
    W * uint (snd d) + uint (fst d) = 2 ^ 64 * (2 ^ 64 - 1) + P"
proof -
  let ?B = "2 ^ 64 :: int" and ?d1 = "uint (snd d)" and ?d0 = "uint (fst d)" and ?v = "reciprocal_2by1 (snd d)"
  define \<rho> where "\<rho> = ?B * ?B - W0 * ?d1"
  have \<rho>: "1 \<le> \<rho>" "\<rho> \<le> ?d1" using reciprocal_2by1_correct [OF d] by (simp_all add: recip_def Let_def W0_def \<rho>_def)
  have W0: "W0 * ?d1 = ?B * ?B - \<rho>" by (simp add: \<rho>_def)
  have v: "?v = word_of_int W0" by (simp add: W0_def)
  define S where "S = ?B - \<rho> + ?d0"
  have "snd d * ?v = word_of_int (W0 * ?d1)" unfolding v by (simp add: mult.commute)
  then have p0: "snd d * ?v = word_of_int (?B - \<rho>)" unfolding W0 by simp
  then have up0: "uint (snd d * ?v) = ?B - \<rho>" using \<rho> uint_lt64 [of "snd d"] by (intro uint_eqI) simp_all
  have p: "snd d * ?v + fst d = word_of_int S" unfolding p0 S_def by simp
  have ov: "word_of_int S < fst d \<longleftrightarrow> ?B \<le> S" using add_overflow [of "snd d * ?v" "fst d"] unfolding p up0 by (simp only: S_def)
  have inv: "W0 * ?d1 + ?d0 = ?B * (?B - 1) + S" using W0 by (simp add: S_def)
  have H: "reciprocal_3by2_high d = (if ?B \<le> S then
      (if word_of_int S \<ge> snd d then (?v - 1 - 1, word_of_int S - snd d - snd d) else (?v - 1, word_of_int S - snd d)) else (?v, word_of_int S))"
    unfolding reciprocal_3by2_high_def Let_def p ov by simp
  have G: ?thesis if "reciprocal_3by2_high d = (word_of_int W, word_of_int P)" "W \<le> W0" "?B - ?d1 \<le> P" "P < ?B"
    "W * ?d1 + ?d0 = ?B * (?B - 1) + P" for W P using that by blast
  show ?thesis
  proof (cases "?B \<le> S")
    case False
    have "?B - ?d1 \<le> S" using \<rho>(2) uint_lt64(1) [of "fst d"] unfolding S_def by linarith
    then show ?thesis using False inv v H by (intro G [of W0 S]) simp_all
  next
    case True
    have SB: "S - ?B < ?B" using \<rho> uint_lt64 [of "fst d"] by (simp add: S_def)
    have "(word_of_int S :: u64) = word_of_int (S - ?B)" by simp
    then have uS: "uint (word_of_int S :: u64) = S - ?B" using True SB by (intro uint_eqI) simp_all
    show ?thesis
    proof (cases "?d1 \<le> S - ?B")
      case dd: True
      have "reciprocal_3by2_high d = (word_of_int (W0 - 2), word_of_int (S - 2 * ?d1))"
        unfolding H using True dd by (simp add: word_le_def uS v)
      moreover have "S - 2 * ?d1 < ?B" using SB d by simp
      ultimately show ?thesis using True dd inv by (intro G [of "W0 - 2" "S - 2 * ?d1"]) (simp_all add: algebra_simps)
    next
      case dd: False
      have "reciprocal_3by2_high d = (word_of_int (W0 - 1), word_of_int (S - ?d1))"
        unfolding H using True dd by (simp add: word_le_def uS v)
      then show ?thesis using True dd inv by (intro G [of "W0 - 1" "S - ?d1"]) (simp_all add: algebra_simps)
    qed
  qed
qed

lemma high_part:
  assumes d: "2 ^ 63 \<le> uint (snd d)" and h: "reciprocal_3by2_high d = (v, p)"
  shows "2 ^ 64 - uint (snd d) \<le> uint p" "(2 ^ 64 + uint v) * uint (snd d) + uint (fst d) = 2 ^ 64 * (2 ^ 64 - 1) + uint p"
proof -
  let ?B = "2 ^ 64 :: int" and ?d1 = "uint (snd d)" and ?d0 = "uint (fst d)" and ?v = "reciprocal_2by1 (snd d)"
  obtain W P where W: "v = word_of_int W" "p = word_of_int P" "W \<le> ?B + uint ?v" "?B - ?d1 \<le> P" "P < ?B"
    "W * ?d1 + ?d0 = ?B * (?B - 1) + P" using high_part_cases [OF d] h by auto
  have P: "uint p = P" using W(2,4,5) uint_lt64 [of "snd d"] by (intro uint_eqI) simp_all
  have "?B \<le> W"
  proof (rule ccontr)
    assume "\<not> ?B \<le> W"
    then have "(W + 1) * ?d1 \<le> ?B * ?d1" using d by (intro mult_right_mono) simp_all
    also have "\<dots> \<le> ?B * (?B - 1)" using uint_lt64 [of "snd d"] by (intro mult_left_mono) simp_all
    finally show False using W(4,6) uint_lt64 [of "fst d"] by (simp add: algebra_simps)
  qed
  moreover have "v = word_of_int (W - ?B)" unfolding W(1) by simp
  ultimately have "uint v = W - ?B" using W(3) uint_lt64 [of ?v] by (intro uint_eqI) simp_all
  then show "?B - ?d1 \<le> uint p" "(?B + uint v) * ?d1 + ?d0 = ?B * (?B - 1) + uint p" using W(4,6) P by simp_all
qed

lemma lexicographic: "0 \<le> b \<Longrightarrow> b < B \<Longrightarrow> 0 \<le> d \<Longrightarrow> d < B \<Longrightarrow> a \<ge> c \<and> (a > c \<or> b \<ge> d) \<longleftrightarrow> B * c + d \<le> B * a + b" for a b c d B :: int
  using mult_left_mono [of "c + 1" a B] mult_left_mono [of "a + 1" c B] by (cases a c rule: linorder_cases) (auto simp: algebra_simps)

lemma within_divisor:
  fixes B P t1 t0 d1 d0 X :: int
  assumes "B * (P + t1) \<le> B * (B - 1)" "B * (B - d1) \<le> B * (P + t1)"
    and "X = B * B * B - B * B + (B * (P + t1) + t0)" "0 \<le> t0" "t0 < B" "0 \<le> d0"
  shows "1 \<le> B * B * B - X \<and> B * B * B - X \<le> B * d1 + d0"
  using assms by (simp add: algebra_simps)

text \<open>A reciprocal is at least \<^verbatim>\<open>2^64\<close> and less than twice that, so its low limb determines it.\<close>

lemma recip_limb:
  assumes d: "2 ^ 63 \<le> uint (snd d)" and W: "recip (2 ^ 192) (int (val2 d)) W" and w: "(w :: u64) = word_of_int W"
  shows "2 ^ 64 + uint w = W"
proof -
  let ?B = "2 ^ 64 :: int" and ?D = "int (val2 d)"
  note D2 = normalized_128 [OF d]
  have r: "W * ?D < ?B * ?B * ?B" "?B * ?B * ?B \<le> (W + 1) * ?D" using W by (simp_all add: recip_def Let_def algebra_simps)
  have lo: "?B \<le> W"
  proof (rule ccontr)
    assume "\<not> ?B \<le> W"
    then have "(W + 1) * ?D \<le> ?B * ?D" using D2 by (intro mult_right_mono) simp_all
    then show False using r(2) D2 by simp
  qed
  have "W * (?B * ?B) \<le> W * (2 * ?D)" using D2 lo by (intro mult_left_mono) simp_all
  then have "W < 2 * ?B" using r(1) by simp
  moreover have "w = word_of_int (W - ?B)" unfolding w by simp
  ultimately have "uint w = W - ?B" using lo by (intro uint_eqI) simp_all
  then show ?thesis by simp
qed

text \<open>The reciprocal of two limbs is right for every normalized divisor.\<close>

lemma reciprocal_3by2_correct:
  assumes d: "2 ^ 63 \<le> uint (snd d)"
  shows "recip (2 ^ 192) (int (val2 d)) (2 ^ 64 + uint (reciprocal_3by2 d))"
proof -
  let ?B = "2 ^ 64 :: int" and ?d1 = "uint (snd d)" and ?d0 = "uint (fst d)" and ?D = "int (val2 d)"
  obtain v p where h: "reciprocal_3by2_high d = (v, p)" by (cases "reciprocal_3by2_high d")
  define W t where "W = ?B + uint v" and "t = umul v (fst d)"
  let ?t1 = "uint (snd t)" and ?t0 = "uint (fst t)" and ?P = "uint p"
  have hp: "?B - ?d1 \<le> ?P" "W * ?d1 + ?d0 = ?B * (?B - 1) + ?P" unfolding W_def by (rule high_part [OF d h])+
  have D: "?D = ?B * ?d1 + ?d0" by (simp add: val2_def)
  note D2 = normalized_128 [OF d]
  have "?B * ?t1 + ?t0 = uint v * ?d0" using arg_cong [OF umul_val [of v "fst d"], of int] by (simp add: t_def val2_def)
  then have t: "?B * ?t1 + ?t0 = W * ?d0 - ?B * ?d0" by (simp add: W_def algebra_simps)
  have "W * ?D = ?B * (W * ?d1 + ?d0) + (W * ?d0 - ?B * ?d0)" unfolding D by (simp add: algebra_simps)
  then have WD: "W * ?D = ?B * ?B * ?B - ?B * ?B + (?B * (?P + ?t1) + ?t0)" unfolding hp(2) t [symmetric] by (simp add: algebra_simps)
  have fin: ?thesis if "reciprocal_3by2 d = word_of_int W'" "recip (2 ^ 192) ?D W'" for W'
    using recip_limb [OF d that(2,1)] that(2) by (simp only:)
  have v: "v = word_of_int W" by (simp add: W_def)
  have ov: "p + snd t < snd t \<longleftrightarrow> ?B \<le> ?P + ?t1" by (rule add_overflow)
  have R: "reciprocal_3by2 d = (if ?B \<le> ?P + ?t1 then (if p + snd t \<ge> snd d \<and> (p + snd t > snd d \<or> fst t \<ge> fst d) then v - 1 - 1 else v - 1) else v)"
    unfolding reciprocal_3by2_def h Let_def prod.case t_def [symmetric] ov by simp
  show ?thesis
  proof (cases "?B \<le> ?P + ?t1")
    case False
    have "?B * (?P + ?t1) \<le> ?B * (?B - 1)" using False by (intro mult_left_mono) simp_all
    moreover have "?B * (?B - ?d1) \<le> ?B * (?P + ?t1)" using hp(1) uint_lt64(1) [of "snd t"] by (intro mult_left_mono) (linarith, simp)
    ultimately have "1 \<le> ?B * ?B * ?B - W * ?D \<and> ?B * ?B * ?B - W * ?D \<le> ?B * ?d1 + ?d0"
      by (rule within_divisor [OF _ _ WD uint_lt64 uint_lt64(1)])
    then have "recip (2 ^ 192) ?D W" by (simp add: recip_def Let_def D)
    then show ?thesis using False R v by (intro fin [of W]) simp_all
  next
    case True
    define Q where "Q = ?P + ?t1 - ?B"
    have Q: "0 \<le> Q" "Q < ?B" using True uint_lt64 [of p] uint_lt64 [of "snd t"] by (simp_all add: Q_def)
    have "p + snd t = word_of_int Q" by (simp add: Q_def)
    then have uQ: "uint (p + snd t) = Q" using Q by (intro uint_eqI) simp_all
    have WQ: "W * ?D = ?B * ?B * ?B + (?B * Q + ?t0)" using WD by (simp add: Q_def)
    have "?B * Q \<le> ?B * (?B - 1)" using Q by (intro mult_left_mono) simp_all
    then have less: "?B * Q + ?t0 < ?B * ?B" using uint_lt64 [of "fst t"] by simp
    have test: "p + snd t \<ge> snd d \<and> (p + snd t > snd d \<or> fst t \<ge> fst d) \<longleftrightarrow> ?D \<le> ?B * Q + ?t0"
      unfolding word_le_def word_less_def uQ D by (rule lexicographic [OF uint_lt64 uint_lt64])
    show ?thesis
    proof (cases "?D \<le> ?B * Q + ?t0")
      case DQ: True
      have "recip (2 ^ 192) ?D (W - 2)" using WQ less D2 DQ by (simp add: recip_def Let_def algebra_simps)
      then show ?thesis using True DQ R v test by (intro fin [of "W - 2"]) simp_all
    next
      case DQ: False
      have "recip (2 ^ 192) ?D (W - 1)" using WQ DQ Q uint_lt64 [of "fst t"] by (simp add: recip_def Let_def algebra_simps)
      then show ?thesis using True DQ R v test by (intro fin [of "W - 1"]) simp_all
    qed
  qed
qed

end
