(* ===== verification/IntxUdivrem.thy ===== *)
theory IntxUdivrem
  imports IntxDivision
begin

text \<open>
  The long divisions of \<^verbatim>\<open>pkgs/intx-0.10.0/include/intx/intx.hpp\<close> on limb arrays: \<open>normalize\<close>, the
  division by one limb, by two limbs and by more (Knuth's algorithm D with \<open>submul\<close> and the
  add-back), and \<open>udivrem\<close>, which chooses among them. The property is that \<open>udivrem\<close> computes the
  quotient and the remainder of the numbers the arrays stand for, whatever their lengths, and that
  the 256-bit operations of \<open>Intx\<close> are what the limb code computes.
\<close>

section \<open>Definitions\<close>

text \<open>\<open>std::countl_zero\<close>, and the loops that look for the highest non-zero limb.\<close>

definition clz64 :: "u64 \<Rightarrow> nat" where
  "clz64 x = 64 - bit_length (unat x)"

fun sig_words :: "u64 list \<Rightarrow> nat \<Rightarrow> nat" where
  "sig_words u 0 = 0"
| "sig_words u (Suc m) = (if u ! m = 0 then sig_words u m else Suc m)"

text \<open>A limb array shifted left by less than a limb; what leaves the top limb is not part of it.\<close>

definition shl_words :: "nat \<Rightarrow> u64 list \<Rightarrow> u64 list" where
  "shl_words s v = map (\<lambda>i. if i = 0 then push_bit s (v ! 0) else push_bit s (v ! i) OR drop_bit (64 - s) (v ! (i - 1))) [0..<length v]"

record normalized_div_args =
  na_divisor :: "u64 list"
  na_numerator :: "u64 list"
  num_divisor_words :: nat
  num_numerator_words :: nat
  na_shift :: nat

text \<open>
  \<open>normalize\<close>. With a zero numerator the last test reads \<open>un[-1]\<close>, one limb before the array; \<open>oob\<close> is
  whatever is found there.
\<close>

definition normalize :: "u64 \<Rightarrow> u64 list \<Rightarrow> u64 list \<Rightarrow> normalized_div_args" where
  "normalize oob u v =
     (let m = sig_words u (length u);
          n = sig_words v (length v);
          shift = clz64 (v ! (n - 1));
          vn = (if shift \<noteq> 0 then shl_words shift v else v);
          un = (if shift \<noteq> 0 then shl_words shift u @ [drop_bit (64 - shift) (u ! (length u - 1))] else u @ [0]);
          below = (if m = 0 then oob else un ! (m - 1));
          m = (if un ! m \<noteq> 0 \<or> below \<ge> vn ! (n - 1) then m + 1 else m)
      in \<lparr>na_divisor = vn, na_numerator = un, num_divisor_words = n, num_numerator_words = m, na_shift = shift\<rparr>)"

text \<open>The loop of the divisions by one and by two limbs: from the top limb down, the quotient replaces the numerator.\<close>

fun divide_down :: "(u64 \<Rightarrow> 'r \<Rightarrow> u64 \<times> 'r) \<Rightarrow> u64 list \<Rightarrow> nat \<Rightarrow> 'r \<Rightarrow> u64 list \<times> 'r" where
  "divide_down step u 0 rem = (let (q, r) = step (u ! 0) rem in (u[0 := q], r))"
| "divide_down step u (Suc i) rem = (let (q, r) = step (u ! Suc i) rem in divide_down step (u[Suc i := q]) i r)"

definition udivrem_by1 :: "u64 list \<Rightarrow> nat \<Rightarrow> u64 \<Rightarrow> u64 list \<times> u64" where
  "udivrem_by1 u len d =
     (let reciprocal = reciprocal_2by1 d;
          rem = u ! (len - 1);
          u = u[len - 1 := 0]
      in divide_down (\<lambda>w rem. udivrem_2by1 (w, rem) d reciprocal) u (len - 2) rem)"

definition udivrem_by2 :: "u64 list \<Rightarrow> nat \<Rightarrow> uint128 \<Rightarrow> u64 list \<times> uint128" where
  "udivrem_by2 u len d =
     (let reciprocal = reciprocal_3by2 d;
          rem = (u ! (len - 2), u ! (len - 1));
          u = u[len - 2 := 0, len - 1 := 0]
      in divide_down (\<lambda>w rem. udivrem_3by2 (snd rem) (fst rem) w d reciprocal) u (len - 3) rem)"

text \<open>\<open>r = x - multiplier * y\<close>, with the borrow of the limbs below.\<close>

fun submul :: "u64 list \<Rightarrow> u64 list \<Rightarrow> u64 \<Rightarrow> u64 \<Rightarrow> u64 list \<times> u64" where
  "submul (x # xs) (y # ys) multiplier borrow =
     (let s = x - borrow;
          p = umul y multiplier;
          borrow = snd p + of_bool (x < s);
          r = s - fst p;
          borrow = borrow + of_bool (s < r);
          (rs, b) = submul xs ys multiplier borrow
      in (r # rs, b))"
| "submul _ _ multiplier borrow = ([], borrow)"

text \<open>Writing a run of limbs back at \<open>&u[j]\<close>.\<close>

definition write_at :: "u64 list \<Rightarrow> nat \<Rightarrow> u64 list \<Rightarrow> u64 list" where
  "write_at u j rs = take j u @ rs @ drop (j + length rs) u"

text \<open>
  One round of \<open>udivrem_knuth\<close>: the quotient limb, and the numerator afterwards, when the division of
  the top limbs would overflow and otherwise.
\<close>

definition knuth_overflow :: "u64 list \<Rightarrow> u64 list \<Rightarrow> nat \<Rightarrow> nat \<Rightarrow> u64 \<times> u64 list" where
  "knuth_overflow u d dlen j =
     (let u2 = u ! (j + dlen);
          qhat = NOT 0;
          (rs, b) = submul (take dlen (drop j u)) (take dlen d) qhat 0
      in (qhat, (write_at u j rs)[j + dlen := u2 - b]))"

definition knuth_normal :: "u64 list \<Rightarrow> u64 list \<Rightarrow> nat \<Rightarrow> uint128 \<Rightarrow> u64 \<Rightarrow> nat \<Rightarrow> u64 \<times> u64 list" where
  "knuth_normal u d dlen divisor reciprocal j =
     (let u2 = u ! (j + dlen); u1 = u ! (j + dlen - 1); u0 = u ! (j + dlen - 2);
          (qhat, rhat) = udivrem_3by2 u2 u1 u0 divisor reciprocal;
          (rs, overflow) = submul (take (dlen - 2) (drop j u)) (take (dlen - 2) d) qhat 0;
          (a, carry) = subc64 (fst rhat) overflow False;
          (b, carry) = subc64 (snd rhat) (of_bool carry) False;
          u = (write_at u j rs)[j + dlen - 2 := a, j + dlen - 1 := b]
      in if carry then
           (let (rs, k) = addc_words (take (dlen - 1) (drop j u)) (take (dlen - 1) d) False;
                u = write_at u j rs
            in (qhat - 1, u[j + dlen - 1 := u ! (j + dlen - 1) + (snd divisor + of_bool k)]))
         else (qhat, u))"

definition knuth_step :: "u64 list \<Rightarrow> u64 list \<Rightarrow> nat \<Rightarrow> uint128 \<Rightarrow> u64 \<Rightarrow> nat \<Rightarrow> u64 \<times> u64 list" where
  "knuth_step u d dlen divisor reciprocal j =
     (if (u ! (j + dlen - 1), u ! (j + dlen)) = divisor then knuth_overflow u d dlen j
      else knuth_normal u d dlen divisor reciprocal j)"

fun knuth_loop :: "u64 list \<Rightarrow> u64 list \<Rightarrow> u64 list \<Rightarrow> nat \<Rightarrow> uint128 \<Rightarrow> u64 \<Rightarrow> nat \<Rightarrow> u64 list \<times> u64 list" where
  "knuth_loop q u d dlen divisor reciprocal 0 = (q, u)"
| "knuth_loop q u d dlen divisor reciprocal (Suc j) =
     (let (qhat, u) = knuth_step u d dlen divisor reciprocal j
      in knuth_loop (q[j := qhat]) u d dlen divisor reciprocal j)"

definition udivrem_knuth :: "u64 list \<Rightarrow> u64 list \<Rightarrow> nat \<Rightarrow> u64 list \<Rightarrow> nat \<Rightarrow> u64 list \<times> u64 list" where
  "udivrem_knuth q u ulen d dlen =
     (let divisor = (d ! (dlen - 2), d ! (dlen - 1));
          reciprocal = reciprocal_3by2 divisor
      in knuth_loop q u d dlen divisor reciprocal (ulen - dlen))"

text \<open>The remainder shifted back.\<close>

definition shr_words :: "nat \<Rightarrow> nat \<Rightarrow> u64 list \<Rightarrow> u64 list" where
  "shr_words s n un =
     map (\<lambda>i. if i < n - 1 then (if s \<noteq> 0 then drop_bit s (un ! i) OR push_bit (64 - s) (un ! (i + 1)) else un ! i)
              else drop_bit s (un ! (n - 1))) [0..<n]"

text \<open>
  \<open>udivrem\<close>: quotient and remainder, as arrays of the lengths of numerator and divisor. A zero divisor
  has no highest limb to shift by, and the header requires it not to occur: \<open>None\<close>.
\<close>

definition udivrem :: "u64 \<Rightarrow> u64 list \<Rightarrow> u64 list \<Rightarrow> (u64 list \<times> u64 list) option" where
  "udivrem oob u v =
     (if sig_words v (length v) = 0 then None
      else
        (let na = normalize oob u v; m = num_numerator_words na; n = num_divisor_words na in
         if m \<le> n then Some (replicate (length u) 0, take (length v) u)
         else if n = 1 then
           (let (q, r) = udivrem_by1 (na_numerator na) m (na_divisor na ! 0)
            in Some (take (length u) q, drop_bit (na_shift na) r # replicate (length v - 1) 0))
         else if n = 2 then
           (let (q, r) = udivrem_by2 (na_numerator na) m (na_divisor na ! 0, na_divisor na ! 1);
                r = shr128 r (na_shift na)
            in Some (take (length u) q, fst r # snd r # replicate (length v - 2) 0))
         else
           (let (q, un) = udivrem_knuth (replicate (length u) 0) (na_numerator na) m (na_divisor na) n
            in Some (q, shr_words (na_shift na) n un @ replicate (length v - n) 0))))"

section \<open>Limbs and digits\<close>

lemma val_take_drop: "val ws = val (take n ws) + (2 ^ 64) ^ min n (length ws) * val (drop n ws)"
  using val_append [of "take n ws" "drop n ws"] by (simp add: min.commute)

lemma val_take: "val (take n ws) = val ws mod (2 ^ 64) ^ n"
proof (cases "n \<le> length ws")
  case True
  then have "val ws = val (take n ws) + (2 ^ 64) ^ n * val (drop n ws)" using val_take_drop [of ws n] by (simp add: min_absorb1)
  moreover have "val (take n ws) < (2 ^ 64) ^ n" using val_less [of "take n ws"] True by (simp add: min_absorb2)
  ultimately show ?thesis by simp
next
  case False
  then have "(2 ^ 64 :: nat) ^ length ws \<le> (2 ^ 64) ^ n" by (intro power_increasing) simp_all
  then have "val ws < (2 ^ 64) ^ n" using val_less [of ws] by (rule order.strict_trans2 [rotated])
  then show ?thesis using False by simp
qed

lemma val_drop: "val (drop n ws) = val ws div (2 ^ 64) ^ n"
proof (cases "n \<le> length ws")
  case True
  then have "val ws = val (take n ws) + (2 ^ 64) ^ n * val (drop n ws)" using val_take_drop [of ws n] by (simp add: min_absorb1)
  moreover have "val (take n ws) < (2 ^ 64) ^ n" using val_less [of "take n ws"] True by (simp add: min_absorb2)
  ultimately show ?thesis by simp
next
  case False
  then have "(2 ^ 64 :: nat) ^ length ws \<le> (2 ^ 64) ^ n" by (intro power_increasing) simp_all
  then have "val ws < (2 ^ 64) ^ n" using val_less [of ws] by (rule order.strict_trans2 [rotated])
  then show ?thesis using False by simp
qed

lemma nth_val: "i < length ws \<Longrightarrow> unat (ws ! i) = val ws div (2 ^ 64) ^ i mod 2 ^ 64"
proof -
  assume i: "i < length ws"
  have "val (drop i ws) = unat (ws ! i) + 2 ^ 64 * val (drop (Suc i) ws)" using Cons_nth_drop_Suc [OF i] by (metis val.simps(2))
  then have "val (drop i ws) mod 2 ^ 64 = unat (ws ! i)" using u64_less [of "ws ! i"] by simp
  then show ?thesis by (simp only: val_drop)
qed

lemma val_split_nth: "i < length ws \<Longrightarrow> val (take (Suc i) ws) = val (take i ws) + (2 ^ 64) ^ i * unat (ws ! i)"
  by (simp add: take_Suc_conv_app_nth val_append min_absorb2)

text \<open>A number below a power has only zeros above, and the highest non-zero limb gives the power.\<close>

lemma sig_words_val:
  "m \<le> length u \<Longrightarrow> sig_words u m \<le> m \<and> val (take m u) < (2 ^ 64) ^ sig_words u m \<and>
    (sig_words u m \<noteq> 0 \<longrightarrow> u ! (sig_words u m - 1) \<noteq> 0 \<and> (2 ^ 64) ^ (sig_words u m - 1) \<le> val (take m u))"
proof (induction m)
  case (Suc m)
  have v: "val (take (Suc m) u) = val (take m u) + (2 ^ 64) ^ m * unat (u ! m)" using Suc.prems by (intro val_split_nth) simp
  show ?case
  proof (cases "u ! m = 0")
    case True
    then show ?thesis using Suc v by simp
  next
    case False
    then have "1 \<le> unat (u ! m)" using unat_gt_0 [of "u ! m"] by simp
    then have "(2 ^ 64) ^ m \<le> val (take (Suc m) u)" unfolding v using mult_le_mono2 [of 1 "unat (u ! m)" "(2 ^ 64) ^ m"] by linarith
    moreover have "val (take (Suc m) u) < (2 ^ 64) ^ Suc m" using val_less [of "take (Suc m) u"] Suc.prems by (simp add: min_absorb2)
    ultimately show ?thesis using False by simp
  qed
qed simp

section \<open>Shifts of an array\<close>

text \<open>The shifted array limb by limb, each taking the high bits of the limb before.\<close>

fun shl_list :: "nat \<Rightarrow> u64 \<Rightarrow> u64 list \<Rightarrow> u64 list" where
  "shl_list s w' [] = []"
| "shl_list s w' (w # ws) = (push_bit s w OR drop_bit (64 - s) w') # shl_list s w ws"

lemma upt_Cons: "[0..<length (w # ws)] = 0 # map Suc [0..<length ws]"
  by (simp only: list.size map_Suc_upt upt_conv_Cons) simp

lemma map_shl: "map (\<lambda>i. push_bit s (v ! i) OR drop_bit (64 - s) ((w' # v) ! i)) [0..<length v] = shl_list s w' v"
proof (induction v arbitrary: w')
  case (Cons w ws)
  then show ?case unfolding upt_Cons by (simp add: comp_def del: upt_Suc)
qed simp

lemma shl_words_list: "shl_words s v = shl_list s 0 v"
  unfolding shl_words_def map_shl [symmetric] by (intro map_cong) (auto simp: nth_Cons' )

lemma shl_list_val:
  assumes "s \<le> 64"
  shows "length (shl_list s w' ws) = length ws \<and>
    val (shl_list s w' ws) + (2 ^ 64) ^ length ws * (unat (last (w' # ws)) div 2 ^ (64 - s)) = val ws * 2 ^ s + unat w' div 2 ^ (64 - s)"
proof (induction ws arbitrary: w')
  case (Cons w ws)
  have c: "unat w div 2 ^ (64 - s) = unat w * 2 ^ s div 2 ^ 64"
    using assms by (simp only: split_power [of s] mult.commute [of "unat w"]) simp
  have "unat (push_bit s w OR drop_bit (64 - s) w') + 2 ^ 64 * (unat w div 2 ^ (64 - s)) = unat w * 2 ^ s + unat w' div 2 ^ (64 - s)"
    unfolding join_shift [OF assms] c using mod_mult_div_eq [of "unat w * 2 ^ s" "2 ^ 64"] by simp
  then show ?case using Cons.IH [of w] by (simp add: algebra_simps)
qed simp

lemma shl_words_val:
  "s \<le> 64 \<Longrightarrow> length (shl_words s v) = length v \<and>
    (v \<noteq> [] \<longrightarrow> val (shl_words s v) + (2 ^ 64) ^ length v * (unat (last v) div 2 ^ (64 - s)) = val v * 2 ^ s)"
  using shl_list_val [of s 0 v] by (cases v) (auto simp: shl_words_list)

fun shr_list :: "nat \<Rightarrow> u64 list \<Rightarrow> u64 list" where
  "shr_list s [] = []"
| "shr_list s [w] = [drop_bit s w]"
| "shr_list s (w # w' # ws) = (drop_bit s w OR push_bit (64 - s) w') # shr_list s (w' # ws)"

lemma shr_list_val:
  assumes s: "s < 64"
  shows "ws \<noteq> [] \<Longrightarrow> length (shr_list s ws) = length ws \<and> val (shr_list s ws) = val ws div 2 ^ s"
proof (induction ws rule: induct_list012)
  case (3 w w' ws)
  let ?P = "2 ^ s :: nat" and ?Q = "2 ^ (64 - s) :: nat"
  have B: "2 ^ 64 = ?Q * ?P" using split_power [of "64 - s"] s by simp
  have "unat (drop_bit s w OR push_bit (64 - s) w') = unat w' mod ?P * ?Q + unat w div ?P"
    using join_shift [of "64 - s" w' w] scaled_mod [of "64 - s" "unat w'"] s by (simp add: or.commute)
  moreover have "val (w' # ws) mod ?P = unat w' mod ?P"
    unfolding val.simps B by (simp only: mult.assoc mult.commute [of ?Q] mod_mult_self2)
  ultimately have "val (shr_list s (w # w' # ws)) = (val (w' # ws) mod ?P * ?Q + unat w div ?P) + ?Q * ?P * (val (w' # ws) div ?P)"
    using 3 by (simp only: shr_list.simps val.simps(2) [of "drop_bit s w OR push_bit (64 - s) w'"] B list.distinct simp_thms)
  also have "\<dots> = unat w div ?P + ?Q * (val (w' # ws) mod ?P + ?P * (val (w' # ws) div ?P))" by (simp only: distrib_left ac_simps)
  also have "val (w' # ws) mod ?P + ?P * (val (w' # ws) div ?P) = val (w' # ws)" by (rule mod_mult_div_eq)
  also have "unat w div ?P + ?Q * val (w' # ws) = (unat w + ?Q * ?P * val (w' # ws)) div ?P" by (rule div_scaled [symmetric]) simp
  finally show ?case using 3 by (simp only: val.simps(2) [of w] B shr_list.simps list.size) simp
qed (simp_all add: unat_drop)

lemma map_shr: "ws \<noteq> [] \<Longrightarrow> map (\<lambda>i. if i < length ws - 1 then drop_bit s (ws ! i) OR push_bit (64 - s) (ws ! (i + 1))
    else drop_bit s (ws ! (length ws - 1))) [0..<length ws] = shr_list s ws"
proof (induction ws rule: induct_list012)
  case (3 w w' ws)
  then show ?case unfolding upt_Cons [of w] by (simp add: comp_def less_diff_conv del: upt_Suc cong: if_cong)
qed simp_all

lemma shr_words_val:
  assumes "s < 64" "0 < n" "n \<le> length un"
  shows "length (shr_words s n un) = n \<and> val (shr_words s n un) = val (take n un) div 2 ^ s"
proof -
  let ?ws = "take n un"
  have l: "length ?ws = n" "?ws \<noteq> []" using assms by auto
  have "shr_words s n un = shr_list s ?ws"
  proof (cases "s = 0")
    case False
    then show ?thesis unfolding map_shr [OF l(2), symmetric] l(1) shr_words_def using assms by (intro map_cong) auto
  next
    case True
    have "shr_list 0 ws = ws" for ws by (induction "0 :: nat" ws rule: shr_list.induct) (simp_all add: push_bit_eq_mult)
    moreover have "shr_words 0 n un = map ((!) un) [0..<n]" unfolding shr_words_def using assms by (intro map_cong) (auto intro!: arg_cong [of _ _ "(!) un"])
    moreover have "map ((!) un) [0..<n] = take n un" using assms by (intro nth_equalityI) auto
    ultimately show ?thesis using True by simp
  qed
  then show ?thesis using shr_list_val [OF assms(1) l(2)] l(1) by simp
qed

section \<open>Division by one and by two limbs\<close>

text \<open>
  What the loop needs of a step: it divides the remainder so far, followed by the next limb. Both
  steps do so, and the loop then leaves the quotient in the array.
\<close>

lemma divide_down_val:
  fixes f :: "'r \<Rightarrow> nat"
  assumes step: "\<And>w r q r'. f r < D \<Longrightarrow> step w r = (q, r') \<Longrightarrow> unat w + 2 ^ 64 * f r = unat q * D + f r' \<and> f r' < D"
  shows "i < length u \<Longrightarrow> f r < D \<Longrightarrow> divide_down step u i r = (u', r') \<Longrightarrow>
    length u' = length u \<and> drop (Suc i) u' = drop (Suc i) u \<and> f r' < D \<and>
    val (take (Suc i) u') * D + f r' = val (take (Suc i) u) + (2 ^ 64) ^ Suc i * f r"
proof (induction i arbitrary: u r)
  case 0
  obtain q r1 where q: "step (u ! 0) r = (q, r1)" by (cases "step (u ! 0) r")
  then have "u' = u[0 := q]" "r' = r1" using 0 by simp_all
  then show ?case using step [OF 0(2) q] 0(1) by (cases u) simp_all
next
  case (Suc i)
  obtain q r1 where q: "step (u ! Suc i) r = (q, r1)" by (cases "step (u ! Suc i) r")
  have r1: "unat (u ! Suc i) + 2 ^ 64 * f r = unat q * D + f r1" "f r1 < D" using step [OF Suc.prems(2) q] by simp_all
  let ?u = "u[Suc i := q]"
  have dd: "divide_down step ?u i r1 = (u', r')" using Suc.prems(3) q by simp
  have IH: "length u' = length u" "drop (Suc i) u' = drop (Suc i) ?u" "f r' < D"
    "val (take (Suc i) u') * D + f r' = val (take (Suc i) ?u) + (2 ^ 64) ^ Suc i * f r1"
    using Suc.IH [OF _ r1(2) dd] Suc.prems(1) by simp_all
  have n: "u' ! Suc i = q" using arg_cong [OF IH(2), of hd] Suc.prems(1) IH(1) by (simp add: hd_drop_conv_nth)
  have "drop (Suc (Suc i)) u' = drop (Suc (Suc i)) u" using arg_cong [OF IH(2), of "drop 1"] by (simp only: drop_drop) (simp add: drop_update_cancel)
  moreover have "val (take (Suc (Suc i)) u') = val (take (Suc i) u') + (2 ^ 64) ^ Suc i * unat q"
    using val_split_nth [of "Suc i" u'] Suc.prems(1) IH(1) n by simp
  moreover have "val (take (Suc (Suc i)) u) = val (take (Suc i) u) + (2 ^ 64) ^ Suc i * unat (u ! Suc i)"
    using val_split_nth [of "Suc i" u] Suc.prems(1) by simp
  moreover have "val (take (Suc i) u') * D + f r' = val (take (Suc i) u) + (2 ^ 64) ^ Suc i * f r1" using IH(4) by simp
  moreover have "(2 ^ 64) ^ Suc i * unat (u ! Suc i) + (2 ^ 64) ^ Suc (Suc i) * f r = (2 ^ 64) ^ Suc i * (unat q * D) + (2 ^ 64) ^ Suc i * f r1"
    using arg_cong [OF r1(1), of "\<lambda>x. (2 ^ 64) ^ Suc i * x"] by (simp only: distrib_left distrib_right power_Suc ac_simps)
  ultimately show ?case using IH(1,3) by (simp only: distrib_right) (simp add: ac_simps)
qed

lemma unat_ge_uint: "2 ^ 63 \<le> unat w \<Longrightarrow> 2 ^ 63 \<le> uint w" for w :: u64
proof -
  assume "2 ^ 63 \<le> unat w"
  then have "int (2 ^ 63) \<le> int (unat w)" by (simp only: of_nat_le_iff)
  then show ?thesis by simp
qed

lemma step_2by1:
  assumes d: "2 ^ 63 \<le> unat d" and r: "unat r < unat d" and q: "udivrem_2by1 (w, r) d (reciprocal_2by1 d) = (q, r')"
  shows "unat w + 2 ^ 64 * unat r = unat q * unat d + unat r' \<and> unat r' < unat d"
proof -
  have d': "2 ^ 63 \<le> uint d" by (rule unat_ge_uint [OF d])
  have "snd (w, r) < d" using r by (simp add: word_less_nat_alt)
  note c = udivrem_2by1_correct [OF d' reciprocal_2by1_correct [OF d'] this, unfolded q fst_conv snd_conv]
  have "int (unat q) = int (val2 (w, r) div unat d)" "int (unat r') = int (val2 (w, r) mod unat d)"
    using c by (simp_all add: zdiv_int zmod_int)
  then have "unat q = val2 (w, r) div unat d" "unat r' = val2 (w, r) mod unat d" by (simp_all only: of_nat_eq_iff)
  then have "unat q * unat d + unat r' = val2 (w, r)" "unat r' < unat d" using r by simp_all
  then show ?thesis by simp
qed

lemma step_3by2:
  assumes d: "2 ^ 63 \<le> unat (snd d)" and r: "val2 r < val2 d"
    and q: "udivrem_3by2 (snd r) (fst r) w d (reciprocal_3by2 d) = (q, r')"
  shows "unat w + 2 ^ 64 * val2 r = unat q * val2 d + val2 r' \<and> val2 r' < val2 d"
proof -
  have d': "2 ^ 63 \<le> uint (snd d)" by (rule unat_ge_uint [OF d])
  have "val2 (fst r, snd r) < val2 d" using r by simp
  note c = udivrem_3by2_correct [OF d' reciprocal_3by2_correct [OF d'] this, of w, unfolded q fst_conv snd_conv]
  let ?U = "unat w + 2 ^ 64 * val2 r"
  have U: "int ?U = uint (snd r) * 2 ^ 64 * 2 ^ 64 + uint (fst r) * 2 ^ 64 + uint w" by (simp add: val2_def)
  have "int (unat q) = int (?U div val2 d)" "int (val2 r') = int (?U mod val2 d)"
    using c unfolding U [symmetric] by (simp_all only: zdiv_int zmod_int) simp_all
  then have "unat q = ?U div val2 d" "val2 r' = ?U mod val2 d" by (simp_all only: of_nat_eq_iff)
  then show ?thesis using r by simp
qed

lemma power64_pos: "0 < (2 ^ 64 :: nat) ^ n"
  by simp

lemma div_power_less: "n < a * (2 ^ 64) ^ k \<Longrightarrow> n div (2 ^ 64) ^ k < a" for n a k :: nat
  by (rule less_mult_imp_div_less)

text \<open>After the loop only the limbs below the old top limbs hold the quotient.\<close>

lemma loop_result:
  assumes "length u' = length u" "drop k u' = drop k u1" "val (drop k u1) = 0" "k \<le> length u" "length u1 = length u"
  shows "val u' = val (take k u')"
proof -
  have "val u' = val (take k u') + (2 ^ 64) ^ k * val (drop k u')" using val_take_drop [of u' k] assms by (simp add: min_absorb1)
  then show ?thesis using assms by simp
qed

lemma udivrem_by1_val:
  assumes d: "2 ^ 63 \<le> unat d" and len: "2 \<le> len" "len \<le> length u" and u: "val u < unat d * (2 ^ 64) ^ (len - 1)"
    and res: "udivrem_by1 u len d = (u', r)"
  shows "length u' = length u \<and> unat r < unat d \<and> val u' * unat d + unat r = val u"
proof -
  let ?k = "len - 1" and ?r0 = "u ! (len - 1)" and ?u1 = "u[len - 1 := 0]"
  have k: "?k < length u" "Suc (len - 2) = ?k" using len by simp_all
  have top: "val u div (2 ^ 64) ^ ?k < unat d" using u by (rule div_power_less)
  then have r0: "unat ?r0 = val u div (2 ^ 64) ^ ?k" using nth_val [OF k(1)] u64_less [of d] by simp
  then have r0d: "unat ?r0 < unat d" using top by simp
  have dd: "divide_down (\<lambda>w rem. udivrem_2by1 (w, rem) d (reciprocal_2by1 d)) ?u1 (len - 2) ?r0 = (u', r)"
    using res by (simp add: udivrem_by1_def Let_def)
  have L: "length u' = length u" "drop ?k u' = drop ?k ?u1" "unat r < unat d"
    "val (take ?k u') * unat d + unat r = val (take ?k u) + (2 ^ 64) ^ ?k * unat ?r0"
    using divide_down_val [where f = unat and D = "unat d", OF step_2by1 [OF d] _ r0d dd] k len by simp_all
  have "val u div (2 ^ 64) ^ Suc ?k = val u div (2 ^ 64) ^ ?k div 2 ^ 64" unfolding power_Suc2 by (simp only: div_mult2_eq)
  then have "val (drop len u) = 0" using val_drop [of len u] top len u64_less [of d] by simp
  moreover have "drop ?k ?u1 = 0 # drop len u" using Cons_nth_drop_Suc [of ?k ?u1] k len by simp
  ultimately have "val (drop ?k ?u1) = 0" by simp
  then have "val u' = val (take ?k u')" using L k by (intro loop_result [of u' u ?k ?u1]) simp_all
  moreover have "val u = val (take ?k u) + (2 ^ 64) ^ ?k * unat ?r0"
    unfolding r0 val_take using mod_mult_div_eq [of "val u" "(2 ^ 64) ^ ?k"] by simp
  ultimately show ?thesis using L by simp
qed

lemma udivrem_by2_val:
  assumes d: "2 ^ 63 \<le> unat (snd d)" and len: "3 \<le> len" "len \<le> length u" and u: "val u < unat (snd d) * (2 ^ 64) ^ (len - 1)"
    and res: "udivrem_by2 u len d = (u', r)"
  shows "length u' = length u \<and> val2 r < val2 d \<and> val u' * val2 d + val2 r = val u"
proof -
  let ?k = "len - 2" and ?r0 = "(u ! (len - 2), u ! (len - 1))" and ?u1 = "u[len - 2 := 0, len - 1 := 0]"
  have k: "?k < length u" "len - 1 < length u" "Suc (len - 3) = ?k" "Suc ?k = len - 1" using len by simp_all
  have "val u < unat (snd d) * 2 ^ 64 * (2 ^ 64) ^ ?k" using u unfolding k(4) [symmetric] power_Suc by (simp only: ac_simps)
  then have top: "val u div (2 ^ 64) ^ ?k < unat (snd d) * 2 ^ 64" by (rule div_power_less)
  have top1: "val u div (2 ^ 64) ^ ?k div 2 ^ 64 < unat (snd d)" using top by (rule less_mult_imp_div_less)
  have p: "val u div (2 ^ 64) ^ (len - 1) = val u div (2 ^ 64) ^ ?k div 2 ^ 64"
    unfolding k(4) [symmetric] power_Suc2 by (simp only: div_mult2_eq)
  have "unat (u ! (len - 1)) = val u div (2 ^ 64) ^ ?k div 2 ^ 64" using nth_val [OF k(2)] top1 u64_less [of "snd d"] unfolding p by simp
  then have r0: "val2 ?r0 = val u div (2 ^ 64) ^ ?k" using nth_val [OF k(1)] by (simp add: mod_mult_div_eq)
  then have r0d: "val2 ?r0 < val2 d" using top by (simp add: val2_def)
  have dd: "divide_down (\<lambda>w rem. udivrem_3by2 (snd rem) (fst rem) w d (reciprocal_3by2 d)) ?u1 (len - 3) ?r0 = (u', r)"
    using res by (simp add: udivrem_by2_def Let_def)
  have L: "length u' = length u" "drop ?k u' = drop ?k ?u1" "val2 r < val2 d"
    "val (take ?k u') * val2 d + val2 r = val (take ?k u) + (2 ^ 64) ^ ?k * val2 ?r0"
    using divide_down_val [where f = val2 and D = "val2 d", OF step_3by2 [OF d] _ r0d dd] k len by simp_all
  have "val u div (2 ^ 64) ^ len = val u div (2 ^ 64) ^ ?k div 2 ^ 64 div 2 ^ 64"
    using len by (simp only: div_mult2_eq [symmetric] power_add [symmetric] power_Suc2 [symmetric] k) (simp add: Suc_diff_Suc numeral_2_eq_2)
  then have "val (drop len u) = 0" using val_drop [of len u] top1 u64_less [of "snd d"] by simp
  moreover have "drop ?k ?u1 = 0 # 0 # drop len u"
    using Cons_nth_drop_Suc [of ?k ?u1] Cons_nth_drop_Suc [of "len - 1" ?u1] k len by simp
  ultimately have "val (drop ?k ?u1) = 0" by simp
  then have "val u' = val (take ?k u')" using L k by (intro loop_result [of u' u ?k ?u1]) simp_all
  moreover have "val u = val (take ?k u) + (2 ^ 64) ^ ?k * val2 ?r0"
    unfolding r0 val_take using mod_mult_div_eq [of "val u" "(2 ^ 64) ^ ?k"] by simp
  ultimately show ?thesis using L by simp
qed

section \<open>Knuth's algorithm\<close>

lemma diff_wraps: "x < x - y \<longleftrightarrow> x < y" for x y :: u64
  using sub_borrow [of x y] u64_less [of y] u64_less [of "x - y"] u64_less [of x]
  by (cases "x < y") (auto simp: word_less_nat_alt)

lemma submul_val:
  "length xs = length ys \<Longrightarrow> submul xs ys m b = (rs, b') \<Longrightarrow>
    length rs = length xs \<and> val rs + unat m * val ys + unat b = val xs + (2 ^ 64) ^ length xs * unat b'"
proof (induction xs ys arbitrary: b rs b' rule: list_induct2)
  case (Cons x xs y ys)
  define s p where "s = x - b" and "p = umul y m"
  define r b1 where "r = s - fst p" and "b1 = snd p + of_bool (x < s) + of_bool (s < r)"
  obtain rs1 b2 where r1: "submul xs ys m b1 = (rs1, b2)" by (cases "submul xs ys m b1")
  have q: "rs = r # rs1" "b' = b2" using Cons.prems r1 by (simp_all add: Let_def s_def p_def r_def b1_def)
  have s: "unat s + unat b = unat x + 2 ^ 64 * of_bool (x < s)" unfolding s_def diff_wraps by (rule sub_borrow)
  have r: "unat r + unat (fst p) = unat s + 2 ^ 64 * of_bool (s < r)" unfolding r_def diff_wraps by (rule sub_borrow)
  have p: "unat (fst p) + 2 ^ 64 * unat (snd p) = unat y * unat m" using umul_val [of y m] by (simp add: p_def val2_def)
  let ?n = "unat (snd p) + of_bool (x < s) + of_bool (s < r)"
  have e: "unat r + unat y * unat m + unat b = unat x + 2 ^ 64 * ?n" using s r p by (simp add: algebra_simps)
  have "unat r + unat y * unat m + unat b < 2 ^ 64 + 2 ^ 64 * (2 ^ 64 - 1)"
    using mult_mono [of "unat y" "2 ^ 64 - 1" "unat m" "2 ^ 64 - 1"] u64_less [of y] u64_less [of m] u64_less [of b] u64_less [of r] by simp
  then have "?n < 2 ^ 64" unfolding e by simp
  then have "unat b1 = ?n" unfolding b1_def by (cases "x < s"; cases "s < r") (simp_all add: unat_word_ariths)
  then have "unat r + unat y * unat m + unat b = unat x + 2 ^ 64 * unat b1" using e by simp
  then show ?case using Cons.IH [OF r1] by (simp add: q algebra_simps)
qed simp

text \<open>
  The numbers of one round: the segment of the numerator is \<open>L + B^e * (u0 + B*u1 + B^2*u2)\<close> and the
  divisor is \<open>dl + B^e * D\<close>; the trial quotient is at most one too large.
\<close>

lemma trial_quotient:
  fixes L P dl D T q :: nat
  assumes "dl < P" "q \<le> D + 1" "q * D \<le> T"
  shows "(q - 1) * (dl + P * D) \<le> L + P * T"
proof (cases q)
  case (Suc n)
  have "n * (dl + P * D) \<le> n * (P + P * D)" using assms by (intro mult_left_mono) simp_all
  also have "\<dots> = P * (n * D + n)" by (simp add: algebra_simps)
  also have "\<dots> \<le> P * T" using assms Suc by (intro mult_left_mono) simp_all
  finally show ?thesis using Suc by simp
qed simp

lemma add_top:
  "length xs = n \<Longrightarrow> length ys = n \<Longrightarrow> addc_words xs ys False = (rs, k) \<Longrightarrow>
    \<exists>y. val (rs @ [b + (d + of_bool k)]) + (2 ^ 64) ^ Suc n * y = val (xs @ [b]) + val (ys @ [d])"
proof -
  assume a: "length xs = n" "length ys = n" "addc_words xs ys False = (rs, k)"
  have r: "length rs = n" "val rs + (2 ^ 64) ^ n * of_bool k = val xs + val ys" using addc_words_val [OF _ a(3)] a by simp_all
  let ?t = "unat b + (unat d + of_bool k)"
  have t: "unat (b + (d + of_bool k)) = ?t mod 2 ^ 64" by (cases k) (simp_all add: unat_word_ariths mod_simps)
  have "val (rs @ [b + (d + of_bool k)]) + (2 ^ 64) ^ Suc n * (?t div 2 ^ 64) = val rs + (2 ^ 64) ^ n * (?t mod 2 ^ 64 + 2 ^ 64 * (?t div 2 ^ 64))"
    by (simp only: val_snoc r(1) t power_Suc distrib_left ac_simps)
  also have "\<dots> = (val rs + (2 ^ 64) ^ n * of_bool k) + (2 ^ 64) ^ n * (unat b + unat d)"
    unfolding mod_mult_div_eq by (simp only: distrib_left distrib_right ac_simps)
  also have "\<dots> = val (xs @ [b]) + val (ys @ [d])" unfolding r(2) val_snoc a(1,2) by (simp only: distrib_left distrib_right ac_simps)
  finally show ?thesis by blast
qed

text \<open>Two numbers below \<open>M\<close> that differ by a multiple of \<open>M\<close> are equal.\<close>

lemma same_residue: "a + M * x = b + M * y \<Longrightarrow> a < M \<Longrightarrow> b < M \<Longrightarrow> a = b" for a b x y M :: nat
  by (metis mod_less mod_mult_self2)

lemma val_seg: "length low = e \<Longrightarrow> val (low @ [u0, u1, u2]) = val low + (2 ^ 64) ^ e * (unat u0 + 2 ^ 64 * val2 (u1, u2))"
  and val_div: "length dl = e \<Longrightarrow> val (dl @ [d0, d1]) = val dl + (2 ^ 64) ^ e * val2 (d0, d1)"
  by (simp_all add: val_append)

lemma normalized_ge: "2 ^ 63 \<le> unat d1 \<Longrightarrow> 2 ^ 64 \<le> val2 (d0, d1)"
  by simp

text \<open>The round in which the division of the top limbs would overflow.\<close>

lemma overflow_round:
  assumes l: "length low = e" "length dl = e" and norm: "2 ^ 63 \<le> unat d1"
    and seg: "val (low @ [u0, d0, d1]) < val (dl @ [d0, d1]) * 2 ^ 64"
    and r: "submul (low @ [u0, d0]) (dl @ [d0, d1]) (NOT 0) 0 = (rs, b)"
  shows "length rs = e + 2 \<and> val rs < val (dl @ [d0, d1]) \<and> unat (NOT 0 :: u64) * val (dl @ [d0, d1]) + val rs = val (low @ [u0, d0, d1])"
proof -
  let ?V = "val (dl @ [d0, d1])" and ?U = "val (low @ [u0, d0, d1])" and ?M = "(2 ^ 64) ^ (e + 2) :: nat" and ?q = "2 ^ 64 - 1 :: nat"
  have q: "unat (NOT 0 :: u64) = ?q" by (simp add: unsigned_minus_1_eq_mask mask_eq_exp_minus_1)
  have rs: "length rs = e + 2" "val rs + ?q * ?V = val (low @ [u0, d0]) + ?M * unat b"
    using submul_val [OF _ r] l unfolding q by simp_all
  have U: "?U = val (low @ [u0, d0]) + ?M * unat d1" using val_snoc [of "low @ [u0, d0]" d1] l by simp
  have "(2 ^ 64 - 1) * (val dl + (2 ^ 64) ^ e * val2 (d0, d1)) \<le> val low + (2 ^ 64) ^ e * (unat u0 + 2 ^ 64 * val2 (d0, d1))"
    using val_less [of dl] l normalized_ge [OF norm, of d0] by (intro trial_quotient) simp_all
  then have le: "?q * ?V \<le> ?U" unfolding val_seg [OF l(1)] val_div [OF l(2)] .
  then have lt: "?U - ?q * ?V < ?V" using seg by simp
  have "?V < ?M" using val_less [of "dl @ [d0, d1]"] l by simp
  then have "val rs = ?U - ?q * ?V"
    using same_residue [of "val rs" ?M "unat d1" "?U - ?q * ?V" "unat b"] val_less [of rs] rs U le lt by simp
  then show ?thesis using rs(1) le lt unfolding q by simp
qed

lemma top_limbs:
  assumes l: "length low = e" "length dl = e"
    and seg: "val (low @ [u0, u1, u2]) < val (dl @ [d0, d1]) * 2 ^ 64" and ne: "(u1, u2) \<noteq> (d0, d1)"
  shows "val2 (u1, u2) < val2 (d0, d1)"
proof -
  let ?D = "val2 (d0, d1)" and ?P = "(2 ^ 64) ^ e :: nat"
  note VU = val_div [OF l(2), of d0 d1] val_seg [OF l(1), of u0 u1 u2]
  have "?P * (2 ^ 64 * val2 (u1, u2)) \<le> val (low @ [u0, u1, u2])" unfolding VU by (intro trans_le_add2 mult_left_mono) simp_all
  also have "\<dots> < (val dl + ?P * ?D) * 2 ^ 64" using seg unfolding VU .
  also have "\<dots> \<le> (?P + ?P * ?D) * 2 ^ 64" using val_less [of dl] l by (intro mult_right_mono add_right_mono) simp_all
  finally have "(?P * 2 ^ 64) * val2 (u1, u2) < (?P * 2 ^ 64) * (?D + 1)" by (simp only: distrib_left distrib_right ac_simps mult_1_right)
  then have "val2 (u1, u2) < ?D + 1" unfolding mult_less_cancel1 by (rule conjunct2)
  moreover have "val2 (u1, u2) \<noteq> ?D" using ne val2_inj [of "(u1, u2)" "(d0, d1)"] by simp
  ultimately show ?thesis by simp
qed

text \<open>The usual round: subtract, and add the divisor back when that went below zero.\<close>

lemma normal_round:
  assumes l: "length low = e" "length dl = e" and norm: "2 ^ 63 \<le> unat d1"
    and seg: "val (low @ [u0, u1, u2]) < val (dl @ [d0, d1]) * 2 ^ 64" and ne: "(u1, u2) \<noteq> (d0, d1)"
    and q: "udivrem_3by2 u2 u1 u0 (d0, d1) (reciprocal_3by2 (d0, d1)) = (qh, rh)"
    and s: "submul low dl qh 0 = (rs, ov)" "subc64 (fst rh) ov False = (a, c1)" "subc64 (snd rh) (of_bool c1) False = (b, c)"
  shows "length rs = e \<and> val (rs @ [a, b]) + unat qh * val (dl @ [d0, d1]) = val (low @ [u0, u1, u2]) + (2 ^ 64) ^ (e + 2) * of_bool c \<and>
    (\<not> c \<longrightarrow> val (rs @ [a, b]) < val (dl @ [d0, d1])) \<and>
    (unat qh - 1) * val (dl @ [d0, d1]) \<le> val (low @ [u0, u1, u2])"
proof -
  let ?D = "val2 (d0, d1)" and ?P = "(2 ^ 64) ^ e :: nat" and ?T = "unat u0 + 2 ^ 64 * val2 (u1, u2)" and ?M = "(2 ^ 64) ^ (e + 2) :: nat"
  let ?V = "val (dl @ [d0, d1])" and ?U = "val (low @ [u0, u1, u2])" and ?N = "val (rs @ [a, b])"
  note VU = val_div [OF l(2), of d0 d1] val_seg [OF l(1), of u0 u1 u2]
  have small: "val low < ?P" "val dl < ?P" using val_less [of low] val_less [of dl] l by simp_all
  have top: "val2 (u1, u2) < ?D" by (rule top_limbs [OF l seg ne])
  have Q: "?T = unat qh * ?D + val2 rh" "val2 rh < ?D" using step_3by2 [of "(d0, d1)" "(u1, u2)" u0 qh rh] norm top q by simp_all
  have S: "length rs = e" "val rs + unat qh * val dl = val low + ?P * unat ov" using submul_val [OF _ s(1)] l by simp_all
  have k: "unat (of_bool c1 :: u64) = of_bool c1" by (cases c1) simp_all
  have "unat a + unat ov = unat (fst rh) + 2 ^ 64 * of_bool c1" "unat b + of_bool c1 = unat (snd rh) + 2 ^ 64 * of_bool c"
    using subc64_val [of "fst rh" ov False] subc64_val [of "snd rh" "of_bool c1" False] s(2,3) k by simp_all
  then have R: "val2 (a, b) + unat ov = val2 rh + 2 ^ 64 * 2 ^ 64 * of_bool c" by (simp add: val2_def)
  have M: "?M = ?P * (2 ^ 64 * 2 ^ 64)" by (simp add: power_add power2_eq_square)
  have "?N + unat qh * ?V = (val rs + unat qh * val dl) + ?P * (val2 (a, b) + unat qh * ?D)"
    unfolding VU val_div [OF S(1)] by (simp only: distrib_left distrib_right ac_simps)
  also have "\<dots> = val low + ?P * ((val2 (a, b) + unat ov) + unat qh * ?D)" unfolding S(2) by (simp only: distrib_left distrib_right ac_simps)
  also have "\<dots> = ?U + ?M * of_bool c" unfolding R VU M Q(1) by (simp only: distrib_left distrib_right ac_simps)
  finally have main: "?N + unat qh * ?V = ?U + ?M * of_bool c" .
  have "?N < ?V" if "\<not> c"
  proof -
    have "unat qh * ?V + ?N = val low + ?P * (unat qh * ?D + val2 rh)" using main that unfolding VU Q(1) by simp
    also have "\<dots> < ?P * (val2 rh + 1) + unat qh * (?P * ?D)" using small by (simp add: algebra_simps)
    also have "\<dots> \<le> ?P * ?D + unat qh * (?P * ?D)" using Q(2) by (intro add_right_mono mult_left_mono) simp_all
    also have "\<dots> \<le> ?V + unat qh * ?V" unfolding VU by (intro add_mono mult_left_mono) simp_all
    finally show ?thesis by simp
  qed
  moreover have "(unat qh - 1) * ?V \<le> ?U" unfolding VU
    using small Q(1) normalized_ge [OF norm, of d0] u64_less [of qh] by (intro trial_quotient) simp_all
  ultimately show ?thesis using main S(1) by simp
qed

text \<open>What the writes of a round leave in the array.\<close>

lemma update_two: "(xs @ p # q # zs)[length xs := a, Suc (length xs) := b] = xs @ a # b # zs"
  by (induction xs) simp_all

lemma write_two:
  assumes "length rs + 2 = n" "j + n \<le> length u"
  shows "(write_at u j rs)[j + n - 2 := a, j + n - 1 := b] = take j u @ (rs @ [a, b]) @ drop (j + n) u"
proof -
  have k: "j + n = Suc (Suc (j + length rs))" "j + length rs < length u" "Suc (j + length rs) < length u" using assms by simp_all
  have "drop (j + length rs) u = u ! (j + length rs) # u ! Suc (j + length rs) # drop (j + n) u"
    by (simp only: k Cons_nth_drop_Suc)
  then have "write_at u j rs = (take j u @ rs) @ u ! (j + length rs) # u ! Suc (j + length rs) # drop (j + n) u" by (simp add: write_at_def)
  moreover have "j + n - 2 = length (take j u @ rs)" "j + n - 1 = Suc (length (take j u @ rs))" using assms by simp_all
  ultimately show ?thesis by (simp only: update_two) simp
qed

lemma write_last:
  assumes "length rs + 1 = n" "length xs = n" "length us = j"
  shows "(write_at (us @ xs @ zs) j rs)[j + n - 1 := w] = us @ (rs @ [w]) @ zs" "write_at (us @ xs @ zs) j rs ! (j + n - 1) = last xs"
proof -
  obtain ys y where xs: "xs = ys @ [y]" "length ys = length rs" using assms by (cases xs rule: rev_cases) simp_all
  have w: "write_at (us @ xs @ zs) j rs = (us @ rs) @ y # zs" using xs assms by (simp add: write_at_def)
  have j: "j + n - 1 = length (us @ rs)" using assms by simp
  show "(write_at (us @ xs @ zs) j rs)[j + n - 1 := w] = us @ (rs @ [w]) @ zs" unfolding w j using list_update_length [of "us @ rs" y zs w] by simp
  show "write_at (us @ xs @ zs) j rs ! (j + n - 1) = last xs" unfolding w j nth_append_length using xs by simp
qed

lemma write_all:
  assumes "length rs = n" "j + n < length u"
  shows "\<exists>rest. (write_at u j rs)[j + n := x] = take j u @ rs @ rest"
proof -
  have "write_at u j rs = (take j u @ rs) @ u ! (j + n) # drop (Suc (j + n)) u"
    using Cons_nth_drop_Suc [of "j + n" u] assms by (simp add: write_at_def)
  moreover have "j + n = length (take j u @ rs)" using assms by simp
  ultimately show ?thesis by (metis append_assoc list_update_length)
qed

text \<open>The effect of the add-back on the numbers.\<close>

lemma add_back:
  fixes N V U M q X y :: nat
  assumes "N + q * V = U + M" "N < M" "(q - 1) * V \<le> U" "X + M * y = N + V" "X < M" "V < M"
  shows "1 \<le> q \<and> X < V \<and> (q - 1) * V + X = U"
proof -
  have q: "q \<noteq> 0" using assms(1,2) by (intro notI) simp
  then have qV: "q * V = (q - 1) * V + V" by (cases q) simp_all
  define S where "S = U - (q - 1) * V"
  have US: "U = (q - 1) * V + S" using assms(3) by (simp add: S_def)
  have "N + V = S + M" using assms(1) unfolding qV US by simp
  moreover from this have "S < V" using assms(2) by simp
  ultimately have "X = S" using same_residue [of X M y S 1] assms(4-6) by simp
  then show ?thesis using q US \<open>S < V\<close> by simp
qed

lemma add_back_round:
  assumes l: "length rs = e" "length dl = e"
    and N: "val (rs @ [a, b]) + unat qh * val (dl @ [d0, d1]) = U + (2 ^ 64) ^ (e + 2)" "(unat qh - 1) * val (dl @ [d0, d1]) \<le> U"
    and ad: "addc_words (rs @ [a]) (dl @ [d0]) False = (rs', k)"
  shows "length rs' = e + 1 \<and> val (rs' @ [b + (d1 + of_bool k)]) < val (dl @ [d0, d1]) \<and>
    unat (qh - 1) * val (dl @ [d0, d1]) + val (rs' @ [b + (d1 + of_bool k)]) = U"
proof -
  have l': "length (rs @ [a]) = e + 1" "length (dl @ [d0]) = e + 1" using l by simp_all
  have r: "length rs' = e + 1" using addc_words_val [OF _ ad] l by simp
  obtain y where "val (rs' @ [b + (d1 + of_bool k)]) + (2 ^ 64) ^ Suc (e + 1) * y = val (rs @ [a, b]) + val (dl @ [d0, d1])"
    using add_top [OF l' ad, of b d1] by auto
  then have c: "1 \<le> unat qh \<and> val (rs' @ [b + (d1 + of_bool k)]) < val (dl @ [d0, d1]) \<and>
      (unat qh - 1) * val (dl @ [d0, d1]) + val (rs' @ [b + (d1 + of_bool k)]) = U"
    using N val_less [of "rs @ [a, b]"] val_less [of "rs' @ [b + (d1 + of_bool k)]"] val_less [of "dl @ [d0, d1]"] l r
    by (intro add_back [of "val (rs @ [a, b])" "unat qh" "val (dl @ [d0, d1])" U "(2 ^ 64) ^ (e + 2)" _ y]) simp_all
  moreover have "unat (qh - 1) = unat qh - 1" using c by (intro unat_minus_one) auto
  ultimately show ?thesis using r by simp
qed

text \<open>The limbs a round looks at.\<close>

lemma round_limbs:
  assumes n: "2 \<le> n" "n \<le> length d" and j: "j + n < length u"
  shows "take n d = take (n - 2) d @ [d ! (n - 2), d ! (n - 1)]" "take (n - 1) d = take (n - 2) d @ [d ! (n - 2)]"
    "take (Suc n) (drop j u) = take (n - 2) (drop j u) @ [u ! (j + n - 2), u ! (j + n - 1), u ! (j + n)]"
    "take n (drop j u) = take (n - 2) (drop j u) @ [u ! (j + n - 2), u ! (j + n - 1)]"
    "length (take (n - 2) (drop j u)) = n - 2" "length (take (n - 2) d) = n - 2"
  using take_Suc_conv_app_nth [of "n - 2" d] take_Suc_conv_app_nth [of "n - 1" d]
    take_Suc_conv_app_nth [of "n - 2" "drop j u"] take_Suc_conv_app_nth [of "n - 1" "drop j u"] take_Suc_conv_app_nth [of n "drop j u"] n j
  by (simp_all add: Suc_diff_Suc numeral_2_eq_2)

text \<open>What a round has done when it ends: the segment is divided, and the limbs below it are untouched.\<close>

definition round_done :: "u64 list \<Rightarrow> u64 list \<Rightarrow> nat \<Rightarrow> nat \<Rightarrow> u64 \<Rightarrow> u64 list \<Rightarrow> bool" where
  "round_done u d n j qh u' \<longleftrightarrow> length u' = length u \<and> take j u' = take j u \<and> val (take n (drop j u')) < val (take n d) \<and>
     unat qh * val (take n d) + val (take n (drop j u')) = val (take (Suc n) (drop j u))"

lemma round_doneI:
  "u' = take j u @ ns @ rest \<Longrightarrow> length ns = n \<Longrightarrow> length u' = length u \<Longrightarrow> j \<le> length u \<Longrightarrow> val ns < val (take n d) \<Longrightarrow>
    unat qh * val (take n d) + val ns = val (take (Suc n) (drop j u)) \<Longrightarrow> round_done u d n j qh u'"
  by (simp add: round_done_def min_absorb1)

lemma knuth_overflow_val:
  assumes n: "2 \<le> n" "n \<le> length d" and norm: "2 ^ 63 \<le> unat (d ! (n - 1))" and j: "j + n < length u"
    and lt: "val (take (Suc n) (drop j u)) < val (take n d) * 2 ^ 64"
    and eq: "(u ! (j + n - 1), u ! (j + n)) = (d ! (n - 2), d ! (n - 1))" and st: "knuth_overflow u d n j = (qh, u')"
  shows "round_done u d n j qh u'"
proof -
  note L = round_limbs [OF n j]
  obtain rs b where r: "submul (take n (drop j u)) (take n d) (NOT 0) 0 = (rs, b)" by (cases "submul (take n (drop j u)) (take n d) (NOT 0) 0")
  have e: "qh = NOT 0" "u' = (write_at u j rs)[j + n := u ! (j + n) - b]" using st r by (simp_all add: knuth_overflow_def Let_def)
  have R: "length rs = n" "val rs < val (take n d)" "unat (NOT 0 :: u64) * val (take n d) + val rs = val (take (Suc n) (drop j u))"
    using overflow_round [OF L(5,6) norm, of "u ! (j + n - 2)" "d ! (n - 2)" rs b] lt r eq n unfolding L by simp_all
  obtain rest where "u' = take j u @ rs @ rest" using write_all [OF R(1) j, of "u ! (j + n) - b"] e(2) by auto
  moreover have "length u' = length u" unfolding e(2) using R(1) j by (simp add: write_at_def)
  ultimately show ?thesis using R e(1) j by (intro round_doneI [of u' j u rs rest]) simp_all
qed

lemma knuth_normal_val:
  assumes n: "2 \<le> n" "n \<le> length d" and norm: "2 ^ 63 \<le> unat (d ! (n - 1))" and j: "j + n < length u"
    and lt: "val (take (Suc n) (drop j u)) < val (take n d) * 2 ^ 64" and ne: "(u ! (j + n - 1), u ! (j + n)) \<noteq> (d ! (n - 2), d ! (n - 1))"
    and st: "knuth_normal u d n (d ! (n - 2), d ! (n - 1)) (reciprocal_3by2 (d ! (n - 2), d ! (n - 1))) j = (qh, u')"
  shows "round_done u d n j qh u'"
proof -
  note L = round_limbs [OF n j]
  let ?D = "(d ! (n - 2), d ! (n - 1))" and ?low = "take (n - 2) (drop j u)" and ?dl = "take (n - 2) d"
  obtain q0 rh where q: "udivrem_3by2 (u ! (j + n)) (u ! (j + n - 1)) (u ! (j + n - 2)) ?D (reciprocal_3by2 ?D) = (q0, rh)" by (meson surj_pair)
  obtain rs ov where r: "submul ?low ?dl q0 0 = (rs, ov)" by fastforce
  obtain a c1 where a: "subc64 (fst rh) ov False = (a, c1)" by fastforce
  obtain b c where b: "subc64 (snd rh) (of_bool c1) False = (b, c)" by fastforce
  note R = normal_round [OF L(5,6) norm lt [unfolded L] ne q r a b]
  have lr: "length rs + 2 = n" using R n by simp
  let ?w = "take j u @ (rs @ [a, b]) @ drop (j + n) u"
  have w: "(write_at u j rs)[j + n - 2 := a, j + n - 1 := b] = ?w" using lr j by (intro write_two) simp_all
  note st' = st [unfolded knuth_normal_def Let_def q prod.case r a b w]
  show ?thesis
  proof (cases c)
    case False
    then have "u' = ?w" "qh = q0" using st' by simp_all
    then show ?thesis using R False lr j by (intro round_doneI [of u' j u "rs @ [a, b]" "drop (j + n) u"]) (simp_all add: L)
  next
    case True
    have t: "take (n - 1) (drop j ?w) = rs @ [a]" using lr j by (auto simp: min_absorb1)
    obtain rs' k where ad: "addc_words (rs @ [a]) (?dl @ [d ! (n - 2)]) False = (rs', k)" by fastforce
    let ?y = "d ! (n - 1) + of_bool k"
    have B: "length rs' = n - 2 + 1" "val (rs' @ [b + ?y]) < val (take n d)" "unat (q0 - 1) * val (take n d) + val (rs' @ [b + ?y]) = val (take (Suc n) (drop j u))"
      using add_back_round [OF _ L(6) _ _ ad, of b q0 "d ! (n - 1)" "val (take (Suc n) (drop j u))"] R True lr unfolding L by simp_all
    have "(write_at ?w j rs')[j + n - 1 := write_at ?w j rs' ! (j + n - 1) + ?y] = take j u @ (rs' @ [b + ?y]) @ drop (j + n) u"
      using write_last [of rs' n "rs @ [a, b]" "take j u" j "drop (j + n) u"] B(1) lr j by simp
    then have "u' = take j u @ (rs' @ [b + ?y]) @ drop (j + n) u" "qh = q0 - 1" using st' True t ad L(2) by simp_all
    then show ?thesis using B lr j by (intro round_doneI [of u' j u "rs' @ [b + ?y]" "drop (j + n) u"]) simp_all
  qed
qed

lemma knuth_step_val:
  assumes "2 \<le> n" "n \<le> length d" "2 ^ 63 \<le> unat (d ! (n - 1))" "j + n < length u" "val (take (Suc n) (drop j u)) < val (take n d) * 2 ^ 64"
    and "knuth_step u d n (d ! (n - 2), d ! (n - 1)) (reciprocal_3by2 (d ! (n - 2), d ! (n - 1))) j = (qh, u')"
  shows "round_done u d n j qh u'"
    using knuth_overflow_val [OF assms(1-5)] knuth_normal_val [OF assms(1-5)] assms(6) unfolding knuth_step_def by presburger

text \<open>The rounds together: the quotient limbs and the remainder.\<close>

lemma knuth_loop_val:
  assumes n: "2 \<le> n" "n \<le> length d" and norm: "2 ^ 63 \<le> unat (d ! (n - 1))"
  defines "V \<equiv> val (take n d)" and "D \<equiv> (d ! (n - 2), d ! (n - 1))"
  shows "k + n \<le> length u \<Longrightarrow> k \<le> length q \<Longrightarrow> val (take (k + n) u) < V * (2 ^ 64) ^ k \<Longrightarrow>
    knuth_loop q u d n D (reciprocal_3by2 D) k = (q', u') \<Longrightarrow>
    length q' = length q \<and> length u' = length u \<and> drop k q' = drop k q \<and> val (take n u') < V \<and>
    val (take k q') * V + val (take n u') = val (take (k + n) u)"
proof (induction k arbitrary: q u)
  case (Suc j)
  let ?B = "2 ^ 64 :: nat"
  obtain qh u1 where st: "knuth_step u d n D (reciprocal_3by2 D) j = (qh, u1)" by fastforce
  let ?seg = "val (take (Suc n) (drop j u))"
  have j: "j + n < length u" using Suc.prems(1) by simp
  have A: "val (take (Suc j + n) u) = val (take j u) + ?B ^ j * ?seg"
    using arg_cong [OF take_add [of j "Suc n" u], of val] j by (simp add: val_append min_absorb2)
  have "val (take j u) + ?B ^ j * ?seg < ?B ^ j * (V * ?B)" using Suc.prems(3) unfolding A power_Suc by (simp only: ac_simps)
  then have "?B ^ j * ?seg < ?B ^ j * (V * ?B)" by (rule order.strict_trans1 [OF le_add2])
  then have "?seg < V * ?B" unfolding mult_less_cancel1 by (rule conjunct2)
  then have R: "length u1 = length u" "take j u1 = take j u" "val (take n (drop j u1)) < V" "unat qh * V + val (take n (drop j u1)) = ?seg"
    using knuth_step_val [OF n norm j _ st [unfolded D_def]] by (simp_all add: V_def round_done_def)
  have A1: "val (take (j + n) u1) = val (take j u) + ?B ^ j * val (take n (drop j u1))"
    using arg_cong [OF take_add [of j n u1], of val] j R(1,2) by (simp add: val_append min_absorb2)
  have "val (take j u) + ?B ^ j * val (take n (drop j u1)) < ?B ^ j * (val (take n (drop j u1)) + 1)"
    using val_less [of "take j u"] j by (simp add: min_absorb2)
  also have "\<dots> \<le> ?B ^ j * V" using R(3) by (intro mult_left_mono) simp_all
  finally have lt: "val (take (j + n) u1) < V * ?B ^ j" unfolding A1 by (simp only: mult.commute)
  have dd: "knuth_loop (q[j := qh]) u1 d n D (reciprocal_3by2 D) j = (q', u')" using Suc.prems(4) st by simp
  have IH: "length q' = length q" "length u' = length u" "drop j q' = drop j (q[j := qh])" "val (take n u') < V"
    "val (take j q') * V + val (take n u') = val (take (j + n) u1)"
    using Suc.IH [OF _ _ lt dd] Suc.prems(1,2) R(1) by simp_all
  have "q' ! j = qh" using arg_cong [OF IH(3), of hd] Suc.prems(2) IH(1) by (simp add: hd_drop_conv_nth)
  then have "val (take (Suc j) q') = val (take j q') + ?B ^ j * unat qh" using val_split_nth [of j q'] Suc.prems(2) IH(1) by simp
  then have "val (take (Suc j) q') * V + val (take n u') = (val (take j q') * V + val (take n u')) + ?B ^ j * (unat qh * V)"
    by (simp only: distrib_left distrib_right ac_simps)
  also have "\<dots> = val (take (Suc j + n) u)" unfolding IH(5) A1 A R(4) [symmetric] by (simp only: distrib_left distrib_right ac_simps)
  moreover have "drop (Suc j) q' = drop (Suc j) q" using arg_cong [OF IH(3), of "drop 1"] by (simp only: drop_drop) (simp add: drop_update_cancel)
  ultimately show ?case using IH by simp
qed (simp_all add: V_def)

lemma udivrem_knuth_val:
  assumes n: "2 \<le> n" "n \<le> length d" and norm: "2 ^ 63 \<le> unat (d ! (n - 1))" and len: "n \<le> len" "len \<le> length u" "len - n \<le> m"
    and u: "val u < unat (d ! (n - 1)) * (2 ^ 64) ^ (len - 1)" "val u < (2 ^ 64) ^ len"
    and res: "udivrem_knuth (replicate m 0) u len d n = (q, u')"
  shows "length q = m \<and> length u' = length u \<and> val (take n u') < val (take n d) \<and> val q * val (take n d) + val (take n u') = val u"
proof -
  let ?k = "len - n" and ?B = "2 ^ 64 :: nat"
  have k: "?k + n = len" "len - 1 = ?k + (n - 1)" using len n by simp_all
  have tu: "val (take len u) = val u" using u(2) by (simp add: val_take)
  have "unat (d ! (n - 1)) * ?B ^ (n - 1) \<le> val (take n d)" using val_split_nth [of "n - 1" d] n by (simp add: mult.commute)
  then have "unat (d ! (n - 1)) * ?B ^ (n - 1) * ?B ^ ?k \<le> val (take n d) * ?B ^ ?k" by (intro mult_right_mono) simp_all
  then have "val u < val (take n d) * ?B ^ ?k" using u(1) unfolding k(2) power_add by (simp only: ac_simps)
  then have "length q = m \<and> length u' = length u \<and> drop ?k q = drop ?k (replicate m 0) \<and> val (take n u') < val (take n d) \<and>
      val (take ?k q) * val (take n d) + val (take n u') = val (take len u)"
    using knuth_loop_val [OF n norm, of ?k u "replicate m 0" q u'] res len k(1) tu by (simp add: udivrem_knuth_def Let_def)
  moreover from this have "val q = val (take ?k q)" using len(3) by (intro loop_result [of q q ?k "replicate m 0"]) simp_all
  ultimately show ?thesis using tu by simp
qed

section \<open>Normalization\<close>

lemma bit_length_bounds: "n \<noteq> 0 \<Longrightarrow> 2 ^ (bit_length n - 1) \<le> n \<and> n < 2 ^ bit_length n \<and> 0 < bit_length n"
proof (induction n rule: bit_length.induct)
  case (1 n)
  show ?case
  proof (cases "n div 2 = 0")
    case True
    then have "n = 1" using 1(2) by auto
    then show ?thesis by (simp add: bit_length.simps)
  next
    case False
    let ?b = "bit_length (n div 2)"
    have IH: "2 ^ (?b - 1) \<le> n div 2" "n div 2 < 2 ^ ?b" "0 < ?b" using 1 False by simp_all
    have "(2 :: nat) ^ ?b = 2 * 2 ^ (?b - 1)" using IH(3) by (cases ?b) simp_all
    then have "2 ^ ?b \<le> n" using IH(1) by linarith
    moreover have "n < 2 * 2 ^ ?b" using IH(2) by linarith
    ultimately show ?thesis using 1(2) by (simp add: bit_length.simps [of n])
  qed
qed

lemma clz64_val:
  assumes "w \<noteq> 0"
  shows "clz64 w < 64" "2 ^ 63 \<le> unat w * 2 ^ clz64 w" "unat w * 2 ^ clz64 w < 2 ^ 64"
proof -
  let ?b = "bit_length (unat w)"
  have b: "2 ^ (?b - 1) \<le> unat w" "unat w < 2 ^ ?b" "0 < ?b" using bit_length_bounds [of "unat w"] assms by (simp_all add: unat_eq_0)
  have "(2 :: nat) ^ (?b - 1) < 2 ^ 64" using b(1) u64_less [of w] by (rule order.strict_trans1)
  then have "?b - 1 < 64" by (rule power_less_imp_less_exp [rotated]) simp
  then have le: "?b \<le> 64" by simp
  then show "clz64 w < 64" using b(3) by (simp add: clz64_def)
  have e: "?b - 1 + clz64 w = 63" "?b + clz64 w = 64" using le b(3) by (simp_all add: clz64_def)
  have "2 ^ (?b - 1) * 2 ^ clz64 w \<le> unat w * 2 ^ clz64 w" using b(1) by (intro mult_right_mono) simp_all
  then show "2 ^ 63 \<le> unat w * 2 ^ clz64 w" unfolding power_add [symmetric] e .
  have "unat w * 2 ^ clz64 w < 2 ^ ?b * 2 ^ clz64 w" using b(2) by (intro mult_strict_right_mono) simp_all
  then show "unat w * 2 ^ clz64 w < 2 ^ 64" unfolding power_add [symmetric] e .
qed

text \<open>What \<open>normalize\<close> gives for a divisor with \<open>n\<close> significant limbs.\<close>

lemma shift_numerator:
  assumes "u \<noteq> []" "s < 64"
  defines "un \<equiv> (if s \<noteq> 0 then shl_words s u @ [drop_bit (64 - s) (u ! (length u - 1))] else u @ [0])"
  shows "length un = length u + 1" "val un = val u * 2 ^ s"
proof -
  have l: "last u = u ! (length u - 1)" using assms(1) by (rule last_conv_nth)
  show "length un = length u + 1" "val un = val u * 2 ^ s"
    using shl_words_val [of s u] assms(1,2) unfolding un_def by (simp_all add: val_append unat_drop l)
qed

lemma shift_divisor:
  assumes n: "sig_words v (length v) = n" "0 < n" and s: "s = clz64 (v ! (n - 1))"
  defines "vn \<equiv> (if s \<noteq> 0 then shl_words s v else v)"
  shows "s < 64" "n \<le> length v" "length vn = length v" "val vn = val v * 2 ^ s" "val vn < (2 ^ 64) ^ n" "2 ^ 63 \<le> unat (vn ! (n - 1))"
    "unat (vn ! (n - 1)) * (2 ^ 64) ^ (n - 1) \<le> val vn"
proof -
  let ?B = "2 ^ 64 :: nat" and ?t = "v ! (n - 1)"
  have S: "val v < ?B ^ n" "?t \<noteq> 0" using sig_words_val [of "length v" v] n by simp_all
  show nl: "n \<le> length v" using sig_words_val [of "length v" v] n by simp
  note c = clz64_val [OF S(2), folded s]
  show s64: "s < 64" by (rule c(1))
  have Bn: "?B ^ n = ?B * ?B ^ (n - 1)" using n(2) by (cases n) simp_all
  have "val v div ?B ^ (n - 1) < ?B" using S(1) unfolding Bn by (rule div_power_less)
  then have t: "unat ?t = val v div ?B ^ (n - 1)" using nth_val [of "n - 1" v] nl n(2) by simp
  have "unat ?t * 2 ^ s < 2 ^ (64 - s) * 2 ^ s" using c(3) split_power [of s] s64 by (simp only: mult.commute less_imp_le)
  then have "unat ?t < 2 ^ (64 - s)" unfolding mult_less_cancel2 by (rule conjunct2)
  then have "val v < 2 ^ (64 - s) * ?B ^ (n - 1)" unfolding t by (simp only: div_less_iff_less_mult power64_pos)
  then have "val v * 2 ^ s < 2 ^ (64 - s) * ?B ^ (n - 1) * 2 ^ s" by (intro mult_strict_right_mono) simp_all
  also have "\<dots> = (2 ^ s * 2 ^ (64 - s)) * ?B ^ (n - 1)" by (simp only: ac_simps)
  also have "\<dots> = ?B ^ n" unfolding split_power [OF less_imp_le [OF s64], symmetric] Bn ..
  finally have lt: "val v * 2 ^ s < ?B ^ n" .
  have W: "length (shl_words s v) = length v" "val (shl_words s v) + ?B ^ length v * (unat (last v) div 2 ^ (64 - s)) = val v * 2 ^ s"
    using shl_words_val [of s v] nl n(2) s64 by auto
  have "?B ^ n \<le> ?B ^ length v" using nl by (intro power_increasing) simp_all
  then have "?B ^ length v * (unat (last v) div 2 ^ (64 - s)) < ?B ^ length v * 1" using lt W(2) by linarith
  then have "unat (last v) div 2 ^ (64 - s) = 0" unfolding mult_less_cancel1 by simp
  then show vn: "length vn = length v" "val vn = val v * 2 ^ s" using W by (simp_all add: vn_def)
  then show "val vn < ?B ^ n" using lt by simp
  then have "val vn div ?B ^ (n - 1) < ?B" unfolding Bn by (rule div_power_less)
  then have h: "unat (vn ! (n - 1)) = val vn div ?B ^ (n - 1)" using nth_val [of "n - 1" vn] nl n(2) vn(1) by simp
  have "unat ?t * 2 ^ s * ?B ^ (n - 1) = (val v div ?B ^ (n - 1) * ?B ^ (n - 1)) * 2 ^ s" unfolding t by (simp only: ac_simps)
  also have "\<dots> \<le> val v * 2 ^ s" by (intro mult_right_mono) simp_all
  finally have "unat ?t * 2 ^ s \<le> val vn div ?B ^ (n - 1)" unfolding vn(2) by (simp only: less_eq_div_iff_mult_less_eq power64_pos)
  then show "2 ^ 63 \<le> unat (vn ! (n - 1))" unfolding h using c(2) by (rule order_trans [rotated])
  show "unat (vn ! (n - 1)) * ?B ^ (n - 1) \<le> val vn" unfolding h by simp
qed

text \<open>
  The number of numerator limbs that take part: below it the numerator is less than the divisor's
  top limb times the power. Whatever \<open>un[-1]\<close> is, a zero numerator has at most one.
\<close>

lemma significant_words:
  fixes oob :: u64
  assumes m: "sig_words u (length u) = m" and U: "val un = val u * 2 ^ s" "length un = length u + 1" "s < 64" and T: "2 ^ 63 \<le> unat T"
  defines "m' \<equiv> (if un ! m \<noteq> 0 \<or> (if m = 0 then oob else un ! (m - 1)) \<ge> T then m + 1 else m)"
  shows "m' \<le> length u + 1" "m = 0 \<Longrightarrow> val u = 0 \<and> m' \<le> 1" "0 < m \<Longrightarrow> 0 < m' \<and> val un < unat T * (2 ^ 64) ^ (m' - 1)" "val un < (2 ^ 64) ^ m'"
proof -
  let ?B = "2 ^ 64 :: nat"
  have M: "m \<le> length u" "val u < ?B ^ m" using sig_words_val [of "length u" u] m by simp_all
  then show "m' \<le> length u + 1" by (simp add: m'_def)
  show "m = 0 \<Longrightarrow> val u = 0 \<and> m' \<le> 1" using M by (simp add: m'_def)
  have T1: "1 \<le> unat T" using T by simp
  have "(2 :: nat) ^ s \<le> 2 ^ 63" using U(3) by (intro power_increasing) simp_all
  then have sT: "2 ^ s \<le> unat T" using T by simp
  have "val un < ?B ^ m * 2 ^ s" unfolding U(1) using M(2) by (intro mult_strict_right_mono) simp_all
  also have "\<dots> \<le> ?B ^ m * unat T" using sT by (intro mult_left_mono) simp_all
  finally have big: "val un < unat T * ?B ^ m" by (simp only: mult.commute)
  have "unat T * ?B ^ m \<le> ?B * ?B ^ m" using u64_less [of T] by (intro mult_right_mono) simp_all
  with big have um: "val un < ?B ^ Suc m" unfolding power_Suc by (rule order.strict_trans2)
  have small: "val un < ?B ^ m" if "un ! m = 0"
  proof -
    have "val un div ?B ^ m < ?B" using um unfolding power_Suc by (rule div_power_less)
    then have "val un div ?B ^ m = 0" using nth_val [of m un] M(1) U(2) that by simp
    then show ?thesis by (simp add: div_eq_0_iff)
  qed
  show "val un < ?B ^ m'" using um small by (auto simp: m'_def)
  have low: "val un < unat T * ?B ^ (m - 1)" if "0 < m" "un ! m = 0" "un ! (m - 1) < T"
  proof -
    have "val un < ?B * ?B ^ (m - 1)" using small [OF that(2)] that(1) by (cases m) simp_all
    then have "val un div ?B ^ (m - 1) < ?B" by (rule div_power_less)
    then have "val un div ?B ^ (m - 1) < unat T" using nth_val [of "m - 1" un] that M(1) U(2) by (simp add: word_less_nat_alt)
    then show ?thesis by (simp only: div_less_iff_less_mult power64_pos)
  qed
  show "0 < m \<Longrightarrow> 0 < m' \<and> val un < unat T * ?B ^ (m' - 1)" using big low by (auto simp: m'_def not_le)
qed

text \<open>The facts the divisions need of the normalized arguments.\<close>

lemma normalize_val:
  assumes v: "val v \<noteq> 0" and u: "u \<noteq> []" and na: "na = normalize oob u v"
  defines "n \<equiv> num_divisor_words na" and "m \<equiv> num_numerator_words na" and "s \<equiv> na_shift na"
    and "vn \<equiv> na_divisor na" and "un \<equiv> na_numerator na"
  shows "0 < n" "n = sig_words v (length v)" "n \<le> length v" "length vn = length v" "val vn = val v * 2 ^ s" "val vn < (2 ^ 64) ^ n" "2 ^ 63 \<le> unat (vn ! (n - 1))"
    "unat (vn ! (n - 1)) * (2 ^ 64) ^ (n - 1) \<le> val vn" "s < 64"
    "length un = length u + 1" "val un = val u * 2 ^ s" "m \<le> length u + 1" "val un < (2 ^ 64) ^ m"
    "val u = 0 \<and> m \<le> 1 \<or> 0 < m \<and> val un < unat (vn ! (n - 1)) * (2 ^ 64) ^ (m - 1)"
proof -
  show n: "n = sig_words v (length v)" by (simp add: na n_def normalize_def Let_def)
  show n0: "0 < n" using sig_words_val [of "length v" v] v unfolding n by (intro gr0I) simp
  have s: "s = clz64 (v ! (n - 1))" by (simp add: na s_def n normalize_def Let_def)
  have vn: "vn = (if s \<noteq> 0 then shl_words s v else v)" by (simp add: na vn_def s n normalize_def Let_def)
  have un: "un = (if s \<noteq> 0 then shl_words s u @ [drop_bit (64 - s) (u ! (length u - 1))] else u @ [0])"
    by (simp add: na un_def s n normalize_def Let_def)
  note V = shift_divisor [OF n [symmetric] n0 s, folded vn]
  then show "n \<le> length v" "length vn = length v" "val vn = val v * 2 ^ s" "val vn < (2 ^ 64) ^ n" "2 ^ 63 \<le> unat (vn ! (n - 1))"
    "unat (vn ! (n - 1)) * (2 ^ 64) ^ (n - 1) \<le> val vn" "s < 64" by simp_all
  note U = shift_numerator [OF u V(1), folded un]
  then show "length un = length u + 1" "val un = val u * 2 ^ s" by simp_all
  define m0 where "m0 = sig_words u (length u)"
  have m: "m = (if un ! m0 \<noteq> 0 \<or> (if m0 = 0 then oob else un ! (m0 - 1)) \<ge> vn ! (n - 1) then m0 + 1 else m0)"
    by (simp add: na m_def un vn s n normalize_def Let_def m0_def)
  note S = significant_words [OF m0_def [symmetric] U(2,1) V(1,6), of oob, folded m]
  then show "m \<le> length u + 1" "val un < (2 ^ 64) ^ m" by simp_all
  show "val u = 0 \<and> m \<le> 1 \<or> 0 < m \<and> val un < unat (vn ! (n - 1)) * (2 ^ 64) ^ (m - 1)" using S(2,3) by (cases "m0 = 0") auto
qed

lemma scaled_division:
  fixes P :: nat
  assumes "Q * (V * P) + R = U * P" "R < V * P" "0 < P"
  shows "Q = U div V" "R div P = U mod V"
proof -
  have "(Q * W + R) div W = Q" "(Q * W + R) mod W = R" if "R < W" for W using that by simp_all
  from this [OF assms(2)] have "U * P div (V * P) = Q" "U * P mod (V * P) = R" unfolding assms(1) by simp_all
  then have "U div V = Q" "U mod V * P = R" using assms(3) by (simp_all add: mult_mod_left [symmetric])
  then show "Q = U div V" "R div P = U mod V" using assms(3) by auto
qed

lemma val_pad: "val (ws @ replicate k 0) = val ws"
  by (simp add: val_append)

lemma by1_scaled:
  assumes "2 ^ 63 \<le> unat d" "2 \<le> m" "m \<le> length un" "val un < unat d * (2 ^ 64) ^ (m - 1)" "udivrem_by1 un m d = (q, r)"
    and "unat d = V * 2 ^ s" "val un = U * 2 ^ s"
  shows "length q = length un \<and> val q = U div V \<and> unat r div 2 ^ s = U mod V"
  using udivrem_by1_val [OF assms(1-5)] scaled_division [of "val q" V "2 ^ s" "unat r" U] unfolding assms(6,7) by simp

lemma by2_scaled:
  assumes "2 ^ 63 \<le> unat (snd d)" "3 \<le> m" "m \<le> length un" "val un < unat (snd d) * (2 ^ 64) ^ (m - 1)" "udivrem_by2 un m d = (q, r)"
    and "val2 d = V * 2 ^ s" "val un = U * 2 ^ s"
  shows "length q = length un \<and> val q = U div V \<and> val2 r div 2 ^ s = U mod V"
  using udivrem_by2_val [OF assms(1-5)] scaled_division [of "val q" V "2 ^ s" "val2 r" U] unfolding assms(6,7) by simp

lemma knuth_scaled:
  assumes "2 \<le> n" "n \<le> length d" "2 ^ 63 \<le> unat (d ! (n - 1))" "n \<le> m" "m \<le> length un" "m - n \<le> k"
    and "val un < unat (d ! (n - 1)) * (2 ^ 64) ^ (m - 1)" "val un < (2 ^ 64) ^ m" "udivrem_knuth (replicate k 0) un m d n = (q, un')"
    and "val (take n d) = V * 2 ^ s" "val un = U * 2 ^ s"
  shows "length q = k \<and> length un' = length un \<and> val q = U div V \<and> val (take n un') div 2 ^ s = U mod V"
  using udivrem_knuth_val [OF assms(1-9)] scaled_division [of "val q" V "2 ^ s" "val (take n un')" U] unfolding assms(10,11) by simp

lemma quotient_fits: "val q = val u div k \<Longrightarrow> val (take (length u) q) = val u div k"
proof -
  assume "val q = val u div k"
  moreover have "val u div k < (2 ^ 64) ^ length u" using div_le_dividend val_less by (rule order.strict_trans1)
  ultimately show ?thesis by (simp add: val_take)
qed

text \<open>The theorem of the whole division, for arrays of all lengths.\<close>

lemma udivrem_val:
  assumes v: "val v \<noteq> 0" and len: "u \<noteq> []" "2 \<le> length v" "length v \<le> length u"
  shows "\<exists>q r. udivrem oob u v = Some (q, r) \<and> length q = length u \<and> length r = length v \<and> val q = val u div val v \<and> val r = val u mod val v"
proof -
  define na where "na = normalize oob u v"
  define n m s vn un where "n = num_divisor_words na" "m = num_numerator_words na" "s = na_shift na" "vn = na_divisor na" "un = na_numerator na"
  note N = normalize_val [OF v len(1) na_def, folded n_m_s_vn_un_def]
  let ?P = "2 ^ s :: nat" and ?T = "vn ! (n - 1)"
  have tv: "val (take n vn) = val v * ?P" using N(5,6) by (simp add: val_take)
  have sg: "sig_words v (length v) \<noteq> 0" using N(1,2) by simp
  note D = udivrem_def [of oob u v, folded na_def, unfolded Let_def, folded n_m_s_vn_un_def, simplified sg if_False]
  show ?thesis
  proof (cases "m \<le> n")
    case True
    have "val u < val v"
    proof (cases "val u = 0 \<and> m \<le> 1")
      case False
      then have "val un < unat ?T * (2 ^ 64) ^ (m - 1)" using N(14) by blast
      also have "\<dots> \<le> unat ?T * (2 ^ 64) ^ (n - 1)" using True by (intro mult_left_mono power_increasing) simp_all
      also note N(8)
      finally show ?thesis unfolding N(5,11) mult_less_cancel2 by (rule conjunct2)
    qed (use v in simp)
    moreover have "val v < (2 ^ 64) ^ length v" by (rule val_less)
    ultimately have "val (take (length v) u) = val u mod val v" "val u div val v = 0" by (simp_all add: val_take)
    then show ?thesis using D True len by simp
  next
    case False
    then have m: "n < m" "val un < unat ?T * (2 ^ 64) ^ (m - 1)" using N(1,14) by auto
    consider (one) "n = 1" | (two) "n = 2" | (more) "3 \<le> n" using N(1) by linarith
    then show ?thesis
    proof cases
      case one
      obtain q r where R: "udivrem_by1 un m (vn ! 0) = (q, r)" by fastforce
      have V: "unat (vn ! 0) = val v * ?P" using tv one N(4) len by (cases vn) simp_all
      have Q: "length q = length un" "val q = val u div val v" "unat r div ?P = val u mod val v"
        using by1_scaled [OF _ _ _ _ R V N(11)] m one N(7,10,12) by simp_all
      then show ?thesis using D False one R len N(10) quotient_fits [OF Q(2)] by (simp add: unat_drop)
    next
      case two
      obtain q r where R: "udivrem_by2 un m (vn ! 0, vn ! 1) = (q, r)" by (meson surj_pair)
      have V: "val2 (vn ! 0, vn ! 1) = val v * ?P" using tv two N(4) len by (cases vn; cases "tl vn") simp_all
      have Q: "length q = length un" "val q = val u div val v" "val2 r div ?P = val u mod val v"
        using by2_scaled [OF _ _ _ _ R V N(11)] m two N(7,10,12) by simp_all
      then show ?thesis using D False two R len N(10) quotient_fits [OF Q(2)] shr128_val [OF N(9), of r] by (simp add: val2_def)
    next
      case more
      obtain q un' where R: "udivrem_knuth (replicate (length u) 0) un m vn n = (q, un')" by fastforce
      have Q: "length q = length u" "length un' = length un" "val q = val u div val v" "val (take n un') div ?P = val u mod val v"
        using knuth_scaled [OF _ _ N(7) _ _ _ m(2) N(13) R tv N(11)] more N(3,4,10-12) m(1) by simp_all
      have "length (shr_words s n un') = n" "val (shr_words s n un') = val u mod val v"
        using shr_words_val [OF N(9,1), of un'] Q N(10,12) m(1) by simp_all
      then show ?thesis using D False more R Q N(3) by (simp add: val_pad)
    qed
  qed
qed

section \<open>Modular and signed arithmetic on limbs\<close>

text \<open>
  \<open>addmod\<close>, \<open>mulmod\<close> and \<open>sdivrem\<close> as the header composes them from the operations on limb arrays. A
  divisor of zero is the \<open>None\<close> of \<open>udivrem\<close>.
\<close>

definition and_words :: "u64 list \<Rightarrow> u64 list \<Rightarrow> u64 list" where
  "and_words xs ys = map2 (\<lambda>x y. x AND y) xs ys"

definition addmod_words :: "u64 \<Rightarrow> u64 list \<Rightarrow> u64 list \<Rightarrow> u64 list \<Rightarrow> u64 list option" where
  "addmod_words oob x y m =
     (if m ! 3 \<noteq> 0 \<and> x ! 3 \<le> m ! 3 \<and> y ! 3 \<le> m ! 3 then
        (let xd = subc_words x m False; xn = (if \<not> snd xd then fst xd else x);
             yd = subc_words y m False; yn = (if \<not> snd yd then fst yd else y);
             a = addc_words xn yn False;
             b = subc_words (fst a) m False
         in Some (if snd a \<or> \<not> snd b then fst b else fst a))
      else
        (let s = addc_words x y False;
             n = fst s @ [of_bool (snd s)]
         in map_option snd (udivrem oob n m)))"

definition mulmod_words :: "u64 \<Rightarrow> u64 list \<Rightarrow> u64 list \<Rightarrow> u64 list \<Rightarrow> u64 list option" where
  "mulmod_words oob x y m = map_option snd (udivrem oob (umul_words x y) m)"

definition sdivrem_words :: "u64 \<Rightarrow> u64 list \<Rightarrow> u64 list \<Rightarrow> (u64 list \<times> u64 list) option" where
  "sdivrem_words oob u v =
     (let sign_mask = limbs 4 (push_bit 255 1 :: uint256);
          u_is_neg = (\<not> eq_words (and_words u sign_mask) (replicate 4 0));
          v_is_neg = (\<not> eq_words (and_words v sign_mask) (replicate 4 0));
          u_abs = (if u_is_neg then neg_words u else u);
          v_abs = (if v_is_neg then neg_words v else v);
          q_is_neg = (u_is_neg \<noteq> v_is_neg)
      in map_option (\<lambda>(quot, rm). (if q_is_neg then neg_words quot else quot, if u_is_neg then neg_words rm else rm))
           (udivrem oob u_abs v_abs))"

section \<open>Refinement of the 256-bit words\<close>

lemma val4: "val (limbs 4 x) = unat x" for x :: uint256
  by (rule val_limbs) simp

lemma limbs4I: "length ws = 4 \<Longrightarrow> val ws = unat x \<Longrightarrow> ws = limbs 4 x" for x :: uint256
  by (rule limbs_eqI) simp_all

lemma limbs4_nth: "limbs 4 x ! 3 = limb x 3"
  by (simp add: limbs_def limb_def)

lemma B4: "(2 ^ 64) ^ 4 = (2 ^ 256 :: nat)"
  by simp

lemma unat_plus_mod: "unat (x + y) = (unat x + unat y) mod 2 ^ 256" for x y :: uint256
  by (simp add: unat_word_ariths)

lemma addc_words_refines: "addc_words (limbs 4 x) (limbs 4 y) False = (limbs 4 (fst (addc x y)), snd (addc x y))" for x y :: uint256
proof -
  obtain s c where r: "addc_words (limbs 4 x) (limbs 4 y) False = (s, c)" by fastforce
  have s: "length s = 4" "val s + 2 ^ 256 * of_bool c = unat x + unat y"
    using addc_words_val [OF _ r] unfolding B4 [symmetric] by (simp_all add: val4)
  have "val s < 2 ^ 256" using val_less [of s] unfolding s(1) B4 .
  then have "val s = (unat x + unat y) mod 2 ^ 256" "c \<longleftrightarrow> 2 ^ 256 \<le> unat x + unat y" using s(2) [symmetric] by (cases c; simp)+
  then show ?thesis unfolding r addc_def using limbs4I [OF s(1), of "x + y"] unat_plus_mod [of x y] addc_carry [of x y] by simp
qed

lemma subc_words_refines: "subc_words (limbs 4 x) (limbs 4 y) False = (limbs 4 (fst (subc x y)), snd (subc x y))" for x y :: uint256
proof -
  obtain s c where r: "subc_words (limbs 4 x) (limbs 4 y) False = (s, c)" by fastforce
  have s: "length s = 4" "val s + unat y = unat x + 2 ^ 256 * of_bool c"
    using subc_words_val [OF _ r] unfolding B4 [symmetric] by (simp_all add: val4)
  have "val s < 2 ^ 256" using val_less [of s] unfolding s(1) B4 .
  then have "val s = unat (x - y)" "c \<longleftrightarrow> x < y"
    using s(2) unat_less_256 [of x] unat_less_256 [of y] by (cases c; simp add: unat_sub_if' word_less_nat_alt)+
  then show ?thesis unfolding r subc_def using limbs4I [OF s(1), of "x - y"] by simp
qed

lemma mul_words_refines: "mul_words (limbs 4 x) (limbs 4 y) = limbs 4 (x * y)" for x y :: uint256
  using mul_words_val [of "limbs 4 x" "limbs 4 y"] by (intro limbs4I) (simp_all add: val4 unat_word_ariths)

lemma neg_words_refines: "neg_words (limbs 4 x) = limbs 4 (- x)" for x :: uint256
proof -
  have "limbs 4 x \<noteq> []" using length_limbs [of 4 x] by (metis list.size(3) zero_neq_numeral)
  from neg_words_val [OF this] show ?thesis using subc_words_refines [of 0 x] unat_sub_if' [of 0 x] unat_less_256 [of x]
    by (intro limbs4I) (auto simp: val4)
qed

lemma order_words_refine: "less_words (limbs 4 x) (limbs 4 y) \<longleftrightarrow> x < y" "eq_words (limbs 4 x) (limbs 4 y) \<longleftrightarrow> x = y" for x y :: uint256
proof -
  have "limbs 4 x = limbs 4 y \<longleftrightarrow> x = y" by (metis val4 word_unat_eq_iff)
  then show "less_words (limbs 4 x) (limbs 4 y) \<longleftrightarrow> x < y" "eq_words (limbs 4 x) (limbs 4 y) \<longleftrightarrow> x = y"
    by (simp_all add: less_words_iff eq_words_iff val4 word_less_nat_alt)
qed

text \<open>The division of a numerator of any length by a 256-bit divisor.\<close>

lemma udivrem_limbs:
  fixes m :: uint256
  assumes "m \<noteq> 0" "4 \<le> length u"
  shows "\<exists>q. udivrem oob u (limbs 4 m) = Some (q, limbs 4 (word_of_nat (val u mod unat m) :: uint256)) \<and> length q = length u \<and> val q = val u div unat m"
proof -
  have m: "0 < unat m" using assms by (simp add: unat_gt_0)
  have "u \<noteq> []" using assms(2) by auto
  then obtain q r where r: "udivrem oob u (limbs 4 m) = Some (q, r)" "length q = length u" "length r = 4" "val q = val u div unat m" "val r = val u mod unat m"
    using udivrem_val [of "limbs 4 m" u oob] assms(2) m by (auto simp: val4)
  have "unat (word_of_nat (val u mod unat m) :: uint256) = val u mod unat m"
    using mod_less_divisor [OF m, of "val u"] unat_less_256 [of m] by (subst unat_of_nat) simp
  then have "r = limbs 4 (word_of_nat (val u mod unat m) :: uint256)" using r by (intro limbs4I) simp_all
  then show ?thesis using r by blast
qed

lemma udivrem_refines: "y \<noteq> 0 \<Longrightarrow> udivrem oob (limbs 4 x) (limbs 4 y) = Some (limbs 4 (x div y), limbs 4 (x mod y))" for x y :: uint256
proof -
  assume "y \<noteq> 0"
  then obtain q where q: "udivrem oob (limbs 4 x) (limbs 4 y) = Some (q, limbs 4 (word_of_nat (unat x mod unat y) :: uint256))" "length q = 4" "val q = unat x div unat y"
    using udivrem_limbs [of y "limbs 4 x" oob] by (auto simp: val4)
  have "q = limbs 4 (x div y)" using q by (intro limbs4I) (simp_all add: unat_div_distrib)
  moreover have "(word_of_nat (unat x mod unat y) :: uint256) = x mod y" by (simp add: word_unat_eq_iff unat_mod_distrib unat_of_nat take_bit_nat_eq_self_iff flip: unat_mod_distrib)
  ultimately show ?thesis using q by simp
qed

lemma udivrem_zero: "udivrem oob u (limbs 4 (0 :: uint256)) = None"
proof -
  have "sig_words (limbs 4 (0 :: uint256)) 4 = 0" using sig_words_val [of 4 "limbs 4 (0 :: uint256)"] by (auto simp: val4)
  then show ?thesis by (simp add: udivrem_def)
qed

lemma mulmod_words_refines: "m \<noteq> 0 \<Longrightarrow> mulmod_words oob (limbs 4 x) (limbs 4 y) (limbs 4 m) = Some (limbs 4 (mulmod x y m))"
  using udivrem_limbs [of m "umul_words (limbs 4 x) (limbs 4 y)" oob] umul_words_val [of "limbs 4 x" "limbs 4 y"]
  by (auto simp: mulmod_words_def val4 mulmod_eq)

lemma addmod_words_refines:
  assumes m: "m \<noteq> 0"
  shows "addmod_words oob (limbs 4 x) (limbs 4 y) (limbs 4 m) = Some (limbs 4 (addmod x y m))"
proof (cases "limb m 3 \<noteq> 0 \<and> limb x 3 \<le> limb m 3 \<and> limb y 3 \<le> limb m 3")
  case True
  have i: "(if b then limbs 4 p else limbs 4 q) = limbs 4 (if b then p else q)" for b and p q :: uint256 by simp
  show ?thesis
    unfolding addmod_words_def addmod_def limbs4_nth subc_words_refines fst_conv snd_conv i Let_def addc_words_refines if_P [OF True]
    by (simp add: subc_def addc_def)
next
  case False
  let ?s = "addc_words (limbs 4 x) (limbs 4 y) False"
  have l: "length (fst ?s @ [of_bool (snd ?s)]) = 5" unfolding addc_words_refines by simp
  have k: "unat (of_bool b :: u64) = of_bool b" for b by (cases b) simp_all
  have "val (fst ?s @ [of_bool (snd ?s)]) = unat x + unat y"
    using addc_words_val [of "limbs 4 x" "limbs 4 y" False "fst ?s" "snd ?s"] by (simp add: val_snoc k val4)
  then show ?thesis using udivrem_limbs [OF m, of "fst ?s @ [of_bool (snd ?s)]" oob] l False addmod_eq [OF m, of x y]
    by (auto simp: addmod_words_def limbs4_nth Let_def)
qed

lemma sign_words: "\<not> eq_words (and_words (limbs 4 x) (limbs 4 (push_bit 255 1 :: uint256))) (replicate 4 0) \<longleftrightarrow> sint x < 0" for x :: uint256
proof -
  have "and_words (limbs 4 x) (limbs 4 y) = limbs 4 (x AND y)" for y :: uint256
    unfolding and_words_def limbs_def by (simp add: upt_rec unsigned_and_eq)
  moreover have "replicate 4 0 = limbs 4 (0 :: uint256)" by (intro limbs4I) simp_all
  ultimately show ?thesis by (simp only: order_words_refine sign_mask_neg)
qed

lemma sdivrem_words_refines:
  "y \<noteq> 0 \<Longrightarrow> sdivrem_words oob (limbs 4 x) (limbs 4 y) = Some (limbs 4 (fst (sdivrem x y)), limbs 4 (snd (sdivrem x y)))"
proof -
  assume y: "y \<noteq> 0"
  have i: "(if b then limbs 4 p else limbs 4 q) = limbs 4 (if b then p else q)" for b and p q :: uint256 by simp
  have "(if sint y < 0 then - y else y) \<noteq> 0" using y by simp
  from udivrem_refines [OF this] show ?thesis
    unfolding sdivrem_words_def sdivrem_def Let_def sign_words sign_mask_neg neg_words_refines i
    by (simp add: neg_words_refines)
qed

section \<open>Properties\<close>

text \<open>
  C18. The limb code refines the 256-bit integers the interpreter computes with: for all arguments,
  addition and subtraction with their carries, the comparisons, negation and multiplication on arrays of four limbs give the
  limbs of the word results; with a non-zero divisor, \<open>udivrem\<close> (table-driven reciprocals, division by one and two limbs and
  Knuth's algorithm) gives the limbs of quotient and remainder, \<open>sdivrem\<close> those of the signed ones, and
  \<open>addmod\<close> and \<open>mulmod\<close>, which divide numerators of five and eight limbs, those of the modular results. The
  limb read before the array for a zero numerator has no influence.
\<close>

theorem limb_code_refines_words:
  fixes x y m :: uint256
  assumes "y \<noteq> 0" "m \<noteq> 0"
  shows "addc_words (limbs 4 x) (limbs 4 y) False = (limbs 4 (x + y), 2 ^ 256 \<le> unat x + unat y) \<and>
    subc_words (limbs 4 x) (limbs 4 y) False = (limbs 4 (x - y), x < y) \<and>
    (less_words (limbs 4 x) (limbs 4 y) \<longleftrightarrow> x < y) \<and> (eq_words (limbs 4 x) (limbs 4 y) \<longleftrightarrow> x = y) \<and>
    neg_words (limbs 4 x) = limbs 4 (- x) \<and> mul_words (limbs 4 x) (limbs 4 y) = limbs 4 (x * y) \<and>
    udivrem oob (limbs 4 x) (limbs 4 y) = Some (limbs 4 (x div y), limbs 4 (x mod y)) \<and>
    sdivrem_words oob (limbs 4 x) (limbs 4 y) = Some (limbs 4 (fst (sdivrem x y)), limbs 4 (snd (sdivrem x y))) \<and>
    addmod_words oob (limbs 4 x) (limbs 4 y) (limbs 4 m) = Some (limbs 4 (addmod x y m)) \<and>
    mulmod_words oob (limbs 4 x) (limbs 4 y) (limbs 4 m) = Some (limbs 4 (mulmod x y m))"
proof (intro conjI)
  show "addc_words (limbs 4 x) (limbs 4 y) False = (limbs 4 (x + y), 2 ^ 256 \<le> unat x + unat y)"
    unfolding addc_words_refines addc_def by (simp only: fst_conv snd_conv addc_carry)
  show "subc_words (limbs 4 x) (limbs 4 y) False = (limbs 4 (x - y), x < y)" unfolding subc_words_refines subc_def by simp
qed (rule order_words_refine neg_words_refines mul_words_refines udivrem_refines sdivrem_words_refines addmod_words_refines mulmod_words_refines assms)+

theorem limb_code_refines_words_witness:
  "udivrem 0 (limbs 4 (2 ^ 200 + 7 :: uint256)) (limbs 4 (2 ^ 200 :: uint256)) = Some (limbs 4 (1 :: uint256), limbs 4 (7 :: uint256))"
proof -
  have "(2 ^ 200 :: uint256) \<noteq> 0" by simp
  from limb_code_refines_words [OF this this, of "2 ^ 200 + 7" 0] have "udivrem 0 (limbs 4 (2 ^ 200 + 7 :: uint256)) (limbs 4 (2 ^ 200 :: uint256)) =
    Some (limbs 4 ((2 ^ 200 + 7 :: uint256) div 2 ^ 200), limbs 4 ((2 ^ 200 + 7 :: uint256) mod 2 ^ 200))" by blast
  then show ?thesis by simp
qed

end
