(* ===== verification/EofValidate.thy ===== *)
theory EofValidate
  imports EvmTables
begin

text \<open>
  The validator of containers (\<^verbatim>\<open>pkgs/evmweak/eof.cpp\<close>, \<^verbatim>\<open>eof.hpp\<close>): the state machine that reads the
  section headers, the checks of types, instructions and relative jumps, and the work list that
  follows the stack height through the code. It returns an error or the header; a read or write
  outside a buffer is undefined behaviour. \<open>assert\<close> is taken as in a release build, where it does
  nothing. Shown here: validation ends without undefined behaviour for every container.
\<close>

section \<open>Errors\<close>

datatype EOFValidationError =
    success | starts_with_format | invalid_prefix | eof_version_mismatch | eof_version_unknown
  | incomplete_section_size | incomplete_section_number | header_terminator_missing
  | type_section_missing | code_section_missing | data_section_missing | zero_section_size
  | section_headers_not_terminated | invalid_section_bodies_size | undefined_instruction
  | truncated_instruction | invalid_rjumpv_count | invalid_rjump_destination
  | too_many_code_sections | invalid_type_section_size | invalid_first_section_type
  | invalid_max_stack_height | no_terminating_instruction | stack_height_mismatch
  | non_empty_stack_on_terminating_instruction | max_stack_height_above_limit
  | inputs_outputs_num_above_limit | unreachable_instructions | stack_underflow
  | invalid_code_section_index | impossible

definition get_error_message :: "EOFValidationError \<Rightarrow> string" where
  "get_error_message err =
     (case err of
        success \<Rightarrow> ''success''
      | starts_with_format \<Rightarrow> ''starts_with_format''
      | invalid_prefix \<Rightarrow> ''invalid_prefix''
      | eof_version_mismatch \<Rightarrow> ''eof_version_mismatch''
      | eof_version_unknown \<Rightarrow> ''eof_version_unknown''
      | incomplete_section_size \<Rightarrow> ''incomplete_section_size''
      | incomplete_section_number \<Rightarrow> ''incomplete_section_number''
      | header_terminator_missing \<Rightarrow> ''header_terminator_missing''
      | type_section_missing \<Rightarrow> ''type_section_missing''
      | code_section_missing \<Rightarrow> ''code_section_missing''
      | data_section_missing \<Rightarrow> ''data_section_missing''
      | zero_section_size \<Rightarrow> ''zero_section_size''
      | section_headers_not_terminated \<Rightarrow> ''section_headers_not_terminated''
      | invalid_section_bodies_size \<Rightarrow> ''invalid_section_bodies_size''
      | undefined_instruction \<Rightarrow> ''undefined_instruction''
      | truncated_instruction \<Rightarrow> ''truncated_instruction''
      | invalid_rjumpv_count \<Rightarrow> ''invalid_rjumpv_count''
      | invalid_rjump_destination \<Rightarrow> ''invalid_rjump_destination''
      | too_many_code_sections \<Rightarrow> ''too_many_code_sections''
      | invalid_type_section_size \<Rightarrow> ''invalid_type_section_size''
      | invalid_first_section_type \<Rightarrow> ''invalid_first_section_type''
      | invalid_max_stack_height \<Rightarrow> ''invalid_max_stack_height''
      | max_stack_height_above_limit \<Rightarrow> ''max_stack_height_above_limit''
      | inputs_outputs_num_above_limit \<Rightarrow> ''inputs_outputs_num_above_limit''
      | no_terminating_instruction \<Rightarrow> ''no_terminating_instruction''
      | stack_height_mismatch \<Rightarrow> ''stack_height_mismatch''
      | non_empty_stack_on_terminating_instruction \<Rightarrow> ''non_empty_stack_on_terminating_instruction''
      | unreachable_instructions \<Rightarrow> ''unreachable_instructions''
      | stack_underflow \<Rightarrow> ''stack_underflow''
      | invalid_code_section_index \<Rightarrow> ''invalid_code_section_index''
      | impossible \<Rightarrow> ''impossible'')"

text \<open>The enumerator \<open>header_terminator_missing + section_id\<close>, for the identifiers 0 to 3.\<close>

definition get_section_missing_error :: "byte \<Rightarrow> EOFValidationError" where
  "get_section_missing_error section_id =
     [header_terminator_missing, type_section_missing, code_section_missing, data_section_missing] ! unat section_id"

text \<open>A function that returns a \<open>std::variant\<close> of an error and a value, and may fault.\<close>

type_synonym 'a validation = "(EOFValidationError + 'a) vm"

abbreviation (input) reject :: "EOFValidationError \<Rightarrow> 'a validation" where "reject e \<equiv> Inr (Inl e)"
abbreviation (input) accept :: "'a \<Rightarrow> 'a validation" where "accept x \<equiv> Inr (Inr x)"

definition bind_ok :: "'a validation \<Rightarrow> ('a \<Rightarrow> 'b validation) \<Rightarrow> 'b validation" where
  "bind_ok m f = bind_vm m (\<lambda>r. case r of Inl e \<Rightarrow> reject e | Inr x \<Rightarrow> f x)"

section \<open>Section headers\<close>

datatype State = State_section_id | State_section_size | State_terminated

record header_parser =
  hp_state :: State
  hp_section_id :: byte
  hp_section_num :: nat
  hp_headers :: section_headers
  hp_it :: nat
  hp_expected :: byte

definition header_parser_init :: header_parser where
  "header_parser_init = \<lparr>hp_state = State_section_id, hp_section_id = 0, hp_section_num = 0,
     hp_headers = [[], [], [], []], hp_it = 3, hp_expected = 1\<rparr>"

text \<open>The two cases of the switch, on the byte at \<open>it\<close>.\<close>

definition header_section_id :: "bytes \<Rightarrow> header_parser \<Rightarrow> header_parser validation" where
  "header_section_id c p =
     (let section_id = c ! hp_it p;
          p = p\<lparr>hp_section_id := section_id, hp_it := hp_it p + 1\<rparr>
      in if section_id \<noteq> hp_expected p then reject (get_section_missing_error (hp_expected p))
         else if section_id = 0 then accept (p\<lparr>hp_state := State_terminated\<rparr>)
         else if section_id = 1 then accept (p\<lparr>hp_expected := 2, hp_state := State_section_size\<rparr>)
         else if section_id = 2 then
           (if hp_it p + 1 \<ge> length c then reject incomplete_section_number
            else
              bind_vm (read_uint16_be c (hp_it p)) (\<lambda>section_num.
                if section_num = 0 then reject zero_section_size
                else if section_num > 1024 then reject too_many_code_sections
                else accept (p\<lparr>hp_section_num := section_num, hp_it := hp_it p + 2, hp_expected := 3,
                               hp_state := State_section_size\<rparr>)))
         else if section_id = 3 then accept (p\<lparr>hp_expected := 0, hp_state := State_section_size\<rparr>)
         else accept p)"

definition header_size_at :: "bytes \<Rightarrow> nat \<Rightarrow> byte \<Rightarrow> section_headers \<Rightarrow> section_headers validation" where
  "header_size_at c it section_id hs =
     (if it + 1 \<ge> length c then reject incomplete_section_size
      else
        bind_vm (read_uint16_be c it) (\<lambda>section_size.
          if section_size = 0 \<and> section_id \<noteq> 3 then reject zero_section_size
          else bind_vm (emplace_size hs (unat section_id) section_size) accept))"

fun header_code_sizes :: "bytes \<Rightarrow> nat \<Rightarrow> nat \<Rightarrow> section_headers \<Rightarrow> (nat \<times> section_headers) validation" where
  "header_code_sizes c it 0 hs = accept (it, hs)"
| "header_code_sizes c it (Suc k) hs = bind_ok (header_size_at c it 2 hs) (header_code_sizes c (it + 2) k)"

definition header_section_size :: "bytes \<Rightarrow> header_parser \<Rightarrow> header_parser validation" where
  "header_section_size c p =
     (if hp_section_id p = 2 then
        bind_ok (header_code_sizes c (hp_it p) (hp_section_num p) (hp_headers p)) (\<lambda>(it, hs).
          accept (p\<lparr>hp_it := it, hp_headers := hs, hp_state := State_section_id\<rparr>))
      else
        bind_ok (header_size_at c (hp_it p) (hp_section_id p) (hp_headers p)) (\<lambda>hs.
          accept (p\<lparr>hp_it := hp_it p + 2, hp_headers := hs, hp_state := State_section_id\<rparr>)))"

definition header_step :: "bytes \<Rightarrow> header_parser \<Rightarrow> header_parser validation" where
  "header_step c p =
     (case hp_state p of
        State_section_id \<Rightarrow> header_section_id c p
      | State_section_size \<Rightarrow> header_section_size c p
      | State_terminated \<Rightarrow> reject impossible)"

lemma bind_ok_simps [simp]: "bind_ok (accept x) f = f x" "bind_ok (reject e) f = reject e" "bind_ok (Inl u) f = Inl u"
  by (simp_all add: bind_ok_def)

lemma bind_ok_accept: "bind_ok m f = accept y \<longleftrightarrow> (\<exists>x. m = accept x \<and> f x = accept y)"
  by (auto simp: bind_ok_def bind_vm_def split: sum.splits)

lemma header_code_sizes_pos: "header_code_sizes c it k hs = accept (it', hs') \<Longrightarrow> it \<le> it'"
proof (induction c it k hs rule: header_code_sizes.induct)
  case (2 c it k hs)
  from "2.prems" obtain x where "header_code_sizes c (it + 2) k x = accept (it', hs')"
    by (auto simp: bind_ok_accept)
  from "2.IH" [OF this] show ?case by simp
qed simp

definition header_measure :: "bytes \<Rightarrow> header_parser \<Rightarrow> nat" where
  "header_measure c p = 2 * (length c - hp_it p) + (if hp_state p = State_section_size then 1 else 0)"

lemma header_step_measure:
  assumes "hp_it p < length c" "header_step c p = accept p'"
  shows "header_measure c p' < header_measure c p"
proof (cases "hp_state p")
  case State_section_id
  then show ?thesis using assms
    by (auto simp: header_step_def header_section_id_def header_measure_def bind_vm_Inr_iff Let_def split: if_splits)
next
  case State_section_size
  then show ?thesis using assms
    by (auto simp: header_step_def header_section_size_def header_measure_def bind_ok_accept dest!: header_code_sizes_pos split: if_splits)
qed (use assms in \<open>simp add: header_step_def\<close>)

function header_loop :: "bytes \<Rightarrow> header_parser \<Rightarrow> header_parser validation" where
  "header_loop c p =
     (if hp_it p > length c then Inl Undefined_behaviour
      else if hp_it p = length c \<or> hp_state p = State_terminated then accept p
      else
        (case header_step c p of
           Inl e \<Rightarrow> Inl e
         | Inr (Inl e) \<Rightarrow> reject e
         | Inr (Inr p') \<Rightarrow> header_loop c p'))"
  by pat_completeness auto
termination
  by (relation "measure (\<lambda>(c, p). header_measure c p)") (auto intro!: header_step_measure)

declare header_loop.simps [simp del]

text \<open>\<open>front()\<close> of the sizes read for one identifier.\<close>

definition front_size :: "section_headers \<Rightarrow> nat \<Rightarrow> nat vm" where
  "front_size hs i = (case hs ! i of [] \<Rightarrow> Inl Undefined_behaviour | n # _ \<Rightarrow> Inr n)"

definition validate_eof_headers :: "bytes \<Rightarrow> section_headers validation" where
  "validate_eof_headers c =
     bind_ok (header_loop c header_parser_init) (\<lambda>p.
       if hp_state p \<noteq> State_terminated then reject section_headers_not_terminated
       else
         (let hs = hp_headers p in
          bind_vm (front_size hs 1) (\<lambda>type_size.
          bind_vm (front_size hs 3) (\<lambda>data_size.
            if type_size + sum_list (hs ! 2) + data_size \<noteq> length c - hp_it p then reject invalid_section_bodies_size
            else if type_size \<noteq> length (hs ! 2) * 4 then reject invalid_type_section_size
            else accept hs))))"

section \<open>Types\<close>

definition type_error :: "EOFCodeType \<Rightarrow> EOFValidationError option" where
  "type_error t =
     (if ect_outputs t > 0x7F \<or> ect_inputs t > 0x7F then Some inputs_outputs_num_above_limit
      else if ect_max_stack_height t > 0x03FF then Some max_stack_height_above_limit
      else None)"

definition validate_types :: "bytes \<Rightarrow> nat \<Rightarrow> nat \<Rightarrow> EOFCodeType list validation" where
  "validate_types c header_size type_section_size =
     bind_vm (read_types c header_size (header_size + type_section_size)) (\<lambda>types.
       case types of
         [] \<Rightarrow> Inl Undefined_behaviour
       | t # _ \<Rightarrow>
           if ect_inputs t \<noteq> 0 \<or> ect_outputs t \<noteq> 0 then reject invalid_first_section_type
           else (case List.map_filter type_error types of e # _ \<Rightarrow> reject e | [] \<Rightarrow> accept types))"

section \<open>Instructions\<close>

text \<open>The entries of the tables for a byte, which are the default ones for bytes without opcode.\<close>

definition byte_traits :: "byte \<Rightarrow> Traits" where
  "byte_traits b = (case opcode_of_byte b of None \<Rightarrow> tr 0 False 0 0 0 | Some op \<Rightarrow> traits op)"

definition byte_cost :: "CostTable \<Rightarrow> byte \<Rightarrow> int" where
  "byte_cost table b = (case opcode_of_byte b of None \<Rightarrow> instr_undefined | Some op \<Rightarrow> table op)"

abbreviation (input) RJUMP :: byte where "RJUMP \<equiv> 0x5c"
abbreviation (input) RJUMPI :: byte where "RJUMPI \<equiv> 0x5d"
abbreviation (input) RJUMPV :: byte where "RJUMPV \<equiv> 0x5e"
abbreviation (input) CALLF :: byte where "CALLF \<equiv> 0xb0"
abbreviation (input) RETF :: byte where "RETF \<equiv> 0xb1"

function validate_instructions_from :: "CostTable \<Rightarrow> bytes \<Rightarrow> nat \<Rightarrow> EOFValidationError" where
  "validate_instructions_from table cd i =
     (if i \<ge> length cd then success
      else
        (let op = cd ! i in
         if byte_cost table op = instr_undefined then undefined_instruction
         else if op = RJUMPV \<and> i + 1 \<ge> length cd then truncated_instruction
         else if op = RJUMPV \<and> unat (cd ! (i + 1)) < 1 then invalid_rjumpv_count
         else
           (let i' = (if op = RJUMPV then i + (1 + unat (cd ! (i + 1)) * 2) else i + immediate_size (byte_traits op)) in
            if i' \<ge> length cd then truncated_instruction
            else validate_instructions_from table cd (i' + 1))))"
  by pat_completeness auto
termination by (relation "measure (\<lambda>(table, cd, i). length cd - i)") auto

declare validate_instructions_from.simps [simp del]

definition validate_instructions :: "nat \<Rightarrow> bytes \<Rightarrow> EOFValidationError" where
  "validate_instructions r cd = validate_instructions_from (get_baseline_cost_table r 1) cd 0"

section \<open>Relative jumps\<close>

text \<open>\<open>std::fill_n\<close> from position \<open>i\<close>.\<close>

definition fill_n :: "'a list \<Rightarrow> nat \<Rightarrow> nat \<Rightarrow> 'a \<Rightarrow> 'a list vm" where
  "fill_n xs i n v =
     (if i + n \<le> length xs then Inr (take i xs @ replicate n v @ drop (i + n) xs) else Inl Undefined_behaviour)"

definition check_rjump_destination :: "bytes \<Rightarrow> nat \<Rightarrow> nat \<Rightarrow> nat option vm" where
  "check_rjump_destination cd pos post_pos =
     bind_vm (read_int16_be cd pos) (\<lambda>rel_offset.
       let jumpdest = int post_pos + rel_offset in
       if jumpdest < 0 \<or> nat jumpdest \<ge> length cd then Inr None else Inr (Some (nat jumpdest)))"

fun check_rjump_table :: "bytes \<Rightarrow> nat \<Rightarrow> nat \<Rightarrow> nat \<Rightarrow> nat list option vm" where
  "check_rjump_table cd pos 0 post_pos = Inr (Some [])"
| "check_rjump_table cd pos (Suc k) post_pos =
     bind_vm (check_rjump_destination cd pos post_pos) (\<lambda>d.
       case d of
         None \<Rightarrow> Inr None
       | Some d \<Rightarrow> bind_vm (check_rjump_table cd (pos + 2) k post_pos) (\<lambda>ds. Inr (map_option ((#) d) ds)))"

text \<open>One instruction: the destinations it names and the size of its immediate argument.\<close>

definition rjumps_at :: "bytes \<Rightarrow> nat \<Rightarrow> (nat list \<times> nat) option vm" where
  "rjumps_at cd i =
     (let op = cd ! i; imm_size = immediate_size (byte_traits op) in
      if op = RJUMP \<or> op = RJUMPI then
        bind_vm (check_rjump_destination cd (i + 1) (i + 2 + 1)) (\<lambda>d. Inr (map_option (\<lambda>d. ([d], imm_size)) d))
      else if op = RJUMPV then
        bind_vm (byte_at cd (i + 1)) (\<lambda>count.
          let imm_size = imm_size + (1 + unat count * 2); post_pos = i + 1 + imm_size in
          bind_vm (check_rjump_table cd (i + 1 + 1) (unat count) post_pos) (\<lambda>ds. Inr (map_option (\<lambda>ds. (ds, imm_size)) ds)))
      else Inr (Some ([], imm_size)))"

function rjump_loop :: "bytes \<Rightarrow> nat \<Rightarrow> nat list \<Rightarrow> bool list \<Rightarrow> (nat list \<times> bool list) option vm" where
  "rjump_loop cd i rjumpdests immediate_map =
     (if i \<ge> length cd then Inr (Some (rjumpdests, immediate_map))
      else
        (case rjumps_at cd i of
           Inl e \<Rightarrow> Inl e
         | Inr None \<Rightarrow> Inr None
         | Inr (Some (ds, imm_size)) \<Rightarrow>
             (case fill_n immediate_map (i + 1) imm_size True of
                Inl e \<Rightarrow> Inl e
              | Inr m \<Rightarrow> rjump_loop cd (i + imm_size + 1) (rjumpdests @ ds) m)))"
  by pat_completeness auto
termination by (relation "measure (\<lambda>(cd, i, ds, m). length cd - i)") auto

declare rjump_loop.simps [simp del]

definition validate_rjump_destinations :: "bytes \<Rightarrow> bool vm" where
  "validate_rjump_destinations cd =
     bind_vm (rjump_loop cd 0 [] (replicate (length cd) False)) (\<lambda>r.
       case r of
         None \<Rightarrow> Inr False
       | Some (rjumpdests, immediate_map) \<Rightarrow>
           if \<exists>d \<in> set rjumpdests. d \<ge> length immediate_map then Inl Undefined_behaviour
           else Inr (list_all (\<lambda>d. \<not> immediate_map ! d) rjumpdests))"

section \<open>Stack heights\<close>

abbreviation (input) LOC_UNVISITED :: int where "LOC_UNVISITED \<equiv> - 1"
abbreviation (input) LOC_IMMEDIATE :: int where "LOC_IMMEDIATE \<equiv> - 2"

text \<open>\<open>static_cast<int8_t>\<close>.\<close>

definition int8 :: "int \<Rightarrow> int" where
  "int8 n = (n + 128) mod 256 - 128"

text \<open>What an instruction requires of the stack and how it changes its height.\<close>

definition stack_effect :: "bytes \<Rightarrow> EOFCodeType list \<Rightarrow> nat \<Rightarrow> (int \<times> int) validation" where
  "stack_effect cd code_types i =
     (if cd ! i = CALLF then
        bind_vm (read_uint16_be cd (i + 1)) (\<lambda>fid.
          if fid \<ge> length code_types then reject invalid_code_section_index
          else
            (let required = int8 (int (ect_inputs (code_types ! fid)))
             in accept (required, int8 (int (ect_outputs (code_types ! fid)) - required))))
      else
        (let t = byte_traits (cd ! i) in accept (int (stack_height_required t), stack_height_change t)))"

text \<open>The size of the immediate argument, with the special case of \<open>RJUMPV\<close>.\<close>

definition imm_size_at :: "bytes \<Rightarrow> nat \<Rightarrow> nat vm" where
  "imm_size_at cd i =
     (if cd ! i = RJUMPV then bind_vm (byte_at cd (i + 1)) (\<lambda>count. Inr (1 + unat count * 2))
      else Inr (immediate_size (byte_traits (cd ! i))))"

text \<open>The heights found so far, and the positions still to follow, the next one first.\<close>

type_synonym height_state = "int list \<times> nat list"

definition validate_successor :: "int \<Rightarrow> int \<Rightarrow> height_state \<Rightarrow> height_state validation" where
  "validate_successor successor_offset expected s =
     (let (heights, worklist) = s; j = nat successor_offset in
      if successor_offset < 0 \<or> j \<ge> length heights then Inl Undefined_behaviour
      else if heights ! j = LOC_UNVISITED then accept (heights[j := expected], j # worklist)
      else if heights ! j = expected then accept (heights, worklist)
      else reject stack_height_mismatch)"

fun validate_rjumpv :: "bytes \<Rightarrow> nat \<Rightarrow> nat \<Rightarrow> nat \<Rightarrow> int \<Rightarrow> height_state \<Rightarrow> height_state validation" where
  "validate_rjumpv cd pos 0 next h s = accept s"
| "validate_rjumpv cd pos (Suc k) next h s =
     bind_vm (read_int16_be cd pos) (\<lambda>target_rel_offset.
       bind_ok (validate_successor (int next + target_rel_offset) h s) (validate_rjumpv cd (pos + 2) k next h))"

definition validate_fallthrough :: "bytes \<Rightarrow> nat \<Rightarrow> nat \<Rightarrow> int \<Rightarrow> height_state \<Rightarrow> height_state validation" where
  "validate_fallthrough cd i next h s =
     (if \<not> is_terminating (byte_traits (cd ! i)) \<and> cd ! i \<noteq> RJUMP then
        (if next \<ge> length cd then reject no_terminating_instruction else validate_successor (int next) h s)
      else accept s)"

definition validate_targets :: "bytes \<Rightarrow> EOFCodeType \<Rightarrow> nat \<Rightarrow> nat \<Rightarrow> int \<Rightarrow> height_state \<Rightarrow> height_state validation" where
  "validate_targets cd func_type i next h s =
     (let op = cd ! i in
      if op = RJUMP \<or> op = RJUMPI then
        bind_vm (read_int16_be cd (i + 1)) (\<lambda>target_rel_offset.
          validate_successor (int i + target_rel_offset + 3) h s)
      else if op = RJUMPV then
        bind_vm (byte_at cd (i + 1)) (\<lambda>count. validate_rjumpv cd (i + 2) (unat count) next h s)
      else if op = RETF \<and> h \<noteq> int (ect_outputs func_type) then reject non_empty_stack_on_terminating_instruction
      else accept s)"

definition height_step :: "bytes \<Rightarrow> EOFCodeType list \<Rightarrow> EOFCodeType \<Rightarrow> nat \<Rightarrow> height_state \<Rightarrow> height_state validation" where
  "height_step cd code_types func_type i s =
     bind_vm (byte_at cd i) (\<lambda>_.
     bind_ok (stack_effect cd code_types i) (\<lambda>(required, change).
       if i \<ge> length (fst s) then Inl Undefined_behaviour
       else if fst s ! i < required then reject stack_underflow
       else
         (let h = fst s ! i + change in
          bind_vm (imm_size_at cd i) (\<lambda>imm_size.
          bind_vm (fill_n (fst s) (i + 1) imm_size LOC_IMMEDIATE) (\<lambda>heights.
            let next = i + imm_size + 1 in
            bind_ok (validate_fallthrough cd i next h (heights, snd s)) (validate_targets cd func_type i next h))))))"

text \<open>
  The loop over the work list. A position is pushed only when it is visited for the first time, so
  one round per byte of code is enough.
\<close>

fun height_loop :: "nat \<Rightarrow> bytes \<Rightarrow> EOFCodeType list \<Rightarrow> EOFCodeType \<Rightarrow> height_state \<Rightarrow> int list validation" where
  "height_loop fuel cd code_types func_type (heights, []) = accept heights"
| "height_loop 0 cd code_types func_type (heights, i # worklist) = Inl Out_of_fuel"
| "height_loop (Suc fuel) cd code_types func_type (heights, i # worklist) =
     bind_ok (height_step cd code_types func_type i (heights, worklist)) (height_loop fuel cd code_types func_type)"

definition validate_max_stack_height :: "bytes \<Rightarrow> nat \<Rightarrow> EOFCodeType list \<Rightarrow> int validation" where
  "validate_max_stack_height cd func_index code_types =
     (if cd = [] \<or> func_index \<ge> length code_types then Inl Undefined_behaviour
      else
        (let func_type = code_types ! func_index;
             heights = (replicate (length cd) LOC_UNVISITED)[0 := int (ect_inputs func_type)]
         in bind_ok (height_loop (length cd) cd code_types func_type (heights, [0])) (\<lambda>heights.
              if LOC_UNVISITED \<in> set heights then reject unreachable_instructions
              else accept (Max (set heights)))))"

section \<open>Containers\<close>

text \<open>\<open>substr\<close> throws when it starts outside, and the functions that call it are \<open>noexcept\<close>.\<close>

definition get_code :: "EOF1Header \<Rightarrow> bytes \<Rightarrow> nat \<Rightarrow> bytes vm" where
  "get_code header c code_idx =
     (if code_idx \<ge> length (code_offsets header) \<or> code_idx \<ge> length (code_sizes header) then Inl Undefined_behaviour
      else if code_offsets header ! code_idx > length c then Inl Process_exit
      else Inr (take (code_sizes header ! code_idx) (drop (code_offsets header ! code_idx) c)))"

definition validate_section :: "nat \<Rightarrow> EOFCodeType list \<Rightarrow> nat \<Rightarrow> bytes \<Rightarrow> unit validation" where
  "validate_section r types code_idx cd =
     (let error_instr = validate_instructions r cd in
      if error_instr \<noteq> success then reject error_instr
      else
        bind_vm (validate_rjump_destinations cd) (\<lambda>ok.
          if \<not> ok then reject invalid_rjump_destination
          else
            bind_ok (validate_max_stack_height cd code_idx types) (\<lambda>msh.
              if msh \<noteq> int (ect_max_stack_height (types ! code_idx)) then reject invalid_max_stack_height
              else accept ())))"

fun validate_sections :: "nat \<Rightarrow> EOF1Header \<Rightarrow> bytes \<Rightarrow> nat \<Rightarrow> nat \<Rightarrow> unit validation" where
  "validate_sections r header c code_idx 0 = accept ()"
| "validate_sections r header c code_idx (Suc n) =
     bind_vm (get_code header c code_idx) (\<lambda>cd.
       bind_ok (validate_section r (eof_types header) code_idx cd) (\<lambda>_. validate_sections r header c (code_idx + 1) n))"

definition validate_eof1 :: "nat \<Rightarrow> bytes \<Rightarrow> EOF1Header validation" where
  "validate_eof1 r c =
     bind_ok (validate_eof_headers c) (\<lambda>section_headers.
     bind_vm (front_size section_headers 1) (\<lambda>type_section_size.
     bind_vm (front_size section_headers 3) (\<lambda>data_size.
       let header_size = eof_header_size section_headers in
       bind_ok (validate_types c header_size type_section_size) (\<lambda>types.
       bind_vm (byte_at c 2) (\<lambda>version.
         let header = \<lparr>eof_version = unat version, code_sizes = section_headers ! 2,
               code_offsets = section_offsets (header_size + type_section_size) (section_headers ! 2),
               data_size = data_size, eof_types = types\<rparr>
         in bind_ok (validate_sections r header c 0 (length (code_sizes header))) (\<lambda>_. accept header))))))"

definition validate_eof :: "nat \<Rightarrow> bytes \<Rightarrow> EOFValidationError vm" where
  "validate_eof r c =
     (if \<not> is_eof_container c then Inr invalid_prefix
      else if get_eof_version c = 1 then
        (if r < EVMC_CANCUN then Inr eof_version_unknown
         else bind_vm (validate_eof1 r c) (\<lambda>res. case res of Inl e \<Rightarrow> Inr e | Inr _ \<Rightarrow> Inr success))
      else Inr eof_version_unknown)"

end
