(* ===== verification/EofTyping.thy ===== *)
theory EofTyping
  imports EofValidate
begin

text \<open>
  What the validator of containers (\<open>EofValidate\<close>) decides: a typing of code by stack heights, stated
  without the work list, and the proof that a code section is accepted exactly when it has one.
\<close>

section \<open>Instructions of a code section\<close>

text \<open>The positions at which an instruction starts when the code is read from its beginning.\<close>

definition instr_size :: "bytes \<Rightarrow> nat \<Rightarrow> nat" where
  "instr_size cd i =
     Suc (if cd ! i = RJUMPV then 1 + unat (cd ! (i + 1)) * 2 else immediate_size (byte_traits (cd ! i)))"

definition next_start :: "bytes \<Rightarrow> nat \<Rightarrow> nat" where
  "next_start cd i = i + instr_size cd i"

definition instr_start :: "bytes \<Rightarrow> nat \<Rightarrow> bool" where
  "instr_start cd p \<longleftrightarrow> (\<exists>n. (next_start cd ^^ n) 0 = p)"

text \<open>The numbers in immediate arguments, and the positions that control can go to.\<close>

definition u16_at :: "bytes \<Rightarrow> nat \<Rightarrow> nat" where
  "u16_at cd p = unat (cd ! p) * 256 + unat (cd ! (p + 1))"

definition s16_at :: "bytes \<Rightarrow> nat \<Rightarrow> int" where
  "s16_at cd p = (if u16_at cd p < 32768 then int (u16_at cd p) else int (u16_at cd p) - 65536)"

definition jump_targets :: "bytes \<Rightarrow> nat \<Rightarrow> int list" where
  "jump_targets cd i =
     (if cd ! i = RJUMP \<or> cd ! i = RJUMPI then [int (next_start cd i) + s16_at cd (i + 1)]
      else if cd ! i = RJUMPV then
        map (\<lambda>k. int (next_start cd i) + s16_at cd (i + 2 + 2 * k)) [0..<unat (cd ! (i + 1))]
      else [])"

definition falls_through :: "bytes \<Rightarrow> nat \<Rightarrow> bool" where
  "falls_through cd i \<longleftrightarrow> \<not> is_terminating (byte_traits (cd ! i)) \<and> cd ! i \<noteq> RJUMP"

definition successors :: "bytes \<Rightarrow> nat \<Rightarrow> int list" where
  "successors cd i = (if falls_through cd i then [int (next_start cd i)] else []) @ jump_targets cd i"

inductive flow_reach :: "bytes \<Rightarrow> nat \<Rightarrow> bool" for cd where
  flow_start: "flow_reach cd 0"
| flow_step: "flow_reach cd i \<Longrightarrow> t \<in> set (successors cd i) \<Longrightarrow> flow_reach cd (nat t)"

section \<open>Typing by stack heights\<close>

definition callee_ok :: "EOFCodeType list \<Rightarrow> bytes \<Rightarrow> nat \<Rightarrow> bool" where
  "callee_ok types cd i \<longleftrightarrow> (cd ! i = CALLF \<longrightarrow> u16_at cd (i + 1) < length types)"

definition height_required :: "EOFCodeType list \<Rightarrow> bytes \<Rightarrow> nat \<Rightarrow> int" where
  "height_required types cd i =
     int (if cd ! i = CALLF then ect_inputs (types ! u16_at cd (i + 1)) else stack_height_required (byte_traits (cd ! i)))"

definition height_change :: "EOFCodeType list \<Rightarrow> bytes \<Rightarrow> nat \<Rightarrow> int" where
  "height_change types cd i =
     (if cd ! i = CALLF then
        int (ect_outputs (types ! u16_at cd (i + 1))) - int (ect_inputs (types ! u16_at cd (i + 1)))
      else stack_height_change (byte_traits (cd ! i)))"

definition typed_at :: "EOFCodeType list \<Rightarrow> EOFCodeType \<Rightarrow> bytes \<Rightarrow> (nat \<Rightarrow> int) \<Rightarrow> nat \<Rightarrow> bool" where
  "typed_at types ft cd H i \<longleftrightarrow>
     callee_ok types cd i \<and> height_required types cd i \<le> H i \<and>
     (\<forall>t \<in> set (successors cd i). 0 \<le> t \<and> nat t < length cd \<and> instr_start cd (nat t) \<and>
        H (nat t) = H i + height_change types cd i) \<and>
     (cd ! i = RETF \<longrightarrow> H i + height_change types cd i = int (ect_outputs ft))"

definition heights_ok :: "EOFCodeType list \<Rightarrow> EOFCodeType \<Rightarrow> bytes \<Rightarrow> (nat \<Rightarrow> int) \<Rightarrow> bool" where
  "heights_ok types ft cd H \<longleftrightarrow>
     H 0 = int (ect_inputs ft) \<and> (\<forall>i < length cd. instr_start cd i \<longrightarrow> typed_at types ft cd H i)"

text \<open>
  A code section is well typed: its instructions are complete and defined, each can be reached, and
  there is an assignment of heights, whose greatest is the one that the type declares.
\<close>

definition instrs_ok :: "CostTable \<Rightarrow> bytes \<Rightarrow> bool" where
  "instrs_ok table cd \<longleftrightarrow>
     (\<forall>i < length cd. instr_start cd i \<longrightarrow> byte_cost table (cd ! i) \<noteq> instr_undefined \<and>
        next_start cd i \<le> length cd \<and> (cd ! i = RJUMPV \<longrightarrow> 1 \<le> unat (cd ! (i + 1))))"

definition jumps_ok :: "bytes \<Rightarrow> bool" where
  "jumps_ok cd \<longleftrightarrow>
     (\<forall>i < length cd. instr_start cd i \<longrightarrow>
        (\<forall>t \<in> set (jump_targets cd i). 0 \<le> t \<and> nat t < length cd \<and> instr_start cd (nat t)))"

definition max_height :: "bytes \<Rightarrow> (nat \<Rightarrow> int) \<Rightarrow> int \<Rightarrow> bool" where
  "max_height cd H m \<longleftrightarrow>
     (\<forall>i < length cd. instr_start cd i \<longrightarrow> H i \<le> m) \<and> (\<exists>i < length cd. instr_start cd i \<and> H i = m)"

definition has_heights :: "EOFCodeType list \<Rightarrow> EOFCodeType \<Rightarrow> bytes \<Rightarrow> int \<Rightarrow> bool" where
  "has_heights types ft cd m \<longleftrightarrow>
     (\<exists>H. heights_ok types ft cd H \<and> max_height cd H m) \<and> (\<forall>i < length cd. instr_start cd i \<longrightarrow> flow_reach cd i)"

definition well_typed :: "nat \<Rightarrow> EOFCodeType list \<Rightarrow> nat \<Rightarrow> bytes \<Rightarrow> bool" where
  "well_typed r types idx cd \<longleftrightarrow>
     instrs_ok (get_baseline_cost_table r 1) cd \<and> jumps_ok cd \<and>
     has_heights types (types ! idx) cd (int (ect_max_stack_height (types ! idx)))"

section \<open>Where instructions start\<close>

lemma start_iterate_less: "m < n \<Longrightarrow> (next_start cd ^^ m) i < (next_start cd ^^ n) i"
  by (rule lift_Suc_mono_less [of "\<lambda>n. (next_start cd ^^ n) i"]) (simp add: next_start_def instr_size_def)

lemma instr_start_0 [simp]: "instr_start cd 0"
  by (metis funpow_0 instr_start_def)

lemma instr_start_succ [intro]: "instr_start cd i \<Longrightarrow> instr_start cd (next_start cd i)"
  by (metis funpow.simps(2) comp_apply instr_start_def)

lemma next_start_less [simp]: "i < next_start cd i"
  by (simp add: next_start_def instr_size_def)

text \<open>Instructions do not overlap.\<close>

lemma instr_start_separate:
  assumes "instr_start cd p" "instr_start cd q" "p < q"
  shows "next_start cd p \<le> q"
proof -
  from assms obtain m n where m: "(next_start cd ^^ m) 0 = p" and n: "(next_start cd ^^ n) 0 = q"
    by (auto simp: instr_start_def)
  with assms(3) have "m < n" using start_iterate_less [of n m cd 0] by (metis less_asym' linorder_less_linear nat_less_le)
  then consider "Suc m = n" | "Suc m < n" by linarith
  then show ?thesis using start_iterate_less [of "Suc m" n cd 0] m n by cases auto
qed

text \<open>Every position is the start of an instruction or lies in the immediate argument of one.\<close>

lemma instr_cover: "\<exists>i. instr_start cd i \<and> i \<le> p \<and> p < next_start cd i"
proof (induction p)
  case 0
  show ?case by (rule exI [of _ 0]) (simp)
next
  case (Suc p)
  then obtain i where i: "instr_start cd i" "i \<le> p" "p < next_start cd i" by blast
  show ?case
  proof (cases "Suc p < next_start cd i")
    case False
    with i(3) have "next_start cd i = Suc p" by simp
    with i(1) show ?thesis by (intro exI [of _ "Suc p"]) (auto dest: instr_start_succ)
  qed (use i in auto)
qed

lemma instr_starts_from:
  assumes "instr_start cd i"
  shows "(\<forall>p. i \<le> p \<and> instr_start cd p \<longrightarrow> P p) \<longleftrightarrow> P i \<and> (\<forall>p. next_start cd i \<le> p \<and> instr_start cd p \<longrightarrow> P p)"
  using assms instr_start_separate [OF assms] next_start_less [of i cd]
  by (metis le_neq_implies_less less_imp_le_nat order_refl order_trans)

section \<open>Checks of instructions and jumps\<close>

definition instr_valid :: "CostTable \<Rightarrow> bytes \<Rightarrow> nat \<Rightarrow> bool" where
  "instr_valid table cd i \<longleftrightarrow> (i < length cd \<longrightarrow> byte_cost table (cd ! i) \<noteq> instr_undefined \<and>
     next_start cd i \<le> length cd \<and> (cd ! i = RJUMPV \<longrightarrow> 1 \<le> unat (cd ! (i + 1))))"

lemma validate_instructions_step:
  assumes "i < length cd"
  shows "validate_instructions_from table cd i = success \<longleftrightarrow>
    instr_valid table cd i \<and> validate_instructions_from table cd (next_start cd i) = success"
  using assms by (subst validate_instructions_from.simps) (auto simp: instr_valid_def next_start_def instr_size_def Let_def)

lemma validate_instructions_from_iff:
  assumes "instr_start cd i"
  shows "validate_instructions_from table cd i = success \<longleftrightarrow> (\<forall>p. i \<le> p \<and> instr_start cd p \<longrightarrow> instr_valid table cd p)"
  using assms
proof (induction "length cd - i" arbitrary: i rule: less_induct)
  case less
  show ?case
  proof (cases "i < length cd")
    case True
    then have "length cd - next_start cd i < length cd - i" using next_start_less [of i cd] by linarith
    from less.hyps [OF this instr_start_succ [OF less.prems]] show ?thesis
      unfolding validate_instructions_step [OF True] instr_starts_from [OF less.prems, of "instr_valid table cd"] by simp
  next
    case False
    then show ?thesis by (subst validate_instructions_from.simps) (auto simp: instr_valid_def)
  qed
qed

lemma validate_instructions_iff:
  "validate_instructions r cd = success \<longleftrightarrow> instrs_ok (get_baseline_cost_table r 1) cd"
  by (auto simp: validate_instructions_def validate_instructions_from_iff instrs_ok_def instr_valid_def)

lemma read_u16: "p + 1 < length cd \<Longrightarrow> read_uint16_be cd p = Inr (u16_at cd p)"
  by (simp add: read_uint16_be_def byte_at_def u16_at_def)

lemma read_s16: "p + 1 < length cd \<Longrightarrow> read_int16_be cd p = Inr (s16_at cd p)"
  by (simp add: read_int16_be_def read_u16 s16_at_def)

text \<open>A target inside the code.\<close>

definition inside :: "bytes \<Rightarrow> int \<Rightarrow> bool" where
  "inside cd t \<longleftrightarrow> 0 \<le> t \<and> nat t < length cd"

lemma check_destination:
  "p + 1 < length cd \<Longrightarrow> check_rjump_destination cd p post =
     Inr (if inside cd (int post + s16_at cd p) then Some (nat (int post + s16_at cd p)) else None)"
  by (auto simp: check_rjump_destination_def read_s16 inside_def Let_def)

lemma check_table:
  "p + 2 * k \<le> length cd \<Longrightarrow> check_rjump_table cd p k post =
     (let ts = map (\<lambda>k. int post + s16_at cd (p + 2 * k)) [0..<k] in
      Inr (if list_all (inside cd) ts then Some (map nat ts) else None))"
proof (induction k arbitrary: p)
  case (Suc k)
  let ?f = "\<lambda>k. int post + s16_at cd (p + 2 * k)"
  have m: "map ?f [0..<Suc k] = ?f 0 # map (\<lambda>k. int post + s16_at cd (p + 2 + 2 * k)) [0..<k]"
    unfolding upt_conv_Cons [OF zero_less_Suc] map_Suc_upt [symmetric] by (simp add: algebra_simps)
  from Suc.prems have "p + 2 + 2 * k \<le> length cd" "p + 1 < length cd" by simp_all
  then show ?case unfolding m Let_def using Suc.IH [of "p + 2"]
    by (simp add: check_destination Let_def)
qed simp

lemma rjump_traits: "byte_traits RJUMP = tr 2 False 0 0 12" "byte_traits RJUMPI = tr 2 False 1 (- 1) 12"
  "byte_traits RJUMPV = tr 0 False 1 (- 1) 12" "byte_traits CALLF = tr 2 False 0 0 12" "byte_traits RETF = tr 0 True 0 0 12"
  by (simp_all add: byte_traits_def opcode_of_byte_def opcode_table_def code_traits_def)

lemma rjumps_at_eq:
  assumes "i < length cd" "next_start cd i \<le> length cd"
  shows "rjumps_at cd i =
    Inr (if list_all (inside cd) (jump_targets cd i) then Some (map nat (jump_targets cd i), instr_size cd i - 1) else None)"
proof -
  consider (J) "cd ! i = RJUMP \<or> cd ! i = RJUMPI" | (V) "cd ! i = RJUMPV" | (N) "cd ! i \<noteq> RJUMP" "cd ! i \<noteq> RJUMPI" "cd ! i \<noteq> RJUMPV"
    by blast
  then show ?thesis
  proof cases
    case J
    then have "next_start cd i = i + 3" by (auto simp: next_start_def instr_size_def rjump_traits tr_def)
    with J assms(2) show ?thesis
      by (auto simp: rjumps_at_def check_destination jump_targets_def instr_size_def rjump_traits tr_def ac_simps)
  next
    case V
    then have n: "next_start cd i = i + 1 + (1 + unat (cd ! (i + 1)) * 2)" "instr_size cd i - 1 = 1 + unat (cd ! (i + 1)) * 2"
      by (auto simp: next_start_def instr_size_def)
    with assms(2) have "i + 2 + 2 * unat (cd ! (i + 1)) \<le> length cd" "i + 1 < length cd" by simp_all
    with V show ?thesis unfolding jump_targets_def n
      by (simp add: rjumps_at_def byte_at_def check_table rjump_traits tr_def Let_def)
  next
    case N
    then show ?thesis by (simp add: rjumps_at_def jump_targets_def instr_size_def)
  qed
qed

lemma fill_n_nth:
  assumes "i + n \<le> length xs"
  shows "\<exists>ys. fill_n xs i n v = Inr ys \<and> length ys = length xs \<and> (\<forall>p < length xs. ys ! p = (if i \<le> p \<and> p < i + n then v else xs ! p))"
  using assms by (auto simp: fill_n_def nth_append)

text \<open>The map of immediate bytes, as far as the code has been read.\<close>

definition immediates_upto :: "bytes \<Rightarrow> nat \<Rightarrow> bool list \<Rightarrow> bool" where
  "immediates_upto cd i m \<longleftrightarrow> length m = length cd \<and> (\<forall>p < length cd. m ! p \<longleftrightarrow> p < i \<and> \<not> instr_start cd p)"

lemma immediates_upto_fill:
  assumes "immediates_upto cd i m" "instr_start cd i" "next_start cd i \<le> length cd"
  shows "\<exists>m'. fill_n m (i + 1) (instr_size cd i - 1) True = Inr m' \<and> immediates_upto cd (next_start cd i) m'"
proof -
  have n: "next_start cd i = Suc i + (instr_size cd i - 1)" by (simp add: next_start_def instr_size_def)
  have sep: "instr_start cd p \<longleftrightarrow> p = i" if "i \<le> p" "p < next_start cd i" for p
    using that assms(2) instr_start_separate [OF assms(2), of p] by (metis leD le_neq_implies_less)
  from assms n have "i + 1 + (instr_size cd i - 1) \<le> length m" by (simp add: immediates_upto_def)
  from fill_n_nth [OF this, of True] obtain m' where m': "fill_n m (i + 1) (instr_size cd i - 1) True = Inr m'"
    "length m' = length m" "\<forall>p < length m. m' ! p = (if i + 1 \<le> p \<and> p < next_start cd i then True else m ! p)"
    unfolding n by (metis Suc_eq_plus1)
  have "m' ! p \<longleftrightarrow> p < next_start cd i \<and> \<not> instr_start cd p" if "p < length cd" for p
    using that assms(1) m'(2,3) sep [of p] next_start_less [of i cd] by (auto simp: immediates_upto_def simp del: next_start_less)
  with m' assms(1) show ?thesis by (auto simp: immediates_upto_def)
qed

definition targets_from :: "bytes \<Rightarrow> nat \<Rightarrow> int set" where
  "targets_from cd i = (\<Union>p \<in> {p. i \<le> p \<and> p < length cd \<and> instr_start cd p}. set (jump_targets cd p))"

lemma targets_from_step:
  assumes "instr_start cd i" "i < length cd"
  shows "targets_from cd i = set (jump_targets cd i) \<union> targets_from cd (next_start cd i)"
proof -
  have "i \<le> p \<and> p < length cd \<and> instr_start cd p \<longleftrightarrow> p = i \<or> next_start cd i \<le> p \<and> p < length cd \<and> instr_start cd p" for p
  proof (cases "i < p")
    case True
    with instr_start_separate [OF assms(1) _ True] show ?thesis by auto
  next
    case False
    then show ?thesis using assms next_start_less [of i cd] by (metis linorder_neqE_nat leD le_eq_less_or_eq order.strict_trans1)
  qed
  then have "{p. i \<le> p \<and> p < length cd \<and> instr_start cd p} = insert i {p. next_start cd i \<le> p \<and> p < length cd \<and> instr_start cd p}"
    by blast
  then show ?thesis by (simp add: targets_from_def)
qed

lemma rjump_loop_eq:
  assumes "\<forall>i < length cd. instr_start cd i \<longrightarrow> next_start cd i \<le> length cd"
  shows "instr_start cd i \<Longrightarrow> i \<le> length cd \<Longrightarrow> immediates_upto cd i m \<Longrightarrow>
    (if \<forall>t \<in> targets_from cd i. inside cd t
     then \<exists>ds' m'. rjump_loop cd i ds m = Inr (Some (ds', m')) \<and> set ds' = set ds \<union> nat ` targets_from cd i \<and> immediates_upto cd (length cd) m'
     else rjump_loop cd i ds m = Inr None)"
proof (induction "length cd - i" arbitrary: i ds m rule: less_induct)
  case less
  show ?case
  proof (cases "i < length cd")
    case False
    with less.prems(2) have "i = length cd" by simp
    moreover have "targets_from cd (length cd) = {}" by (auto simp: targets_from_def)
    ultimately show ?thesis using less.prems by (simp add: rjump_loop.simps)
  next
    case True
    with assms less.prems(1) have n: "next_start cd i \<le> length cd" by blast
    from immediates_upto_fill [OF less.prems(3,1) n] obtain m'
      where m': "fill_n m (i + 1) (instr_size cd i - 1) True = Inr m'" "immediates_upto cd (next_start cd i) m'" by blast
    have s: "i + (instr_size cd i - 1) + 1 = next_start cd i" by (simp add: next_start_def instr_size_def)
    have l: "length cd - next_start cd i < length cd - i" using True next_start_less [of i cd] by linarith
    have eq: "rjump_loop cd i ds m =
      (if list_all (inside cd) (jump_targets cd i) then rjump_loop cd (next_start cd i) (ds @ map nat (jump_targets cd i)) m' else Inr None)"
      using True by (subst rjump_loop.simps) (simp only: rjumps_at_eq [OF True n] m'(1) s sum.case option.case prod.case split: if_split, simp)
    have tr: "(\<forall>t \<in> targets_from cd i. inside cd t) \<longleftrightarrow>
      list_all (inside cd) (jump_targets cd i) \<and> (\<forall>t \<in> targets_from cd (next_start cd i). inside cd t)"
      unfolding targets_from_step [OF less.prems(1) True] list_all_iff by blast
    show ?thesis unfolding tr eq
      using less.hyps [OF l instr_start_succ [OF less.prems(1)] n m'(2), of "ds @ map nat (jump_targets cd i)"]
      by (auto simp: targets_from_step [OF less.prems(1) True] image_Un Un_assoc split: if_splits)
  qed
qed

lemma validate_rjump_destinations_iff:
  assumes "\<forall>i < length cd. instr_start cd i \<longrightarrow> next_start cd i \<le> length cd"
  shows "validate_rjump_destinations cd = Inr (jumps_ok cd)"
proof -
  have j: "jumps_ok cd \<longleftrightarrow> (\<forall>t \<in> targets_from cd 0. inside cd t \<and> instr_start cd (nat t))"
    by (auto simp: jumps_ok_def targets_from_def inside_def)
  have "immediates_upto cd 0 (replicate (length cd) False)" by (simp add: immediates_upto_def)
  note l = rjump_loop_eq [OF assms instr_start_0 le0 this, of "[]"]
  show ?thesis
  proof (cases "\<forall>t \<in> targets_from cd 0. inside cd t")
    case True
    with l obtain ds m where "rjump_loop cd 0 [] (replicate (length cd) False) = Inr (Some (ds, m))"
      "set ds = nat ` targets_from cd 0" "immediates_upto cd (length cd) m" by auto
    with True show ?thesis unfolding validate_rjump_destinations_def j
      by (auto simp: immediates_upto_def inside_def list_all_iff)
  qed (use l in \<open>auto simp: validate_rjump_destinations_def j\<close>)
qed

section \<open>One round of the work list\<close>

text \<open>All successors of an instruction, one after the other.\<close>

fun visit_all :: "int list \<Rightarrow> int \<Rightarrow> height_state \<Rightarrow> height_state validation" where
  "visit_all [] h s = accept s"
| "visit_all (t # ts) h s = bind_ok (validate_successor t h s) (visit_all ts h)"

lemma bind_ok_assoc: "bind_ok (bind_ok m f) g = bind_ok m (\<lambda>x. bind_ok (f x) g)"
  by (simp add: bind_ok_def bind_vm_def split: sum.splits)

lemma bind_ok_id [simp]: "bind_ok m (\<lambda>s. accept s) = m"
  by (simp add: bind_ok_def bind_vm_def split: sum.splits)

lemma visit_all_append: "visit_all (ts @ us) h s = bind_ok (visit_all ts h s) (visit_all us h)"
proof (induction ts arbitrary: s)
  case (Cons t ts)
  then have "visit_all (ts @ us) h = (\<lambda>s. bind_ok (visit_all ts h s) (visit_all us h))" by blast
  then show ?case by (simp add: bind_ok_assoc)
qed simp

lemma visit_all_single: "visit_all [t] h s = validate_successor t h s"
  by (auto simp: bind_ok_def bind_vm_def split: sum.splits)

lemma validate_rjumpv_visit:
  "p + 2 * k \<le> length cd \<Longrightarrow>
     validate_rjumpv cd p k next h s = visit_all (map (\<lambda>k. int next + s16_at cd (p + 2 * k)) [0..<k]) h s"
proof (induction k arbitrary: p s)
  case (Suc k)
  let ?f = "\<lambda>k. int next + s16_at cd (p + 2 * k)"
  have m: "map ?f [0..<Suc k] = ?f 0 # map (\<lambda>k. int next + s16_at cd (p + 2 + 2 * k)) [0..<k]"
    unfolding upt_conv_Cons [OF zero_less_Suc] map_Suc_upt [symmetric] by (simp add: algebra_simps)
  from Suc.prems have le: "p + 2 + 2 * k \<le> length cd" "p + 1 < length cd" by simp_all
  have "validate_rjumpv cd (p + 2) k next h = visit_all (map (\<lambda>k. int next + s16_at cd (p + 2 + 2 * k)) [0..<k]) h"
    using Suc.IH [OF le(1)] by blast
  then show ?case unfolding m using le(2) by (simp add: read_s16)
qed simp

lemma validate_targets_visit:
  assumes "i < length cd" "next_start cd i \<le> length cd"
  shows "validate_targets cd ft i (next_start cd i) h s =
    bind_ok (visit_all (jump_targets cd i) h s) (\<lambda>s.
      if cd ! i = RETF \<and> h \<noteq> int (ect_outputs ft) then reject non_empty_stack_on_terminating_instruction else accept s)"
proof -
  consider (J) "cd ! i = RJUMP \<or> cd ! i = RJUMPI" | (V) "cd ! i = RJUMPV" | (N) "cd ! i \<noteq> RJUMP" "cd ! i \<noteq> RJUMPI" "cd ! i \<noteq> RJUMPV"
    by blast
  then show ?thesis
  proof cases
    case J
    then have n: "next_start cd i = i + 3" by (auto simp: next_start_def instr_size_def rjump_traits tr_def)
    with assms(2) have "i + 1 + 1 < length cd" by simp
    moreover have "validate_successor (int i + s16_at cd (Suc i) + 3) = validate_successor (int (next_start cd i) + s16_at cd (Suc i))"
      using n by (simp add: algebra_simps)
    moreover have "cd ! i \<noteq> RETF" using J by auto
    ultimately show ?thesis using J by (simp add: validate_targets_def jump_targets_def read_s16 visit_all_single del: visit_all.simps)
  next
    case V
    then have n: "next_start cd i = i + 2 + 2 * unat (cd ! (i + 1))" by (auto simp: next_start_def instr_size_def)
    with assms(2) have "i + 2 + 2 * unat (cd ! (i + 1)) \<le> length cd" "i + 1 < length cd" by simp_all
    moreover have "cd ! i \<noteq> RETF" using V by simp
    ultimately show ?thesis using V by (simp add: validate_targets_def jump_targets_def byte_at_def validate_rjumpv_visit)
  next
    case N
    then show ?thesis by (simp add: validate_targets_def jump_targets_def Let_def)
  qed
qed

definition types_ok :: "EOFCodeType list \<Rightarrow> bool" where
  "types_ok types \<longleftrightarrow> (\<forall>t \<in> set types. ect_inputs t \<le> 0x7F \<and> ect_outputs t \<le> 0x7F)"

lemma int8_id: "- 128 \<le> n \<Longrightarrow> n \<le> 127 \<Longrightarrow> int8 n = n"
  by (simp add: int8_def)

lemma stack_effect_eq:
  assumes "types_ok types" "next_start cd i \<le> length cd"
  shows "stack_effect cd types i =
    (if callee_ok types cd i then accept (height_required types cd i, height_change types cd i) else reject invalid_code_section_index)"
proof (cases "cd ! i = CALLF")
  case True
  then have "next_start cd i = i + 3" by (auto simp: next_start_def instr_size_def rjump_traits tr_def)
  with assms(2) have r: "read_uint16_be cd (i + 1) = Inr (u16_at cd (i + 1))" by (simp add: read_u16)
  show ?thesis
  proof (cases "u16_at cd (i + 1) < length types")
    case in_range: True
    with assms(1) have "ect_inputs (types ! u16_at cd (i + 1)) \<le> 0x7F" "ect_outputs (types ! u16_at cd (i + 1)) \<le> 0x7F"
      by (auto simp: types_ok_def)
    with True in_range r show ?thesis
      by (simp add: stack_effect_def callee_ok_def height_required_def height_change_def int8_id Let_def)
  qed (use True r in \<open>simp add: stack_effect_def callee_ok_def\<close>)
qed (simp add: stack_effect_def callee_ok_def height_required_def height_change_def Let_def)

lemma height_step_eq:
  assumes "types_ok types" "i < length cd" "next_start cd i \<le> length cd" "length hs = length cd"
    "fill_n hs (i + 1) (instr_size cd i - 1) LOC_IMMEDIATE = Inr hs'"
  shows "height_step cd types ft i (hs, wl) =
    (if \<not> callee_ok types cd i then reject invalid_code_section_index
     else if hs ! i < height_required types cd i then reject stack_underflow
     else if falls_through cd i \<and> length cd \<le> next_start cd i then reject no_terminating_instruction
     else bind_ok (visit_all (successors cd i) (hs ! i + height_change types cd i) (hs', wl)) (\<lambda>s.
       if cd ! i = RETF \<and> hs ! i + height_change types cd i \<noteq> int (ect_outputs ft)
       then reject non_empty_stack_on_terminating_instruction else accept s))"
proof -
  have n: "i + (instr_size cd i - 1) + 1 = next_start cd i" by (simp add: next_start_def instr_size_def)
  have "cd ! i = RJUMPV \<Longrightarrow> i + 1 < length cd" using assms(3) by (simp add: next_start_def instr_size_def)
  then have imm: "imm_size_at cd i = Inr (instr_size cd i - 1)"
    by (simp add: imm_size_at_def instr_size_def byte_at_def)
  have f: "validate_fallthrough cd i (next_start cd i) h s =
    (if falls_through cd i \<and> length cd \<le> next_start cd i then reject no_terminating_instruction
     else visit_all (if falls_through cd i then [int (next_start cd i)] else []) h s)" for h s
    by (simp add: validate_fallthrough_def falls_through_def visit_all_single del: visit_all.simps(2))
  show ?thesis
    using assms(2,4) unfolding height_step_def
    by (simp add: byte_at_def stack_effect_eq [OF assms(1,3)] imm assms(5) [simplified] n [simplified] Let_def f
        validate_targets_visit [OF assms(2,3)] successors_def visit_all_append bind_ok_assoc)
qed

lemma count_list_update:
  "j < length xs \<Longrightarrow> xs ! j = x \<Longrightarrow> y \<noteq> x \<Longrightarrow> Suc (count_list (xs[j := y]) x) = count_list xs x"
  by (induction xs arbitrary: j) (auto split: nat.splits)

lemma count_replicate: "count_list (replicate n x) x = n"
  by (induction n) simp_all

lemma count_list_mono:
  "length xs = length ys \<Longrightarrow> (\<And>p. p < length xs \<Longrightarrow> ys ! p = x \<Longrightarrow> xs ! p = x) \<Longrightarrow> count_list ys x \<le> count_list xs x"
proof (induction xs ys rule: list_induct2)
  case (Cons a xs b ys)
  have "count_list ys x \<le> count_list xs x" using Cons.IH Cons.prems [of "Suc p" for p] by simp
  moreover have "b = x \<Longrightarrow> a = x" using Cons.prems [of 0] by simp
  ultimately show ?case by simp
qed simp

text \<open>What visiting successors does: it sets the unvisited ones and queues them.\<close>

definition visited :: "int list \<Rightarrow> int \<Rightarrow> height_state \<Rightarrow> height_state \<Rightarrow> bool" where
  "visited ts h s s' \<longleftrightarrow>
     length (fst s') = length (fst s) \<and>
     (\<forall>p < length (fst s). fst s' ! p = (if fst s ! p = LOC_UNVISITED \<and> p \<in> nat ` set ts then h else fst s ! p)) \<and>
     (\<forall>t \<in> set ts. fst s' ! nat t = h) \<and>
     set (snd s') = set (snd s) \<union> {p \<in> nat ` set ts. fst s ! p = LOC_UNVISITED} \<and>
     count_list (fst s') LOC_UNVISITED + length (snd s') = count_list (fst s) LOC_UNVISITED + length (snd s)"

lemma visited_first:
  assumes "0 \<le> t" "nat t < length hs" "hs ! nat t = LOC_UNVISITED" "h \<noteq> LOC_UNVISITED"
    "\<forall>t \<in> set ts. 0 \<le> t \<and> nat t < length hs" "visited ts h (hs[nat t := h], nat t # wl) s'"
  shows "visited (t # ts) h (hs, wl) s'"
  unfolding visited_def fst_conv snd_conv
proof (intro conjI)
  note v = assms(6) [unfolded visited_def fst_conv snd_conv length_list_update]
  show "length (fst s') = length hs" using v by blast
  show "\<forall>p < length hs. fst s' ! p = (if hs ! p = LOC_UNVISITED \<and> p \<in> nat ` set (t # ts) then h else hs ! p)"
    using v assms(2-4) by (auto simp: nth_list_update)
  show "\<forall>t \<in> set (t # ts). fst s' ! nat t = h" using v assms(2-4) by (auto simp: nth_list_update)
  show "set (snd s') = set wl \<union> {p \<in> nat ` set (t # ts). hs ! p = LOC_UNVISITED}"
    using v assms(2-5) by (auto simp: nth_list_update split: if_splits)
  show "count_list (fst s') LOC_UNVISITED + length (snd s') = count_list hs LOC_UNVISITED + length wl"
    using v count_list_update [OF assms(2,3,4)] by simp
qed

lemma visited_again:
  assumes "nat t < length hs" "hs ! nat t = h" "h \<noteq> LOC_UNVISITED" "visited ts h (hs, wl) s'"
  shows "visited (t # ts) h (hs, wl) s'"
  using assms by (auto simp: visited_def)

lemma visit_all_effect:
  assumes "h \<noteq> LOC_UNVISITED"
  shows "\<forall>t \<in> set ts. 0 \<le> t \<and> nat t < length hs \<Longrightarrow>
    (\<exists>s'. visit_all ts h (hs, wl) = accept s' \<and> visited ts h (hs, wl) s') \<or>
    visit_all ts h (hs, wl) = reject stack_height_mismatch \<and> (\<exists>t \<in> set ts. hs ! nat t \<noteq> LOC_UNVISITED \<and> hs ! nat t \<noteq> h)"
proof (induction ts arbitrary: hs wl)
  case Nil
  show ?case by (simp add: visited_def)
next
  case (Cons t ts)
  then have t: "0 \<le> t" "nat t < length hs" and ts: "\<forall>t \<in> set ts. 0 \<le> t \<and> nat t < length hs" by simp_all
  consider (new) "hs ! nat t = LOC_UNVISITED" | (same) "hs ! nat t = h" | (other) "hs ! nat t \<noteq> LOC_UNVISITED" "hs ! nat t \<noteq> h"
    by blast
  then show ?case
  proof cases
    case new
    then have e: "visit_all (t # ts) h (hs, wl) = visit_all ts h (hs[nat t := h], nat t # wl)"
      using t by (simp add: validate_successor_def Let_def)
    have "\<exists>u \<in> set (t # ts). hs ! nat u \<noteq> LOC_UNVISITED \<and> hs ! nat u \<noteq> h"
      if "\<exists>u \<in> set ts. hs[nat t := h] ! nat u \<noteq> LOC_UNVISITED \<and> hs[nat t := h] ! nat u \<noteq> h"
      using that t by (auto simp: nth_list_update split: if_splits)
    then show ?thesis unfolding e
      using Cons.IH [of "hs[nat t := h]" "nat t # wl"] visited_first [OF t new assms ts] ts by fastforce
  next
    case same
    then have e: "visit_all (t # ts) h (hs, wl) = visit_all ts h (hs, wl)"
      using t assms by (simp add: validate_successor_def Let_def)
    show ?thesis unfolding e list.set using Cons.IH [OF ts, of wl] visited_again [OF t(2) same assms, of ts wl] by blast
  next
    case other
    then have "visit_all (t # ts) h (hs, wl) = reject stack_height_mismatch" using t by (simp add: validate_successor_def Let_def)
    with other show ?thesis by auto
  qed
qed

section \<open>The work list finds a typing\<close>

text \<open>What the checks before have established of a section.\<close>

definition section_ok :: "EOFCodeType list \<Rightarrow> bytes \<Rightarrow> bool" where
  "section_ok types cd \<longleftrightarrow>
     cd \<noteq> [] \<and> types_ok types \<and> jumps_ok cd \<and> (\<forall>i < length cd. instr_start cd i \<longrightarrow> next_start cd i \<le> length cd)"

text \<open>
  Starts of instructions are unvisited or have a height that control can reach them with; those that
  are not queued are typed, and the bytes of their arguments are marked.
\<close>

definition processed :: "EOFCodeType list \<Rightarrow> EOFCodeType \<Rightarrow> bytes \<Rightarrow> int list \<Rightarrow> nat \<Rightarrow> bool" where
  "processed types ft cd hs p \<longleftrightarrow>
     typed_at types ft cd ((!) hs) p \<and> (\<forall>q. p < q \<and> q < next_start cd p \<longrightarrow> hs ! q = LOC_IMMEDIATE)"

definition heights_inv :: "EOFCodeType list \<Rightarrow> EOFCodeType \<Rightarrow> bytes \<Rightarrow> height_state \<Rightarrow> bool" where
  "heights_inv types ft cd s \<longleftrightarrow> (let (hs, wl) = s in
     length hs = length cd \<and> hs ! 0 = int (ect_inputs ft) \<and>
     (\<forall>p < length cd. if instr_start cd p then hs ! p = LOC_UNVISITED \<or> 0 \<le> hs ! p \<and> flow_reach cd p
        else hs ! p = LOC_UNVISITED \<or> hs ! p = LOC_IMMEDIATE) \<and>
     (\<forall>p \<in> set wl. p < length cd \<and> instr_start cd p \<and> 0 \<le> hs ! p) \<and>
     (\<forall>p < length cd. instr_start cd p \<and> 0 \<le> hs ! p \<and> p \<notin> set wl \<longrightarrow> processed types ft cd hs p))"

lemma heights_invD:
  assumes "heights_inv types ft cd (hs, wl)"
  shows "length hs = length cd" "hs ! 0 = int (ect_inputs ft)"
    "\<And>p. p < length cd \<Longrightarrow> instr_start cd p \<Longrightarrow> hs ! p = LOC_UNVISITED \<or> 0 \<le> hs ! p \<and> flow_reach cd p"
    "\<And>p. p < length cd \<Longrightarrow> \<not> instr_start cd p \<Longrightarrow> hs ! p = LOC_UNVISITED \<or> hs ! p = LOC_IMMEDIATE"
    "\<And>p. p \<in> set wl \<Longrightarrow> p < length cd \<and> instr_start cd p \<and> 0 \<le> hs ! p"
    "\<And>p. p < length cd \<Longrightarrow> instr_start cd p \<Longrightarrow> 0 \<le> hs ! p \<Longrightarrow> p \<notin> set wl \<Longrightarrow> processed types ft cd hs p"
  using assms unfolding heights_inv_def by (auto split: if_splits)

lemma traits_nonneg: "0 \<le> int (stack_height_required (byte_traits b)) + stack_height_change (byte_traits b)"
proof (cases "opcode_of_byte b")
  case (Some op)
  have "0 \<le> int (stack_height_required (traits op)) + stack_height_change (traits op)"
  proof (cases op)
    case (Op_stack x)
    then show ?thesis by (cases x) (simp_all add: stack_traits_def tr_def)
  next
    case (Op_state x)
    then show ?thesis by (cases x) (simp_all add: state_traits_def tr_def)
  next
    case (Op_result x)
    then show ?thesis by (cases x) (simp_all add: result_traits_def tr_def)
  next
    case (Op_code x)
    then show ?thesis by (cases x) (simp_all add: code_traits_def tr_def)
  next
    case (Op_term x)
    then show ?thesis by (cases x) (simp_all add: term_traits_def tr_def)
  qed
  with Some show ?thesis by (simp add: byte_traits_def)
qed (simp add: byte_traits_def tr_def)

lemma height_after_nonneg: "0 \<le> height_required types cd i + height_change types cd i"
  using traits_nonneg [of "cd ! i"] by (simp add: height_required_def height_change_def)

lemma successors_inside:
  assumes "section_ok types cd" "i < length cd" "instr_start cd i" "falls_through cd i \<longrightarrow> next_start cd i < length cd"
  shows "\<forall>t \<in> set (successors cd i). 0 \<le> t \<and> nat t < length cd \<and> instr_start cd (nat t)"
  using assms by (auto simp: successors_def section_ok_def jumps_ok_def)

text \<open>Marking the argument of an instruction keeps the heights of all starts.\<close>

lemma fill_immediates:
  assumes "section_ok types cd" "heights_inv types ft cd (hs, wl)" "i < length cd" "instr_start cd i"
  obtains hs' where "fill_n hs (i + 1) (instr_size cd i - 1) LOC_IMMEDIATE = Inr hs'" "length hs' = length cd"
    "\<forall>p < length cd. instr_start cd p \<longrightarrow> hs' ! p = hs ! p"
    "\<forall>p < length cd. \<not> instr_start cd p \<longrightarrow> hs' ! p = (if i < p \<and> p < next_start cd i then LOC_IMMEDIATE else hs ! p)"
proof -
  have n: "next_start cd i = i + 1 + (instr_size cd i - 1)" by (simp add: next_start_def instr_size_def)
  have l: "length hs = length cd" using assms(2) by (simp add: heights_inv_def)
  have "i + 1 + (instr_size cd i - 1) \<le> length hs" unfolding n [symmetric] l using assms by (simp add: section_ok_def)
  from fill_n_nth [OF this, of LOC_IMMEDIATE] obtain hs' where h: "fill_n hs (i + 1) (instr_size cd i - 1) LOC_IMMEDIATE = Inr hs'"
    "length hs' = length cd" "\<forall>p < length cd. hs' ! p = (if i + 1 \<le> p \<and> p < next_start cd i then LOC_IMMEDIATE else hs ! p)"
    unfolding l n by blast
  moreover have "\<not> (i < p \<and> p < next_start cd i)" if "instr_start cd p" for p
    using instr_start_separate [OF assms(4) that] by auto
  ultimately show ?thesis by (intro that [of hs']) auto
qed

lemma processed_keeps:
  assumes "processed types ft cd hs p" "p < length cd" "instr_start cd p" "next_start cd p \<le> length cd"
    "\<And>q. q < length cd \<Longrightarrow> instr_start cd q \<Longrightarrow> hs ! q \<noteq> LOC_UNVISITED \<Longrightarrow> hs' ! q = hs ! q"
    "\<And>q. q < length cd \<Longrightarrow> \<not> instr_start cd q \<Longrightarrow> hs ! q = LOC_IMMEDIATE \<Longrightarrow> hs' ! q = LOC_IMMEDIATE"
    "0 \<le> hs ! p"
  shows "processed types ft cd hs' p"
proof -
  note t = assms(1) [unfolded processed_def typed_at_def]
  have p: "hs' ! p = hs ! p" using assms(2,3,7) by (intro assms(5)) auto
  have "hs' ! nat u = hs' ! p + height_change types cd p" if "u \<in> set (successors cd p)" for u
  proof -
    from t that have "hs ! nat u = hs ! p + height_change types cd p" "nat u < length cd" "instr_start cd (nat u)" by auto
    moreover from this t have "hs ! nat u \<noteq> LOC_UNVISITED" using height_after_nonneg [of types cd p] by linarith
    ultimately show ?thesis using assms(5) p by simp
  qed
  moreover have "hs' ! q = LOC_IMMEDIATE" if "p < q" "q < next_start cd p" for q
    using that t assms(4,6) instr_start_separate [OF assms(3), of q] by (meson leD less_le_trans)
  ultimately show ?thesis using t by (simp add: processed_def typed_at_def p)
qed

lemma round_keeps:
  assumes sec: "section_ok types cd" and inv: "heights_inv types ft cd (hs, i # wl)"
    and fill: "length hs' = length cd" "\<forall>p < length cd. instr_start cd p \<longrightarrow> hs' ! p = hs ! p"
      "\<forall>p < length cd. \<not> instr_start cd p \<longrightarrow> hs' ! p = (if i < p \<and> p < next_start cd i then LOC_IMMEDIATE else hs ! p)"
    and ok: "callee_ok types cd i" "height_required types cd i \<le> hs ! i"
      "cd ! i = RETF \<longrightarrow> hs ! i + height_change types cd i = int (ect_outputs ft)"
    and succ: "\<forall>t \<in> set (successors cd i). 0 \<le> t \<and> nat t < length cd \<and> instr_start cd (nat t)"
    and vis: "visited (successors cd i) (hs ! i + height_change types cd i) (hs', wl) (hs2, wl2)"
  shows "heights_inv types ft cd (hs2, wl2)"
proof -
  let ?h = "hs ! i + height_change types cd i"
  note I = heights_invD [OF inv]
  have i: "i < length cd" "instr_start cd i" "0 \<le> hs ! i" "flow_reach cd i" using I(3) [of i] I(5) [of i] by auto
  have h: "0 \<le> ?h" using ok(2) height_after_nonneg [of types cd i] by linarith
  have next_len: "\<And>p. p < length cd \<Longrightarrow> instr_start cd p \<Longrightarrow> next_start cd p \<le> length cd" and len: "0 < length cd"
    using sec by (auto simp: section_ok_def)
  note v = vis [unfolded visited_def fst_conv snd_conv fill(1)]
  have old: "hs2 ! p = hs ! p" if "p < length cd" "instr_start cd p" "hs ! p \<noteq> LOC_UNVISITED" for p
    using v fill(2) that by simp
  have new: "hs2 ! p = (if p \<in> nat ` set (successors cd i) then ?h else LOC_UNVISITED)"
    if "p < length cd" "instr_start cd p" "hs ! p = LOC_UNVISITED" for p using v fill(2) that by simp
  have imm: "hs2 ! p = (if i < p \<and> p < next_start cd i then LOC_IMMEDIATE else hs ! p)"
    if "p < length cd" "\<not> instr_start cd p" for p
  proof -
    from that succ have "p \<notin> nat ` set (successors cd i)" by auto
    with v fill(3) that show ?thesis by simp
  qed
  have reach: "flow_reach cd p" if "p \<in> nat ` set (successors cd i)" for p using that flow_step [OF i(4)] by auto
  have wl2: "set wl2 = set wl \<union> {p \<in> nat ` set (successors cd i). hs ! p = LOC_UNVISITED}" using v succ fill(2) by auto
  have "processed types ft cd hs2 p" if "p < length cd" "instr_start cd p" "0 \<le> hs2 ! p" "p \<notin> set wl2" for p
  proof (cases "p = i")
    case True
    have "hs2 ! i = hs ! i" using old [OF i(1,2)] i(3) by simp
    moreover have "hs2 ! q = LOC_IMMEDIATE" if "i < q" "q < next_start cd i" for q
      using that imm [of q] instr_start_separate [OF i(2), of q] next_len [OF i(1,2)] by (meson leD less_le_trans)
    moreover have "\<forall>t \<in> set (successors cd i). hs2 ! nat t = ?h" using v by blast
    ultimately show ?thesis using True ok succ by (simp add: processed_def typed_at_def)
  next
    case False
    have "hs ! p \<noteq> LOC_UNVISITED" using that new [OF that(1,2)] wl2 by (auto split: if_splits)
    with that False I(3) [of p] wl2 have "0 \<le> hs ! p" "p \<notin> set (i # wl)" by auto
    with that show ?thesis using old imm by (intro processed_keeps [OF I(6)] next_len) auto
  qed
  moreover have "hs2 ! 0 = int (ect_inputs ft)" using old [of 0] len I(2) by simp
  moreover have "hs2 ! p = LOC_UNVISITED \<or> 0 \<le> hs2 ! p \<and> flow_reach cd p" if "p < length cd" "instr_start cd p" for p
    using I(3) [OF that] old [OF that] new [OF that] reach h by (cases "hs ! p = LOC_UNVISITED") auto
  moreover have "hs2 ! p = LOC_UNVISITED \<or> hs2 ! p = LOC_IMMEDIATE" if "p < length cd" "\<not> instr_start cd p" for p
    using imm [OF that] I(4) [OF that] by simp
  moreover have "p < length cd \<and> instr_start cd p \<and> 0 \<le> hs2 ! p" if "p \<in> set wl2" for p
    using that I(5) [of p] wl2 old [of p] new [of p] succ h by auto
  moreover have "length hs2 = length cd" using v by blast
  ultimately show ?thesis by (simp add: heights_inv_def)
qed

definition height_measure :: "height_state \<Rightarrow> nat" where
  "height_measure s = count_list (fst s) LOC_UNVISITED + length (snd s)"

text \<open>The heights found are those of a given typing.\<close>

definition agrees :: "bytes \<Rightarrow> (nat \<Rightarrow> int) \<Rightarrow> int list \<Rightarrow> bool" where
  "agrees cd H hs \<longleftrightarrow> (\<forall>p < length cd. instr_start cd p \<and> 0 \<le> hs ! p \<longrightarrow> hs ! p = H p)"

lemma agrees_visited:
  assumes "agrees cd H hs" "\<forall>p < length cd. instr_start cd p \<longrightarrow> hs' ! p = hs ! p" "length hs' = length cd"
    "visited ts h (hs', wl) s'" "\<forall>t \<in> set ts. H (nat t) = h"
  shows "agrees cd H (fst s')"
  using assms by (auto simp: agrees_def visited_def split: if_splits)

lemma height_step_effect:
  assumes sec: "section_ok types cd" and inv: "heights_inv types ft cd (hs, i # wl)"
  shows "\<exists>res. height_step cd types ft i (hs, wl) = Inr res \<and> res \<noteq> Inl success \<and>
    (\<forall>s'. res = Inr s' \<longrightarrow> heights_inv types ft cd s' \<and> height_measure s' < height_measure (hs, i # wl)) \<and>
    (\<forall>H. heights_ok types ft cd H \<and> agrees cd H hs \<longrightarrow> (\<exists>s'. res = Inr s' \<and> agrees cd H (fst s')))"
proof -
  let ?h = "hs ! i + height_change types cd i"
  have i: "i < length cd" "instr_start cd i" "length hs = length cd" "0 \<le> hs ! i" using inv by (auto simp: heights_inv_def)
  with sec have n: "next_start cd i \<le> length cd" "types_ok types" by (auto simp: section_ok_def)
  obtain hs' where f: "fill_n hs (i + 1) (instr_size cd i - 1) LOC_IMMEDIATE = Inr hs'" "length hs' = length cd"
    "\<forall>p < length cd. instr_start cd p \<longrightarrow> hs' ! p = hs ! p"
    "\<forall>p < length cd. \<not> instr_start cd p \<longrightarrow> hs' ! p = (if i < p \<and> p < next_start cd i then LOC_IMMEDIATE else hs ! p)"
    using fill_immediates [OF sec inv i(1,2)] by blast
  note step = height_step_eq [OF n(2) i(1) n(1) i(3) f(1), of ft wl]
  have typed: "typed_at types ft cd H i" "H i = hs ! i" if "heights_ok types ft cd H" "agrees cd H hs" for H
    using that i by (auto simp: heights_ok_def agrees_def)
  show ?thesis
  proof (cases "callee_ok types cd i \<and> height_required types cd i \<le> hs ! i \<and> (falls_through cd i \<longrightarrow> next_start cd i < length cd)")
    case False
    then have "\<exists>e. height_step cd types ft i (hs, wl) = reject e \<and> e \<noteq> success" unfolding step by auto
    moreover have "\<not> typed_at types ft cd H i" if "H i = hs ! i" for H
      using False that by (auto simp: typed_at_def successors_def)
    ultimately show ?thesis using typed by blast
  next
    case True
    then have succ: "\<forall>t \<in> set (successors cd i). 0 \<le> t \<and> nat t < length cd \<and> instr_start cd (nat t)"
      using successors_inside [OF sec i(1,2)] by blast
    have h: "?h \<noteq> LOC_UNVISITED" using True height_after_nonneg [of types cd i] by linarith
    have step': "height_step cd types ft i (hs, wl) = bind_ok (visit_all (successors cd i) ?h (hs', wl)) (\<lambda>s.
        if cd ! i = RETF \<and> ?h \<noteq> int (ect_outputs ft) then reject non_empty_stack_on_terminating_instruction else accept s)"
      unfolding step using True by auto
    from visit_all_effect [OF h, of "successors cd i" hs' wl] succ f(2)
    consider (acc) s' where "visit_all (successors cd i) ?h (hs', wl) = accept s'" "visited (successors cd i) ?h (hs', wl) s'"
      | (rej) t where "visit_all (successors cd i) ?h (hs', wl) = reject stack_height_mismatch"
          "t \<in> set (successors cd i)" "hs' ! nat t \<noteq> LOC_UNVISITED" "hs' ! nat t \<noteq> ?h" by auto
    then show ?thesis
    proof cases
      case acc
      have keep: "cd ! i = RETF \<longrightarrow> ?h = int (ect_outputs ft) \<Longrightarrow> heights_inv types ft cd s'"
        using round_keeps [OF sec inv f(2-4), of "fst s'" "snd s'"] True succ acc(2) by simp
      have "count_list hs' LOC_UNVISITED \<le> count_list hs LOC_UNVISITED"
        using f(2-4) i(3) by (intro count_list_mono) (auto split: if_splits)
      with acc(2) have m: "height_measure s' < height_measure (hs, i # wl)" by (simp add: height_measure_def visited_def)
      have "agrees cd H (fst s') \<and> (cd ! i = RETF \<longrightarrow> ?h = int (ect_outputs ft))"
        if "heights_ok types ft cd H" "agrees cd H hs" for H
        using typed [OF that] agrees_visited [OF that(2) f(3,2) acc(2)] by (auto simp: typed_at_def)
      with keep m show ?thesis unfolding step' acc(1) by (cases s') auto
    next
      case rej
      have t: "nat t < length cd" "instr_start cd (nat t)" "hs' ! nat t = hs ! nat t" using rej(2) succ f(3) by auto
      with inv rej(3) have "0 \<le> hs ! nat t" by (auto simp: heights_inv_def)
      with t rej(2,4) have "\<not> typed_at types ft cd H i" if "H i = hs ! i" "agrees cd H hs" for H
        using that by (auto simp: typed_at_def agrees_def)
      with typed show ?thesis unfolding step' rej(1) by auto
    qed
  qed
qed

lemma height_loop_effect:
  assumes sec: "section_ok types cd"
  shows "heights_inv types ft cd s \<Longrightarrow> height_measure s \<le> fuel \<Longrightarrow>
    \<exists>res. height_loop fuel cd types ft s = Inr res \<and> res \<noteq> Inl success \<and>
      (\<forall>hs. res = Inr hs \<longrightarrow> heights_inv types ft cd (hs, [])) \<and>
      (\<forall>H. heights_ok types ft cd H \<and> agrees cd H (fst s) \<longrightarrow> (\<exists>hs. res = Inr hs \<and> agrees cd H hs))"
proof (induction fuel arbitrary: s)
  case 0
  then obtain hs where "s = (hs, [])" by (cases s) (auto simp: height_measure_def)
  with 0 show ?case by simp
next
  case (Suc fuel)
  obtain hs wl where s: "s = (hs, wl)" by fastforce
  show ?case
  proof (cases wl)
    case Nil
    with Suc s show ?thesis by simp
  next
    case (Cons i wl')
    with Suc.prems(1) s have "heights_inv types ft cd (hs, i # wl')" by simp
    from height_step_effect [OF sec this] obtain res where res: "height_step cd types ft i (hs, wl') = Inr res" "res \<noteq> Inl success"
      "\<forall>s'. res = Inr s' \<longrightarrow> heights_inv types ft cd s' \<and> height_measure s' < height_measure (hs, i # wl')"
      "\<forall>H. heights_ok types ft cd H \<and> agrees cd H hs \<longrightarrow> (\<exists>s'. res = Inr s' \<and> agrees cd H (fst s'))" by (elim exE conjE) (rule that)
    show ?thesis
    proof (cases res)
      case (Inl e)
      with res show ?thesis by (simp add: s Cons)
    next
      case (Inr s')
      with res(3) Suc.prems(2) s Cons have "heights_inv types ft cd s'" "height_measure s' \<le> fuel" by auto
      from Suc.IH [OF this] res(1,4) Inr show ?thesis by (auto simp: s Cons)
    qed
  qed
qed

lemma initial_heights:
  assumes "cd \<noteq> []" "s = ((replicate (length cd) LOC_UNVISITED)[0 := int (ect_inputs ft)], [0])"
  shows "heights_inv types ft cd s" "height_measure s = length cd"
    "heights_ok types ft cd H \<Longrightarrow> agrees cd H (fst s)"
proof -
  have nth: "p < length cd \<Longrightarrow> fst s ! p = (if p = 0 then int (ect_inputs ft) else LOC_UNVISITED)" for p
    using assms(1) by (auto simp: assms(2) nth_list_update)
  show "heights_inv types ft cd s"
    using nth assms flow_start by (auto simp: heights_inv_def)
  have "Suc (count_list (fst s) LOC_UNVISITED) = length cd"
    using count_list_update [of 0 "replicate (length cd) LOC_UNVISITED" LOC_UNVISITED "int (ect_inputs ft)"] assms
    by (simp add: assms(2) count_replicate)
  then show "height_measure s = length cd" by (simp add: height_measure_def assms(2))
  show "heights_ok types ft cd H \<Longrightarrow> agrees cd H (fst s)" using nth by (auto simp: agrees_def heights_ok_def)
qed

text \<open>When the work list is empty: which positions have been visited, and the typing that was found.\<close>

lemma reached_visited:
  assumes "heights_inv types ft cd (hs, [])" "cd \<noteq> []" "flow_reach cd p"
  shows "p < length cd \<and> instr_start cd p \<and> 0 \<le> hs ! p"
  using assms(3)
proof induction
  case flow_start
  then show ?case using assms(1,2) by (simp add: heights_inv_def)
next
  case (flow_step i t)
  with assms(1) have "typed_at types ft cd ((!) hs) i" by (auto simp: heights_inv_def processed_def)
  with flow_step show ?case using height_after_nonneg [of types cd i] by (auto simp: typed_at_def)
qed

lemma all_reached:
  assumes "section_ok types cd" "heights_inv types ft cd (hs, [])" "\<forall>i < length cd. instr_start cd i \<longrightarrow> flow_reach cd i"
  shows "LOC_UNVISITED \<notin> set hs"
proof
  assume "LOC_UNVISITED \<in> set hs"
  then obtain q where q: "q < length cd" "hs ! q = LOC_UNVISITED"
    using heights_invD(1) [OF assms(2)] by (auto simp: in_set_conv_nth)
  obtain i where i: "instr_start cd i" "i \<le> q" "q < next_start cd i" using instr_cover by blast
  from i q(1) have "i < length cd" by linarith
  with assms(3) i(1) have "flow_reach cd i" by blast
  from reached_visited [OF assms(2) _ this] assms(1) have "0 \<le> hs ! i" by (simp add: section_ok_def)
  with i q(1) have "processed types ft cd hs i" using heights_invD(6) [OF assms(2), of i] by simp
  with i(2,3) q(2) \<open>0 \<le> hs ! i\<close> show False by (cases "i = q") (auto simp: processed_def)
qed

lemma found_typing:
  assumes inv: "heights_inv types ft cd (hs, [])" and "cd \<noteq> []" "LOC_UNVISITED \<notin> set hs"
  shows "has_heights types ft cd (Max (set hs))"
proof -
  have l: "length hs = length cd" "hs ! 0 = int (ect_inputs ft)" using inv by (auto simp: heights_inv_def)
  have vis: "0 \<le> hs ! i \<and> flow_reach cd i" if "i < length cd" "instr_start cd i" for i
    using that heights_invD(3) [OF inv, of i] assms(3) l(1) nth_mem [of i hs] by metis
  then have "heights_ok types ft cd ((!) hs)" using heights_invD(6) [OF inv] l(2) by (simp add: heights_ok_def processed_def)
  moreover have "max_height cd ((!) hs) (Max (set hs))"
  proof -
    have "Max (set hs) \<in> set hs" using assms(2) l(1) by (intro Max_in) auto
    then obtain q where q: "q < length cd" "hs ! q = Max (set hs)" using l(1) by (auto simp: in_set_conv_nth)
    have "hs ! 0 \<le> Max (set hs)" using assms(2) l(1) by simp
    with q l have "instr_start cd q" using heights_invD(4) [OF inv, of q] by force
    with q show ?thesis using l(1) by (auto simp: max_height_def)
  qed
  ultimately show ?thesis unfolding has_heights_def using vis by blast
qed

lemma given_typing:
  assumes inv: "heights_inv types ft cd (hs, [])" and "cd \<noteq> []" "agrees cd H hs" "max_height cd H m"
    "\<forall>i < length cd. instr_start cd i \<longrightarrow> flow_reach cd i"
  shows "Max (set hs) = m"
proof (rule Max_eqI)
  have l: "length hs = length cd" using inv by (simp add: heights_inv_def)
  have H: "hs ! i = H i" "0 \<le> hs ! i" if "i < length cd" "instr_start cd i" for i
    using that assms(3,5) reached_visited [OF inv assms(2), of i] by (auto simp: agrees_def)
  then show "m \<in> set hs" using assms(4) l by (auto simp: max_height_def in_set_conv_nth)
  have m: "0 \<le> m" using H [of 0] assms(2,4) by (fastforce simp: max_height_def)
  fix y assume "y \<in> set hs"
  then obtain q where q: "q < length cd" "hs ! q = y" using l by (auto simp: in_set_conv_nth)
  show "y \<le> m"
  proof (cases "instr_start cd q")
    case True
    with q H [of q] assms(4) show ?thesis by (auto simp: max_height_def)
  next
    case False
    with q have "y = LOC_UNVISITED \<or> y = LOC_IMMEDIATE" using heights_invD(4) [OF inv, of q] by blast
    with m show ?thesis by auto
  qed
qed simp

lemma validate_max_stack_height_iff:
  assumes sec: "section_ok types cd" and "idx < length types"
  shows "\<exists>res. validate_max_stack_height cd idx types = Inr res \<and> res \<noteq> Inl success \<and> (\<forall>m. res = Inr m \<longleftrightarrow> has_heights types (types ! idx) cd m)"
proof -
  let ?ft = "types ! idx"
  let ?s = "((replicate (length cd) LOC_UNVISITED)[0 := int (ect_inputs ?ft)], [0]) :: height_state"
  have ne: "cd \<noteq> []" using sec by (simp add: section_ok_def)
  note init = initial_heights [OF ne refl, where ft = ?ft]
  obtain res where res: "height_loop (length cd) cd types ?ft ?s = Inr res" "res \<noteq> Inl success"
    "\<forall>hs. res = Inr hs \<longrightarrow> heights_inv types ?ft cd (hs, [])"
    "\<forall>H. heights_ok types ?ft cd H \<and> agrees cd H (fst ?s) \<longrightarrow> (\<exists>hs. res = Inr hs \<and> agrees cd H hs)"
    using height_loop_effect [OF sec init(1) eq_refl [OF init(2)]] by (elim exE conjE) (rule that)
  have eq: "validate_max_stack_height cd idx types = bind_ok (Inr res) (\<lambda>hs.
      if LOC_UNVISITED \<in> set hs then reject unreachable_instructions else accept (Max (set hs)))"
    using ne assms(2) res(1) by (simp add: validate_max_stack_height_def Let_def)
  have complete: "\<exists>hs. res = Inr hs \<and> LOC_UNVISITED \<notin> set hs \<and> Max (set hs) = m" if "has_heights types ?ft cd m" for m
  proof -
    from that obtain H where H: "heights_ok types ?ft cd H" "max_height cd H m" "\<forall>i < length cd. instr_start cd i \<longrightarrow> flow_reach cd i"
      by (auto simp: has_heights_def)
    with res(4) init(3) obtain hs where hs: "res = Inr hs" "agrees cd H hs" by blast
    with res(3) have inv: "heights_inv types ?ft cd (hs, [])" by blast
    show ?thesis using hs(1) all_reached [OF sec inv H(3)] given_typing [OF inv ne hs(2) H(2,3)] by blast
  qed
  show ?thesis
  proof (cases "\<exists>hs. res = Inr hs \<and> LOC_UNVISITED \<notin> set hs")
    case True
    then obtain hs where hs: "res = Inr hs" "LOC_UNVISITED \<notin> set hs" by blast
    with found_typing [OF _ ne, of types ?ft hs] res(3) have "has_heights types ?ft cd (Max (set hs))" by blast
    moreover have "has_heights types ?ft cd m \<Longrightarrow> Max (set hs) = m" for m using complete [of m] hs(1) by simp
    moreover have "validate_max_stack_height cd idx types = accept (Max (set hs))" using hs by (simp add: eq)
    ultimately have "validate_max_stack_height cd idx types = accept (Max (set hs))" "\<forall>m. Max (set hs) = m \<longleftrightarrow> has_heights types ?ft cd m"
      by blast+
    then show ?thesis by (intro exI [of _ "Inr (Max (set hs))"]) (simp only: sum.inject sum.distinct simp_thms)
  next
    case False
    then have "\<exists>e. validate_max_stack_height cd idx types = reject e \<and> e \<noteq> success" unfolding eq using res(2) by (cases res) auto
    with complete False show ?thesis by auto
  qed
qed

lemma validate_section_iff:
  assumes "cd \<noteq> []" "types_ok types" "idx < length types"
  shows "\<exists>res. validate_section r types idx cd = Inr res \<and> res \<noteq> Inl success \<and> (res = Inr () \<longleftrightarrow> well_typed r types idx cd)"
proof (cases "instrs_ok (get_baseline_cost_table r 1) cd \<and> jumps_ok cd")
  case True
  then have n: "\<forall>i < length cd. instr_start cd i \<longrightarrow> next_start cd i \<le> length cd" by (auto simp: instrs_ok_def)
  with True assms have "section_ok types cd" by (simp add: section_ok_def)
  from validate_max_stack_height_iff [OF this assms(3)] obtain res
    where "validate_max_stack_height cd idx types = Inr res" "res \<noteq> Inl success" "\<forall>m. res = Inr m \<longleftrightarrow> has_heights types (types ! idx) cd m" by blast
  with True show ?thesis
    by (cases res) (auto simp: validate_section_def validate_instructions_iff validate_rjump_destinations_iff [OF n] well_typed_def)
next
  case False
  then show ?thesis
    by (cases "instrs_ok (get_baseline_cost_table r 1) cd")
      (auto simp: validate_section_def validate_instructions_iff instrs_ok_def validate_rjump_destinations_iff well_typed_def Let_def)
qed

end
