(* ===== verification/EofSound.thy ===== *)
theory EofSound
  imports EofTyping EvmSafety
begin

text \<open>
  Containers as a whole: for every container the validator returns without undefined behaviour, and
  the header of a container it accepts is read back by \<open>read_valid_eof1_header\<close>, which does not
  check anything, with all sections inside the container and well typed.
\<close>

section \<open>Section headers\<close>

text \<open>The headers of a container as they are accepted, and that the unchecked reader finds the same.\<close>

definition headers_good :: "bytes \<Rightarrow> section_headers \<Rightarrow> nat \<Rightarrow> bool" where
  "headers_good c hs it \<longleftrightarrow>
     (\<exists>a cs d. hs = [[], [a], cs, [d]] \<and> cs \<noteq> [] \<and> 0 \<notin> set cs \<and> it = 13 + 2 * length cs) \<and> it \<le> length c \<and>
     read_sections c 3 [[], [], [], []] = Inr hs"

text \<open>From here the loop ends, and when it ends at the terminator the headers are good.\<close>

definition parses :: "bytes \<Rightarrow> header_parser \<Rightarrow> bool" where
  "parses c p \<longleftrightarrow>
     (\<exists>res. header_loop c p = Inr res \<and> res \<noteq> Inl success \<and>
        (\<forall>p'. res = Inr p' \<and> hp_state p' = State_terminated \<longrightarrow> headers_good c (hp_headers p') (hp_it p')))"

lemma parses_step:
  assumes "hp_it p \<le> length c" "hp_state p \<noteq> State_terminated"
    "hp_it p < length c \<Longrightarrow> (\<exists>e. header_step c p = reject e \<and> e \<noteq> success) \<or> (\<exists>p'. header_step c p = accept p' \<and> parses c p')"
  shows "parses c p"
proof (cases "hp_it p < length c")
  case True
  from assms(3) [OF this] True assms(2) show ?thesis
    unfolding parses_def by (subst header_loop.simps) (auto simp: parses_def)
next
  case False
  with assms(1,2) show ?thesis unfolding parses_def by (subst header_loop.simps) auto
qed

lemma size_at_cases:
  assumes "length hs = 4" "unat i < 4"
  shows "(\<exists>e. header_size_at c it i hs = reject e \<and> e \<noteq> success) \<or>
    (it + 2 \<le> length c \<and> read_uint16_be c it = Inr (u16_at c it) \<and> (i \<noteq> 3 \<longrightarrow> u16_at c it \<noteq> 0) \<and>
     header_size_at c it i hs = accept (hs[unat i := hs ! unat i @ [u16_at c it]]))"
  using assms by (auto simp: header_size_at_def read_u16 emplace_size_def)

lemma code_sizes_cases:
  "length hs = 4 \<Longrightarrow> it \<le> length c \<Longrightarrow> (\<exists>e. header_code_sizes c it k hs = reject e \<and> e \<noteq> success) \<or>
    (\<exists>cs. it + 2 * k \<le> length c \<and> length cs = k \<and> 0 \<notin> set cs \<and>
       header_code_sizes c it k hs = accept (it + 2 * k, hs[2 := hs ! 2 @ cs]) \<and>
       read_code_sizes c it k hs = Inr (it + 2 * k, hs[2 := hs ! 2 @ cs]))"
proof (induction k arbitrary: it hs)
  case 0
  then show ?case by simp
next
  case (Suc k)
  have "unat (2 :: byte) < 4" by simp
  from size_at_cases [OF Suc.prems(1) this, of c it] show ?case
  proof (elim disjE)
    assume s: "it + 2 \<le> length c \<and> read_uint16_be c it = Inr (u16_at c it) \<and> ((2::byte) \<noteq> 3 \<longrightarrow> u16_at c it \<noteq> 0) \<and>
      header_size_at c it 2 hs = accept (hs[unat (2::byte) := hs ! unat (2::byte) @ [u16_at c it]])"
    let ?hs = "hs[2 := hs ! 2 @ [u16_at c it]]"
    from s Suc.prems(1) have e: "header_code_sizes c it (Suc k) hs = header_code_sizes c (it + 2) k ?hs"
      "read_code_sizes c it (Suc k) hs = read_code_sizes c (it + 2) k ?hs" by (simp_all add: emplace_size_def)
    from s Suc.prems(1) have "length ?hs = 4" "it + 2 \<le> length c" by simp_all
    from Suc.IH [OF this] show ?thesis
    proof (elim disjE exE)
      fix cs assume "it + 2 + 2 * k \<le> length c \<and> length cs = k \<and> 0 \<notin> set cs \<and>
        header_code_sizes c (it + 2) k ?hs = accept (it + 2 + 2 * k, ?hs[2 := ?hs ! 2 @ cs]) \<and>
        read_code_sizes c (it + 2) k ?hs = Inr (it + 2 + 2 * k, ?hs[2 := ?hs ! 2 @ cs])"
      with s Suc.prems(1) show ?thesis unfolding e by (intro disjI2 exI [of _ "u16_at c it # cs"]) auto
    qed (unfold e, blast)
  qed auto
qed

lemma read_sections_at:
  assumes "it < length c"
  shows "c ! it = 0 \<Longrightarrow> read_sections c it hs = Inr hs"
    "c ! it = 2 \<Longrightarrow> it + 2 < length c \<Longrightarrow> read_code_sizes c (it + 3) (u16_at c (it + 1)) hs = Inr (it', hs') \<Longrightarrow>
      read_sections c it hs = read_sections c it' hs'"
    "c ! it \<noteq> 0 \<Longrightarrow> c ! it \<noteq> 2 \<Longrightarrow> it + 2 < length c \<Longrightarrow> length hs = 4 \<Longrightarrow> unat (c ! it) < 4 \<Longrightarrow>
      read_sections c it hs = read_sections c (it + 3) (hs[unat (c ! it) := hs ! unat (c ! it) @ [u16_at c (it + 1)]])"
  using assms by (subst read_sections.simps, simp add: read_u16 emplace_size_def)+

text \<open>The phases of the state machine, the last one first.\<close>

abbreviation (input) parser :: "State \<Rightarrow> byte \<Rightarrow> nat \<Rightarrow> section_headers \<Rightarrow> nat \<Rightarrow> byte \<Rightarrow> header_parser" where
  "parser st i n hs it ex \<equiv> \<lparr>hp_state = st, hp_section_id = i, hp_section_num = n, hp_headers = hs, hp_it = it, hp_expected = ex\<rparr>"

lemma four_headers [simp]:
  "[h0, h1, h2, h3] ! 2 = h2" "[h0, h1, h2, h3] ! 3 = h3" "[h0, h1, h2, h3][2 := x] = [h0, h1, x, h3]" "[h0, h1, h2, h3][3 := x] = [h0, h1, h2, x]"
  by (simp_all add: numeral_2_eq_2 numeral_3_eq_3)

lemma missing_not_success [simp]:
  "get_section_missing_error 0 \<noteq> success" "get_section_missing_error 1 \<noteq> success"
  "get_section_missing_error 2 \<noteq> success" "get_section_missing_error 3 \<noteq> success"
  by (simp_all add: get_section_missing_error_def)

lemmas header_steps = header_step_def header_section_id_def header_section_size_def

lemma parses_terminator:
  assumes "cs \<noteq> []" "0 \<notin> set cs" "12 + 2 * length cs \<le> length c"
    "read_sections c 3 [[], [], [], []] = read_sections c (12 + 2 * length cs) [[], [a], cs, [d]]"
  shows "parses c (parser State_section_id i n [[], [a], cs, [d]] (12 + 2 * length cs) 0)"
proof (rule parses_step; (simp only: header_parser.select_convs)?)
  assume l: "12 + 2 * length cs < length c"
  have "parses c (parser State_terminated 0 n [[], [a], cs, [d]] (13 + 2 * length cs) 0)" if "c ! (12 + 2 * length cs) = 0"
    using assms l that by (simp add: parses_def header_loop.simps headers_good_def read_sections_at)
  then show "(\<exists>e. header_step c (parser State_section_id i n [[], [a], cs, [d]] (12 + 2 * length cs) 0) = reject e \<and> e \<noteq> success) \<or>
    (\<exists>p'. header_step c (parser State_section_id i n [[], [a], cs, [d]] (12 + 2 * length cs) 0) = accept p' \<and> parses c p')"
    by (simp add: header_steps Let_def)
qed (use assms(3) in simp_all)

lemma parses_data_size:
  assumes "cs \<noteq> []" "0 \<notin> set cs" "10 + 2 * length cs \<le> length c" "c ! (9 + 2 * length cs) = 3"
    "read_sections c 3 [[], [], [], []] = read_sections c (9 + 2 * length cs) [[], [a], cs, []]"
  shows "parses c (parser State_section_size 3 n [[], [a], cs, []] (10 + 2 * length cs) 0)"
proof (rule parses_step; (simp only: header_parser.select_convs)?)
  let ?it = "10 + 2 * length cs"
  have "unat (3 :: byte) < 4" by simp
  from size_at_cases [of "[[], [a], cs, []]", OF _ this, of c ?it]
  consider e where "header_size_at c ?it 3 [[], [a], cs, []] = reject e" "e \<noteq> success"
    | "?it + 2 \<le> length c" "header_size_at c ?it 3 [[], [a], cs, []] = accept [[], [a], cs, [u16_at c ?it]]"
    by auto
  then show "(\<exists>e. header_step c (parser State_section_size 3 n [[], [a], cs, []] ?it 0) = reject e \<and> e \<noteq> success) \<or>
    (\<exists>p'. header_step c (parser State_section_size 3 n [[], [a], cs, []] ?it 0) = accept p' \<and> parses c p')"
  proof cases
    case 2
    then have "read_sections c 3 [[], [], [], []] = read_sections c (12 + 2 * length cs) [[], [a], cs, [u16_at c ?it]]"
      unfolding assms(5) using assms(4) by (subst read_sections_at(3)) simp_all
    with 2 assms(1,2) have "parses c (parser State_section_id 3 n [[], [a], cs, [u16_at c ?it]] (12 + 2 * length cs) 0)"
      by (intro parses_terminator) simp_all
    with 2 show ?thesis by (simp add: header_steps)
  qed (simp add: header_steps)
qed (use assms(3) in simp_all)

lemma parses_data_id:
  assumes "cs \<noteq> []" "0 \<notin> set cs" "9 + 2 * length cs \<le> length c"
    "read_sections c 3 [[], [], [], []] = read_sections c (9 + 2 * length cs) [[], [a], cs, []]"
  shows "parses c (parser State_section_id i n [[], [a], cs, []] (9 + 2 * length cs) 3)"
proof (rule parses_step; (simp only: header_parser.select_convs)?)
  let ?p = "parser State_section_id i n [[], [a], cs, []] (9 + 2 * length cs) 3"
  assume "9 + 2 * length cs < length c"
  with assms have "c ! (9 + 2 * length cs) = 3 \<Longrightarrow> parses c (parser State_section_size 3 n [[], [a], cs, []] (10 + 2 * length cs) 0)"
    by (intro parses_data_size) simp_all
  then show "(\<exists>e. header_step c ?p = reject e \<and> e \<noteq> success) \<or> (\<exists>p'. header_step c ?p = accept p' \<and> parses c p')"
    by (simp add: header_steps Let_def)
qed (use assms(3) in simp_all)

lemma parses_code_sizes:
  assumes "0 < n" "9 \<le> length c" "c ! 6 = 2" "u16_at c 7 = n"
    "read_sections c 3 [[], [], [], []] = read_sections c 6 [[], [a], [], []]"
  shows "parses c (parser State_section_size 2 n [[], [a], [], []] 9 3)"
proof (rule parses_step; (simp only: header_parser.select_convs)?)
  let ?p = "parser State_section_size 2 n [[], [a], [], []] 9 3"
  from code_sizes_cases [of "[[], [a], [], []]" 9 c n] assms(2)
  consider e where "header_code_sizes c 9 n [[], [a], [], []] = reject e" "e \<noteq> success"
    | cs where "9 + 2 * n \<le> length c" "length cs = n" "0 \<notin> set cs"
        "header_code_sizes c 9 n [[], [a], [], []] = accept (9 + 2 * n, [[], [a], cs, []])"
        "read_code_sizes c 9 n [[], [a], [], []] = Inr (9 + 2 * n, [[], [a], cs, []])" by auto
  then show "(\<exists>e. header_step c ?p = reject e \<and> e \<noteq> success) \<or> (\<exists>p'. header_step c ?p = accept p' \<and> parses c p')"
  proof cases
    case (2 cs)
    have "read_sections c 3 [[], [], [], []] = read_sections c (9 + 2 * n) [[], [a], cs, []]"
      unfolding assms(5) using assms 2 by (intro read_sections_at(2)) simp_all
    with 2 assms(1) have "parses c (parser State_section_id 2 n [[], [a], cs, []] (9 + 2 * length cs) 3)"
      by (intro parses_data_id) auto
    with 2 show ?thesis by (simp add: header_steps)
  qed (simp add: header_steps)
qed (use assms(2) in simp_all)

lemma parses_code_id:
  assumes "6 \<le> length c" "read_sections c 3 [[], [], [], []] = read_sections c 6 [[], [a], [], []]"
  shows "parses c (parser State_section_id i n [[], [a], [], []] 6 2)"
proof (rule parses_step; (simp only: header_parser.select_convs)?)
  let ?p = "parser State_section_id i n [[], [a], [], []] 6 2"
  have "parses c (parser State_section_size 2 (u16_at c 7) [[], [a], [], []] 9 3)" if "c ! 6 = 2" "8 < length c" "u16_at c 7 \<noteq> 0"
    using that assms(2) by (intro parses_code_sizes) simp_all
  then show "(\<exists>e. header_step c ?p = reject e \<and> e \<noteq> success) \<or> (\<exists>p'. header_step c ?p = accept p' \<and> parses c p')"
    by (auto simp: header_steps Let_def read_u16)
qed (use assms(1) in simp_all)

lemma parses_type_size:
  assumes "4 \<le> length c" "c ! 3 = 1"
  shows "parses c (parser State_section_size 1 n [[], [], [], []] 4 2)"
proof (rule parses_step; (simp only: header_parser.select_convs)?)
  let ?p = "parser State_section_size 1 n [[], [], [], []] 4 2"
  have "unat (1 :: byte) < 4" by simp
  from size_at_cases [of "[[], [], [], []]", OF _ this, of c 4]
  consider e where "header_size_at c 4 1 [[], [], [], []] = reject e" "e \<noteq> success"
    | "6 \<le> length c" "header_size_at c 4 1 [[], [], [], []] = accept [[], [u16_at c 4], [], []]"
    by auto
  then show "(\<exists>e. header_step c ?p = reject e \<and> e \<noteq> success) \<or> (\<exists>p'. header_step c ?p = accept p' \<and> parses c p')"
  proof cases
    case 2
    then have "read_sections c 3 [[], [], [], []] = read_sections c 6 [[], [u16_at c 4], [], []]"
      using assms by (subst read_sections_at(3)) simp_all
    with 2 show ?thesis using parses_code_id [of c "u16_at c 4" 1 n] by (simp add: header_steps)
  qed (simp add: header_steps)
qed (use assms(1) in simp_all)

lemma parses_init:
  assumes "3 \<le> length c"
  shows "parses c header_parser_init"
  unfolding header_parser_init_def
proof (rule parses_step; (simp only: header_parser.select_convs)?)
  let ?p = "parser State_section_id 0 0 [[], [], [], []] 3 1"
  assume "3 < length c"
  then have "c ! 3 = 1 \<Longrightarrow> parses c (parser State_section_size 1 0 [[], [], [], []] 4 2)" by (intro parses_type_size) simp_all
  then show "(\<exists>e. header_step c ?p = reject e \<and> e \<noteq> success) \<or> (\<exists>p'. header_step c ?p = accept p' \<and> parses c p')"
    by (simp add: header_steps Let_def)
qed (use assms in simp_all)

text \<open>The layout of a container with accepted headers.\<close>

definition layout :: "bytes \<Rightarrow> section_headers \<Rightarrow> bool" where
  "layout c hs \<longleftrightarrow>
     (\<exists>cs d. hs = [[], [4 * length cs], cs, [d]] \<and> cs \<noteq> [] \<and> 0 \<notin> set cs \<and>
        length c = eof_header_size hs + 4 * length cs + sum_list cs + d) \<and>
     read_sections c 3 [[], [], [], []] = Inr hs"

lemma validate_eof_headers_layout:
  assumes "3 \<le> length c"
  shows "\<exists>res. validate_eof_headers c = Inr res \<and> res \<noteq> Inl success \<and> (\<forall>hs. res = Inr hs \<longrightarrow> layout c hs)"
proof -
  from parses_init [OF assms] obtain res where res: "header_loop c header_parser_init = Inr res" "res \<noteq> Inl success"
    "\<forall>p. res = Inr p \<and> hp_state p = State_terminated \<longrightarrow> headers_good c (hp_headers p) (hp_it p)" by (auto simp: parses_def)
  show ?thesis
  proof (cases "\<exists>p. res = Inr p \<and> hp_state p = State_terminated")
    case True
    then obtain p where p: "res = Inr p" "hp_state p = State_terminated" by blast
    with res obtain a cs d where "hp_headers p = [[], [a], cs, [d]]" "cs \<noteq> []" "0 \<notin> set cs" "hp_it p = 13 + 2 * length cs"
      "hp_it p \<le> length c" "read_sections c 3 [[], [], [], []] = Inr (hp_headers p)" unfolding headers_good_def by blast
    with p res(1) show ?thesis
      by (auto simp: validate_eof_headers_def front_size_def Let_def layout_def eof_header_size_def)
  next
    case False
    with res(1,2) show ?thesis by (cases res) (auto simp: validate_eof_headers_def)
  qed
qed

section \<open>Types and sections\<close>

lemma read_types_ok:
  "off + 4 * n \<le> length c \<Longrightarrow> \<exists>ts. read_types c off (off + 4 * n) = Inr ts \<and> length ts = n"
proof (induction n arbitrary: off)
  case 0
  then show ?case by (simp add: read_types.simps)
next
  case (Suc n)
  then have "off + 4 + 4 * n \<le> length c" by simp
  from Suc.IH [OF this] obtain ts where ts: "read_types c (off + 4) (off + 4 + 4 * n) = Inr ts" "length ts = n" by blast
  have e: "off + 4 * Suc n = off + 4 + 4 * n" by simp
  from Suc.prems have "read_uint16_be c (off + 2) = Inr (u16_at c (off + 2))" by (intro read_u16) simp
  with Suc.prems show ?case unfolding e
    by (subst read_types.simps) (simp add: byte_at_def ts [simplified])
qed

definition types_good :: "EOFCodeType list \<Rightarrow> bool" where
  "types_good types \<longleftrightarrow>
     types \<noteq> [] \<and> ect_inputs (types ! 0) = 0 \<and> ect_outputs (types ! 0) = 0 \<and>
     (\<forall>t \<in> set types. ect_inputs t \<le> 0x7F \<and> ect_outputs t \<le> 0x7F \<and> ect_max_stack_height t \<le> 0x03FF)"

lemma validate_types_good:
  assumes "off + 4 * n \<le> length c" "0 < n"
  shows "\<exists>res. validate_types c off (4 * n) = Inr res \<and> res \<noteq> Inl success \<and>
    (\<forall>types. res = Inr types \<longrightarrow> read_types c off (off + 4 * n) = Inr types \<and> length types = n \<and> types_good types)"
proof -
  obtain ts where ts: "read_types c off (off + 4 * n) = Inr ts" "length ts = n" using read_types_ok [OF assms(1)] by blast
  with assms(2) obtain t ts' where Cons: "ts = t # ts'" by (cases ts) auto
  have none: "t \<in> set xs \<Longrightarrow> List.map_filter type_error xs = [] \<Longrightarrow> type_error t = None" for t xs
    by (induction xs) (auto simp: List.map_filter_simps split: option.splits)
  have "types_good ts" if "ect_inputs t = 0" "ect_outputs t = 0" "List.map_filter type_error ts = []"
  proof -
    have "\<forall>u \<in> set ts. type_error u = None" using none that(3) by blast
    with that(1,2) show ?thesis by (auto simp: types_good_def Cons type_error_def split: if_splits)
  qed
  moreover have "List.map_filter type_error xs = e # es \<Longrightarrow> e \<noteq> success" for xs e es
    by (induction xs) (auto simp: List.map_filter_simps type_error_def split: option.splits if_splits)
  ultimately show ?thesis using ts unfolding validate_types_def Cons by (auto split: list.splits simp del: List.map_filter_simps)
qed

lemma section_offsets_nth:
  "k < length ns \<Longrightarrow> section_offsets off ns ! k = (off + sum_list (take k ns)) mod 65536"
  by (induction off ns arbitrary: k rule: section_offsets.induct) (auto simp: nth_Cons' take_Cons' add.assoc)

lemma section_offsets_length: "length (section_offsets off ns) = length ns"
  by (induction off ns rule: section_offsets.induct) simp_all

text \<open>Every section lies in the container, also where its offset is cut to 16 bits.\<close>

lemma get_code_inside:
  assumes "k < length (code_sizes h)" "code_offsets h = section_offsets off (code_sizes h)"
    "off + sum_list (code_sizes h) \<le> length c"
  shows "code_offsets h ! k + code_sizes h ! k \<le> length c"
    "get_code h c k = Inr (take (code_sizes h ! k) (drop (code_offsets h ! k) c))"
proof -
  have "sum_list (take k (code_sizes h)) + (code_sizes h ! k + sum_list (drop (Suc k) (code_sizes h))) = sum_list (code_sizes h)"
    using id_take_nth_drop [OF assms(1)] by (metis sum_list.append sum_list.Cons)
  moreover have "code_offsets h ! k \<le> off + sum_list (take k (code_sizes h))"
    using assms(1) by (simp add: assms(2) section_offsets_nth)
  ultimately show l: "code_offsets h ! k + code_sizes h ! k \<le> length c" using assms(3) by linarith
  show "get_code h c k = Inr (take (code_sizes h ! k) (drop (code_offsets h ! k) c))"
    using assms(1) l by (simp add: get_code_def assms(2) section_offsets_length)
qed

definition sections_typed :: "nat \<Rightarrow> EOF1Header \<Rightarrow> bytes \<Rightarrow> nat \<Rightarrow> bool" where
  "sections_typed r h c k \<longleftrightarrow>
     code_offsets h ! k + code_sizes h ! k \<le> length c \<and>
     well_typed r (eof_types h) k (take (code_sizes h ! k) (drop (code_offsets h ! k) c))"

lemma validate_sections_typed:
  assumes "code_offsets h = section_offsets off (code_sizes h)" "off + sum_list (code_sizes h) \<le> length c"
    "0 \<notin> set (code_sizes h)" "length (eof_types h) = length (code_sizes h)" "types_ok (eof_types h)"
  shows "k + n = length (code_sizes h) \<Longrightarrow>
    \<exists>res. validate_sections r h c k n = Inr res \<and> res \<noteq> Inl success \<and> (res = Inr () \<longleftrightarrow> (\<forall>i. k \<le> i \<and> i < k + n \<longrightarrow> sections_typed r h c i))"
proof (induction n arbitrary: k)
  case (Suc n)
  let ?cd = "take (code_sizes h ! k) (drop (code_offsets h ! k) c)"
  from Suc.prems have k: "k < length (code_sizes h)" by simp
  note code = get_code_inside [OF k assms(1,2)]
  have "code_sizes h ! k \<noteq> 0" using assms(3) k nth_mem by metis
  with code(1) have "?cd \<noteq> []" by auto
  from validate_section_iff [OF this assms(5)] k assms(4) obtain res
    where res: "validate_section r (eof_types h) k ?cd = Inr res" "res \<noteq> Inl success" "res = Inr () \<longleftrightarrow> well_typed r (eof_types h) k ?cd" by metis
  obtain res' where res': "validate_sections r h c (k + 1) n = Inr res'" "res' \<noteq> Inl success"
    "res' = Inr () \<longleftrightarrow> (\<forall>i. k + 1 \<le> i \<and> i < k + 1 + n \<longrightarrow> sections_typed r h c i)" using Suc.IH [of "k + 1"] Suc.prems by auto
  have split: "(\<forall>i. k \<le> i \<and> i < k + Suc n \<longrightarrow> P i) \<longleftrightarrow> P k \<and> (\<forall>i. k + 1 \<le> i \<and> i < k + 1 + n \<longrightarrow> P i)" for P
    by (metis Suc_eq_plus1 Suc_leI add_Suc_shift le_add1 le_neq_implies_less less_add_Suc1 order.strict_trans2 Suc_leD order_refl)
  have "res = Inr () \<longleftrightarrow> sections_typed r h c k" using res(3) code(1) by (simp add: sections_typed_def)
  then show ?case unfolding split [of "sections_typed r h c"] res'(3) [symmetric]
    using code(2) res(1,2) res'(1,2) by (cases res) auto
qed auto

section \<open>Containers\<close>

text \<open>What the header of an accepted container promises to the interpreter.\<close>

definition header_good :: "nat \<Rightarrow> bytes \<Rightarrow> EOF1Header \<Rightarrow> bool" where
  "header_good r c h \<longleftrightarrow>
     code_sizes h \<noteq> [] \<and> length (eof_types h) = length (code_sizes h) \<and> length (code_offsets h) = length (code_sizes h) \<and>
     types_good (eof_types h) \<and> (\<forall>k < length (code_sizes h). sections_typed r h c k)"

lemma validate_eof1_good:
  assumes "3 \<le> length c"
  shows "\<exists>res. validate_eof1 r c = Inr res \<and> res \<noteq> Inl success \<and>
    (\<forall>h. res = Inr h \<longrightarrow> read_valid_eof1_header c = Inr h \<and> header_good r c h)"
proof -
  obtain res where res: "validate_eof_headers c = Inr res" "res \<noteq> Inl success" "\<forall>hs. res = Inr hs \<longrightarrow> layout c hs"
    using validate_eof_headers_layout [OF assms] by blast
  show ?thesis
  proof (cases res)
    case (Inl e)
    with res show ?thesis by (simp add: validate_eof1_def)
  next
    case (Inr hs)
    with res(3) obtain cs d where hs: "hs = [[], [4 * length cs], cs, [d]]" and cs: "cs \<noteq> []" "0 \<notin> set cs"
      and len: "length c = eof_header_size hs + 4 * length cs + sum_list cs + d"
      and read: "read_sections c 3 [[], [], [], []] = Inr hs" by (auto simp: layout_def)
    let ?off = "eof_header_size hs"
    obtain tres where types: "validate_types c ?off (4 * length cs) = Inr tres" "tres \<noteq> Inl success"
      "\<forall>ts. tres = Inr ts \<longrightarrow> read_types c ?off (?off + 4 * length cs) = Inr ts \<and> length ts = length cs \<and> types_good ts"
      using validate_types_good [of ?off "length cs" c] cs(1) len by auto
    let ?h = "\<lambda>ts. \<lparr>eof_version = unat (c ! 2), code_sizes = cs, code_offsets = section_offsets (?off + 4 * length cs) cs,
      data_size = d, eof_types = ts\<rparr>"
    have eq: "validate_eof1 r c = bind_ok (Inr tres) (\<lambda>ts. bind_ok (validate_sections r (?h ts) c 0 (length cs)) (\<lambda>_. accept (?h ts)))"
      using res(1) Inr assms types(1) unfolding validate_eof1_def
      by (simp add: front_size_def byte_at_def hs Let_def)
    show ?thesis
    proof (cases tres)
      case (Inr ts)
      with types(3) have ts: "read_types c ?off (?off + 4 * length cs) = Inr ts" "length ts = length cs" "types_good ts" by auto
      have "types_ok (eof_types (?h ts))" using ts(3) by (auto simp: types_ok_def types_good_def)
      then obtain sres where s: "validate_sections r (?h ts) c 0 (length cs) = Inr sres" "sres \<noteq> Inl success"
        "sres = Inr () \<longleftrightarrow> (\<forall>k < length cs. sections_typed r (?h ts) c k)"
        using validate_sections_typed [of "?h ts" "?off + 4 * length cs" c 0 "length cs" r] len cs(2) ts(2) by auto
      have "read_valid_eof1_header c = Inr (?h ts)"
        using read ts(1) assms unfolding read_valid_eof1_header_def by (simp add: hs byte_at_def Let_def)
      with s ts cs(1) Inr show ?thesis unfolding eq by (cases sres) (auto simp: header_good_def section_offsets_length)
    qed (use types(2) in \<open>simp add: eq\<close>)
  qed
qed

text \<open>
  C16. For every revision and every sequence of bytes the validator of containers comes to a verdict:
  its loops end, and it reads and writes nothing outside the container, its map of immediate bytes
  and its table of stack heights. If the verdict is \<open>success\<close>, the header reader of the interpreter,
  which checks nothing, reads the container without undefined behaviour, and what it reads is good:
  there is a type for each code section, the first takes and returns nothing, all types are within
  their limits, and every code section lies in the container and is well typed.
\<close>

theorem validated_container_is_safe:
  "\<exists>verdict. validate_eof r c = Inr verdict \<and>
     (verdict = success \<longrightarrow> EVMC_CANCUN \<le> r \<and> is_eof_container c \<and>
        (\<exists>h. read_valid_eof1_header c = Inr h \<and> eof_version h = 1 \<and> header_good r c h))"
proof (cases "is_eof_container c \<and> get_eof_version c = 1 \<and> EVMC_CANCUN \<le> r")
  case True
  then have "3 \<le> length c" by (auto simp: get_eof_version_def split: if_splits)
  from validate_eof1_good [OF this, of r] obtain res where res: "validate_eof1 r c = Inr res" "res \<noteq> Inl success"
    "\<forall>h. res = Inr h \<longrightarrow> read_valid_eof1_header c = Inr h \<and> header_good r c h" by blast
  moreover have "eof_version h = 1" if "read_valid_eof1_header c = Inr h" for h
    using that True by (auto simp: read_valid_eof1_header_def bind_vm_Inr_iff Let_def byte_at_def get_eof_version_def split: if_splits)
  ultimately show ?thesis using True by (cases res) (auto simp: validate_eof_def)
qed (auto simp: validate_eof_def)

text \<open>A container whose only code section is an instruction that jumps to itself.\<close>

definition demo_code :: bytes where
  "demo_code = [0x5c, 0xff, 0xfd]"

definition demo_types :: "EOFCodeType list" where
  "demo_types = [\<lparr>ect_inputs = 0, ect_outputs = 0, ect_max_stack_height = 0\<rparr>]"

definition demo_container :: bytes where
  "demo_container = [0xef, 0, 1, 1, 0, 4, 2, 0, 1, 0, 3, 3, 0, 0, 0, 0, 0, 0, 0] @ demo_code"

lemma demo_cost: "byte_cost (get_baseline_cost_table 12 (Suc 0)) 0x5c = 2"
proof -
  have "opcode_of_byte 0x5c = Some (Op_code OP_RJUMP)" by (simp add: opcode_of_byte_def opcode_table_def)
  then show ?thesis by (simp add: byte_cost_def get_baseline_cost_table_def eof_cost_tables_def gas_costs_numeral gas_costs_update_def)
qed

lemma demo_offset: "read_int16_be [0x5c, 0xff, 0xfd] (Suc 0) = Inr (- 3)"
  by (simp add: read_int16_be_def read_uint16_be_def byte_at_def)

lemma demo_section: "validate_section 12 demo_types 0 demo_code = accept ()"
proof -
  have "validate_instructions 12 demo_code = success"
    by (simp add: demo_code_def validate_instructions_def validate_instructions_from.simps demo_cost rjump_traits tr_def)
  moreover have "validate_rjump_destinations demo_code = Inr True"
    by (simp add: demo_code_def validate_rjump_destinations_def rjump_loop.simps rjumps_at_def rjump_traits tr_def
        check_rjump_destination_def demo_offset fill_n_def)
  moreover have "validate_max_stack_height demo_code 0 demo_types = accept 0"
    by (simp add: demo_code_def demo_types_def validate_max_stack_height_def height_step_def byte_at_def stack_effect_def rjump_traits
        tr_def imm_size_at_def fill_n_def validate_fallthrough_def validate_targets_def demo_offset validate_successor_def)
  ultimately show ?thesis by (simp add: validate_section_def demo_types_def)
qed

lemma demo_headers: "validate_eof_headers demo_container = accept [[], [4], [3], [0]]"
  by (simp add: validate_eof_headers_def demo_container_def demo_code_def header_parser_init_def header_loop.simps header_steps
      header_size_at_def read_uint16_be_def byte_at_def emplace_size_def front_size_def)

lemma demo_container_accepted: "validate_eof EVMC_CANCUN demo_container = Inr success"
proof -
  have types: "validate_types demo_container 15 4 = accept demo_types"
    by (simp add: validate_types_def demo_container_def demo_code_def demo_types_def read_types.simps byte_at_def read_uint16_be_def
        type_error_def)
  have "get_code \<lparr>eof_version = Suc 0, code_sizes = [3], code_offsets = [19], data_size = 0, eof_types = demo_types\<rparr> demo_container 0 = Inr demo_code"
    by (simp add: get_code_def demo_container_def demo_code_def)
  moreover have "byte_at demo_container 2 = Inr 1" by (simp add: byte_at_def demo_container_def)
  ultimately have "\<exists>h. validate_eof1 12 demo_container = accept h"
    using types by (simp add: validate_eof1_def demo_headers front_size_def eof_header_size_def demo_section)
  then show ?thesis by (auto simp: validate_eof_def is_eof_container_def get_eof_version_def demo_container_def)
qed

theorem validated_container_is_safe_witness:
  "\<exists>h. read_valid_eof1_header demo_container = Inr h \<and> eof_version h = 1 \<and> header_good EVMC_CANCUN demo_container h"
  using validated_container_is_safe [of EVMC_CANCUN demo_container] by (simp add: demo_container_accepted)

text \<open>
  C17. The validator accepts a code section exactly when it is well typed: its instructions are complete
  and defined in the revision, relative jumps lead to starts of instructions, every instruction can be
  reached, and there is one stack height per instruction that satisfies what the instruction requires,
  changes along every edge by what the instruction does, is the declared number of outputs where the
  function returns, and has the declared maximum. The work list that computes the heights is therefore
  sound and complete for this typing.
\<close>

theorem section_accepted_iff_well_typed:
  assumes "cd \<noteq> []" "types_ok types" "idx < length types"
  shows "validate_section r types idx cd = accept () \<longleftrightarrow> well_typed r types idx cd"
  using validate_section_iff [OF assms, of r] by auto

theorem section_accepted_iff_well_typed_witness: "well_typed EVMC_CANCUN demo_types 0 demo_code"
proof -
  have "demo_code \<noteq> []" "types_ok demo_types" "0 < length demo_types" by (simp_all add: demo_code_def demo_types_def types_ok_def)
  from section_accepted_iff_well_typed [OF this] demo_section show ?thesis by blast
qed

end
