(* ===== verification/Spec2Isabelle.thy ===== *)
theory Spec2Isabelle
  imports Raft RbftView Startup Toolbox PyExec EvmMetrics IntxUdivrem EofSound
begin

text \<open>
  A verification of the node software of the weak chain (\<^verbatim>\<open>src/weak/include\<close>): the data of a
  block chain, its storage, pool, block execution with the virtual machine and the Python executor, the three
  consensus protocols that a node can be started with, its network and RPC servers, its start-up, and the tools
  that make keys and sign transactions.

  \<^bold>\<open>The program.\<close> A client sends transactions to the RPC server of a node, which parses and verifies
  them and hands the batch to the consensus assistant. The consensus (one of ListenToOne, Raft and RBFT)
  brings every command to every node in the group and executes it there through an executor. The
  executor for consensus understands two commands: \<open>ADD_TXS\<close> puts transactions into the mempool,
  \<open>EXECUTE_BLK\<close> executes and commits a block. A sealer thread on the primary turns pending transactions
  into blocks and posts them as commands; the light executor has no sealer and turns every \<open>ADD_TXS\<close>
  into a block at once. Executing a block runs its transactions against the world storage and writes
  their state changes, positions, receipts and the block to it: \<open>Div2Executor\<close> runs EVM code in an interpreter that
  was taken over from evmone, Python contracts in a child process, and accepts data as it is. Nodes talk through
  messages that a message manager frames and signs and that an HTTP or UDP assistant carries. On start-up a node reads
  the last block and all transaction hashes back from its storage and goes on from there.

  \<^bold>\<open>The theories\<close>, in the order in which they build on each other:

  \<^item> \<open>WchPrelude\<close>: machine types, the exceptions as a sum type, generic lemmas, a sample codec.
  \<^item> \<open>HexBytes\<close> (\<^verbatim>\<open>core0.hpp\<close>, \<^verbatim>\<open>core0.cpp\<close>, \<^verbatim>\<open>evmc/hex.hpp\<close>): byte strings, hexadecimal text,
    addresses and hashes; their round trips.
  \<^item> \<open>SignedMsg\<close> (\<^verbatim>\<open>net/pure-netAsstn.hpp\<close>): \<open>SignedData\<close> framing with its one-byte lengths, \<open>NaiveMsgMgr\<close>,
    \<open>SslMsgMgr\<close>. OpenSSL is the record \<open>openssl\<close>. The locale \<open>msg_manager\<close> is what the consensus uses of it.
    Shown: what is prepared is opened with sender and payload, what opens is authentic, where lengths wrap.
  \<^item> \<open>ChainCore\<close> (\<^verbatim>\<open>core0.hpp\<close>, \<^verbatim>\<open>core0.cpp\<close>, \<^verbatim>\<open>hi.proto\<close>): \<open>Tx\<close>, \<open>Blk\<close>, \<open>Acn\<close> as records over 64-bit words and
    bytes, their hashes, the order of transactions, signing payloads, deploy addresses and protobuf forms.
    A protobuf message is the record of its fields, its wire codec the parameter \<open>pb_codec\<close>; Keccak
    is a parameter.
  \<^item> \<open>PostExec\<close> (\<^verbatim>\<open>forPostExec.hpp\<close>): state changes, receipts, positions, executed blocks.
  \<^item> \<open>StdMap\<close>: \<open>std::map\<close> as its ordered list of entries, and prefix scans.
  \<^item> \<open>WorldStore\<close> (\<^verbatim>\<open>storageManager.hpp\<close>): the in-memory and the RocksDB storage behind one record of operations;
    RocksDB is the parameter record \<open>rocksdb\<close> with the laws \<open>rocksdb_laws\<close>. Shown: the second refines
    the first.
  \<^item> \<open>TxPool\<close> (\<^verbatim>\<open>cnsss/mempool.hpp\<close>): the ordered multi-index pool and the hashes it remembers; its invariant over
    all sequences of calls.
  \<^item> \<open>BlkExec\<close> (\<^verbatim>\<open>txVerifier.hpp\<close>, \<^verbatim>\<open>execManager.hpp\<close>): the verifier, \<open>executeBlk\<close>, \<open>commitBlk\<close>; the transaction
    executor is a parameter, which \<open>EvmExec\<close> and \<open>PyExec\<close> define. Shown: the exact effect of a block on state and
    chain database.
  \<^item> \<open>JsonData\<close> (\<^verbatim>\<open>core0.cpp\<close>, \<^verbatim>\<open>forPostExec.hpp\<close>, \<^verbatim>\<open>cnsss/forCnsss.hpp\<close>): JSON forms and JSON requests.
  \<^item> \<open>TxsWire\<close> (\<^verbatim>\<open>core0.hpp\<close>): batches of transactions and protobuf requests of clients.
  \<^item> \<open>CnsssExe\<close> (\<^verbatim>\<open>cnsss/forCnsss.hpp\<close>, \<^verbatim>\<open>cnsss/sealer.hpp\<close>, \<^verbatim>\<open>cnsss/exeForCnsss.hpp\<close>, \<^verbatim>\<open>cnsss/cnsssBlkChainAsstn.hpp\<close>): sealer and
    the two executors for consensus. Shown: sealed blocks form a chain and can be executed, and the commands
    an executor passes on have the same effect elsewhere.
  \<^item> \<open>ListenToOne\<close> (\<^verbatim>\<open>cnsss/pure-listenToOne.hpp\<close>): the group as a step relation; all subs agree with the primary.
    The locale \<open>replayable_executor\<close> is the contract of \<open>IForConsensusExecutable\<close>; it is met by the mock
    executor and by the chain executor on \<open>ADD_TXS\<close>.
  \<^item> \<open>Raft\<close> (\<^verbatim>\<open>cnsss/pure-raft.hpp\<close>): nodes, elections and commands as a step relation over messages in flight.
  \<^item> \<open>Rbft\<close>, \<open>RbftVotes\<close>, \<open>RbftView\<close> (\<^verbatim>\<open>cnsss/pure-rbft.hpp\<close>): the byzantine consensus. \<open>Rbft\<close> holds the node and one
    definition per handler; \<open>RbftVotes\<close> the quorums (locale \<open>quorum_system\<close>), that nothing is executed
    without one and that one round executes once; \<open>RbftView\<close> certificates, epochs, the agreement of
    primary, subs and newcomers after a view change, and the cluster as a step relation in which
    messages are lost, reordered and forged.
  \<^item> \<open>Intx\<close> (\<^verbatim>\<open>intx.hpp\<close>): the 256-bit integers on their four limbs, and that they compute what they should.
  \<^item> \<open>IntxLimbs\<close>, \<open>IntxDivision\<close>, \<open>IntxUdivrem\<close> (\<^verbatim>\<open>intx.hpp\<close>): the loops over limbs below them: carries and borrows,
    long multiplication, reciprocals, and division by one, two and more limbs. Shown: they refine the
    operations of 256-bit words that \<open>Intx\<close> and the interpreter are written with.
  \<^item> \<open>EvmHost\<close> (\<^verbatim>\<open>evmc.h\<close>, \<open>WeakEvmHost\<close> of \<^verbatim>\<open>evmExecutor.hpp\<close>): messages, results and the host of one transaction.
  \<^item> \<open>Eof\<close>, \<open>EvmTables\<close>, \<open>EvmInstr\<close>, \<open>EvmVm\<close> (\<^verbatim>\<open>pkgs/evmweak\<close>): the header reader for containers, opcodes, traits and
    gas tables of all revisions, one definition per instruction, and the interpreter loop \<open>dispatch\<close>.
  \<^item> \<open>EofValidate\<close>, \<open>EofTyping\<close>, \<open>EofSound\<close> (\<^verbatim>\<open>pkgs/evmweak/eof.cpp\<close>): the validator of containers, a typing of code by stack
    heights, and that the validator always ends without undefined behaviour and accepts exactly the typed sections.
  \<^item> \<open>EvmSafety\<close>, \<open>EvmRun\<close>, \<open>EvmEffects\<close>, \<open>EvmRef\<close>: no instruction leaves stack, memory or code; gas only falls and
    fuel above the gas is enough; stack heights follow the traits, static mode writes nothing; jump analysis, push
    data and word instructions agree with their definitions.
  \<^item> \<open>EvmExec\<close> (\<^verbatim>\<open>evmExecutor.hpp\<close>): transactions as messages, creations and calls at every depth, the journal.
  \<^item> \<open>EvmMetrics\<close> (\<^verbatim>\<open>evmc/lib/instructions\<close>): the tables of the EVMC library, and that they agree with \<open>EvmTables\<close>.
  \<^item> \<open>PyExec\<close> (\<^verbatim>\<open>div2Executor.hpp\<close>): dispatch on the type of a transaction, deployment and calls of Python contracts;
    the child process is the parameter \<open>launch\<close>. Shown: the effect of a call, that only the own account
    changes, and a call that ends the node.
  \<^item> \<open>Keccak\<close> (\<^verbatim>\<open>ethash/lib/keccak/keccak.c\<close>): the unrolled C code and the sponge of the standard; they are equal.
  \<^item> \<open>NetServe\<close> (\<^verbatim>\<open>net/\<close>): dispatch of HTTP requests and datagrams to handlers, sessions, the client that reuses
    connections, and the assistants; sockets are the parameter \<open>sockets\<close>. Shown: what is sent reaches its handler.
  \<^item> \<open>Rpc\<close> (\<^verbatim>\<open>rpc.hpp\<close>): every handler of the RPC server. Shown: committed transactions and the latest blocks are served.
  \<^item> \<open>Startup\<close> (\<^verbatim>\<open>init/init.hpp\<close>, \<^verbatim>\<open>init/options.hpp\<close>): what a node restores and which parts it makes, as a plan. Shown: a restart
    resumes the chain.
  \<^item> \<open>Toolbox\<close> (\<^verbatim>\<open>toolbox.hpp\<close>): the key and signing commands on a map of files. Shown: what they sign, a node accepts.

  \<^bold>\<open>How the code is represented.\<close> A class is a record of its fields, a method a function from the object and
  its arguments to the result and the new object. An exception that leaves a function is \<open>Inl\<close> of the
  sum type \<open>result\<close>; a read outside a container, undefined in C++, is the value \<open>UB\<close> of \<open>access\<close> or
  \<open>Undefined_read\<close>. \<open>uint8_t\<close> and \<open>uint64_t\<close> are words; the \<open>int\<close> epochs and \<open>size_t\<close> thresholds of RBFT are integers
  with the wrap-around written out. What ends the process (an exception that meets \<open>noexcept\<close>, \<open>exit\<close>) is \<open>Terminated\<close>
  of \<open>run\<close>, or one of the \<open>fault\<close>s of the virtual machine. Loops are structural recursions over the data they
  traverse; the endless loops of threads are their rounds, driven by a list of inputs or by steps. Fuel is
  needed in four places: the interpreter loop spends one unit per instruction, and more units than gas are
  shown to be enough for code without calls; calls nest at most to the number of levels \<open>execMsg\<close> is given, of which 1025
  suffice because the interpreter refuses calls from depth 1024 on; \<open>parse_peer_json\<close> follows at most
  the given number of files that name a file, and says so when there are more; and the work list of the validator has one unit
  per byte of code, which is shown to be enough. The loops of Keccak, of the client and of
  text replacement come with termination proofs. A handler of a consensus node is one step: the locks that make it one are not modelled,
  and neither is the delay between a sent message and its receipt other than as messages in flight.

  \<^bold>\<open>Not modelled.\<close> Text and little-endian forms of the integers in \<^verbatim>\<open>intx.hpp\<close>, which the node does not use;
  the advanced interpreter and the tracers, which the node never calls;
  exhaustion of memory and the lifetime of views into code; the Python and JSON interpreters, OpenSSL, RocksDB, protobuf
  and sockets, which are parameters; the accepting threads of the servers, the two simple clients, and shutdown; the text of
  the command line and of configuration files; \<^verbatim>\<open>cnsss/pure-0bft.hpp\<close>, which nothing includes; logging.
\<close>

end
